(* ===== verification/Prelude.thy ===== *)
theory Prelude
  imports Main "HOL-Library.Word"
begin

text \<open>
  Shared vocabulary of the development: the result type of operations that may raise,
  the sequencing of such operations, and the list facts the components share.
  A C++ \<open>throw cRuntimeError(...)\<close>, a failed \<open>ASSERT\<close> and a failed \<open>CHUNK_CHECK_USAGE\<close>
  all end the simulation; they are the constructors of \<open>err\<close>, and an operation that may
  raise returns \<open>err + 'a\<close> with \<open>Inl\<close> for the raise.
\<close>

section \<open>Results\<close>

datatype err =
    RuntimeError string   \<comment> \<open>throw cRuntimeError\<close>
  | AssertFailed string   \<comment> \<open>ASSERT\<close>
  | CheckFailed string    \<comment> \<open>CHUNK_CHECK_USAGE, CHUNK_CHECK_IMPLEMENTATION\<close>

type_synonym 'a res = "err + 'a"

definition bindE :: "'a res \<Rightarrow> ('a \<Rightarrow> 'b res) \<Rightarrow> 'b res" where
  "bindE m f = (case m of Inl e \<Rightarrow> Inl e | Inr a \<Rightarrow> f a)"

definition assertE :: "bool \<Rightarrow> string \<Rightarrow> unit res" where
  "assertE b s = (if b then Inr () else Inl (AssertFailed s))"

lemma bindE_simps [simp]:
  "bindE (Inl e) f = Inl e"
  "bindE (Inr a) f = f a"
  by (simp_all add: bindE_def)

lemma bindE_eq_Inr: "bindE m f = Inr b \<longleftrightarrow> (\<exists>a. m = Inr a \<and> f a = Inr b)"
  by (simp add: bindE_def split: sum.split)

lemma bindE_eq_Inl: "bindE m f = Inl e \<longleftrightarrow> m = Inl e \<or> (\<exists>a. m = Inr a \<and> f a = Inl e)"
  by (auto simp add: bindE_def split: sum.split)

lemma bindE_assoc: "bindE (bindE m f) g = bindE m (\<lambda>x. bindE (f x) g)"
  by (cases m) simp_all

lemma assertE_simps [simp]:
  "assertE True s = Inr ()"
  "assertE False s = Inl (AssertFailed s)"
  "(assertE b s = Inr u) = b"
  by (simp_all add: assertE_def)

text \<open>
  The facts about raising operations that the component proofs unfold with.
\<close>

named_theorems res_simps "case analysis of operations that may raise"
declare bindE_eq_Inr [res_simps] bindE_eq_Inl [res_simps]

section \<open>Integers\<close>

lemma int_le_div_iff: "0 < b \<Longrightarrow> (k :: int) \<le> a div b \<longleftrightarrow> k * b \<le> a"
proof
  assume b: "0 < b" and "k \<le> a div b"
  then have "k * b \<le> a div b * b" by (intro mult_right_mono) simp_all
  also have "\<dots> \<le> a div b * b + a mod b" using pos_mod_sign[OF b, of a] by linarith
  also have "\<dots> = a" by (rule div_mult_mod_eq)
  finally show "k * b \<le> a" .
next
  assume b: "0 < b" and "k * b \<le> a"
  then have "(k * b) div b \<le> a div b" by (intro zdiv_mono1)
  then show "k \<le> a div b" using b by simp
qed

section \<open>Lists\<close>

text \<open>
  \<open>std::lower_bound\<close> and \<open>std::upper_bound\<close> return the partition point of a range that is
  partitioned by the comparison; on such a range it is the length of the longest prefix
  whose elements satisfy it.
\<close>

definition partition_point :: "('a \<Rightarrow> bool) \<Rightarrow> 'a list \<Rightarrow> nat" where
  "partition_point P xs = length (takeWhile P xs)"

lemma partition_point_le [simp]: "partition_point P xs \<le> length xs"
  by (simp add: partition_point_def length_takeWhile_le)

lemma take_partition_point: "take (partition_point P xs) xs = takeWhile P xs"
  by (metis partition_point_def takeWhile_eq_take)

lemma drop_partition_point: "drop (partition_point P xs) xs = dropWhile P xs"
  by (metis partition_point_def dropWhile_eq_drop)

lemma take_partition_pointD: "x \<in> set (take (partition_point P xs) xs) \<Longrightarrow> P x"
  unfolding take_partition_point by (blast dest: set_takeWhileD)

lemma partition_point_append:
  assumes "\<forall>x \<in> set xs. P x" and "ys = [] \<or> \<not> P (hd ys)"
  shows "partition_point P (xs @ ys) = length xs"
proof -
  have "takeWhile P xs = xs" using assms(1) by (simp add: takeWhile_eq_all_conv)
  moreover have "takeWhile P ys = []" using assms(2) by (cases ys) auto
  ultimately show ?thesis
    using assms(1) by (simp add: partition_point_def)
qed

text \<open>
  The binary search of \<open>std::lower_bound\<close> itself, for a caller whose comparison need not
  partition the range; \<open>lt\<close> compares an element with the value searched for.
\<close>

function lower_bound_from :: "('a \<Rightarrow> bool) \<Rightarrow> 'a list \<Rightarrow> nat \<Rightarrow> nat \<Rightarrow> nat" where
  "lower_bound_from lt xs first len =
    (if len = 0 then first
     else if lt (xs ! (first + len div 2)) then lower_bound_from lt xs (first + len div 2 + 1) (len - len div 2 - 1)
     else lower_bound_from lt xs first (len div 2))"
  by pat_completeness auto
termination by (relation "measure (\<lambda>(lt, xs, first, len). len)") auto

declare lower_bound_from.simps [simp del]

definition lower_bound :: "('a \<Rightarrow> bool) \<Rightarrow> 'a list \<Rightarrow> nat" where
  "lower_bound lt xs = lower_bound_from lt xs 0 (length xs)"

lemma lower_bound_from_partition:
  assumes lo: "\<And>i. i < p \<Longrightarrow> lt (xs ! i)" and hi: "\<And>i. p \<le> i \<Longrightarrow> i < length xs \<Longrightarrow> \<not> lt (xs ! i)"
  shows "first \<le> p \<Longrightarrow> p \<le> first + len \<Longrightarrow> first + len \<le> length xs \<Longrightarrow> lower_bound_from lt xs first len = p"
proof (induction len arbitrary: first rule: less_induct)
  case (less len)
  let ?m = "first + len div 2"
  show ?case
  proof (cases "len = 0")
    case False
    then have m: "?m < first + len" by simp
    show ?thesis
    proof (cases "lt (xs ! ?m)")
      case True
      then have "?m < p" using hi[of ?m] m less.prems(3) by fastforce
      then have "lower_bound_from lt xs (?m + 1) (len - len div 2 - 1) = p"
        using less.IH[of "len - len div 2 - 1" "?m + 1"] less.prems False by simp
      then show ?thesis using True False by (simp add: lower_bound_from.simps[of lt xs first len])
    next
      case f: False
      then have "p \<le> ?m" using lo[of ?m] by fastforce
      then have "lower_bound_from lt xs first (len div 2) = p"
        using less.IH[of "len div 2" first] less.prems False by simp
      then show ?thesis using f False by (simp add: lower_bound_from.simps[of lt xs first len])
    qed
  qed (use less.prems in \<open>simp add: lower_bound_from.simps\<close>)
qed

lemma lower_bound_partition:
  assumes "\<And>i j. i < j \<Longrightarrow> j < length xs \<Longrightarrow> lt (xs ! j) \<Longrightarrow> lt (xs ! i)"
  shows "lower_bound lt xs = partition_point lt xs"
  unfolding lower_bound_def
proof (rule lower_bound_from_partition)
  let ?p = "partition_point lt xs"
  show lo: "lt (xs ! i)" if "i < ?p" for i
  proof -
    have "takeWhile lt xs ! i \<in> set (takeWhile lt xs)" using that by (simp add: partition_point_def)
    then show ?thesis using that takeWhile_nth[of i lt xs] by (metis partition_point_def set_takeWhileD)
  qed
  show "\<not> lt (xs ! i)" if "?p \<le> i" "i < length xs" for i
  proof -
    have "\<not> lt (xs ! ?p)" using that by (simp add: partition_point_def nth_length_takeWhile)
    then show ?thesis using assms[of ?p i] that by (cases "i = ?p") auto
  qed
qed simp_all

text \<open>The part \<open>[n, n + k)\<close> of a list, what \<open>peek(n, k)\<close> reads of a chunk.\<close>

definition peek_at :: "nat \<Rightarrow> nat \<Rightarrow> 'a list \<Rightarrow> 'a list" where
  "peek_at n k xs = take k (drop n xs)"

lemma length_peek_at [simp]: "length (peek_at n k xs) = min k (length xs - n)"
  by (simp add: peek_at_def)

lemma nth_peek_at: "i < k \<Longrightarrow> n + k \<le> length xs \<Longrightarrow> peek_at n k xs ! i = xs ! (n + i)"
  by (simp add: peek_at_def)

lemma peek_at_append: "peek_at n k xs @ peek_at (n + k) m xs = peek_at n (k + m) xs"
  by (simp add: peek_at_def take_add add.commute)

lemma peek_at_all [simp]: "peek_at 0 (length xs) xs = xs"
  by (simp add: peek_at_def)

text \<open>Consecutive pieces of length \<open>F\<close>, the last one cut at \<open>N\<close>, make up \<open>N\<close> elements.\<close>

lemma concat_pieces:
  "concat (map (\<lambda>j. peek_at (a + F * j) (min F (N - F * j)) xs) [0..<n]) = peek_at a (min (F * n) N) xs"
proof (induction n)
  case 0
  then show ?case by (simp add: peek_at_def)
next
  case (Suc n)
  have "peek_at a (min (F * n) N) xs @ peek_at (a + F * n) (min F (N - F * n)) xs
      = peek_at a (min (F * Suc n) N) xs"
  proof (cases "F * n \<le> N")
    case True
    then have "min (F * n) N = F * n" "F * n + min F (N - F * n) = min (F * Suc n) N"
      by (auto simp: min_def)
    then show ?thesis using peek_at_append[of a "F * n" xs "min F (N - F * n)"] by simp
  next
    case False
    then show ?thesis by (simp add: peek_at_def)
  qed
  then show ?case using Suc by simp
qed

lemma concat_map_cong_neutral:
  assumes "\<And>x. x \<in> set xs \<Longrightarrow> f x = [x]"
  shows "concat (map f xs) = xs"
  using assms by (induction xs) auto

section \<open>\<open>std::map\<close>\<close>

text \<open>
  A \<open>std::map\<close> is the list of its entries in key order, which is the order the code iterates
  in. The locale states what its users rely on.
\<close>

fun map_insert :: "'k::linorder \<Rightarrow> 'v \<Rightarrow> ('k \<times> 'v) list \<Rightarrow> ('k \<times> 'v) list" where
  "map_insert k v [] = [(k, v)]"
| "map_insert k v ((k', v') # m) =
    (if k < k' then (k, v) # (k', v') # m
     else if k = k' then (k, v) # m
     else (k', v') # map_insert k v m)"

definition map_erase :: "'k \<Rightarrow> ('k \<times> 'v) list \<Rightarrow> ('k \<times> 'v) list" where
  "map_erase k m = filter (\<lambda>e. fst e \<noteq> k) m"

definition map_ok :: "('k::linorder \<times> 'v) list \<Rightarrow> bool" where
  "map_ok m \<longleftrightarrow> sorted_wrt (<) (map fst m)"

locale finite_map =
  fixes get :: "'m \<Rightarrow> 'k \<Rightarrow> 'v option"
    and put :: "'k \<Rightarrow> 'v \<Rightarrow> 'm \<Rightarrow> 'm"
    and del :: "'k \<Rightarrow> 'm \<Rightarrow> 'm"
    and ok :: "'m \<Rightarrow> bool"
  assumes get_put: "ok m \<Longrightarrow> get (put k v m) = (get m)(k \<mapsto> v)"
    and get_del: "ok m \<Longrightarrow> get (del k m) = (get m)(k := None)"
    and ok_put: "ok m \<Longrightarrow> ok (put k v m)"
    and ok_del: "ok m \<Longrightarrow> ok (del k m)"
begin

lemma get_put_same: "ok m \<Longrightarrow> get (put k v m) k = Some v"
  by (simp add: get_put)

lemma get_put_other: "ok m \<Longrightarrow> k' \<noteq> k \<Longrightarrow> get (put k v m) k' = get m k'"
  by (simp add: get_put)

lemma get_del_same: "ok m \<Longrightarrow> get (del k m) k = None"
  by (simp add: get_del)

lemma get_del_other: "ok m \<Longrightarrow> k' \<noteq> k \<Longrightarrow> get (del k m) k' = get m k'"
  by (simp add: get_del)

lemma get_put_put: "ok m \<Longrightarrow> get (put k v (put k w m)) = get (put k v m)"
  by (simp add: get_put ok_put)

lemma get_del_put: "ok m \<Longrightarrow> get m k = None \<Longrightarrow> get (del k (put k v m)) = get m"
  by (auto simp: get_put ok_put get_del)

end

lemma keys_map_insert: "fst ` set (map_insert k v m) = insert k (fst ` set m)"
proof (induction m)
  case (Cons e m)
  then show ?case by (cases e) (simp add: insert_commute)
qed simp

lemma map_ok_Cons: "map_ok (e # m) \<longleftrightarrow> map_ok m \<and> (\<forall>e' \<in> set m. fst e < fst e')"
  by (auto simp: map_ok_def)

lemma map_ok_Nil [simp]: "map_ok []"
  by (simp add: map_ok_def)

lemma map_ok_insert: "map_ok m \<Longrightarrow> map_ok (map_insert k v m)"
proof (induction m)
  case (Cons e m)
  obtain k' v' where e: "e = (k', v')" by (cases e)
  have m: "map_ok m" and lt: "\<forall>k'' \<in> fst ` set m. k' < k''"
    using Cons.prems by (auto simp: map_ok_Cons e)
  have "\<forall>k'' \<in> fst ` set (map_insert k v m). k' < k''" if "k' < k"
    using lt that by (auto simp: keys_map_insert)
  then show ?case using Cons.IH[OF m] m lt by (auto simp: map_ok_Cons e)
qed (simp add: map_ok_Cons)

lemma map_of_insert: "map_ok m \<Longrightarrow> map_of (map_insert k v m) = (map_of m)(k \<mapsto> v)"
  by (induction m) (auto simp: map_ok_Cons fun_upd_twist)

lemma map_of_erase: "map_of (map_erase k m) = (map_of m)(k := None)"
  by (induction m) (auto simp: map_erase_def)

lemma map_ok_erase: "map_ok m \<Longrightarrow> map_ok (map_erase k m)"
  by (induction m) (auto simp: map_ok_Cons map_erase_def)

lemma map_of_filter_ok:
  "map_ok m \<Longrightarrow> map_of (filter P m) k = (case map_of m k of Some v \<Rightarrow> if P (k, v) then Some v else None | None \<Rightarrow> None)"
proof (induction m)
  case (Cons e m)
  then have "k = fst e \<Longrightarrow> map_of m k = None"
    by (auto simp: map_ok_Cons map_of_eq_None_iff)
  then show ?case using Cons by (cases e) (auto simp: map_ok_Cons)
qed simp

lemma map_ok_filter: "map_ok m \<Longrightarrow> map_ok (filter P m)"
  by (induction m) (auto simp: map_ok_Cons)

lemma map_ok_map: "map_ok (map (\<lambda>(k, v). (k, f k v)) m) = map_ok m"
  by (simp add: map_ok_def comp_def case_prod_unfold)

lemma set_map_insert: "set (map_insert k v m) \<subseteq> insert (k, v) (set m)"
  by (induction m) (auto split: if_splits)

interpretation std_map: finite_map map_of map_insert map_erase map_ok
  by unfold_locales (simp_all add: map_of_insert map_of_erase map_ok_insert map_ok_erase)

lemma map_of_in_set: "map_ok m \<Longrightarrow> map_of m k = Some v \<longleftrightarrow> (k, v) \<in> set m"
  by (induction m) (auto simp: map_ok_Cons)

section \<open>\<open>std::string\<close>\<close>

text \<open>\<open>find\<close> of a substring, and the cut \<open>resize(find(s))\<close> when it occurs.\<close>

fun string_find :: "string \<Rightarrow> string \<Rightarrow> nat option" where
  "string_find pat [] = (if pat = [] then Some 0 else None)"
| "string_find pat (c # cs) =
    (if take (length pat) (c # cs) = pat then Some 0 else map_option Suc (string_find pat cs))"

definition cut_at :: "string \<Rightarrow> string \<Rightarrow> string" where
  "cut_at pat s = (case string_find pat s of Some n \<Rightarrow> take n s | None \<Rightarrow> s)"

text \<open>\<open>std::to_string\<close> of a non-negative number.\<close>

fun string_of_nat :: "nat \<Rightarrow> string" where
  "string_of_nat n =
    (if n < 10 then [char_of (48 + n)] else string_of_nat (n div 10) @ [char_of (48 + n mod 10)])"

declare string_of_nat.simps [simp del]

end
