(* ===== verification/Packets.thy ===== *)
theory Packets
  imports Prelude
begin

text \<open>
  The data that travels between the modules: protocols and addresses, the protocol headers,
  the tags attached to a packet, and \<open>Packet\<close> itself (\<open>common/packet/Packet.{h,cc}\<close>) with its
  content, its front and back offsets, and the operations that read, pop, insert and remove
  at its ends. The content of a packet is the list of its bytes: a byte is either raw data or
  byte \<open>i\<close> of a header, so slicing a packet through a header is expressible and a header is
  only found again where all its bytes are. Lengths and offsets are in bytes; a length
  field of a header, of type \<open>B\<close> (\<open>int64_t\<close>), is an \<open>int\<close>.
\<close>

section \<open>Protocols and addresses\<close>

datatype protocol =
    P_rdma | P_udp | P_tcp | P_icmpv4 | P_icmpv6 | P_igmp | P_ipv4 | P_ipv6
  | P_nextHopForwarding | P_ethernetMac | P_ieee8022llc | P_arp | P_stp
  | P_named string

type_synonym ipv4_address = "32 word"
type_synonym mac_address = "48 word"
type_synonym port = "16 word"
type_synonym simtime = int

datatype l3_address =
    L3None | L3IPv4 ipv4_address | L3IPv6 "128 word" | L3Mac mac_address
  | L3ModulePath int | L3ModuleId int

unbundle bit_operations_syntax

definition ip_isUnspecified :: "ipv4_address \<Rightarrow> bool" where
  "ip_isUnspecified a \<longleftrightarrow> a = 0"

definition ip_isMulticast :: "ipv4_address \<Rightarrow> bool" where
  "ip_isMulticast a \<longleftrightarrow> a AND 0xF0000000 = 0xE0000000"

definition ip_isLinkLocalMulticast :: "ipv4_address \<Rightarrow> bool" where
  "ip_isLinkLocalMulticast a \<longleftrightarrow> a AND 0xFFFFFF00 = 0xE0000000"

definition ip_isLimitedBroadcast :: "ipv4_address \<Rightarrow> bool" where
  "ip_isLimitedBroadcast a \<longleftrightarrow> a = 0xFFFFFFFF"

text \<open>\<open>ModuleIdAddress\<close> and \<open>ModulePathAddress\<close> are unspecified at 0.\<close>

fun l3_isUnspecified :: "l3_address \<Rightarrow> bool" where
  "l3_isUnspecified L3None = True"
| "l3_isUnspecified (L3IPv4 a) = ip_isUnspecified a"
| "l3_isUnspecified (L3IPv6 a) = (a = 0)"
| "l3_isUnspecified (L3Mac a) = (a = 0)"
| "l3_isUnspecified (L3ModulePath i) = (i = 0)"
| "l3_isUnspecified (L3ModuleId i) = (i = 0)"

fun l3_toIpv4 :: "l3_address \<Rightarrow> ipv4_address res" where
  "l3_toIpv4 L3None = Inr 0"
| "l3_toIpv4 (L3IPv4 a) = Inr a"
| "l3_toIpv4 _ = Inl (RuntimeError ''Address is not of the given type'')"

definition mac_isBroadcast :: "mac_address \<Rightarrow> bool" where
  "mac_isBroadcast a \<longleftrightarrow> a = 0xFFFFFFFFFFFF"

definition getAddressByte :: "nat \<Rightarrow> mac_address \<Rightarrow> 8 word" where
  "getAddressByte k a = ucast (drop_bit ((6 - k - 1) * 8) a)"

definition mac_isMulticast :: "mac_address \<Rightarrow> bool" where
  "mac_isMulticast a \<longleftrightarrow> getAddressByte 0 a AND 1 \<noteq> 0"

definition ip6_isMulticast :: "128 word \<Rightarrow> bool" where
  "ip6_isMulticast a \<longleftrightarrow> drop_bit 120 a = 0xFF"

fun l3_isMulticast :: "l3_address \<Rightarrow> bool res" where
  "l3_isMulticast L3None = Inl (RuntimeError ''Address contains no value'')"
| "l3_isMulticast (L3IPv4 a) = Inr (ip_isMulticast a)"
| "l3_isMulticast (L3IPv6 a) = Inr (ip6_isMulticast a)"
| "l3_isMulticast (L3Mac a) = Inr (mac_isMulticast a)"
| "l3_isMulticast (L3ModulePath i) = Inr (i < -1)"
| "l3_isMulticast (L3ModuleId i) = Inr (i < -1)"

fun l3_isBroadcast :: "l3_address \<Rightarrow> bool res" where
  "l3_isBroadcast L3None = Inl (RuntimeError ''Address contains no value'')"
| "l3_isBroadcast (L3IPv4 a) = Inr (ip_isLimitedBroadcast a)"
| "l3_isBroadcast (L3IPv6 a) = Inr False"
| "l3_isBroadcast (L3Mac a) = Inr (mac_isBroadcast a)"
| "l3_isBroadcast (L3ModulePath i) = Inr (i = -1)"
| "l3_isBroadcast (L3ModuleId i) = Inr (i = -1)"

text \<open>The order of addresses: first by type, then by value. Two empty addresses are never compared.\<close>

fun l3_type :: "l3_address \<Rightarrow> nat" where
  "l3_type L3None = 0" | "l3_type (L3IPv4 _) = 1" | "l3_type (L3IPv6 _) = 2"
| "l3_type (L3Mac _) = 4" | "l3_type (L3ModulePath _) = 5" | "l3_type (L3ModuleId _) = 6"

fun l3_less :: "l3_address \<Rightarrow> l3_address \<Rightarrow> bool" where
  "l3_less (L3IPv4 a) (L3IPv4 b) = (a < b)"
| "l3_less (L3IPv6 a) (L3IPv6 b) = (a < b)"
| "l3_less (L3Mac a) (L3Mac b) = (a < b)"
| "l3_less (L3ModulePath a) (L3ModulePath b) = (a < b)"
| "l3_less (L3ModuleId a) (L3ModuleId b) = (a < b)"
| "l3_less a b = (l3_type a < l3_type b)"

lemma linkLocalMulticast_isMulticast: "ip_isLinkLocalMulticast a \<Longrightarrow> ip_isMulticast a"
proof -
  assume "ip_isLinkLocalMulticast a"
  then have "(a AND 0xFFFFFF00) AND 0xF0000000 = 0xE0000000" by (simp add: ip_isLinkLocalMulticast_def)
  then show ?thesis by (simp add: ip_isMulticast_def and.assoc)
qed

section \<open>Headers\<close>

datatype crc_mode = CRC_MODE_UNDEFINED | CRC_DISABLED | CRC_DECLARED_CORRECT | CRC_DECLARED_INCORRECT | CRC_COMPUTED

record rdma_header =
  rh_srcPort :: port
  rh_destPort :: port
  rh_totalLength :: int
  rh_crc :: "16 word"
  rh_crcMode :: crc_mode
  rh_moreFragments :: bool
  rh_fragmentOffset :: int
  rh_identification :: "16 word"

definition new_rdma_header :: rdma_header where
  "new_rdma_header = \<lparr>rh_srcPort = 0, rh_destPort = 0, rh_totalLength = -1, rh_crc = 0,
     rh_crcMode = CRC_MODE_UNDEFINED, rh_moreFragments = False, rh_fragmentOffset = 0, rh_identification = 0\<rparr>"

record udp_header =
  uh_srcPort :: port
  uh_destPort :: port
  uh_totalLength :: int
  uh_crc :: "16 word"
  uh_crcMode :: crc_mode
  uh_moreFragments :: bool
  uh_fragmentOffset :: "32 word"
  uh_identification :: "16 word"

definition new_udp_header :: udp_header where
  "new_udp_header = \<lparr>uh_srcPort = 0, uh_destPort = 0, uh_totalLength = -1, uh_crc = 0,
     uh_crcMode = CRC_MODE_UNDEFINED, uh_moreFragments = False, uh_fragmentOffset = 0, uh_identification = 0\<rparr>"

text \<open>
  A copy of a header, as \<open>dup\<close>, \<open>dupShared\<close> and taking a shared header out of a packet make it. The
  \<open>copy\<close> functions do not know the three fields that were added for fragmentation, which keep
  their initial values.
\<close>

definition rdma_dup :: "rdma_header \<Rightarrow> rdma_header" where
  "rdma_dup h = new_rdma_header\<lparr>rh_srcPort := rh_srcPort h, rh_destPort := rh_destPort h,
     rh_totalLength := rh_totalLength h, rh_crc := rh_crc h, rh_crcMode := rh_crcMode h\<rparr>"

definition udp_dup :: "udp_header \<Rightarrow> udp_header" where
  "udp_dup h = new_udp_header\<lparr>uh_srcPort := uh_srcPort h, uh_destPort := uh_destPort h,
     uh_totalLength := uh_totalLength h, uh_crc := uh_crc h, uh_crcMode := uh_crcMode h\<rparr>"

lemma rdma_dup_eq: "rdma_dup h = h\<lparr>rh_moreFragments := False, rh_fragmentOffset := 0, rh_identification := 0\<rparr>"
  by (simp add: rdma_dup_def new_rdma_header_def)

lemma udp_dup_eq: "udp_dup h = h\<lparr>uh_moreFragments := False, uh_fragmentOffset := 0, uh_identification := 0\<rparr>"
  by (simp add: udp_dup_def new_udp_header_def)

text \<open>
  An IPv4 option is the list of bytes it is serialized to; its length is theirs.
  The version is always 4 and the reserved bit is never set by the modelled code.
\<close>

record ipv4_header =
  ih_headerLength :: int
  ih_typeOfService :: "8 word"
  ih_totalLength :: int
  ih_identification :: "16 word"
  ih_moreFragments :: bool
  ih_dontFragment :: bool
  ih_fragmentOffset :: int
  ih_timeToLive :: int
  ih_protocolId :: int
  ih_crc :: "16 word"
  ih_crcMode :: crc_mode
  ih_srcAddress :: ipv4_address
  ih_destAddress :: ipv4_address
  ih_options :: "8 word list list"

record app_header =
  ah_chunkLength :: nat
  ah_sequenceNumber :: "32 word"
  ah_moreFragments :: bool
  ah_fragmentOffset :: "32 word"
  ah_id :: "int option"       \<comment> \<open>\<open>None\<close> until it is set: the member has no initializer\<close>
  ah_totalLength :: int

definition new_app_header :: "nat \<Rightarrow> app_header" where
  "new_app_header len = \<lparr>ah_chunkLength = len, ah_sequenceNumber = 0, ah_moreFragments = False,
     ah_fragmentOffset = 0, ah_id = None, ah_totalLength = -1\<rparr>"

text \<open>A copy keeps the chunk length and the sequence number alone.\<close>

definition app_dup :: "app_header \<Rightarrow> app_header" where
  "app_dup h = (new_app_header (ah_chunkLength h))\<lparr>ah_sequenceNumber := ah_sequenceNumber h\<rparr>"

record mac_header =
  mh_dest :: mac_address
  mh_src :: mac_address
  mh_typeOrLength :: int
  mh_isRdma :: "int option"   \<comment> \<open>\<open>None\<close> until it is set: the constructor leaves it uninitialized\<close>
  mh_generationTime :: simtime

definition new_mac_header :: mac_header where
  "new_mac_header = \<lparr>mh_dest = 0, mh_src = 0, mh_typeOrLength = 0, mh_isRdma = None, mh_generationTime = 0\<rparr>"

record arp_packet =
  ap_opcode :: int
  ap_srcMac :: mac_address
  ap_destMac :: mac_address
  ap_srcIp :: ipv4_address
  ap_destIp :: ipv4_address

definition new_arp_packet :: arp_packet where
  "new_arp_packet = \<lparr>ap_opcode = -1, ap_srcMac = 0, ap_destMac = 0, ap_srcIp = 0, ap_destIp = 0\<rparr>"

text \<open>The classes of an ICMP message; they extend \<open>IcmpHeader\<close>.\<close>

datatype icmp_class =
    IcmpHeaderC
  | IcmpEchoRequestC int int      \<comment> \<open>identifier, sequence number\<close>
  | IcmpEchoReplyC int int
  | IcmpPtbC "16 word" "16 word"  \<comment> \<open>unused, mtu\<close>

record icmp_header =
  ic_type :: int
  ic_code :: int
  ic_chksum :: int
  ic_crcMode :: crc_mode
  ic_class :: icmp_class

definition new_icmp_header :: icmp_header where
  "new_icmp_header = \<lparr>ic_type = -1, ic_code = -1, ic_chksum = 0, ic_crcMode = CRC_MODE_UNDEFINED, ic_class = IcmpHeaderC\<rparr>"

definition new_icmp_echo_reply :: icmp_header where
  "new_icmp_echo_reply = \<lparr>ic_type = 0, ic_code = 0, ic_chksum = 0, ic_crcMode = CRC_MODE_UNDEFINED, ic_class = IcmpEchoReplyC 0 0\<rparr>"

definition new_icmp_ptb :: icmp_header where
  "new_icmp_ptb = \<lparr>ic_type = 3, ic_code = 4, ic_chksum = 0, ic_crcMode = CRC_MODE_UNDEFINED, ic_class = IcmpPtbC 0 0\<rparr>"

datatype header =
    RdmaH rdma_header | UdpH udp_header | Ipv4H ipv4_header | AppH app_header
  | MacH mac_header | FcsH nat | ArpH arp_packet
  | LlcH int int int   \<comment> \<open>ssap, dsap, control\<close>
  | SnapH int int      \<comment> \<open>oui and protocol id, behind ssap and dsap 0xAA and control 3\<close>
  | PauseH int
  | IcmpH icmp_header
  | Icmpv6H int
  | Ipv6H "128 word" "128 word" "int option" nat
      \<comment> \<open>source, destination, offset of the fragment header, bytes of the extension headers\<close>
  | OtherH nat nat

fun header_length :: "header \<Rightarrow> nat" where
  "header_length (RdmaH h) = 8"
| "header_length (UdpH h) = 8"
| "header_length (Ipv4H h) = 20 + sum_list (map length (ih_options h))"
| "header_length (AppH h) = ah_chunkLength h"
| "header_length (MacH h) = 14"
| "header_length (FcsH m) = 4"
| "header_length (ArpH a) = 28"
| "header_length (LlcH _ _ _) = 3"
| "header_length (SnapH _ _) = 8"
| "header_length (PauseH _) = 4"
| "header_length (IcmpH _) = 8"
| "header_length (Icmpv6H _) = 4"
| "header_length (Ipv6H _ _ _ n) = 40 + n"
| "header_length (OtherH _ n) = n"

fun as_rdma :: "header \<Rightarrow> rdma_header option" where
  "as_rdma (RdmaH h) = Some h" | "as_rdma _ = None"

fun as_udp :: "header \<Rightarrow> udp_header option" where
  "as_udp (UdpH h) = Some h" | "as_udp _ = None"

fun as_ipv4 :: "header \<Rightarrow> ipv4_header option" where
  "as_ipv4 (Ipv4H h) = Some h" | "as_ipv4 _ = None"

fun as_app :: "header \<Rightarrow> app_header option" where
  "as_app (AppH h) = Some h" | "as_app _ = None"

fun as_mac :: "header \<Rightarrow> mac_header option" where
  "as_mac (MacH h) = Some h" | "as_mac _ = None"

fun as_fcs :: "header \<Rightarrow> nat option" where
  "as_fcs (FcsH m) = Some m" | "as_fcs _ = None"

fun as_arp :: "header \<Rightarrow> arp_packet option" where
  "as_arp (ArpH a) = Some a" | "as_arp _ = None"

fun as_icmp :: "header \<Rightarrow> icmp_header option" where
  "as_icmp (IcmpH h) = Some h" | "as_icmp _ = None"

fun as_echo_request :: "header \<Rightarrow> (int \<times> int) option" where
  "as_echo_request (IcmpH h) = (case ic_class h of IcmpEchoRequestC i n \<Rightarrow> Some (i, n) | _ \<Rightarrow> None)"
| "as_echo_request _ = None"

fun as_icmpv6 :: "header \<Rightarrow> int option" where
  "as_icmpv6 (Icmpv6H t) = Some t" | "as_icmpv6 _ = None"

fun as_ipv6 :: "header \<Rightarrow> (128 word \<times> 128 word \<times> int option) option" where
  "as_ipv6 (Ipv6H s d f n) = Some (s, d, f)" | "as_ipv6 _ = None"

text \<open>\<open>popAtFront<Ieee8022LlcHeader>\<close> accepts the SNAP header too, which extends it.\<close>

datatype llc_header = Llc int int int | Snap int int

fun as_llc :: "header \<Rightarrow> llc_header option" where
  "as_llc (LlcH s d c) = Some (Llc s d c)" | "as_llc (SnapH oui n) = Some (Snap oui n)" | "as_llc _ = None"

section \<open>Content\<close>

datatype cell = Data "8 word" | HB header nat

definition header_cells :: "header \<Rightarrow> cell list" where
  "header_cells h = map (HB h) [0..<header_length h]"

lemma length_header_cells [simp]: "length (header_cells h) = header_length h"
  by (simp add: header_cells_def)

text \<open>
  The header at the front of a list of bytes. The representation of a chunk is never
  converted implicitly: anything but a complete header of the asked type is an error.
\<close>

definition header_at :: "cell list \<Rightarrow> header option" where
  "header_at xs = (case xs of HB h 0 # _ \<Rightarrow>
      if take (header_length h) xs = header_cells h then Some h else None | _ \<Rightarrow> None)"

lemma header_cells_Cons:
  "0 < header_length h \<Longrightarrow> header_cells h = HB h 0 # map (HB h) [1..<header_length h]"
  by (simp add: header_cells_def upt_conv_Cons)

lemma header_at_cells [simp]: "0 < header_length h \<Longrightarrow> header_at (header_cells h @ xs) = Some h"
proof -
  assume h: "0 < header_length h"
  have "take (header_length h) (header_cells h @ xs) = header_cells h" by simp
  moreover obtain ys where "header_cells h @ xs = HB h 0 # ys" using header_cells_Cons[OF h] by simp
  ultimately show ?thesis by (simp add: header_at_def)
qed

lemma header_at_Some:
  "header_at xs = Some h \<Longrightarrow> 0 < header_length h \<Longrightarrow> \<exists>ys. xs = header_cells h @ ys"
  by (auto simp: header_at_def split: list.splits cell.splits nat.splits if_splits)
     (metis append_take_drop_id)

section \<open>Tags\<close>

record l3_address_req =
  lr_src :: l3_address
  lr_dest :: l3_address
  lr_nonLocalSrc :: bool

record tags =
  t_packetProtocol :: "protocol option"
  t_dispatchReq :: "protocol option"
  t_dispatchInd :: "protocol option"
  t_l3AddressReq :: "l3_address_req option"
  t_l3AddressInd :: "(l3_address \<times> l3_address) option"
  t_l4PortReq :: "(int \<times> int) option"
  t_l4PortInd :: "(int \<times> int) option"
  t_interfaceReq :: "int option"
  t_interfaceInd :: "int option"
  t_networkInd :: "(protocol \<times> header option) option"
  t_transportInd :: "(protocol \<times> header) option"
  t_hopLimitReq :: "int option"
  t_hopLimitInd :: "int option"
  t_fragmentationReq :: "bool option"
  t_tosReq :: "8 word option"
  t_tosInd :: "8 word option"
  t_dscpReq :: "8 word option"
  t_dscpInd :: "8 word option"
  t_ecnReq :: "8 word option"
  t_ecnInd :: "8 word option"
  t_multicastReq :: "bool option"
  t_nextHopReq :: "ipv4_address option"
  t_macReq :: "(mac_address \<times> mac_address) option"
  t_macInd :: "(mac_address \<times> mac_address) option"
  t_creationTime :: "simtime option"
  t_socketReq :: "int option"
  t_socketInd :: "int option"
  t_optionsReq :: "8 word list list option"
  t_vlanReq :: "int option"
  t_vlanInd :: "int option"
  t_userPriorityReq :: "int option"
  t_userPriorityInd :: "int option"
  t_outbound :: "bool option"   \<comment> \<open>\<open>DirectionTag\<close>\<close>
  t_sapReq :: "(int \<times> int) option"
  t_sapInd :: "(int \<times> int) option"

definition no_tags :: tags where
  "no_tags = \<lparr>t_packetProtocol = None, t_dispatchReq = None, t_dispatchInd = None,
     t_l3AddressReq = None, t_l3AddressInd = None, t_l4PortReq = None, t_l4PortInd = None,
     t_interfaceReq = None, t_interfaceInd = None, t_networkInd = None, t_transportInd = None,
     t_hopLimitReq = None, t_hopLimitInd = None, t_fragmentationReq = None,
     t_tosReq = None, t_tosInd = None, t_dscpReq = None, t_dscpInd = None, t_ecnReq = None, t_ecnInd = None,
     t_multicastReq = None, t_nextHopReq = None, t_macReq = None, t_macInd = None,
     t_creationTime = None, t_socketReq = None, t_socketInd = None, t_optionsReq = None,
     t_vlanReq = None, t_vlanInd = None, t_userPriorityReq = None, t_userPriorityInd = None,
     t_outbound = None, t_sapReq = None, t_sapInd = None\<rparr>"

text \<open>\<open>getTag<T>\<close> raises when the packet has no such tag.\<close>

definition getTag :: "'a option \<Rightarrow> 'a res" where
  "getTag t = (case t of Some x \<Rightarrow> Inr x | None \<Rightarrow> Inl (RuntimeError ''Tag not found''))"

lemma getTag_simps [simp]:
  "getTag (Some x) = Inr x" "getTag None = Inl (RuntimeError ''Tag not found'')"
  "getTag t = Inr x \<longleftrightarrow> t = Some x"
  by (simp_all add: getTag_def split: option.split)

section \<open>Channels\<close>

text \<open>
  The transmission channel behind an output gate, as a handler sees it: nothing when there is no such
  channel, otherwise whether it is busy and when a transmission started now ends. A transmission takes
  time, so the channel is busy for the rest of the handler that has sent on it. A send is an output of the
  handler: that the framework refuses one on a busy channel is not modelled.
\<close>

definition channel_sent :: "(bool \<times> simtime) option \<Rightarrow> (bool \<times> simtime) option" where
  "channel_sent channel = map_option (\<lambda>(busy, finish). (True, finish)) channel"

section \<open>Packets\<close>

record packet =
  pk_name :: string
  pk_kind :: int
  pk_content :: "cell list"
  pk_front :: nat
  pk_back :: nat
  pk_creation :: simtime
  pk_tags :: tags

definition new_packet :: "string \<Rightarrow> simtime \<Rightarrow> packet" where
  "new_packet name now = \<lparr>pk_name = name, pk_kind = 0, pk_content = [], pk_front = 0, pk_back = 0,
     pk_creation = now, pk_tags = no_tags\<rparr>"

text \<open>\<open>pk_back\<close> is the position of the back iterator, measured from the end.\<close>

definition packet_ok :: "packet \<Rightarrow> bool" where
  "packet_ok p \<longleftrightarrow> pk_front p + pk_back p \<le> length (pk_content p)"

definition totalLength :: "packet \<Rightarrow> nat" where
  "totalLength p = length (pk_content p)"

definition dataLength :: "packet \<Rightarrow> nat" where
  "dataLength p = totalLength p - pk_front p - pk_back p"

definition backOffset :: "packet \<Rightarrow> nat" where
  "backOffset p = totalLength p - pk_back p"

definition pk_data :: "packet \<Rightarrow> cell list" where
  "pk_data p = peek_at (pk_front p) (dataLength p) (pk_content p)"

lemma length_pk_data [simp]: "length (pk_data p) = dataLength p"
  by (simp add: pk_data_def dataLength_def totalLength_def)

definition setFrontOffset :: "int \<Rightarrow> packet \<Rightarrow> packet res" where
  "setFrontOffset off p =
    (if 0 \<le> off \<and> off \<le> int (totalLength p) - int (pk_back p)
     then Inr (p\<lparr>pk_front := nat off\<rparr>) else Inl (CheckFailed ''offset is out of range''))"

definition setBackOffset :: "int \<Rightarrow> packet \<Rightarrow> packet res" where
  "setBackOffset off p =
    (if int (pk_front p) \<le> off \<and> off \<le> int (totalLength p)
     then Inr (p\<lparr>pk_back := nat (int (totalLength p) - off)\<rparr>)
     else Inl (CheckFailed ''offset is out of range''))"

text \<open>
  \<open>insertAt\<close> moves the front iterator only when the insertion is strictly before it, and
  the back iterator only when it is strictly after it.
\<close>

definition insertAt :: "cell list \<Rightarrow> nat \<Rightarrow> packet \<Rightarrow> packet res" where
  "insertAt chunk off p =
    (if chunk = [] then Inl (CheckFailed ''chunk is empty'')
     else if off > totalLength p then Inl (CheckFailed ''offset is out of range'')
     else Inr (p\<lparr>pk_content := take off (pk_content p) @ chunk @ drop off (pk_content p),
                 pk_front := (if off < pk_front p then pk_front p + length chunk else pk_front p),
                 pk_back := (if off > backOffset p then pk_back p + length chunk else pk_back p)\<rparr>))"

definition insertAtFront :: "cell list \<Rightarrow> packet \<Rightarrow> packet res" where
  "insertAtFront chunk p = insertAt chunk (pk_front p) p"

definition insertAtBack :: "cell list \<Rightarrow> packet \<Rightarrow> packet res" where
  "insertAtBack chunk p = insertAt chunk (backOffset p) p"

text \<open>
  \<open>eraseAt\<close> removes a range at the beginning or at the end of the content. A range in the
  middle is refused: there the code asks the chunk for a part that is longer than what
  follows the range (\<open>totalLength - length\<close> bytes from \<open>offset + length\<close>).
\<close>

definition eraseAt :: "nat \<Rightarrow> nat \<Rightarrow> packet \<Rightarrow> packet res" where
  "eraseAt off len p =
    (if off + len > totalLength p then Inl (CheckFailed ''length is invalid'')
     else if off \<noteq> 0 \<and> off + len \<noteq> totalLength p then Inl (CheckFailed ''length is invalid'')
     else let c = take off (pk_content p) @ drop (off + len) (pk_content p);
              bo = backOffset p
          in Inr (p\<lparr>pk_content := c,
                    pk_front := (if off < pk_front p then off else pk_front p),
                    pk_back := (if bo < off + len then pk_back p - (off + len - bo) else pk_back p)\<rparr>))"

definition trimFront :: "packet \<Rightarrow> packet res" where
  "trimFront p = (let len = pk_front p in
     bindE (setFrontOffset 0 p) (\<lambda>p. eraseAt (pk_front p) len p))"

definition trimBack :: "packet \<Rightarrow> packet res" where
  "trimBack p = (let len = pk_back p in
     bindE (setBackOffset (int (totalLength p)) p) (\<lambda>p. eraseAt (backOffset p - len) len p))"

definition trim :: "packet \<Rightarrow> packet res" where
  "trim p = bindE (trimFront p) trimBack"

definition peek_error :: err where
  "peek_error = RuntimeError ''Implicit chunk serialization is disabled''"

definition peekAtFront :: "(header \<Rightarrow> 'h option) \<Rightarrow> packet \<Rightarrow> 'h res" where
  "peekAtFront as p = (case header_at (pk_data p) of
      Some h \<Rightarrow> (case as h of Some x \<Rightarrow> Inr x | None \<Rightarrow> Inl peek_error)
    | None \<Rightarrow> Inl peek_error)"

definition popAtFront :: "(header \<Rightarrow> 'h option) \<Rightarrow> packet \<Rightarrow> ('h \<times> packet) res" where
  "popAtFront as p = (case header_at (pk_data p) of
      Some h \<Rightarrow> (case as h of
         Some x \<Rightarrow> Inr (x, p\<lparr>pk_front := pk_front p + header_length h\<rparr>) | None \<Rightarrow> Inl peek_error)
    | None \<Rightarrow> Inl peek_error)"

definition popAtBack :: "(header \<Rightarrow> 'h option) \<Rightarrow> nat \<Rightarrow> packet \<Rightarrow> ('h \<times> packet) res" where
  "popAtBack as len p =
    (if len > dataLength p then Inl (CheckFailed ''length is invalid'')
     else case header_at (drop (dataLength p - len) (pk_data p)) of
        Some h \<Rightarrow> (case as h of
           Some x \<Rightarrow> (if header_length h = len then Inr (x, p\<lparr>pk_back := pk_back p + len\<rparr>) else Inl peek_error)
         | None \<Rightarrow> Inl peek_error)
      | None \<Rightarrow> Inl peek_error)"

definition removeAtFront :: "(header \<Rightarrow> 'h option) \<Rightarrow> packet \<Rightarrow> ('h \<times> packet) res" where
  "removeAtFront as p = (case header_at (pk_data p) of
      Some h \<Rightarrow> (case as h of
         Some x \<Rightarrow> bindE (eraseAt (pk_front p) (header_length h) p) (\<lambda>p. Inr (x, p)) | None \<Rightarrow> Inl peek_error)
    | None \<Rightarrow> Inl peek_error)"

text \<open>\<open>peekDataAt(offset, length)\<close> with a given length; an empty part is refused.\<close>

definition peekDataAt :: "int \<Rightarrow> int \<Rightarrow> packet \<Rightarrow> cell list res" where
  "peekDataAt off len p =
    (if off < 0 \<or> off > int (dataLength p) then Inl (CheckFailed ''offset is out of range'')
     else if len < 0 \<or> off + len > int (dataLength p) then Inl (CheckFailed ''length is invalid'')
     else if len = 0 then Inl (RuntimeError ''Returning an empty chunk is not allowed'')
     else Inr (peek_at (nat off) (nat len) (pk_data p)))"

text \<open>\<open>removeAll\<close> empties the content; the offsets go back to 0.\<close>

definition removeAll :: "packet \<Rightarrow> packet" where
  "removeAll p = p\<lparr>pk_content := [], pk_front := 0, pk_back := 0\<rparr>"

section \<open>How the operations act on the data part\<close>

lemma pk_data_alt: "pk_data p = take (length (pk_content p) - pk_front p - pk_back p) (drop (pk_front p) (pk_content p))"
  by (simp add: pk_data_def dataLength_def totalLength_def peek_at_def)

lemma content_split:
  assumes "packet_ok p"
  shows "pk_content p = take (pk_front p) (pk_content p) @ pk_data p @ drop (backOffset p) (pk_content p)"
proof -
  have "drop (backOffset p) (pk_content p) = drop (dataLength p) (drop (pk_front p) (pk_content p))"
    using assms by (simp add: backOffset_def dataLength_def totalLength_def packet_ok_def)
  then have "pk_data p @ drop (backOffset p) (pk_content p) = drop (pk_front p) (pk_content p)"
    by (simp only: pk_data_def peek_at_def append_take_drop_id)
  then show ?thesis by simp
qed

lemma insertAtFront_eq:
  assumes "packet_ok p" "chunk \<noteq> []"
  shows "insertAtFront chunk p = Inr (p\<lparr>pk_content := take (pk_front p) (pk_content p) @ chunk @ drop (pk_front p) (pk_content p)\<rparr>)"
  using assms by (auto simp: insertAtFront_def insertAt_def packet_ok_def totalLength_def backOffset_def)

lemma insertAtFront_ok:
  assumes "packet_ok p" "chunk \<noteq> []" "insertAtFront chunk p = Inr q"
  shows "packet_ok q \<and> pk_data q = chunk @ pk_data p \<and> pk_tags q = pk_tags p \<and> pk_name q = pk_name p
    \<and> pk_kind q = pk_kind p \<and> pk_front q = pk_front p \<and> pk_back q = pk_back p \<and> pk_creation q = pk_creation p"
  using assms insertAtFront_eq[OF assms(1,2)]
  by (auto simp: packet_ok_def pk_data_alt)

lemma insertAtBack_eq:
  assumes "packet_ok p" "chunk \<noteq> []"
  shows "insertAtBack chunk p = Inr (p\<lparr>pk_content := take (backOffset p) (pk_content p) @ chunk @ drop (backOffset p) (pk_content p)\<rparr>)"
  using assms by (auto simp: insertAtBack_def insertAt_def packet_ok_def totalLength_def backOffset_def)

lemma insertAtBack_ok:
  assumes "packet_ok p" "chunk \<noteq> []" "insertAtBack chunk p = Inr q"
  shows "packet_ok q \<and> pk_data q = pk_data p @ chunk \<and> pk_tags q = pk_tags p \<and> pk_name q = pk_name p
    \<and> pk_kind q = pk_kind p \<and> pk_front q = pk_front p \<and> pk_back q = pk_back p \<and> pk_creation q = pk_creation p"
proof -
  have q: "q = p\<lparr>pk_content := take (backOffset p) (pk_content p) @ chunk @ drop (backOffset p) (pk_content p)\<rparr>"
    using assms(3) insertAtBack_eq[OF assms(1,2)] by simp
  have b: "pk_front p \<le> backOffset p" "backOffset p \<le> length (pk_content p)" "pk_back p \<le> length (pk_content p)"
    using assms(1) by (auto simp: packet_ok_def backOffset_def totalLength_def)
  have d: "length (pk_content p) - pk_front p - pk_back p = backOffset p - pk_front p"
    by (simp add: backOffset_def totalLength_def)
  have len: "length (pk_content q) - pk_front q - pk_back q = (backOffset p - pk_front p) + length chunk"
    using b by (simp add: q backOffset_def totalLength_def)
  have "pk_data q = take (backOffset p - pk_front p) (drop (pk_front p) (pk_content p)) @ chunk"
    unfolding pk_data_alt len using b by (simp add: q drop_take)
  then have "pk_data q = pk_data p @ chunk" unfolding pk_data_alt[of p] d .
  then show ?thesis using assms(1) by (simp add: q packet_ok_def)
qed

lemma new_packet_ok [simp]: "packet_ok (new_packet n t)" "pk_data (new_packet n t) = []"
  by (simp_all add: new_packet_def packet_ok_def pk_data_alt)

lemma removeAll_ok [simp]: "packet_ok (removeAll p)" "pk_data (removeAll p) = []"
  "pk_name (removeAll p) = pk_name p" "pk_tags (removeAll p) = pk_tags p"
  by (simp_all add: removeAll_def packet_ok_def pk_data_alt)

lemma packet_ok_update [simp]:
  "packet_ok (p\<lparr>pk_tags := t\<rparr>) = packet_ok p" "packet_ok (p\<lparr>pk_name := n\<rparr>) = packet_ok p"
  "packet_ok (p\<lparr>pk_kind := k\<rparr>) = packet_ok p"
  by (simp_all add: packet_ok_def)

lemma pk_data_update [simp]:
  "pk_data (p\<lparr>pk_tags := t\<rparr>) = pk_data p" "pk_data (p\<lparr>pk_name := n\<rparr>) = pk_data p"
  "pk_data (p\<lparr>pk_kind := k\<rparr>) = pk_data p"
  by (simp_all add: pk_data_alt)

lemma dataLength_update [simp]:
  "dataLength (p\<lparr>pk_tags := t\<rparr>) = dataLength p" "dataLength (p\<lparr>pk_name := n\<rparr>) = dataLength p"
  "dataLength (p\<lparr>pk_kind := k\<rparr>) = dataLength p"
  by (simp_all add: dataLength_def totalLength_def)

lemma peekAtFront_header:
  assumes "pk_data p = header_cells h @ xs" "0 < header_length h" "as h = Some x"
  shows "peekAtFront as p = Inr x"
  using assms by (simp add: peekAtFront_def)

lemma popAtFront_header:
  assumes "packet_ok p" "pk_data p = header_cells h @ xs" "0 < header_length h" "as h = Some x"
  shows "\<exists>q. popAtFront as p = Inr (x, q) \<and> packet_ok q \<and> pk_data q = xs \<and> pk_tags q = pk_tags p
    \<and> q = p\<lparr>pk_front := pk_front p + header_length h\<rparr>"
proof -
  define q where "q = p\<lparr>pk_front := pk_front p + header_length h\<rparr>"
  have len: "dataLength p = header_length h + length xs"
    using assms(2) by (metis length_append length_header_cells length_pk_data)
  have "pk_data q = drop (header_length h) (pk_data p)"
    using len by (simp add: q_def pk_data_alt drop_take ac_simps)
  then have "pk_data q = xs" using assms(2) by simp
  moreover have "packet_ok q" using assms(1) len
    by (simp add: q_def packet_ok_def dataLength_def totalLength_def)
  ultimately show ?thesis using assms(2-) by (auto simp: popAtFront_def q_def)
qed

lemma peekDataAt_ok:
  assumes "0 \<le> off" "0 < len" "off + len \<le> int (dataLength p)"
  shows "peekDataAt off len p = Inr (peek_at (nat off) (nat len) (pk_data p))"
  using assms by (simp add: peekDataAt_def)

lemma setBackOffset_creation: "setBackOffset off p = Inr q \<Longrightarrow> pk_creation q = pk_creation p"
  by (auto simp: setBackOffset_def split: if_splits)

lemma setBackOffset_ok:
  assumes "packet_ok p" "int (pk_front p) \<le> off" "off \<le> int (backOffset p)"
  shows "\<exists>q. setBackOffset off p = Inr q \<and> packet_ok q \<and>
    pk_data q = take (nat (off - int (pk_front p))) (pk_data p) \<and> pk_tags q = pk_tags p \<and>
    pk_name q = pk_name p \<and> pk_front q = pk_front p \<and> pk_content q = pk_content p"
proof -
  define q where "q = p\<lparr>pk_back := nat (int (totalLength p) - off)\<rparr>"
  have o: "off \<le> int (totalLength p)" using assms by (simp add: backOffset_def)
  have len: "length (pk_content p) - pk_front p - nat (int (length (pk_content p)) - off) = nat (off - int (pk_front p))"
    using assms(2) o by (simp add: totalLength_def)
  have le: "nat (off - int (pk_front p)) \<le> length (pk_content p) - pk_front p - pk_back p"
    using assms by (simp add: backOffset_def totalLength_def packet_ok_def)
  have "pk_data q = take (nat (off - int (pk_front p))) (drop (pk_front p) (pk_content p))"
    unfolding pk_data_alt using len by (simp add: q_def totalLength_def)
  also have "\<dots> = take (nat (off - int (pk_front p))) (pk_data p)"
    using le by (simp add: pk_data_alt min_def)
  finally have "pk_data q = take (nat (off - int (pk_front p))) (pk_data p)" .
  moreover have "packet_ok q" using assms(2) o by (simp add: q_def packet_ok_def totalLength_def)
  ultimately show ?thesis using assms(2) o by (simp add: setBackOffset_def q_def)
qed

lemma trim_ok:
  assumes "packet_ok p"
  shows "trim p = Inr (p\<lparr>pk_content := pk_data p, pk_front := 0, pk_back := 0\<rparr>)"
proof -
  let ?c = "pk_content p" and ?f = "pk_front p" and ?b = "pk_back p"
  have ok: "?f + ?b \<le> length ?c" using assms by (simp add: packet_ok_def)
  have "setFrontOffset 0 p = Inr (p\<lparr>pk_front := 0\<rparr>)" using ok by (simp add: setFrontOffset_def totalLength_def)
  then have tf: "trimFront p = Inr (p\<lparr>pk_content := drop ?f ?c, pk_front := 0\<rparr>)"
    using ok by (auto simp: trimFront_def eraseAt_def totalLength_def backOffset_def Let_def)
  have d: "take (length ?c - ?f - ?b) (drop ?f ?c) = pk_data p" by (simp add: pk_data_alt)
  have "setBackOffset (int (length ?c - ?f)) (p\<lparr>pk_content := drop ?f ?c, pk_front := 0\<rparr>)
      = Inr (p\<lparr>pk_content := drop ?f ?c, pk_front := 0, pk_back := 0\<rparr>)"
    using ok by (simp add: setBackOffset_def totalLength_def)
  then have "trimBack (p\<lparr>pk_content := drop ?f ?c, pk_front := 0\<rparr>) = Inr (p\<lparr>pk_content := pk_data p, pk_front := 0, pk_back := 0\<rparr>)"
    using ok d by (auto simp: trimBack_def eraseAt_def totalLength_def backOffset_def Let_def)
  then show ?thesis using tf by (simp add: trim_def)
qed

lemma removeAtFront_ok:
  assumes "pk_data p = header_cells h @ xs" "0 < header_length h" "as h = Some x" "pk_front p = 0" "pk_back p = 0"
  shows "\<exists>q. removeAtFront as p = Inr (x, q) \<and> packet_ok q \<and> pk_data q = xs \<and> pk_tags q = pk_tags p \<and> pk_name q = pk_name p
    \<and> pk_kind q = pk_kind p \<and> pk_front q = 0 \<and> pk_back q = 0"
proof -
  have c: "pk_content p = header_cells h @ xs" using assms(1,4,5) by (simp add: pk_data_alt)
  have "removeAtFront as p = Inr (x, p\<lparr>pk_content := xs\<rparr>)"
    using assms c by (simp add: removeAtFront_def eraseAt_def totalLength_def backOffset_def Let_def)
  then show ?thesis using assms(4,5) by (auto simp: packet_ok_def pk_data_alt)
qed

end
