(* ===== verification/Checksum.thy ===== *)
theory Checksum
  imports Prelude
begin

unbundle bit_operations_syntax

text \<open>
  The two checksums of \<open>common/checksum\<close>: the Internet checksum of \<open>TcpIpChecksum\<close>, in its
  pointer and its vector form, on the 32-bit accumulator of the code; and \<open>ethernetCRC\<close>,
  driven by the 256-entry table of the code. The first is shown equal to the ones'
  complement sum of the 16-bit words, the second to the bit-by-bit division by the
  reflected polynomial.
\<close>

section \<open>TcpIpChecksum\<close>

definition fold_high :: "32 word \<Rightarrow> 32 word" where
  "fold_high s = (if s AND 0x80000000 \<noteq> 0 then (s AND 0xFFFF) + drop_bit 16 s else s)"

fun csum_ptr :: "32 word \<Rightarrow> 8 word list \<Rightarrow> 32 word" where
  "csum_ptr s (a # b # addr) = csum_ptr (fold_high (s + (push_bit 8 (ucast a) OR ucast b))) addr"
| "csum_ptr s [a] = s + push_bit 8 (ucast a)"
| "csum_ptr s [] = s"

fun csum_vec :: "nat \<Rightarrow> 32 word \<Rightarrow> 8 word list \<Rightarrow> 32 word" where
  "csum_vec i s [] = s"
| "csum_vec i s (v # vec) =
    csum_vec (Suc i) (fold_high (s + (if i mod 2 = 1 then ucast v else push_bit 8 (ucast v)))) vec"

lemma unat_numeral_FFFF: "unat (0xFFFF :: 32 word) = 0xFFFF"
  by simp

lemma unat_drop16: "unat (drop_bit 16 (s :: 32 word)) = unat s div 65536"
proof -
  have "take_bit 32 (unat s) = unat s"
    using unsigned_less[of s, where 'a = nat] by (simp add: take_bit_nat_eq_self)
  then have "unat (drop_bit 16 s) = drop_bit 16 (unat s)" by (simp add: unsigned_drop_bit_eq)
  then show ?thesis by (simp add: drop_bit_eq_div)
qed

lemma unat_fold: "unat ((s AND 0xFFFF) + drop_bit 16 (s :: 32 word)) = unat s mod 65536 + unat s div 65536"
proof -
  have "(0xFFFF :: nat) = mask 16" by (simp add: mask_eq_exp_minus_1)
  then have lo: "unat (s AND 0xFFFF) = unat s mod 65536"
    by (simp only: unsigned_and_eq unat_numeral_FFFF flip: take_bit_eq_mask) (simp add: take_bit_eq_mod)
  note hi = unat_drop16[of s]
  have "unat s < 2 ^ 32" using unsigned_less[of s] by simp
  then have "unat s div 65536 < 65536" by (simp add: div_less_iff_less_mult)
  moreover have "unat s mod 65536 < 65536" by simp
  ultimately have "unat (s AND 0xFFFF) + unat (drop_bit 16 s) < 2 ^ LENGTH(32)" using lo hi by simp
  then show ?thesis using lo hi unat_add_lem by metis
qed

function fold16 :: "32 word \<Rightarrow> 32 word" where
  "fold16 s = (if drop_bit 16 s \<noteq> 0 then fold16 ((s AND 0xFFFF) + drop_bit 16 s) else s)"
  by pat_completeness auto
termination
proof (relation "measure unat")
  fix s :: "32 word"
  assume "drop_bit 16 s \<noteq> 0"
  then have "unat (drop_bit 16 s) \<noteq> 0" by (simp only: unat_eq_zero not_False_eq_True)
  then have "0 < unat s div 65536"
    by (simp only: unat_drop16 neq0_conv)
  then show "((s AND 0xFFFF) + drop_bit 16 s, s) \<in> measure unat"
    unfolding in_measure unat_fold using mod_mult_div_eq[of "unat s" 65536] by linarith
qed simp

declare fold16.simps [simp del]

definition checksum_ptr :: "8 word list \<Rightarrow> 16 word" where
  "checksum_ptr addr = ucast (fold16 (csum_ptr 0 addr))"

definition checksum_vec :: "8 word list \<Rightarrow> 16 word" where
  "checksum_vec vec = ucast (fold16 (csum_vec 0 0 vec))"

definition tcpip_checksum :: "8 word list \<Rightarrow> 16 word" where
  "tcpip_checksum vec = NOT (checksum_vec vec)"

subsection \<open>The ones' complement sum\<close>

text \<open>
  The reference: the big-endian 16-bit words of the buffer (an odd last byte padded with
  zero) added as natural numbers, and the sum reduced to its ones' complement
  representative, which is 0 for the sum 0 only.
\<close>

fun word_sum :: "8 word list \<Rightarrow> nat" where
  "word_sum (a # b # xs) = 256 * unat a + unat b + word_sum xs"
| "word_sum [a] = 256 * unat a"
| "word_sum [] = 0"

definition ones_sum :: "nat \<Rightarrow> nat" where
  "ones_sum n = (if n = 0 then 0 else (n - 1) mod 65535 + 1)"

lemma ones_sum_le: "ones_sum n \<le> 65535"
proof -
  have "(n - 1) mod 65535 < 65535" by simp
  then show ?thesis by (simp only: ones_sum_def split: if_split) linarith
qed

lemma ones_sum_small: "n \<le> 65535 \<Longrightarrow> ones_sum n = n"
  by (simp add: ones_sum_def)

lemma ones_sum_cong: "0 < n \<Longrightarrow> 0 < m \<Longrightarrow> (n - 1) mod 65535 = (m - 1) mod 65535 \<Longrightarrow> ones_sum n = ones_sum m"
  by (simp add: ones_sum_def)

lemma ones_sum_fold: "ones_sum (n mod 65536 + n div 65536 + k) = ones_sum (n + k)"
proof (cases "n = 0")
  case True
  then show ?thesis by simp
next
  case False
  define q r where "q = n div 65536" and "r = n mod 65536"
  have n: "n = 65536 * q + r" by (simp add: q_def r_def)
  have pos: "0 < r + q" using False n by (cases "r + q = 0") auto
  have "n + k - 1 = (r + q + k - 1) + 65535 * q" using n pos by simp
  then have "(n + k - 1) mod 65535 = (r + q + k - 1) mod 65535" by simp
  moreover have "0 < n + k" "0 < r + q + k" using pos False by auto
  ultimately have "ones_sum (n + k) = ones_sum (r + q + k)" by (intro ones_sum_cong)
  then show ?thesis by (simp add: q_def r_def)
qed

lemma and_high_bit: "(s :: 32 word) AND 0x80000000 = 0 \<longleftrightarrow> unat s < 2 ^ 31"
proof -
  have p: "(0x80000000 :: 32 word) = 2 ^ 31" by simp
  have "s AND 0x80000000 = 0 \<longleftrightarrow> \<not> bit s 31"
    unfolding p by (rule and_exp_eq_0_iff_not_bit)
  also have "\<not> bit s 31 \<longleftrightarrow> \<not> bit (unat s) 31" by (simp add: bit_unsigned_iff)
  also have "\<dots> \<longleftrightarrow> even (unat s div 2 ^ 31)" by (simp only: bit_iff_odd not_not)
  also have "\<dots> \<longleftrightarrow> unat s < 2 ^ 31"
  proof -
    have lt: "unat s < 2 * 2 ^ 31" using unsigned_less[of s, where 'a = nat] by simp
    have lt2: "unat s div 2 ^ 31 < 2" using lt by (simp only: div_less_iff_less_mult zero_less_power zero_less_numeral)
    have "even k \<longleftrightarrow> k = 0" if "k < 2" for k :: nat using that by (cases k) auto
    from this[OF lt2] have "even (unat s div 2 ^ 31) \<longleftrightarrow> unat s div 2 ^ 31 = 0" .
    then show ?thesis by (simp only: div_eq_0_iff) simp
  qed
  finally show ?thesis .
qed

lemma fold_high_less: "unat (fold_high s) < 2 ^ 31"
proof (cases "s AND 0x80000000 = 0")
  case True
  then show ?thesis using and_high_bit[of s] by (simp add: fold_high_def)
next
  case False
  have "unat s < 2 ^ 32" using unsigned_less[of s, where 'a = nat] by simp
  then have "unat s div 65536 < 65536" by (simp add: div_less_iff_less_mult)
  moreover have "unat s mod 65536 < 65536" by simp
  ultimately show ?thesis using False unat_fold[of s] by (simp add: fold_high_def)
qed

lemma fold_high_sum: "ones_sum (unat (fold_high s) + k) = ones_sum (unat s + k)"
proof (cases "s AND 0x80000000 = 0")
  case True
  then show ?thesis by (simp add: fold_high_def)
next
  case False
  then show ?thesis using unat_fold[of s] ones_sum_fold[of "unat s" k] by (simp add: fold_high_def)
qed

lemma unat_hi_byte: "unat (push_bit 8 (ucast (a :: 8 word)) :: 32 word) = 256 * unat a"
proof -
  have "unat a < 256" using unsigned_less[of a, where 'a = nat] by simp
  then have "256 * unat a < 2 ^ 32" by simp
  then show ?thesis
    by (simp add: push_bit_eq_mult unat_word_ariths unsigned_ucast_eq take_bit_nat_eq_self mult.commute
        \<open>unat a < 256\<close>)
qed

lemma unat_lo_byte: "unat (ucast (a :: 8 word) :: 32 word) = unat a"
  using unsigned_less[of a, where 'a = nat]
  by (simp add: unsigned_ucast_eq take_bit_nat_eq_self)

lemma or_bytes: "(push_bit 8 (ucast (a :: 8 word)) OR ucast (b :: 8 word) :: 32 word)
    = push_bit 8 (ucast a) + ucast b"
proof -
  have "\<not> bit b n" if "8 \<le> n" for n
    using that bit_imp_le_length[of b n] by auto
  then have "(push_bit 8 (ucast a) :: 32 word) AND ucast b = 0"
    by (auto simp: bit_eq_iff bit_simps)
  then show ?thesis by (simp add: disjunctive_add_eq_or)
qed

lemma byte_less: "unat (a :: 8 word) < 256"
  using unsigned_less[of a, where 'a = nat] by simp

lemma unat_add32:
  "unat s < 2 ^ 31 \<Longrightarrow> unat t < 2 ^ 31 \<Longrightarrow> unat ((s :: 32 word) + t) = unat s + unat t"
  by (subst unat_add_lem[symmetric]) simp

lemma csum_ptr_sum:
  "unat s < 2 ^ 31 \<Longrightarrow> ones_sum (unat (csum_ptr s addr)) = ones_sum (unat s + word_sum addr)"
proof (induction s addr rule: csum_ptr.induct)
  case (1 s a b addr)
  let ?w = "push_bit 8 (ucast a) OR ucast b :: 32 word"
  have w: "unat ?w = 256 * unat a + unat b"
    unfolding or_bytes using byte_less[of a] byte_less[of b]
    by (subst unat_add32) (simp_all add: unat_hi_byte unat_lo_byte)
  have "unat (s + ?w) = unat s + (256 * unat a + unat b)"
    using 1(2) byte_less[of a] byte_less[of b] w by (subst unat_add32) simp_all
  then show ?case
    using 1(1)[OF fold_high_less] fold_high_sum[of "s + ?w" "word_sum addr"]
    by (simp add: algebra_simps)
next
  case (2 s a)
  then have "unat (s + push_bit 8 (ucast a)) = unat s + 256 * unat a"
    using byte_less[of a] by (subst unat_add32) (simp_all add: unat_hi_byte)
  then show ?case by simp
qed simp

lemma csum_vec_sum:
  "unat s < 2 ^ 31 \<Longrightarrow> even i \<Longrightarrow>
    ones_sum (unat (csum_vec i s vec)) = ones_sum (unat s + word_sum vec)"
proof (induction vec arbitrary: i s rule: word_sum.induct)
  case (1 a b xs)
  let ?t = "fold_high (s + push_bit 8 (ucast a))"
  have i: "i mod 2 \<noteq> 1" "Suc i mod 2 = 1" using 1(3) by presburger+
  have s1: "unat (s + push_bit 8 (ucast a)) = unat s + 256 * unat a"
    using 1(2) byte_less[of a] by (subst unat_add32) (simp_all add: unat_hi_byte)
  have s2: "unat (?t + ucast b) = unat ?t + unat b"
    using fold_high_less byte_less[of b] by (subst unat_add32) (simp_all add: unat_lo_byte)
  have "ones_sum (unat (csum_vec i s (a # b # xs)))
      = ones_sum (unat (fold_high (?t + ucast b)) + word_sum xs)"
    using 1(1)[OF fold_high_less, of "Suc (Suc i)"] 1(3) i by simp
  also have "\<dots> = ones_sum (unat ?t + (unat b + word_sum xs))"
    using fold_high_sum[of "?t + ucast b"] s2 by (simp add: add.assoc)
  also have "\<dots> = ones_sum (unat s + word_sum (a # b # xs))"
    using fold_high_sum[of "s + push_bit 8 (ucast a)" "unat b + word_sum xs"] s1 by (simp add: algebra_simps)
  finally show ?case .
next
  case (2 a)
  have i: "i mod 2 \<noteq> 1" using 2(2) by presburger
  have "unat (s + push_bit 8 (ucast a)) = unat s + 256 * unat a"
    using 2(1) byte_less[of a] by (subst unat_add32) (simp_all add: unat_hi_byte)
  then show ?case using i fold_high_sum[of "s + push_bit 8 (ucast a)" 0] by simp
qed simp

lemma fold16_sum: "unat (fold16 s) = ones_sum (unat s)"
proof (induction s rule: fold16.induct)
  case (1 s)
  show ?case
  proof (cases "drop_bit 16 s = 0")
    case True
    then have "unat s div 65536 = 0" using unat_drop16[of s] by simp
    then have "unat s \<le> 65535" by (simp add: div_eq_0_iff)
    then show ?thesis using True by (simp add: fold16.simps[of s] ones_sum_small)
  next
    case False
    have "ones_sum (unat ((s AND 0xFFFF) + drop_bit 16 s)) = ones_sum (unat s)"
      unfolding unat_fold using ones_sum_fold[of "unat s" 0] by simp
    then show ?thesis using 1[OF False] False by (simp add: fold16.simps[of s])
  qed
qed

lemma unat_ucast16: "unat w \<le> 65535 \<Longrightarrow> unat (ucast (w :: 32 word) :: 16 word) = unat w"
  by (simp add: unsigned_ucast_eq take_bit_nat_eq_self)

lemma checksum_ptr_sum: "unat (checksum_ptr addr) = ones_sum (word_sum addr)"
  using fold16_sum[of "csum_ptr 0 addr"] csum_ptr_sum[of 0 addr] ones_sum_le
  by (simp add: checksum_ptr_def unat_ucast16)

lemma checksum_vec_sum: "unat (checksum_vec vec) = ones_sum (word_sum vec)"
  using fold16_sum[of "csum_vec 0 0 vec"] csum_vec_sum[of 0 0 vec] ones_sum_le
  by (simp add: checksum_vec_def unat_ucast16)

subsection \<open>Inserting and verifying\<close>

lemma word_sum_append: "even (length xs) \<Longrightarrow> word_sum (xs @ ys) = word_sum xs + word_sum ys"
  by (induction xs rule: word_sum.induct) auto

definition be_bytes :: "16 word \<Rightarrow> 8 word list" where
  "be_bytes w = [ucast (drop_bit 8 w), ucast w]"

lemma word_sum_be_bytes: "word_sum (be_bytes w @ ys) = unat w + word_sum ys"
proof -
  have w: "unat w < 65536" using unsigned_less[of w, where 'a = nat] by simp
  have "unat (drop_bit 8 w) = unat w div 256"
    using w by (simp add: unsigned_drop_bit_eq take_bit_nat_eq_self drop_bit_eq_div[where 'a = nat])
  then have "unat (ucast (drop_bit 8 w) :: 8 word) = unat w div 256"
    using w by (simp add: unsigned_ucast_eq take_bit_eq_mod)
  moreover have "unat (ucast w :: 8 word) = unat w mod 256"
    by (simp add: unsigned_ucast_eq take_bit_eq_mod)
  ultimately show ?thesis by (simp add: be_bytes_def)
qed

lemma unat_not16: "unat (NOT (w :: 16 word)) = 65535 - unat w"
proof -
  have u: "0 \<le> uint w" "uint w < 65536" using uint_lt2p[of w] by simp_all
  have "uint (NOT w) = (- 1 - uint w) mod 65536"
    by (simp add: unsigned_not_eq take_bit_eq_mod not_int_def minus_diff_commute)
  also have "\<dots> = (65535 - uint w + (- 1) * 65536) mod 65536" by (simp add: algebra_simps)
  also have "\<dots> = 65535 - uint w" using u by (simp only: mod_mult_self1) (rule mod_pos_pos_trivial, linarith+)
  finally have "nat (uint (NOT w)) = 65535 - nat (uint w)" using u by linarith
  then show ?thesis by simp
qed

lemma ones_sum_complement: "ones_sum (65535 - ones_sum n + n) = 65535"
proof (cases "n = 0")
  case True
  then show ?thesis by (simp add: ones_sum_def)
next
  case False
  define q r where "q = (n - 1) div 65535" and "r = (n - 1) mod 65535"
  have n: "n = 65535 * q + r + 1" using False by (simp add: q_def r_def)
  have r: "r < 65535" by (simp add: r_def)
  have "ones_sum n = r + 1" using False by (simp add: ones_sum_def r_def)
  then have "65535 - ones_sum n + n - 1 = 65534 + 65535 * q" using n r by simp
  then show ?thesis by (simp add: ones_sum_def n)
qed

lemma checksum_fill:
  assumes "even (length pre)"
  shows "tcpip_checksum (pre @ be_bytes (tcpip_checksum (pre @ [0, 0] @ post)) @ post) = 0"
proof -
  define n where "n = word_sum pre + word_sum post"
  let ?c = "tcpip_checksum (pre @ [0, 0] @ post)"
  have "unat ?c = 65535 - ones_sum n"
    using checksum_vec_sum[of "pre @ [0, 0] @ post"] assms
    by (simp add: tcpip_checksum_def unat_not16 word_sum_append n_def)
  then have "word_sum (pre @ be_bytes ?c @ post) = 65535 - ones_sum n + n"
    using assms by (simp add: word_sum_append word_sum_be_bytes n_def)
  then have "unat (checksum_vec (pre @ be_bytes ?c @ post)) = 65535"
    using checksum_vec_sum ones_sum_complement[of n] by metis
  then have "unat (tcpip_checksum (pre @ be_bytes ?c @ post)) = 0"
    by (simp add: tcpip_checksum_def unat_not16)
  then show ?thesis by (simp only: unat_eq_zero)
qed

lemma checksum_fill_nonzero:
  assumes "even (length pre)" "0 < word_sum pre"
  shows "tcpip_checksum (pre @ be_bytes (if tcpip_checksum (pre @ [0, 0] @ post) = 0 then 0xFFFF
            else tcpip_checksum (pre @ [0, 0] @ post)) @ post) = 0"
proof (cases "tcpip_checksum (pre @ [0, 0] @ post) = 0")
  case False
  then show ?thesis using checksum_fill[OF assms(1)] by simp
next
  case True
  define n where "n = word_sum pre + word_sum post"
  have "unat (checksum_vec (pre @ [0, 0] @ post)) = ones_sum n"
    using checksum_vec_sum[of "pre @ [0, 0] @ post"] assms(1) by (simp add: word_sum_append n_def)
  moreover have "unat (NOT (checksum_vec (pre @ [0, 0] @ post))) = 0"
    using True by (simp add: tcpip_checksum_def)
  ultimately have n: "ones_sum n = 65535" using ones_sum_le[of n] by (simp add: unat_not16)
  have "word_sum (pre @ be_bytes 0xFFFF @ post) = n + 65535"
    using assms(1) by (simp add: word_sum_append word_sum_be_bytes n_def)
  moreover have "ones_sum (n + 65535) = ones_sum n"
  proof (rule ones_sum_cong)
    have "n + 65535 - 1 = (n - 1) + 65535" using assms(2) by (simp add: n_def)
    then show "(n + 65535 - 1) mod 65535 = (n - 1) mod 65535" by (simp only: mod_add_self2)
  qed (use assms(2) in \<open>simp_all add: n_def\<close>)
  ultimately have "unat (checksum_vec (pre @ be_bytes 0xFFFF @ post)) = 65535"
    using checksum_vec_sum n by metis
  then have "unat (tcpip_checksum (pre @ be_bytes 0xFFFF @ post)) = 0"
    by (simp add: tcpip_checksum_def unat_not16)
  then have "tcpip_checksum (pre @ be_bytes 0xFFFF @ post) = 0" by (simp only: unat_eq_zero)
  then show ?thesis by (subst if_P[OF True])
qed

section \<open>EthernetCRC\<close>

definition crc32_tab :: "32 word list" where
  "crc32_tab = [
    0x00000000, 0x77073096, 0xEE0E612C, 0x990951BA, 0x076DC419, 0x706AF48F,
    0xE963A535, 0x9E6495A3, 0x0EDB8832, 0x79DCB8A4, 0xE0D5E91E, 0x97D2D988,
    0x09B64C2B, 0x7EB17CBD, 0xE7B82D07, 0x90BF1D91, 0x1DB71064, 0x6AB020F2,
    0xF3B97148, 0x84BE41DE, 0x1ADAD47D, 0x6DDDE4EB, 0xF4D4B551, 0x83D385C7,
    0x136C9856, 0x646BA8C0, 0xFD62F97A, 0x8A65C9EC, 0x14015C4F, 0x63066CD9,
    0xFA0F3D63, 0x8D080DF5, 0x3B6E20C8, 0x4C69105E, 0xD56041E4, 0xA2677172,
    0x3C03E4D1, 0x4B04D447, 0xD20D85FD, 0xA50AB56B, 0x35B5A8FA, 0x42B2986C,
    0xDBBBC9D6, 0xACBCF940, 0x32D86CE3, 0x45DF5C75, 0xDCD60DCF, 0xABD13D59,
    0x26D930AC, 0x51DE003A, 0xC8D75180, 0xBFD06116, 0x21B4F4B5, 0x56B3C423,
    0xCFBA9599, 0xB8BDA50F, 0x2802B89E, 0x5F058808, 0xC60CD9B2, 0xB10BE924,
    0x2F6F7C87, 0x58684C11, 0xC1611DAB, 0xB6662D3D, 0x76DC4190, 0x01DB7106,
    0x98D220BC, 0xEFD5102A, 0x71B18589, 0x06B6B51F, 0x9FBFE4A5, 0xE8B8D433,
    0x7807C9A2, 0x0F00F934, 0x9609A88E, 0xE10E9818, 0x7F6A0DBB, 0x086D3D2D,
    0x91646C97, 0xE6635C01, 0x6B6B51F4, 0x1C6C6162, 0x856530D8, 0xF262004E,
    0x6C0695ED, 0x1B01A57B, 0x8208F4C1, 0xF50FC457, 0x65B0D9C6, 0x12B7E950,
    0x8BBEB8EA, 0xFCB9887C, 0x62DD1DDF, 0x15DA2D49, 0x8CD37CF3, 0xFBD44C65,
    0x4DB26158, 0x3AB551CE, 0xA3BC0074, 0xD4BB30E2, 0x4ADFA541, 0x3DD895D7,
    0xA4D1C46D, 0xD3D6F4FB, 0x4369E96A, 0x346ED9FC, 0xAD678846, 0xDA60B8D0,
    0x44042D73, 0x33031DE5, 0xAA0A4C5F, 0xDD0D7CC9, 0x5005713C, 0x270241AA,
    0xBE0B1010, 0xC90C2086, 0x5768B525, 0x206F85B3, 0xB966D409, 0xCE61E49F,
    0x5EDEF90E, 0x29D9C998, 0xB0D09822, 0xC7D7A8B4, 0x59B33D17, 0x2EB40D81,
    0xB7BD5C3B, 0xC0BA6CAD, 0xEDB88320, 0x9ABFB3B6, 0x03B6E20C, 0x74B1D29A,
    0xEAD54739, 0x9DD277AF, 0x04DB2615, 0x73DC1683, 0xE3630B12, 0x94643B84,
    0x0D6D6A3E, 0x7A6A5AA8, 0xE40ECF0B, 0x9309FF9D, 0x0A00AE27, 0x7D079EB1,
    0xF00F9344, 0x8708A3D2, 0x1E01F268, 0x6906C2FE, 0xF762575D, 0x806567CB,
    0x196C3671, 0x6E6B06E7, 0xFED41B76, 0x89D32BE0, 0x10DA7A5A, 0x67DD4ACC,
    0xF9B9DF6F, 0x8EBEEFF9, 0x17B7BE43, 0x60B08ED5, 0xD6D6A3E8, 0xA1D1937E,
    0x38D8C2C4, 0x4FDFF252, 0xD1BB67F1, 0xA6BC5767, 0x3FB506DD, 0x48B2364B,
    0xD80D2BDA, 0xAF0A1B4C, 0x36034AF6, 0x41047A60, 0xDF60EFC3, 0xA867DF55,
    0x316E8EEF, 0x4669BE79, 0xCB61B38C, 0xBC66831A, 0x256FD2A0, 0x5268E236,
    0xCC0C7795, 0xBB0B4703, 0x220216B9, 0x5505262F, 0xC5BA3BBE, 0xB2BD0B28,
    0x2BB45A92, 0x5CB36A04, 0xC2D7FFA7, 0xB5D0CF31, 0x2CD99E8B, 0x5BDEAE1D,
    0x9B64C2B0, 0xEC63F226, 0x756AA39C, 0x026D930A, 0x9C0906A9, 0xEB0E363F,
    0x72076785, 0x05005713, 0x95BF4A82, 0xE2B87A14, 0x7BB12BAE, 0x0CB61B38,
    0x92D28E9B, 0xE5D5BE0D, 0x7CDCEFB7, 0x0BDBDF21, 0x86D3D2D4, 0xF1D4E242,
    0x68DDB3F8, 0x1FDA836E, 0x81BE16CD, 0xF6B9265B, 0x6FB077E1, 0x18B74777,
    0x88085AE6, 0xFF0F6A70, 0x66063BCA, 0x11010B5C, 0x8F659EFF, 0xF862AE69,
    0x616BFFD3, 0x166CCF45, 0xA00AE278, 0xD70DD2EE, 0x4E048354, 0x3903B3C2,
    0xA7672661, 0xD06016F7, 0x4969474D, 0x3E6E77DB, 0xAED16A4A, 0xD9D65ADC,
    0x40DF0B66, 0x37D83BF0, 0xA9BCAE53, 0xDEBB9EC5, 0x47B2CF7F, 0x30B5FFE9,
    0xBDBDF21C, 0xCABAC28A, 0x53B39330, 0x24B4A3A6, 0xBAD03605, 0xCDD70693,
    0x54DE5729, 0x23D967BF, 0xB3667A2E, 0xC4614AB8, 0x5D681B02, 0x2A6F2B94,
    0xB40BBE37, 0xC30C8EA1, 0x5A05DF1B, 0x2D02EF8D
  ]"

definition swap_bytes :: "32 word \<Rightarrow> 32 word" where
  "swap_bytes crc = drop_bit 24 crc OR (drop_bit 8 crc AND 0x0000FF00)
     OR (push_bit 8 crc AND 0x00FF0000) OR push_bit 24 crc"

fun crc_loop :: "32 word \<Rightarrow> 8 word list \<Rightarrow> 32 word" where
  "crc_loop crc [] = crc"
| "crc_loop crc (p # buf) =
    crc_loop (crc32_tab ! unat ((crc XOR ucast p) AND 0xFF) XOR drop_bit 8 crc) buf"

definition ethernetCRC :: "8 word list \<Rightarrow> 32 word \<Rightarrow> 32 word" where
  "ethernetCRC buf crc = swap_bytes (crc_loop (swap_bytes crc XOR NOT 0) buf XOR NOT 0)"

text \<open>
  The reference: one step of the division shifts one bit out and subtracts the reflected
  polynomial when that bit is set; a byte is added into the low end and eight steps follow.
\<close>

definition crc_bit :: "32 word \<Rightarrow> 32 word" where
  "crc_bit c = (if bit c 0 then drop_bit 1 c XOR 0xEDB88320 else drop_bit 1 c)"

definition crc_ref :: "32 word \<Rightarrow> 8 word list \<Rightarrow> 32 word" where
  "crc_ref = foldl (\<lambda>c p. (crc_bit ^^ 8) (c XOR ucast p))"

lemma crc_bit_xor: "crc_bit (x XOR y) = crc_bit x XOR crc_bit y"
  by (auto simp: crc_bit_def bit_simps drop_bit_xor bit_eq_iff)

lemma crc_bits_xor: "(crc_bit ^^ n) (x XOR y) = (crc_bit ^^ n) x XOR (crc_bit ^^ n) y"
  by (induction n) (simp_all add: crc_bit_xor)

lemma crc_bits_high: "\<forall>i < n. \<not> bit x i \<Longrightarrow> (crc_bit ^^ n) x = drop_bit n x"
proof (induction n)
  case (Suc n)
  then have "(crc_bit ^^ n) x = drop_bit n x" by simp
  moreover have "\<not> bit (drop_bit n x) 0" using Suc.prems by (simp add: bit_drop_bit_eq)
  ultimately have "crc_bit ((crc_bit ^^ n) x) = drop_bit 1 (drop_bit n x)" by (simp add: crc_bit_def)
  then show ?case by (simp del: drop_bit_Suc)
qed simp

lemma drop_bit_of_nat_word:
  assumes "m < 2 ^ 32"
  shows "drop_bit 1 (of_nat m :: 32 word) = of_nat (m div 2)"
proof -
  have "unat (drop_bit 1 (of_nat m :: 32 word)) = m div 2"
    using assms by (simp add: unsigned_drop_bit_eq unsigned_of_nat take_bit_nat_eq_self drop_bit_eq_div[where 'a = nat])
  then show ?thesis by (metis of_nat_unat ucast_id)
qed

lemma crc_bit_even: "(numeral n :: nat) < 0x80000000 \<Longrightarrow> crc_bit (numeral (num.Bit0 n)) = numeral n" 
  using drop_bit_of_nat_word[of "numeral (num.Bit0 n)"]
  by (simp add: crc_bit_def bit_0)

lemma crc_bit_odd: "(numeral n :: nat) < 0x80000000 \<Longrightarrow> crc_bit (numeral (num.Bit1 n)) = numeral n XOR 0xEDB88320"
  using drop_bit_of_nat_word[of "numeral (num.Bit1 n)"]
  by (simp add: crc_bit_def bit_0)

lemma crc_bit_01: "crc_bit 0 = 0" "crc_bit 1 = 0xEDB88320"
  by (simp_all add: crc_bit_def)

lemma eight_crc_bits:
  "(crc_bit ^^ 8) x = crc_bit (crc_bit (crc_bit (crc_bit (crc_bit (crc_bit (crc_bit (crc_bit x)))))))"
  by (simp add: numeral_eq_Suc)

lemma crc32_tab_eq: "crc32_tab = map (crc_bit ^^ 8) (map of_nat [0..<256])"
  by (simp add: crc32_tab_def eight_crc_bits crc_bit_even crc_bit_odd crc_bit_01 upt_conv_Cons)

lemma crc_table_step:
  "crc32_tab ! unat (c AND 0xFF) XOR drop_bit 8 c = (crc_bit ^^ 8) c"
proof -
  define lo hi where "lo = c AND 0xFF" and "hi = push_bit 8 (drop_bit 8 c)"
  have m: "(0xFF :: 32 word) = mask 8" by (simp add: mask_eq_exp_minus_1)
  have lob: "bit lo i \<longleftrightarrow> i < 8 \<and> bit c i" for i
    unfolding lo_def m by (auto simp: bit_simps)
  have hib: "bit hi i \<longleftrightarrow> 8 \<le> i \<and> bit c i" for i
    unfolding hi_def using bit_imp_le_length[of c i] by (auto simp: bit_simps)
  have split: "c = lo XOR hi" by (rule bit_word_eqI) (auto simp: bit_simps lob hib)
  have "lo = take_bit 8 c" unfolding lo_def m by (simp add: take_bit_eq_mask)
  then have "unat lo < 256"
    by (simp add: unsigned_take_bit_eq take_bit_eq_mod[where 'a = nat])
  then have "crc32_tab ! unat lo = (crc_bit ^^ 8) lo" unfolding crc32_tab_eq by simp
  moreover have "(crc_bit ^^ 8) hi = drop_bit 8 hi" by (rule crc_bits_high) (simp add: hib)
  moreover have "drop_bit 8 hi = drop_bit 8 c"
    by (rule bit_word_eqI) (simp add: bit_simps hib)
  moreover have "(crc_bit ^^ 8) c = (crc_bit ^^ 8) lo XOR (crc_bit ^^ 8) hi"
    using crc_bits_xor[of 8 lo hi] split by simp
  ultimately show ?thesis by (simp add: lo_def)
qed

lemma crc_high_bits: "drop_bit 8 (c XOR ucast (p :: 8 word)) = drop_bit 8 (c :: 32 word)"
proof -
  have "\<not> bit p (8 + n)" for n using bit_imp_le_length[of p "8 + n"] by auto
  then show ?thesis by (auto simp: bit_eq_iff bit_simps)
qed

lemma crc_loop_ref: "crc_loop c buf = crc_ref c buf"
proof (induction buf arbitrary: c)
  case (Cons p buf)
  show ?case using Cons crc_table_step[of "c XOR ucast p", unfolded crc_high_bits]
    by (simp add: crc_ref_def)
qed (simp add: crc_ref_def)

section \<open>Properties\<close>

text \<open>C39: both forms of \<open>TcpIpChecksum::_checksum\<close>, with their deferred carries on a 32-bit
  accumulator, compute the ones' complement sum of the 16-bit big-endian words, whatever
  the length of the buffer; so they agree on every buffer.\<close>

theorem checksum_is_ones_complement_sum:
  "unat (checksum_ptr buf) = ones_sum (word_sum buf) \<and> checksum_vec buf = checksum_ptr buf"
  using checksum_ptr_sum[of buf] checksum_vec_sum[of buf]
  by (simp add: word_unat_eq_iff)

text \<open>A buffer whose zeroed, word-aligned checksum field is filled with the computed
  checksum verifies: the checksum over the filled buffer is 0 (the test of
  \<open>Ipv4::verifyCrc\<close>).\<close>

theorem checksum_verifies:
  assumes "even (length pre)"
  shows "tcpip_checksum (pre @ be_bytes (tcpip_checksum (pre @ [0, 0] @ post)) @ post) = 0"
  by (rule checksum_fill[OF assms])

theorem checksum_verifies_witness:
  "tcpip_checksum ([0x45, 0x00, 0x12, 0x34] @ be_bytes (tcpip_checksum ([0x45, 0x00, 0x12, 0x34] @ [0, 0] @ [0xC0]))
     @ [0xC0]) = 0"
  by (rule checksum_verifies) simp

text \<open>C40: the table-driven \<open>ethernetCRC\<close> is the bit-by-bit division by the reflected CRC-32
  polynomial, for every buffer and every initial value.\<close>

theorem ethernetCRC_is_division:
  "ethernetCRC buf crc = swap_bytes (crc_ref (swap_bytes crc XOR NOT 0) buf XOR NOT 0)"
  by (simp add: ethernetCRC_def crc_loop_ref)

end
