(* ===== verification/Wire.thy ===== *)
theory Wire
  imports Packets Checksum
begin

text \<open>
  What the headers look like on the wire: the protocol numbers of \<open>ProtocolGroup\<close>, the
  serializers and deserializers of the RDMA and UDP headers, the serializer of the IPv4
  header and of the transport pseudo header, and the serialization of a chunk, which the
  checksums are computed over. A stream is a list of bytes; reading beyond its end gives
  0 (\<open>MemoryInputStream::readByte\<close>).
\<close>

section \<open>Protocol numbers\<close>

type_synonym protocol_group = "(int \<times> protocol) list"

definition ethertype :: protocol_group where
  "ethertype = [
    (0x0800, P_ipv4), (0x0806, P_arp), (0x2000, P_named ''cdp''), (0x22EA, P_named ''srp''),
    (0x22F0, P_named ''tsn''), (0x22F3, P_named ''trill''), (0x22F4, P_named ''l2isis''),
    (0x36FC, P_named ''flooding''), (0x8100, P_named ''ieee8021qCTag''), (0x86DD, P_ipv6),
    (0x86FD, P_named ''probabilistic''), (0x86FE, P_named ''wiseRoute''),
    (0x86FF, P_nextHopForwarding), (0x8808, P_named ''ethernetFlowCtrl''),
    (0x8847, P_named ''mpls''), (0x88A8, P_named ''ieee8021qSTag''), (0x88CC, P_named ''lldp''),
    (0x88E5, P_named ''ieee8021ae''), (0x891D, P_named ''tteth'')]"

definition ipprotocol :: protocol_group where
  "ipprotocol = [
    (1, P_icmpv4), (2, P_igmp), (4, P_ipv4), (6, P_tcp), (8, P_named ''egp''), (9, P_named ''igp''),
    (17, P_udp), (20, P_rdma), (36, P_named ''xtp''), (41, P_ipv6), (46, P_named ''rsvpTe''),
    (48, P_named ''dsr''), (58, P_icmpv6), (88, P_named ''eigrp''), (89, P_named ''ospf''),
    (103, P_named ''pim''), (132, P_named ''sctp''), (135, P_named ''mobileipv6''),
    (138, P_named ''manet''), (249, P_named ''linkStateRouting''), (250, P_named ''flooding''),
    (251, P_named ''probabilistic''), (252, P_named ''wiseRoute''), (253, P_nextHopForwarding),
    (254, P_named ''echo'')]"

definition findProtocol :: "protocol_group \<Rightarrow> int \<Rightarrow> protocol option" where
  "findProtocol g n = map_of g n"

definition getProtocol :: "protocol_group \<Rightarrow> int \<Rightarrow> protocol res" where
  "getProtocol g n = (case findProtocol g n of Some p \<Rightarrow> Inr p | None \<Rightarrow> Inl (RuntimeError ''Unknown protocol''))"

definition findProtocolNumber :: "protocol_group \<Rightarrow> protocol \<Rightarrow> int" where
  "findProtocolNumber g p = (case map_of (map prod.swap g) p of Some n \<Rightarrow> n | None \<Rightarrow> -1)"

definition getProtocolNumber :: "protocol_group \<Rightarrow> protocol \<Rightarrow> int res" where
  "getProtocolNumber g p =
    (let n = findProtocolNumber g p in if n \<noteq> -1 then Inr n else Inl (RuntimeError ''Unknown protocol''))"

lemma findProtocol_number:
  assumes "distinct (map fst g)" "getProtocolNumber g p = Inr n"
  shows "findProtocol g n = Some p"
proof -
  have "map_of (map prod.swap g) p = Some n"
    using assms(2) by (auto simp: getProtocolNumber_def findProtocolNumber_def Let_def split: option.splits if_splits)
  then have "(p, n) \<in> set (map prod.swap g)" by (rule map_of_SomeD)
  then have "(n, p) \<in> set g" by auto
  then show ?thesis using assms(1) by (simp add: findProtocol_def)
qed

lemma distinct_groups: "distinct (map fst ipprotocol)" "distinct (map fst ethertype)"
  by (simp_all add: ipprotocol_def ethertype_def)

section \<open>Streams\<close>

fun readByte :: "8 word list \<Rightarrow> 8 word \<times> 8 word list" where
  "readByte [] = (0, [])"
| "readByte (b # bs) = (b, bs)"

definition readUint16Be :: "8 word list \<Rightarrow> 16 word \<times> 8 word list" where
  "readUint16Be s =
    (let (h, s) = readByte s; (l, s) = readByte s in (push_bit 8 (ucast h) OR ucast l, s))"

definition be32_bytes :: "32 word \<Rightarrow> 8 word list" where
  "be32_bytes w = [ucast (drop_bit 24 w), ucast (drop_bit 16 w), ucast (drop_bit 8 w), ucast w]"

lemma readUint16Be_be_bytes [simp]: "readUint16Be (be_bytes w @ s) = (w, s)"
proof -
  have "push_bit 8 (ucast (ucast (drop_bit 8 w) :: 8 word)) OR ucast (ucast w :: 8 word) = w"
    by (rule bit_word_eqI) (auto simp: bit_simps)
  then show ?thesis by (simp add: readUint16Be_def be_bytes_def)
qed

section \<open>The RDMA and the UDP header\<close>

definition serializable :: "crc_mode \<Rightarrow> bool" where
  "serializable m \<longleftrightarrow> m = CRC_DISABLED \<or> m = CRC_COMPUTED"

definition rdma_serialize :: "rdma_header \<Rightarrow> 8 word list res" where
  "rdma_serialize h =
    (if \<not> serializable (rh_crcMode h) then Inl (RuntimeError ''Cannot serialize RDMA header'')
     else Inr (be_bytes (rh_srcPort h) @ be_bytes (rh_destPort h) @
               be_bytes (of_int (rh_totalLength h)) @ be_bytes (rh_crc h)))"

definition rdma_deserialize :: "8 word list \<Rightarrow> rdma_header \<times> 8 word list" where
  "rdma_deserialize s =
    (let (sp, s) = readUint16Be s; (dp, s) = readUint16Be s;
         (len, s) = readUint16Be s; (crc, s) = readUint16Be s
     in (new_rdma_header\<lparr>rh_srcPort := sp, rh_destPort := dp, rh_totalLength := uint len,
           rh_crc := crc, rh_crcMode := (if crc = 0 then CRC_DISABLED else CRC_COMPUTED)\<rparr>, s))"

definition udp_serialize :: "udp_header \<Rightarrow> 8 word list res" where
  "udp_serialize h =
    (if \<not> serializable (uh_crcMode h) then Inl (RuntimeError ''Cannot serialize UDP header'')
     else Inr (be_bytes (uh_srcPort h) @ be_bytes (uh_destPort h) @
               be_bytes (of_int (uh_totalLength h)) @ be_bytes (uh_crc h)))"

definition udp_deserialize :: "8 word list \<Rightarrow> udp_header \<times> 8 word list" where
  "udp_deserialize s =
    (let (sp, s) = readUint16Be s; (dp, s) = readUint16Be s;
         (len, s) = readUint16Be s; (crc, s) = readUint16Be s
     in (new_udp_header\<lparr>uh_srcPort := sp, uh_destPort := dp, uh_totalLength := uint len,
           uh_crc := crc, uh_crcMode := (if crc = 0 then CRC_DISABLED else CRC_COMPUTED)\<rparr>, s))"

text \<open>
  What comes back from the wire: the length modulo \<open>2 ^ 16\<close>, the CRC mode the receiver
  infers, and the default values of the fields that are not serialized.
\<close>

definition rdma_wire :: "rdma_header \<Rightarrow> rdma_header" where
  "rdma_wire h = new_rdma_header\<lparr>rh_srcPort := rh_srcPort h, rh_destPort := rh_destPort h,
     rh_totalLength := rh_totalLength h mod 65536, rh_crc := rh_crc h,
     rh_crcMode := (if rh_crc h = 0 then CRC_DISABLED else CRC_COMPUTED)\<rparr>"

definition udp_wire :: "udp_header \<Rightarrow> udp_header" where
  "udp_wire h = new_udp_header\<lparr>uh_srcPort := uh_srcPort h, uh_destPort := uh_destPort h,
     uh_totalLength := uh_totalLength h mod 65536, uh_crc := uh_crc h,
     uh_crcMode := (if uh_crc h = 0 then CRC_DISABLED else CRC_COMPUTED)\<rparr>"

lemma uint_of_int16: "uint (of_int k :: 16 word) = k mod 65536"
  by (simp add: uint_word_of_int)

lemma of_int_mod16: "(of_int (k mod 65536) :: 16 word) = of_int k"
  by (metis uint_of_int16 word_of_int_uint)

text \<open>The contract of a header codec, and what a reader of several headers relies on.\<close>

locale header_codec =
  fixes ser :: "'h \<Rightarrow> 8 word list res"
    and des :: "8 word list \<Rightarrow> 'h \<times> 8 word list"
    and wire :: "'h \<Rightarrow> 'h"
  assumes des_ser: "ser h = Inr bs \<Longrightarrow> des (bs @ rest) = (wire h, rest)"
    and ser_wire: "ser h = Inr bs \<Longrightarrow> ser (wire h) = Inr bs"
begin

lemma wire_idem: "ser h = Inr bs \<Longrightarrow> wire (wire h) = wire h"
  by (metis des_ser ser_wire fst_conv)

lemma des_ser_two:
  "ser h = Inr bs \<Longrightarrow> ser g = Inr cs \<Longrightarrow>
    (case des (bs @ cs @ rest) of (h', s) \<Rightarrow> (h', des s)) = (wire h, wire g, rest)"
  by (simp add: des_ser)

lemma ser_inj_wire: "ser h = Inr bs \<Longrightarrow> ser g = Inr bs \<Longrightarrow> wire h = wire g"
  by (metis des_ser fst_conv)

end

interpretation rdma_codec: header_codec rdma_serialize rdma_deserialize rdma_wire
proof
  fix h :: rdma_header and bs rest
  assume "rdma_serialize h = Inr bs"
  then show "rdma_deserialize (bs @ rest) = (rdma_wire h, rest)" "rdma_serialize (rdma_wire h) = Inr bs"
    by (auto simp: rdma_serialize_def rdma_deserialize_def rdma_wire_def serializable_def
        uint_of_int16 of_int_mod16 split: if_splits)
qed

interpretation udp_codec: header_codec udp_serialize udp_deserialize udp_wire
proof
  fix h :: udp_header and bs rest
  assume "udp_serialize h = Inr bs"
  then show "udp_deserialize (bs @ rest) = (udp_wire h, rest)" "udp_serialize (udp_wire h) = Inr bs"
    by (auto simp: udp_serialize_def udp_deserialize_def udp_wire_def serializable_def
        uint_of_int16 of_int_mod16 split: if_splits)
qed

section \<open>The IPv4 header\<close>

text \<open>
  The 16 bits of \<open>ip_off\<close>: the offset in units of 8 bytes, \<open>IP_MF\<close> and \<open>IP_DF\<close>. Options are
  written after the fixed part, and zero bytes up to the header length.
\<close>

definition ip_off_field :: "ipv4_header \<Rightarrow> 16 word" where
  "ip_off_field h =
    (of_int (ih_fragmentOffset h div 8) AND 0x1FFF)
      OR (if ih_moreFragments h then 0x2000 else 0) OR (if ih_dontFragment h then 0x4000 else 0)"

definition ipv4_serialize :: "ipv4_header \<Rightarrow> 8 word list res" where
  "ipv4_serialize h =
    (let hl = ih_headerLength h; opts = concat (ih_options h) in
     if \<not> (hl mod 4 = 0 \<and> 20 \<le> hl \<and> hl \<le> 60) then Inl (AssertFailed ''headerLength'')
     else if \<not> hl \<le> ih_totalLength h then Inl (AssertFailed ''totalLengthField'')
     else if ih_fragmentOffset h mod 8 \<noteq> 0 then Inl (AssertFailed ''fragmentOffset'')
     else if ih_crcMode h \<noteq> CRC_COMPUTED then Inl (RuntimeError ''Cannot serialize Ipv4 header'')
     else if hl > 20 \<and> hl < 20 + int (length opts) then Inl (RuntimeError ''wrong headerLength value'')
     else Inr (
       [of_int (4 * 16 + hl div 4), ih_typeOfService h] @ be_bytes (of_int (ih_totalLength h))
       @ be_bytes (ih_identification h) @ be_bytes (ip_off_field h)
       @ [of_int (ih_timeToLive h), of_int (ih_protocolId h)] @ be_bytes (ih_crc h)
       @ be32_bytes (ih_srcAddress h) @ be32_bytes (ih_destAddress h)
       @ (if hl > 20 then opts @ replicate (nat hl - 20 - length opts) 0 else [])))"

text \<open>The checksum field is the sixth 16-bit word.\<close>

lemma ipv4_serialize_crc:
  assumes "ipv4_serialize (h\<lparr>ih_crc := 0\<rparr>) = Inr bs"
  shows "\<exists>pre post. even (length pre) \<and> bs = pre @ [0, 0] @ post \<and>
    (\<forall>c. ipv4_serialize (h\<lparr>ih_crc := c\<rparr>) = Inr (pre @ be_bytes c @ post))"
proof -
  define pre where "pre = [of_int (4 * 16 + ih_headerLength h div 4), ih_typeOfService h]
     @ be_bytes (of_int (ih_totalLength h)) @ be_bytes (ih_identification h)
     @ be_bytes (ip_off_field h) @ [of_int (ih_timeToLive h), of_int (ih_protocolId h)]"
  define post where "post = be32_bytes (ih_srcAddress h) @ be32_bytes (ih_destAddress h)
     @ (if ih_headerLength h > 20 then concat (ih_options h)
          @ replicate (nat (ih_headerLength h) - 20 - length (concat (ih_options h))) 0 else [])"
  have all: "ipv4_serialize (h\<lparr>ih_crc := c\<rparr>) = Inr (pre @ be_bytes c @ post)" for c
    using assms
    by (simp add: ipv4_serialize_def Let_def pre_def post_def ip_off_field_def split: if_splits)
  have "bs = pre @ [0, 0] @ post" using all[of 0] assms by (simp add: be_bytes_def)
  moreover have "even (length pre)" by (simp add: pre_def be_bytes_def)
  ultimately show ?thesis using all by blast
qed

section \<open>The transport pseudo header\<close>

definition be128_bytes :: "128 word \<Rightarrow> 8 word list" where
  "be128_bytes w = concat (map (\<lambda>i. be32_bytes (ucast (drop_bit (96 - 32 * i) w))) [0..<4])"

definition l3_toIpv6 :: "l3_address \<Rightarrow> 128 word res" where
  "l3_toIpv6 a = (case a of L3None \<Rightarrow> Inr 0 | L3IPv6 w \<Rightarrow> Inr w
     | _ \<Rightarrow> Inl (RuntimeError ''Address is not of the given type''))"

definition pseudo_serialize ::
  "protocol \<Rightarrow> l3_address \<Rightarrow> l3_address \<Rightarrow> int \<Rightarrow> int \<Rightarrow> 8 word list res" where
  "pseudo_serialize net src dest protId len =
    (if net = P_ipv4 then
       bindE (l3_toIpv4 src) (\<lambda>s. bindE (l3_toIpv4 dest) (\<lambda>d.
         Inr (be32_bytes s @ be32_bytes d @ [0, of_int protId] @ be_bytes (of_int len))))
     else if net = P_ipv6 then
       bindE (l3_toIpv6 src) (\<lambda>s. bindE (l3_toIpv6 dest) (\<lambda>d.
         Inr (be128_bytes s @ be128_bytes d @ be32_bytes (of_int len) @ [0, 0, 0, of_int protId])))
     else Inl (RuntimeError ''Unknown network protocol''))"

section \<open>Serializing a chunk\<close>

definition app_serialize :: "app_header \<Rightarrow> 8 word list res" where
  "app_serialize h =
    (if ah_chunkLength h < 8 then Inl (RuntimeError ''ApplicationPacket length too small'')
     else Inr (be32_bytes (of_nat (ah_chunkLength h)) @ be32_bytes (ah_sequenceNumber h)
               @ replicate (ah_chunkLength h - 8) 0x3F))"

text \<open>A message whose class does not fit its type cannot be serialized (\<open>CHK\<close> of a null pointer).\<close>

definition icmp_body_serialize :: "icmp_header \<Rightarrow> 8 word list res" where
  "icmp_body_serialize h =
    (if ic_type h = 8 then
       (case ic_class h of IcmpEchoRequestC i n \<Rightarrow> Inr (be_bytes (of_int i) @ be_bytes (of_int n))
        | _ \<Rightarrow> Inl (RuntimeError ''dynamicPtrCast returned nullptr''))
     else if ic_type h = 0 then
       (case ic_class h of IcmpEchoReplyC i n \<Rightarrow> Inr (be_bytes (of_int i) @ be_bytes (of_int n))
        | _ \<Rightarrow> Inl (RuntimeError ''dynamicPtrCast returned nullptr''))
     else if ic_type h = 3 then
       (case ic_class h of IcmpPtbC unused mtu \<Rightarrow>
          Inr (if ic_code h = 4 then be_bytes unused @ be_bytes mtu else be32_bytes 0)
        | _ \<Rightarrow> Inr (be32_bytes 0))
     else if ic_type h = 11 then Inr (be32_bytes 0)
     else Inl (RuntimeError ''Can not serialize ICMP packet''))"

definition icmp_serialize :: "icmp_header \<Rightarrow> 8 word list res" where
  "icmp_serialize h = bindE (icmp_body_serialize h) (\<lambda>bs.
     Inr ([of_int (ic_type h), of_int (ic_code h)] @ be_bytes (of_int (ic_chksum h)) @ bs))"

text \<open>
  Byte \<open>i\<close> of a header is byte \<open>i\<close> of its serialization. The link layer headers never occur in
  the chunks that the modelled code serializes; they have no serializer here.
\<close>

fun header_serialize :: "header \<Rightarrow> 8 word list res" where
  "header_serialize (RdmaH h) = rdma_serialize h"
| "header_serialize (UdpH h) = udp_serialize h"
| "header_serialize (Ipv4H h) = ipv4_serialize h"
| "header_serialize (AppH h) = app_serialize h"
| "header_serialize (IcmpH h) = icmp_serialize h"
| "header_serialize _ = Inl (RuntimeError ''no serializer'')"

fun cells_serialize :: "cell list \<Rightarrow> 8 word list res" where
  "cells_serialize [] = Inr []"
| "cells_serialize (Data b # cs) = bindE (cells_serialize cs) (\<lambda>bs. Inr (b # bs))"
| "cells_serialize (HB h i # cs) =
    bindE (header_serialize h) (\<lambda>hb. bindE (cells_serialize cs) (\<lambda>bs. Inr (hb ! i # bs)))"

section \<open>Properties\<close>

text \<open>An RDMA header that can be serialized is read back with its ports, its checksum and
  its length modulo \<open>2 ^ 16\<close>; the fragmentation fields are not on the wire and come back as
  those of an unfragmented datagram. The bytes after it are left in the stream.\<close>

theorem rdma_header_roundtrip:
  assumes "rh_crcMode h = CRC_DISABLED \<or> rh_crcMode h = CRC_COMPUTED"
  shows "\<exists>bs. rdma_serialize h = Inr bs \<and> length bs = 8 \<and>
    rdma_deserialize (bs @ rest) = (h\<lparr>rh_totalLength := rh_totalLength h mod 65536,
       rh_crcMode := (if rh_crc h = 0 then CRC_DISABLED else CRC_COMPUTED),
       rh_moreFragments := False, rh_fragmentOffset := 0, rh_identification := 0\<rparr>, rest)"
proof -
  obtain bs where bs: "rdma_serialize h = Inr bs"
    using assms by (auto simp: rdma_serialize_def serializable_def)
  moreover have "length bs = 8" using bs by (auto simp: rdma_serialize_def be_bytes_def split: if_splits)
  moreover have "rdma_wire h = h\<lparr>rh_totalLength := rh_totalLength h mod 65536,
       rh_crcMode := (if rh_crc h = 0 then CRC_DISABLED else CRC_COMPUTED),
       rh_moreFragments := False, rh_fragmentOffset := 0, rh_identification := 0\<rparr>"
    by (simp add: rdma_wire_def new_rdma_header_def)
  ultimately show ?thesis using rdma_codec.des_ser[OF bs, of rest] by auto
qed

theorem rdma_header_roundtrip_witness:
  "\<exists>bs. rdma_serialize (new_rdma_header\<lparr>rh_srcPort := 1024, rh_totalLength := 100, rh_crcMode := CRC_DISABLED\<rparr>) = Inr bs
    \<and> length bs = 8 \<and> rh_srcPort (fst (rdma_deserialize (bs @ [7]))) = 1024"
  using rdma_header_roundtrip[of "new_rdma_header\<lparr>rh_srcPort := 1024, rh_totalLength := 100, rh_crcMode := CRC_DISABLED\<rparr>" "[7]"]
  by auto

text \<open>Two UDP headers written one after the other are read back in order, each with its
  ports, checksum and length modulo \<open>2 ^ 16\<close>; a header whose checksum mode is neither
  disabled nor computed cannot be written.\<close>

theorem udp_headers_roundtrip:
  assumes "serializable (uh_crcMode h)" "serializable (uh_crcMode g)"
  shows "\<exists>bs cs. udp_serialize h = Inr bs \<and> udp_serialize g = Inr cs \<and>
    (case udp_deserialize (bs @ cs @ rest) of (h', s) \<Rightarrow> (h', udp_deserialize s))
      = (udp_wire h, udp_wire g, rest) \<and>
    (\<forall>m. \<not> serializable m \<longrightarrow> udp_serialize (h\<lparr>uh_crcMode := m\<rparr>) = Inl (RuntimeError ''Cannot serialize UDP header''))"
proof -
  obtain bs cs where bs: "udp_serialize h = Inr bs" "udp_serialize g = Inr cs"
    using assms by (auto simp: udp_serialize_def)
  then show ?thesis using udp_codec.des_ser_two[OF bs, of rest]
    by (auto simp: udp_serialize_def)
qed

theorem udp_headers_roundtrip_witness:
  "\<exists>bs cs. udp_serialize (new_udp_header\<lparr>uh_crcMode := CRC_DISABLED\<rparr>) = Inr bs \<and>
     udp_serialize (new_udp_header\<lparr>uh_crcMode := CRC_COMPUTED, uh_crc := 7\<rparr>) = Inr cs"
  using udp_headers_roundtrip[of "new_udp_header\<lparr>uh_crcMode := CRC_DISABLED\<rparr>"
      "new_udp_header\<lparr>uh_crcMode := CRC_COMPUTED, uh_crc := 7\<rparr>" "[]"]
  by (auto simp: serializable_def)

end
