(* ===== verification/Rdma.thy ===== *)
theory Rdma
  imports Wire
begin

text \<open>
  The RDMA transport module (\<open>transportlayer/rdma/Rdma.{h,cc}\<close>): its state, the handling of a
  message from the application (checks, header, fragmentation), the timer-driven variant of
  the fragmentation loop, the checksum, and the receiving side. A handler returns what it
  sends, in order, and the new state, or the error it raises. What the simulation kernel
  provides is an argument: the time, the values of \<open>rand()\<close>, the id of the parent module and
  the end of the current transmission. Signals other than the drop signal are left out.
\<close>

section \<open>State and outputs\<close>

definition RDMA_MAX_MESSAGE_SIZE :: int where
  "RDMA_MAX_MESSAGE_SIZE = 4096"

definition IP_PROT_RDMA :: int where
  "IP_PROT_RDMA = 30"

record rdma_state =
  rs_crcMode :: crc_mode
  rs_lastEphemeralPort :: port
  rs_numSent :: int
  rs_numPassedUp :: int
  rs_numDroppedWrongPort :: int
  rs_numDroppedBadChecksum :: int
  rs_offset :: int
  rs_headerLength :: int
  rs_payloadLength :: int
  rs_fragmentLength :: int
  rs_offsetBase :: int
  rs_noOfFragments :: int
  rs_fragMsgName :: string
  rs_srcAddr :: l3_address
  rs_destAddr :: l3_address
  rs_l3Protocol :: protocol
  rs_rdmaHeader :: rdma_header
  rs_packet :: packet

datatype drop_reason = INCORRECTLY_RECEIVED | NO_PORT_FOUND

datatype rdma_output =
    SendLower packet              \<comment> \<open>\<open>send(packet, "lowerLayerOut")\<close>\<close>
  | SendApp packet                \<comment> \<open>\<open>send(packet, "appOut")\<close>\<close>
  | Dropped drop_reason packet    \<comment> \<open>\<open>packetDroppedSignal\<close>\<close>
  | IcmpPortUnreachable packet int
  | Icmpv6PortUnreachable packet
  | ScheduleEndTx simtime         \<comment> \<open>\<open>scheduleAt(..., endTxTimer)\<close>\<close>

type_synonym rdma_result = "(rdma_output list \<times> rdma_state) res"

section \<open>Ports\<close>

definition EPHEMERAL_PORTRANGE_START :: port where
  "EPHEMERAL_PORTRANGE_START = 1024"

definition EPHEMERAL_PORTRANGE_END :: port where
  "EPHEMERAL_PORTRANGE_END = 5000"

definition rdma_getEphemeralPort :: "rdma_state \<Rightarrow> port \<times> rdma_state" where
  "rdma_getEphemeralPort s =
    (let s = (if rs_lastEphemeralPort s = EPHEMERAL_PORTRANGE_END
              then s\<lparr>rs_lastEphemeralPort := EPHEMERAL_PORTRANGE_START\<rparr> else s)
     in (rs_lastEphemeralPort s, s))"

section \<open>The checksum\<close>

definition rdma_computeCrc ::
  "protocol \<Rightarrow> l3_address \<Rightarrow> l3_address \<Rightarrow> rdma_header \<Rightarrow> cell list \<Rightarrow> (16 word) res" where
  "rdma_computeCrc net src dest h dat =
    bindE (pseudo_serialize net src dest IP_PROT_RDMA (8 + int (length dat))) (\<lambda>ph.
    bindE (rdma_serialize h) (\<lambda>hb.
    bindE (cells_serialize dat) (\<lambda>db.
      let crc = tcpip_checksum (ph @ hb @ db)
      in Inr (if crc = 0 then 0xFFFF else crc))))"

definition rdma_insertCrc ::
  "protocol \<Rightarrow> l3_address \<Rightarrow> l3_address \<Rightarrow> rdma_header \<Rightarrow> packet \<Rightarrow> rdma_header res" where
  "rdma_insertCrc net src dest h p =
    (case rh_crcMode h of
       CRC_DISABLED \<Rightarrow> Inr (h\<lparr>rh_crc := 0\<rparr>)
     | CRC_DECLARED_CORRECT \<Rightarrow> Inr (h\<lparr>rh_crc := 0xC00D\<rparr>)
     | CRC_DECLARED_INCORRECT \<Rightarrow> Inr (h\<lparr>rh_crc := 0xBAAD\<rparr>)
     | CRC_COMPUTED \<Rightarrow>
         (let h = h\<lparr>rh_crc := 0, rh_crcMode := CRC_DISABLED\<rparr> in
          bindE (rdma_computeCrc net src dest h (pk_data p)) (\<lambda>crc.
            Inr (h\<lparr>rh_crc := crc, rh_crcMode := CRC_COMPUTED\<rparr>)))
     | CRC_MODE_UNDEFINED \<Rightarrow> Inl (RuntimeError ''Unknown CRC mode''))"

text \<open>
  \<open>headerOk\<close> and \<open>dataOk\<close> are the chunks' \<open>isCorrect\<close> flags. The payload is read with
  \<open>PF_ALLOW_INCORRECT\<close> only, so an empty one is refused.
\<close>

definition rdma_verifyCrc :: "bool \<Rightarrow> bool \<Rightarrow> protocol \<Rightarrow> rdma_header \<Rightarrow> packet \<Rightarrow> bool res" where
  "rdma_verifyCrc headerOk dataOk net h p =
    (case rh_crcMode h of
       CRC_DISABLED \<Rightarrow> Inr (rh_crc h = 0)
     | CRC_DECLARED_CORRECT \<Rightarrow>
         bindE (peekDataAt 0 (rh_totalLength h - 8) p) (\<lambda>_. Inr (headerOk \<and> dataOk))
     | CRC_DECLARED_INCORRECT \<Rightarrow> Inr False
     | CRC_COMPUTED \<Rightarrow>
         (if rh_crc h = 0 then Inr True
          else bindE (getTag (t_l3AddressInd (pk_tags p))) (\<lambda>(src, dest).
               bindE (peekDataAt 0 (rh_totalLength h - 8) p) (\<lambda>dat.
               bindE (rdma_computeCrc net src dest h dat) (\<lambda>crc.
                 Inr (crc = 0xFFFF \<and> headerOk \<and> dataOk)))))
     | CRC_MODE_UNDEFINED \<Rightarrow> Inl (RuntimeError ''Unknown CRC mode''))"

section \<open>Sending\<close>

text \<open>\<open>insertTransportProtocolHeader\<close> of \<open>L4Tools\<close> and \<open>insertProtocolHeader\<close> of \<open>ProtocolTools\<close>.\<close>

definition insertTransportProtocolHeader :: "packet \<Rightarrow> protocol \<Rightarrow> header \<Rightarrow> packet res" where
  "insertTransportProtocolHeader p prot h =
    insertAtFront (header_cells h)
      (p\<lparr>pk_tags := (pk_tags p)\<lparr>t_transportInd := Some (prot, h), t_packetProtocol := Some prot\<rparr>\<rparr>)"

text \<open>
  The body of the fragmentation loop of \<open>handleUpperPacket\<close>: the fragment of the stored packet at the
  current offset, and its length. The header is inserted twice, by \<open>insertTransportProtocolHeader\<close> and
  by \<open>insertAtFront\<close>.
\<close>

definition rdma_thisFragmentLength :: "rdma_state \<Rightarrow> int" where
  "rdma_thisFragmentLength s =
    (if rs_offset s + rs_fragmentLength s \<ge> rs_payloadLength s
     then rs_payloadLength s - rs_offset s else rs_fragmentLength s)"

definition rdma_fragment_packet :: "simtime \<Rightarrow> rdma_state \<Rightarrow> packet res" where
  "rdma_fragment_packet now s =
    (let lastFragment = rs_offset s + rs_fragmentLength s \<ge> rs_payloadLength s;
         thisLen = rdma_thisFragmentLength s;
         name = rs_fragMsgName s @ string_of_nat (nat (rs_offset s)) @ (if lastFragment then ''-last'' else []);
         fragment = (new_packet name now)\<lparr>pk_tags := pk_tags (rs_packet s)\<rparr>
     in
     bindE (peekDataAt (rs_headerLength s + rs_offset s) thisLen (rs_packet s)) (\<lambda>fragData.
     bindE (insertAtBack fragData fragment) (\<lambda>fragment.
       let h = rdma_dup (rs_rdmaHeader s);
           h = (if \<not> lastFragment then h\<lparr>rh_moreFragments := True\<rparr> else h);
           h = h\<lparr>rh_fragmentOffset := rs_offsetBase s + rs_offset s,
                 rh_totalLength := rs_headerLength s + thisLen\<rparr>
       in
       bindE (if rs_crcMode s = CRC_COMPUTED then Inr (h\<lparr>rh_crcMode := CRC_COMPUTED, rh_crc := 0\<rparr>)
              else rdma_insertCrc (rs_l3Protocol s) (rs_srcAddr s) (rs_destAddr s)
                     (h\<lparr>rh_crcMode := rs_crcMode s\<rparr>) fragment) (\<lambda>h.
       bindE (insertTransportProtocolHeader fragment P_rdma (RdmaH h)) (\<lambda>fragment.
       insertAtFront (header_cells (RdmaH h))
         (fragment\<lparr>pk_kind := 0, pk_tags := (pk_tags fragment)\<lparr>t_dispatchReq := Some (rs_l3Protocol s),
             t_packetProtocol := Some P_rdma\<rparr>\<rparr>))))))"

lemma rdma_fragment_packet_progress:
  assumes "rdma_fragment_packet now s = Inr f"
  shows "0 < rdma_thisFragmentLength s"
  using assms
  by (auto simp: rdma_fragment_packet_def Let_def peekDataAt_def bindE_eq_Inr split: if_splits)

text \<open>The loop \<open>while (offset < payloadLength)\<close>.\<close>

function rdma_fragment_loop :: "simtime \<Rightarrow> rdma_state \<Rightarrow> rdma_result" where
  "rdma_fragment_loop now s =
    (if rs_offset s < rs_payloadLength s then
       (case rdma_fragment_packet now s of
          Inl e \<Rightarrow> Inl e
        | Inr f \<Rightarrow>
            bindE (rdma_fragment_loop now (s\<lparr>rs_offset := rs_offset s + rdma_thisFragmentLength s\<rparr>))
              (\<lambda>(out, s). Inr (SendLower f # out, s)))
     else Inr ([], s))"
  by pat_completeness auto
termination
proof (relation "measure (\<lambda>(now, s). nat (rs_payloadLength s - rs_offset s))")
  fix now :: simtime and s :: rdma_state and f :: packet
  assume "rs_offset s < rs_payloadLength s" "rdma_fragment_packet now s = Inr f"
  then show "((now, s\<lparr>rs_offset := rs_offset s + rdma_thisFragmentLength s\<rparr>), now, s)
    \<in> measure (\<lambda>(now, s). nat (rs_payloadLength s - rs_offset s))"
    using rdma_fragment_packet_progress[of now s f] by simp
qed simp

declare rdma_fragment_loop.simps [simp del]

definition l3_protocol_of :: "l3_address \<Rightarrow> protocol" where
  "l3_protocol_of a = (case a of L3IPv4 _ \<Rightarrow> P_ipv4 | L3IPv6 _ \<Rightarrow> P_ipv6 | _ \<Rightarrow> P_nextHopForwarding)"

text \<open>
  The two branches of \<open>handleUpperPacket\<close>: a message that fits is sent whole, a longer one
  in fragments. \<open>h\<close> is the header prepared for it.
\<close>

definition rdma_send_whole :: "packet \<Rightarrow> rdma_state \<Rightarrow> rdma_result" where
  "rdma_send_whole p s =
    (let h = (rs_rdmaHeader s)\<lparr>rh_totalLength := 8 + int (totalLength p)\<rparr>;
         l3 = rs_l3Protocol s
     in
     bindE (if rs_crcMode s = CRC_COMPUTED then Inr (h\<lparr>rh_crcMode := CRC_COMPUTED, rh_crc := 0\<rparr>)
            else rdma_insertCrc l3 (rs_srcAddr s) (rs_destAddr s) (h\<lparr>rh_crcMode := rs_crcMode s\<rparr>) p) (\<lambda>h.
     bindE (insertTransportProtocolHeader p P_rdma (RdmaH h)) (\<lambda>p.
       let p = p\<lparr>pk_kind := 0, pk_tags := (pk_tags p)\<lparr>t_dispatchReq := Some l3, t_packetProtocol := Some P_rdma\<rparr>\<rparr>
       in Inr ([SendLower p], s\<lparr>rs_rdmaHeader := h, rs_packet := p, rs_numSent := rs_numSent s + 1\<rparr>))))"

definition rdma_send_fragments :: "simtime \<Rightarrow> packet \<Rightarrow> rdma_state \<Rightarrow> rdma_result" where
  "rdma_send_fragments now p s =
    (let headerLength = 8;
         payloadLength = int (dataLength p) - headerLength;
         fragmentLength = ((RDMA_MAX_MESSAGE_SIZE - headerLength) div 8) * 8;
         s = s\<lparr>rs_headerLength := headerLength, rs_payloadLength := payloadLength,
               rs_fragmentLength := fragmentLength, rs_offsetBase := rh_fragmentOffset (rs_rdmaHeader s)\<rparr>
     in
     if fragmentLength \<le> 0 then Inl (RuntimeError ''Cannot fragment datagram'')
     else
       let s = (if rs_noOfFragments s = 0
                then s\<lparr>rs_noOfFragments := (payloadLength + fragmentLength - 1) div fragmentLength\<rparr> else s);
           s = s\<lparr>rs_fragMsgName := pk_name p @ ''-frag-'', rs_offset := 0\<rparr>
       in
       bindE (rdma_fragment_loop now s) (\<lambda>(out, s).
         Inr (out, s\<lparr>rs_numSent := rs_numSent s + 1\<rparr>)))"

text \<open>
  \<open>handleUpperPacket\<close>. The tags are set and removed on the packet before the checks; the
  arguments \<open>rnd1\<close> and \<open>rnd2\<close> are the two values of \<open>rand()\<close>, \<open>parentId\<close> the id of the parent
  module.
\<close>

definition rdma_handleUpperPacket ::
  "simtime \<Rightarrow> int \<Rightarrow> int \<Rightarrow> int \<Rightarrow> packet \<Rightarrow> rdma_state \<Rightarrow> rdma_result" where
  "rdma_handleUpperPacket now parentId rnd1 rnd2 p s =
    (let t = pk_tags p;
         addressReq = (case t_l3AddressReq t of Some a \<Rightarrow> a
                       | None \<Rightarrow> \<lparr>lr_src = L3None, lr_dest = L3None, lr_nonLocalSrc = False\<rparr>);
         creation = (case t_creationTime t of Some c \<Rightarrow> c | None \<Rightarrow> 0);
         (srcPort, destPort) = (case t_l4PortReq t of Some ports \<Rightarrow> ports | None \<Rightarrow> (-1, -1));
         p = p\<lparr>pk_tags := t\<lparr>t_l3AddressReq := Some addressReq, t_creationTime := Some creation,
                            t_l4PortReq := None\<rparr>\<rparr>;
         destAddr = lr_dest addressReq;
         srcPort = (if srcPort = -1 then rnd1 mod 65535 else srcPort);
         destPort = (if destPort = -1 then rnd2 mod 65535 else destPort)
     in
     if t_interfaceReq t = Some (-1) then Inl (AssertFailed ''interfaceReq'')
     else if l3_isUnspecified destAddr then Inl (RuntimeError ''send: unspecified destination address'')
     else if destPort \<le> 0 \<or> destPort > 65535 then Inl (RuntimeError ''send: invalid remote port number'')
     else
       let h = new_rdma_header\<lparr>rh_srcPort := of_int srcPort, rh_destPort := of_int destPort,
                 rh_identification := of_int (parentId * 10 + rs_numSent s)\<rparr>;
           s = s\<lparr>rs_packet := p, rs_destAddr := destAddr, rs_l3Protocol := l3_protocol_of destAddr,
                 rs_rdmaHeader := h\<rparr>
       in
       if 8 + int (totalLength p) \<le> RDMA_MAX_MESSAGE_SIZE then rdma_send_whole p s
       else rdma_send_fragments now p s)"

text \<open>
  \<open>handleEndTxPeriod\<close>, which has a body of its own for the next fragment; \<open>finish\<close> is the channel's
  \<open>getTransmissionFinishTime()\<close>. This body also emits the signals of a sent packet, which the loop does not;
  signals are not modelled.
\<close>

definition rdma_handleEndTxPeriod :: "simtime \<Rightarrow> simtime \<Rightarrow> rdma_state \<Rightarrow> rdma_result" where
  "rdma_handleEndTxPeriod now finish s =
    (if rs_offset s < rs_payloadLength s then
       let lastFragment = rs_offset s + rs_fragmentLength s \<ge> rs_payloadLength s;
           thisFragmentLength = (if lastFragment then rs_payloadLength s - rs_offset s else rs_fragmentLength s);
           curFragName = rs_fragMsgName s @ string_of_nat (nat (rs_offset s));
           curFragName = (if lastFragment then curFragName @ ''-last'' else curFragName);
           fragment = (new_packet curFragName now)\<lparr>pk_tags := pk_tags (rs_packet s)\<rparr>;
           fraghdr = rdma_dup (rs_rdmaHeader s)
       in
       bindE (peekDataAt (rs_headerLength s + rs_offset s) thisFragmentLength (rs_packet s)) (\<lambda>fragData.
       bindE (insertAtBack fragData fragment) (\<lambda>fragment.
         let fraghdr = (if lastFragment then fraghdr else fraghdr\<lparr>rh_moreFragments := True\<rparr>);
             fraghdr = fraghdr\<lparr>rh_fragmentOffset := rs_offsetBase s + rs_offset s\<rparr>;
             fraghdr = fraghdr\<lparr>rh_totalLength := rs_headerLength s + thisFragmentLength\<rparr>
         in
         bindE (if rs_crcMode s = CRC_COMPUTED then Inr (fraghdr\<lparr>rh_crcMode := CRC_COMPUTED, rh_crc := 0\<rparr>)
                else rdma_insertCrc (rs_l3Protocol s) (rs_srcAddr s) (rs_destAddr s)
                       (fraghdr\<lparr>rh_crcMode := rs_crcMode s\<rparr>) fragment) (\<lambda>fraghdr.
         bindE (insertTransportProtocolHeader fragment P_rdma (RdmaH fraghdr)) (\<lambda>fragment.
         bindE (insertAtFront (header_cells (RdmaH fraghdr))
                  (fragment\<lparr>pk_kind := 0, pk_tags := (pk_tags fragment)\<lparr>t_dispatchReq := Some (rs_l3Protocol s),
                     t_packetProtocol := Some P_rdma\<rparr>\<rparr>)) (\<lambda>fragment.
           Inr ([SendLower fragment, ScheduleEndTx finish], s\<lparr>rs_offset := rs_offset s + thisFragmentLength\<rparr>))))))
     else Inr ([], s\<lparr>rs_offset := 0, rs_numSent := rs_numSent s + 1\<rparr>))"

section \<open>Receiving\<close>

definition rdma_sendUp :: "rdma_header \<Rightarrow> packet \<Rightarrow> rdma_state \<Rightarrow> rdma_output list \<times> rdma_state" where
  "rdma_sendUp h p s =
    (let t = (pk_tags p)\<lparr>t_transportInd := Some (P_rdma, RdmaH h),
                         t_l4PortInd := Some (uint (rh_srcPort h), uint (rh_destPort h))\<rparr>
     in ([SendApp (p\<lparr>pk_tags := t\<rparr>)], s\<lparr>rs_numPassedUp := rs_numPassedUp s + 1\<rparr>))"

definition rdma_processRdmaPacket :: "bool \<Rightarrow> bool \<Rightarrow> packet \<Rightarrow> rdma_state \<Rightarrow> rdma_result" where
  "rdma_processRdmaPacket headerOk dataOk p s =
    bindE (getTag (t_packetProtocol (pk_tags p))) (\<lambda>_.
    let p = p\<lparr>pk_tags := (pk_tags p)\<lparr>t_packetProtocol := None\<rparr>\<rparr>;
        popPosition = int (pk_front p)
    in
    bindE (popAtFront as_rdma p) (\<lambda>(h, p).
    bindE (getTag (t_l3AddressInd (pk_tags p))) (\<lambda>_.
    let len = rh_totalLength h;
        hasIncorrectLength = (len < 8 \<or> len > 8 + int (dataLength p))
    in
    bindE (getTag (t_networkInd (pk_tags p))) (\<lambda>(net, _).
    bindE (if hasIncorrectLength then Inr False else rdma_verifyCrc headerOk dataOk net h p) (\<lambda>ok.
      if hasIncorrectLength \<or> \<not> ok then
        Inr ([Dropped INCORRECTLY_RECEIVED p], s\<lparr>rs_numDroppedBadChecksum := rs_numDroppedBadChecksum s + 1\<rparr>)
      else
        bindE (if len < int (dataLength p) then setBackOffset (popPosition + len) p else Inr p) (\<lambda>p.
          Inr (rdma_sendUp h p s)))))))"

definition rdma_handleLowerPacket :: "bool \<Rightarrow> bool \<Rightarrow> packet \<Rightarrow> rdma_state \<Rightarrow> rdma_result" where
  "rdma_handleLowerPacket headerOk dataOk p s =
    bindE (getTag (t_packetProtocol (pk_tags p))) (\<lambda>prot.
      if prot = P_rdma then rdma_processRdmaPacket headerOk dataOk p s
      else Inl (RuntimeError ''Unknown protocol''))"

text \<open>\<open>isCorrectPacket\<close>, which the packet dissector calls after popping the header.\<close>

definition rdma_isCorrectPacket :: "bool \<Rightarrow> bool \<Rightarrow> packet \<Rightarrow> rdma_header \<Rightarrow> bool res" where
  "rdma_isCorrectPacket headerOk dataOk p h =
    (let trailerPopOffset = int (backOffset p);
         headerOffset = int (pk_front p) - 8
     in if rh_totalLength h < 8 then Inr False
        else if rh_totalLength h > trailerPopOffset - headerOffset then Inr False
        else case (t_l3AddressInd (pk_tags p), t_networkInd (pk_tags p)) of
            (Some _, Some (net, _)) \<Rightarrow> rdma_verifyCrc headerOk dataOk net h p
          | _ \<Rightarrow> Inr (rh_crcMode h \<noteq> CRC_DECLARED_INCORRECT))"

definition rdma_processUndeliverablePacket :: "packet \<Rightarrow> rdma_state \<Rightarrow> rdma_result" where
  "rdma_processUndeliverablePacket p s =
    bindE (peekAtFront as_rdma p) (\<lambda>h.
    let s = s\<lparr>rs_numDroppedWrongPort := rs_numDroppedWrongPort s + 1\<rparr>;
        dropped = Dropped NO_PORT_FOUND p;
        p = p\<lparr>pk_name := ''Port '' @ string_of_nat (unat (rh_destPort h)) @ '' unreachable''\<rparr>
    in
    bindE (getTag (t_networkInd (pk_tags p))) (\<lambda>(net, nh).
    bindE (trim p) (\<lambda>p.
    bindE (case nh of Some g \<Rightarrow> insertAtFront (header_cells g) p | None \<Rightarrow> Inl (CheckFailed ''chunk is nullptr'')) (\<lambda>p.
    bindE (getTag (t_interfaceInd (pk_tags p))) (\<lambda>inIe.
      if net = P_ipv4 then Inr ([dropped, IcmpPortUnreachable p inIe], s)
      else if net = P_ipv6 then Inr ([dropped, Icmpv6PortUnreachable p], s)
      else if net = P_nextHopForwarding then Inr ([dropped], s)
      else Inl (RuntimeError ''arrived from lower layer with unrecognized NetworkProtocolInd''))))))"

section \<open>The checksum hook\<close>

text \<open>
  \<open>CrcInsertion::datagramPostRoutingHook\<close>: on a datagram that is not being forwarded, the
  checksum is computed with the addresses of the network header. The network header that
  is put back is the one of the tag. The RDMA header that is taken out is a copy, because the tag that
  \<open>insertTransportProtocolHeader\<close> set refers to the one in the packet.
\<close>

definition rdma_datagramPostRoutingHook :: "packet \<Rightarrow> packet res" where
  "rdma_datagramPostRoutingHook p =
    (if t_interfaceInd (pk_tags p) \<noteq> None then Inr p
     else
       bindE (getTag (t_packetProtocol (pk_tags p))) (\<lambda>net.
       bindE (case t_networkInd (pk_tags p) of
                Some (_, Some (Ipv4H nh)) \<Rightarrow> Inr nh
              | _ \<Rightarrow> Inl (RuntimeError ''Network protocol header not found'')) (\<lambda>nh.
         if findProtocol ipprotocol (ih_protocolId nh) = Some P_rdma then
           if ih_moreFragments nh \<or> ih_fragmentOffset nh \<noteq> 0 then Inl (AssertFailed ''!networkHeader->isFragment()'')
           else
             bindE (eraseAt (pk_front p) (header_length (Ipv4H nh)) p) (\<lambda>p.
             bindE (removeAtFront as_rdma p) (\<lambda>(h, p).
               let h = rdma_dup h in
               if rh_crcMode h \<noteq> CRC_COMPUTED then Inl (AssertFailed ''getCrcMode() == CRC_COMPUTED'')
               else
                 bindE (rdma_insertCrc net (L3IPv4 (ih_srcAddress nh)) (L3IPv4 (ih_destAddress nh)) h p) (\<lambda>h.
                 bindE (insertAtFront (header_cells (RdmaH h)) p) (\<lambda>p.
                   insertAtFront (header_cells (Ipv4H nh)) p))))
         else Inr p)))"

section \<open>Dispatch of messages\<close>

datatype rdma_message =
    EndTxTimer simtime | OtherSelfMessage | FromApp packet int int | FromOtherGate packet

definition rdma_handleMessageWhenUp :: "simtime \<Rightarrow> int \<Rightarrow> rdma_message \<Rightarrow> rdma_state \<Rightarrow> rdma_result" where
  "rdma_handleMessageWhenUp now parentId m s =
    (case m of
       EndTxTimer finish \<Rightarrow> rdma_handleEndTxPeriod now finish s
     | OtherSelfMessage \<Rightarrow> Inr ([], s)
     | FromApp p rnd1 rnd2 \<Rightarrow> rdma_handleUpperPacket now parentId rnd1 rnd2 p s
     | FromOtherGate p \<Rightarrow> Inl (RuntimeError ''Message received from unknown gate!''))"

section \<open>Initial state\<close>

text \<open>Members without an initializer are 0 here; they are written before they are read.\<close>

definition rdma_init :: "crc_mode \<Rightarrow> rdma_state" where
  "rdma_init mode = \<lparr>rs_crcMode = mode, rs_lastEphemeralPort = EPHEMERAL_PORTRANGE_START,
     rs_numSent = 0, rs_numPassedUp = 0, rs_numDroppedWrongPort = 0, rs_numDroppedBadChecksum = 0,
     rs_offset = 0, rs_headerLength = 0, rs_payloadLength = 0, rs_fragmentLength = 0, rs_offsetBase = 0,
     rs_noOfFragments = 0, rs_fragMsgName = [], rs_srcAddr = L3None, rs_destAddr = L3None,
     rs_l3Protocol = P_nextHopForwarding, rs_rdmaHeader = new_rdma_header, rs_packet = new_packet [] 0\<rparr>"

section \<open>Lemmas\<close>

fun declared_crc :: "crc_mode \<Rightarrow> 16 word" where
  "declared_crc CRC_DECLARED_CORRECT = 0xC00D"
| "declared_crc CRC_DECLARED_INCORRECT = 0xBAAD"
| "declared_crc _ = 0"

lemma rdma_insertCrc_declared:
  assumes "m \<noteq> CRC_MODE_UNDEFINED"
  shows "(if m = CRC_COMPUTED then Inr (h\<lparr>rh_crcMode := CRC_COMPUTED, rh_crc := 0\<rparr>)
          else rdma_insertCrc net src dest (h\<lparr>rh_crcMode := m\<rparr>) p)
       = Inr (h\<lparr>rh_crcMode := m, rh_crc := declared_crc m\<rparr>)"
  using assms by (cases m) (auto simp: rdma_insertCrc_def)

lemma insertTransportProtocolHeader_ok:
  assumes "packet_ok p" "0 < header_length h"
  shows "\<exists>q. insertTransportProtocolHeader p prot h = Inr q \<and> packet_ok q \<and>
    pk_data q = header_cells h @ pk_data p \<and> pk_name q = pk_name p \<and> pk_kind q = pk_kind p \<and>
    pk_front q = pk_front p \<and> pk_back q = pk_back p \<and> pk_creation q = pk_creation p \<and>
    pk_tags q = (pk_tags p)\<lparr>t_transportInd := Some (prot, h), t_packetProtocol := Some prot\<rparr>"
proof -
  let ?p = "p\<lparr>pk_tags := (pk_tags p)\<lparr>t_transportInd := Some (prot, h), t_packetProtocol := Some prot\<rparr>\<rparr>"
  have ok: "packet_ok ?p" using assms(1) by simp
  have ne: "header_cells h \<noteq> []" using assms(2) by (metis length_greater_0_conv length_header_cells)
  obtain q where q: "insertAtFront (header_cells h) ?p = Inr q" using insertAtFront_eq[OF ok ne] by blast
  from insertAtFront_ok[OF ok ne q] q show ?thesis
    by (auto simp: insertTransportProtocolHeader_def)
qed

text \<open>The header of the fragment at the current offset.\<close>

definition rdma_fragment_header :: "rdma_state \<Rightarrow> rdma_header" where
  "rdma_fragment_header s = (rdma_dup (rs_rdmaHeader s))\<lparr>
     rh_moreFragments := (rs_offset s + rs_fragmentLength s < rs_payloadLength s),
     rh_fragmentOffset := rs_offsetBase s + rs_offset s,
     rh_totalLength := rs_headerLength s + rdma_thisFragmentLength s,
     rh_crcMode := rs_crcMode s, rh_crc := declared_crc (rs_crcMode s)\<rparr>"

lemma rdma_fragment_packet_ok:
  assumes "0 \<le> rs_headerLength s + rs_offset s" "0 < rdma_thisFragmentLength s"
    and "rs_headerLength s + rs_offset s + rdma_thisFragmentLength s \<le> int (dataLength (rs_packet s))"
    and "rs_crcMode s \<noteq> CRC_MODE_UNDEFINED"
  shows "\<exists>f. rdma_fragment_packet now s = Inr f \<and> packet_ok f \<and>
    pk_data f = header_cells (RdmaH (rdma_fragment_header s)) @ header_cells (RdmaH (rdma_fragment_header s))
      @ peek_at (nat (rs_headerLength s + rs_offset s)) (nat (rdma_thisFragmentLength s)) (pk_data (rs_packet s)) \<and>
    t_dispatchReq (pk_tags f) = Some (rs_l3Protocol s) \<and> t_packetProtocol (pk_tags f) = Some P_rdma \<and>
    t_l3AddressReq (pk_tags f) = t_l3AddressReq (pk_tags (rs_packet s))"
proof -
  let ?c = "peek_at (nat (rs_headerLength s + rs_offset s)) (nat (rdma_thisFragmentLength s)) (pk_data (rs_packet s))"
  let ?h = "rdma_fragment_header s"
  define last where "last \<longleftrightarrow> rs_offset s + rs_fragmentLength s \<ge> rs_payloadLength s"
  define frag where "frag = (new_packet (rs_fragMsgName s @ string_of_nat (nat (rs_offset s)) @ (if last then ''-last'' else [])) now)
    \<lparr>pk_tags := pk_tags (rs_packet s)\<rparr>"
  define h1 where "h1 = (if \<not> last then (rdma_dup (rs_rdmaHeader s))\<lparr>rh_moreFragments := True\<rparr> else rdma_dup (rs_rdmaHeader s))
    \<lparr>rh_fragmentOffset := rs_offsetBase s + rs_offset s, rh_totalLength := rs_headerLength s + rdma_thisFragmentLength s\<rparr>"
  have "0 < length ?c" using assms by simp
  then have ne: "?c \<noteq> []" by (rule length_greater_0_conv[THEN iffD1])
  have pk: "peekDataAt (rs_headerLength s + rs_offset s) (rdma_thisFragmentLength s) (rs_packet s) = Inr ?c"
    by (rule peekDataAt_ok[OF assms(1-3)])
  have ok0: "packet_ok frag" "pk_data frag = []" by (simp_all add: frag_def)
  obtain f1 where f1: "insertAtBack ?c frag = Inr f1" using insertAtBack_eq[OF ok0(1) ne] by blast
  then have f1k: "packet_ok f1" "pk_data f1 = ?c" "pk_tags f1 = pk_tags (rs_packet s)"
    using insertAtBack_ok[OF ok0(1) ne f1] by (simp_all add: ok0(2)) (simp add: frag_def)
  have hh: "h1\<lparr>rh_crcMode := rs_crcMode s, rh_crc := declared_crc (rs_crcMode s)\<rparr> = ?h"
    by (auto simp: h1_def rdma_fragment_header_def last_def rdma_dup_eq)
  obtain f2 where f2: "insertTransportProtocolHeader f1 P_rdma (RdmaH ?h) = Inr f2" "packet_ok f2"
    "pk_data f2 = header_cells (RdmaH ?h) @ ?c"
    "pk_tags f2 = (pk_tags f1)\<lparr>t_transportInd := Some (P_rdma, RdmaH ?h), t_packetProtocol := Some P_rdma\<rparr>"
    using insertTransportProtocolHeader_ok[OF f1k(1), of "RdmaH ?h" P_rdma] f1k(2) by auto
  define f3 where "f3 = f2\<lparr>pk_kind := 0, pk_tags := (pk_tags f2)\<lparr>t_dispatchReq := Some (rs_l3Protocol s),
             t_packetProtocol := Some P_rdma\<rparr>\<rparr>"
  have ok3: "packet_ok f3" "pk_data f3 = header_cells (RdmaH ?h) @ ?c" using f2 by (simp_all add: f3_def)
  have neh: "header_cells (RdmaH ?h) \<noteq> []" by (metis length_greater_0_conv length_header_cells header_length.simps(1) zero_less_numeral)
  obtain f4 where f4: "insertAtFront (header_cells (RdmaH ?h)) f3 = Inr f4" using insertAtFront_eq[OF ok3(1) neh] by blast
  have "rdma_fragment_packet now s = Inr f4"
    unfolding rdma_fragment_packet_def Let_def last_def[symmetric] frag_def[symmetric] pk bindE_simps f1
      h1_def[symmetric] rdma_insertCrc_declared[OF assms(4)] hh f2(1) f3_def[symmetric] f4 ..
  then show ?thesis using insertAtFront_ok[OF ok3(1) neh f4] ok3(2) f2(4) f1k(3) by (auto simp: f3_def)
qed

lemma rdma_fragment_loop_eq:
  assumes "0 < rs_fragmentLength s" "0 \<le> rs_headerLength s" "0 \<le> rs_offset s"
    and "rs_headerLength s + rs_payloadLength s \<le> int (dataLength (rs_packet s))"
    and "rs_crcMode s \<noteq> CRC_MODE_UNDEFINED"
  shows "\<exists>fs. rdma_fragment_loop now s = Inr (map SendLower fs, s\<lparr>rs_offset := max (rs_offset s) (rs_payloadLength s)\<rparr>) \<and>
    int (length fs) = (if rs_offset s < rs_payloadLength s
      then (rs_payloadLength s - rs_offset s + rs_fragmentLength s - 1) div rs_fragmentLength s else 0) \<and>
    (\<forall>j < length fs. rs_offset s + rs_fragmentLength s * int j < rs_payloadLength s \<and>
       rdma_fragment_packet now (s\<lparr>rs_offset := rs_offset s + rs_fragmentLength s * int j\<rparr>) = Inr (fs ! j))"
  using assms
proof (induction now s rule: rdma_fragment_loop.induct)
  case (1 now s)
  let ?F = "rs_fragmentLength s" and ?N = "rs_payloadLength s" and ?o = "rs_offset s"
  show ?case
  proof (cases "?o < ?N")
    case False
    then show ?thesis by (intro exI[of _ "[]"]) (simp add: rdma_fragment_loop.simps[of now s])
  next
    case True
    have tl: "0 < rdma_thisFragmentLength s" "?o + rdma_thisFragmentLength s \<le> ?N"
      using True 1(2) by (auto simp: rdma_thisFragmentLength_def)
    obtain f where f: "rdma_fragment_packet now s = Inr f"
      using rdma_fragment_packet_ok[of s now] tl 1(3-6) by auto
    let ?s = "s\<lparr>rs_offset := ?o + rdma_thisFragmentLength s\<rparr>"
    obtain fs where fs: "rdma_fragment_loop now ?s = Inr (map SendLower fs, ?s\<lparr>rs_offset := max (rs_offset ?s) ?N\<rparr>)"
      "int (length fs) = (if rs_offset ?s < ?N then (?N - rs_offset ?s + ?F - 1) div ?F else 0)"
      "\<forall>j < length fs. rs_offset ?s + ?F * int j < ?N \<and>
         rdma_fragment_packet now (?s\<lparr>rs_offset := rs_offset ?s + ?F * int j\<rparr>) = Inr (fs ! j)"
      using 1(1)[OF True f] 1(2-6) tl by auto
    have "rdma_fragment_loop now s = Inr (map SendLower (f # fs), s\<lparr>rs_offset := max ?o ?N\<rparr>)"
      using True tl f fs(1) by (simp add: rdma_fragment_loop.simps[of now s] max_def)
    moreover have "int (length (f # fs)) = (?N - ?o + ?F - 1) div ?F"
    proof (cases "?o + ?F \<ge> ?N")
      case t: True
      then have "rs_offset ?s = ?N" by (simp add: rdma_thisFragmentLength_def)
      then have "length fs = 0" using fs(2) by simp
      moreover have "(?N - ?o + ?F - 1) div ?F = 1"
        by (rule int_div_pos_eq[of _ _ _ "?N - ?o - 1"]) (use t True in auto)
      ultimately show ?thesis by simp
    next
      case f': False
      then have o: "rs_offset ?s = ?o + ?F" by (simp add: rdma_thisFragmentLength_def)
      have "(?N - ?o + ?F - 1) div ?F = ((?N - (?o + ?F) + ?F - 1) + ?F) div ?F" by (simp add: algebra_simps)
      also have "\<dots> = (?N - (?o + ?F) + ?F - 1) div ?F + 1" using 1(2) by (simp only: div_add_self2)
      finally show ?thesis using fs(2) o f' by simp
    qed
    moreover have "\<forall>j < length (f # fs). ?o + ?F * int j < ?N \<and>
         rdma_fragment_packet now (s\<lparr>rs_offset := ?o + ?F * int j\<rparr>) = Inr ((f # fs) ! j)"
    proof (intro allI impI)
      fix j assume j: "j < length (f # fs)"
      show "?o + ?F * int j < ?N \<and> rdma_fragment_packet now (s\<lparr>rs_offset := ?o + ?F * int j\<rparr>) = Inr ((f # fs) ! j)"
      proof (cases j)
        case 0
        then show ?thesis using True f by simp
      next
        case (Suc i)
        then have i: "i < length fs" using j by simp
        then have "rs_offset ?s < ?N" using fs(3) 1(2) by (smt (verit) mult_nonneg_nonneg of_nat_0_le_iff)
        then have "rs_offset ?s = ?o + ?F" by (auto simp: rdma_thisFragmentLength_def split: if_splits)
        then show ?thesis using fs(3) i Suc by (simp add: algebra_simps)
      qed
    qed
    ultimately show ?thesis using True by (intro exI[of _ "f # fs"]) simp
  qed
qed

text \<open>A message the checks of \<open>handleUpperPacket\<close> let through.\<close>

definition rdma_sendable :: "packet \<Rightarrow> int \<Rightarrow> int \<Rightarrow> bool" where
  "rdma_sendable p sp dp \<longleftrightarrow> packet_ok p \<and> t_l4PortReq (pk_tags p) = Some (sp, dp) \<and> sp \<noteq> -1 \<and>
     0 < dp \<and> dp \<le> 65535 \<and> t_interfaceReq (pk_tags p) \<noteq> Some (-1) \<and>
     (\<exists>a. t_l3AddressReq (pk_tags p) = Some a \<and> \<not> l3_isUnspecified (lr_dest a))"

definition rdma_dest :: "packet \<Rightarrow> l3_address" where
  "rdma_dest p = (case t_l3AddressReq (pk_tags p) of Some a \<Rightarrow> lr_dest a | None \<Rightarrow> L3None)"

text \<open>The packet with the tags \<open>handleUpperPacket\<close> has set when it starts to send.\<close>

definition rdma_tagged :: "packet \<Rightarrow> packet" where
  "rdma_tagged p = p\<lparr>pk_tags := (pk_tags p)\<lparr>t_creationTime := (case t_creationTime (pk_tags p) of Some c \<Rightarrow> Some c | None \<Rightarrow> Some 0),
     t_l4PortReq := None\<rparr>\<rparr>"

lemma rdma_tagged_simps [simp]:
  "packet_ok (rdma_tagged p) = packet_ok p" "pk_data (rdma_tagged p) = pk_data p"
  "dataLength (rdma_tagged p) = dataLength p" "totalLength (rdma_tagged p) = totalLength p"
  "pk_name (rdma_tagged p) = pk_name p"
  by (simp_all add: rdma_tagged_def totalLength_def)

lemma rdma_tags_eq:
  assumes "rdma_sendable p sp dp"
  shows "p\<lparr>pk_tags := (pk_tags p)\<lparr>t_l3AddressReq := Some (case t_l3AddressReq (pk_tags p) of Some a \<Rightarrow> a
            | None \<Rightarrow> \<lparr>lr_src = L3None, lr_dest = L3None, lr_nonLocalSrc = False\<rparr>),
          t_creationTime := Some (case t_creationTime (pk_tags p) of Some c \<Rightarrow> c | None \<Rightarrow> 0),
          t_l4PortReq := None\<rparr>\<rparr> = rdma_tagged p"
  using assms by (cases "t_creationTime (pk_tags p)") (auto simp: rdma_sendable_def rdma_tagged_def)

text \<open>The state when the checks have passed.\<close>

definition rdma_checked :: "int \<Rightarrow> packet \<Rightarrow> int \<Rightarrow> int \<Rightarrow> rdma_state \<Rightarrow> rdma_state" where
  "rdma_checked parentId p sp dp s =
    s\<lparr>rs_packet := rdma_tagged p, rs_destAddr := rdma_dest p, rs_l3Protocol := l3_protocol_of (rdma_dest p),
      rs_rdmaHeader := new_rdma_header\<lparr>rh_srcPort := of_int sp, rh_destPort := of_int dp,
                 rh_identification := of_int (parentId * 10 + rs_numSent s)\<rparr>\<rparr>"

lemma rdma_handleUpper_eq:
  assumes "rdma_sendable p sp dp"
  shows "rdma_handleUpperPacket now parentId rnd1 rnd2 p s
       = (if totalLength p \<le> 4088 then rdma_send_whole (rdma_tagged p) (rdma_checked parentId p sp dp s)
          else rdma_send_fragments now (rdma_tagged p) (rdma_checked parentId p sp dp s))"
proof -
  obtain a where a: "t_l3AddressReq (pk_tags p) = Some a" "\<not> l3_isUnspecified (lr_dest a)"
    using assms by (auto simp: rdma_sendable_def)
  have q: "t_l4PortReq (pk_tags p) = Some (sp, dp)" "sp \<noteq> -1" "\<not> (dp \<le> 0 \<or> dp > 65535)" "dp \<noteq> -1"
    "t_interfaceReq (pk_tags p) \<noteq> Some (-1)"
    using assms by (auto simp: rdma_sendable_def)
  have d: "rdma_dest p = lr_dest a" by (simp add: rdma_dest_def a)
  have tot: "(8 + int (totalLength (rdma_tagged p)) \<le> RDMA_MAX_MESSAGE_SIZE) = (totalLength p \<le> 4088)"
    by (simp add: RDMA_MAX_MESSAGE_SIZE_def)
  show ?thesis
    unfolding rdma_handleUpperPacket_def Let_def rdma_tags_eq[OF assms] q(1) option.case prod.case tot
    using q(2-5) a d by (simp only: option.case if_False if_True simp_thms rdma_checked_def)
qed

lemma rdma_send_fragments_eq:
  "rdma_send_fragments now p s =
    bindE (rdma_fragment_loop now (s\<lparr>rs_headerLength := 8, rs_payloadLength := int (dataLength p) - 8,
        rs_fragmentLength := 4088, rs_offsetBase := rh_fragmentOffset (rs_rdmaHeader s),
        rs_noOfFragments := (if rs_noOfFragments s = 0 then (int (dataLength p) - 8 + 4087) div 4088 else rs_noOfFragments s),
        rs_fragMsgName := pk_name p @ ''-frag-'', rs_offset := 0\<rparr>)) (\<lambda>(out, s).
      Inr (out, s\<lparr>rs_numSent := rs_numSent s + 1\<rparr>))"
  by (simp add: rdma_send_fragments_def Let_def RDMA_MAX_MESSAGE_SIZE_def)

lemma rdma_send_whole_ok:
  assumes "packet_ok p" "rs_crcMode s \<noteq> CRC_MODE_UNDEFINED"
    and h: "h = (rs_rdmaHeader s)\<lparr>rh_totalLength := 8 + int (totalLength p), rh_crcMode := rs_crcMode s,
          rh_crc := declared_crc (rs_crcMode s)\<rparr>"
  shows "\<exists>q. rdma_send_whole p s = Inr ([SendLower q], s\<lparr>rs_rdmaHeader := h, rs_packet := q, rs_numSent := rs_numSent s + 1\<rparr>) \<and>
    packet_ok q \<and> pk_data q = header_cells (RdmaH h) @ pk_data p \<and>
    pk_tags q = (pk_tags p)\<lparr>t_transportInd := Some (P_rdma, RdmaH h), t_dispatchReq := Some (rs_l3Protocol s),
      t_packetProtocol := Some P_rdma\<rparr>"
proof -
  obtain r where r: "insertTransportProtocolHeader p P_rdma (RdmaH h) = Inr r" "packet_ok r"
    "pk_data r = header_cells (RdmaH h) @ pk_data p"
    "pk_tags r = (pk_tags p)\<lparr>t_transportInd := Some (P_rdma, RdmaH h), t_packetProtocol := Some P_rdma\<rparr>"
    using insertTransportProtocolHeader_ok[OF assms(1), of "RdmaH h" P_rdma] by auto
  show ?thesis
    unfolding rdma_send_whole_def Let_def rdma_insertCrc_declared[OF assms(2)] bindE_simps
      h[symmetric] r(1)
    using r(2-4) by simp
qed

lemma rdma_small_message_sent:
  assumes "rdma_sendable p sp dp" "rs_crcMode s \<noteq> CRC_MODE_UNDEFINED" "totalLength p \<le> 4088"
  shows "\<exists>q h s'. rdma_handleUpperPacket now parentId rnd1 rnd2 p s = Inr ([SendLower q], s') \<and>
    packet_ok q \<and> pk_data q = header_cells (RdmaH h) @ pk_data p \<and>
    h = new_rdma_header\<lparr>rh_srcPort := of_int sp, rh_destPort := of_int dp,
          rh_identification := of_int (parentId * 10 + rs_numSent s),
          rh_totalLength := 8 + int (totalLength p), rh_crcMode := rs_crcMode s,
          rh_crc := declared_crc (rs_crcMode s)\<rparr> \<and>
    t_dispatchReq (pk_tags q) = Some (l3_protocol_of (rdma_dest p)) \<and>
    t_packetProtocol (pk_tags q) = Some P_rdma \<and> t_l4PortReq (pk_tags q) = None \<and>
    t_l3AddressReq (pk_tags q) = t_l3AddressReq (pk_tags p) \<and>
    rs_numSent s' = rs_numSent s + 1"
proof -
  have ok: "packet_ok (rdma_tagged p)" using assms(1) by (simp add: rdma_sendable_def)
  let ?s = "rdma_checked parentId p sp dp s"
  have mode: "rs_crcMode ?s \<noteq> CRC_MODE_UNDEFINED" using assms(2) by (simp add: rdma_checked_def)
  from rdma_send_whole_ok[OF ok mode refl] obtain q where q:
    "rdma_send_whole (rdma_tagged p) ?s = Inr ([SendLower q], ?s\<lparr>rs_rdmaHeader := (rs_rdmaHeader ?s)\<lparr>rh_totalLength := 8 + int (totalLength (rdma_tagged p)),
       rh_crcMode := rs_crcMode ?s, rh_crc := declared_crc (rs_crcMode ?s)\<rparr>, rs_packet := q, rs_numSent := rs_numSent ?s + 1\<rparr>)"
    "packet_ok q" "pk_data q = header_cells (RdmaH ((rs_rdmaHeader ?s)\<lparr>rh_totalLength := 8 + int (totalLength (rdma_tagged p)),
       rh_crcMode := rs_crcMode ?s, rh_crc := declared_crc (rs_crcMode ?s)\<rparr>)) @ pk_data (rdma_tagged p)"
    "pk_tags q = (pk_tags (rdma_tagged p))\<lparr>t_transportInd := Some (P_rdma, RdmaH ((rs_rdmaHeader ?s)\<lparr>rh_totalLength := 8 + int (totalLength (rdma_tagged p)),
       rh_crcMode := rs_crcMode ?s, rh_crc := declared_crc (rs_crcMode ?s)\<rparr>)), t_dispatchReq := Some (rs_l3Protocol ?s),
      t_packetProtocol := Some P_rdma\<rparr>"
    by blast
  then show ?thesis
    unfolding rdma_handleUpper_eq[OF assms(1)] using assms(3)
    by (simp add: rdma_checked_def rdma_tagged_def totalLength_def)
qed

section \<open>Properties\<close>

definition rdma_example_packet :: "nat \<Rightarrow> packet" where
  "rdma_example_packet n = (new_packet ''m'' 0)\<lparr>pk_content := replicate n (Data 7),
     pk_tags := no_tags\<lparr>t_l4PortReq := Some (1000, 2000), t_l3AddressReq :=
       Some \<lparr>lr_src = L3None, lr_dest = L3IPv4 0x0A000002, lr_nonLocalSrc = False\<rparr>\<rparr>\<rparr>"

lemma rdma_example_lengths [simp]:
  "totalLength (rdma_example_packet n) = n" "dataLength (rdma_example_packet n) = n" "packet_ok (rdma_example_packet n)"
  by (simp_all add: rdma_example_packet_def totalLength_def dataLength_def new_packet_def packet_ok_def)

lemma rdma_example_sendable: "rdma_sendable (rdma_example_packet n) 1000 2000"
  by (simp add: rdma_sendable_def rdma_example_packet_def packet_ok_def new_packet_def no_tags_def ip_isUnspecified_def)

text \<open>The header of the fragments of a message, up to the length and the fragmentation fields.\<close>

definition rdma_message_header :: "int \<Rightarrow> int \<Rightarrow> rdma_state \<Rightarrow> rdma_header" where
  "rdma_message_header sp dp s = new_rdma_header\<lparr>rh_srcPort := of_int sp, rh_destPort := of_int dp, rh_crcMode := rs_crcMode s,
     rh_crc := declared_crc (rs_crcMode s)\<rparr>"

lemma rdma_fragments_sent:
  assumes "rdma_sendable p sp dp" "rs_crcMode s \<noteq> CRC_MODE_UNDEFINED" "4088 < totalLength p"
    and "8 < dataLength p"
  shows "\<exists>fs s'. rdma_handleUpperPacket now parentId rnd1 rnd2 p s = Inr (map SendLower fs, s') \<and>
    length fs = (dataLength p - 8 + 4087) div 4088 \<and> rs_numSent s' = rs_numSent s + 1 \<and>
    (\<forall>j < length fs. \<exists>h. h = (rdma_message_header sp dp s)\<lparr>rh_moreFragments := (Suc j < length fs),
         rh_fragmentOffset := 4088 * int j, rh_totalLength := 8 + int (min 4088 (dataLength p - 8 - 4088 * j))\<rparr> \<and>
       pk_data (fs ! j) = header_cells (RdmaH h) @ header_cells (RdmaH h)
         @ peek_at (8 + 4088 * j) (min 4088 (dataLength p - 8 - 4088 * j)) (pk_data p))"
proof -
  define N where "N = int (dataLength p) - 8"
  let ?c = "rdma_checked parentId p sp dp s"
  define s1 where "s1 = ?c\<lparr>rs_headerLength := 8, rs_payloadLength := int (dataLength (rdma_tagged p)) - 8,
        rs_fragmentLength := 4088, rs_offsetBase := rh_fragmentOffset (rs_rdmaHeader ?c),
        rs_noOfFragments := (if rs_noOfFragments ?c = 0 then (int (dataLength (rdma_tagged p)) - 8 + 4087) div 4088 else rs_noOfFragments ?c),
        rs_fragMsgName := pk_name (rdma_tagged p) @ ''-frag-'', rs_offset := 0\<rparr>"
  have s1k: "rs_headerLength s1 = 8" "rs_payloadLength s1 = N" "rs_fragmentLength s1 = 4088" "rs_offsetBase s1 = 0"
    "rs_offset s1 = 0" "rs_packet s1 = rdma_tagged p" "rs_crcMode s1 = rs_crcMode s" "rs_numSent s1 = rs_numSent s"
    by (simp_all add: s1_def rdma_checked_def N_def new_rdma_header_def)
  have hdr: "rs_rdmaHeader s1 = new_rdma_header\<lparr>rh_srcPort := of_int sp, rh_destPort := of_int dp,
      rh_identification := of_int (parentId * 10 + rs_numSent s)\<rparr>"
    by (simp add: s1_def rdma_checked_def)
  let ?N = "dataLength p - 8"
  have NN: "N = int ?N" "0 < N" using assms(4) by (simp_all add: N_def)
  obtain fs where fs: "rdma_fragment_loop now s1 = Inr (map SendLower fs, s1\<lparr>rs_offset := max (rs_offset s1) (rs_payloadLength s1)\<rparr>)"
    "int (length fs) = (N + 4087) div 4088"
    "\<forall>j < length fs. 4088 * int j < N \<and> rdma_fragment_packet now (s1\<lparr>rs_offset := 4088 * int j\<rparr>) = Inr (fs ! j)"
    using rdma_fragment_loop_eq[of s1 now] assms(2) NN by (auto simp: s1k)
  have len: "length fs = (?N + 4087) div 4088" using fs(2) NN(1) by linarith
  have each: "pk_data (fs ! j) = header_cells (RdmaH (rdma_fragment_header (s1\<lparr>rs_offset := 4088 * int j\<rparr>)))
        @ header_cells (RdmaH (rdma_fragment_header (s1\<lparr>rs_offset := 4088 * int j\<rparr>)))
        @ peek_at (8 + 4088 * j) (min 4088 (?N - 4088 * j)) (pk_data p) \<and>
      rdma_fragment_header (s1\<lparr>rs_offset := 4088 * int j\<rparr>) = (rdma_message_header sp dp s)\<lparr>rh_moreFragments := (Suc j < length fs),
         rh_fragmentOffset := 4088 * int j, rh_totalLength := 8 + int (min 4088 (?N - 4088 * j))\<rparr>"
    if j: "j < length fs" for j
  proof -
    let ?s = "s1\<lparr>rs_offset := 4088 * int j\<rparr>"
    have o: "4088 * int j < N" "rdma_fragment_packet now ?s = Inr (fs ! j)" using fs(3) j by auto
    have this_len: "rdma_thisFragmentLength ?s = int (min 4088 (?N - 4088 * j))"
      using o(1) NN by (auto simp: rdma_thisFragmentLength_def s1k)
    have last: "4088 * int j + 4088 \<ge> N \<longleftrightarrow> \<not> Suc j < length fs"
    proof -
      have "Suc j < length fs \<longleftrightarrow> int (Suc j) < (N + 4087) div 4088" using fs(2) by linarith
      also have "\<dots> \<longleftrightarrow> int (Suc j) + 1 \<le> (N + 4087) div 4088" by linarith
      also have "\<dots> \<longleftrightarrow> (int (Suc j) + 1) * 4088 \<le> N + 4087" by (rule int_le_div_iff) simp
      finally show ?thesis by auto
    qed
    have le: "8 + 4088 * int j + int (min 4088 (?N - 4088 * j)) \<le> int (dataLength p)"
      using o(1) NN by linarith
    obtain f where f: "rdma_fragment_packet now ?s = Inr f"
      "pk_data f = header_cells (RdmaH (rdma_fragment_header ?s)) @ header_cells (RdmaH (rdma_fragment_header ?s))
      @ peek_at (nat (rs_headerLength ?s + rs_offset ?s)) (nat (rdma_thisFragmentLength ?s)) (pk_data (rs_packet ?s))"
      using rdma_fragment_packet_ok[of ?s now] o(1) NN this_len assms(2) le by (auto simp: s1k)
    have "nat (8 + 4088 * int j) = 8 + 4088 * j" by simp
    moreover have "rdma_fragment_header ?s = (rdma_message_header sp dp s)\<lparr>rh_moreFragments := (Suc j < length fs),
         rh_fragmentOffset := 4088 * int j, rh_totalLength := 8 + int (min 4088 (?N - 4088 * j))\<rparr>"
      using this_len last by (auto simp: rdma_fragment_header_def s1k hdr rdma_message_header_def new_rdma_header_def rdma_dup_eq)
    ultimately show ?thesis using f o(2) this_len by (simp add: s1k)
  qed
  have "\<exists>s'. rdma_handleUpperPacket now parentId rnd1 rnd2 p s = Inr (map SendLower fs, s') \<and> rs_numSent s' = rs_numSent s + 1"
    using assms(3) fs(1) unfolding rdma_handleUpper_eq[OF assms(1)] rdma_send_fragments_eq s1_def[symmetric]
    by (simp add: s1k)
  then obtain s' where "rdma_handleUpperPacket now parentId rnd1 rnd2 p s = Inr (map SendLower fs, s')"
    "rs_numSent s' = rs_numSent s + 1" by blast
  then show ?thesis using len each by (intro exI[of _ fs] exI[of _ s'] conjI) blast+
qed

text \<open>C10: a message of more than 4088 bytes is sent as fragments of 4088 bytes, the last one
  shorter: fragment \<open>j\<close> has offset \<open>4088 j\<close>, the right total length, \<open>moreFragments\<close> on all
  but the last, and its header twice in front. The identification of the message is lost: the
  headers are copies, and it is 0 in every fragment. Together the fragments carry the message
  without its first 8 bytes.\<close>

theorem rdma_large_message:
  assumes "rdma_sendable p sp dp" "rs_crcMode s \<noteq> CRC_MODE_UNDEFINED" "4088 < totalLength p"
    and "8 < dataLength p"
  shows "\<exists>fs s'. rdma_handleUpperPacket now parentId rnd1 rnd2 p s = Inr (map SendLower fs, s') \<and>
    length fs = (dataLength p - 8 + 4087) div 4088 \<and> rs_numSent s' = rs_numSent s + 1 \<and>
    (\<forall>j < length fs. \<exists>h. pk_data (fs ! j) = header_cells (RdmaH h) @ header_cells (RdmaH h)
         @ peek_at (8 + 4088 * j) (min 4088 (dataLength p - 8 - 4088 * j)) (pk_data p) \<and>
       rh_fragmentOffset h = 4088 * int j \<and>
       rh_totalLength h = 8 + int (min 4088 (dataLength p - 8 - 4088 * j)) \<and>
       rh_moreFragments h = (Suc j < length fs) \<and>
       rh_identification h = 0) \<and>
    concat (map (\<lambda>f. drop 16 (pk_data f)) fs) = drop 8 (pk_data p)"
proof -
  let ?N = "dataLength p - 8"
  obtain fs s' where fs: "rdma_handleUpperPacket now parentId rnd1 rnd2 p s = Inr (map SendLower fs, s')"
    "length fs = (?N + 4087) div 4088" "rs_numSent s' = rs_numSent s + 1"
    and sent: "\<forall>j < length fs. \<exists>h. h = (rdma_message_header sp dp s)\<lparr>rh_moreFragments := (Suc j < length fs),
         rh_fragmentOffset := 4088 * int j, rh_totalLength := 8 + int (min 4088 (?N - 4088 * j))\<rparr> \<and>
       pk_data (fs ! j) = header_cells (RdmaH h) @ header_cells (RdmaH h)
         @ peek_at (8 + 4088 * j) (min 4088 (?N - 4088 * j)) (pk_data p)"
    using rdma_fragments_sent[OF assms, of now parentId rnd1 rnd2] by auto
  have each: "\<exists>h. pk_data (fs ! j) = header_cells (RdmaH h) @ header_cells (RdmaH h)
         @ peek_at (8 + 4088 * j) (min 4088 (?N - 4088 * j)) (pk_data p) \<and>
       rh_fragmentOffset h = 4088 * int j \<and> rh_totalLength h = 8 + int (min 4088 (?N - 4088 * j)) \<and>
       rh_moreFragments h = (Suc j < length fs) \<and> rh_identification h = 0"
    if j: "j < length fs" for j
    using sent j by (fastforce simp: rdma_message_header_def new_rdma_header_def)
  have "map (\<lambda>f. drop 16 (pk_data f)) fs = map (\<lambda>j. peek_at (8 + 4088 * j) (min 4088 (?N - 4088 * j)) (pk_data p)) [0..<length fs]"
  proof (rule nth_equalityI)
    show "length (map (\<lambda>f. drop 16 (pk_data f)) fs) = length (map (\<lambda>j. peek_at (8 + 4088 * j) (min 4088 (?N - 4088 * j)) (pk_data p)) [0..<length fs])"
      by simp
    fix j assume "j < length (map (\<lambda>f. drop 16 (pk_data f)) fs)"
    then have j: "j < length fs" by simp
    from each[OF j] show "map (\<lambda>f. drop 16 (pk_data f)) fs ! j
        = map (\<lambda>j. peek_at (8 + 4088 * j) (min 4088 (?N - 4088 * j)) (pk_data p)) [0..<length fs] ! j"
      using j by auto
  qed
  then have "concat (map (\<lambda>f. drop 16 (pk_data f)) fs) = peek_at 8 (min (4088 * length fs) ?N) (pk_data p)"
    using concat_pieces[of 8 4088 ?N "pk_data p" "length fs"] by simp
  also have "min (4088 * length fs) ?N = ?N" using fs(2) by linarith
  also have "peek_at 8 ?N (pk_data p) = drop 8 (pk_data p)" by (simp add: peek_at_def)
  finally have cat: "concat (map (\<lambda>f. drop 16 (pk_data f)) fs) = drop 8 (pk_data p)" .
  show ?thesis using fs each cat by (intro exI[of _ fs] exI[of _ s'] conjI) blast+
qed

theorem rdma_large_message_witness:
  "\<exists>fs s'. rdma_handleUpperPacket 0 3 0 0 (rdma_example_packet 9000) (rdma_init CRC_DECLARED_CORRECT) = Inr (map SendLower fs, s') \<and>
     length fs = 3"
proof -
  have "totalLength (rdma_example_packet 9000) = 9000" "dataLength (rdma_example_packet 9000) = 9000"
    by (simp_all add: rdma_example_packet_def totalLength_def dataLength_def new_packet_def)
  then show ?thesis
    using rdma_large_message[OF rdma_example_sendable[of 9000], of "rdma_init CRC_DECLARED_CORRECT" 0 3 0 0]
    by (auto simp: rdma_init_def)
qed

text \<open>\<open>handleUpperPacket\<close> accepts a message only if its destination address is specified
  and the destination port it uses (the requested one, or the random one) is a valid
  non-zero port; everything else ends in an error before anything is sent.\<close>

theorem rdma_sends_only_checked:
  assumes "rdma_handleUpperPacket now parentId rnd1 rnd2 p s = Inr (out, s')"
  shows "\<not> l3_isUnspecified (rdma_dest p) \<and> t_interfaceReq (pk_tags p) \<noteq> Some (-1) \<and>
    (let dp = (case t_l4PortReq (pk_tags p) of Some (sp, dp) \<Rightarrow> dp | None \<Rightarrow> -1);
         dp = (if dp = -1 then rnd2 mod 65535 else dp)
     in 0 < dp \<and> dp \<le> 65535)"
  using assms unfolding rdma_handleUpperPacket_def
  by (auto simp: Let_def rdma_dest_def split: if_splits option.splits prod.splits)

theorem rdma_sends_only_checked_witness:
  "\<not> l3_isUnspecified (rdma_dest (rdma_example_packet 100))"
proof -
  have ok: "packet_ok (rdma_tagged (rdma_example_packet 100))"
    "rs_crcMode (rdma_checked 3 (rdma_example_packet 100) 1000 2000 (rdma_init CRC_DISABLED)) \<noteq> CRC_MODE_UNDEFINED"
    by (simp_all add: rdma_checked_def rdma_init_def)
  have "totalLength (rdma_example_packet 100) \<le> 4088" by simp
  then have "\<exists>r. rdma_handleUpperPacket 0 3 0 0 (rdma_example_packet 100) (rdma_init CRC_DISABLED) = Inr r"
    using rdma_send_whole_ok[OF ok refl] unfolding rdma_handleUpper_eq[OF rdma_example_sendable] by metis
  then obtain out s' where "rdma_handleUpperPacket 0 3 0 0 (rdma_example_packet 100) (rdma_init CRC_DISABLED) = Inr (out, s')"
    by auto
  from rdma_sends_only_checked[OF this] show ?thesis by simp
qed

text \<open>
  A run of end-of-transmission timers: the time of each and the finish time that the channel then gives.
\<close>

fun rdma_timer_run :: "(simtime \<times> simtime) list \<Rightarrow> rdma_state \<Rightarrow> rdma_result" where
  "rdma_timer_run [] s = Inr ([], s)"
| "rdma_timer_run ((now, finish) # evs) s =
    bindE (rdma_handleEndTxPeriod now finish s) (\<lambda>(out, s).
    bindE (rdma_timer_run evs s) (\<lambda>(out', s). Inr (out @ out', s)))"

text \<open>The two bodies make the same fragment; its time of creation is the one of the event.\<close>

lemma rdma_timer_body:
  assumes "rs_offset s < rs_payloadLength s"
  shows "rdma_handleEndTxPeriod now finish s = bindE (rdma_fragment_packet now s) (\<lambda>f.
    Inr ([SendLower f, ScheduleEndTx finish], s\<lparr>rs_offset := rs_offset s + rdma_thisFragmentLength s\<rparr>))"
  using assms
  by (simp add: rdma_handleEndTxPeriod_def rdma_fragment_packet_def rdma_thisFragmentLength_def Let_def bindE_assoc
      if_distrib[of "\<lambda>h. h\<lparr>rh_fragmentOffset := x\<rparr>" for x] cong: if_cong)

lemma insert_created:
  "insertAtBack c p = Inr q \<Longrightarrow> insertAtBack c (p\<lparr>pk_creation := t\<rparr>) = Inr (q\<lparr>pk_creation := t\<rparr>)"
  "insertAtFront c p = Inr q \<Longrightarrow> insertAtFront c (p\<lparr>pk_creation := t\<rparr>) = Inr (q\<lparr>pk_creation := t\<rparr>)"
  by (cases p; auto simp: insertAtBack_def insertAtFront_def insertAt_def totalLength_def backOffset_def split: if_splits)+

lemma insertTransport_created:
  assumes "insertTransportProtocolHeader p prot h = Inr q"
  shows "insertTransportProtocolHeader (p\<lparr>pk_creation := t\<rparr>) prot h = Inr (q\<lparr>pk_creation := t\<rparr>)"
  using insert_created(2)[OF assms[unfolded insertTransportProtocolHeader_def], of t] by (cases p) (simp add: insertTransportProtocolHeader_def)

lemma insertCrc_created: "rdma_insertCrc net src dest h (p\<lparr>pk_creation := t\<rparr>) = rdma_insertCrc net src dest h p"
  by (simp add: rdma_insertCrc_def pk_data_def dataLength_def totalLength_def cong: crc_mode.case_cong)

lemma rdma_fragment_created:
  assumes "rdma_fragment_packet now s = Inr f"
  shows "rdma_fragment_packet t s = Inr (f\<lparr>pk_creation := t\<rparr>)"
proof -
  define name where "name = rs_fragMsgName s @ string_of_nat (nat (rs_offset s)) @ (if rs_offset s + rs_fragmentLength s \<ge> rs_payloadLength s then ''-last'' else [])"
  define h where "h = (if \<not> rs_offset s + rs_fragmentLength s \<ge> rs_payloadLength s then (rdma_dup (rs_rdmaHeader s))\<lparr>rh_moreFragments := True\<rparr>
      else rdma_dup (rs_rdmaHeader s))\<lparr>rh_fragmentOffset := rs_offsetBase s + rs_offset s, rh_totalLength := rs_headerLength s + rdma_thisFragmentLength s\<rparr>"
  define crc where "crc p = (if rs_crcMode s = CRC_COMPUTED then Inr (h\<lparr>rh_crcMode := CRC_COMPUTED, rh_crc := 0\<rparr>)
      else rdma_insertCrc (rs_l3Protocol s) (rs_srcAddr s) (rs_destAddr s) (h\<lparr>rh_crcMode := rs_crcMode s\<rparr>) p)" for p
  define sent where "sent p = p\<lparr>pk_kind := 0, pk_tags := (pk_tags p)\<lparr>t_dispatchReq := Some (rs_l3Protocol s), t_packetProtocol := Some P_rdma\<rparr>\<rparr>" for p :: packet
  note eq = rdma_fragment_packet_def[of _ s, unfolded Let_def, folded name_def, folded h_def, folded crc_def, folded sent_def]
  have n: "(new_packet name now)\<lparr>pk_tags := tg, pk_creation := t\<rparr> = (new_packet name t)\<lparr>pk_tags := tg\<rparr>" for tg by (simp add: new_packet_def)
  obtain d f1 h1 f2 where f: "peekDataAt (rs_headerLength s + rs_offset s) (rdma_thisFragmentLength s) (rs_packet s) = Inr d"
    "insertAtBack d ((new_packet name now)\<lparr>pk_tags := pk_tags (rs_packet s)\<rparr>) = Inr f1" "crc f1 = Inr h1"
    "insertTransportProtocolHeader f1 P_rdma (RdmaH h1) = Inr f2" "insertAtFront (header_cells (RdmaH h1)) (sent f2) = Inr f"
    using assms unfolding eq by (auto simp: bindE_eq_Inr)
  have 1: "insertAtBack d ((new_packet name t)\<lparr>pk_tags := pk_tags (rs_packet s)\<rparr>) = Inr (f1\<lparr>pk_creation := t\<rparr>)"
    using insert_created(1)[OF f(2), of t] by (simp add: n)
  have 2: "crc (f1\<lparr>pk_creation := t\<rparr>) = Inr h1" using f(3) by (simp add: crc_def insertCrc_created split: if_splits)
  have 3: "insertAtFront (header_cells (RdmaH h1)) (sent (f2\<lparr>pk_creation := t\<rparr>)) = Inr (f\<lparr>pk_creation := t\<rparr>)"
    using insert_created(2)[OF f(5), of t] by (cases f2) (simp add: sent_def)
  show ?thesis unfolding eq f(1) bindE_simps 1 2 insertTransport_created[OF f(4)] 3 ..
qed

text \<open>What the timer at \<open>now\<close> makes of an output of the loop: the same fragment, created then, and the next timer.\<close>

fun timed_output :: "rdma_output \<Rightarrow> simtime \<times> simtime \<Rightarrow> rdma_output list" where
  "timed_output (SendLower f) (now, finish) = [SendLower (f\<lparr>pk_creation := now\<rparr>), ScheduleEndTx finish]"
| "timed_output out _ = [out]"

lemma rdma_loop_timer:
  assumes "rdma_fragment_loop t s = Inr (out, s')" "length evs = length out"
  shows "rdma_timer_run evs s = Inr (concat (map2 timed_output out evs), s') \<and> rs_payloadLength s' \<le> rs_offset s'"
  using assms
proof (induction t s arbitrary: out evs rule: rdma_fragment_loop.induct)
  case (1 t s)
  show ?case
  proof (cases "rs_offset s < rs_payloadLength s")
    case False
    then show ?thesis using 1(2,3) by (simp add: rdma_fragment_loop.simps[of t s])
  next
    case True
    let ?s = "s\<lparr>rs_offset := rs_offset s + rdma_thisFragmentLength s\<rparr>"
    obtain f out1 where f: "rdma_fragment_packet t s = Inr f" "rdma_fragment_loop t ?s = Inr (out1, s')" "out = SendLower f # out1"
      using 1(2) True by (auto simp: rdma_fragment_loop.simps[of t s] bindE_eq_Inr split: sum.splits)
    obtain now finish evs' where evs: "evs = (now, finish) # evs'" "length evs' = length out1" using 1(3) f(3) by (cases evs) auto
    show ?thesis using 1(1)[OF True f(1,2) evs(2)] rdma_fragment_created[OF f(1), of now] True
      by (simp add: evs(1) f(3) rdma_timer_body)
  qed
qed

text \<open>C37: the timer-driven variant, which has its own code for a fragment, sends the same fragments in
  the same order as the loop: each timer sends one, which differs in its time of creation only, and
  schedules the next timer for the end of its transmission; as many timers as there are fragments leave the
  same state, and the next one counts the message and goes back to offset 0.\<close>

theorem rdma_timer_equals_loop:
  assumes "rdma_fragment_loop t s = Inr (out, s')" "length evs = length out"
  shows "rdma_timer_run evs s = Inr (concat (map2 timed_output out evs), s') \<and>
    (\<forall>now finish. rdma_handleEndTxPeriod now finish s' = Inr ([], s'\<lparr>rs_offset := 0, rs_numSent := rs_numSent s' + 1\<rparr>))"
  using rdma_loop_timer[OF assms] by (simp add: rdma_handleEndTxPeriod_def)

theorem rdma_timer_equals_loop_witness:
  "\<exists>s s' f g. rs_payloadLength s = 5000
    \<and> rdma_fragment_loop 0 s = Inr ([SendLower f, SendLower g], s')
    \<and> rdma_timer_run [(10, 14), (14, 15)] s
      = Inr ([SendLower (f\<lparr>pk_creation := 10\<rparr>), ScheduleEndTx 14, SendLower (g\<lparr>pk_creation := 14\<rparr>), ScheduleEndTx 15], s')"
proof -
  define s where "s = (rdma_init CRC_DISABLED)\<lparr>rs_headerLength := 8, rs_payloadLength := 5000, rs_fragmentLength := 4088,
     rs_packet := rdma_example_packet 5008\<rparr>"
  have d: "dataLength (rdma_example_packet 5008) = 5008"
    by (simp add: rdma_example_packet_def dataLength_def totalLength_def new_packet_def)
  obtain fs where fs: "rdma_fragment_loop 0 s = Inr (map SendLower fs, s\<lparr>rs_offset := 5000\<rparr>)" "int (length fs) = 2"
    using rdma_fragment_loop_eq[of s 0] by (auto simp: s_def rdma_init_def d)
  then have "length fs = 2" by simp
  then obtain f g where f: "fs = [f, g]" by (auto simp: length_Suc_conv numeral_2_eq_2)
  have l: "rdma_fragment_loop 0 s = Inr ([SendLower f, SendLower g], s\<lparr>rs_offset := 5000\<rparr>)" using fs(1) f by simp
  have "rdma_timer_run [(10, 14), (14, 15)] s = Inr (concat (map2 timed_output [SendLower f, SendLower g] [(10, 14), (14, 15)]), s\<lparr>rs_offset := 5000\<rparr>)"
    using rdma_timer_equals_loop[OF l, of "[(10, 14), (14, 15)]"] by simp
  then show ?thesis using l by (intro exI[of _ s] exI[of _ "s\<lparr>rs_offset := 5000\<rparr>"] exI[of _ f] exI[of _ g]) (simp add: s_def)
qed

lemma even_pseudo: "pseudo_serialize net src dest k n = Inr ph \<Longrightarrow> even (length ph)"
  by (auto simp: pseudo_serialize_def bindE_eq_Inr be32_bytes_def be128_bytes_def be_bytes_def upt_rec split: if_splits)

lemma pseudo_positive: "pseudo_serialize net src dest IP_PROT_RDMA n = Inr ph \<Longrightarrow> 0 < word_sum ph"
proof -
  have e: "even (length (be32_bytes w))" "even (length (be128_bytes v))" for w v
    by (simp_all add: be32_bytes_def be128_bytes_def upt_rec)
  have "(30 :: 8 word) \<noteq> 0" by simp
  then show "pseudo_serialize net src dest IP_PROT_RDMA n = Inr ph \<Longrightarrow> 0 < word_sum ph"
    by (auto simp: pseudo_serialize_def bindE_eq_Inr IP_PROT_RDMA_def word_sum_append e split: if_splits)
qed

lemma rdma_serialize_split:
  assumes "rdma_serialize h = Inr hb"
  shows "hb = (be_bytes (rh_srcPort h) @ be_bytes (rh_destPort h) @ be_bytes (of_int (rh_totalLength h))) @ be_bytes (rh_crc h)"
  using assms by (auto simp: rdma_serialize_def split: if_splits)

text \<open>C38: a checksum that \<open>insertCrc\<close> computes over a payload is never 0 and is accepted by
  \<open>verifyCrc\<close> for the same addresses, header and payload.\<close>

theorem rdma_crc_verifies:
  assumes "rdma_insertCrc net src dest h p = Inr h'" "rh_crcMode h = CRC_COMPUTED"
    and "pk_data q = pk_data p" "t_l3AddressInd (pk_tags q) = Some (src, dest)"
    and "rh_totalLength h = 8 + int (dataLength p)" "0 < dataLength p"
  shows "rdma_verifyCrc True True net h' q = Inr True \<and> rh_crc h' \<noteq> 0"
proof -
  let ?h0 = "h\<lparr>rh_crc := 0, rh_crcMode := CRC_DISABLED\<rparr>"
  obtain crc where crc: "rdma_computeCrc net src dest ?h0 (pk_data p) = Inr crc"
    and h': "h' = ?h0\<lparr>rh_crc := crc, rh_crcMode := CRC_COMPUTED\<rparr>"
    using assms(1,2) by (auto simp: rdma_insertCrc_def Let_def bindE_eq_Inr)
  obtain ph hb db where ph: "pseudo_serialize net src dest IP_PROT_RDMA (8 + int (length (pk_data p))) = Inr ph"
    and hb: "rdma_serialize ?h0 = Inr hb" and db: "cells_serialize (pk_data p) = Inr db"
    and c: "crc = (if tcpip_checksum (ph @ hb @ db) = 0 then 0xFFFF else tcpip_checksum (ph @ hb @ db))"
    using crc by (auto simp: rdma_computeCrc_def bindE_eq_Inr Let_def)
  define pre where "pre = ph @ be_bytes (rh_srcPort h) @ be_bytes (rh_destPort h) @ be_bytes (of_int (rh_totalLength h))"
  have pre: "even (length pre)" "0 < word_sum pre"
    using even_pseudo[OF ph] pseudo_positive[OF ph] by (simp_all add: pre_def be_bytes_def word_sum_append)
  have b0: "ph @ hb @ db = pre @ [0, 0] @ db"
    using rdma_serialize_split[OF hb] by (simp add: pre_def be_bytes_def[of 0])
  have "tcpip_checksum (pre @ be_bytes crc @ db) = 0"
    using checksum_fill_nonzero[OF pre, of db] unfolding c b0 .
  moreover have "rdma_serialize h' = Inr ((be_bytes (rh_srcPort h) @ be_bytes (rh_destPort h) @ be_bytes (of_int (rh_totalLength h))) @ be_bytes crc)"
    by (simp add: h' rdma_serialize_def serializable_def)
  ultimately have ver: "rdma_computeCrc net src dest h' (pk_data p) = Inr 0xFFFF"
    using ph db by (simp add: rdma_computeCrc_def pre_def)
  have nz: "crc \<noteq> 0" by (simp add: c)
  have "dataLength q = dataLength p" using assms(3) by (metis length_pk_data)
  then have "peekDataAt 0 (rh_totalLength h' - 8) q = Inr (pk_data p)"
    using assms(3,5,6) by (simp add: h' peekDataAt_def peek_at_def)
  then show ?thesis using ver nz assms(4) by (simp add: rdma_verifyCrc_def h')
qed

theorem rdma_crc_verifies_witness:
  "\<exists>h'. rdma_insertCrc P_ipv4 (L3IPv4 1) (L3IPv4 2)
      (new_rdma_header\<lparr>rh_totalLength := 13, rh_crcMode := CRC_COMPUTED\<rparr>) (rdma_example_packet 5) = Inr h' \<and> rh_crc h' \<noteq> 0"
proof -
  let ?h = "new_rdma_header\<lparr>rh_totalLength := 13, rh_crcMode := CRC_COMPUTED\<rparr>"
  have d: "pk_data (rdma_example_packet 5) = replicate 5 (Data 7)" "dataLength (rdma_example_packet 5) = 5"
    by (simp_all add: rdma_example_packet_def pk_data_alt new_packet_def dataLength_def totalLength_def)
  have "cells_serialize (replicate n (Data 7)) = Inr (replicate n 7)" for n by (induction n) simp_all
  then obtain h' where h': "rdma_insertCrc P_ipv4 (L3IPv4 1) (L3IPv4 2) ?h (rdma_example_packet 5) = Inr h'"
    by (simp add: rdma_insertCrc_def rdma_computeCrc_def pseudo_serialize_def rdma_serialize_def serializable_def d Let_def)
  have "rdma_verifyCrc True True P_ipv4 h' ((rdma_example_packet 5)\<lparr>pk_tags := no_tags\<lparr>t_l3AddressInd := Some (L3IPv4 1, L3IPv4 2)\<rparr>\<rparr>) = Inr True
      \<and> rh_crc h' \<noteq> 0"
    by (rule rdma_crc_verifies[OF h']) (simp_all add: d)
  then show ?thesis using h' by blast
qed

text \<open>A datagram from the network with a correct length and an accepted checksum is passed
  to the application without its header, with its ports. Lower-layer padding after the
  payload is removed only when it is longer than 8 bytes: the code compares the total
  length, header included, with the length of the data behind the header.\<close>

theorem rdma_receive_padding:
  assumes "packet_ok p" "pk_data p = header_cells (RdmaH h) @ payload @ pad"
    and "t_packetProtocol (pk_tags p) \<noteq> None" "t_l3AddressInd (pk_tags p) \<noteq> None"
    and "t_networkInd (pk_tags p) = Some (net, g)"
    and "rh_totalLength h = 8 + int (length payload)"
    and "rh_crcMode h = CRC_DISABLED \<and> rh_crc h = 0 \<or> rh_crcMode h = CRC_DECLARED_CORRECT \<and> payload \<noteq> []"
  shows "\<exists>q. rdma_processRdmaPacket True True p s
      = Inr ([SendApp q], s\<lparr>rs_numPassedUp := rs_numPassedUp s + 1\<rparr>) \<and>
    pk_data q = payload @ (if 8 < length pad then [] else pad) \<and>
    t_l4PortInd (pk_tags q) = Some (uint (rh_srcPort h), uint (rh_destPort h))"
proof -
  let ?p = "p\<lparr>pk_tags := (pk_tags p)\<lparr>t_packetProtocol := None\<rparr>\<rparr>"
  obtain p1 where p1: "popAtFront as_rdma ?p = Inr (h, p1)" "packet_ok p1" "pk_data p1 = payload @ pad"
    "pk_tags p1 = (pk_tags p)\<lparr>t_packetProtocol := None\<rparr>" "pk_front p1 = pk_front p + 8"
    using popAtFront_header[of ?p "RdmaH h" "payload @ pad" as_rdma h] assms(1,2) by auto
  have dl: "dataLength p1 = length payload + length pad" using p1(3) by (metis length_append length_pk_data)
  have crc: "rdma_verifyCrc True True net h p1 = Inr True"
    using assms(6,7) dl peekDataAt_ok[of 0 "rh_totalLength h - 8" p1] by (auto simp: rdma_verifyCrc_def)
  obtain pp where pp: "t_packetProtocol (pk_tags p) = Some pp" using assms(3) by blast
  obtain src dest where ind: "t_l3AddressInd (pk_tags p1) = Some (src, dest)" using assms(4) p1(4) by auto
  have bo: "int (backOffset p1) = int (pk_front p1) + int (dataLength p1)"
    using p1(2) by (simp add: backOffset_def dataLength_def packet_ok_def totalLength_def)
  have "\<exists>p2. (if rh_totalLength h < int (dataLength p1) then setBackOffset (int (pk_front p) + rh_totalLength h) p1 else Inr p1) = Inr p2
      \<and> pk_data p2 = payload @ (if 8 < length pad then [] else pad) \<and> pk_tags p2 = pk_tags p1"
  proof (cases "8 < length pad")
    case True
    then show ?thesis
      using setBackOffset_ok[OF p1(2), of "int (pk_front p) + rh_totalLength h"] assms(6) dl p1(3,5) bo by auto
  next
    case False
    then show ?thesis using assms(6) dl p1(3) by auto
  qed
  then obtain p2 where p2: "(if rh_totalLength h < int (dataLength p1) then setBackOffset (int (pk_front p) + rh_totalLength h) p1 else Inr p1) = Inr p2"
    "pk_data p2 = payload @ (if 8 < length pad then [] else pad)" by blast
  have "rdma_processRdmaPacket True True p s = Inr (rdma_sendUp h p2 s)"
    unfolding rdma_processRdmaPacket_def
    using pp p1(1,4) ind assms(5,6) crc p2(1) dl by (cases "8 < length pad") (simp_all add: Let_def)
  then show ?thesis using p2(2) by (auto simp: rdma_sendUp_def)
qed

theorem rdma_receive_padding_witness:
  "\<exists>q. rdma_processRdmaPacket True True ((new_packet ''m'' 0)\<lparr>pk_content :=
        header_cells (RdmaH (new_rdma_header\<lparr>rh_totalLength := 9, rh_crcMode := CRC_DISABLED\<rparr>)) @ [Data 5] @ [Data 0],
      pk_tags := no_tags\<lparr>t_packetProtocol := Some P_rdma, t_l3AddressInd := Some (L3IPv4 1, L3IPv4 2),
        t_networkInd := Some (P_ipv4, None)\<rparr>\<rparr>) (rdma_init CRC_DISABLED)
    = Inr ([SendApp q], (rdma_init CRC_DISABLED)\<lparr>rs_numPassedUp := 1\<rparr>) \<and> pk_data q = [Data 5, Data 0]"
  using rdma_receive_padding[of "(new_packet ''m'' 0)\<lparr>pk_content :=
        header_cells (RdmaH (new_rdma_header\<lparr>rh_totalLength := 9, rh_crcMode := CRC_DISABLED\<rparr>)) @ [Data 5] @ [Data 0],
      pk_tags := no_tags\<lparr>t_packetProtocol := Some P_rdma, t_l3AddressInd := Some (L3IPv4 1, L3IPv4 2),
        t_networkInd := Some (P_ipv4, None)\<rparr>\<rparr>" "new_rdma_header\<lparr>rh_totalLength := 9, rh_crcMode := CRC_DISABLED\<rparr>"
      "[Data 5]" "[Data 0]" P_ipv4 None "rdma_init CRC_DISABLED"]
  by (auto simp: packet_ok_def new_packet_def pk_data_alt rdma_init_def new_rdma_header_def no_tags_def)

end
