(* ===== verification/Chunk_Buffer.thy ===== *)
theory Chunk_Buffer
  imports Prelude
begin

text \<open>
  The out-of-order data buffers of \<open>common/packet\<close>: \<open>ChunkBuffer\<close> (replace and clear of
  regions), \<open>ReassemblyBuffer\<close> (is the datagram complete) and \<open>ReorderBuffer\<close> (pop what
  is next). A chunk is modelled by its content, a list of cells; its length is the
  length of the list, \<open>peek(offset, length)\<close> is \<^const>\<open>peek_at\<close> and merging two chunks
  appends them, whichever subclass of \<open>Chunk\<close> the code picks for the result. Offsets
  are the code's \<open>b\<close> values (\<open>int64_t\<close> bit counts), as \<open>int\<close>, in units of one cell:
  every caller in the development passes whole bytes.
\<close>

section \<open>ChunkBuffer\<close>

subsection \<open>Regions\<close>

record 'a region =
  roff :: int
  rdata :: "'a list"

abbreviation rstart :: "'a region \<Rightarrow> int" where
  "rstart r \<equiv> roff r"

definition rend :: "'a region \<Rightarrow> int" where
  "rend r = roff r + int (length (rdata r))"

definition mk_region :: "int \<Rightarrow> 'a list \<Rightarrow> 'a region" where
  "mk_region off d = \<lparr>roff = off, rdata = d\<rparr>"

lemma mk_region_simps [simp]:
  "roff (mk_region off d) = off" "rdata (mk_region off d) = d"
  "rend (mk_region off d) = off + int (length d)"
  by (simp_all add: mk_region_def rend_def)

lemma region_eqI: "roff r = roff s \<Longrightarrow> rdata r = rdata s \<Longrightarrow> (r::'a region) = s"
  by simp

type_synonym 'a regions = "'a region list"

subsection \<open>sliceRegions\<close>

text \<open>
  The body of the loop of \<open>sliceRegions\<close> and the loop itself. Only the bounds of
  \<open>newRegion\<close> are read, so they are the arguments \<open>ns\<close> and \<open>ne\<close>. \<open>erase(it--)\<close> followed
  by \<open>it++\<close> leaves the index where it was; \<open>insert(it, previousRegion); return\<close> ends
  the loop.
\<close>

function slice_loop :: "int \<Rightarrow> int \<Rightarrow> 'a regions \<Rightarrow> nat \<Rightarrow> nat \<Rightarrow> 'a regions res" where
  "slice_loop ns ne rs it up =
    (if it < up then
       let old = rs ! it in
       if ne \<le> rstart old \<or> rend old \<le> ns then
         slice_loop ns ne rs (Suc it) up
       else if ns \<le> rstart old \<and> rend old \<le> ne then
         slice_loop ns ne (take it rs @ drop (Suc it) rs) it (up - 1)
       else if rstart old < ns \<and> ne < rend old then
         Inr (take it rs
              @ [mk_region (rstart old) (peek_at 0 (nat (ns - rstart old)) (rdata old)),
                 mk_region ne (peek_at (nat (ne - rstart old)) (nat (rend old - ne)) (rdata old))]
              @ drop (Suc it) rs)
       else if rend old \<le> ne then
         slice_loop ns ne
           (rs[it := mk_region (rstart old) (peek_at 0 (nat (ns - rstart old)) (rdata old))])
           (Suc it) up
       else if ns \<le> rstart old then
         slice_loop ns ne
           (rs[it := mk_region ne (peek_at (nat (ne - rstart old)) (nat (rend old - ne)) (rdata old))])
           (Suc it) up
       else Inl (CheckFailed ''sliceRegions'')
     else Inr rs)"
  by pat_completeness auto
termination
  by (relation "measure (\<lambda>(ns, ne, rs, it, up). up - it)") auto

declare slice_loop.simps [simp del]

definition sliceRegions :: "int \<Rightarrow> int \<Rightarrow> 'a regions \<Rightarrow> 'a regions res" where
  "sliceRegions ns ne rs =
    (if rs \<noteq> [] then
       let lowerit = partition_point (\<lambda>r. rstart r < ns) rs;
           lowerit = (if lowerit \<noteq> 0 then lowerit - 1 else lowerit);
           upperit = partition_point (\<lambda>r. \<not> ne < rend r) rs;
           upperit = (if upperit \<noteq> length rs then upperit + 1 else upperit)
       in slice_loop ns ne rs lowerit upperit
     else Inr rs)"

subsection \<open>mergeRegions\<close>

text \<open>
  A region whose data became \<open>nullptr\<close> is \<open>None\<close>. \<open>canB prev next\<close> stands for
  \<open>previousRegion.data->canInsertAtBack(nextRegion.data)\<close> and \<open>canF next prev\<close> for
  \<open>nextRegion.data->canInsertAtFront(previousRegion.data)\<close>: virtual functions whose
  answer depends on the chunks' classes. The lemma \<open>replace_with_indep\<close> below shows that
  the answers never change the buffer.
\<close>

definition mergeRegions ::
  "('a list \<Rightarrow> 'a list \<Rightarrow> bool) \<Rightarrow> ('a list \<Rightarrow> 'a list \<Rightarrow> bool) \<Rightarrow>
   'a region \<Rightarrow> 'a region \<Rightarrow> 'a region option \<times> 'a region option" where
  "mergeRegions canB canF prev nxt =
    (if rend prev = rstart nxt then
       if canB (rdata prev) (rdata nxt) then
         (Some (prev\<lparr>rdata := rdata prev @ rdata nxt\<rparr>), None)
       else if canF (rdata nxt) (rdata prev) then
         (None, Some (nxt\<lparr>rdata := rdata prev @ rdata nxt, roff := roff prev\<rparr>))
       else
         (Some (prev\<lparr>rdata := rdata prev @ rdata nxt\<rparr>), None)
     else (Some prev, Some nxt))"

definition eraseEmptyRegions :: "'a region option list \<Rightarrow> 'a regions" where
  "eraseEmptyRegions rs = List.map_filter (\<lambda>r. r) rs"

subsection \<open>replace\<close>

definition replace_with ::
  "('a list \<Rightarrow> 'a list \<Rightarrow> bool) \<Rightarrow> ('a list \<Rightarrow> 'a list \<Rightarrow> bool) \<Rightarrow>
   int \<Rightarrow> 'a list \<Rightarrow> 'a regions \<Rightarrow> 'a regions res" where
  "replace_with canB canF offset chunk rs0 =
    (if offset < 0 then Inl (CheckFailed ''offset is invalid'')
     else if chunk = [] then Inl (CheckFailed ''chunk is empty'')
     else let newRegion = mk_region offset chunk in
       bindE (sliceRegions (rstart newRegion) (rend newRegion) rs0) (\<lambda>rs.
         if rs = [] then Inr [newRegion]
         else if rend (last rs) \<le> offset then
           let (p, n) = mergeRegions canB canF (last rs) newRegion
           in Inr (butlast rs @ eraseEmptyRegions [p, n])
         else if offset + int (length chunk) \<le> rstart (hd rs) then
           let (p, n) = mergeRegions canB canF newRegion (hd rs)
           in Inr (eraseEmptyRegions [p, n] @ tl rs)
         else
           let it = partition_point (\<lambda>r. \<not> rstart newRegion < rstart r) rs;
               (p, r) = (if it \<noteq> 0 then mergeRegions canB canF (rs ! (it - 1)) newRegion
                         else (None, Some newRegion));
               (p, r, n) =
                 (if it \<noteq> length rs then
                    (case r of
                       Some r' \<Rightarrow> (case mergeRegions canB canF r' (rs ! it) of (r'', n'') \<Rightarrow> (p, r'', n''))
                     | None \<Rightarrow> (case p of
                         Some p' \<Rightarrow> (case mergeRegions canB canF p' (rs ! it) of (p'', n'') \<Rightarrow> (p'', None, n''))
                       | None \<Rightarrow> (p, r, Some (rs ! it))))
                  else (p, r, None))
           in Inr (take (it - 1) rs @ eraseEmptyRegions [p, r, n] @ drop (Suc it) rs)))"

definition replace :: "int \<Rightarrow> 'a list \<Rightarrow> 'a regions \<Rightarrow> 'a regions res" where
  "replace = replace_with (\<lambda>_ _. True) (\<lambda>_ _. True)"

subsection \<open>clear\<close>

fun erase_exact :: "int \<Rightarrow> int \<Rightarrow> 'a regions \<Rightarrow> 'a regions option" where
  "erase_exact off len [] = None"
| "erase_exact off len (r # rs) =
    (if roff r = off \<and> int (length (rdata r)) = len then Some rs
     else map_option ((#) r) (erase_exact off len rs))"

definition clear :: "int \<Rightarrow> int \<Rightarrow> 'a regions \<Rightarrow> 'a regions res" where
  "clear offset len rs =
    (if offset < 0 then Inl (CheckFailed ''offset is invalid'')
     else if len < 0 then Inl (CheckFailed ''length is invalid'')
     else case erase_exact offset len rs of
            Some rs' \<Rightarrow> Inr rs'
          | None \<Rightarrow> sliceRegions offset (offset + len) rs)"

section \<open>The buffer invariant and the stored content\<close>

text \<open>
  ``The list of non-overlapping, non-connecting but continuous regions'' (the comment on
  \<open>ChunkBuffer::regions\<close>): regions are non-empty, lie at non-negative offsets, and each
  ends strictly before the next one starts. \<open>regions_sep\<close> is the same with adjacency
  allowed, which holds between the slicing and the merging of \<open>replace\<close>.
\<close>

definition region_ok :: "'a region \<Rightarrow> bool" where
  "region_ok r \<longleftrightarrow> 0 \<le> roff r \<and> rdata r \<noteq> []"

definition regions_sep :: "'a regions \<Rightarrow> bool" where
  "regions_sep rs \<longleftrightarrow> (\<forall>r \<in> set rs. region_ok r) \<and> sorted_wrt (\<lambda>r s. rend r \<le> rstart s) rs"

definition buffer_inv :: "'a regions \<Rightarrow> bool" where
  "buffer_inv rs \<longleftrightarrow> (\<forall>r \<in> set rs. region_ok r) \<and> sorted_wrt (\<lambda>r s. rend r < rstart s) rs"

definition region_content :: "'a region \<Rightarrow> int \<Rightarrow> 'a option" where
  "region_content r x =
    (if rstart r \<le> x \<and> x < rend r then Some (rdata r ! nat (x - rstart r)) else None)"

fun content :: "'a regions \<Rightarrow> int \<Rightarrow> 'a option" where
  "content [] x = None"
| "content (r # rs) x = (case region_content r x of Some a \<Rightarrow> Some a | None \<Rightarrow> content rs x)"

lemma rstart_less_rend: "region_ok r \<Longrightarrow> rstart r < rend r"
  by (simp add: region_ok_def rend_def)

lemma buffer_inv_imp_sep: "buffer_inv rs \<Longrightarrow> regions_sep rs"
  unfolding buffer_inv_def regions_sep_def
  by (auto elim!: sorted_wrt_mono_rel[rotated])

lemma regions_sep_Cons:
  "regions_sep (r # rs) \<longleftrightarrow> region_ok r \<and> regions_sep rs \<and> (\<forall>s \<in> set rs. rend r \<le> rstart s)"
  by (auto simp: regions_sep_def)

lemma regions_sep_append:
  "regions_sep (rs @ ss) \<longleftrightarrow>
     regions_sep rs \<and> regions_sep ss \<and> (\<forall>r \<in> set rs. \<forall>s \<in> set ss. rend r \<le> rstart s)"
  by (auto simp: regions_sep_def sorted_wrt_append)

lemma buffer_inv_Nil [simp]: "buffer_inv []"
  by (simp add: buffer_inv_def)

lemma buffer_inv_Cons:
  "buffer_inv (r # rs) \<longleftrightarrow> region_ok r \<and> buffer_inv rs \<and> (\<forall>s \<in> set rs. rend r < rstart s)"
  by (auto simp: buffer_inv_def)

lemma buffer_inv_append:
  "buffer_inv (rs @ ss) \<longleftrightarrow>
     buffer_inv rs \<and> buffer_inv ss \<and> (\<forall>r \<in> set rs. \<forall>s \<in> set ss. rend r < rstart s)"
  by (auto simp: buffer_inv_def sorted_wrt_append)

lemma content_append:
  "content (rs @ ss) x = (case content rs x of Some a \<Rightarrow> Some a | None \<Rightarrow> content ss x)"
  by (induction rs) (auto split: option.splits)

lemma content_Some_in:
  "content rs x = Some a \<Longrightarrow> \<exists>r \<in> set rs. rstart r \<le> x \<and> x < rend r \<and> rdata r ! nat (x - rstart r) = a"
  by (induction rs) (auto simp: region_content_def split: option.splits if_splits)

lemma content_eq_None_iff:
  "content rs x = None \<longleftrightarrow> (\<forall>r \<in> set rs. x < rstart r \<or> rend r \<le> x)"
  by (induction rs) (auto simp: region_content_def split: option.splits if_splits)

lemma content_None_outside:
  "(\<And>r. r \<in> set rs \<Longrightarrow> x < rstart r \<or> rend r \<le> x) \<Longrightarrow> content rs x = None"
  by (simp add: content_eq_None_iff)

section \<open>Slicing\<close>

text \<open>What slicing leaves of one region: the part before \<open>ns\<close> and the part from \<open>ne\<close>.\<close>

definition slice_one :: "int \<Rightarrow> int \<Rightarrow> 'a region \<Rightarrow> 'a regions" where
  "slice_one ns ne r =
    (if ne \<le> rstart r \<or> rend r \<le> ns then [r]
     else (if rstart r < ns then [mk_region (rstart r) (peek_at 0 (nat (ns - rstart r)) (rdata r))] else [])
        @ (if ne < rend r
           then [mk_region ne (peek_at (nat (ne - rstart r)) (nat (rend r - ne)) (rdata r))] else []))"

lemma slice_one_outside: "ne \<le> rstart r \<or> rend r \<le> ns \<Longrightarrow> slice_one ns ne r = [r]"
  by (simp add: slice_one_def)

lemma slice_one_all_after:
  assumes "regions_sep mid" "\<forall>r \<in> set mid. ne \<le> rstart r"
  shows "concat (map (slice_one ns ne) mid) = mid"
  using assms(2) by (intro concat_map_cong_neutral) (auto simp: slice_one_outside)

lemma slice_loop_eq:
  assumes "ns \<le> ne" "regions_sep mid"
  shows "slice_loop ns ne (pre @ mid @ post) (length pre) (length pre + length mid)
         = Inr (pre @ concat (map (slice_one ns ne) mid) @ post)"
  using assms(2)
proof (induction mid arbitrary: pre)
  case Nil
  then show ?case by (simp add: slice_loop.simps)
next
  case (Cons old mid)
  have sep: "regions_sep mid" and ok: "region_ok old" and after: "\<forall>s \<in> set mid. rend old \<le> rstart s"
    using Cons.prems by (simp_all add: regions_sep_Cons)
  have nth: "(pre @ (old # mid) @ post) ! length pre = old" by simp
  have IH: "slice_loop ns ne (pre' @ mid @ post) (length pre') (length pre' + length mid)
         = Inr (pre' @ concat (map (slice_one ns ne) mid) @ post)" for pre'
    using Cons.IH[OF sep] .
  have step: "slice_loop ns ne ((pre @ [x]) @ mid @ post) (Suc (length pre)) (length pre + length (old # mid))
         = Inr ((pre @ [x]) @ concat (map (slice_one ns ne) mid) @ post)" for x
    using IH[of "pre @ [x]"] by simp
  have upd: "(pre @ (old # mid) @ post)[length pre := x] = (pre @ [x]) @ mid @ post" for x
    by (simp add: list_update_append)
  note unf = slice_loop.simps[of ns ne "pre @ old # mid @ post" "length pre" "Suc (length pre + length mid)"]
  consider (out) "ne \<le> rstart old \<or> rend old \<le> ns"
    | (cov) "\<not> (ne \<le> rstart old \<or> rend old \<le> ns)" "ns \<le> rstart old" "rend old \<le> ne"
    | (split) "\<not> (ne \<le> rstart old \<or> rend old \<le> ns)" "rstart old < ns" "ne < rend old"
    | (cute) "\<not> (ne \<le> rstart old \<or> rend old \<le> ns)" "rstart old < ns" "rend old \<le> ne"
    | (cutb) "\<not> (ne \<le> rstart old \<or> rend old \<le> ns)" "ns \<le> rstart old" "ne < rend old"
    by linarith
  then show ?case
  proof cases
    case out
    then show ?thesis using step[of old] by (simp add: unf nth slice_one_outside)
  next
    case cov
    then show ?thesis using IH[of pre] by (simp add: unf nth slice_one_def[of ns ne old])
  next
    case split
    have "concat (map (slice_one ns ne) mid) = mid"
      using after split sep by (intro slice_one_all_after) auto
    then show ?thesis using split by (simp add: unf nth slice_one_def[of ns ne old])
  next
    case cute
    then show ?thesis
      using step[of "mk_region (rstart old) (peek_at 0 (nat (ns - rstart old)) (rdata old))"]
      by (simp add: unf nth upd slice_one_def[of ns ne old])
  next
    case cutb
    then show ?thesis
      using step[of "mk_region ne (peek_at (nat (ne - rstart old)) (nat (rend old - ne)) (rdata old))"]
      by (simp add: unf nth upd slice_one_def[of ns ne old])
  qed
qed

text \<open>
  The range the code loops over holds every region that meets \<open>[ns, ne)\<close>: a region before
  it ends before \<open>ns\<close>, a region after it starts after \<open>ne\<close>.
\<close>

lemma sliceRegions_eq:
  assumes "ns \<le> ne" "regions_sep rs"
  shows "sliceRegions ns ne rs = Inr (concat (map (slice_one ns ne) rs))"
proof (cases "rs = []")
  case True
  then show ?thesis by (simp add: sliceRegions_def)
next
  case False
  define l0 where "l0 = partition_point (\<lambda>r. rstart r < ns) rs"
  define u0 where "u0 = partition_point (\<lambda>r. \<not> ne < rend r) rs"
  define l where "l = (if l0 \<noteq> 0 then l0 - 1 else l0)"
  define u where "u = (if u0 \<noteq> length rs then u0 + 1 else u0)"
  have ule: "u \<le> length rs" and u0u: "u0 \<le> u"
    using partition_point_le[of "\<lambda>r. \<not> ne < rend r" rs]
    by (auto simp: u_def u0_def Suc_le_eq simp del: partition_point_le)
  have sw: "sorted_wrt (\<lambda>r s. rend r \<le> rstart s) rs" and ok: "\<forall>r \<in> set rs. region_ok r"
    using assms(2) by (simp_all add: regions_sep_def)
  have before: "rend (rs ! i) \<le> ns" if "i < l" for i
  proof -
    have i1: "Suc i < l0" "l0 \<le> length rs" using that by (auto simp: l_def l0_def split: if_splits)
    have "rs ! Suc i \<in> set (take l0 rs)" using i1 by (auto simp: in_set_conv_nth)
    then have "rstart (rs ! Suc i) < ns" unfolding l0_def by (rule take_partition_pointD)
    moreover have "rend (rs ! i) \<le> rstart (rs ! Suc i)"
      using sw i1 by (simp add: sorted_wrt_iff_nth_less)
    ultimately show ?thesis by linarith
  qed
  have after: "ne \<le> rstart (rs ! i)" if "u \<le> i" "i < length rs" for i
  proof -
    have u0: "u0 < i" "u0 < length rs" using that by (auto simp: u_def split: if_splits)
    have "\<not> \<not> ne < rend (rs ! u0)"
      using u0(2) unfolding u0_def partition_point_def by (rule nth_length_takeWhile)
    then have "ne < rend (rs ! u0)" by simp
    moreover have "rend (rs ! u0) \<le> rstart (rs ! i)"
      using sw u0 that by (simp add: sorted_wrt_iff_nth_less)
    ultimately show ?thesis by linarith
  qed
  have keep1: "concat (map (slice_one ns ne) (take l rs)) = take l rs"
    using before by (intro concat_map_cong_neutral slice_one_outside) (auto simp: in_set_conv_nth)
  have keep2: "concat (map (slice_one ns ne) (drop v rs)) = drop v rs" if "u \<le> v" for v
    using after that
    by (intro concat_map_cong_neutral slice_one_outside) (auto simp: in_set_conv_nth)
  have run: "slice_loop ns ne rs l u = Inr (concat (map (slice_one ns ne) rs))"
  proof (cases "l \<le> u")
    case True
    let ?mid = "drop l (take u rs)"
    have dec: "rs = take l rs @ ?mid @ drop u rs"
      using True by (metis append_assoc append_take_drop_id min.absorb1 take_drop take_take le_add_diff_inverse)
    have sep: "regions_sep ?mid" using assms(2) dec regions_sep_append by metis
    have len: "length (take l rs) = l" "l + length ?mid = u" using ule True by simp_all
    have "slice_loop ns ne (take l rs @ ?mid @ drop u rs) l u
        = Inr (take l rs @ concat (map (slice_one ns ne) ?mid) @ drop u rs)"
      using slice_loop_eq[OF assms(1) sep, of "take l rs" "drop u rs"] len by simp
    moreover have "concat (map (slice_one ns ne) rs)
       = take l rs @ concat (map (slice_one ns ne) ?mid) @ drop u rs"
      by (subst dec) (simp only: map_append concat_append keep1 keep2[OF order_refl])
    ultimately show ?thesis using dec by simp
  next
    case False
    have "concat (map (slice_one ns ne) rs) = concat (map (slice_one ns ne) (take l rs @ drop l rs))"
      by simp
    also have "\<dots> = rs"
      using keep1 keep2[of l] False by (simp only: map_append concat_append) simp
    finally show ?thesis using False by (simp add: slice_loop.simps)
  qed
  moreover have "sliceRegions ns ne rs = slice_loop ns ne rs l u"
    using False unfolding sliceRegions_def Let_def l_def u_def l0_def u0_def by (simp only: if_True simp_thms)
  ultimately show ?thesis by simp
qed


text \<open>The pieces of a region lie inside it and outside the new range.\<close>

lemma slice_one_piece:
  assumes "region_ok r" "0 \<le> ns" "ns \<le> ne" "p \<in> set (slice_one ns ne r)"
  shows "region_ok p \<and> rstart r \<le> rstart p \<and> rend p \<le> rend r \<and> (rend p \<le> ns \<or> ne \<le> rstart p)"
  using assms
  by (auto simp: slice_one_def region_ok_def rend_def peek_at_def split: if_splits)

lemma slice_one_inv:
  assumes "region_ok r" "0 \<le> ns" "ns < ne"
  shows "buffer_inv (slice_one ns ne r)"
  using assms
  by (auto simp: buffer_inv_def slice_one_def region_ok_def rend_def peek_at_def split: if_splits)

lemma slice_one_content:
  assumes "region_ok r" "ns \<le> ne"
  shows "content (slice_one ns ne r) x = (if ns \<le> x \<and> x < ne then None else region_content r x)"
  using assms
  by (auto simp: slice_one_def region_content_def rend_def peek_at_def nat_diff_distrib'
        intro!: arg_cong[where f = "\<lambda>i. rdata r ! i"])

definition sliced :: "int \<Rightarrow> int \<Rightarrow> 'a regions \<Rightarrow> 'a regions" where
  "sliced ns ne rs = concat (map (slice_one ns ne) rs)"

lemma sliced_inv:
  assumes "buffer_inv rs" "0 \<le> ns" "ns < ne"
  shows "buffer_inv (sliced ns ne rs)"
  using assms(1)
proof (induction rs)
  case Nil
  then show ?case by (simp add: sliced_def)
next
  case (Cons r rs)
  have r: "region_ok r" and rs: "buffer_inv rs" and far: "\<forall>s \<in> set rs. rend r < rstart s"
    using Cons.prems by (simp_all add: buffer_inv_Cons)
  have oks: "\<forall>s \<in> set rs. region_ok s" using rs by (simp add: buffer_inv_def)
  have "rend p < rstart q" if p: "p \<in> set (slice_one ns ne r)" and q: "q \<in> set (sliced ns ne rs)" for p q
  proof -
    obtain s where s: "s \<in> set rs" "q \<in> set (slice_one ns ne s)"
      using q by (auto simp: sliced_def)
    have "rend p \<le> rend r" using slice_one_piece[OF r assms(2) _ p] assms(3) by simp
    also have "\<dots> < rstart s" using far s by simp
    also have "\<dots> \<le> rstart q" using slice_one_piece[OF _ assms(2) _ s(2)] oks s(1) assms(3) by simp
    finally show ?thesis .
  qed
  then show ?case
    using Cons.IH[OF rs] slice_one_inv[OF r assms(2,3)]
    by (simp add: sliced_def buffer_inv_append)
qed

lemma sliced_outside:
  assumes "\<forall>r \<in> set rs. region_ok r" "0 \<le> ns" "ns \<le> ne" "p \<in> set (sliced ns ne rs)"
  shows "rend p \<le> ns \<or> ne \<le> rstart p"
  using assms slice_one_piece by (fastforce simp: sliced_def)

lemma sliced_content:
  assumes "\<forall>r \<in> set rs. region_ok r" "ns \<le> ne"
  shows "content (sliced ns ne rs) x = (if ns \<le> x \<and> x < ne then None else content rs x)"
  using assms(1)
  by (induction rs) (auto simp: sliced_def content_append slice_one_content[OF _ assms(2)] split: option.splits)

section \<open>Merging\<close>

text \<open>The effect of \<open>mergeRegions\<close> followed by \<open>eraseEmptyRegions\<close>, whichever way it merges.\<close>

definition glue_right :: "'a region \<Rightarrow> 'a regions \<Rightarrow> 'a regions" where
  "glue_right r ss =
    (case ss of [] \<Rightarrow> [r]
     | s # ss' \<Rightarrow> if rend r = rstart s then mk_region (roff r) (rdata r @ rdata s) # ss' else r # ss)"

definition glue_left :: "'a regions \<Rightarrow> 'a regions \<Rightarrow> 'a regions" where
  "glue_left ls rs = (if ls = [] then rs else butlast ls @ glue_right (last ls) rs)"

lemma merge_erase:
  "(case mergeRegions cb cf p n of (p', n') \<Rightarrow> eraseEmptyRegions [p', n']) = glue_right p [n]"
  by (auto simp: mergeRegions_def eraseEmptyRegions_def glue_right_def mk_region_def
      List.map_filter_def rend_def)

lemma glue_right_Cons: "glue_right r (s # ss) = glue_right r [s] @ ss"
  by (simp add: glue_right_def)

lemma region_content_merge:
  assumes "rend r = rstart s"
  shows "region_content (mk_region (roff r) (rdata r @ rdata s)) x
       = (case region_content r x of Some a \<Rightarrow> Some a | None \<Rightarrow> region_content s x)"
  using assms
  by (auto simp: region_content_def rend_def nth_append intro!: arg_cong[where f = "\<lambda>i. rdata s ! i"])

lemma content_glue_right: "content (glue_right r ss) x = content (r # ss) x"
  by (cases ss) (auto simp: glue_right_def region_content_merge split: option.splits)

lemma content_glue_left: "content (glue_left ls rs) x = content (ls @ rs) x"
proof (cases "ls = []")
  case True
  then show ?thesis by (simp add: glue_left_def)
next
  case False
  then have "content (glue_left ls rs) x = content (butlast ls @ (last ls # rs)) x"
    by (simp add: glue_left_def content_append content_glue_right split: option.splits)
  moreover have "butlast ls @ last ls # rs = ls @ rs"
    using False by (metis append.assoc append_Cons append_Nil append_butlast_last_id)
  ultimately show ?thesis by simp
qed

lemma inv_glue_right:
  assumes "region_ok r" "buffer_inv ss" "\<forall>s \<in> set ss. rend r \<le> rstart s"
  shows "buffer_inv (glue_right r ss)"
proof (cases ss)
  case Nil
  then show ?thesis using assms by (simp add: glue_right_def buffer_inv_Cons)
next
  case (Cons s ss')
  have s: "region_ok s" "buffer_inv ss'" and far: "\<forall>t \<in> set ss'. rend s < rstart t"
    using assms(2) Cons by (simp_all add: buffer_inv_Cons)
  show ?thesis
  proof (cases "rend r = rstart s")
    case True
    have "region_ok (mk_region (roff r) (rdata r @ rdata s))"
      using assms(1) by (simp add: region_ok_def)
    moreover have "rend (mk_region (roff r) (rdata r @ rdata s)) = rend s"
      using True by (simp add: rend_def)
    ultimately show ?thesis
      using True Cons s far by (simp add: glue_right_def buffer_inv_Cons)
  next
    case False
    moreover have "rend r < rstart s" using False assms(3) Cons by fastforce
    moreover have "\<forall>t \<in> set ss'. rend r < rstart t"
      using calculation(2) rstart_less_rend[OF s(1)] far by fastforce
    ultimately show ?thesis
      using assms(1,2) Cons by (simp add: glue_right_def buffer_inv_Cons)
  qed
qed

lemma hd_glue_right: "glue_right r ss \<noteq> [] \<and> rstart (hd (glue_right r ss)) = rstart r"
  by (cases ss) (auto simp: glue_right_def)

lemma rstart_glue_right:
  assumes "\<forall>s \<in> set ss. lo \<le> rstart s" "lo \<le> rstart r" "t \<in> set (glue_right r ss)"
  shows "lo \<le> rstart t"
  using assms by (cases ss) (auto simp: glue_right_def split: if_splits)

lemma inv_glue_left:
  assumes "buffer_inv ls" "buffer_inv rs" "\<forall>l \<in> set ls. \<forall>r \<in> set rs. rend l \<le> rstart r"
  shows "buffer_inv (glue_left ls rs)"
proof (cases "ls = []")
  case True
  then show ?thesis using assms(2) by (simp add: glue_left_def)
next
  case False
  have split: "buffer_inv (butlast ls @ [last ls])" using assms(1) False by simp
  have bl: "buffer_inv (butlast ls)" and ok: "region_ok (last ls)"
    and far: "\<forall>l \<in> set (butlast ls). rend l < rstart (last ls)"
    using split by (simp_all only: buffer_inv_append buffer_inv_Cons) auto
  have inl: "\<forall>r \<in> set rs. rend (last ls) \<le> rstart r" using assms(3) False by simp
  have g: "buffer_inv (glue_right (last ls) rs)"
    using ok assms(2) inl by (rule inv_glue_right)
  have "rend l < rstart t" if "l \<in> set (butlast ls)" "t \<in> set (glue_right (last ls) rs)" for l t
  proof -
    have "\<forall>s \<in> set rs. rstart (last ls) \<le> rstart s"
      using inl rstart_less_rend[OF ok] by fastforce
    then have "rstart (last ls) \<le> rstart t"
      using rstart_glue_right[OF _ order_refl that(2)] by blast
    then show ?thesis using far that(1) by fastforce
  qed
  then show ?thesis using bl g False by (simp add: glue_left_def buffer_inv_append)
qed

section \<open>Correctness of \<open>replace\<close>\<close>

lemma merge_erase_pair:
  "mergeRegions cb cf p n = (p', n') \<Longrightarrow> eraseEmptyRegions [p', n'] = glue_right p [n]"
  using merge_erase[of cb cf p n] by simp

lemma eraseEmptyRegions_simps [simp]:
  "eraseEmptyRegions [] = []"
  "eraseEmptyRegions (None # rs) = eraseEmptyRegions rs"
  "eraseEmptyRegions (Some r # rs) = r # eraseEmptyRegions rs"
  by (simp_all add: eraseEmptyRegions_def List.map_filter_def)

text \<open>
  The middle branch of \<open>replace\<close>: the new region between a previous and a next one. All
  four outcomes of the two merges give the same list.
\<close>

definition merge_middle ::
  "('a list \<Rightarrow> 'a list \<Rightarrow> bool) \<Rightarrow> ('a list \<Rightarrow> 'a list \<Rightarrow> bool) \<Rightarrow>
   'a region \<Rightarrow> 'a region \<Rightarrow> 'a region \<Rightarrow> 'a regions" where
  "merge_middle cb cf prev new nxt =
    (let (p, r) = mergeRegions cb cf prev new;
         (p, r, n) = (case r of
            Some r' \<Rightarrow> (case mergeRegions cb cf r' nxt of (r'', n'') \<Rightarrow> (p, r'', n''))
          | None \<Rightarrow> (case p of
              Some p' \<Rightarrow> (case mergeRegions cb cf p' nxt of (p'', n'') \<Rightarrow> (p'', None, n''))
            | None \<Rightarrow> (p, r, Some nxt)))
     in eraseEmptyRegions [p, r, n])"

lemma merge_middle_eq:
  "merge_middle cb cf prev new nxt = glue_left [prev] (glue_right new [nxt])"
  by (auto simp: merge_middle_def mergeRegions_def glue_left_def glue_right_def
      mk_region_def rend_def Let_def)

lemma outside_split:
  assumes "buffer_inv rs" "ns < ne" "\<forall>p \<in> set rs. rend p \<le> ns \<or> ne \<le> rstart p"
  obtains L R where "rs = L @ R" "\<forall>p \<in> set L. rend p \<le> ns" "\<forall>p \<in> set R. ne \<le> rstart p"
proof -
  let ?P = "\<lambda>p. rend p \<le> ns"
  have "ne \<le> rstart p" if "p \<in> set (dropWhile ?P rs)" for p
  proof (rule ccontr)
    assume np: "\<not> ne \<le> rstart p"
    have "dropWhile ?P rs \<noteq> []" using that by (metis empty_iff list.set(1))
    then obtain q qs where q: "dropWhile ?P rs = q # qs" unfolding neq_Nil_conv by blast
    have nq: "\<not> ?P q" using q by (simp add: dropWhile_eq_Cons_conv)
    have "set (dropWhile ?P rs) \<subseteq> set rs" by (blast dest: set_dropWhileD)
    then have mem: "p \<in> set rs" "q \<in> set rs" using that q by auto
    have inv: "buffer_inv (dropWhile ?P rs)"
      using assms(1) by (metis buffer_inv_append takeWhile_dropWhile_id)
    have "p = q \<or> rend q < rstart p" using that inv q by (auto simp: buffer_inv_Cons)
    moreover have "region_ok q" using assms(1) mem by (simp add: buffer_inv_def)
    ultimately show False using assms(3) mem np nq rstart_less_rend[of q] by fastforce
  qed
  then have R: "\<forall>p \<in> set (dropWhile ?P rs). ne \<le> rstart p" by blast
  have L: "\<forall>p \<in> set (takeWhile ?P rs). ?P p" by (blast dest: set_takeWhileD)
  show ?thesis
    using that[OF takeWhile_dropWhile_id[symmetric] L R] .
qed

lemma replace_with_eq:
  assumes inv: "buffer_inv rs" and off: "0 \<le> offset" and ne: "chunk \<noteq> []"
    and dec: "sliced offset (offset + int (length chunk)) rs = L @ R"
    and L: "\<forall>p \<in> set L. rend p \<le> offset"
    and R: "\<forall>p \<in> set R. offset + int (length chunk) \<le> rstart p"
  shows "replace_with cb cf offset chunk rs
       = Inr (glue_left L (glue_right (mk_region offset chunk) R))"
proof -
  let ?new = "mk_region offset chunk"
  have oks: "\<forall>p \<in> set (L @ R). region_ok p"
    using sliced_inv[OF inv off, of "offset + int (length chunk)"] ne dec
    by (simp add: buffer_inv_def)
  have lens: "\<forall>p \<in> set L \<union> set R. rstart p < rend p"
    using oks rstart_less_rend by auto
  have sl: "sliceRegions offset (offset + int (length chunk)) rs = Inr (L @ R)"
    using sliceRegions_eq[OF _ buffer_inv_imp_sep[OF inv], of offset "offset + int (length chunk)"] dec
    by (simp add: sliced_def)
  note unf = replace_with_def Let_def sl mk_region_simps bindE_simps
  consider (none) "L = []" "R = []" | (left) "L \<noteq> []" "R = []" | (right) "L = []" "R \<noteq> []"
    | (both) "L \<noteq> []" "R \<noteq> []" by blast
  then show ?thesis
  proof cases
    case none
    then show ?thesis using off ne by (simp add: unf glue_left_def glue_right_def)
  next
    case left
    then have "rend (last (L @ R)) \<le> offset" using L by simp
    then show ?thesis using left off ne
      by (auto simp: unf glue_left_def glue_right_def[of "mk_region offset chunk"]
            merge_erase_pair split: prod.split)
  next
    case right
    then obtain r R' where r: "R = r # R'" by (cases R) auto
    have "\<not> rend (last R) \<le> offset"
    proof -
      have "last R \<in> set R" using right by simp
      then have "offset + int (length chunk) \<le> rstart (last R)" "rstart (last R) < rend (last R)"
        using R lens by blast+
      then show ?thesis by simp
    qed
    moreover have "offset + int (length chunk) \<le> rstart r" using R r by simp
    ultimately show ?thesis using right off ne r
      by (auto simp: unf glue_left_def glue_right_Cons[of _ r R']
            merge_erase_pair split: prod.split)
  next
    case both
    then obtain r R' where r: "R = r # R'" by (cases R) auto
    have lastR: "\<not> rend (last R) \<le> offset"
    proof -
      have "last R \<in> set R" using both by simp
      then have "offset + int (length chunk) \<le> rstart (last R)" "rstart (last R) < rend (last R)"
        using R lens by blast+
      then show ?thesis by simp
    qed
    have hdL: "\<not> offset + int (length chunk) \<le> rstart (hd L)"
    proof -
      have "hd L \<in> set L" using both by simp
      then have "rend (hd L) \<le> offset" "rstart (hd L) < rend (hd L)"
        using L lens by blast+
      then show ?thesis by simp
    qed
    have pp: "partition_point (\<lambda>q. \<not> offset < rstart q) (L @ R) = length L"
    proof (rule partition_point_append)
      show "\<forall>q \<in> set L. \<not> offset < rstart q"
      proof
        fix q assume "q \<in> set L"
        then have "rend q \<le> offset" "rstart q < rend q" using L lens by blast+
        then show "\<not> offset < rstart q" by linarith
      qed
      have "offset < offset + int (length chunk)" using ne by simp
      also have "\<dots> \<le> rstart r" using R r by simp
      finally show "R = [] \<or> \<not> \<not> offset < rstart (hd R)" using r by simp
    qed
    have nthL: "(L @ R) ! (length L - 1) = last L" using both by (simp add: nth_append last_conv_nth)
    have nthR: "(L @ R) ! length L = r" using r by simp
    have tk: "take (length L - 1) (L @ R) = butlast L" by (simp add: butlast_conv_take)
    have dr: "drop (Suc (length L)) (L @ R) = R'" using r by simp
    have len: "length L \<noteq> length (L @ R)" "length L \<noteq> 0" using both by simp_all
    have ap: "L @ R \<noteq> []" "last (L @ R) = last R" "hd (L @ R) = hd L" using both by simp_all
    have "replace_with cb cf offset chunk rs
        = Inr (take (length L - 1) (L @ R)
               @ merge_middle cb cf ((L @ R) ! (length L - 1)) ?new ((L @ R) ! length L)
               @ drop (Suc (length L)) (L @ R))"
      unfolding replace_with_def Let_def mk_region_simps sl bindE_simps pp merge_middle_def
      using off ne lastR hdL len ap
      by (auto split: prod.split)
    also have "\<dots> = Inr (butlast L @ merge_middle cb cf (last L) ?new r @ R')"
      unfolding nthL nthR tk dr ..
    also have "merge_middle cb cf (last L) ?new r @ R' = glue_left [last L] (glue_right ?new R)"
      unfolding merge_middle_eq r
      by (simp add: glue_left_def glue_right_def)
    finally show ?thesis using both by (simp add: glue_left_def)
  qed
qed

text \<open>The answers of the virtual \<open>canInsertAt...\<close> functions do not change the buffer.\<close>

lemma replace_with_indep:
  assumes "buffer_inv rs"
  shows "replace_with cb cf offset chunk rs = replace offset chunk rs"
proof (cases "0 \<le> offset \<and> chunk \<noteq> []")
  case True
  let ?ne = "offset + int (length chunk)"
  have lt: "offset < ?ne" using True by simp
  obtain L R where "sliced offset ?ne rs = L @ R" "\<forall>p \<in> set L. rend p \<le> offset"
    "\<forall>p \<in> set R. ?ne \<le> rstart p"
    using outside_split[OF sliced_inv[OF assms _ lt] lt] sliced_outside[of rs offset ?ne] True assms
    by (auto simp: buffer_inv_def)
  from replace_with_eq[OF assms _ _ this] True show ?thesis
    by (simp add: replace_def)
next
  case False
  then show ?thesis by (auto simp: replace_with_def replace_def)
qed

definition overlay :: "int \<Rightarrow> 'a list \<Rightarrow> (int \<Rightarrow> 'a option) \<Rightarrow> int \<Rightarrow> 'a option" where
  "overlay offset chunk m x =
    (if offset \<le> x \<and> x < offset + int (length chunk) then Some (chunk ! nat (x - offset)) else m x)"

lemma replace_correct:
  assumes "buffer_inv rs" "0 \<le> offset" "chunk \<noteq> []"
  shows "\<exists>rs'. replace offset chunk rs = Inr rs' \<and> buffer_inv rs' \<and>
           content rs' = overlay offset chunk (content rs)"
proof -
  let ?ne = "offset + int (length chunk)" and ?new = "mk_region offset chunk"
  have lt: "offset < ?ne" using assms(3) by simp
  have inv: "buffer_inv (sliced offset ?ne rs)" by (rule sliced_inv[OF assms(1,2) lt])
  obtain L R where LR: "sliced offset ?ne rs = L @ R" "\<forall>p \<in> set L. rend p \<le> offset"
    "\<forall>p \<in> set R. ?ne \<le> rstart p"
    using outside_split[OF inv lt] sliced_outside[of rs offset ?ne] assms
    by (auto simp: buffer_inv_def)
  define rs' where "rs' = glue_left L (glue_right ?new R)"
  have eq: "replace offset chunk rs = Inr rs'"
    using replace_with_eq[OF assms LR] by (simp add: replace_def rs'_def)
  have i: "buffer_inv L" "buffer_inv R" using inv LR(1) by (simp_all add: buffer_inv_append)
  have new: "region_ok ?new" using assms by (simp add: region_ok_def)
  have g: "buffer_inv (glue_right ?new R)"
    using new i(2) LR(3) by (intro inv_glue_right) simp_all
  have "rend l \<le> rstart t" if "l \<in> set L" "t \<in> set (glue_right ?new R)" for l t
  proof -
    have "offset \<le> rstart t"
      using rstart_glue_right[OF _ _ that(2), of offset] LR(3) lt by fastforce
    then show ?thesis using LR(2) that(1) by fastforce
  qed
  then have "buffer_inv rs'" unfolding rs'_def using i(1) g by (intro inv_glue_left) blast+
  moreover have "content rs' x = overlay offset chunk (content rs) x" for x
  proof -
    have sc: "content (L @ R) x = (if offset \<le> x \<and> x < ?ne then None else content rs x)"
      using sliced_content[of rs offset ?ne x] assms(1) lt LR(1) by (simp add: buffer_inv_def)
    have "content rs' x = content (L @ ?new # R) x"
      by (simp add: rs'_def content_glue_left content_append content_glue_right split: option.splits)
    also have "\<dots> = overlay offset chunk (content rs) x"
      using sc by (auto simp: content_append overlay_def region_content_def split: option.splits if_splits)
    finally show ?thesis .
  qed
  ultimately show ?thesis using eq by blast
qed

section \<open>Correctness of \<open>clear\<close>\<close>

lemma erase_exact_Some:
  assumes "erase_exact off len rs = Some rs'"
  shows "\<exists>pre r post. rs = pre @ r # post \<and> rs' = pre @ post \<and> roff r = off \<and> int (length (rdata r)) = len"
  using assms
proof (induction rs arbitrary: rs')
  case Nil
  then show ?case by simp
next
  case (Cons r rs)
  show ?case
  proof (cases "roff r = off \<and> int (length (rdata r)) = len")
    case True
    then have "rs' = rs" using Cons.prems by simp
    then show ?thesis using True by (metis append_Nil)
  next
    case False
    then obtain rs'' where rs'': "erase_exact off len rs = Some rs''" "rs' = r # rs''"
      using Cons.prems by auto
    obtain pre q post where "rs = pre @ q # post" "rs'' = pre @ post" "roff q = off"
      "int (length (rdata q)) = len"
      using Cons.IH[OF rs''(1)] by blast
    then show ?thesis using rs''(2) by (metis append_Cons)
  qed
qed

lemma clear_correct:
  assumes "buffer_inv rs" "0 \<le> offset" "0 < len"
  shows "\<exists>rs'. clear offset len rs = Inr rs' \<and> buffer_inv rs' \<and>
           content rs' = (\<lambda>x. if offset \<le> x \<and> x < offset + len then None else content rs x)"
proof (cases "erase_exact offset len rs")
  case None
  have "sliceRegions offset (offset + len) rs = Inr (sliced offset (offset + len) rs)"
    using sliceRegions_eq[OF _ buffer_inv_imp_sep[OF assms(1)]] assms(3) by (simp add: sliced_def)
  moreover have "buffer_inv (sliced offset (offset + len) rs)"
    using sliced_inv[OF assms(1,2)] assms(3) by simp
  moreover have "content (sliced offset (offset + len) rs)
      = (\<lambda>x. if offset \<le> x \<and> x < offset + len then None else content rs x)"
    using sliced_content assms(1,3) by (fastforce simp: buffer_inv_def)
  ultimately show ?thesis using None assms by (simp add: clear_def)
next
  case (Some rs')
  then obtain pre r post where rs: "rs = pre @ r # post" "rs' = pre @ post" "roff r = offset"
    "int (length (rdata r)) = len"
    using erase_exact_Some by blast
  have inv: "buffer_inv pre" "buffer_inv post" "\<forall>p \<in> set pre. rend p < offset"
    "\<forall>q \<in> set post. offset + len < rstart q" "\<forall>p \<in> set pre. \<forall>q \<in> set post. rend p < rstart q"
    using assms(1) rs by (auto simp: buffer_inv_append buffer_inv_Cons rend_def)
  have "content (pre @ post) x
      = (if offset \<le> x \<and> x < offset + len then None else content (pre @ r # post) x)" for x
  proof (cases "offset \<le> x \<and> x < offset + len")
    case True
    have "content pre x = None" "content post x = None"
      using True inv(3,4) by (force simp: content_eq_None_iff)+
    then show ?thesis using True by (simp add: content_append)
  next
    case False
    then have "region_content r x = None" using rs by (auto simp: region_content_def rend_def)
    then show ?thesis using False by (auto simp: content_append split: option.split)
  qed
  then have "content rs' = (\<lambda>x. if offset \<le> x \<and> x < offset + len then None else content rs x)"
    using rs by auto
  moreover have "buffer_inv rs'" using inv rs by (auto simp: buffer_inv_append)
  ultimately show ?thesis using Some assms by (simp add: clear_def)
qed

section \<open>ReassemblyBuffer\<close>

record 'a reassembly =
  rb_regions :: "'a regions"
  rb_expectedLength :: int

definition new_reassembly :: "'a reassembly" where
  "new_reassembly = \<lparr>rb_regions = [], rb_expectedLength = -1\<rparr>"

definition setExpectedLength :: "int \<Rightarrow> 'a reassembly \<Rightarrow> 'a reassembly" where
  "setExpectedLength n b = b\<lparr>rb_expectedLength := n\<rparr>"

definition rb_replace :: "int \<Rightarrow> 'a list \<Rightarrow> 'a reassembly \<Rightarrow> 'a reassembly res" where
  "rb_replace offset chunk b =
    bindE (replace offset chunk (rb_regions b)) (\<lambda>rs. Inr (b\<lparr>rb_regions := rs\<rparr>))"

definition isComplete :: "'a reassembly \<Rightarrow> bool" where
  "isComplete b \<longleftrightarrow>
    (case rb_regions b of
       [r] \<Rightarrow> roff r = 0 \<and> int (length (rdata r)) = rb_expectedLength b
     | _ \<Rightarrow> False)"

definition getReassembledData :: "'a reassembly \<Rightarrow> 'a list res" where
  "getReassembledData b =
    (if \<not> isComplete b then Inl (RuntimeError ''Reassembly is incomplete'')
     else Inr (rdata (hd (rb_regions b))))"

text \<open>
  A buffer that holds exactly the positions \<open>[0, n)\<close> holds them in one region: two regions
  of the invariant leave a gap between them.
\<close>

lemma full_content_single:
  assumes inv: "buffer_inv rs" and n: "0 < n"
    and dom: "\<forall>x. content rs x \<noteq> None \<longleftrightarrow> 0 \<le> x \<and> x < n"
  shows "\<exists>r. rs = [r] \<and> roff r = 0 \<and> int (length (rdata r)) = n"
proof -
  obtain r rs' where rs: "rs = r # rs'" using dom n by (cases rs) auto
  have r: "region_ok r" and far: "\<forall>s \<in> set rs'. rend r < rstart s"
    and oks: "\<forall>s \<in> set rs'. region_ok s"
    using inv rs by (auto simp: buffer_inv_Cons buffer_inv_def)
  have gap: "content rs (rend r) = None"
    unfolding rs content_eq_None_iff using far by auto
  have start: "content rs (rstart r) \<noteq> None"
    unfolding rs content_eq_None_iff using rstart_less_rend[OF r] by auto
  have "rend r \<ge> n" using gap dom start rstart_less_rend[OF r] by (metis less_trans not_le le_less)
  have "rs' = []"
  proof (rule ccontr)
    assume "rs' \<noteq> []"
    then obtain s where s: "s \<in> set rs'" by (cases rs') auto
    then have "content rs (rstart s) \<noteq> None"
      unfolding rs content_eq_None_iff using rstart_less_rend oks by force
    then have "rstart s < n" using dom by blast
    then show False using far s \<open>rend r \<ge> n\<close> by fastforce
  qed
  then have one: "rs = [r]" using rs by simp
  have iff: "rstart r \<le> x \<and> x < rend r \<longleftrightarrow> 0 \<le> x \<and> x < n" for x
  proof -
    have "content rs x \<noteq> None \<longleftrightarrow> rstart r \<le> x \<and> x < rend r"
      unfolding one content_eq_None_iff by auto
    then show ?thesis using dom by blast
  qed
  have "rstart r \<le> 0" using iff[of 0] n by blast
  moreover have "0 \<le> rstart r" using r by (simp add: region_ok_def)
  moreover have "rend r \<le> n" using iff[of "rend r - 1"] rstart_less_rend[OF r] by linarith
  ultimately show ?thesis using one \<open>rend r \<ge> n\<close> by (simp add: rend_def)
qed

lemma isComplete_iff:
  assumes "buffer_inv (rb_regions b)" "0 < rb_expectedLength b"
  shows "isComplete b \<longleftrightarrow>
    (\<forall>x. content (rb_regions b) x \<noteq> None \<longleftrightarrow> 0 \<le> x \<and> x < rb_expectedLength b)"
proof
  assume "isComplete b"
  then obtain r where r: "rb_regions b = [r]" "roff r = 0"
    "int (length (rdata r)) = rb_expectedLength b"
    by (auto simp: isComplete_def split: list.splits)
  then show "\<forall>x. content (rb_regions b) x \<noteq> None \<longleftrightarrow> 0 \<le> x \<and> x < rb_expectedLength b"
    by (auto simp: region_content_def rend_def)
next
  assume "\<forall>x. content (rb_regions b) x \<noteq> None \<longleftrightarrow> 0 \<le> x \<and> x < rb_expectedLength b"
  from full_content_single[OF assms this] show "isComplete b"
    by (auto simp: isComplete_def)
qed

lemma getReassembledData_content:
  assumes "isComplete b"
    and "\<forall>i < length d. content (rb_regions b) (int i) = Some (d ! i)"
    and "rb_expectedLength b = int (length d)"
  shows "getReassembledData b = Inr d"
proof -
  obtain r where r: "rb_regions b = [r]" "roff r = 0"
    "int (length (rdata r)) = rb_expectedLength b"
    using assms(1) by (auto simp: isComplete_def split: list.splits)
  have "rdata r = d"
  proof (rule nth_equalityI)
    show "length (rdata r) = length d" using r assms(3) by simp
    fix i assume "i < length (rdata r)"
    then show "rdata r ! i = d ! i"
      using assms(2) r \<open>length (rdata r) = length d\<close>
      by (force simp: region_content_def rend_def)
  qed
  then show ?thesis using assms(1) r by (simp add: getReassembledData_def)
qed

subsection \<open>Reassembly of the pieces of one datagram\<close>

text \<open>
  \<open>put_all\<close> is a run of \<open>replace\<close> calls, one per received fragment. \<open>piece_of d\<close> says
  a fragment carries the bytes of \<open>d\<close> at its offset. What the users of a buffer rely on is
  that \<open>replace\<close> overlays the stored bytes; the locale states it for any store, and it is
  interpreted for \<open>ChunkBuffer\<close> and for \<open>ReassemblyBuffer\<close>.
\<close>

fun put_all :: "(int \<Rightarrow> 'a list \<Rightarrow> 's \<Rightarrow> 's res) \<Rightarrow> (int \<times> 'a list) list \<Rightarrow> 's \<Rightarrow> 's res" where
  "put_all put [] s = Inr s"
| "put_all put ((off, c) # fs) s = bindE (put off c s) (put_all put fs)"

definition piece_of :: "'a list \<Rightarrow> int \<times> 'a list \<Rightarrow> bool" where
  "piece_of d f \<longleftrightarrow> 0 \<le> fst f \<and> snd f \<noteq> [] \<and> snd f = peek_at (nat (fst f)) (length (snd f)) d"

definition covers :: "int \<times> 'a list \<Rightarrow> int \<Rightarrow> bool" where
  "covers f x \<longleftrightarrow> fst f \<le> x \<and> x < fst f + int (length (snd f))"

lemma piece_of_bounds:
  assumes "piece_of d f"
  shows "fst f + int (length (snd f)) \<le> int (length d)"
proof -
  have "length (snd f) = min (length (snd f)) (length d - nat (fst f))"
    using assms length_peek_at[of "nat (fst f)" "length (snd f)" d] by (simp add: piece_of_def)
  moreover have "0 < length (snd f)" "0 \<le> fst f" using assms by (simp_all add: piece_of_def)
  ultimately show ?thesis by linarith
qed

lemma piece_of_nth:
  assumes "piece_of d f" "covers f x"
  shows "snd f ! nat (x - fst f) = d ! nat x"
proof -
  have p: "0 \<le> fst f" "snd f = peek_at (nat (fst f)) (length (snd f)) d"
    using assms(1) by (simp_all add: piece_of_def)
  have c: "fst f \<le> x" "nat (x - fst f) < length (snd f)" using assms(2) by (auto simp: covers_def)
  have "nat (fst f) + length (snd f) \<le> length d" using piece_of_bounds[OF assms(1)] p by linarith
  then have "peek_at (nat (fst f)) (length (snd f)) d ! nat (x - fst f) = d ! (nat (fst f) + nat (x - fst f))"
    using c by (intro nth_peek_at)
  moreover have "nat (fst f) + nat (x - fst f) = nat x" using c p by linarith
  ultimately show ?thesis using p by simp
qed

locale fragment_store =
  fixes put :: "int \<Rightarrow> 'a list \<Rightarrow> 's \<Rightarrow> 's res"
    and view :: "'s \<Rightarrow> int \<Rightarrow> 'a option"
    and store_inv :: "'s \<Rightarrow> bool"
  assumes put_overlays: "store_inv s \<Longrightarrow> 0 \<le> off \<Longrightarrow> c \<noteq> [] \<Longrightarrow>
    \<exists>s'. put off c s = Inr s' \<and> store_inv s' \<and> view s' = overlay off c (view s)"
begin

lemma put_all_pieces:
  assumes "\<forall>f \<in> set fs. piece_of d f" "store_inv s"
    and "\<forall>x. view s x = None \<or> view s x = Some (d ! nat x)"
  shows "\<exists>s'. put_all put fs s = Inr s' \<and> store_inv s' \<and>
    view s' = (\<lambda>x. if view s x \<noteq> None \<or> (\<exists>f \<in> set fs. covers f x) then Some (d ! nat x) else None)"
  using assms
proof (induction fs arbitrary: s)
  case Nil
  then have "view s x = (if view s x \<noteq> None then Some (d ! nat x) else None)" for x
    by (metis option.distinct(1))
  then show ?case using Nil by auto
next
  case (Cons f fs)
  obtain off c where f: "f = (off, c)" by (cases f)
  have p: "piece_of d (off, c)" using Cons.prems(1) f by simp
  then have oc: "0 \<le> off" "c \<noteq> []" by (simp_all add: piece_of_def)
  obtain s1 where s1: "put off c s = Inr s1" "store_inv s1" "view s1 = overlay off c (view s)"
    using put_overlays[OF Cons.prems(2) oc] by blast
  have c1: "view s1 x = (if covers (off, c) x then Some (d ! nat x) else view s x)" for x
    using piece_of_nth[OF p, of x] by (auto simp: s1(3) overlay_def covers_def)
  have "\<forall>x. view s1 x = None \<or> view s1 x = Some (d ! nat x)"
    using Cons.prems(3) by (simp add: c1)
  from Cons.IH[OF _ s1(2) this] Cons.prems(1)
  obtain s' where s': "put_all put fs s1 = Inr s'" "store_inv s'"
    "view s' = (\<lambda>x. if view s1 x \<noteq> None \<or> (\<exists>g \<in> set fs. covers g x) then Some (d ! nat x) else None)"
    by auto
  have "view s' = (\<lambda>x. if view s x \<noteq> None \<or> (\<exists>g \<in> set (f # fs). covers g x) then Some (d ! nat x) else None)"
    by (auto simp: s'(3) c1 f fun_eq_iff)
  then show ?case using s'(1,2) s1(1) f by auto
qed

lemma put_all_from_empty:
  assumes "\<forall>f \<in> set fs. piece_of d f" "store_inv s" "\<And>x. view s x = None"
  shows "\<exists>s'. put_all put fs s = Inr s' \<and> store_inv s' \<and>
    (\<forall>x. view s' x = (if \<exists>f \<in> set fs. covers f x then Some (d ! nat x) else None))"
  using put_all_pieces[OF assms(1,2)] assms(3) by auto

end

interpretation chunk_store: fragment_store replace content buffer_inv
  by unfold_locales (rule replace_correct)

lemma rb_replace_correct:
  assumes "buffer_inv (rb_regions b)" "0 \<le> off" "c \<noteq> []"
  shows "\<exists>b'. rb_replace off c b = Inr b' \<and> buffer_inv (rb_regions b') \<and>
    content (rb_regions b') = overlay off c (content (rb_regions b)) \<and>
    rb_expectedLength b' = rb_expectedLength b"
  using replace_correct[OF assms] by (auto simp: rb_replace_def)

interpretation reassembly_store: fragment_store rb_replace "\<lambda>b. content (rb_regions b)"
  "\<lambda>b. buffer_inv (rb_regions b)"
  using rb_replace_correct by unfold_locales blast

lemma reassembly_complete_iff:
  assumes "\<forall>f \<in> set fs. piece_of d f" "d \<noteq> []" "put_all replace fs [] = Inr rs"
    and b: "rb_regions b = rs" "rb_expectedLength b = int (length d)"
  shows "isComplete b \<longleftrightarrow> (\<forall>i < length d. \<exists>f \<in> set fs. covers f (int i))"
    and "isComplete b \<Longrightarrow> getReassembledData b = Inr d"
proof -
  have inv: "buffer_inv rs"
    and con: "\<And>x. content rs x = (if \<exists>f \<in> set fs. covers f x then Some (d ! nat x) else None)"
    using chunk_store.put_all_from_empty[OF assms(1), of "[]"] assms(3) by auto
  have inside: "0 \<le> x \<and> x < int (length d)" if "f \<in> set fs" "covers f x" for f x
  proof -
    have "piece_of d f" using that(1) assms(1) by blast
    then show ?thesis using piece_of_bounds that(2) by (force simp: covers_def piece_of_def)
  qed
  have "isComplete b \<longleftrightarrow> (\<forall>x. content rs x \<noteq> None \<longleftrightarrow> 0 \<le> x \<and> x < int (length d))"
    using isComplete_iff[of b] inv b assms(2) by simp
  also have "\<dots> \<longleftrightarrow> (\<forall>x. 0 \<le> x \<and> x < int (length d) \<longrightarrow> (\<exists>f \<in> set fs. covers f x))"
    using inside by (auto simp: con)
  also have "\<dots> \<longleftrightarrow> (\<forall>i < length d. \<exists>f \<in> set fs. covers f (int i))"
    by (metis of_nat_0_le_iff of_nat_less_iff zero_le_imp_eq_int)
  finally show iff: "isComplete b \<longleftrightarrow> (\<forall>i < length d. \<exists>f \<in> set fs. covers f (int i))" .
  show "getReassembledData b = Inr d" if "isComplete b"
    using that iff con b by (intro getReassembledData_content) auto
qed

section \<open>ReorderBuffer\<close>

text \<open>
  \<open>popAvailableData(b(-1))\<close> takes everything that is available. A positive length is cut
  out with \<open>peek\<close>, which refuses an empty and an overlong part; the null pointer is \<open>None\<close>.
\<close>

record 'a reorder =
  ro_regions :: "'a regions"
  ro_expectedOffset :: int

definition getAvailableDataLength :: "'a reorder \<Rightarrow> int" where
  "getAvailableDataLength b =
    (if ro_regions b \<noteq> [] \<and> roff (hd (ro_regions b)) = ro_expectedOffset b
     then int (length (rdata (hd (ro_regions b)))) else 0)"

definition popAvailableData :: "int \<Rightarrow> 'a reorder \<Rightarrow> ('a list option \<times> 'a reorder) res" where
  "popAvailableData len b =
    (if ro_regions b \<noteq> [] \<and> roff (hd (ro_regions b)) = ro_expectedOffset b then
       let dat = rdata (hd (ro_regions b));
           dataLength = int (length dat)
       in if len = 0 then Inl (RuntimeError ''Returning an empty chunk is not allowed'')
          else if len > dataLength then Inl (CheckFailed ''peek'')
          else let dat' = (if len \<noteq> -1 then peek_at 0 (nat \<bar>len\<bar>) dat else dat);
                   dataLength = (if len \<noteq> -1 then len else dataLength)
          in bindE (clear (ro_expectedOffset b) dataLength (ro_regions b)) (\<lambda>rs.
               Inr (Some dat', b\<lparr>ro_regions := rs, ro_expectedOffset := ro_expectedOffset b + dataLength\<rparr>))
     else Inr (None, b))"

lemma content_head:
  assumes "buffer_inv rs" "rs \<noteq> []" "i < length (rdata (hd rs))"
  shows "content rs (roff (hd rs) + int i) = Some (rdata (hd rs) ! i)"
  using assms by (cases rs) (auto simp: region_content_def rend_def)

lemma popAvailableData_spec:
  assumes inv: "buffer_inv (ro_regions b)" and off: "0 \<le> ro_expectedOffset b"
    and len: "len = -1 \<or> 0 < len \<and> len \<le> getAvailableDataLength b"
    and avail: "getAvailableDataLength b \<noteq> 0"
  shows "\<exists>d b'. popAvailableData len b = Inr (Some d, b') \<and> buffer_inv (ro_regions b') \<and>
    int (length d) = (if len = -1 then getAvailableDataLength b else len) \<and>
    ro_expectedOffset b' = ro_expectedOffset b + int (length d) \<and>
    (\<forall>i < length d. content (ro_regions b) (ro_expectedOffset b + int i) = Some (d ! i)) \<and>
    (\<forall>x. content (ro_regions b') x =
       (if ro_expectedOffset b \<le> x \<and> x < ro_expectedOffset b' then None else content (ro_regions b) x))"
proof -
  let ?rs = "ro_regions b" and ?o = "ro_expectedOffset b"
  have hd: "?rs \<noteq> []" "roff (hd ?rs) = ?o"
    and al: "getAvailableDataLength b = int (length (rdata (hd ?rs)))"
    using avail by (simp_all add: getAvailableDataLength_def split: if_splits)
  define n where "n = (if len = -1 then int (length (rdata (hd ?rs))) else len)"
  define d where "d = peek_at 0 (nat n) (rdata (hd ?rs))"
  have n: "0 < n" "n \<le> int (length (rdata (hd ?rs)))" using len avail al by (auto simp: n_def)
  obtain rs' where rs': "clear ?o n ?rs = Inr rs'" "buffer_inv rs'"
    "content rs' = (\<lambda>x. if ?o \<le> x \<and> x < ?o + n then None else content ?rs x)"
    using clear_correct[OF inv off n(1)] by blast
  define b' where "b' = b\<lparr>ro_regions := rs', ro_expectedOffset := ?o + n\<rparr>"
  have ld: "int (length d) = n" using n by (simp add: d_def)
  have nth: "d ! i = rdata (hd ?rs) ! i" if "i < length d" for i
    using that n by (simp add: d_def peek_at_def)
  have "popAvailableData len b = Inr (Some d, b')"
    using hd len al n rs'(1)
    by (auto simp: popAvailableData_def Let_def n_def d_def b'_def bindE_eq_Inr)
  moreover have "\<forall>i < length d. content ?rs (?o + int i) = Some (d ! i)"
    using content_head[OF inv hd(1)] hd(2) nth ld n by (metis of_nat_less_iff order_less_le_trans)
  ultimately show ?thesis
    using rs'(2,3) ld al n_def
    by (intro exI[of _ d] exI[of _ b']) (auto simp: b'_def)
qed

section \<open>Properties\<close>

text \<open>C24: \<open>ChunkBuffer::replace\<close> overlays the stored bytes with the new chunk and keeps the
  regions non-empty, ordered and separated by gaps; a negative offset or an empty chunk is
  the usage error of the code.\<close>

theorem replace_overlays:
  assumes "buffer_inv rs"
  shows "if offset < 0 then replace offset chunk rs = Inl (CheckFailed ''offset is invalid'')
    else if chunk = [] then replace offset chunk rs = Inl (CheckFailed ''chunk is empty'')
    else (\<exists>rs'. replace offset chunk rs = Inr rs' \<and> buffer_inv rs' \<and>
            content rs' = overlay offset chunk (content rs))"
  using replace_correct[OF assms] by (auto simp: replace_def replace_with_def)

theorem replace_overlays_witness:
  "\<exists>rs'. replace 2 [7, 8, 9::nat] [mk_region 0 [1, 2, 3], mk_region 6 [6]] = Inr rs' \<and> buffer_inv rs' \<and>
     content rs' = overlay 2 [7, 8, 9] (content [mk_region 0 [1, 2, 3], mk_region 6 [6]])"
  using replace_overlays[of "[mk_region 0 [1, 2, 3], mk_region 6 [6::nat]]" 2 "[7, 8, 9]"]
  by (simp add: buffer_inv_Cons region_ok_def)

text \<open>which of the two neighbouring chunks absorbs the other (the answers of the virtual
  functions \<open>canInsertAtBack\<close> and \<open>canInsertAtFront\<close>) never changes the buffer.\<close>

theorem replace_merge_choice:
  assumes "buffer_inv rs"
  shows "replace_with canB canF offset chunk rs = replace_with canB' canF' offset chunk rs"
  using replace_with_indep[OF assms] by simp

theorem replace_merge_choice_witness:
  "replace_with (\<lambda>_ _. False) (\<lambda>_ _. True) 2 [3] [mk_region 0 [1, 2::nat], mk_region 3 [4]]
   = replace_with (\<lambda>_ _. True) (\<lambda>_ _. False) 2 [3] [mk_region 0 [1, 2], mk_region 3 [4]]"
  by (rule replace_merge_choice) (simp add: buffer_inv_Cons region_ok_def)

text \<open>C15: fragments of one datagram that arrive in any order, repeated or overlapping, are
  accepted; the buffer is complete exactly when every byte has arrived, and then it returns
  the datagram.\<close>

theorem reassembly_any_order:
  assumes "\<forall>f \<in> set fs. piece_of d f" "d \<noteq> []"
  shows "\<exists>b. put_all rb_replace fs (setExpectedLength (int (length d)) new_reassembly) = Inr b \<and>
    buffer_inv (rb_regions b) \<and>
    (isComplete b \<longleftrightarrow> (\<forall>i < length d. \<exists>f \<in> set fs. covers f (int i))) \<and>
    getReassembledData b = (if isComplete b then Inr d
                            else Inl (RuntimeError ''Reassembly is incomplete''))"
proof -
  have rb: "put_all rb_replace fs b0 = bindE (put_all replace fs (rb_regions b0)) (\<lambda>rs. Inr (b0\<lparr>rb_regions := rs\<rparr>))"
    for b0 :: "'a reassembly"
    by (induction fs arbitrary: b0) (auto simp: rb_replace_def bindE_assoc split: sum.split)
  obtain rs where rs: "put_all replace fs [] = Inr rs" "buffer_inv rs"
    using chunk_store.put_all_from_empty[OF assms(1), of "[]"] by auto
  define b where "b = setExpectedLength (int (length d)) new_reassembly\<lparr>rb_regions := rs\<rparr>"
  have b: "rb_regions b = rs" "rb_expectedLength b = int (length d)"
    by (simp_all add: b_def setExpectedLength_def)
  have "put_all rb_replace fs (setExpectedLength (int (length d)) new_reassembly) = Inr b"
    using rs(1) by (simp add: rb b_def setExpectedLength_def new_reassembly_def)
  then show ?thesis
    using reassembly_complete_iff[OF assms rs(1) b] rs(2) b
    by (auto simp: getReassembledData_def)
qed

theorem reassembly_any_order_witness:
  "\<exists>b. put_all rb_replace [(3, [4, 5]), (0, [1, 2]), (3, [4]), (1, [2, 3])]
         (setExpectedLength 5 new_reassembly) = Inr b \<and>
       isComplete b \<and> getReassembledData b = Inr [1, 2, 3, 4, 5::nat]"
proof -
  have cov: "\<forall>i < length [1, 2, 3, 4, 5::nat].
      \<exists>f \<in> set [(3, [4, 5]), (0, [1, 2]), (3, [4]), (1, [2, 3::nat])]. covers f (int i)"
    by (simp add: covers_def less_Suc_eq)
  show ?thesis
    using cov reassembly_any_order[of "[(3, [4, 5]), (0, [1, 2]), (3, [4]), (1, [2, 3])]" "[1, 2, 3, 4, 5::nat]"]
    by (auto simp: piece_of_def peek_at_def)
qed

text \<open>\<open>ReorderBuffer::popAvailableData\<close> returns the stored bytes from the expected offset
  on (all that are available, or the length asked for), removes exactly those and advances
  the expected offset by their number; with nothing available it changes nothing.\<close>

theorem popAvailableData_in_order:
  assumes inv: "buffer_inv (ro_regions b)" and off: "0 \<le> ro_expectedOffset b"
    and len: "len = -1 \<or> 0 < len \<and> len \<le> getAvailableDataLength b"
  shows "if getAvailableDataLength b = 0 then popAvailableData len b = Inr (None, b)
    else \<exists>d b'. popAvailableData len b = Inr (Some d, b') \<and> buffer_inv (ro_regions b') \<and>
      int (length d) = (if len = -1 then getAvailableDataLength b else len) \<and>
      ro_expectedOffset b' = ro_expectedOffset b + int (length d) \<and>
      (\<forall>i < length d. content (ro_regions b) (ro_expectedOffset b + int i) = Some (d ! i)) \<and>
      (\<forall>x. content (ro_regions b') x =
         (if ro_expectedOffset b \<le> x \<and> x < ro_expectedOffset b' then None else content (ro_regions b) x))"
proof (cases "getAvailableDataLength b = 0")
  case True
  have "\<not> (ro_regions b \<noteq> [] \<and> roff (hd (ro_regions b)) = ro_expectedOffset b)"
    using True inv by (cases "ro_regions b") (auto simp: getAvailableDataLength_def buffer_inv_Cons region_ok_def)
  then show ?thesis using True by (auto simp: popAvailableData_def)
next
  case False
  then show ?thesis using popAvailableData_spec[OF inv off len False] by simp
qed

theorem popAvailableData_in_order_witness:
  "\<exists>d b'. popAvailableData 2 \<lparr>ro_regions = [mk_region 4 [10, 11, 12::nat]], ro_expectedOffset = 4\<rparr>
     = Inr (Some d, b') \<and> int (length d) = 2 \<and> ro_expectedOffset b' = 6"
  using popAvailableData_in_order[of "\<lparr>ro_regions = [mk_region 4 [10, 11, 12::nat]], ro_expectedOffset = 4\<rparr>" 2]
  by (auto simp: buffer_inv_Cons region_ok_def getAvailableDataLength_def)

end
