(* ===== verification/Frag_Bufs.thy ===== *)
theory Frag_Bufs
  imports Chunk_Buffer Packets "HOL-Library.Product_Lexorder"
begin

text \<open>
  The reassembly buffers: \<open>Ipv4FragBuf\<close> (\<open>networklayer/ipv4\<close>), \<open>RdmaAppFragBuf\<close>
  (\<open>applications/rdmaapp/fragBuff\<close>), \<open>UdpFragBuf\<close> (\<open>transportlayer/udp\<close>) and \<open>UdpAppFragBuf\<close>
  (\<open>applications/udpapp/fragBuff\<close>). The four \<open>addFragment\<close> functions are the same text up
  to the header class, the key, the lengths and the name marker; the common text is
  \<open>addFragment_with\<close> and each class is an instance of it. The map of buffers is a list of
  entries in key order. A locale states what a class must provide for the common text to
  reassemble, and it is interpreted for each of the four classes.
\<close>

section \<open>Keys\<close>

text \<open>\<open>Ipv4FragBuf::Key\<close> and its \<open>operator<\<close>; the other classes have ports instead of addresses.\<close>

datatype ipv4_key = Ipv4Key (ik_id: "16 word") (ik_src: ipv4_address) (ik_dest: ipv4_address)

definition ipv4_key_less :: "ipv4_key \<Rightarrow> ipv4_key \<Rightarrow> bool" where
  "ipv4_key_less a b \<longleftrightarrow>
    (if ik_id a \<noteq> ik_id b then ik_id a < ik_id b
     else if ik_src a \<noteq> ik_src b then ik_src a < ik_src b
     else ik_dest a < ik_dest b)"

instantiation ipv4_key :: linorder
begin

definition less_eq_ipv4_key :: "ipv4_key \<Rightarrow> ipv4_key \<Rightarrow> bool" where
  "less_eq_ipv4_key a b \<longleftrightarrow> (ik_id a, ik_src a, ik_dest a) \<le> (ik_id b, ik_src b, ik_dest b)"

definition less_ipv4_key :: "ipv4_key \<Rightarrow> ipv4_key \<Rightarrow> bool" where
  "less_ipv4_key = ipv4_key_less"

instance
proof
  fix x y z :: ipv4_key
  show "x < y \<longleftrightarrow> x \<le> y \<and> \<not> y \<le> x"
    by (auto simp: less_eq_ipv4_key_def less_ipv4_key_def ipv4_key_less_def)
  show "x \<le> x" by (simp add: less_eq_ipv4_key_def)
  show "x \<le> y \<Longrightarrow> y \<le> z \<Longrightarrow> x \<le> z"
    unfolding less_eq_ipv4_key_def by (rule order_trans)
  show "x \<le> y \<Longrightarrow> y \<le> x \<Longrightarrow> x = y"
    unfolding less_eq_ipv4_key_def by (rule ipv4_key.expand) (metis Pair_inject antisym)
  show "x \<le> y \<or> y \<le> x" unfolding less_eq_ipv4_key_def by (rule linear)
qed

end

datatype port_key = PortKey (pk_id: "16 word") (pk_localPort: int) (pk_remotePort: int)

definition port_key_less :: "port_key \<Rightarrow> port_key \<Rightarrow> bool" where
  "port_key_less a b \<longleftrightarrow>
    (if pk_id a \<noteq> pk_id b then pk_id a < pk_id b
     else if pk_localPort a \<noteq> pk_localPort b then pk_localPort a < pk_localPort b
     else pk_remotePort a < pk_remotePort b)"

instantiation port_key :: linorder
begin

definition less_eq_port_key :: "port_key \<Rightarrow> port_key \<Rightarrow> bool" where
  "less_eq_port_key a b \<longleftrightarrow> (pk_id a, pk_localPort a, pk_remotePort a) \<le> (pk_id b, pk_localPort b, pk_remotePort b)"

definition less_port_key :: "port_key \<Rightarrow> port_key \<Rightarrow> bool" where
  "less_port_key = port_key_less"

instance
proof
  fix x y z :: port_key
  show "x < y \<longleftrightarrow> x \<le> y \<and> \<not> y \<le> x"
    by (auto simp: less_eq_port_key_def less_port_key_def port_key_less_def)
  show "x \<le> x" by (simp add: less_eq_port_key_def)
  show "x \<le> y \<Longrightarrow> y \<le> z \<Longrightarrow> x \<le> z"
    unfolding less_eq_port_key_def by (rule order_trans)
  show "x \<le> y \<Longrightarrow> y \<le> x \<Longrightarrow> x = y"
    unfolding less_eq_port_key_def by (rule port_key.expand) (metis Pair_inject antisym)
  show "x \<le> y \<or> y \<le> x" unfolding less_eq_port_key_def by (rule linear)
qed

end

section \<open>The common text\<close>

record datagram_buffer =
  db_buf :: "cell reassembly"
  db_packet :: "packet option"
  db_lastupdate :: simtime

definition new_datagram_buffer :: datagram_buffer where
  "new_datagram_buffer = \<lparr>db_buf = new_reassembly, db_packet = None, db_lastupdate = 0\<rparr>"

type_synonym 'k frag_bufs = "('k \<times> datagram_buffer) list"

text \<open>
  What a class reads of a fragment: the key, the fragment offset, \<open>moreFragments\<close>, where the
  payload starts in the packet and its length in bytes.
\<close>

record 'k frag_info =
  fi_key :: 'k
  fi_offset :: int
  fi_more :: bool
  fi_start :: int
  fi_bytes :: int

definition addFragment_with ::
  "(header \<Rightarrow> 'h option) \<Rightarrow> ('h \<Rightarrow> header) \<Rightarrow> ('h \<Rightarrow> packet \<Rightarrow> 'k::linorder frag_info res) \<Rightarrow>
   ('h \<Rightarrow> int \<Rightarrow> 'h) \<Rightarrow> string \<Rightarrow> packet \<Rightarrow> simtime \<Rightarrow> 'k frag_bufs \<Rightarrow> (packet option \<times> 'k frag_bufs) res" where
  "addFragment_with as wrap info finish marker p now bufs =
    bindE (peekAtFront as p) (\<lambda>h.
    bindE (info h p) (\<lambda>i.
      let key = fi_key i;
          curBuf = (case map_of bufs key of None \<Rightarrow> new_datagram_buffer | Some b \<Rightarrow> b)
      in
      bindE (peekDataAt (fi_start i) (fi_bytes i) p) (\<lambda>chunk.
      bindE (rb_replace (fi_offset i) chunk (db_buf curBuf)) (\<lambda>buf.
        let buf = (if \<not> fi_more i then setExpectedLength (fi_offset i + fi_bytes i) buf else buf);
            pkt = (case db_packet curBuf of None \<Rightarrow> p | Some q \<Rightarrow> if fi_offset i = 0 then p else q)
        in
        if isComplete buf then
          bindE (peekAtFront as pkt) (\<lambda>hdr.
          bindE (getReassembledData buf) (\<lambda>payload.
          bindE (insertAtFront (header_cells (wrap (finish hdr (int (length payload)))))
                   (removeAll (pkt\<lparr>pk_name := cut_at marker (pk_name pkt)\<rparr>))) (\<lambda>pk.
          bindE (insertAtBack payload pk) (\<lambda>pk.
            Inr (Some pk, map_erase key bufs)))))
        else
          Inr (None, map_insert key
                 (curBuf\<lparr>db_buf := buf, db_packet := Some pkt, db_lastupdate := now\<rparr>) bufs)))))"

definition flush :: "'k frag_bufs \<Rightarrow> 'k frag_bufs" where
  "flush bufs = []"

section \<open>The four classes\<close>

subsection \<open>Ipv4FragBuf\<close>

definition ipv4_frag_info :: "ipv4_header \<Rightarrow> packet \<Rightarrow> ipv4_key frag_info res" where
  "ipv4_frag_info h p =
    (if \<not> ih_totalLength h > ih_headerLength h then Inl (AssertFailed ''getTotalLengthField() > getHeaderLength()'')
     else Inr \<lparr>fi_key = Ipv4Key (ih_identification h) (ih_srcAddress h) (ih_destAddress h),
               fi_offset = ih_fragmentOffset h, fi_more = ih_moreFragments h,
               fi_start = ih_headerLength h, fi_bytes = ih_totalLength h - ih_headerLength h\<rparr>)"

definition ipv4_frag_finish :: "ipv4_header \<Rightarrow> int \<Rightarrow> ipv4_header" where
  "ipv4_frag_finish h n =
    h\<lparr>ih_totalLength := ih_headerLength h + n, ih_fragmentOffset := 0, ih_moreFragments := False\<rparr>"

definition ipv4_addFragment ::
  "packet \<Rightarrow> simtime \<Rightarrow> ipv4_key frag_bufs \<Rightarrow> (packet option \<times> ipv4_key frag_bufs) res" where
  "ipv4_addFragment = addFragment_with as_ipv4 Ipv4H ipv4_frag_info ipv4_frag_finish ''-frag2-''"

text \<open>
  \<open>purgeStaleFragments\<close> walks over the map; for a stale buffer that holds a packet it sends
  ICMP TIME EXCEEDED about it. The result is the list of those packets, in the order of
  sending, and the buffers that are left.
\<close>

fun purgeStaleFragments :: "simtime \<Rightarrow> 'k frag_bufs \<Rightarrow> packet list \<times> 'k frag_bufs" where
  "purgeStaleFragments lastupdate [] = ([], [])"
| "purgeStaleFragments lastupdate ((key, buf) # bufs) =
    (case purgeStaleFragments lastupdate bufs of (icmp, rest) \<Rightarrow>
       if db_lastupdate buf < lastupdate then
         (case db_packet buf of Some p \<Rightarrow> (p # icmp, rest) | None \<Rightarrow> (icmp, rest))
       else (icmp, (key, buf) # rest))"

subsection \<open>RdmaAppFragBuf\<close>

text \<open>
  The assertion compares with \<open>rdmaHeader->getHeaderLength()\<close>, which \<open>RdmaHeader\<close> does not
  declare (an \<open>ASSERT\<close> is compiled away in release mode); the constant the next line uses
  is taken for it.
\<close>

definition rdma_frag_info :: "rdma_header \<Rightarrow> packet \<Rightarrow> port_key frag_info res" where
  "rdma_frag_info h p =
    (if \<not> rh_totalLength h > 8 then Inl (AssertFailed ''getTotalLengthField() > getHeaderLength()'')
     else Inr \<lparr>fi_key = PortKey (rh_identification h) (uint (rh_srcPort h)) (uint (rh_destPort h)),
               fi_offset = rh_fragmentOffset h, fi_more = rh_moreFragments h,
               fi_start = 8, fi_bytes = rh_totalLength h - 8\<rparr>)"

definition rdma_frag_finish :: "rdma_header \<Rightarrow> int \<Rightarrow> rdma_header" where
  "rdma_frag_finish h n = (rdma_dup h)\<lparr>rh_totalLength := 8 + n, rh_fragmentOffset := 0, rh_moreFragments := False\<rparr>"

definition rdma_addFragment ::
  "packet \<Rightarrow> simtime \<Rightarrow> port_key frag_bufs \<Rightarrow> (packet option \<times> port_key frag_bufs) res" where
  "rdma_addFragment = addFragment_with as_rdma RdmaH rdma_frag_info rdma_frag_finish ''-frag-''"

subsection \<open>UdpFragBuf\<close>

definition udp_frag_info :: "udp_header \<Rightarrow> packet \<Rightarrow> port_key frag_info res" where
  "udp_frag_info h p =
    (if \<not> uh_totalLength h > 8 then Inl (AssertFailed ''getTotalLengthField() > UDP_HEADER_LENGTH'')
     else Inr \<lparr>fi_key = PortKey (uh_identification h) (uint (uh_srcPort h)) (uint (uh_destPort h)),
               fi_offset = uint (uh_fragmentOffset h), fi_more = uh_moreFragments h,
               fi_start = 8, fi_bytes = uh_totalLength h - 8\<rparr>)"

definition udp_frag_finish :: "udp_header \<Rightarrow> int \<Rightarrow> udp_header" where
  "udp_frag_finish h n = (udp_dup h)\<lparr>uh_totalLength := 8 + n, uh_fragmentOffset := 0, uh_moreFragments := False\<rparr>"

definition udp_addFragment ::
  "packet \<Rightarrow> simtime \<Rightarrow> port_key frag_bufs \<Rightarrow> (packet option \<times> port_key frag_bufs) res" where
  "udp_addFragment = addFragment_with as_udp UdpH udp_frag_info udp_frag_finish ''-frag-''"

subsection \<open>UdpAppFragBuf\<close>

text \<open>
  The ports of the key keep their default value \<open>-1\<close>; the id is cut to 16 bits. An id that was
  never set is read as garbage; that is an error here. The payload is the whole packet, its
  application header included.
\<close>

definition app_frag_info :: "app_header \<Rightarrow> packet \<Rightarrow> port_key frag_info res" where
  "app_frag_info h p =
    (case ah_id h of
       None \<Rightarrow> Inl (RuntimeError ''id is not initialized'')
     | Some i \<Rightarrow>
       if \<not> dataLength p > 0 then Inl (AssertFailed ''packet->getByteLength() > 0'')
       else Inr \<lparr>fi_key = PortKey (of_int i) (-1) (-1),
               fi_offset = uint (ah_fragmentOffset h), fi_more = ah_moreFragments h,
               fi_start = 0, fi_bytes = int (dataLength p)\<rparr>)"

definition app_frag_finish :: "app_header \<Rightarrow> int \<Rightarrow> app_header" where
  "app_frag_finish h n = (app_dup h)\<lparr>ah_totalLength := n, ah_fragmentOffset := 0, ah_moreFragments := False\<rparr>"

definition udpApp_addFragment ::
  "packet \<Rightarrow> simtime \<Rightarrow> port_key frag_bufs \<Rightarrow> (packet option \<times> port_key frag_bufs) res" where
  "udpApp_addFragment = addFragment_with as_app AppH app_frag_info app_frag_finish ''-frag-''"

section \<open>Reassembly\<close>

text \<open>
  \<open>fragment_of\<close>: packet \<open>p\<close> is a fragment of the payload \<open>d\<close> stored under \<open>key\<close>: its payload
  bytes are those of \<open>d\<close> at its offset, and it is the last one exactly when it reaches the
  end of \<open>d\<close>.
\<close>

definition fragment_of ::
  "(header \<Rightarrow> 'h option) \<Rightarrow> ('h \<Rightarrow> packet \<Rightarrow> 'k frag_info res) \<Rightarrow> 'k \<Rightarrow> cell list \<Rightarrow> packet \<Rightarrow> int \<times> cell list \<Rightarrow> bool" where
  "fragment_of as info key d p f \<longleftrightarrow>
    (\<exists>h i. peekAtFront as p = Inr h \<and> info h p = Inr i \<and> fi_key i = key \<and>
       fi_offset i = fst f \<and> peekDataAt (fi_start i) (fi_bytes i) p = Inr (snd f) \<and>
       fi_bytes i = int (length (snd f)) \<and> piece_of d f \<and>
       (fi_more i \<longleftrightarrow> fst f + int (length (snd f)) < int (length d)))"

definition covered :: "(int \<times> cell list) set \<Rightarrow> cell list \<Rightarrow> bool" where
  "covered F d \<longleftrightarrow> (\<forall>i < length d. \<exists>f \<in> F. covers f (int i))"

text \<open>
  The state of the buffer of \<open>key\<close> after the fragments \<open>F\<close> of \<open>d\<close> have arrived and the datagram
  is still incomplete.
\<close>

definition progress ::
  "(header \<Rightarrow> 'h option) \<Rightarrow> 'k \<Rightarrow> cell list \<Rightarrow> (int \<times> cell list) set \<Rightarrow> 'h set \<Rightarrow> 'k frag_bufs \<Rightarrow> bool" where
  "progress as key d F H bufs \<longleftrightarrow>
    (if F = {} then map_of bufs key = None
     else \<exists>b q h. map_of bufs key = Some b \<and> db_packet b = Some q \<and> peekAtFront as q = Inr h \<and> h \<in> H \<and>
        buffer_inv (rb_regions (db_buf b)) \<and>
        (\<forall>x. content (rb_regions (db_buf b)) x = (if \<exists>f \<in> F. covers f x then Some (d ! nat x) else None)) \<and>
        rb_expectedLength (db_buf b)
          = (if \<exists>f \<in> F. fst f + int (length (snd f)) = int (length d) then int (length d) else -1))"

lemma isComplete_negative: "rb_expectedLength b < 0 \<Longrightarrow> \<not> isComplete b"
  by (auto simp: isComplete_def split: list.splits)

lemma covered_last:
  assumes "covered F d" "d \<noteq> []" "\<forall>f \<in> F. piece_of d f"
  shows "\<exists>f \<in> F. fst f + int (length (snd f)) = int (length d)"
proof -
  have "length d - 1 < length d" using assms(2) by simp
  then obtain f where f: "f \<in> F" "covers f (int (length d - 1))" using assms(1) unfolding covered_def by blast
  have "fst f + int (length (snd f)) \<le> int (length d)" using piece_of_bounds f(1) assms(3) by blast
  moreover have "int (length d - 1) < fst f + int (length (snd f))" using f(2) by (simp add: covers_def)
  ultimately have "fst f + int (length (snd f)) = int (length d)" using assms(2) by (cases d) auto
  then show ?thesis using f(1) by blast
qed

lemma covered_iff_content:
  assumes "\<forall>f \<in> F. piece_of d f"
    and "\<forall>x. content rs x = (if \<exists>f \<in> F. covers f x then Some (d ! nat x) else None)"
  shows "(\<forall>x. content rs x \<noteq> None \<longleftrightarrow> 0 \<le> x \<and> x < int (length d)) \<longleftrightarrow> covered F d"
proof -
  have inside: "0 \<le> x \<and> x < int (length d)" if "f \<in> F" "covers f x" for f x
    using piece_of_bounds[of d f] that assms(1) by (force simp: covers_def piece_of_def)
  have "(\<forall>x. content rs x \<noteq> None \<longleftrightarrow> 0 \<le> x \<and> x < int (length d))
      \<longleftrightarrow> (\<forall>x. 0 \<le> x \<and> x < int (length d) \<longrightarrow> (\<exists>f \<in> F. covers f x))"
    using inside by (auto simp: assms(2))
  also have "\<dots> \<longleftrightarrow> covered F d"
    unfolding covered_def by (metis of_nat_0_le_iff of_nat_less_iff zero_le_imp_eq_int)
  finally show ?thesis .
qed

text \<open>A run of \<open>addFragment\<close> calls: the packets returned, and the buffers after it.\<close>

fun add_all :: "(packet \<Rightarrow> simtime \<Rightarrow> 'b \<Rightarrow> (packet option \<times> 'b) res) \<Rightarrow>
    (packet \<times> simtime) list \<Rightarrow> 'b \<Rightarrow> (packet option list \<times> 'b) res" where
  "add_all add [] bufs = Inr ([], bufs)"
| "add_all add ((p, now) # ps) bufs =
    bindE (add p now bufs) (\<lambda>(r, bufs). bindE (add_all add ps bufs) (\<lambda>(rs, bufs). Inr (r # rs, bufs)))"

text \<open>The contract of a header class with the common text.\<close>

locale frag_class =
  fixes as :: "header \<Rightarrow> 'h option"
    and wrap :: "'h \<Rightarrow> header"
    and info :: "'h \<Rightarrow> packet \<Rightarrow> 'k::linorder frag_info res"
    and finish :: "'h \<Rightarrow> int \<Rightarrow> 'h"
    and marker :: string
  assumes as_wrap: "as g = Some h \<Longrightarrow> g = wrap h"
    and wrap_as: "as (wrap h) = Some h"
    and finish_length: "header_length (wrap (finish h n)) = header_length (wrap h)"
begin

lemma peekAtFront_length:
  assumes "peekAtFront as p = Inr h" "0 < header_length (wrap h)"
  shows "\<exists>xs. pk_data p = header_cells (wrap h) @ xs"
  using assms as_wrap header_at_Some[of "pk_data p" "wrap h"]
  by (auto simp: peekAtFront_def split: option.splits)

lemma addFragment_step:
  assumes ok: "map_ok bufs" and d: "d \<noteq> []"
    and p: "fragment_of as info key d p f"
    and prog: "progress as key d F H bufs"
    and F: "\<forall>f \<in> F. piece_of d f"
    and H: "\<forall>h \<in> insert h0 H. 0 < header_length (wrap h)"
    and h0: "peekAtFront as p = Inr h0"
  shows "\<exists>bufs'. map_ok bufs' \<and> (\<forall>k. k \<noteq> key \<longrightarrow> map_of bufs' k = map_of bufs k) \<and>
    (if covered (insert f F) d
     then \<exists>q h. addFragment_with as wrap info finish marker p now bufs = Inr (Some q, bufs') \<and>
            map_of bufs' key = None \<and> packet_ok q \<and> h \<in> insert h0 H \<and>
            pk_data q = header_cells (wrap (finish h (int (length d)))) @ d
     else addFragment_with as wrap info finish marker p now bufs = Inr (None, bufs') \<and>
            progress as key d (insert f F) (insert h0 H) bufs')"
proof -
  obtain i where i: "info h0 p = Inr i" "fi_key i = key" "fi_offset i = fst f"
    "peekDataAt (fi_start i) (fi_bytes i) p = Inr (snd f)" "fi_bytes i = int (length (snd f))"
    "piece_of d f" "fi_more i \<longleftrightarrow> fst f + int (length (snd f)) < int (length d)"
    using p h0 by (auto simp: fragment_of_def)
  define cur where "cur = (case map_of bufs key of None \<Rightarrow> new_datagram_buffer | Some b \<Rightarrow> b)"
  have cur: "buffer_inv (rb_regions (db_buf cur)) \<and>
      (\<forall>x. content (rb_regions (db_buf cur)) x = (if \<exists>f \<in> F. covers f x then Some (d ! nat x) else None)) \<and>
      rb_expectedLength (db_buf cur)
        = (if \<exists>f \<in> F. fst f + int (length (snd f)) = int (length d) then int (length d) else -1) \<and>
      (\<forall>q. db_packet cur = Some q \<longrightarrow> (\<exists>h \<in> H. peekAtFront as q = Inr h))"
    using prog by (auto simp: progress_def cur_def new_datagram_buffer_def new_reassembly_def split: if_splits)
  have off: "0 \<le> fst f" "snd f \<noteq> []" using i(6) by (simp_all add: piece_of_def)
  obtain b1 where b1: "rb_replace (fst f) (snd f) (db_buf cur) = Inr b1" "buffer_inv (rb_regions b1)"
    "content (rb_regions b1) = overlay (fst f) (snd f) (content (rb_regions (db_buf cur)))"
    "rb_expectedLength b1 = rb_expectedLength (db_buf cur)"
    using rb_replace_correct[of "db_buf cur", OF _ off] cur by blast
  have con: "\<forall>x. content (rb_regions b1) x = (if \<exists>g \<in> insert f F. covers g x then Some (d ! nat x) else None)"
    using piece_of_nth[OF i(6)] cur by (auto simp: b1(3) overlay_def covers_def)
  define b2 where "b2 = (if \<not> fi_more i then setExpectedLength (fi_offset i + fi_bytes i) b1 else b1)"
  have b2r: "rb_regions b2 = rb_regions b1" by (simp add: b2_def setExpectedLength_def)
  have ins: "\<forall>g \<in> insert f F. piece_of d g" using F i(6) by blast
  have exp: "rb_expectedLength b2
      = (if \<exists>g \<in> insert f F. fst g + int (length (snd g)) = int (length d) then int (length d) else -1)"
    using i(3,5,7) cur b1(4) piece_of_bounds[OF i(6)] by (auto simp: b2_def setExpectedLength_def)
  have compl: "isComplete b2 \<longleftrightarrow> covered (insert f F) d"
  proof (cases "\<exists>g \<in> insert f F. fst g + int (length (snd g)) = int (length d)")
    case True
    then have e: "rb_expectedLength b2 = int (length d)" using exp by simp
    then have "isComplete b2 \<longleftrightarrow> (\<forall>x. content (rb_regions b1) x \<noteq> None \<longleftrightarrow> 0 \<le> x \<and> x < int (length d))"
      using isComplete_iff[of b2] b1(2) b2r d by simp
    then show ?thesis using covered_iff_content[OF ins con] by simp
  next
    case False
    then have "rb_expectedLength b2 = -1" using exp by (simp del: insert_iff)
    then show ?thesis using isComplete_negative[of b2] covered_last[OF _ d ins] False by auto
  qed
  define pkt where "pkt = (case db_packet cur of None \<Rightarrow> p | Some q \<Rightarrow> if fi_offset i = 0 then p else q)"
  have "\<exists>h \<in> insert h0 H. peekAtFront as pkt = Inr h"
    using cur h0 by (cases "db_packet cur") (auto simp: pkt_def)
  then obtain h where h: "peekAtFront as pkt = Inr h" "h \<in> insert h0 H" by blast
  note unf = addFragment_with_def h0 i(1,2,4) bindE_simps Let_def cur_def[symmetric] i(3) b1(1)
  show ?thesis
  proof (cases "covered (insert f F) d")
    case True
    then have c: "isComplete b2" using compl by simp
    have "rb_expectedLength b2 = int (length d)" using exp covered_last[OF True d ins] by simp
    moreover have "\<forall>j < length d. content (rb_regions b2) (int j) = Some (d ! j)"
      using con True b2r by (auto simp: covered_def)
    ultimately have data: "getReassembledData b2 = Inr d" using getReassembledData_content[OF c] by blast
    let ?r = "removeAll (pkt\<lparr>pk_name := cut_at marker (pk_name pkt)\<rparr>)"
    let ?hc = "header_cells (wrap (finish h (int (length d))))"
    have "0 < header_length (wrap h)" using H h(2) by blast
    then have "0 < header_length (wrap (finish h (int (length d))))" using finish_length by simp
    then have hc: "?hc \<noteq> []" using length_header_cells by (metis length_greater_0_conv)
    obtain q1 where q1: "insertAtFront ?hc ?r = Inr q1"
      using insertAtFront_eq[of ?r, OF removeAll_ok(1) hc] by blast
    then have q1k: "packet_ok q1" "pk_data q1 = ?hc"
      using insertAtFront_ok[OF removeAll_ok(1) hc q1] by simp_all
    obtain q where q: "insertAtBack d q1 = Inr q" using insertAtBack_eq[OF q1k(1) d] by blast
    then have qk: "packet_ok q" "pk_data q = ?hc @ d" using insertAtBack_ok[OF q1k(1) d q] q1k(2) by simp_all
    have "addFragment_with as wrap info finish marker p now bufs = Inr (Some q, map_erase key bufs)"
      using c data q1 q h(1) unfolding b2_def pkt_def by (simp add: unf)
    moreover have "map_ok (map_erase key bufs)" "map_of (map_erase key bufs) key = None"
      "\<forall>k. k \<noteq> key \<longrightarrow> map_of (map_erase key bufs) k = map_of bufs k"
      using ok std_map.get_del_same std_map.get_del_other by (auto simp: map_ok_erase)
    ultimately show ?thesis using True qk h(2) by auto
  next
    case False
    then have c: "\<not> isComplete b2" using compl by simp
    define nb where "nb = cur\<lparr>db_buf := b2, db_packet := Some pkt, db_lastupdate := now\<rparr>"
    have "addFragment_with as wrap info finish marker p now bufs = Inr (None, map_insert key nb bufs)"
      using c unfolding b2_def pkt_def nb_def by (simp add: unf)
    moreover have "map_ok (map_insert key nb bufs)" "map_of (map_insert key nb bufs) key = Some nb"
      "\<forall>k. k \<noteq> key \<longrightarrow> map_of (map_insert key nb bufs) k = map_of bufs k"
      using ok std_map.get_put_same std_map.get_put_other by (auto simp: map_ok_insert)
    moreover have "progress as key d (insert f F) (insert h0 H) (map_insert key nb bufs)"
      unfolding progress_def using calculation(3) h con b1(2) b2r exp
      by (simp add: nb_def del: bex_simps insert_iff)
    ultimately show ?thesis using False by auto
  qed
qed

lemma add_all_complete:
  assumes "ps \<noteq> []" "length fs = length ps" "map_ok bufs" "d \<noteq> []"
    and "\<forall>j < length ps. fragment_of as info key d (fst (ps ! j)) (fs ! j)"
    and "\<forall>j < length ps. \<exists>h \<in> H. peekAtFront as (fst (ps ! j)) = Inr h"
    and "\<forall>h \<in> H. 0 < header_length (wrap h)"
    and "progress as key d F H bufs" "\<forall>f \<in> F. piece_of d f"
    and "covered (F \<union> set fs) d" "\<not> covered (F \<union> set (butlast fs)) d"
  shows "\<exists>q h bufs'. add_all (addFragment_with as wrap info finish marker) ps bufs
      = Inr (replicate (length ps - 1) None @ [Some q], bufs') \<and>
    map_ok bufs' \<and> map_of bufs' = (map_of bufs)(key := None) \<and> packet_ok q \<and> h \<in> H \<and>
    pk_data q = header_cells (wrap (finish h (int (length d)))) @ d"
  using assms
proof (induction ps arbitrary: fs bufs F)
  case Nil
  then show ?case by simp
next
  case (Cons pn ps)
  obtain p now where pn: "pn = (p, now)" by (cases pn)
  obtain f fs' where fs: "fs = f # fs'" using Cons.prems(2) by (cases fs) auto
  have p: "fragment_of as info key d p f" using Cons.prems(5) pn fs by fastforce
  have rest5: "\<forall>j < length ps. fragment_of as info key d (fst (ps ! j)) (fs' ! j)"
    using Cons.prems(5) fs by auto
  have rest6: "\<forall>j < length ps. \<exists>h \<in> H. peekAtFront as (fst (ps ! j)) = Inr h"
    using Cons.prems(6) by auto
  obtain h0 where h0: "peekAtFront as p = Inr h0" "h0 \<in> H" using Cons.prems(6) pn by fastforce
  then have insH: "insert h0 H = H" by blast
  obtain bufs1 where b1: "map_ok bufs1" "\<forall>k. k \<noteq> key \<longrightarrow> map_of bufs1 k = map_of bufs k"
    "if covered (insert f F) d
     then \<exists>q h. addFragment_with as wrap info finish marker p now bufs = Inr (Some q, bufs1) \<and>
            map_of bufs1 key = None \<and> packet_ok q \<and> h \<in> H \<and>
            pk_data q = header_cells (wrap (finish h (int (length d)))) @ d
     else addFragment_with as wrap info finish marker p now bufs = Inr (None, bufs1) \<and>
            progress as key d (insert f F) H bufs1"
    using addFragment_step[OF Cons.prems(3,4) p Cons.prems(8,9) _ h0(1), of now] Cons.prems(7)
    unfolding insH by blast
  show ?case
  proof (cases "ps = []")
    case True
    then have "fs' = []" using Cons.prems(2) fs by simp
    then have "covered (insert f F) d" using Cons.prems(10) fs by simp
    then obtain q h where "addFragment_with as wrap info finish marker p now bufs = Inr (Some q, bufs1)"
      "map_of bufs1 key = None" "packet_ok q" "h \<in> H"
      "pk_data q = header_cells (wrap (finish h (int (length d)))) @ d"
      using b1(3) by auto
    moreover from calculation(2) b1(2) have "map_of bufs1 = (map_of bufs)(key := None)" by auto
    ultimately show ?thesis using True pn b1(1) by auto
  next
    case False
    then have ne: "fs' \<noteq> []" using Cons.prems(2) fs by auto
    have nc: "\<not> covered (insert f F) d"
    proof
      assume "covered (insert f F) d"
      then have "covered (F \<union> set (butlast fs)) d" using ne fs by (auto simp: covered_def)
      then show False using Cons.prems(11) by simp
    qed
    then have step: "addFragment_with as wrap info finish marker p now bufs = Inr (None, bufs1)"
      and prog: "progress as key d (insert f F) H bufs1" using b1(3) by simp_all
    have pieces: "\<forall>g \<in> insert f F. piece_of d g"
      using p Cons.prems(9) by (auto simp: fragment_of_def)
    have cov: "covered (insert f F \<union> set fs') d" "\<not> covered (insert f F \<union> set (butlast fs')) d"
      using Cons.prems(10,11) fs ne by simp_all
    have len: "length fs' = length ps" using Cons.prems(2) fs by simp
    obtain q h bufs' where q: "add_all (addFragment_with as wrap info finish marker) ps bufs1
        = Inr (replicate (length ps - 1) None @ [Some q], bufs')"
      "map_ok bufs'" "map_of bufs' = (map_of bufs1)(key := None)" "packet_ok q" "h \<in> H"
      "pk_data q = header_cells (wrap (finish h (int (length d)))) @ d"
      using Cons.IH[OF False len b1(1) Cons.prems(4) rest5 rest6 Cons.prems(7) prog pieces cov] by blast
    have "map_of bufs' = (map_of bufs)(key := None)" using q(3) b1(2) by auto
    moreover have "None # replicate (length ps - 1) None = replicate (length ps) (None :: packet option)"
      using False by (cases ps) auto
    ultimately show ?thesis using q(1,2,4,5,6) step pn by auto
  qed
qed

end

interpretation ipv4_frag: frag_class as_ipv4 Ipv4H ipv4_frag_info ipv4_frag_finish "''-frag2-''"
  by unfold_locales (auto simp: ipv4_frag_finish_def elim: as_ipv4.elims)

interpretation rdma_frag: frag_class as_rdma RdmaH rdma_frag_info rdma_frag_finish "''-frag-''"
  by unfold_locales (auto simp: rdma_frag_finish_def rdma_dup_eq elim: as_rdma.elims)

interpretation udp_frag: frag_class as_udp UdpH udp_frag_info udp_frag_finish "''-frag-''"
  by unfold_locales (auto simp: udp_frag_finish_def udp_dup_eq elim: as_udp.elims)

interpretation app_frag: frag_class as_app AppH app_frag_info app_frag_finish "''-frag-''"
  by unfold_locales (auto simp: app_frag_finish_def app_dup_def new_app_header_def elim: as_app.elims)

section \<open>Fragments of one datagram\<close>

text \<open>
  \<open>cut\<close> is the offset and the length of a fragment of the payload \<open>d\<close>. The fragments of one
  datagram have the same header up to the length, the fragmentation fields and the
  checksum. A packet may have padding behind the bytes that its length field counts.
\<close>

definition cut_ok :: "cell list \<Rightarrow> int \<times> nat \<Rightarrow> bool" where
  "cut_ok d c \<longleftrightarrow> 0 \<le> fst c \<and> 0 < snd c \<and> fst c + int (snd c) \<le> int (length d)"

definition cut_piece :: "cell list \<Rightarrow> int \<times> nat \<Rightarrow> int \<times> cell list" where
  "cut_piece d c = (fst c, peek_at (nat (fst c)) (snd c) d)"

definition cuts_cover :: "(int \<times> nat) list \<Rightarrow> cell list \<Rightarrow> bool" where
  "cuts_cover cs d \<longleftrightarrow> (\<forall>i < length d. \<exists>c \<in> set cs. fst c \<le> int i \<and> int i < fst c + int (snd c))"

definition rdma_fragment :: "rdma_header \<Rightarrow> cell list \<Rightarrow> int \<times> nat \<Rightarrow> packet \<Rightarrow> bool" where
  "rdma_fragment base d c p \<longleftrightarrow> cut_ok d c \<and>
    (\<exists>crc pad. pk_data p = header_cells (RdmaH (base\<lparr>rh_totalLength := 8 + int (snd c), rh_crc := crc,
       rh_fragmentOffset := fst c, rh_moreFragments := (fst c + int (snd c) < int (length d))\<rparr>))
       @ peek_at (nat (fst c)) (snd c) d @ pad)"

definition ipv4_fragment :: "ipv4_header \<Rightarrow> cell list \<Rightarrow> int \<times> nat \<Rightarrow> packet \<Rightarrow> bool" where
  "ipv4_fragment base d c p \<longleftrightarrow> cut_ok d c \<and>
    (\<exists>crc pad. pk_data p = header_cells (Ipv4H (base\<lparr>ih_totalLength := ih_headerLength base + int (snd c), ih_crc := crc,
       ih_fragmentOffset := fst c, ih_moreFragments := (fst c + int (snd c) < int (length d))\<rparr>))
       @ peek_at (nat (fst c)) (snd c) d @ pad)"

lemma length_cut_piece: "cut_ok d c \<Longrightarrow> length (snd (cut_piece d c)) = snd c"
  by (auto simp: cut_ok_def cut_piece_def)

lemma piece_of_cut: "cut_ok d c \<Longrightarrow> piece_of d (cut_piece d c)"
  using length_cut_piece[of d c]
  by (auto simp: piece_of_def cut_piece_def cut_ok_def simp flip: length_0_conv)

lemma covered_cuts:
  assumes "\<forall>c \<in> set cs. cut_ok d c"
  shows "covered (set (map (cut_piece d) cs)) d \<longleftrightarrow> cuts_cover cs d"
proof -
  have c: "covers (cut_piece d c) x \<longleftrightarrow> fst c \<le> x \<and> x < fst c + int (snd c)" if "c \<in> set cs" for c x
    using length_cut_piece assms that by (auto simp: covers_def cut_piece_def)
  show ?thesis unfolding covered_def cuts_cover_def using c by auto
qed

lemma peekDataAt_after:
  assumes "pk_data p = hs @ xs @ ys" "xs \<noteq> []"
  shows "peekDataAt (int (length hs)) (int (length xs)) p = Inr xs"
proof -
  have "dataLength p = length hs + length xs + length ys"
    using arg_cong[OF assms(1), of length] by simp
  then show ?thesis using assms peekDataAt_ok[of "int (length hs)" "int (length xs)" p]
    by (simp add: peek_at_def)
qed

lemma rdma_fragment_of:
  assumes "rdma_fragment base d c p"
  shows "\<exists>crc. peekAtFront as_rdma p = Inr (base\<lparr>rh_totalLength := 8 + int (snd c), rh_crc := crc,
       rh_fragmentOffset := fst c, rh_moreFragments := (fst c + int (snd c) < int (length d))\<rparr>)"
    and "fragment_of as_rdma rdma_frag_info
      (PortKey (rh_identification base) (uint (rh_srcPort base)) (uint (rh_destPort base))) d p (cut_piece d c)"
proof -
  obtain crc pad where data: "pk_data p = header_cells (RdmaH (base\<lparr>rh_totalLength := 8 + int (snd c), rh_crc := crc,
       rh_fragmentOffset := fst c, rh_moreFragments := (fst c + int (snd c) < int (length d))\<rparr>))
       @ snd (cut_piece d c) @ pad" (is "_ = header_cells (RdmaH ?h) @ _")
    and ok: "cut_ok d c"
    using assms by (auto simp: rdma_fragment_def cut_piece_def)
  have h: "peekAtFront as_rdma p = Inr ?h" by (rule peekAtFront_header[OF data]) simp_all
  then show "\<exists>crc. peekAtFront as_rdma p = Inr (base\<lparr>rh_totalLength := 8 + int (snd c), rh_crc := crc,
       rh_fragmentOffset := fst c, rh_moreFragments := (fst c + int (snd c) < int (length d))\<rparr>)" by blast
  have ne: "snd (cut_piece d c) \<noteq> []" using piece_of_cut[OF ok] by (simp add: piece_of_def)
  have "peekDataAt 8 (int (snd c)) p = Inr (snd (cut_piece d c))"
    using peekDataAt_after[OF data ne] length_cut_piece[OF ok] by simp
  then show "fragment_of as_rdma rdma_frag_info
      (PortKey (rh_identification base) (uint (rh_srcPort base)) (uint (rh_destPort base))) d p (cut_piece d c)"
    unfolding fragment_of_def using h piece_of_cut[OF ok] length_cut_piece[OF ok] ok
    by (intro exI[of _ ?h]) (auto simp: rdma_frag_info_def cut_piece_def cut_ok_def)
qed

lemma ipv4_fragment_of:
  assumes "ipv4_fragment base d c p" "ih_headerLength base = int (header_length (Ipv4H base))"
  shows "\<exists>crc. peekAtFront as_ipv4 p = Inr (base\<lparr>ih_totalLength := ih_headerLength base + int (snd c), ih_crc := crc,
       ih_fragmentOffset := fst c, ih_moreFragments := (fst c + int (snd c) < int (length d))\<rparr>)"
    and "fragment_of as_ipv4 ipv4_frag_info
      (Ipv4Key (ih_identification base) (ih_srcAddress base) (ih_destAddress base)) d p (cut_piece d c)"
proof -
  obtain crc pad where data: "pk_data p = header_cells (Ipv4H (base\<lparr>ih_totalLength := ih_headerLength base + int (snd c), ih_crc := crc,
       ih_fragmentOffset := fst c, ih_moreFragments := (fst c + int (snd c) < int (length d))\<rparr>))
       @ snd (cut_piece d c) @ pad" (is "_ = header_cells (Ipv4H ?h) @ _")
    and ok: "cut_ok d c"
    using assms(1) by (auto simp: ipv4_fragment_def cut_piece_def)
  have h: "peekAtFront as_ipv4 p = Inr ?h" by (rule peekAtFront_header[OF data]) simp_all
  then show "\<exists>crc. peekAtFront as_ipv4 p = Inr (base\<lparr>ih_totalLength := ih_headerLength base + int (snd c), ih_crc := crc,
       ih_fragmentOffset := fst c, ih_moreFragments := (fst c + int (snd c) < int (length d))\<rparr>)" by blast
  have ne: "snd (cut_piece d c) \<noteq> []" using piece_of_cut[OF ok] by (simp add: piece_of_def)
  have "peekDataAt (ih_headerLength base) (int (snd c)) p = Inr (snd (cut_piece d c))"
    using peekDataAt_after[OF data ne] length_cut_piece[OF ok] assms(2) by simp
  then show "fragment_of as_ipv4 ipv4_frag_info
      (Ipv4Key (ih_identification base) (ih_srcAddress base) (ih_destAddress base)) d p (cut_piece d c)"
    unfolding fragment_of_def using h piece_of_cut[OF ok] length_cut_piece[OF ok] ok
    by (intro exI[of _ ?h]) (auto simp: ipv4_frag_info_def cut_piece_def cut_ok_def)
qed

lemma butlast_covered:
  "\<forall>c \<in> set cs. cut_ok d c \<Longrightarrow>
    covered (set (butlast (map (cut_piece d) cs))) d \<longleftrightarrow> cuts_cover (butlast cs) d"
  using covered_cuts[of "butlast cs" d] by (simp add: map_butlast in_set_butlastD)

lemma ipv4_reassembly_run:
  assumes "d \<noteq> []" "map_ok bufs" "ps \<noteq> []" "length cs = length ps"
    and "ih_headerLength base = int (header_length (Ipv4H base))"
    and "map_of bufs (Ipv4Key (ih_identification base) (ih_srcAddress base) (ih_destAddress base)) = None"
    and "\<forall>j < length ps. ipv4_fragment base d (cs ! j) (fst (ps ! j))"
    and "cuts_cover cs d" "\<not> cuts_cover (butlast cs) d"
  shows "\<exists>q crc bufs'. add_all ipv4_addFragment ps bufs
      = Inr (replicate (length ps - 1) None @ [Some q], bufs') \<and>
    map_of bufs' = map_of bufs \<and> map_ok bufs' \<and> packet_ok q \<and>
    pk_data q = header_cells (Ipv4H (base\<lparr>ih_totalLength := ih_headerLength base + int (length d), ih_crc := crc,
       ih_fragmentOffset := 0, ih_moreFragments := False\<rparr>)) @ d"
proof -
  let ?key = "Ipv4Key (ih_identification base) (ih_srcAddress base) (ih_destAddress base)"
  let ?H = "{h. \<exists>crc n off m. h = base\<lparr>ih_totalLength := n, ih_crc := crc, ih_fragmentOffset := off, ih_moreFragments := m\<rparr>}"
  let ?fs = "map (cut_piece d) cs"
  have cuts: "\<forall>c \<in> set cs. cut_ok d c"
    using assms(4,7) by (simp add: ipv4_fragment_def all_set_conv_all_nth)
  have frag: "\<forall>j < length ps. fragment_of as_ipv4 ipv4_frag_info ?key d (fst (ps ! j)) (?fs ! j)"
    using assms(4,7) ipv4_fragment_of(2)[OF _ assms(5)] by auto
  have peek: "\<forall>j < length ps. \<exists>h \<in> ?H. peekAtFront as_ipv4 (fst (ps ! j)) = Inr h"
    using assms(7) ipv4_fragment_of(1)[OF _ assms(5)] by fast
  have len: "length ?fs = length ps" using assms(4) by simp
  have hl: "\<forall>h \<in> ?H. 0 < header_length (Ipv4H h)" by simp
  have em: "\<forall>f \<in> {}. piece_of d f" by simp
  have prog: "progress as_ipv4 ?key d {} ?H bufs" using assms(6) by (simp add: progress_def)
  have cov: "covered ({} \<union> set ?fs) d" "\<not> covered ({} \<union> set (butlast ?fs)) d"
    unfolding Un_empty_left using assms(8,9) covered_cuts[OF cuts] butlast_covered[OF cuts] by auto
  obtain q h bufs' where q: "add_all ipv4_addFragment ps bufs = Inr (replicate (length ps - 1) None @ [Some q], bufs')"
    "map_of bufs' = (map_of bufs)(?key := None)" "h \<in> ?H" "map_ok bufs'" "packet_ok q"
    "pk_data q = header_cells (Ipv4H (ipv4_frag_finish h (int (length d)))) @ d"
    using ipv4_frag.add_all_complete[OF assms(3) len assms(2,1) frag peek hl prog em cov]
    unfolding ipv4_addFragment_def by blast
  obtain crc n off m where h: "h = base\<lparr>ih_totalLength := n, ih_crc := crc, ih_fragmentOffset := off, ih_moreFragments := m\<rparr>"
    using q(3) by blast
  have "ipv4_frag_finish h (int (length d)) = base\<lparr>ih_totalLength := ih_headerLength base + int (length d), ih_crc := crc,
       ih_fragmentOffset := 0, ih_moreFragments := False\<rparr>"
    unfolding h by (simp add: ipv4_frag_finish_def)
  moreover have "map_of bufs' = map_of bufs" using q(2) assms(6) by auto
  ultimately show ?thesis using q(1,4-6) by auto
qed

lemma rdma_reassembly_run:
  assumes "d \<noteq> []" "map_ok bufs" "ps \<noteq> []" "length cs = length ps"
    and "map_of bufs (PortKey (rh_identification base) (uint (rh_srcPort base)) (uint (rh_destPort base))) = None"
    and "\<forall>j < length ps. rdma_fragment base d (cs ! j) (fst (ps ! j))"
    and "cuts_cover cs d" "\<not> cuts_cover (butlast cs) d"
  shows "\<exists>q crc bufs'. add_all rdma_addFragment ps bufs
      = Inr (replicate (length ps - 1) None @ [Some q], bufs') \<and>
    map_of bufs' = map_of bufs \<and>
    pk_data q = header_cells (RdmaH (base\<lparr>rh_totalLength := 8 + int (length d), rh_crc := crc,
       rh_fragmentOffset := 0, rh_moreFragments := False, rh_identification := 0\<rparr>)) @ d"
proof -
  let ?key = "PortKey (rh_identification base) (uint (rh_srcPort base)) (uint (rh_destPort base))"
  let ?H = "{h. \<exists>crc n off m. h = base\<lparr>rh_totalLength := n, rh_crc := crc, rh_fragmentOffset := off, rh_moreFragments := m\<rparr>}"
  let ?fs = "map (cut_piece d) cs"
  have cuts: "\<forall>c \<in> set cs. cut_ok d c"
    using assms(4,6) by (simp add: rdma_fragment_def all_set_conv_all_nth)
  have frag: "\<forall>j < length ps. fragment_of as_rdma rdma_frag_info ?key d (fst (ps ! j)) (?fs ! j)"
    using assms(4,6) rdma_fragment_of(2) by auto
  have peek: "\<forall>j < length ps. \<exists>h \<in> ?H. peekAtFront as_rdma (fst (ps ! j)) = Inr h"
    using assms(6) rdma_fragment_of(1) by fast
  have len: "length ?fs = length ps" using assms(4) by simp
  have hl: "\<forall>h \<in> ?H. 0 < header_length (RdmaH h)" by simp
  have em: "\<forall>f \<in> {}. piece_of d f" by simp
  have prog: "progress as_rdma ?key d {} ?H bufs" using assms(5) by (simp add: progress_def)
  have cov: "covered ({} \<union> set ?fs) d" "\<not> covered ({} \<union> set (butlast ?fs)) d"
    unfolding Un_empty_left using assms(7,8) covered_cuts[OF cuts] butlast_covered[OF cuts] by auto
  obtain q h bufs' where q: "add_all rdma_addFragment ps bufs = Inr (replicate (length ps - 1) None @ [Some q], bufs')"
    "map_of bufs' = (map_of bufs)(?key := None)" "h \<in> ?H"
    "pk_data q = header_cells (RdmaH (rdma_frag_finish h (int (length d)))) @ d"
    using rdma_frag.add_all_complete[OF assms(3) len assms(2,1) frag peek hl prog em cov]
    unfolding rdma_addFragment_def by blast
  obtain crc n off m where h: "h = base\<lparr>rh_totalLength := n, rh_crc := crc, rh_fragmentOffset := off, rh_moreFragments := m\<rparr>"
    using q(3) by blast
  have "rdma_frag_finish h (int (length d)) = base\<lparr>rh_totalLength := 8 + int (length d), rh_crc := crc,
       rh_fragmentOffset := 0, rh_moreFragments := False, rh_identification := 0\<rparr>"
    unfolding h by (simp add: rdma_frag_finish_def rdma_dup_eq)
  moreover have "map_of bufs' = map_of bufs" using q(2) assms(5) by auto
  ultimately show ?thesis using q(1,4) by auto
qed

section \<open>Even cuts\<close>

text \<open>A payload of \<open>N\<close> bytes cut every \<open>F\<close> bytes: the number of fragments, and fragment \<open>j\<close>.\<close>

definition frag_count :: "nat \<Rightarrow> nat \<Rightarrow> nat" where
  "frag_count F N = (N + F - 1) div F"

lemma frag_count_less: "0 < F \<Longrightarrow> j < frag_count F N \<longleftrightarrow> F * j < N"
proof -
  assume F: "0 < F"
  have "j < frag_count F N \<longleftrightarrow> Suc j \<le> (N + F - 1) div F" by (auto simp: frag_count_def)
  also have "\<dots> \<longleftrightarrow> Suc j * F \<le> N + F - 1" by (simp only: less_eq_div_iff_mult_less_eq[OF F])
  also have "\<dots> \<longleftrightarrow> F * j < N" using F by (auto simp: algebra_simps)
  finally show ?thesis .
qed

definition frag_cut :: "nat \<Rightarrow> nat \<Rightarrow> nat \<Rightarrow> int \<times> nat" where
  "frag_cut F N j = (int (F * j), min F (N - F * j))"

text \<open>All the cuts cover the payload; without one of them the payload is not covered.\<close>

lemma frag_cuts_cover:
  assumes "0 < F" "distinct js" "set js = {..<frag_count F N}" "0 < N" "length d = N"
  shows "cuts_cover (map (frag_cut F N) js) d" "\<not> cuts_cover (butlast (map (frag_cut F N) js)) d"
proof -
  show "cuts_cover (map (frag_cut F N) js) d"
    unfolding cuts_cover_def
  proof (intro allI impI)
    fix i assume i: "i < length d"
    obtain j where j: "F * j \<le> i" "i < F * j + F"
    proof (rule that[of "i div F"])
      show "i < F * (i div F) + F" using dividend_less_div_times[OF assms(1), of i] by (simp add: mult.commute add.commute)
    qed simp
    then have n: "j < frag_count F N" unfolding frag_count_less[OF assms(1)] using i assms(5) by linarith
    have "i < F * j + min F (N - F * j)" using j i assms(5) by linarith
    then have "fst (frag_cut F N j) \<le> int i \<and> int i < fst (frag_cut F N j) + int (snd (frag_cut F N j))"
      using j(1) by (simp add: frag_cut_def flip: of_nat_add of_nat_mult)
    then show "\<exists>c \<in> set (map (frag_cut F N) js). fst c \<le> int i \<and> int i < fst c + int (snd c)"
      using n assms(3) by (intro bexI[of _ "frag_cut F N j"]) simp_all
  qed
  have "0 < frag_count F N" unfolding frag_count_less[OF assms(1)] using assms(4) by simp
  then have "0 \<in> set js" unfolding assms(3) by simp
  then have ne: "js \<noteq> []" by auto
  then have js: "js = butlast js @ [last js]" by simp
  let ?l = "last js"
  have l: "F * ?l < N" using last_in_set[OF ne] unfolding assms(3) lessThan_iff frag_count_less[OF assms(1)] .
  have "\<not> (fst (frag_cut F N j) \<le> int (F * ?l) \<and> int (F * ?l) < fst (frag_cut F N j) + int (snd (frag_cut F N j)))"
    if "j \<in> set (butlast js)" for j
  proof
    assume "fst (frag_cut F N j) \<le> int (F * ?l) \<and> int (F * ?l) < fst (frag_cut F N j) + int (snd (frag_cut F N j))"
    then have "F * j \<le> F * ?l" "F * ?l < F * j + min F (N - F * j)" by (simp_all add: frag_cut_def flip: of_nat_add of_nat_mult)
    then have "F * j \<le> F * ?l" "F * ?l < F * j + F" by linarith+
    moreover from this(2) have "F * ?l < F * Suc j" by simp
    ultimately have "j = ?l" unfolding mult_less_cancel1 using assms(1) by simp
    then show False using that assms(2) js by (metis distinct_butlast not_distinct_conv_prefix)
  qed
  then show "\<not> cuts_cover (butlast (map (frag_cut F N) js)) d"
    using l assms(5) by (auto simp: cuts_cover_def simp flip: map_butlast)
qed

section \<open>Properties\<close>

text \<open>RDMA fragments of one message (same ports and identification) that arrive in any
  order, repeated or overlapping: every \<open>addFragment\<close> returns nothing until the payload is
  covered, and then returns the datagram, with the whole payload and a header that says it
  is not a fragment (a copy, which has lost the identification), and forgets the buffer; the buffers of other keys are untouched.\<close>

theorem rdma_reassembly:
  assumes "d \<noteq> []" "map_ok bufs" "ps \<noteq> []" "length cs = length ps"
    and "map_of bufs (PortKey (rh_identification base) (uint (rh_srcPort base)) (uint (rh_destPort base))) = None"
    and "\<forall>j < length ps. rdma_fragment base d (cs ! j) (fst (ps ! j))"
    and "cuts_cover cs d" "\<not> cuts_cover (butlast cs) d"
  shows "\<exists>q crc bufs'. add_all rdma_addFragment ps bufs
      = Inr (replicate (length ps - 1) None @ [Some q], bufs') \<and>
    map_of bufs' = map_of bufs \<and>
    pk_data q = header_cells (RdmaH (base\<lparr>rh_totalLength := 8 + int (length d), rh_crc := crc,
       rh_fragmentOffset := 0, rh_moreFragments := False, rh_identification := 0\<rparr>)) @ d"
  using assms by (rule rdma_reassembly_run)

theorem rdma_reassembly_witness:
  "\<exists>q crc bufs'. add_all rdma_addFragment
      [((new_packet ''m-frag-1'' 0)\<lparr>pk_content := header_cells (RdmaH (new_rdma_header
          \<lparr>rh_totalLength := 10, rh_crc := 5, rh_fragmentOffset := 1, rh_moreFragments := False\<rparr>)) @ [Data 2, Data 3]\<rparr>, 7),
       ((new_packet ''m-frag-0'' 0)\<lparr>pk_content := header_cells (RdmaH (new_rdma_header
          \<lparr>rh_totalLength := 9, rh_crc := 6, rh_fragmentOffset := 0, rh_moreFragments := True\<rparr>)) @ [Data 1]\<rparr>, 8)] []
      = Inr (replicate 1 None @ [Some q], bufs') \<and>
    pk_data q = header_cells (RdmaH (new_rdma_header\<lparr>rh_totalLength := 11, rh_crc := crc,
       rh_fragmentOffset := 0, rh_moreFragments := False, rh_identification := 0\<rparr>)) @ [Data 1, Data 2, Data 3]"
  using rdma_reassembly[of "[Data 1, Data 2, Data 3]" "[]"
     "[((new_packet ''m-frag-1'' 0)\<lparr>pk_content := header_cells (RdmaH (new_rdma_header
          \<lparr>rh_totalLength := 10, rh_crc := 5, rh_fragmentOffset := 1, rh_moreFragments := False\<rparr>)) @ [Data 2, Data 3]\<rparr>, 7),
       ((new_packet ''m-frag-0'' 0)\<lparr>pk_content := header_cells (RdmaH (new_rdma_header
          \<lparr>rh_totalLength := 9, rh_crc := 6, rh_fragmentOffset := 0, rh_moreFragments := True\<rparr>)) @ [Data 1]\<rparr>, 8)]"
     "[(1, 2), (0, 1)]" new_rdma_header]
  by (fastforce simp: rdma_fragment_def cut_ok_def cuts_cover_def pk_data_alt new_packet_def peek_at_def less_Suc_eq)

text \<open>C14: IPv4 fragments of one datagram (same source, destination and identification) in any
  order, repeated or overlapping, give back the datagram with its whole payload, exactly
  when the last missing byte arrives.\<close>

theorem ipv4_reassembly:
  assumes "d \<noteq> []" "map_ok bufs" "ps \<noteq> []" "length cs = length ps"
    and "ih_headerLength base = int (header_length (Ipv4H base))"
    and "map_of bufs (Ipv4Key (ih_identification base) (ih_srcAddress base) (ih_destAddress base)) = None"
    and "\<forall>j < length ps. ipv4_fragment base d (cs ! j) (fst (ps ! j))"
    and "cuts_cover cs d" "\<not> cuts_cover (butlast cs) d"
  shows "\<exists>q crc bufs'. add_all ipv4_addFragment ps bufs
      = Inr (replicate (length ps - 1) None @ [Some q], bufs') \<and>
    map_of bufs' = map_of bufs \<and>
    pk_data q = header_cells (Ipv4H (base\<lparr>ih_totalLength := ih_headerLength base + int (length d), ih_crc := crc,
       ih_fragmentOffset := 0, ih_moreFragments := False\<rparr>)) @ d"
  using ipv4_reassembly_run[OF assms] by blast

definition example_ipv4_header :: ipv4_header where
  "example_ipv4_header = \<lparr>ih_headerLength = 20, ih_typeOfService = 0, ih_totalLength = 23, ih_identification = 9,
     ih_moreFragments = False, ih_dontFragment = False, ih_fragmentOffset = 0, ih_timeToLive = 32,
     ih_protocolId = 17, ih_crc = 0, ih_crcMode = CRC_DECLARED_CORRECT, ih_srcAddress = 0x0A000001,
     ih_destAddress = 0x0A000002, ih_options = []\<rparr>"

theorem ipv4_reassembly_witness:
  "\<exists>q crc bufs'. add_all ipv4_addFragment
      [((new_packet ''p'' 0)\<lparr>pk_content := header_cells (Ipv4H (example_ipv4_header
          \<lparr>ih_totalLength := 22, ih_crc := 0, ih_fragmentOffset := 1, ih_moreFragments := False\<rparr>)) @ [Data 2, Data 3]\<rparr>, 7),
       ((new_packet ''p'' 0)\<lparr>pk_content := header_cells (Ipv4H (example_ipv4_header
          \<lparr>ih_totalLength := 21, ih_crc := 0, ih_fragmentOffset := 0, ih_moreFragments := True\<rparr>)) @ [Data 1]\<rparr>, 8)] []
      = Inr (replicate 1 None @ [Some q], bufs') \<and>
    pk_data q = header_cells (Ipv4H (example_ipv4_header\<lparr>ih_totalLength := 23, ih_crc := crc,
       ih_fragmentOffset := 0, ih_moreFragments := False\<rparr>)) @ [Data 1, Data 2, Data 3]"
  using ipv4_reassembly[of "[Data 1, Data 2, Data 3]" "[]"
     "[((new_packet ''p'' 0)\<lparr>pk_content := header_cells (Ipv4H (example_ipv4_header
          \<lparr>ih_totalLength := 22, ih_crc := 0, ih_fragmentOffset := 1, ih_moreFragments := False\<rparr>)) @ [Data 2, Data 3]\<rparr>, 7),
       ((new_packet ''p'' 0)\<lparr>pk_content := header_cells (Ipv4H (example_ipv4_header
          \<lparr>ih_totalLength := 21, ih_crc := 0, ih_fragmentOffset := 0, ih_moreFragments := True\<rparr>)) @ [Data 1]\<rparr>, 8)]"
     "[(1, 2), (0, 1)]" example_ipv4_header]
  by (fastforce simp: ipv4_fragment_def cut_ok_def cuts_cover_def pk_data_alt new_packet_def peek_at_def less_Suc_eq
      example_ipv4_header_def)

text \<open>\<open>purgeStaleFragments\<close> removes exactly the buffers that were last updated before the
  deadline, keeps the others as they are and in order, and reports each removed buffer that
  holds a packet.\<close>

theorem purge_exactly_stale:
  "purgeStaleFragments t bufs =
    (concat (map (\<lambda>e. case db_packet (snd e) of Some p \<Rightarrow> [p] | None \<Rightarrow> [])
       (filter (\<lambda>e. db_lastupdate (snd e) < t) bufs)),
     filter (\<lambda>e. t \<le> db_lastupdate (snd e)) bufs)"
  by (induction t bufs rule: purgeStaleFragments.induct) (auto split: prod.split option.split)

end
