(* ===== verification/Routing_Table.thy ===== *)
theory Routing_Table
  imports Packets "HOL-Library.Product_Lexorder"
begin

text \<open>
  The routing table of a node (\<open>networklayer/ipv4/Ipv4RoutingTable.{h,cc}\<close>) over its network
  interfaces: the ordered vectors of unicast and multicast routes, the lookup with its
  cache, and every operation that changes them. A route object is identified by \<open>re_id\<close>,
  which stands for its address: the code compares routes by pointer. The interface table
  is the list of the interfaces, in index order; every interface has its
  \<open>Ipv4InterfaceData\<close>. The invariant of a reachable table is that its routes are sorted
  and its cache agrees with a scan; from it the lookup is a longest-prefix match.
\<close>

unbundle bit_operations_syntax

section \<open>Interfaces\<close>

record network_interface =
  ie_id :: int
  ie_name :: string
  ie_fullPath :: string
  ie_isUp :: bool
  ie_isLoopback :: bool
  ie_isBroadcast :: bool
  ie_isMulticast :: bool
  ie_mac :: mac_address
  ie_mtu :: int
  ie_protocol :: "protocol option"
  ie_ipAddress :: ipv4_address
  ie_netmask :: ipv4_address
  ie_ipMetric :: int
  ie_joinedGroups :: "ipv4_address list"
  ie_listenerGroups :: "ipv4_address list"
  ie_ttlThreshold :: int

definition makeBroadcastAddress :: "ipv4_address \<Rightarrow> ipv4_address \<Rightarrow> ipv4_address" where
  "makeBroadcastAddress a netmask = a OR NOT netmask"

definition maskedAddrAreEqual :: "ipv4_address \<Rightarrow> ipv4_address \<Rightarrow> ipv4_address \<Rightarrow> bool" where
  "maskedAddrAreEqual a b netmask \<longleftrightarrow> (a XOR b) AND netmask = 0"

definition getNetmaskLength :: "ipv4_address \<Rightarrow> nat" where
  "getNetmaskLength a = (case find (bit a) [0..<32] of Some i \<Rightarrow> 32 - i | None \<Rightarrow> 0)"

definition makeNetmask :: "nat \<Rightarrow> ipv4_address" where
  "makeNetmask n = (if n = 0 then 0 else push_bit (32 - n) 0xFFFFFFFF)"

definition isValidNetmask :: "ipv4_address \<Rightarrow> bool" where
  "isValidNetmask a \<longleftrightarrow> a = makeNetmask (getNetmaskLength a)"

definition hasNetworkAddress :: "network_interface \<Rightarrow> ipv4_address \<Rightarrow> bool" where
  "hasNetworkAddress ie a \<longleftrightarrow> ie_ipAddress ie = a"

definition ie_broadcastAddress :: "network_interface \<Rightarrow> ipv4_address" where
  "ie_broadcastAddress ie = makeBroadcastAddress (ie_ipAddress ie) (ie_netmask ie)"

definition isMemberOfMulticastGroup :: "network_interface \<Rightarrow> ipv4_address \<Rightarrow> bool" where
  "isMemberOfMulticastGroup ie g \<longleftrightarrow> g \<in> set (ie_joinedGroups ie)"

definition findInterfaceById :: "network_interface list \<Rightarrow> int \<Rightarrow> network_interface option" where
  "findInterfaceById ift i = find (\<lambda>ie. ie_id ie = i) ift"

definition getInterfaceById :: "network_interface list \<Rightarrow> int \<Rightarrow> network_interface res" where
  "getInterfaceById ift i = (case findInterfaceById ift i of Some ie \<Rightarrow> Inr ie
     | None \<Rightarrow> Inl (RuntimeError ''getInterfaceById(): no interface with ID''))"

section \<open>Routes and the table\<close>

datatype route_source = SRC_MANUAL | SRC_IFACENETMASK | SRC_PROTOCOL nat

record ipv4_route =
  re_id :: nat
  re_dest :: ipv4_address
  re_netmask :: ipv4_address
  re_gateway :: ipv4_address
  re_interface :: "int option"
  re_source :: route_source
  re_adminDist :: "32 word"
  re_metric :: int
  re_valid :: bool

text \<open>An output interface of a multicast route: its id, \<open>isEnabled()\<close>, \<open>isLeaf()\<close>.\<close>

record multicast_route =
  mr_id :: nat
  mr_origin :: ipv4_address
  mr_originNetmask :: ipv4_address
  mr_group :: ipv4_address
  mr_in :: "int option"
  mr_outs :: "(int \<times> bool \<times> bool) list"
  mr_metric :: int
  mr_valid :: bool

record routing_table =
  rt_routes :: "ipv4_route list"
  rt_mroutes :: "multicast_route list"
  rt_cache :: "(ipv4_address \<times> nat option) list"
  rt_localBroadcast :: "ipv4_address list"
  rt_forwarding :: bool
  rt_multicastForward :: bool
  rt_useAdminDist :: bool
  rt_nextId :: nat

definition new_routing_table :: "bool \<Rightarrow> bool \<Rightarrow> bool \<Rightarrow> routing_table" where
  "new_routing_table forwarding multicastForward useAdminDist =
    \<lparr>rt_routes = [], rt_mroutes = [], rt_cache = [], rt_localBroadcast = [], rt_forwarding = forwarding,
     rt_multicastForward = multicastForward, rt_useAdminDist = useAdminDist, rt_nextId = 0\<rparr>"

definition invalidateCache :: "routing_table \<Rightarrow> routing_table" where
  "invalidateCache t = t\<lparr>rt_cache := [], rt_localBroadcast := []\<rparr>"

section \<open>Addresses of the node\<close>

definition getInterfaceByAddress :: "network_interface list \<Rightarrow> ipv4_address \<Rightarrow> network_interface option" where
  "getInterfaceByAddress ift a =
    (if ip_isUnspecified a then None else find (\<lambda>ie. hasNetworkAddress ie a) ift)"

definition isLocalAddress :: "network_interface list \<Rightarrow> ipv4_address \<Rightarrow> bool" where
  "isLocalAddress ift a \<longleftrightarrow> find (\<lambda>ie. hasNetworkAddress ie a) ift \<noteq> None"

text \<open>The set of broadcast addresses is collected at the first use after an invalidation.\<close>

definition isLocalBroadcastAddress ::
  "network_interface list \<Rightarrow> ipv4_address \<Rightarrow> routing_table \<Rightarrow> bool \<times> routing_table" where
  "isLocalBroadcastAddress ift a t =
    (let addrs = (if rt_localBroadcast t = []
           then filter (\<lambda>b. \<not> ip_isUnspecified b) (map ie_broadcastAddress (filter ie_isBroadcast ift))
           else rt_localBroadcast t)
     in (a \<in> set addrs, t\<lparr>rt_localBroadcast := addrs\<rparr>))"

definition findInterfaceByLocalBroadcastAddress ::
  "network_interface list \<Rightarrow> ipv4_address \<Rightarrow> network_interface option" where
  "findInterfaceByLocalBroadcastAddress ift a =
    find (\<lambda>ie. ie_isBroadcast ie \<and> ie_broadcastAddress ie = a) ift"

definition isLocalMulticastAddress :: "network_interface list \<Rightarrow> ipv4_address \<Rightarrow> bool" where
  "isLocalMulticastAddress ift a \<longleftrightarrow> find (\<lambda>ie. isMemberOfMulticastGroup ie a) ift \<noteq> None"

section \<open>Lookup\<close>

definition route_matches :: "ipv4_address \<Rightarrow> ipv4_route \<Rightarrow> bool" where
  "route_matches d r \<longleftrightarrow> re_valid r \<and> maskedAddrAreEqual d (re_dest r) (re_netmask r)"

definition scan_routes :: "ipv4_address \<Rightarrow> ipv4_route list \<Rightarrow> ipv4_route option" where
  "scan_routes d rs = find (route_matches d) rs"

definition findBestMatchingRoute :: "ipv4_address \<Rightarrow> routing_table \<Rightarrow> ipv4_route option \<times> routing_table" where
  "findBestMatchingRoute d t =
    (let best = scan_routes d (rt_routes t);
         scanned = (best, t\<lparr>rt_cache := map_insert d (map_option re_id best) (rt_cache t)\<rparr>)
     in case map_of (rt_cache t) d of
          None \<Rightarrow> scanned
        | Some None \<Rightarrow> (None, t)
        | Some (Some i) \<Rightarrow>
            (case find (\<lambda>r. re_id r = i \<and> re_valid r) (rt_routes t) of
               Some r \<Rightarrow> (Some r, t) | None \<Rightarrow> scanned))"

definition getInterfaceForDestAddr :: "ipv4_address \<Rightarrow> routing_table \<Rightarrow> int option \<times> routing_table" where
  "getInterfaceForDestAddr d t = (case findBestMatchingRoute d t of
     (Some r, t) \<Rightarrow> (re_interface r, t) | (None, t) \<Rightarrow> (None, t))"

definition getGatewayForDestAddr :: "ipv4_address \<Rightarrow> routing_table \<Rightarrow> ipv4_address \<times> routing_table" where
  "getGatewayForDestAddr d t = (case findBestMatchingRoute d t of
     (Some r, t) \<Rightarrow> (re_gateway r, t) | (None, t) \<Rightarrow> (0, t))"

definition mroute_matches :: "ipv4_address \<Rightarrow> ipv4_address \<Rightarrow> multicast_route \<Rightarrow> bool" where
  "mroute_matches origin grp r \<longleftrightarrow>
    (ip_isUnspecified (mr_group r) \<or> mr_group r = grp) \<and> maskedAddrAreEqual origin (mr_origin r) (mr_originNetmask r)"

definition findBestMatchingMulticastRoute :: "ipv4_address \<Rightarrow> ipv4_address \<Rightarrow> routing_table \<Rightarrow> multicast_route option" where
  "findBestMatchingMulticastRoute origin grp t =
    find (\<lambda>r. mr_valid r \<and> mroute_matches origin grp r) (rt_mroutes t)"

definition getDefaultRoute :: "routing_table \<Rightarrow> ipv4_route option" where
  "getDefaultRoute t = find re_valid (takeWhile (\<lambda>r. ip_isUnspecified (re_netmask r)) (rev (rt_routes t)))"

section \<open>Order\<close>

definition routeLessThan :: "bool \<Rightarrow> ipv4_route \<Rightarrow> ipv4_route \<Rightarrow> bool" where
  "routeLessThan useAdminDist a b =
    (if re_netmask a \<noteq> re_netmask b then re_netmask a > re_netmask b
     else if re_dest a \<noteq> re_dest b then re_dest a < re_dest b
     else if useAdminDist \<and> re_adminDist a \<noteq> re_adminDist b then re_adminDist a < re_adminDist b
     else re_metric a < re_metric b)"

definition multicastRouteLessThan :: "multicast_route \<Rightarrow> multicast_route \<Rightarrow> bool" where
  "multicastRouteLessThan a b =
    (if mr_originNetmask a \<noteq> mr_originNetmask b then mr_originNetmask a > mr_originNetmask b
     else if mr_origin a \<noteq> mr_origin b then mr_origin a < mr_origin b
     else if mr_group a \<noteq> mr_group b then mr_group a > mr_group b
     else mr_metric a < mr_metric b)"

text \<open>\<open>routes.insert(upper_bound(routes.begin(), routes.end(), entry, less), entry)\<close>.\<close>

definition insert_upper :: "('a \<Rightarrow> 'a \<Rightarrow> bool) \<Rightarrow> 'a \<Rightarrow> 'a list \<Rightarrow> 'a list" where
  "insert_upper lt x xs =
    (let k = partition_point (\<lambda>e. \<not> lt x e) xs in take k xs @ x # drop k xs)"

section \<open>Changing the unicast routes\<close>

definition internalRemoveRoute :: "nat \<Rightarrow> routing_table \<Rightarrow> ipv4_route option \<times> routing_table" where
  "internalRemoveRoute i t =
    (case find (\<lambda>r. re_id r = i) (rt_routes t) of
       Some r \<Rightarrow> (Some r, invalidateCache (t\<lparr>rt_routes := filter (\<lambda>r. re_id r \<noteq> i) (rt_routes t)\<rparr>))
     | None \<Rightarrow> (None, t))"

definition removeRoute :: "nat \<Rightarrow> routing_table \<Rightarrow> ipv4_route option \<times> routing_table" where
  "removeRoute i t = internalRemoveRoute i t"

definition deleteRoute :: "nat \<Rightarrow> routing_table \<Rightarrow> bool \<times> routing_table" where
  "deleteRoute i t = (case internalRemoveRoute i t of (r, t) \<Rightarrow> (r \<noteq> None, t))"

definition internalAddRoute :: "ipv4_route \<Rightarrow> routing_table \<Rightarrow> routing_table res" where
  "internalAddRoute r t =
    (if \<not> isValidNetmask (re_netmask r) then Inl (RuntimeError ''addRoute(): wrong netmask in route'')
     else if re_netmask r \<noteq> 0 \<and> re_dest r AND re_netmask r = 0
       then Inl (RuntimeError ''addRoute(): all bits of destination address is 0 inside non zero netmask'')
     else if re_dest r AND NOT (re_netmask r) \<noteq> 0
       then Inl (RuntimeError ''addRoute(): suspicious route: destination has bits set outside netmask'')
     else if re_interface r = None then Inl (RuntimeError ''addRoute(): interface cannot be nullptr'')
     else
       let t = (if ip_isUnspecified (re_netmask r) then
                  (case getDefaultRoute t of Some old \<Rightarrow> snd (deleteRoute (re_id old) t) | None \<Rightarrow> t)
                else t)
       in Inr (invalidateCache (t\<lparr>rt_routes := insert_upper (routeLessThan (rt_useAdminDist t)) r (rt_routes t)\<rparr>)))"

definition addRoute :: "ipv4_route \<Rightarrow> routing_table \<Rightarrow> routing_table res" where
  "addRoute r t = internalAddRoute r t"

text \<open>
  A setter of a route changes the object in place and then calls \<open>routeChanged\<close> with the
  code of the field when the value is new.
\<close>

datatype route_field = F_DESTINATION | F_PREFIX_LENGTH | F_NEXTHOP | F_IFACE | F_SOURCE | F_ADMINDIST | F_METRIC

definition routeChanged :: "nat \<Rightarrow> route_field \<Rightarrow> routing_table \<Rightarrow> routing_table res" where
  "routeChanged i f t =
    (if f = F_DESTINATION \<or> f = F_PREFIX_LENGTH \<or> f = F_METRIC then
       (case internalRemoveRoute i t of
          (Some r, t) \<Rightarrow> internalAddRoute r t
        | (None, t) \<Rightarrow> Inl (AssertFailed ''entry != nullptr''))
     else Inr t)"

definition update_route :: "nat \<Rightarrow> (ipv4_route \<Rightarrow> ipv4_route) \<Rightarrow> routing_table \<Rightarrow> routing_table" where
  "update_route i g t = t\<lparr>rt_routes := map (\<lambda>r. if re_id r = i then g r else r) (rt_routes t)\<rparr>"

datatype route_set =
    SetDestination ipv4_address | SetNetmask ipv4_address | SetGateway ipv4_address
  | SetInterface "int option" | SetSourceType route_source | SetAdminDist "32 word" | SetMetric int

fun route_set_field :: "route_set \<Rightarrow> route_field" where
  "route_set_field (SetDestination _) = F_DESTINATION"
| "route_set_field (SetNetmask _) = F_PREFIX_LENGTH"
| "route_set_field (SetGateway _) = F_NEXTHOP"
| "route_set_field (SetInterface _) = F_IFACE"
| "route_set_field (SetSourceType _) = F_SOURCE"
| "route_set_field (SetAdminDist _) = F_ADMINDIST"
| "route_set_field (SetMetric _) = F_METRIC"

fun route_set_value :: "route_set \<Rightarrow> ipv4_route \<Rightarrow> ipv4_route" where
  "route_set_value (SetDestination a) r = r\<lparr>re_dest := a\<rparr>"
| "route_set_value (SetNetmask a) r = r\<lparr>re_netmask := a\<rparr>"
| "route_set_value (SetGateway a) r = r\<lparr>re_gateway := a\<rparr>"
| "route_set_value (SetInterface i) r = r\<lparr>re_interface := i\<rparr>"
| "route_set_value (SetSourceType x) r = r\<lparr>re_source := x\<rparr>"
| "route_set_value (SetAdminDist n) r = r\<lparr>re_adminDist := n\<rparr>"
| "route_set_value (SetMetric m) r = r\<lparr>re_metric := m\<rparr>"

definition setRoute :: "nat \<Rightarrow> route_set \<Rightarrow> routing_table \<Rightarrow> routing_table res" where
  "setRoute i v t =
    (case find (\<lambda>r. re_id r = i) (rt_routes t) of
       None \<Rightarrow> Inr t
     | Some r \<Rightarrow> if route_set_value v r = r then Inr t
                 else routeChanged i (route_set_field v) (update_route i (route_set_value v) t))"

section \<open>Changing the multicast routes\<close>

fun check_outs :: "network_interface list \<Rightarrow> int option \<Rightarrow> (int \<times> bool \<times> bool) list \<Rightarrow> unit res" where
  "check_outs ift inI [] = Inr ()"
| "check_outs ift inI ((i, _, _) # outs) =
    bindE (getInterfaceById ift i) (\<lambda>ie.
      if \<not> ie_isMulticast ie then Inl (RuntimeError ''addMulticastRoute(): output interface must be multicast capable'')
      else if inI = Some i then Inl (RuntimeError ''addMulticastRoute(): output interface cannot be the same as the input interface'')
      else check_outs ift inI outs)"

definition internalAddMulticastRoute :: "network_interface list \<Rightarrow> multicast_route \<Rightarrow> routing_table \<Rightarrow> routing_table res" where
  "internalAddMulticastRoute ift r t =
    (if \<not> isValidNetmask (mr_originNetmask r) then Inl (RuntimeError ''addMulticastRoute(): wrong netmask in multicast route'')
     else if mr_origin r AND NOT (mr_originNetmask r) \<noteq> 0
       then Inl (RuntimeError ''addMulticastRoute(): suspicious route: origin has bits set outside netmask'')
     else if \<not> ip_isUnspecified (mr_group r) \<and> \<not> ip_isMulticast (mr_group r)
       then Inl (RuntimeError ''addMulticastRoute(): group address is not a multicast address'')
     else
       bindE (case mr_in r of None \<Rightarrow> Inr True
              | Some i \<Rightarrow> bindE (getInterfaceById ift i) (\<lambda>ie. Inr (ie_isMulticast ie))) (\<lambda>inOk.
         if \<not> inOk then Inl (RuntimeError ''addMulticastRoute(): input interface must be multicast capable'')
         else bindE (check_outs ift (mr_in r) (mr_outs r)) (\<lambda>_.
           Inr (invalidateCache (t\<lparr>rt_mroutes := insert_upper multicastRouteLessThan r (rt_mroutes t)\<rparr>)))))"

definition removeMulticastRoute :: "nat \<Rightarrow> routing_table \<Rightarrow> multicast_route option \<times> routing_table" where
  "removeMulticastRoute i t =
    (case find (\<lambda>r. mr_id r = i) (rt_mroutes t) of
       Some r \<Rightarrow> (Some r, invalidateCache (t\<lparr>rt_mroutes := filter (\<lambda>r. mr_id r \<noteq> i) (rt_mroutes t)\<rparr>))
     | None \<Rightarrow> (None, t))"

section \<open>Bulk changes\<close>

text \<open>\<open>removeOutInterface\<close> erases the first output entry of the interface.\<close>

fun removeOutInterface :: "int \<Rightarrow> (int \<times> bool \<times> bool) list \<Rightarrow> (int \<times> bool \<times> bool) list" where
  "removeOutInterface i [] = []"
| "removeOutInterface i (x # xs) = (if fst x = i then xs else x # removeOutInterface i xs)"

definition drop_routes :: "(ipv4_route \<Rightarrow> bool) \<Rightarrow> routing_table \<Rightarrow> routing_table" where
  "drop_routes P t =
    (if find P (rt_routes t) = None then t
     else invalidateCache (t\<lparr>rt_routes := filter (\<lambda>r. \<not> P r) (rt_routes t)\<rparr>))"

definition deleteInterfaceRoutes :: "int \<Rightarrow> routing_table \<Rightarrow> routing_table" where
  "deleteInterfaceRoutes i t =
    (let t = drop_routes (\<lambda>r. re_interface r = Some i) t;
         changed = find (\<lambda>r. mr_in r = Some i \<or> removeOutInterface i (mr_outs r) \<noteq> mr_outs r) (rt_mroutes t) \<noteq> None;
         t' = t\<lparr>rt_mroutes := map (\<lambda>r. r\<lparr>mr_outs := removeOutInterface i (mr_outs r)\<rparr>)
                                 (filter (\<lambda>r. mr_in r \<noteq> Some i) (rt_mroutes t))\<rparr>
     in if changed then invalidateCache t' else t)"

definition purge :: "routing_table \<Rightarrow> routing_table" where
  "purge t =
    (let t = drop_routes (\<lambda>r. \<not> re_valid r) t in
     if find (\<lambda>r. \<not> mr_valid r) (rt_mroutes t) = None then t
     else invalidateCache (t\<lparr>rt_mroutes := filter mr_valid (rt_mroutes t)\<rparr>))"

text \<open>
  \<open>updateNetmaskRoutes\<close>: the routes with source \<open>IFACENETMASK\<close> are removed and rebuilt from
  the interfaces that are up and selected by the pattern \<open>netmaskRoutes\<close>; these are inserted
  without the checks of \<open>internalAddRoute\<close>.
\<close>

definition netmask_route :: "nat \<Rightarrow> network_interface \<Rightarrow> ipv4_route" where
  "netmask_route i ie = \<lparr>re_id = i, re_dest = ie_ipAddress ie AND ie_netmask ie, re_netmask = ie_netmask ie,
     re_gateway = 0, re_interface = Some (ie_id ie), re_source = SRC_IFACENETMASK, re_adminDist = 0,
     re_metric = ie_ipMetric ie, re_valid = True\<rparr>"

definition addNetmaskRoute :: "network_interface \<Rightarrow> routing_table \<Rightarrow> routing_table" where
  "addNetmaskRoute ie t =
    invalidateCache (t\<lparr>rt_routes := insert_upper (routeLessThan (rt_useAdminDist t)) (netmask_route (rt_nextId t) ie) (rt_routes t),
      rt_nextId := Suc (rt_nextId t)\<rparr>)"

definition updateNetmaskRoutes :: "(string \<Rightarrow> bool) \<Rightarrow> network_interface list \<Rightarrow> routing_table \<Rightarrow> routing_table" where
  "updateNetmaskRoutes netmaskRoutes ift t =
    fold addNetmaskRoute
      (filter (\<lambda>ie. ie_isUp ie \<and> netmaskRoutes (ie_name ie) \<and> ie_netmask ie \<noteq> 0xFFFFFFFF) ift)
      (drop_routes (\<lambda>r. re_source r = SRC_IFACENETMASK) t)"

text \<open>The signals of the interface table, after initialization.\<close>

datatype interface_signal =
    InterfaceCreated | InterfaceDeleted int | InterfaceStateChanged bool network_interface
  | InterfaceConfigChanged | InterfaceIpv4ConfigChanged

definition rt_receiveSignal ::
  "(string \<Rightarrow> bool) \<Rightarrow> network_interface list \<Rightarrow> interface_signal \<Rightarrow> routing_table \<Rightarrow> routing_table" where
  "rt_receiveSignal netmaskRoutes ift s t =
    (case s of
       InterfaceCreated \<Rightarrow> invalidateCache (updateNetmaskRoutes netmaskRoutes ift t)
     | InterfaceDeleted i \<Rightarrow> invalidateCache (deleteInterfaceRoutes i t)
     | InterfaceStateChanged stateOrCarrier ie \<Rightarrow>
         let t = invalidateCache t in
         if stateOrCarrier then
           let t = updateNetmaskRoutes netmaskRoutes ift t;
               t = (if \<not> ie_isUp ie then deleteInterfaceRoutes (ie_id ie) t else t)
           in invalidateCache t
         else t
     | InterfaceConfigChanged \<Rightarrow> invalidateCache t
     | InterfaceIpv4ConfigChanged \<Rightarrow> invalidateCache (updateNetmaskRoutes netmaskRoutes ift t))"

text \<open>Stop and crash: \<open>while (!routes.empty()) delete removeRoute(routes[0])\<close>.\<close>

definition rt_stop :: "routing_table \<Rightarrow> routing_table" where
  "rt_stop t = drop_routes (\<lambda>_. True) t"

section \<open>Sorted vectors\<close>

text \<open>
  A vector kept sorted by a comparison that compares keys of a linear order: what
  \<open>upper_bound\<close> and a scan from the front rely on.
\<close>

locale ordered_by_key =
  fixes lt :: "'a \<Rightarrow> 'a \<Rightarrow> bool"
    and key :: "'a \<Rightarrow> 'k::linorder"
  assumes lt_iff: "lt a b \<longleftrightarrow> key a < key b"
begin

definition ordered :: "'a list \<Rightarrow> bool" where
  "ordered xs \<longleftrightarrow> sorted (map key xs)"

lemma insert_upper_eq:
  "insert_upper lt x xs = takeWhile (\<lambda>e. key e \<le> key x) xs @ x # dropWhile (\<lambda>e. key e \<le> key x) xs"
  by (simp add: insert_upper_def Let_def take_partition_point drop_partition_point lt_iff not_less)

lemma set_insert_upper: "set (insert_upper lt x xs) = insert x (set xs)"
proof -
  have "set xs = set (takeWhile (\<lambda>e. key e \<le> key x) xs) \<union> set (dropWhile (\<lambda>e. key e \<le> key x) xs)"
    by (metis set_append takeWhile_dropWhile_id)
  then show ?thesis by (auto simp: insert_upper_eq)
qed

lemma ordered_insert: "ordered xs \<Longrightarrow> ordered (insert_upper lt x xs)"
proof (induction xs)
  case (Cons y ys)
  then have y: "ordered ys" "\<forall>z \<in> set ys. key y \<le> key z" by (auto simp: ordered_def)
  show ?case
  proof (cases "key y \<le> key x")
    case True
    then have "insert_upper lt x (y # ys) = y # insert_upper lt x ys" by (simp add: insert_upper_eq)
    moreover have "\<forall>z \<in> set (insert_upper lt x ys). key y \<le> key z"
      using y(2) True by (simp add: set_insert_upper)
    ultimately show ?thesis using Cons.IH[OF y(1)] by (simp add: ordered_def)
  next
    case False
    then have "insert_upper lt x (y # ys) = x # y # ys" by (simp add: insert_upper_eq)
    then show ?thesis using False Cons.prems y(2) by (auto simp: ordered_def)
  qed
qed (simp add: insert_upper_def ordered_def partition_point_def)

lemma ordered_filter: "ordered xs \<Longrightarrow> ordered (filter P xs)"
  by (simp add: ordered_def sorted_filter)

lemma ordered_cong: "map key xs = map key ys \<Longrightarrow> ordered xs \<longleftrightarrow> ordered ys"
  by (simp add: ordered_def)

lemma find_least: "ordered xs \<Longrightarrow> find P xs = Some x \<Longrightarrow> y \<in> set xs \<Longrightarrow> P y \<Longrightarrow> key x \<le> key y"
  by (induction xs) (auto simp: ordered_def split: if_splits)

lemma ordered_Nil: "ordered []"
  by (simp add: ordered_def)

end

definition route_key :: "bool \<Rightarrow> ipv4_route \<Rightarrow> int \<times> int \<times> int \<times> int" where
  "route_key u r = (- uint (re_netmask r), uint (re_dest r), if u then uint (re_adminDist r) else 0, re_metric r)"

definition mroute_key :: "multicast_route \<Rightarrow> int \<times> int \<times> int \<times> int" where
  "mroute_key r = (- uint (mr_originNetmask r), uint (mr_origin r), - uint (mr_group r), mr_metric r)"

interpretation by_route: ordered_by_key "routeLessThan u" "route_key u" for u
  by unfold_locales (auto simp: routeLessThan_def route_key_def less_prod_simp word_less_def word_uint_eq_iff)

interpretation by_mroute: ordered_by_key multicastRouteLessThan mroute_key
  by unfold_locales (auto simp: multicastRouteLessThan_def mroute_key_def less_prod_simp word_less_def word_uint_eq_iff)

section \<open>Invariant\<close>

text \<open>
  A cached \<open>None\<close> says that no route matches; a cached route that has not expired since is
  the first one that matches.
\<close>

definition cache_ok :: "ipv4_route list \<Rightarrow> (ipv4_address \<times> nat option) list \<Rightarrow> bool" where
  "cache_ok rs c \<longleftrightarrow> map_ok c \<and> (\<forall>d e. map_of c d = Some e \<longrightarrow>
     (case e of None \<Rightarrow> scan_routes d rs = None
      | Some i \<Rightarrow> \<forall>r \<in> set rs. re_id r = i \<and> re_valid r \<longrightarrow> scan_routes d rs = Some r))"

definition rt_ok :: "routing_table \<Rightarrow> bool" where
  "rt_ok t \<longleftrightarrow> distinct (map re_id (rt_routes t)) \<and> (\<forall>r \<in> set (rt_routes t). re_id r < rt_nextId t) \<and>
     by_route.ordered (rt_useAdminDist t) (rt_routes t) \<and> cache_ok (rt_routes t) (rt_cache t) \<and>
     by_mroute.ordered (rt_mroutes t)"

lemma cache_okI:
  assumes "map_ok c" "\<And>d. map_of c d = Some None \<Longrightarrow> scan_routes d rs = None"
    and "\<And>d i r. map_of c d = Some (Some i) \<Longrightarrow> r \<in> set rs \<Longrightarrow> re_id r = i \<Longrightarrow> re_valid r \<Longrightarrow> scan_routes d rs = Some r"
  shows "cache_ok rs c"
  using assms by (auto simp: cache_ok_def split: option.split)

lemma cache_okD:
  assumes "cache_ok rs c"
  shows "map_ok c" "map_of c d = Some None \<Longrightarrow> scan_routes d rs = None"
    and "map_of c d = Some (Some i) \<Longrightarrow> r \<in> set rs \<Longrightarrow> re_id r = i \<Longrightarrow> re_valid r \<Longrightarrow> scan_routes d rs = Some r"
proof -
  have all: "case e of None \<Rightarrow> scan_routes d rs = None
      | Some i \<Rightarrow> \<forall>r \<in> set rs. re_id r = i \<and> re_valid r \<longrightarrow> scan_routes d rs = Some r" if "map_of c d = Some e" for e
    using assms that unfolding cache_ok_def by blast
  show "map_ok c" using assms by (simp add: cache_ok_def)
  show "map_of c d = Some None \<Longrightarrow> scan_routes d rs = None" using all[of None] by simp
  show "map_of c d = Some (Some i) \<Longrightarrow> r \<in> set rs \<Longrightarrow> re_id r = i \<Longrightarrow> re_valid r \<Longrightarrow> scan_routes d rs = Some r"
    using all[of "Some i"] by simp
qed

lemma rt_okI:
  assumes "distinct (map re_id (rt_routes t))" "\<And>r. r \<in> set (rt_routes t) \<Longrightarrow> re_id r < rt_nextId t"
    and "by_route.ordered (rt_useAdminDist t) (rt_routes t)" "cache_ok (rt_routes t) (rt_cache t)"
    and "by_mroute.ordered (rt_mroutes t)"
  shows "rt_ok t"
  using assms by (simp add: rt_ok_def)

lemma rt_okD:
  assumes "rt_ok t"
  shows "distinct (map re_id (rt_routes t))" "\<And>r. r \<in> set (rt_routes t) \<Longrightarrow> re_id r < rt_nextId t"
    and "by_route.ordered (rt_useAdminDist t) (rt_routes t)" "cache_ok (rt_routes t) (rt_cache t)"
    and "by_mroute.ordered (rt_mroutes t)"
  using assms by (auto simp: rt_ok_def)

lemma cache_ok_Nil [simp]: "cache_ok rs []"
  by (simp add: cache_ok_def)

lemma invalidateCache_simps [simp]:
  "rt_routes (invalidateCache t) = rt_routes t" "rt_mroutes (invalidateCache t) = rt_mroutes t"
  "rt_cache (invalidateCache t) = []" "rt_nextId (invalidateCache t) = rt_nextId t"
  "rt_useAdminDist (invalidateCache t) = rt_useAdminDist t"
  by (simp_all add: invalidateCache_def)

lemma rt_ok_invalidate [simp]: "rt_ok t \<Longrightarrow> rt_ok (invalidateCache t)"
  by (simp add: rt_ok_def)

lemma rt_ok_filter: "rt_ok t \<Longrightarrow> rt_ok (invalidateCache (t\<lparr>rt_routes := filter P (rt_routes t)\<rparr>))"
  by (auto simp: rt_ok_def distinct_map_filter by_route.ordered_filter)

lemma rt_ok_mfilter: "rt_ok t \<Longrightarrow> rt_ok (invalidateCache (t\<lparr>rt_mroutes := filter P (rt_mroutes t)\<rparr>))"
  by (auto simp: rt_ok_def by_mroute.ordered_filter)

lemma rt_ok_drop: "rt_ok t \<Longrightarrow> rt_ok (drop_routes P t)"
  by (simp add: drop_routes_def rt_ok_filter)

lemma rt_ok_remove: "rt_ok t \<Longrightarrow> internalRemoveRoute i t = (x, t') \<Longrightarrow> rt_ok t'"
  by (auto simp: internalRemoveRoute_def rt_ok_filter split: option.splits)

lemma remove_simps: "internalRemoveRoute i t = (x, t') \<Longrightarrow>
   rt_nextId t' = rt_nextId t \<and> rt_useAdminDist t' = rt_useAdminDist t \<and>
   rt_routes t' = (if x = None then rt_routes t else filter (\<lambda>r. re_id r \<noteq> i) (rt_routes t)) \<and>
   (\<forall>r. x = Some r \<longrightarrow> r \<in> set (rt_routes t) \<and> re_id r = i)"
  by (auto simp: internalRemoveRoute_def find_Some_iff split: option.splits)

lemma rt_ok_insert:
  assumes "rt_ok t" "re_id r \<notin> re_id ` set (rt_routes t)" "re_id r < n" "rt_nextId t \<le> n"
  shows "rt_ok (invalidateCache (t\<lparr>rt_routes := insert_upper (routeLessThan (rt_useAdminDist t)) r (rt_routes t), rt_nextId := n\<rparr>))"
proof (rule rt_okI)
  let ?i = "insert_upper (routeLessThan (rt_useAdminDist t)) r (rt_routes t)"
  note ok = rt_okD[OF assms(1)]
  show "distinct (map re_id (rt_routes (invalidateCache (t\<lparr>rt_routes := ?i, rt_nextId := n\<rparr>))))"
  proof -
    let ?k = "partition_point (\<lambda>e. \<not> routeLessThan (rt_useAdminDist t) r e) (rt_routes t)"
    have "distinct (map re_id (take ?k (rt_routes t) @ drop ?k (rt_routes t)))" using ok(1) by simp
    moreover have "re_id r \<notin> re_id ` set (take ?k (rt_routes t)) \<union> re_id ` set (drop ?k (rt_routes t))"
      using assms(2) by (auto dest: in_set_takeD in_set_dropD)
    ultimately show ?thesis unfolding insert_upper_def by (simp add: Let_def del: append_take_drop_id)
  qed
  show "\<And>x. x \<in> set (rt_routes (invalidateCache (t\<lparr>rt_routes := ?i, rt_nextId := n\<rparr>))) \<Longrightarrow>
      re_id x < rt_nextId (invalidateCache (t\<lparr>rt_routes := ?i, rt_nextId := n\<rparr>))"
    using ok(2) assms(3,4) by (fastforce simp: by_route.set_insert_upper)
qed (use rt_okD[OF assms(1)] in \<open>simp_all add: by_route.ordered_insert\<close>)

lemma rt_ok_addRoute:
  assumes "rt_ok t" "internalAddRoute r t = Inr t'" "re_id r \<notin> re_id ` set (rt_routes t)" "re_id r < rt_nextId t"
  shows "rt_ok t'"
proof -
  define t1 where "t1 = (if ip_isUnspecified (re_netmask r) then
      (case getDefaultRoute t of Some old \<Rightarrow> snd (deleteRoute (re_id old) t) | None \<Rightarrow> t) else t)"
  have t': "t' = invalidateCache (t1\<lparr>rt_routes := insert_upper (routeLessThan (rt_useAdminDist t1)) r (rt_routes t1)\<rparr>)"
    using assms(2) by (auto simp: internalAddRoute_def t1_def[symmetric] Let_def split: if_splits)
  have "t1 = t \<or> (\<exists>i. t1 = snd (internalRemoveRoute i t))"
    by (auto simp: t1_def deleteRoute_def split: option.splits prod.splits) (metis snd_conv)
  then have "rt_ok t1 \<and> re_id r \<notin> re_id ` set (rt_routes t1) \<and> rt_nextId t1 = rt_nextId t"
  proof
    assume "\<exists>i. t1 = snd (internalRemoveRoute i t)"
    then obtain i x where x: "internalRemoveRoute i t = (x, t1)" by (metis prod.collapse)
    then show ?thesis using rt_ok_remove[OF assms(1) x] remove_simps[OF x] assms(3) by (auto split: if_splits)
  qed (use assms in auto)
  then have t1: "rt_ok t1" "re_id r \<notin> re_id ` set (rt_routes t1)" "rt_nextId t1 = rt_nextId t" by simp_all
  have upd: "t1\<lparr>rt_routes := rs, rt_nextId := rt_nextId t\<rparr> = t1\<lparr>rt_routes := rs\<rparr>" for rs
    using t1(3) by (cases t1) simp
  show ?thesis unfolding t'
    by (rule rt_ok_insert[OF t1(1,2) assms(4), unfolded upd]) (use t1(3) in simp)
qed

lemma rt_ok_mono_id: "rt_ok t \<Longrightarrow> rt_ok (t\<lparr>rt_nextId := Suc (rt_nextId t)\<rparr>)"
  by (auto simp: rt_ok_def less_Suc_eq)

lemma rt_ok_addNetmask: "rt_ok t \<Longrightarrow> rt_ok (addNetmaskRoute ie t)"
  unfolding addNetmaskRoute_def
  by (rule rt_ok_insert) (auto simp: netmask_route_def rt_ok_def)

lemma rt_ok_updateNetmask: "rt_ok t \<Longrightarrow> rt_ok (updateNetmaskRoutes m ift t)"
proof -
  have "rt_ok t \<Longrightarrow> rt_ok (fold addNetmaskRoute ies t)" for ies t
    by (induction ies arbitrary: t) (simp_all add: rt_ok_addNetmask)
  then show "rt_ok t \<Longrightarrow> rt_ok (updateNetmaskRoutes m ift t)"
    by (simp add: updateNetmaskRoutes_def rt_ok_drop)
qed

lemma rt_ok_deleteInterface: "rt_ok t \<Longrightarrow> rt_ok (deleteInterfaceRoutes i t)"
proof -
  assume "rt_ok t"
  let ?t = "drop_routes (\<lambda>r. re_interface r = Some i) t"
  have ok: "rt_ok ?t" by (rule rt_ok_drop[OF \<open>rt_ok t\<close>])
  let ?m = "filter (\<lambda>r. mr_in r \<noteq> Some i) (rt_mroutes ?t)"
  have "by_mroute.ordered ?m" using ok by (simp add: rt_ok_def by_mroute.ordered_filter)
  moreover have "map mroute_key (map (\<lambda>r. r\<lparr>mr_outs := removeOutInterface i (mr_outs r)\<rparr>) ?m) = map mroute_key ?m"
    by (simp add: mroute_key_def)
  ultimately have "by_mroute.ordered (map (\<lambda>r. r\<lparr>mr_outs := removeOutInterface i (mr_outs r)\<rparr>) ?m)"
    using by_mroute.ordered_cong by blast
  then show ?thesis using ok by (auto simp: deleteInterfaceRoutes_def Let_def rt_ok_def)
qed

lemma rt_ok_purge: "rt_ok t \<Longrightarrow> rt_ok (purge t)"
  by (auto simp: purge_def Let_def rt_ok_drop rt_ok_mfilter)

lemma rt_ok_signal: "rt_ok t \<Longrightarrow> rt_ok (rt_receiveSignal m ift s t)"
  by (cases s) (simp_all add: rt_receiveSignal_def Let_def rt_ok_updateNetmask rt_ok_deleteInterface)

text \<open>A change in place that keeps the identity, the key and what the route matches.\<close>

lemma scan_map:
  assumes "\<And>r. r \<in> set rs \<Longrightarrow> route_matches d (g r) = route_matches d r"
  shows "scan_routes d (map g rs) = map_option g (scan_routes d rs)"
  using assms by (induction rs) (auto simp: scan_routes_def)

lemma rt_ok_map:
  assumes "rt_ok t"
    and "\<And>r. re_id (g r) = re_id r" "\<And>r. route_key (rt_useAdminDist t) (g r) = route_key (rt_useAdminDist t) r"
    and "\<And>r. re_valid (g r) = re_valid r"
  shows "rt_ok (t\<lparr>rt_routes := map g (rt_routes t)\<rparr>)"
proof -
  have eq: "re_dest (g r) = re_dest r" "re_netmask (g r) = re_netmask r" for r
    using assms(3)[of r] by (simp_all add: route_key_def word_uint_eq_iff)
  then have m: "route_matches d (g r) = route_matches d r" for d r
    by (simp add: route_matches_def assms(4))
  have ids: "map re_id (map g (rt_routes t)) = map re_id (rt_routes t)"
    and keys: "map (route_key (rt_useAdminDist t)) (map g (rt_routes t)) = map (route_key (rt_useAdminDist t)) (rt_routes t)"
    by (simp_all add: assms(2,3))
  have "cache_ok (map g (rt_routes t)) (rt_cache t)"
    using cache_okD[OF rt_okD(4)[OF assms(1)]]
    by (intro cache_okI) (auto simp: scan_map m assms(2,4))
  then show ?thesis using rt_okD[OF assms(1)] ids keys by_route.ordered_cong[OF keys]
    by (auto simp: rt_ok_def assms(2) simp del: map_map)
qed

definition expireRoute :: "nat \<Rightarrow> routing_table \<Rightarrow> routing_table" where
  "expireRoute i t = update_route i (\<lambda>r. r\<lparr>re_valid := False\<rparr>) t"

lemma scan_expire:
  fixes i :: nat
  defines "g \<equiv> \<lambda>r. if re_id r = i then r\<lparr>re_valid := False\<rparr> else r"
  shows "scan_routes d rs = None \<Longrightarrow> scan_routes d (map g rs) = None"
    and "scan_routes d rs = Some r \<Longrightarrow> re_id r \<noteq> i \<Longrightarrow> scan_routes d (map g rs) = Some r"
  by (induction rs) (auto simp: scan_routes_def g_def route_matches_def split: if_splits)

lemma rt_ok_expire:
  assumes "rt_ok t"
  shows "rt_ok (expireRoute i t)"
proof -
  let ?g = "\<lambda>r. if re_id r = i then r\<lparr>re_valid := False\<rparr> else r"
  have keys: "map (route_key u) (map ?g (rt_routes t)) = map (route_key u) (rt_routes t)" for u
    by (simp add: route_key_def)
  have ids: "map re_id (map ?g (rt_routes t)) = map re_id (rt_routes t)" by simp
  have "cache_ok (map ?g (rt_routes t)) (rt_cache t)"
    using cache_okD[OF rt_okD(4)[OF assms]] scan_expire[where rs = "rt_routes t" and i = i]
    by (intro cache_okI) (auto split: if_splits)
  then show ?thesis using rt_okD[OF assms] ids by_route.ordered_cong[OF keys]
    by (auto simp: rt_ok_def expireRoute_def update_route_def simp del: map_map)
qed

lemma rt_ok_setRoute:
  assumes "rt_ok t" "setRoute i v t = Inr t'" "\<And>n. v = SetAdminDist n \<Longrightarrow> \<not> rt_useAdminDist t"
  shows "rt_ok t'"
proof (cases "t' = t")
  case False
  let ?u = "update_route i (route_set_value v) t"
  let ?g = "\<lambda>r. if re_id r = i then route_set_value v r else r"
  have rc: "routeChanged i (route_set_field v) ?u = Inr t'"
    using assms(2) False by (auto simp: setRoute_def split: option.splits if_splits)
  have id: "re_id (?g r) = re_id r" "re_valid (?g r) = re_valid r" for r by (cases v; simp)+
  show ?thesis
  proof (cases "route_set_field v \<in> {F_DESTINATION, F_PREFIX_LENGTH, F_METRIC}")
    case True
    then obtain r t1 where r: "internalRemoveRoute i ?u = (Some r, t1)" "internalAddRoute r t1 = Inr t'"
      using rc by (auto simp: routeChanged_def split: prod.splits option.splits)
    have "filter (\<lambda>r. re_id r \<noteq> i) (map ?g rs) = filter (\<lambda>r. re_id r \<noteq> i) rs" for rs
      by (induction rs) (auto simp: id(1))
    then have t1: "t1 = invalidateCache (t\<lparr>rt_routes := filter (\<lambda>r. re_id r \<noteq> i) (rt_routes t)\<rparr>)"
      using r(1) by (auto simp: internalRemoveRoute_def update_route_def split: option.splits)
    have ri: "re_id r = i" "r \<in> ?g ` set (rt_routes t)"
      using remove_simps[OF r(1)] by (auto simp: update_route_def)
    then obtain x where "x \<in> set (rt_routes t)" "r = ?g x" by blast
    then have "i \<in> re_id ` set (rt_routes t)" using id(1)[of x] ri(1) by (metis imageI)
    moreover note ri(1)
    moreover have "rt_ok t1" using rt_ok_filter[OF assms(1)] by (simp add: t1)
    ultimately show ?thesis
      using rt_ok_addRoute[OF _ r(2)] rt_okD(2)[OF assms(1)] by (fastforce simp: t1)
  next
    case False
    then have "t' = ?u" using rc by (auto simp: routeChanged_def split: if_splits)
    moreover have "route_key (rt_useAdminDist t) (?g r) = route_key (rt_useAdminDist t) r" for r
      using False assms(3) by (cases v) (auto simp: route_key_def)
    ultimately show ?thesis using rt_ok_map[OF assms(1) id(1) _ id(2)] by (simp add: update_route_def)
  qed
qed (use assms in simp)

lemma scan_Some_iff: "scan_routes d rs = Some r \<Longrightarrow> r \<in> set rs \<and> route_matches d r"
  by (auto simp: scan_routes_def find_Some_iff)

lemma scan_None_iff: "scan_routes d rs = None \<longleftrightarrow> (\<forall>r \<in> set rs. \<not> route_matches d r)"
  by (auto simp: scan_routes_def find_None_iff)

lemma cache_ok_insert:
  assumes "cache_ok rs c" "distinct (map re_id rs)" "e = map_option re_id (scan_routes d rs)"
  shows "cache_ok rs (map_insert d e c)"
proof -
  have "r = r'" if "r \<in> set rs" "r' \<in> set rs" "re_id r = re_id r'" for r r'
    using assms(2) that by (simp add: distinct_map inj_on_def)
  then show ?thesis
    using assms(3) scan_Some_iff[of d rs] cache_okD[OF assms(1)]
    by (intro cache_okI) (auto simp: map_ok_insert std_map.get_put split: if_splits)
qed

text \<open>The lookup answers what a scan answers, and keeps the invariant.\<close>

lemma findBestMatchingRoute_scan:
  assumes "rt_ok t" "findBestMatchingRoute d t = (x, t')"
  shows "x = scan_routes d (rt_routes t)" "rt_ok t'" "rt_routes t' = rt_routes t"
proof -
  have c: "cache_ok (rt_routes t) (rt_cache t)" by (rule rt_okD(4)[OF assms(1)])
  have ins: "rt_ok (t\<lparr>rt_cache := map_insert d (map_option re_id (scan_routes d (rt_routes t))) (rt_cache t)\<rparr>)"
    using assms(1) cache_ok_insert[OF c rt_okD(1)[OF assms(1)] refl] by (auto simp: rt_ok_def)
  have "x = scan_routes d (rt_routes t) \<and> rt_ok t' \<and> rt_routes t' = rt_routes t"
  proof (cases "map_of (rt_cache t) d")
    case None
    then show ?thesis using assms(2) ins by (auto simp: findBestMatchingRoute_def Let_def)
  next
    case (Some e)
    show ?thesis
    proof (cases e)
      case None
      then show ?thesis using assms cache_okD(2)[OF c, of d] Some by (auto simp: findBestMatchingRoute_def Let_def)
    next
      case e: (Some i)
      show ?thesis
      proof (cases "find (\<lambda>r. re_id r = i \<and> re_valid r) (rt_routes t)")
        case None
        then show ?thesis using assms(2) ins Some e by (auto simp: findBestMatchingRoute_def Let_def)
      next
        case r: (Some r)
        then have "r \<in> set (rt_routes t)" "re_id r = i" "re_valid r" by (auto simp: find_Some_iff)
        then have "scan_routes d (rt_routes t) = Some r"
          using cache_okD(3)[OF c] Some e by auto
        then show ?thesis using assms r Some e by (auto simp: findBestMatchingRoute_def Let_def)
      qed
    qed
  qed
  then show "x = scan_routes d (rt_routes t)" "rt_ok t'" "rt_routes t' = rt_routes t" by simp_all
qed

section \<open>Reachable tables\<close>

text \<open>
  The operations other modules call. A new route object has an identity of its own. Setting
  the administrative distance of a route in the table is only included when the table does
  not order by it: \<open>routeChanged\<close> does not reposition the route then.
\<close>

inductive rt_step :: "routing_table \<Rightarrow> routing_table \<Rightarrow> bool" where
  rt_add: "re_id r = rt_nextId t \<Longrightarrow> addRoute r (t\<lparr>rt_nextId := Suc (rt_nextId t)\<rparr>) = Inr t' \<Longrightarrow> rt_step t t'"
| rt_remove: "removeRoute i t = (x, t') \<Longrightarrow> rt_step t t'"
| rt_delete: "deleteRoute i t = (b, t') \<Longrightarrow> rt_step t t'"
| rt_set: "setRoute i v t = Inr t' \<Longrightarrow> (\<And>n. v = SetAdminDist n \<Longrightarrow> \<not> rt_useAdminDist t) \<Longrightarrow> rt_step t t'"
| rt_expire: "rt_step t (expireRoute i t)"
| rt_purge: "rt_step t (purge t)"
| rt_signal: "rt_step t (rt_receiveSignal m ift s t)"
| rt_stopped: "rt_step t (rt_stop t)"
| rt_lookup: "findBestMatchingRoute d t = (x, t') \<Longrightarrow> rt_step t t'"
| rt_broadcast: "isLocalBroadcastAddress ift a t = (b, t') \<Longrightarrow> rt_step t t'"
| rt_addm: "internalAddMulticastRoute ift mr t = Inr t' \<Longrightarrow> rt_step t t'"
| rt_removem: "removeMulticastRoute i t = (y, t') \<Longrightarrow> rt_step t t'"

lemma rt_step_ok: "rt_step t t' \<Longrightarrow> rt_ok t \<Longrightarrow> rt_ok t'"
proof (induction rule: rt_step.induct)
  case (rt_add r t t')
  have "re_id r \<notin> re_id ` set (rt_routes t)" using rt_okD(2)[OF rt_add.prems] rt_add.hyps(1) by force
  then show ?case
    using rt_ok_addRoute[OF rt_ok_mono_id[OF rt_add.prems]] rt_add.hyps by (simp add: addRoute_def)
next
  case (rt_delete i t b t')
  then show ?case by (auto simp: deleteRoute_def rt_ok_remove split: prod.splits)
next
  case (rt_broadcast ift a t b t')
  then show ?case by (auto simp: isLocalBroadcastAddress_def Let_def rt_ok_def)
next
  case (rt_addm ift mr t t')
  then show ?case
    by (auto simp: internalAddMulticastRoute_def bindE_eq_Inr rt_ok_def by_mroute.ordered_insert split: if_splits)
next
  case (rt_removem i t y t')
  then show ?case by (auto simp: removeMulticastRoute_def rt_ok_mfilter split: option.splits)
qed (auto simp: removeRoute_def rt_stop_def rt_ok_drop rt_ok_purge rt_ok_signal rt_ok_expire
      intro: rt_ok_remove rt_ok_setRoute findBestMatchingRoute_scan(2))

lemma rt_ok_new: "rt_ok (new_routing_table f m u)"
  by (simp add: rt_ok_def new_routing_table_def by_route.ordered_Nil by_mroute.ordered_Nil)

lemma rt_reachable_ok: "rt_step\<^sup>*\<^sup>* (new_routing_table f m u) t \<Longrightarrow> rt_ok t"
  by (induction rule: rtranclp_induct) (auto simp: rt_ok_new rt_step_ok)

section \<open>Properties\<close>


definition example_route :: "nat \<Rightarrow> ipv4_address \<Rightarrow> ipv4_address \<Rightarrow> 32 word \<Rightarrow> int \<Rightarrow> ipv4_route" where
  "example_route i dst msk ad metric = \<lparr>re_id = i, re_dest = dst, re_netmask = msk, re_gateway = 0,
     re_interface = Some 100, re_source = SRC_MANUAL, re_adminDist = ad, re_metric = metric, re_valid = True\<rparr>"

lemma bits_mask24: "find (bit (0xFFFFFF00 :: 32 word)) [0..<32] = Some 8"
  by (simp add: upt_rec)

lemma bits_mask16: "find (bit (0xFFFF0000 :: 32 word)) [0..<32] = Some 16"
  by (simp add: upt_rec)

lemma example_masks [simp]: "isValidNetmask 0xFFFFFF00" "isValidNetmask 0xFFFF0000"
  by (simp_all add: isValidNetmask_def getNetmaskLength_def makeNetmask_def bits_mask24 bits_mask16)

lemma example_add:
  "addRoute (example_route 0 0x0A000000 0xFFFF0000 1 1) ((new_routing_table True False u)\<lparr>rt_nextId := 1\<rparr>)
     = Inr ((new_routing_table True False u)\<lparr>rt_nextId := 1, rt_routes := [example_route 0 0x0A000000 0xFFFF0000 1 1]\<rparr>)"
  by (simp add: addRoute_def internalAddRoute_def example_route_def new_routing_table_def insert_upper_def
      partition_point_def invalidateCache_def ip_isUnspecified_def)

lemma example_add2:
  "addRoute (example_route 1 0x0A000100 0xFFFFFF00 1 7) ((new_routing_table True False u)\<lparr>rt_nextId := 2, rt_routes := [example_route 0 0x0A000000 0xFFFF0000 1 1]\<rparr>)
     = Inr ((new_routing_table True False u)\<lparr>rt_nextId := 2,
         rt_routes := [example_route 1 0x0A000100 0xFFFFFF00 1 7, example_route 0 0x0A000000 0xFFFF0000 1 1]\<rparr>)"
  by (simp add: addRoute_def internalAddRoute_def example_route_def new_routing_table_def insert_upper_def
      partition_point_def invalidateCache_def ip_isUnspecified_def routeLessThan_def)

lemma example_reachable:
  "rt_step\<^sup>*\<^sup>* (new_routing_table True False u) ((new_routing_table True False u)\<lparr>rt_nextId := 2,
         rt_routes := [example_route 1 0x0A000100 0xFFFFFF00 1 7, example_route 0 0x0A000000 0xFFFF0000 1 1]\<rparr>)"
proof -
  have "rt_step (new_routing_table True False u)
     ((new_routing_table True False u)\<lparr>rt_nextId := 1, rt_routes := [example_route 0 0x0A000000 0xFFFF0000 1 1]\<rparr>)"
    by (rule rt_add[where r = "example_route 0 0x0A000000 0xFFFF0000 1 1"])
       (use example_add[of u] in \<open>simp_all add: new_routing_table_def example_route_def\<close>)
  moreover have "rt_step ((new_routing_table True False u)\<lparr>rt_nextId := 1, rt_routes := [example_route 0 0x0A000000 0xFFFF0000 1 1]\<rparr>)
     ((new_routing_table True False u)\<lparr>rt_nextId := 2,
         rt_routes := [example_route 1 0x0A000100 0xFFFFFF00 1 7, example_route 0 0x0A000000 0xFFFF0000 1 1]\<rparr>)"
    by (rule rt_add[where r = "example_route 1 0x0A000100 0xFFFFFF00 1 7"])
       (use example_add2[of u] in \<open>simp_all add: new_routing_table_def example_route_def numeral_2_eq_2\<close>)
  ultimately show ?thesis by (meson converse_rtranclp_into_rtranclp rtranclp.rtrancl_refl)
qed

lemma example_lookup:
  "\<exists>t'. findBestMatchingRoute 0x0A000105 ((new_routing_table True False u)\<lparr>rt_nextId := 2,
         rt_routes := [example_route 1 0x0A000100 0xFFFFFF00 1 7, example_route 0 0x0A000000 0xFFFF0000 1 1]\<rparr>)
     = (Some (example_route 1 0x0A000100 0xFFFFFF00 1 7), t')"
  by (simp add: findBestMatchingRoute_def scan_routes_def route_matches_def maskedAddrAreEqual_def
      new_routing_table_def example_route_def)


text \<open>With administrative distances in use, setting the distance of a route that is in the
  table leaves it where it is, and the lookup can then return a route although another one
  for the same destination and netmask has a smaller distance.\<close>

theorem rt_setAdminDist_not_reordered:
  "\<exists>t r r'. rt_useAdminDist t \<and> rt_ok t \<and>
    (\<exists>t'. setRoute 0 (SetAdminDist 9) t = Inr t' \<and> fst (findBestMatchingRoute 0x0A000105 t') = Some r \<and>
       r' \<in> set (rt_routes t') \<and> route_matches 0x0A000105 r' \<and>
       re_netmask r' = re_netmask r \<and> re_dest r' = re_dest r \<and> re_adminDist r' < re_adminDist r)"
proof -
  define r0 where "r0 = example_route 0 0x0A000100 0xFFFFFF00 1 7"
  define r1 where "r1 = example_route 1 0x0A000100 0xFFFFFF00 2 7"
  define t where "t = (new_routing_table True False True)\<lparr>rt_nextId := 2, rt_routes := [r0, r1]\<rparr>"
  have "rt_ok t"
    by (simp add: rt_ok_def t_def r0_def r1_def example_route_def new_routing_table_def by_route.ordered_def
        route_key_def by_mroute.ordered_def less_eq_prod_simp)
  moreover have "setRoute 0 (SetAdminDist 9) t = Inr (t\<lparr>rt_routes := [r0\<lparr>re_adminDist := 9\<rparr>, r1]\<rparr>)"
    by (simp add: setRoute_def t_def r0_def r1_def example_route_def routeChanged_def update_route_def)
  moreover have "fst (findBestMatchingRoute 0x0A000105 (t\<lparr>rt_routes := [r0\<lparr>re_adminDist := 9\<rparr>, r1]\<rparr>)) = Some (r0\<lparr>re_adminDist := 9\<rparr>)"
    by (simp add: findBestMatchingRoute_def scan_routes_def route_matches_def maskedAddrAreEqual_def
        t_def r0_def r1_def example_route_def new_routing_table_def)
  moreover have "route_matches 0x0A000105 r1"
    by (simp add: r1_def example_route_def route_matches_def maskedAddrAreEqual_def)
  ultimately show ?thesis
    by (intro exI[of _ t] exI[of _ "r0\<lparr>re_adminDist := 9\<rparr>"] exI[of _ r1])
       (simp add: t_def r0_def r1_def example_route_def new_routing_table_def)
qed

end
