(* ===== verification/Ipv4_Output.thy ===== *)
theory Ipv4_Output
  imports Frag_Bufs Wire Routing_Table
begin

text \<open>
  The state of the IPv4 module and its sending side (\<open>networklayer/ipv4/Ipv4.{h,cc}\<close>):
  checksums, \<open>encapsulate\<close>, the output queue, \<open>fragmentAndSend\<close> with the timer-driven and the
  RDMA variant, ARP-pending packets, and the hooks. A handler is a function on the state
  that may raise; what it sends is appended to \<open>is_out\<close>. What other modules provide is in the
  environment \<open>ip_env\<close>: the interfaces, the answers of ARP, the hooks, the parameters, the
  time. The end-of-transmission timer is a flag: scheduling it twice raises, as in the
  simulation kernel.
\<close>

section \<open>Environment, outputs and state\<close>

datatype hook_result = ACCEPT | DROP | QUEUE | STOLEN
datatype hook_type = PREROUTING | LOCALIN | FORWARD | POSTROUTING | LOCALOUT

type_synonym hook = "hook_type \<Rightarrow> packet \<Rightarrow> (hook_result \<times> packet) res"

record ip_env =
  en_now :: simtime
  en_ift :: "network_interface list"
  en_crcMode :: crc_mode
  en_defaultTtl :: int
  en_defaultMcTtl :: int
  en_fragmentTimeout :: simtime
  en_second :: simtime
  en_limitedBroadcast :: bool
  en_directBroadcast :: "string \<Rightarrow> bool"
  en_arp :: "ipv4_address \<Rightarrow> network_interface \<Rightarrow> mac_address"
  en_hooks :: "hook list"
  en_txChannel :: bool
  en_upperBusy :: bool
  en_upperProtocols :: "protocol list"
  en_moduleId :: int
  en_newMulticast :: "ipv4_header \<Rightarrow> routing_table \<Rightarrow> routing_table"

datatype ip_drop_reason =
    Incorrect | ForwardingDisabled | NoInterfaceFound | NoRouteFound | HopLimitReached
  | AddressResolutionFailed | OtherReason

datatype icmp_type = IcmpParameterProblem | IcmpDestinationUnreachable | IcmpTimeExceeded

datatype ip_output =
    QueueOut packet             \<comment> \<open>\<open>send(p, "queueOut")\<close>\<close>
  | TransportOut packet         \<comment> \<open>\<open>send(p, "transportOut")\<close>\<close>
  | SocketClosed int            \<comment> \<open>the \<open>closed\<close> indication of a socket\<close>
  | IpDropped ip_drop_reason packet
  | IcmpError packet int icmp_type nat
  | IcmpPtb packet int
  | RescheduleEndUpper

record socket_descriptor =
  sd_socketId :: int
  sd_protocol :: protocol
  sd_localAddress :: ipv4_address
  sd_remoteAddress :: ipv4_address

record ipv4_state =
  is_out :: "ip_output list"
  is_rt :: routing_table
  is_isRdma :: bool
  is_curFragmentId :: "16 word"
  is_fragbuf :: "ipv4_key frag_bufs"
  is_lastCheckTime :: simtime
  is_sockets :: "(int \<times> socket_descriptor) list"
  is_pending :: "(ipv4_address \<times> packet list) list"
  is_numMulticast :: int
  is_numLocalDeliver :: int
  is_numDropped :: int
  is_numUnroutable :: int
  is_numForwarded :: int
  is_latencyReception :: simtime
  is_timer :: bool
  is_offset :: int
  is_mtu :: int
  is_headerLength :: int
  is_payloadLength :: int
  is_fragmentLength :: int
  is_offsetBase :: int
  is_noOfFragments :: int
  is_fragMsgName :: string
  is_header :: "ipv4_header option"
  is_packet :: "packet option"
  is_current :: "packet option"
  is_packetToUpper :: "packet option"
  is_queue :: "packet list"
  is_queueToUpper :: "packet list"
  is_hookQueue :: "(packet \<times> hook_type) list"

text \<open>After \<open>initialize\<close>; members without an initializer are 0.\<close>

definition ipv4_init :: "routing_table \<Rightarrow> ipv4_state" where
  "ipv4_init rt = \<lparr>is_out = [], is_rt = rt, is_isRdma = False, is_curFragmentId = 0, is_fragbuf = [], is_lastCheckTime = 0,
     is_sockets = [], is_pending = [], is_numMulticast = 0, is_numLocalDeliver = 0, is_numDropped = 0, is_numUnroutable = 0,
     is_numForwarded = 0, is_latencyReception = 0, is_timer = False, is_offset = 0, is_mtu = 0, is_headerLength = 0,
     is_payloadLength = 0, is_fragmentLength = 0, is_offsetBase = 0, is_noOfFragments = 0, is_fragMsgName = [],
     is_header = None, is_packet = None, is_current = None, is_packetToUpper = None, is_queue = [], is_queueToUpper = [],
     is_hookQueue = []\<rparr>"

definition emit_out :: "ip_output \<Rightarrow> ipv4_state \<Rightarrow> ipv4_state" where
  "emit_out x s = s\<lparr>is_out := is_out s @ [x]\<rparr>"

definition null_pointer :: err where
  "null_pointer = RuntimeError ''null pointer''"

definition sendIcmpError :: "packet \<Rightarrow> int \<Rightarrow> icmp_type \<Rightarrow> nat \<Rightarrow> ipv4_state \<Rightarrow> ipv4_state" where
  "sendIcmpError p inputInterface ty code s = emit_out (IcmpError p inputInterface ty code) s"

section \<open>Packet helpers\<close>

text \<open>\<open>removeNetworkProtocolHeader\<close> and \<open>insertNetworkProtocolHeader\<close> of \<open>L3Tools\<close>.\<close>

definition removeNetworkProtocolHeader :: "packet \<Rightarrow> (ipv4_header \<times> packet) res" where
  "removeNetworkProtocolHeader p =
    (let p = p\<lparr>pk_tags := (pk_tags p)\<lparr>t_networkInd := None, t_packetProtocol := None\<rparr>\<rparr>
     in bindE (trim p) (\<lambda>p. removeAtFront as_ipv4 p))"

definition insertNetworkProtocolHeader :: "ipv4_header \<Rightarrow> packet \<Rightarrow> packet res" where
  "insertNetworkProtocolHeader h p =
    insertAtFront (header_cells (Ipv4H h))
      (p\<lparr>pk_tags := (pk_tags p)\<lparr>t_networkInd := Some (P_ipv4, Some (Ipv4H h)), t_packetProtocol := Some P_ipv4\<rparr>\<rparr>)"

text \<open>Taking the header off, changing it and putting it back.\<close>

definition ip_tagged :: "ipv4_header \<Rightarrow> tags \<Rightarrow> tags" where
  "ip_tagged h t = t\<lparr>t_networkInd := Some (P_ipv4, Some (Ipv4H h)), t_packetProtocol := Some P_ipv4\<rparr>"

lemma removeNetworkProtocolHeader_ok:
  assumes "packet_ok p" "pk_data p = header_cells (Ipv4H h) @ d"
  shows "\<exists>q. removeNetworkProtocolHeader p = Inr (h, q) \<and> packet_ok q \<and> pk_data q = d \<and> pk_name q = pk_name p \<and> pk_kind q = pk_kind p \<and>
    pk_tags q = (pk_tags p)\<lparr>t_networkInd := None, t_packetProtocol := None\<rparr>"
proof -
  let ?p = "p\<lparr>pk_tags := (pk_tags p)\<lparr>t_networkInd := None, t_packetProtocol := None\<rparr>\<rparr>"
  let ?q = "?p\<lparr>pk_content := pk_data ?p, pk_front := 0, pk_back := 0\<rparr>"
  have t: "trim ?p = Inr ?q" by (rule trim_ok) (simp add: assms(1))
  have d: "pk_data ?q = header_cells (Ipv4H h) @ d" using assms(2) by (simp add: pk_data_alt)
  show ?thesis
    using removeAtFront_ok[OF d, of as_ipv4 h] t by (auto simp: removeNetworkProtocolHeader_def)
qed

lemma insertNetworkProtocolHeader_ok:
  assumes "packet_ok p"
  shows "\<exists>q. insertNetworkProtocolHeader h p = Inr q \<and> packet_ok q \<and> pk_data q = header_cells (Ipv4H h) @ pk_data p \<and>
    pk_name q = pk_name p \<and> pk_kind q = pk_kind p \<and> pk_tags q = ip_tagged h (pk_tags p)"
proof -
  let ?p = "p\<lparr>pk_tags := ip_tagged h (pk_tags p)\<rparr>"
  have ok: "packet_ok ?p" using assms by simp
  have ne: "header_cells (Ipv4H h) \<noteq> []" using length_header_cells[of "Ipv4H h"] by force
  obtain q where q: "insertAtFront (header_cells (Ipv4H h)) ?p = Inr q" using insertAtFront_eq[OF ok ne] by blast
  then have "insertNetworkProtocolHeader h p = Inr q" by (simp add: insertNetworkProtocolHeader_def ip_tagged_def)
  then show ?thesis using insertAtFront_ok[OF ok ne q] by (intro exI[of _ q]) simp
qed

lemma ip_tagged_simps [simp]:
  "ip_tagged h (ip_tagged h' t) = ip_tagged h t"
  "ip_tagged h (t\<lparr>t_networkInd := x, t_packetProtocol := y\<rparr>) = ip_tagged h t"
  "t_interfaceReq (ip_tagged h t) = t_interfaceReq t" "t_interfaceInd (ip_tagged h t) = t_interfaceInd t"
  "t_nextHopReq (ip_tagged h t) = t_nextHopReq t" "t_packetProtocol (ip_tagged h t) = Some P_ipv4"
  "t_macReq (ip_tagged h t) = t_macReq t"
  by (simp_all add: ip_tagged_def)

definition ip_getNextHop :: "packet \<Rightarrow> ipv4_address" where
  "ip_getNextHop p = (case t_nextHopReq (pk_tags p) of Some a \<Rightarrow> a | None \<Rightarrow> 0)"

definition set_interfaceReq :: "int \<Rightarrow> packet \<Rightarrow> packet" where
  "set_interfaceReq i p = p\<lparr>pk_tags := (pk_tags p)\<lparr>t_interfaceReq := Some i\<rparr>\<rparr>"

definition set_nextHop :: "ipv4_address \<Rightarrow> packet \<Rightarrow> packet" where
  "set_nextHop a p = p\<lparr>pk_tags := (pk_tags p)\<lparr>t_nextHopReq := Some a\<rparr>\<rparr>"

definition reqInterface :: "ip_env \<Rightarrow> packet \<Rightarrow> network_interface res" where
  "reqInterface env p = bindE (getTag (t_interfaceReq (pk_tags p))) (getInterfaceById (en_ift env))"

section \<open>Checksum\<close>

definition ip_verifyCrc :: "bool \<Rightarrow> ipv4_header \<Rightarrow> bool res" where
  "ip_verifyCrc headerOk h =
    (case ih_crcMode h of
       CRC_DECLARED_CORRECT \<Rightarrow> Inr headerOk
     | CRC_DECLARED_INCORRECT \<Rightarrow> Inr False
     | CRC_COMPUTED \<Rightarrow>
         (if headerOk then bindE (ipv4_serialize h) (\<lambda>bytes. Inr (tcpip_checksum bytes = 0)) else Inr False)
     | _ \<Rightarrow> Inl (RuntimeError ''Unknown CRC mode''))"

definition ip_setComputedCrc :: "ip_env \<Rightarrow> ipv4_header \<Rightarrow> ipv4_header res" where
  "ip_setComputedCrc env h =
    (if en_crcMode env \<noteq> CRC_COMPUTED then Inl (AssertFailed ''crcMode == CRC_COMPUTED'')
     else bindE (ipv4_serialize (h\<lparr>ih_crc := 0\<rparr>)) (\<lambda>bytes. Inr (h\<lparr>ih_crc := tcpip_checksum bytes\<rparr>)))"

definition ip_insertCrc :: "ipv4_header \<Rightarrow> ipv4_header res" where
  "ip_insertCrc h =
    (case ih_crcMode h of
       CRC_DECLARED_CORRECT \<Rightarrow> Inr (h\<lparr>ih_crc := 0xC00D\<rparr>)
     | CRC_DECLARED_INCORRECT \<Rightarrow> Inr (h\<lparr>ih_crc := 0xBAAD\<rparr>)
     | CRC_COMPUTED \<Rightarrow>
         bindE (ipv4_serialize (h\<lparr>ih_crc := 0\<rparr>)) (\<lambda>bytes. Inr (h\<lparr>ih_crc := tcpip_checksum bytes\<rparr>))
     | _ \<Rightarrow> Inl (RuntimeError ''Unknown CRC mode''))"

section \<open>Hooks\<close>

fun run_hooks :: "hook list \<Rightarrow> hook_type \<Rightarrow> packet \<Rightarrow> (hook_result \<times> packet) res" where
  "run_hooks [] ty p = Inr (ACCEPT, p)"
| "run_hooks (h # hs) ty p =
    bindE (h ty p) (\<lambda>(r, p). if r = ACCEPT then run_hooks hs ty p else Inr (r, p))"

text \<open>The packet when every hook accepts it; a queued one is kept for \<open>reinjectQueuedDatagram\<close>.\<close>

definition run_datagramHook :: "hook_type \<Rightarrow> ip_env \<Rightarrow> packet \<Rightarrow> ipv4_state \<Rightarrow> (packet option \<times> ipv4_state) res" where
  "run_datagramHook ty env p s =
    bindE (run_hooks (en_hooks env) ty p) (\<lambda>(r, p). Inr (case r of
       ACCEPT \<Rightarrow> (Some p, s)
     | DROP \<Rightarrow> (None, s)
     | QUEUE \<Rightarrow> (None, s\<lparr>is_hookQueue := is_hookQueue s @ [(p, ty)]\<rparr>)
     | STOLEN \<Rightarrow> (None, s)))"

definition datagramPreRoutingHook where "datagramPreRoutingHook = run_datagramHook PREROUTING"
definition datagramForwardHook where "datagramForwardHook = run_datagramHook FORWARD"
definition datagramPostRoutingHook where "datagramPostRoutingHook = run_datagramHook POSTROUTING"
definition datagramLocalInHook where "datagramLocalInHook = run_datagramHook LOCALIN"
definition datagramLocalOutHook where "datagramLocalOutHook = run_datagramHook LOCALOUT"

section \<open>Encapsulation\<close>

definition ip_getDscp :: "8 word \<Rightarrow> 8 word" where
  "ip_getDscp tos = drop_bit 2 (tos AND 0xFC)"

definition ip_getEcn :: "8 word \<Rightarrow> 8 word" where
  "ip_getEcn tos = tos AND 0x03"

definition ip_setDscp :: "8 word \<Rightarrow> 8 word \<Rightarrow> 8 word" where
  "ip_setDscp dscp tos = push_bit 2 (dscp AND 0x3F) OR (tos AND 0x03)"

definition ip_setEcn :: "8 word \<Rightarrow> 8 word \<Rightarrow> 8 word" where
  "ip_setEcn ecn tos = (tos AND 0xFC) OR (ecn AND 0x03)"

definition addTag :: "'a option \<Rightarrow> 'a \<Rightarrow> 'a option res" where
  "addTag old x = (if old \<noteq> None then Inl (RuntimeError ''Tag is present'') else Inr (Some x))"

definition new_ipv4_header :: ipv4_header where
  "new_ipv4_header = \<lparr>ih_headerLength = 20, ih_typeOfService = 0, ih_totalLength = -1, ih_identification = 0,
     ih_moreFragments = False, ih_dontFragment = False, ih_fragmentOffset = 0, ih_timeToLive = 0, ih_protocolId = 59,
     ih_crc = 0, ih_crcMode = CRC_MODE_UNDEFINED, ih_srcAddress = 0, ih_destAddress = 0, ih_options = []\<rparr>"

text \<open>The service class requests: \<open>TosReq\<close> excludes the other two.\<close>

definition ip_encap_tos :: "tags \<Rightarrow> (8 word \<times> tags) res" where
  "ip_encap_tos t =
    bindE (case t_tosReq t of
        None \<Rightarrow> Inr (0, t)
      | Some tos \<Rightarrow>
          if t_dscpReq t \<noteq> None then Inl (RuntimeError ''TosReq and DscpReq found together'')
          else if t_ecnReq t \<noteq> None then Inl (RuntimeError ''TosReq and EcnReq found together'')
          else bindE (addTag (t_tosInd t) tos) (\<lambda>ind. Inr (tos, t\<lparr>t_tosReq := None, t_tosInd := ind\<rparr>))) (\<lambda>(tos, t).
    bindE (case t_dscpReq t of
        None \<Rightarrow> Inr (tos, t)
      | Some d \<Rightarrow> let tos = ip_setDscp d tos in
          bindE (addTag (t_dscpInd t) (ip_getDscp tos)) (\<lambda>ind. Inr (tos, t\<lparr>t_dscpReq := None, t_dscpInd := ind\<rparr>))) (\<lambda>(tos, t).
    case t_ecnReq t of
        None \<Rightarrow> Inr (tos, t)
      | Some e \<Rightarrow> let tos = ip_setEcn e tos in
          bindE (addTag (t_ecnInd t) (ip_getEcn tos)) (\<lambda>ind. Inr (tos, t\<lparr>t_ecnReq := None, t_ecnInd := ind\<rparr>))))"

definition ip_encap_ttl :: "ip_env \<Rightarrow> int \<Rightarrow> ipv4_address \<Rightarrow> int res" where
  "ip_encap_ttl env ttl dest =
    (if ttl \<noteq> -1 then if ttl > 0 then Inr ttl else Inl (AssertFailed ''ttl > 0'')
     else Inr (if ip_isLinkLocalMulticast dest then 1
               else if ip_isMulticast dest then en_defaultMcTtl env else en_defaultTtl env))"

definition ip_declaredCrc :: "crc_mode \<Rightarrow> 16 word res" where
  "ip_declaredCrc m = (case m of
     CRC_DECLARED_CORRECT \<Rightarrow> Inr 0xC00D | CRC_DECLARED_INCORRECT \<Rightarrow> Inr 0xBAAD | CRC_COMPUTED \<Rightarrow> Inr 0
   | _ \<Rightarrow> Inl (RuntimeError ''Unknown CRC mode''))"

definition ip_encapsulate :: "ip_env \<Rightarrow> packet \<Rightarrow> ipv4_state \<Rightarrow> (packet \<times> ipv4_state) res" where
  "ip_encapsulate env p s =
    bindE (getTag (t_l3AddressReq (pk_tags p))) (\<lambda>req.
    bindE (l3_toIpv4 (lr_src req)) (\<lambda>src.
    bindE (l3_toIpv4 (lr_dest req)) (\<lambda>dest.
    bindE (getTag (t_packetProtocol (pk_tags p))) (\<lambda>prot.
    bindE (getProtocolNumber ipprotocol prot) (\<lambda>protId.
    let ttl = (case t_hopLimitReq (pk_tags p) of Some n \<Rightarrow> n | None \<Rightarrow> -1);
        dontFragment = (case t_fragmentationReq (pk_tags p) of Some b \<Rightarrow> b | None \<Rightarrow> False);
        t = (pk_tags p)\<lparr>t_l3AddressReq := None, t_hopLimitReq := None, t_fragmentationReq := None\<rparr>
    in
    if \<not> ip_isUnspecified src \<and> \<not> lr_nonLocalSrc req \<and> getInterfaceByAddress (en_ift env) src = None
    then Inl (RuntimeError ''Wrong source address: no interface with such address'')
    else
      bindE (ip_encap_tos t) (\<lambda>(tos, t).
      bindE (ip_encap_ttl env ttl dest) (\<lambda>ttl.
      let opts = (case t_optionsReq t of Some os \<Rightarrow> os | None \<Rightarrow> []);
          t = t\<lparr>t_optionsReq := None\<rparr>;
          h = new_ipv4_header\<lparr>ih_typeOfService := tos, ih_identification := of_int (en_moduleId env * 10) + is_curFragmentId s,
                ih_dontFragment := dontFragment, ih_timeToLive := ttl, ih_protocolId := protId, ih_srcAddress := src,
                ih_destAddress := dest, ih_options := opts, ih_crcMode := en_crcMode env\<rparr>;
          chunkLength = int (header_length (Ipv4H h));
          p = p\<lparr>pk_tags := t\<rparr>
      in
      if \<not> chunkLength \<le> 60 then Inl (AssertFailed ''getChunkLength() <= IPv4_MAX_HEADER_LENGTH'')
      else
        bindE (ip_declaredCrc (en_crcMode env)) (\<lambda>crc.
        let h = h\<lparr>ih_headerLength := chunkLength, ih_totalLength := chunkLength + int (dataLength p), ih_crc := crc\<rparr>
        in
        bindE (insertNetworkProtocolHeader h p) (\<lambda>p.
          Inr (p, s\<lparr>is_curFragmentId := is_curFragmentId s + 1\<rparr>))))))))))"

section \<open>To the network interface\<close>

definition ip_sendPacketToNIC :: "ip_env \<Rightarrow> packet \<Rightarrow> ipv4_state \<Rightarrow> ipv4_state res" where
  "ip_sendPacketToNIC env p s =
    bindE (reqInterface env p) (\<lambda>ie.
    let t = (pk_tags p)\<lparr>t_packetProtocol := Some (if is_isRdma s then P_rdma else P_ipv4),
                         t_dispatchInd := Some P_ipv4, t_dispatchReq := ie_protocol ie\<rparr>;
        s = emit_out (QueueOut (p\<lparr>pk_tags := t\<rparr>)) s
    in
    if en_txChannel env then
      if is_timer s then Inl (RuntimeError ''scheduleAt(): message is already scheduled'')
      else Inr (s\<lparr>is_timer := True\<rparr>)
    else Inr s)"

definition makeMulticastAddress :: "ipv4_address \<Rightarrow> mac_address" where
  "makeMulticastAddress a = 0x01005E000000 OR ucast (a AND 0x7FFFFF)"

definition ip_resolveNextHopMacAddress :: "ip_env \<Rightarrow> ipv4_address \<Rightarrow> network_interface \<Rightarrow> mac_address" where
  "ip_resolveNextHopMacAddress env nextHop ie =
    (if ip_isLimitedBroadcast nextHop \<or> nextHop = ie_broadcastAddress ie then 0xFFFFFFFFFFFF
     else if ip_isMulticast nextHop then makeMulticastAddress nextHop
     else en_arp env nextHop ie)"

definition set_macDest :: "mac_address \<Rightarrow> packet \<Rightarrow> packet" where
  "set_macDest m p = p\<lparr>pk_tags := (pk_tags p)\<lparr>t_macReq :=
     Some (case t_macReq (pk_tags p) of Some (src, _) \<Rightarrow> (src, m) | None \<Rightarrow> (0, m))\<rparr>\<rparr>"

definition ip_sendDatagramToOutput :: "ip_env \<Rightarrow> packet \<Rightarrow> ipv4_state \<Rightarrow> ipv4_state res" where
  "ip_sendDatagramToOutput env p s =
    bindE (reqInterface env p) (\<lambda>ie.
    bindE (getTag (t_nextHopReq (pk_tags p))) (\<lambda>nextHop.
    let p = p\<lparr>pk_tags := (pk_tags p)\<lparr>t_nextHopReq := None\<rparr>\<rparr> in
    if \<not> ie_isBroadcast ie \<or> ie_mac ie = 0 then ip_sendPacketToNIC env p s
    else
      let mac = ip_resolveNextHopMacAddress env nextHop ie;
          waiting = map_of (is_pending s) nextHop
      in
      if mac = 0 then
        Inr (s\<lparr>is_pending := map_insert nextHop ((case waiting of Some q \<Rightarrow> q | None \<Rightarrow> []) @ [p]) (is_pending s)\<rparr>)
      else if waiting \<noteq> None then Inl (AssertFailed ''Ipv4-ARP error: Ipv4 queue for nextHopAddr not empty'')
      else ip_sendPacketToNIC env (set_macDest mac p) s))"

text \<open>The notifications of ARP.\<close>

fun send_waiting :: "ip_env \<Rightarrow> int \<Rightarrow> mac_address \<Rightarrow> packet list \<Rightarrow> ipv4_state \<Rightarrow> ipv4_state res" where
  "send_waiting env ie mac [] s = Inr s"
| "send_waiting env ie mac (p # ps) s =
    bindE (ip_sendPacketToNIC env (set_macDest mac (set_interfaceReq ie p)) s) (send_waiting env ie mac ps)"

definition ip_arpResolutionCompleted :: "ip_env \<Rightarrow> l3_address \<Rightarrow> int \<Rightarrow> mac_address \<Rightarrow> ipv4_state \<Rightarrow> ipv4_state res" where
  "ip_arpResolutionCompleted env addr ie mac s =
    (case addr of
       L3IPv4 a \<Rightarrow>
         (case map_of (is_pending s) a of
            Some ps \<Rightarrow>
              bindE (send_waiting env ie mac ps s) (\<lambda>s. Inr (s\<lparr>is_pending := map_erase a (is_pending s)\<rparr>))
          | None \<Rightarrow> Inr s)
     | _ \<Rightarrow> Inr s)"

definition ip_arpResolutionTimedOut :: "l3_address \<Rightarrow> ipv4_state \<Rightarrow> ipv4_state" where
  "ip_arpResolutionTimedOut addr s =
    (case addr of
       L3IPv4 a \<Rightarrow>
         (case map_of (is_pending s) a of
            Some ps \<Rightarrow> (fold (\<lambda>p. emit_out (IpDropped AddressResolutionFailed p)) ps s)
                         \<lparr>is_pending := map_erase a (is_pending s)\<rparr>
          | None \<Rightarrow> s)
     | _ \<Rightarrow> s)"

section \<open>Fragmentation\<close>

text \<open>
  The body that the RDMA loop and the timer-driven branch of \<open>fragmentAndSend\<close> share: the
  fragment at the current offset. The fragment offset field is a \<open>uint16_t\<close>.
\<close>

definition ip_thisFragmentLength :: "ipv4_state \<Rightarrow> int" where
  "ip_thisFragmentLength s =
    (if is_offset s + is_fragmentLength s \<ge> is_payloadLength s
     then is_payloadLength s - is_offset s else is_fragmentLength s)"

definition ip_fragment_header :: "ipv4_header \<Rightarrow> ipv4_state \<Rightarrow> ipv4_header" where
  "ip_fragment_header h s = h\<lparr>
     ih_moreFragments := (if is_offset s + is_fragmentLength s \<ge> is_payloadLength s then ih_moreFragments h else True),
     ih_fragmentOffset := (is_offsetBase s + is_offset s) mod 65536,
     ih_totalLength := is_headerLength s + ip_thisFragmentLength s\<rparr>"

definition ip_fragment_packet :: "ip_env \<Rightarrow> packet \<Rightarrow> ipv4_header \<Rightarrow> ipv4_state \<Rightarrow> packet res" where
  "ip_fragment_packet env p h s =
    (let lastFragment = is_offset s + is_fragmentLength s \<ge> is_payloadLength s;
         name = is_fragMsgName s @ string_of_nat (nat (is_offset s)) @ (if lastFragment then ''-last'' else []);
         fragment = (new_packet name (en_now env))\<lparr>pk_tags := pk_tags p\<rparr>;
         fraghdr = ip_fragment_header h s
     in
     bindE (peekDataAt (is_headerLength s + is_offset s) (ip_thisFragmentLength s) p) (\<lambda>fragData.
     bindE (insertAtBack fragData fragment) (\<lambda>fragment.
     bindE (if en_crcMode env = CRC_COMPUTED then ip_setComputedCrc env fraghdr else Inr fraghdr) (\<lambda>fraghdr.
       insertAtFront (header_cells (Ipv4H fraghdr)) fragment))))"

lemma ip_fragment_packet_progress:
  "ip_fragment_packet env p h s = Inr f \<Longrightarrow> 0 < ip_thisFragmentLength s"
  by (auto simp: ip_fragment_packet_def Let_def peekDataAt_def bindE_eq_Inr split: if_splits)

text \<open>What sending a packet down touches: the log, the timer, the ARP-pending packets.\<close>

definition sent_from :: "ipv4_state \<Rightarrow> ipv4_state \<Rightarrow> bool" where
  "sent_from s s' \<longleftrightarrow> (\<exists>outs tm pend. s' = s\<lparr>is_out := is_out s @ outs, is_timer := tm, is_pending := pend\<rparr>)"

lemma sent_from_simps:
  assumes "sent_from s s'"
  shows "is_offset s' = is_offset s" "is_payloadLength s' = is_payloadLength s" "is_fragmentLength s' = is_fragmentLength s"
    "is_headerLength s' = is_headerLength s" "is_offsetBase s' = is_offsetBase s" "is_fragMsgName s' = is_fragMsgName s"
    "is_isRdma s' = is_isRdma s" "is_packet s' = is_packet s" "is_current s' = is_current s" "is_queue s' = is_queue s"
    "is_mtu s' = is_mtu s"
  using assms by (auto simp: sent_from_def)

lemma sent_fromI_NIC: "sent_from s (s\<lparr>is_out := is_out s @ outs, is_timer := tm\<rparr>)"
  unfolding sent_from_def by (intro exI[of _ outs] exI[of _ tm] exI[of _ "is_pending s"]) simp

lemma sent_fromI_pending: "sent_from s (s\<lparr>is_pending := q\<rparr>)"
  unfolding sent_from_def by (intro exI[of _ "[]"] exI[of _ "is_timer s"] exI[of _ q]) simp

lemma ip_sendPacketToNIC_sent:
  assumes "ip_sendPacketToNIC env p s = Inr s'"
  shows "sent_from s s'"
proof -
  obtain q where "s' = s\<lparr>is_out := is_out s @ [QueueOut q]\<rparr> \<or> s' = s\<lparr>is_out := is_out s @ [QueueOut q], is_timer := True\<rparr>"
    using assms unfolding ip_sendPacketToNIC_def Let_def emit_out_def
    by (cases "reqInterface env p") (force split: if_splits)+
  moreover have "s\<lparr>is_out := is_out s @ [QueueOut q]\<rparr> = s\<lparr>is_out := is_out s @ [QueueOut q], is_timer := is_timer s\<rparr>"
    by simp
  ultimately show ?thesis using sent_fromI_NIC by metis
qed

lemma ip_sendDatagramToOutput_sent:
  assumes "ip_sendDatagramToOutput env p s = Inr s'"
  shows "sent_from s s'"
proof -
  obtain ie a where ie: "reqInterface env p = Inr ie" "t_nextHopReq (pk_tags p) = Some a"
    using assms by (auto simp: ip_sendDatagramToOutput_def bindE_eq_Inr)
  have "(\<exists>q. ip_sendPacketToNIC env q s = Inr s') \<or> (\<exists>q. s' = s\<lparr>is_pending := q\<rparr>)"
    using assms unfolding ip_sendDatagramToOutput_def ie Let_def getTag_simps bindE_simps
    by (simp split: if_splits) blast+
  then show ?thesis using ip_sendPacketToNIC_sent sent_fromI_pending by metis
qed

text \<open>One fragment of \<open>p\<close> is sent and the offset advanced.\<close>

definition ip_send_fragment :: "ip_env \<Rightarrow> packet \<Rightarrow> ipv4_header \<Rightarrow> ipv4_state \<Rightarrow> ipv4_state res" where
  "ip_send_fragment env p h s =
    bindE (ip_fragment_packet env p h s) (\<lambda>fragment.
    bindE (ip_sendDatagramToOutput env fragment s) (\<lambda>s'.
      Inr (s'\<lparr>is_offset := is_offset s + ip_thisFragmentLength s\<rparr>)))"

text \<open>The RDMA loop, which also asserts the length of the fragment.\<close>

function ip_fragment_loop :: "ip_env \<Rightarrow> packet \<Rightarrow> ipv4_header \<Rightarrow> ipv4_state \<Rightarrow> ipv4_state res" where
  "ip_fragment_loop env p h s =
    (if is_offset s < is_payloadLength s then
       (case ip_fragment_packet env p h s of
          Inl e \<Rightarrow> Inl e
        | Inr fragment \<Rightarrow>
            if int (dataLength fragment) \<noteq> is_headerLength s + ip_thisFragmentLength s
            then Inl (AssertFailed ''fragment->getByteLength() == headerLength + thisFragmentLength'')
            else
              (case ip_sendDatagramToOutput env fragment s of
                 Inl e \<Rightarrow> Inl e
               | Inr s' \<Rightarrow> ip_fragment_loop env p h (s'\<lparr>is_offset := is_offset s + ip_thisFragmentLength s\<rparr>)))
     else Inr s)"
  by pat_completeness auto
termination
proof (relation "measure (\<lambda>(env, p, h, s). nat (is_payloadLength s - is_offset s))")
  fix env p h s fragment s'
  assume a: "is_offset s < is_payloadLength s" "ip_fragment_packet env p h s = Inr fragment"
    "ip_sendDatagramToOutput env fragment s = Inr s'"
  show "((env, p, h, s'\<lparr>is_offset := is_offset s + ip_thisFragmentLength s\<rparr>), env, p, h, s)
    \<in> measure (\<lambda>(env, p, h, s). nat (is_payloadLength s - is_offset s))"
    using ip_fragment_packet_progress[OF a(2)] sent_from_simps[OF ip_sendDatagramToOutput_sent[OF a(3)]] a(1) by simp
qed simp

declare ip_fragment_loop.simps [simp del]

text \<open>
  \<open>fragmentAndSend(p)\<close>. With \<open>shared\<close> the argument is the object the member \<open>packet\<close> points to,
  so that what is done to \<open>currentFragment\<close> is done to it too. A packet that has been sent
  keeps in the state the value it was sent with.
\<close>

definition set_current :: "bool \<Rightarrow> packet \<Rightarrow> ipv4_state \<Rightarrow> ipv4_state" where
  "set_current shared p s = s\<lparr>is_current := Some p, is_packet := (if shared then Some p else is_packet s)\<rparr>"

definition ip_send_whole :: "ip_env \<Rightarrow> bool \<Rightarrow> packet \<Rightarrow> ipv4_state \<Rightarrow> ipv4_state res" where
  "ip_send_whole env shared p s =
    bindE (if en_crcMode env = CRC_COMPUTED then
             bindE (removeNetworkProtocolHeader p) (\<lambda>(h, p).
             bindE (ip_setComputedCrc env h) (\<lambda>h. insertNetworkProtocolHeader h p))
           else Inr p) (\<lambda>p.
    bindE (ip_sendDatagramToOutput env p (set_current shared p s)) (\<lambda>s.
      Inr (if is_isRdma s then s\<lparr>is_offset := 0, is_packet := None, is_current := None\<rparr> else s)))"

definition ip_start_fragments :: "packet \<Rightarrow> ipv4_header \<Rightarrow> int \<Rightarrow> ipv4_state \<Rightarrow> ipv4_state res" where
  "ip_start_fragments p h mtu s =
    (let headerLength = ih_headerLength h;
         payloadLength = int (dataLength p) - headerLength;
         fragmentLength = ((mtu - headerLength) div 8) * 8;
         s = s\<lparr>is_headerLength := headerLength, is_payloadLength := payloadLength,
               is_fragmentLength := fragmentLength, is_offsetBase := ih_fragmentOffset h\<rparr>
     in
     if fragmentLength \<le> 0 then Inl (RuntimeError ''Cannot fragment datagram: MTU too small for header size'')
     else Inr (s\<lparr>is_noOfFragments := (if is_noOfFragments s = 0 then (payloadLength + fragmentLength - 1) div fragmentLength
                                       else is_noOfFragments s),
                 is_fragMsgName := pk_name p @ ''-frag2-''\<rparr>))"

definition ip_udp_latency :: "simtime \<Rightarrow> packet \<Rightarrow> ipv4_state \<Rightarrow> (packet \<times> ipv4_state) res" where
  "ip_udp_latency now p s =
    bindE (getTag (t_packetProtocol (pk_tags p))) (\<lambda>prot.
      if prot = P_udp then
        (case t_creationTime (pk_tags p) of
           Some c \<Rightarrow> Inr (p\<lparr>pk_tags := (pk_tags p)\<lparr>t_creationTime := Some now\<rparr>\<rparr>,
                          s\<lparr>is_latencyReception := is_latencyReception s + (now - c)\<rparr>)
         | None \<Rightarrow> Inl null_pointer)
      else Inr (p, s))"

definition ip_fragmentAndSend :: "ip_env \<Rightarrow> bool \<Rightarrow> packet \<Rightarrow> ipv4_state \<Rightarrow> ipv4_state res" where
  "ip_fragmentAndSend env shared p s =
    bindE (ip_udp_latency (en_now env) p s) (\<lambda>(p, s).
    bindE (reqInterface env p) (\<lambda>destIE.
    bindE (peekAtFront as_ipv4 p) (\<lambda>h.
    let p = (if ip_isUnspecified (ip_getNextHop p) then set_nextHop (ih_destAddress h) p else p);
        s = (set_current shared p s)\<lparr>is_header := Some h\<rparr>
    in
    if ih_timeToLive h \<le> 0 then
      Inr ((sendIcmpError p (-1) IcmpTimeExceeded 0 (emit_out (IpDropped HopLimitReached p) s))
             \<lparr>is_numDropped := is_numDropped s + 1\<rparr>)
    else
      let mtu = ie_mtu destIE;
          s = s\<lparr>is_mtu := mtu\<rparr>
      in
      if mtu = 0 \<or> int (dataLength p) \<le> mtu then ip_send_whole env shared p s
      else if ih_dontFragment h then
        Inr ((emit_out (IcmpPtb p mtu) (emit_out (IpDropped OtherReason p) s))\<lparr>is_numDropped := is_numDropped s + 1\<rparr>)
      else
        bindE (ip_start_fragments p h mtu s) (\<lambda>s.
          if is_isRdma s then
            bindE (ip_fragment_loop env p h s) (\<lambda>s.
              Inr (s\<lparr>is_offset := 0, is_packet := None, is_current := None\<rparr>))
          else ip_send_fragment env p h s))))"

section \<open>The output queue\<close>

definition ip_next_from_queue :: "ip_env \<Rightarrow> ipv4_state \<Rightarrow> ipv4_state res" where
  "ip_next_from_queue env s =
    (case is_queue s of
       [] \<Rightarrow> Inr s
     | p # q \<Rightarrow> ip_fragmentAndSend env True p (s\<lparr>is_packet := Some p, is_queue := q\<rparr>))"

definition ip_fragmentPostRouting :: "ip_env \<Rightarrow> packet \<Rightarrow> ipv4_state \<Rightarrow> ipv4_state res" where
  "ip_fragmentPostRouting env p s =
    bindE (reqInterface env p) (\<lambda>destIE.
    bindE (peekAtFront as_ipv4 p) (\<lambda>h.
    bindE (if ip_isUnspecified (ih_srcAddress h) then
             bindE (removeNetworkProtocolHeader p) (\<lambda>(h, p).
               insertNetworkProtocolHeader (h\<lparr>ih_srcAddress := ie_ipAddress destIE\<rparr>) p)
           else Inr p) (\<lambda>p.
    bindE (datagramPostRoutingHook env p s) (\<lambda>(accepted, s).
      case accepted of
        None \<Rightarrow> Inr s
      | Some p \<Rightarrow>
          let s = s\<lparr>is_queue := is_queue s @ [p]\<rparr>
          in if is_packet s = None then ip_next_from_queue env s else Inr s))))"

text \<open>
  The end of a transmission. The queue \<open>pendingPacket\<close> of the code is never filled and is left
  out.
\<close>

definition ip_handleEndTxPeriod :: "ip_env \<Rightarrow> ipv4_state \<Rightarrow> ipv4_state res" where
  "ip_handleEndTxPeriod env s =
    (let s = s\<lparr>is_timer := False\<rparr> in
     bindE (if is_offset s < is_payloadLength s then
              (case is_current s of Some c \<Rightarrow> Inr (is_mtu s < int (dataLength c)) | None \<Rightarrow> Inl null_pointer)
            else Inr False) (\<lambda>more.
       if more then
         (case is_packet s of Some p \<Rightarrow> ip_fragmentAndSend env True p s | None \<Rightarrow> Inl null_pointer)
       else ip_next_from_queue env (s\<lparr>is_offset := 0, is_packet := None, is_current := None\<rparr>)))"

section \<open>Checksum lemmas\<close>

lemma ip_crc_ok:
  assumes "ipv4_serialize (h\<lparr>ih_crc := 0\<rparr>) = Inr bytes" "ih_crcMode h = CRC_COMPUTED"
  shows "ip_verifyCrc True (h\<lparr>ih_crc := tcpip_checksum bytes\<rparr>) = Inr True"
proof -
  obtain pre post where b: "even (length pre)" "bytes = pre @ [0, 0] @ post"
    "\<And>c. ipv4_serialize (h\<lparr>ih_crc := c\<rparr>) = Inr (pre @ be_bytes c @ post)"
    using ipv4_serialize_crc[OF assms(1)] by blast
  have "tcpip_checksum (pre @ be_bytes (tcpip_checksum bytes) @ post) = 0"
    unfolding b(2) by (rule checksum_fill[OF b(1)])
  then show ?thesis using assms(2) b(3) by (simp add: ip_verifyCrc_def)
qed

lemma ipv4_serialize_total:
  assumes "ih_crcMode h = CRC_COMPUTED" "ih_headerLength h = int (header_length (Ipv4H h))"
    and "ih_headerLength h mod 4 = 0" "ih_headerLength h \<le> 60" "ih_headerLength h \<le> ih_totalLength h"
    and "ih_fragmentOffset h mod 8 = 0"
  shows "\<exists>bytes. ipv4_serialize h = Inr bytes"
proof -
  have "ih_headerLength h = 20 + int (length (concat (ih_options h)))"
    using assms(2) by (simp add: length_concat)
  then show ?thesis using assms by (simp add: ipv4_serialize_def Let_def)
qed

section \<open>Fragmentation lemmas\<close>

text \<open>
  The specification of a fragment: header and payload of fragment \<open>j\<close> of a datagram with
  header \<open>h\<close> and payload \<open>d\<close>, cut in pieces of \<open>F\<close> bytes.
\<close>

definition frag_header :: "ipv4_header \<Rightarrow> nat \<Rightarrow> nat \<Rightarrow> nat \<Rightarrow> ipv4_header" where
  "frag_header h F N j = h\<lparr>
     ih_moreFragments := (if F * j + F \<ge> N then ih_moreFragments h else True),
     ih_fragmentOffset := (ih_fragmentOffset h + int (F * j)) mod 65536,
     ih_totalLength := ih_headerLength h + int (min F (N - F * j))\<rparr>"

definition is_ip_fragment :: "ipv4_header \<Rightarrow> nat \<Rightarrow> cell list \<Rightarrow> nat \<Rightarrow> packet \<Rightarrow> bool" where
  "is_ip_fragment h F d j p \<longleftrightarrow> (\<exists>c.
     pk_data p = header_cells (Ipv4H ((frag_header h F (length d) j)\<lparr>ih_crc := c\<rparr>)) @ peek_at (F * j) (min F (length d - F * j)) d \<and>
     (ih_crcMode h = CRC_COMPUTED \<or> ih_crcMode h = CRC_DECLARED_CORRECT \<longrightarrow>
        ip_verifyCrc True ((frag_header h F (length d) j)\<lparr>ih_crc := c\<rparr>) = Inr True))"

text \<open>A datagram as \<open>encapsulate\<close> and the receiving side produce it.\<close>

definition ip_datagram :: "crc_mode \<Rightarrow> ipv4_header \<Rightarrow> cell list \<Rightarrow> packet \<Rightarrow> bool" where
  "ip_datagram mode h d p \<longleftrightarrow> packet_ok p \<and> pk_data p = header_cells (Ipv4H h) @ d \<and>
     ih_headerLength h = int (header_length (Ipv4H h)) \<and> ih_headerLength h mod 4 = 0 \<and> ih_headerLength h \<le> 60 \<and>
     ih_fragmentOffset h mod 8 = 0 \<and> ih_crcMode h = mode"

definition frag_state :: "ipv4_header \<Rightarrow> nat \<Rightarrow> nat \<Rightarrow> nat \<Rightarrow> ipv4_state \<Rightarrow> bool" where
  "frag_state h F N j s \<longleftrightarrow> is_headerLength s = ih_headerLength h \<and> is_payloadLength s = int N \<and>
     is_fragmentLength s = int F \<and> is_offsetBase s = ih_fragmentOffset h \<and> is_offset s = int (F * j)"

lemma ip_thisFragmentLength_nat:
  assumes "is_offset s = int m" "is_payloadLength s = int N" "is_fragmentLength s = int F"
  shows "m < N \<Longrightarrow> ip_thisFragmentLength s = int (min F (N - m))"
    and "(is_offset s + is_fragmentLength s \<ge> is_payloadLength s) = (m + F \<ge> N)"
    and "(is_offset s < is_payloadLength s) = (m < N)"
  using assms by (auto simp: ip_thisFragmentLength_def)

lemma frag_stateD:
  assumes "frag_state h F N j s"
  shows "is_headerLength s = ih_headerLength h" "is_payloadLength s = int N" "is_fragmentLength s = int F"
    "is_offsetBase s = ih_fragmentOffset h" "is_offset s = int (F * j)"
  using assms by (simp_all add: frag_state_def)

lemma ip_thisFragmentLength_eq:
  "frag_state h F N j s \<Longrightarrow> F * j < N \<Longrightarrow> ip_thisFragmentLength s = int (min F (N - F * j))"
  by (rule ip_thisFragmentLength_nat(1)[OF frag_stateD(5,2,3)])

lemma ip_fragment_header_eq:
  assumes "frag_state h F N j s" "F * j < N"
  shows "ip_fragment_header h s = frag_header h F N j"
proof -
  have "(is_offset s + is_fragmentLength s \<ge> is_payloadLength s) = (F * j + F \<ge> N)"
    by (rule ip_thisFragmentLength_nat(2)[OF frag_stateD(5,2,3)[OF assms(1)]])
  then show ?thesis using assms ip_thisFragmentLength_eq[OF assms]
    by (simp add: ip_fragment_header_def frag_header_def frag_state_def)
qed

lemma frag_header_crc:
  assumes "ip_datagram (en_crcMode env) h d p" "F mod 8 = 0"
  shows "\<exists>c. (if en_crcMode env = CRC_COMPUTED then ip_setComputedCrc env (frag_header h F N j) else Inr (frag_header h F N j))
        = Inr ((frag_header h F N j)\<lparr>ih_crc := c\<rparr>) \<and>
     (ih_crcMode h = CRC_COMPUTED \<or> ih_crcMode h = CRC_DECLARED_CORRECT \<longrightarrow>
        ip_verifyCrc True ((frag_header h F N j)\<lparr>ih_crc := c\<rparr>) = Inr True)"
proof (cases "en_crcMode env = CRC_COMPUTED")
  case True
  let ?f = "frag_header h F N j"
  have h: "ih_headerLength h = int (header_length (Ipv4H h))" "ih_headerLength h mod 4 = 0" "ih_headerLength h \<le> 60"
    "ih_fragmentOffset h mod 8 = 0" "ih_crcMode h = CRC_COMPUTED"
    using assms(1) unfolding ip_datagram_def True by blast+
  have f: "ih_crcMode ?f = CRC_COMPUTED" "ih_headerLength ?f = ih_headerLength h"
    "header_length (Ipv4H (?f\<lparr>ih_crc := 0\<rparr>)) = header_length (Ipv4H h)" "ih_headerLength ?f \<le> ih_totalLength ?f"
    by (simp_all add: frag_header_def h(5))
  have "8 dvd F" using assms(2) by (simp add: mod_eq_0_iff_dvd)
  then have "8 dvd F * j" by (rule dvd_mult2)
  then have "8 dvd int (F * j)" by presburger
  then have "(ih_fragmentOffset h + int (F * j)) mod 8 = 0" using h(4) by presburger
  moreover have "x mod 65536 mod 8 = x mod 8" for x :: int by (rule mod_mod_cancel) simp
  ultimately have "ih_fragmentOffset ?f mod 8 = 0" unfolding frag_header_def by simp
  then obtain bytes where b: "ipv4_serialize (?f\<lparr>ih_crc := 0\<rparr>) = Inr bytes"
    using ipv4_serialize_total[of "?f\<lparr>ih_crc := 0\<rparr>"] h(1-3) f(1,2,4) unfolding f(3) by auto
  then show ?thesis using True ip_crc_ok[OF b f(1)] by (auto simp: ip_setComputedCrc_def)
next
  case False
  then have "ih_crcMode h = en_crcMode env" "en_crcMode env \<noteq> CRC_COMPUTED"
    using assms(1) by (simp_all add: ip_datagram_def)
  then show ?thesis by (intro exI[of _ "ih_crc h"]) (auto simp: ip_verifyCrc_def frag_header_def)
qed

lemma dataLength_datagram: "ip_datagram m h d p \<Longrightarrow> int (dataLength p) = ih_headerLength h + int (length d)"
  using length_pk_data[of p] by (simp add: ip_datagram_def)

lemma ip_fragment_packet_ok:
  assumes dg: "ip_datagram (en_crcMode env) h d p" and F: "0 < F" "F mod 8 = 0"
    and st: "frag_state h F (length d) j s" and j: "F * j < length d"
  shows "\<exists>f. ip_fragment_packet env p h s = Inr f \<and> is_ip_fragment h F d j f \<and> packet_ok f \<and> pk_tags f = pk_tags p \<and>
    int (dataLength f) = is_headerLength s + ip_thisFragmentLength s"
proof -
  let ?n = "min F (length d - F * j)"
  define frag where "frag = (new_packet (is_fragMsgName s @ string_of_nat (nat (is_offset s)) @
       (if is_offset s + is_fragmentLength s \<ge> is_payloadLength s then ''-last'' else [])) (en_now env))\<lparr>pk_tags := pk_tags p\<rparr>"
  have tl: "ip_thisFragmentLength s = int ?n" by (rule ip_thisFragmentLength_eq[OF st j])
  have hl: "is_headerLength s = int (header_length (Ipv4H h))" "is_offset s = int (F * j)"
    using st dg by (simp_all add: frag_state_def ip_datagram_def)
  have off: "is_headerLength s + is_offset s = int (header_length (Ipv4H h) + F * j)" by (simp only: hl of_nat_add)
  have n: "0 < ?n" "F * j + ?n \<le> length d" using F(1) j by auto
  have dl: "dataLength p = header_length (Ipv4H h) + length d"
    using dg length_pk_data[of p] by (simp add: ip_datagram_def)
  have pd: "pk_data p = header_cells (Ipv4H h) @ d" using dg by (simp add: ip_datagram_def)
  have "peek_at (header_length (Ipv4H h) + F * j) ?n (pk_data p) = peek_at (F * j) ?n d"
    by (simp add: pd peek_at_def del: header_length.simps)
  then have pk: "peekDataAt (is_headerLength s + is_offset s) (ip_thisFragmentLength s) p = Inr (peek_at (F * j) ?n d)"
    using peekDataAt_ok[of "int (header_length (Ipv4H h) + F * j)" "int ?n" p] n dl
    unfolding off tl by (simp only: nat_int of_nat_add[symmetric] of_nat_le_iff of_nat_0_le_iff of_nat_0_less_iff add_le_cancel_left add.assoc)
  have ne: "peek_at (F * j) ?n d \<noteq> []" using n by (metis length_peek_at length_greater_0_conv min.absorb1 diff_le_mono le_diff_conv2 add.commute min.cobounded2)
  have ok0: "packet_ok frag" "pk_data frag = []" "pk_tags frag = pk_tags p" by (simp_all add: frag_def)
  obtain f1 where f1: "insertAtBack (peek_at (F * j) ?n d) frag = Inr f1" using insertAtBack_eq[OF ok0(1) ne] by blast
  have f1k: "packet_ok f1" "pk_data f1 = peek_at (F * j) ?n d" "pk_tags f1 = pk_tags p"
    using insertAtBack_ok[OF ok0(1) ne f1] ok0 by simp_all
  obtain c where c: "(if en_crcMode env = CRC_COMPUTED then ip_setComputedCrc env (frag_header h F (length d) j) else Inr (frag_header h F (length d) j))
        = Inr ((frag_header h F (length d) j)\<lparr>ih_crc := c\<rparr>)"
     "ih_crcMode h = CRC_COMPUTED \<or> ih_crcMode h = CRC_DECLARED_CORRECT \<longrightarrow>
        ip_verifyCrc True ((frag_header h F (length d) j)\<lparr>ih_crc := c\<rparr>) = Inr True"
    using frag_header_crc[OF dg F(2)] by blast
  let ?hd = "Ipv4H ((frag_header h F (length d) j)\<lparr>ih_crc := c\<rparr>)"
  have hlen: "header_length ?hd = header_length (Ipv4H h)" by (simp add: frag_header_def)
  have neh: "header_cells ?hd \<noteq> []" using length_header_cells[of ?hd] by force
  obtain f2 where f2: "insertAtFront (header_cells ?hd) f1 = Inr f2" using insertAtFront_eq[OF f1k(1) neh] by blast
  have f2k: "packet_ok f2" "pk_data f2 = header_cells ?hd @ peek_at (F * j) ?n d" "pk_tags f2 = pk_tags p"
    using insertAtFront_ok[OF f1k(1) neh f2] f1k by simp_all
  have "ip_fragment_packet env p h s = Inr f2"
    unfolding ip_fragment_packet_def Let_def frag_def[symmetric] pk bindE_simps f1 ip_fragment_header_eq[OF st j] c(1) f2 ..
  moreover have "int (dataLength f2) = is_headerLength s + ip_thisFragmentLength s"
    using length_pk_data[of f2] n unfolding f2k(2) hl tl by (simp add: hlen del: header_length.simps)
  ultimately show ?thesis using f2k c(2) unfolding is_ip_fragment_def by blast
qed

section \<open>Sending fragments\<close>

text \<open>The next hop needs no address resolution, or its address is known.\<close>

definition nextHop_ready :: "ip_env \<Rightarrow> packet \<Rightarrow> ipv4_state \<Rightarrow> bool" where
  "nextHop_ready env p s \<longleftrightarrow> (\<exists>ie a. reqInterface env p = Inr ie \<and> t_nextHopReq (pk_tags p) = Some a \<and>
     (\<not> ie_isBroadcast ie \<or> ie_mac ie = 0 \<or>
      ip_resolveNextHopMacAddress env a ie \<noteq> 0 \<and> map_of (is_pending s) a = None))"

lemma nextHop_ready_cong:
  "pk_tags q = pk_tags p \<Longrightarrow> is_pending s' = is_pending s \<Longrightarrow> nextHop_ready env q s' = nextHop_ready env p s"
  by (simp add: nextHop_ready_def reqInterface_def)

text \<open>
  What \<open>sendDatagramToOutput\<close> hands over differs from the fragment in its tags only, and not
  in the one that says the output interface.
\<close>

definition same_bytes :: "packet \<Rightarrow> packet \<Rightarrow> bool" where
  "same_bytes q p \<longleftrightarrow> (\<exists>t. q = p\<lparr>pk_tags := t\<rparr> \<and> t_interfaceReq t = t_interfaceReq (pk_tags p))"

lemma same_bytes_simps: "same_bytes q p \<Longrightarrow> t_interfaceReq (pk_tags q) = t_interfaceReq (pk_tags p) \<and> pk_data q = pk_data p \<and> pk_name q = pk_name p \<and> packet_ok q = packet_ok p"
  by (auto simp: same_bytes_def)

lemma ip_sendPacketToNIC_ok:
  assumes "reqInterface env p = Inr ie" "\<not> (en_txChannel env \<and> is_timer s)"
  shows "\<exists>q. ip_sendPacketToNIC env p s = Inr (s\<lparr>is_out := is_out s @ [QueueOut q], is_timer := is_timer s \<or> en_txChannel env\<rparr>) \<and> same_bytes q p"
proof -
  let ?q = "p\<lparr>pk_tags := (pk_tags p)\<lparr>t_packetProtocol := Some (if is_isRdma s then P_rdma else P_ipv4),
                         t_dispatchInd := Some P_ipv4, t_dispatchReq := ie_protocol ie\<rparr>\<rparr>"
  have "same_bytes ?q p" unfolding same_bytes_def by (intro exI[of _ "pk_tags ?q"] conjI) (simp, cases "pk_tags p", simp)
  then show ?thesis using assms by (intro exI[of _ ?q]) (auto simp: ip_sendPacketToNIC_def Let_def emit_out_def)
qed

lemma ip_sendDatagramToOutput_ok:
  assumes "nextHop_ready env p s" "\<not> (en_txChannel env \<and> is_timer s)"
  shows "\<exists>q. ip_sendDatagramToOutput env p s = Inr (s\<lparr>is_out := is_out s @ [QueueOut q], is_timer := is_timer s \<or> en_txChannel env\<rparr>) \<and> same_bytes q p"
proof -
  obtain ie a where r: "reqInterface env p = Inr ie" "t_nextHopReq (pk_tags p) = Some a"
    "\<not> ie_isBroadcast ie \<or> ie_mac ie = 0 \<or> ip_resolveNextHopMacAddress env a ie \<noteq> 0 \<and> map_of (is_pending s) a = None"
    using assms(1) by (auto simp: nextHop_ready_def)
  let ?p = "p\<lparr>pk_tags := (pk_tags p)\<lparr>t_nextHopReq := None\<rparr>\<rparr>"
  let ?m = "set_macDest (ip_resolveNextHopMacAddress env a ie) ?p"
  have i: "reqInterface env ?p = Inr ie" "reqInterface env ?m = Inr ie"
    using r(1) by (simp_all add: reqInterface_def set_macDest_def)
  have "ip_sendDatagramToOutput env p s = ip_sendPacketToNIC env ?p s \<or> ip_sendDatagramToOutput env p s = ip_sendPacketToNIC env ?m s"
    using r by (auto simp: ip_sendDatagramToOutput_def Let_def)
  moreover have "same_bytes q ?p \<Longrightarrow> same_bytes q p" "same_bytes q ?m \<Longrightarrow> same_bytes q p" for q
    by (auto simp: same_bytes_def set_macDest_def)
  ultimately show ?thesis
    using ip_sendPacketToNIC_ok[OF i(1) assms(2)] ip_sendPacketToNIC_ok[OF i(2) assms(2)] by metis
qed

lemma is_ip_fragment_bytes: "same_bytes q f \<Longrightarrow> is_ip_fragment h F d j q = is_ip_fragment h F d j f"
  by (auto simp: is_ip_fragment_def same_bytes_def)

lemma ip_send_fragment_ok:
  assumes "ip_datagram (en_crcMode env) h d p" "0 < F" "F mod 8 = 0"
    and "frag_state h F (length d) j s" "F * j < length d"
    and "nextHop_ready env p s" "\<not> (en_txChannel env \<and> is_timer s)"
  shows "\<exists>q. is_ip_fragment h F d j q \<and> ip_send_fragment env p h s
      = Inr (s\<lparr>is_out := is_out s @ [QueueOut q], is_timer := is_timer s \<or> en_txChannel env,
               is_offset := int (F * j + min F (length d - F * j))\<rparr>)"
proof -
  obtain f where f: "ip_fragment_packet env p h s = Inr f" "is_ip_fragment h F d j f" "pk_tags f = pk_tags p"
    using ip_fragment_packet_ok[OF assms(1-5)] by blast
  have r: "nextHop_ready env f s" using nextHop_ready_cong[OF f(3) refl] assms(6) by blast
  obtain q where q: "same_bytes q f" "ip_sendDatagramToOutput env f s
      = Inr (s\<lparr>is_out := is_out s @ [QueueOut q], is_timer := is_timer s \<or> en_txChannel env\<rparr>)"
    using ip_sendDatagramToOutput_ok[OF r assms(7)] by blast
  have o: "is_offset s + ip_thisFragmentLength s = int (F * j + min F (length d - F * j))"
    using ip_thisFragmentLength_eq[OF assms(4,5)] frag_stateD(5)[OF assms(4)] by simp
  show ?thesis using f(1,2) q(2) is_ip_fragment_bytes[OF q(1)]
    by (intro exI[of _ q]) (simp add: ip_send_fragment_def o del: of_nat_mult of_nat_add)
qed

text \<open>The loop sends the fragments from the current one on.\<close>

lemma ip_fragment_loop_ok:
  assumes "ip_datagram (en_crcMode env) h d p" "0 < F" "F mod 8 = 0" "\<not> en_txChannel env"
    and "frag_state h F (length d) j s" "nextHop_ready env p s" "n = frag_count F (length d) - j"
  shows "\<exists>qs off. length qs = n \<and> (\<forall>i < n. is_ip_fragment h F d (j + i) (qs ! i)) \<and>
    ip_fragment_loop env p h s = Inr (s\<lparr>is_out := is_out s @ map QueueOut qs, is_offset := off\<rparr>)"
  using assms(5-7)
proof (induction n arbitrary: j s)
  case 0
  have "\<not> j < frag_count F (length d)" using 0(3) by linarith
  then have "\<not> F * j < length d" using frag_count_less[OF assms(2)] by blast
  then have "\<not> is_offset s < is_payloadLength s"
    using ip_thisFragmentLength_nat(3)[OF frag_stateD(5,2,3)[OF 0(1)]] by simp
  then show ?case
    by (intro exI[of _ "[]"] exI[of _ "is_offset s"]) (simp add: ip_fragment_loop.simps[of env p h s])
next
  case (Suc n)
  have "j < frag_count F (length d)" using Suc(4) by linarith
  then have j: "F * j < length d" using frag_count_less[OF assms(2)] by blast
  then have lt: "is_offset s < is_payloadLength s"
    using ip_thisFragmentLength_nat(3)[OF frag_stateD(5,2,3)[OF Suc(2)]] by simp
  have tm: "\<not> (en_txChannel env \<and> is_timer s)" using assms(4) by simp
  obtain f where f: "ip_fragment_packet env p h s = Inr f" "is_ip_fragment h F d j f" "pk_tags f = pk_tags p"
    "int (dataLength f) = is_headerLength s + ip_thisFragmentLength s"
    using ip_fragment_packet_ok[OF assms(1-3) Suc(2) j] by blast
  have r: "nextHop_ready env f s" using nextHop_ready_cong[OF f(3) refl] Suc(3) by blast
  obtain q where q: "same_bytes q f" "ip_sendDatagramToOutput env f s = Inr (s\<lparr>is_out := is_out s @ [QueueOut q]\<rparr>)"
    using ip_sendDatagramToOutput_ok[OF r tm] assms(4) by auto
  define s' where "s' = s\<lparr>is_out := is_out s @ [QueueOut q], is_offset := is_offset s + ip_thisFragmentLength s\<rparr>"
  have step: "ip_fragment_loop env p h s = ip_fragment_loop env p h s'"
    using lt f(1,4) q(2) by (simp add: ip_fragment_loop.simps[of env p h s] s'_def)
  have o: "is_offset s + ip_thisFragmentLength s = int (F * j + min F (length d - F * j))"
    using ip_thisFragmentLength_eq[OF Suc(2) j] frag_stateD(5)[OF Suc(2)] by simp
  show ?case
  proof (cases "F * Suc j \<le> length d")
    case True
    then have "min F (length d - F * j) = F" by simp
    then have "frag_state h F (length d) (Suc j) s'" using Suc(2) o by (simp add: frag_state_def s'_def algebra_simps)
    moreover have "nextHop_ready env p s'" using nextHop_ready_cong[of p p s' s] Suc(3) by (simp add: s'_def)
    moreover have "n = frag_count F (length d) - Suc j" using Suc(4) by linarith
    ultimately obtain qs off where qs: "length qs = n" "\<forall>i < n. is_ip_fragment h F d (Suc j + i) (qs ! i)"
      "ip_fragment_loop env p h s' = Inr (s'\<lparr>is_out := is_out s' @ map QueueOut qs, is_offset := off\<rparr>)"
      using Suc.IH[of "Suc j" s'] by blast
    have "\<forall>i < Suc n. is_ip_fragment h F d (j + i) ((q # qs) ! i)"
      using qs(2) f(2) is_ip_fragment_bytes[OF q(1)] by (auto simp: less_Suc_eq_0_disj)
    then show ?thesis using qs(1,3) step by (intro exI[of _ "q # qs"] exI[of _ off]) (simp add: s'_def)
  next
    case False
    then have "min F (length d - F * j) = length d - F * j" by auto
    then have "\<not> is_offset s' < is_payloadLength s'" using o j frag_stateD(2)[OF Suc(2)] by (simp add: s'_def)
    then have "ip_fragment_loop env p h s' = Inr s'" by (simp add: ip_fragment_loop.simps[of env p h s'])
    moreover have "frag_count F (length d) = Suc j"
      using frag_count_less[OF assms(2), of j "length d"] frag_count_less[OF assms(2), of "Suc j" "length d"] False j by linarith
    then have "n = 0" using Suc(4) by simp
    ultimately show ?thesis using step f(2) is_ip_fragment_bytes[OF q(1)]
      by (intro exI[of _ "[q]"] exI[of _ "is_offset s'"]) (simp add: s'_def)
  qed
qed

text \<open>The payloads of the fragments make up the payload of the datagram.\<close>

lemma fragments_payload:
  assumes "0 < F" "length qs = frag_count F (length d)"
    and "\<forall>j < length qs. is_ip_fragment h F d j (qs ! j)"
  shows "concat (map (\<lambda>q. drop (header_length (Ipv4H h)) (pk_data q)) qs) = d"
proof -
  have "map (\<lambda>q. drop (header_length (Ipv4H h)) (pk_data q)) qs
      = map (\<lambda>j. peek_at (0 + F * j) (min F (length d - F * j)) d) [0..<length qs]"
  proof (rule nth_equalityI)
    fix j assume "j < length (map (\<lambda>q. drop (header_length (Ipv4H h)) (pk_data q)) qs)"
    then have j: "j < length qs" by simp
    then obtain c where "pk_data (qs ! j) = header_cells (Ipv4H ((frag_header h F (length d) j)\<lparr>ih_crc := c\<rparr>)) @ peek_at (F * j) (min F (length d - F * j)) d"
      using assms(3) by (auto simp: is_ip_fragment_def)
    moreover have "header_length (Ipv4H ((frag_header h F (length d) j)\<lparr>ih_crc := c\<rparr>)) = header_length (Ipv4H h)"
      by (simp add: frag_header_def)
    ultimately have "drop (header_length (Ipv4H h)) (pk_data (qs ! j)) = peek_at (F * j) (min F (length d - F * j)) d"
      by (metis append_eq_conv_conj length_header_cells)
    then show "map (\<lambda>q. drop (header_length (Ipv4H h)) (pk_data q)) qs ! j
      = map (\<lambda>j. peek_at (0 + F * j) (min F (length d - F * j)) d) [0..<length qs] ! j"
      using j by simp
  qed simp
  then have "concat (map (\<lambda>q. drop (header_length (Ipv4H h)) (pk_data q)) qs) = peek_at 0 (min (F * length qs) (length d)) d"
    using concat_pieces[of 0 F "length d" d "length qs"] by simp
  also have "min (F * length qs) (length d) = length d"
    using frag_count_less[OF assms(1), of "length qs" "length d"] assms(2) by simp
  finally show ?thesis by simp
qed

section \<open>fragmentAndSend\<close>

definition ip_with_nextHop :: "ipv4_header \<Rightarrow> packet \<Rightarrow> packet" where
  "ip_with_nextHop h p = (if ip_isUnspecified (ip_getNextHop p) then set_nextHop (ih_destAddress h) p else p)"

text \<open>A datagram that has to be fragmented on its interface, and may be.\<close>

definition ip_fragmentable :: "ip_env \<Rightarrow> ipv4_header \<Rightarrow> cell list \<Rightarrow> network_interface \<Rightarrow> packet \<Rightarrow> bool" where
  "ip_fragmentable env h d ie p \<longleftrightarrow> ip_datagram (en_crcMode env) h d p \<and>
     t_packetProtocol (pk_tags p) \<noteq> None \<and> t_packetProtocol (pk_tags p) \<noteq> Some P_udp \<and>
     reqInterface env p = Inr ie \<and> 0 < ih_timeToLive h \<and> \<not> ih_dontFragment h \<and>
     ih_headerLength h + 8 \<le> ie_mtu ie \<and> ie_mtu ie < ih_headerLength h + int (length d)"

definition ip_pieceLength :: "ipv4_header \<Rightarrow> network_interface \<Rightarrow> nat" where
  "ip_pieceLength h ie = nat (((ie_mtu ie - ih_headerLength h) div 8) * 8)"

lemma ip_pieceLength_ok:
  assumes "ip_fragmentable env h d ie p"
  shows "0 < ip_pieceLength h ie" "ip_pieceLength h ie mod 8 = 0"
    "int (ip_pieceLength h ie) = ((ie_mtu ie - ih_headerLength h) div 8) * 8"
    "ih_headerLength h + int (ip_pieceLength h ie) \<le> ie_mtu ie"
proof -
  let ?x = "ie_mtu ie - ih_headerLength h"
  have x: "8 \<le> ?x" using assms by (simp add: ip_fragmentable_def)
  then have q: "1 \<le> ?x div 8" by linarith
  show i: "int (ip_pieceLength h ie) = (?x div 8) * 8" using q by (simp add: ip_pieceLength_def)
  show "0 < ip_pieceLength h ie" using i q by linarith
  have "8 dvd int (ip_pieceLength h ie)" unfolding i by simp
  then show "ip_pieceLength h ie mod 8 = 0" by presburger
  have "(?x div 8) * 8 \<le> ?x" by linarith
  then show "ih_headerLength h + int (ip_pieceLength h ie) \<le> ie_mtu ie" using i by linarith
qed

lemma ip_with_nextHop_simps [simp]:
  "packet_ok (ip_with_nextHop h p) = packet_ok p" "pk_data (ip_with_nextHop h p) = pk_data p"
  "dataLength (ip_with_nextHop h p) = dataLength p" "reqInterface env (ip_with_nextHop h p) = reqInterface env p"
  "t_packetProtocol (pk_tags (ip_with_nextHop h p)) = t_packetProtocol (pk_tags p)"
  "ip_datagram m h' d (ip_with_nextHop h p) = ip_datagram m h' d p"
  by (simp_all add: ip_with_nextHop_def set_nextHop_def reqInterface_def ip_datagram_def pk_data_def dataLength_def
      totalLength_def packet_ok_def)

lemma ip_fragmentable_nextHop [simp]: "ip_fragmentable env h d ie (ip_with_nextHop h p) = ip_fragmentable env h d ie p"
  by (simp add: ip_fragmentable_def)

text \<open>The state in which the fragments are cut.\<close>

definition frag_started :: "bool \<Rightarrow> packet \<Rightarrow> ipv4_header \<Rightarrow> network_interface \<Rightarrow> cell list \<Rightarrow> ipv4_state \<Rightarrow> ipv4_state" where
  "frag_started shared p h ie d s = (set_current shared p s)\<lparr>is_header := Some h, is_mtu := ie_mtu ie,
     is_headerLength := ih_headerLength h, is_payloadLength := int (length d),
     is_fragmentLength := int (ip_pieceLength h ie), is_offsetBase := ih_fragmentOffset h,
     is_noOfFragments := (if is_noOfFragments s = 0 then (int (length d) + int (ip_pieceLength h ie) - 1) div int (ip_pieceLength h ie)
                          else is_noOfFragments s),
     is_fragMsgName := pk_name p @ ''-frag2-''\<rparr>"

lemma ip_fragmentAndSend_started:
  assumes "ip_fragmentable env h d ie p"
  shows "ip_fragmentAndSend env shared p s =
    (let p' = ip_with_nextHop h p; s0 = frag_started shared p' h ie d s in
     if is_isRdma s then
       bindE (ip_fragment_loop env p' h s0) (\<lambda>s. Inr (s\<lparr>is_offset := 0, is_packet := None, is_current := None\<rparr>))
     else ip_send_fragment env p' h s0)"
proof -
  let ?p = "ip_with_nextHop h p"
  have dg: "ip_datagram (en_crcMode env) h d p" and ie: "reqInterface env p = Inr ie"
    using assms by (simp_all add: ip_fragmentable_def)
  have dl: "int (dataLength ?p) = ih_headerLength h + int (length d)" using dataLength_datagram[OF dg] by simp
  have lat: "ip_udp_latency (en_now env) p s = Inr (p, s)"
    using assms by (auto simp: ip_fragmentable_def ip_udp_latency_def)
  have peek: "peekAtFront as_ipv4 p = Inr h"
    using dg by (intro peekAtFront_header) (auto simp: ip_datagram_def)
  have c: "\<not> ih_timeToLive h \<le> 0" "\<not> (ie_mtu ie = 0 \<or> int (dataLength ?p) \<le> ie_mtu ie)" "\<not> ih_dontFragment h"
    using assms dl by (auto simp: ip_fragmentable_def ip_datagram_def)
  have hl: "((ie_mtu ie - ih_headerLength h) div 8) * 8 = int (ip_pieceLength h ie)" "\<not> int (ip_pieceLength h ie) \<le> 0"
    using ip_pieceLength_ok[OF assms] by simp_all
  have st: "ip_start_fragments ?p h (ie_mtu ie) ((set_current shared ?p s)\<lparr>is_header := Some h, is_mtu := ie_mtu ie\<rparr>)
    = Inr (frag_started shared ?p h ie d s)"
    unfolding ip_start_fragments_def Let_def dl hl(1) using hl(2) by (simp add: frag_started_def set_current_def)
  have r: "is_isRdma (frag_started shared ?p h ie d s) = is_isRdma s" by (simp add: frag_started_def set_current_def)
  show ?thesis
    unfolding ip_fragmentAndSend_def lat bindE_simps prod.case ie peek Let_def ip_with_nextHop_def[symmetric]
    using c st r by (simp only: if_False bindE_simps)
qed

lemma frag_started_state:
  "is_offset s = int (ip_pieceLength h ie * j) \<Longrightarrow> frag_state h (ip_pieceLength h ie) (length d) j (frag_started shared p h ie d s)"
  by (simp add: frag_state_def frag_started_def set_current_def)

lemma frag_started_simps:
  "is_out (frag_started shared p h ie d s) = is_out s" "is_pending (frag_started shared p h ie d s) = is_pending s"
  "is_timer (frag_started shared p h ie d s) = is_timer s" "is_queue (frag_started shared p h ie d s) = is_queue s"
  "is_isRdma (frag_started shared p h ie d s) = is_isRdma s" "is_offset (frag_started shared p h ie d s) = is_offset s"
  "is_mtu (frag_started shared p h ie d s) = ie_mtu ie" "is_current (frag_started shared p h ie d s) = Some p"
  "is_packet (frag_started True p h ie d s) = Some p" "is_payloadLength (frag_started shared p h ie d s) = int (length d)"
  by (simp_all add: frag_started_def set_current_def)

lemma is_ip_fragment_size:
  assumes "ip_fragmentable env h d ie p" "is_ip_fragment h (ip_pieceLength h ie) d j q"
  shows "int (dataLength q) \<le> ie_mtu ie"
proof -
  let ?F = "ip_pieceLength h ie"
  obtain c where q: "pk_data q = header_cells (Ipv4H ((frag_header h ?F (length d) j)\<lparr>ih_crc := c\<rparr>)) @ peek_at (?F * j) (min ?F (length d - ?F * j)) d"
    using assms(2) by (auto simp: is_ip_fragment_def)
  have "dataLength q = header_length (Ipv4H h) + length (peek_at (?F * j) (min ?F (length d - ?F * j)) d)"
    using length_pk_data[of q] unfolding q by (simp add: frag_header_def)
  then have "dataLength q \<le> header_length (Ipv4H h) + ?F" by simp
  moreover have "ih_headerLength h = int (header_length (Ipv4H h))" using assms(1) by (simp add: ip_fragmentable_def ip_datagram_def)
  ultimately show ?thesis using ip_pieceLength_ok(4)[OF assms(1)] by linarith
qed

text \<open>A datagram that fits is sent as it is, with its checksum computed in that mode.\<close>

lemma ip_fragmentAndSend_whole:
  assumes "ip_datagram (en_crcMode env) h d p" "ih_headerLength h \<le> ih_totalLength h"
    and "t_packetProtocol (pk_tags p) = Some prot" "prot \<noteq> P_udp" "reqInterface env p = Inr ie" "0 < ih_timeToLive h"
    and "ie_mtu ie = 0 \<or> ih_headerLength h + int (length d) \<le> ie_mtu ie"
    and "nextHop_ready env (ip_with_nextHop h p) s" "\<not> (en_txChannel env \<and> is_timer s)"
  shows "\<exists>q c s'. ip_fragmentAndSend env shared p s = Inr s' \<and> is_out s' = is_out s @ [QueueOut q] \<and>
    pk_data q = header_cells (Ipv4H (h\<lparr>ih_crc := c\<rparr>)) @ d \<and> t_interfaceReq (pk_tags q) = t_interfaceReq (pk_tags p) \<and>
    (ih_crcMode h = CRC_COMPUTED \<or> ih_crcMode h = CRC_DECLARED_CORRECT \<longrightarrow> ip_verifyCrc True (h\<lparr>ih_crc := c\<rparr>) = Inr True) \<and>
    is_numForwarded s' = is_numForwarded s \<and> is_rt s' = is_rt s \<and> is_queue s' = is_queue s"
proof -
  let ?p = "ip_with_nextHop h p"
  define s0 where "s0 = (set_current shared ?p s)\<lparr>is_header := Some h, is_mtu := ie_mtu ie\<rparr>"
  note dg = assms(1)[unfolded ip_datagram_def]
  have dp: "packet_ok ?p" "pk_data ?p = header_cells (Ipv4H h) @ d" using dg by simp_all
  have tags: "t_interfaceReq (pk_tags ?p) = t_interfaceReq (pk_tags p)" by (simp add: ip_with_nextHop_def set_nextHop_def)
  have dl: "int (dataLength ?p) = ih_headerLength h + int (length d)" using dataLength_datagram[OF assms(1)] by simp
  have lat: "ip_udp_latency (en_now env) p s = Inr (p, s)" using assms(3,4) by (simp add: ip_udp_latency_def)
  have peek: "peekAtFront as_ipv4 p = Inr h" using dg by (intro peekAtFront_header) auto
  have fs: "ip_fragmentAndSend env shared p s = ip_send_whole env shared ?p s0"
    unfolding ip_fragmentAndSend_def lat bindE_simps prod.case assms(5) peek Let_def ip_with_nextHop_def[symmetric] dl s0_def
    using assms(6,7) by simp
  obtain f c where f: "(if en_crcMode env = CRC_COMPUTED then
             bindE (removeNetworkProtocolHeader ?p) (\<lambda>(h, p).
             bindE (ip_setComputedCrc env h) (\<lambda>h. insertNetworkProtocolHeader h p))
           else Inr ?p) = Inr f"
    "packet_ok f" "pk_data f = header_cells (Ipv4H (h\<lparr>ih_crc := c\<rparr>)) @ d" "t_interfaceReq (pk_tags f) = t_interfaceReq (pk_tags p)"
    "t_nextHopReq (pk_tags f) = t_nextHopReq (pk_tags ?p)"
    "ih_crcMode h = CRC_COMPUTED \<or> ih_crcMode h = CRC_DECLARED_CORRECT \<longrightarrow> ip_verifyCrc True (h\<lparr>ih_crc := c\<rparr>) = Inr True"
  proof (cases "en_crcMode env = CRC_COMPUTED")
    case True
    obtain q where q: "removeNetworkProtocolHeader ?p = Inr (h, q)" "packet_ok q" "pk_data q = d"
      "pk_tags q = (pk_tags ?p)\<lparr>t_networkInd := None, t_packetProtocol := None\<rparr>"
      using removeNetworkProtocolHeader_ok[OF dp] by blast
    obtain bytes where b: "ipv4_serialize (h\<lparr>ih_crc := 0\<rparr>) = Inr bytes"
      using ipv4_serialize_total[of "h\<lparr>ih_crc := 0\<rparr>"] dg assms(2) True by auto
    let ?h = "h\<lparr>ih_crc := tcpip_checksum bytes\<rparr>"
    have h': "ip_setComputedCrc env h = Inr ?h" "ip_verifyCrc True ?h = Inr True"
      using ip_crc_ok[OF b] dg True b by (simp_all add: ip_setComputedCrc_def)
    obtain f where f: "insertNetworkProtocolHeader ?h q = Inr f" "packet_ok f" "pk_data f = header_cells (Ipv4H ?h) @ pk_data q"
      "pk_tags f = ip_tagged ?h (pk_tags q)"
      using insertNetworkProtocolHeader_ok[OF q(2)] by blast
    show ?thesis using that[of f "tcpip_checksum bytes"] True q f h' tags by simp
  next
    case False
    have "h\<lparr>ih_crc := ih_crc h\<rparr> = h" by simp
    then show ?thesis using that[of ?p "ih_crc h"] False dp tags dg by (auto simp: ip_verifyCrc_def)
  qed
  have s0: "is_timer s0 = is_timer s" "is_pending s0 = is_pending s" "is_out s0 = is_out s"
    by (simp_all add: s0_def set_current_def)
  have "nextHop_ready env f (set_current shared f s0) = nextHop_ready env ?p s"
    using f(4,5) tags s0 by (simp add: nextHop_ready_def reqInterface_def set_current_def)
  then obtain q where q: "same_bytes q f" "ip_sendDatagramToOutput env f (set_current shared f s0)
      = Inr ((set_current shared f s0)\<lparr>is_out := is_out s @ [QueueOut q], is_timer := is_timer s \<or> en_txChannel env\<rparr>)"
    using ip_sendDatagramToOutput_ok[of env f "set_current shared f s0"] assms(8,9) s0 by (auto simp: set_current_def)
  show ?thesis
    unfolding fs ip_send_whole_def f(1) bindE_simps q(2) using same_bytes_simps[OF q(1)] f(3,4,6)
    by (intro exI[of _ q] exI[of _ c]) (auto simp: set_current_def s0_def)
qed

lemma ip_rdma_fragments_sent:
  assumes "ip_fragmentable env h d ie p" "is_isRdma s" "\<not> en_txChannel env" "is_offset s = 0"
    and "nextHop_ready env (ip_with_nextHop h p) s"
  shows "\<exists>qs s'. ip_fragmentAndSend env shared p s = Inr s' \<and> is_out s' = is_out s @ map QueueOut qs \<and>
    length qs = frag_count (ip_pieceLength h ie) (length d) \<and>
    (\<forall>j < length qs. is_ip_fragment h (ip_pieceLength h ie) d j (qs ! j) \<and> int (dataLength (qs ! j)) \<le> ie_mtu ie) \<and>
    concat (map (\<lambda>q. drop (header_length (Ipv4H h)) (pk_data q)) qs) = d \<and>
    is_packet s' = None \<and> is_current s' = None \<and> is_offset s' = 0 \<and> is_queue s' = is_queue s"
proof -
  let ?F = "ip_pieceLength h ie" and ?p = "ip_with_nextHop h p"
  let ?s = "frag_started shared ?p h ie d s"
  note F = ip_pieceLength_ok[OF assms(1)]
  have dg: "ip_datagram (en_crcMode env) h d ?p" using assms(1) by (simp add: ip_fragmentable_def)
  have st: "frag_state h ?F (length d) 0 ?s" by (rule frag_started_state) (simp add: assms(4))
  have rd: "nextHop_ready env ?p ?s"
    using nextHop_ready_cong[of ?p ?p ?s s] assms(5) by (simp add: frag_started_simps)
  obtain qs off where qs: "length qs = frag_count ?F (length d)" "\<forall>i < length qs. is_ip_fragment h ?F d i (qs ! i)"
    "ip_fragment_loop env ?p h ?s = Inr (?s\<lparr>is_out := is_out ?s @ map QueueOut qs, is_offset := off\<rparr>)"
    using ip_fragment_loop_ok[OF dg F(1,2) assms(3) st rd refl] by auto
  define s' where "s' = ?s\<lparr>is_out := is_out s @ map QueueOut qs, is_offset := 0, is_packet := None, is_current := None\<rparr>"
  have "ip_fragmentAndSend env shared p s = Inr s'"
    unfolding ip_fragmentAndSend_started[OF assms(1)] Let_def s'_def using assms(2) qs(3) by (simp add: frag_started_simps)
  moreover have "\<forall>j < length qs. is_ip_fragment h ?F d j (qs ! j) \<and> int (dataLength (qs ! j)) \<le> ie_mtu ie"
    using qs(2) is_ip_fragment_size[OF assms(1)] by blast
  moreover have "is_out s' = is_out s @ map QueueOut qs" "is_packet s' = None" "is_current s' = None" "is_offset s' = 0"
    "is_queue s' = is_queue s"
    by (simp_all add: s'_def frag_started_simps)
  ultimately show ?thesis using qs(1) fragments_payload[OF F(1) qs(1,2)] by blast
qed

section \<open>Properties\<close>

text \<open>A checksum computed by \<open>setComputedCrc\<close> or \<open>insertCrc\<close> is accepted by \<open>verifyCrc\<close>,
  and an IPv4 header that \<open>encapsulate\<close> could produce can always be given one.\<close>

theorem ipv4_crc_verifies:
  assumes "ih_crcMode h = CRC_COMPUTED" "ih_headerLength h = int (header_length (Ipv4H h))"
    and "ih_headerLength h mod 4 = 0" "ih_headerLength h \<le> 60" "ih_headerLength h \<le> ih_totalLength h"
    and "ih_fragmentOffset h mod 8 = 0" "en_crcMode env = CRC_COMPUTED"
  shows "\<exists>h'. ip_setComputedCrc env h = Inr h' \<and> ip_insertCrc h = Inr h' \<and> ip_verifyCrc True h' = Inr True \<and>
    h' = h\<lparr>ih_crc := ih_crc h'\<rparr>"
proof -
  obtain bytes where b: "ipv4_serialize (h\<lparr>ih_crc := 0\<rparr>) = Inr bytes"
    using ipv4_serialize_total[of "h\<lparr>ih_crc := 0\<rparr>"] assms(1-6) by auto
  then show ?thesis using ip_crc_ok[OF b assms(1)] assms(1,7)
    by (simp add: ip_setComputedCrc_def ip_insertCrc_def)
qed

definition example_env :: "crc_mode \<Rightarrow> bool \<Rightarrow> int \<Rightarrow> ip_env" where
  "example_env mode channel mtu = \<lparr>en_now = 0, en_ift = [\<lparr>ie_id = 100, ie_name = ''eth0'', ie_fullPath = ''host.eth0'', ie_isUp = True,
      ie_isLoopback = False, ie_isBroadcast = False, ie_isMulticast = True, ie_mac = 0, ie_mtu = mtu,
      ie_protocol = Some P_ethernetMac, ie_ipAddress = 0x0A000001, ie_netmask = 0xFFFFFF00, ie_ipMetric = 1,
      ie_joinedGroups = [], ie_listenerGroups = [], ie_ttlThreshold = 0\<rparr>],
     en_crcMode = mode, en_defaultTtl = 32, en_defaultMcTtl = 1, en_fragmentTimeout = 60, en_second = 1, en_limitedBroadcast = False,
     en_directBroadcast = (\<lambda>_. False), en_arp = (\<lambda>_ _. 1), en_hooks = [], en_txChannel = channel, en_upperBusy = False,
     en_upperProtocols = [P_rdma, P_udp], en_moduleId = 7, en_newMulticast = (\<lambda>_ t. t)\<rparr>"

theorem ipv4_crc_verifies_witness:
  "\<exists>h'. ip_setComputedCrc (example_env CRC_COMPUTED True 1500) (example_ipv4_header\<lparr>ih_crcMode := CRC_COMPUTED\<rparr>) = Inr h' \<and>
    ip_verifyCrc True h' = Inr True"
  using ipv4_crc_verifies[of "example_ipv4_header\<lparr>ih_crcMode := CRC_COMPUTED\<rparr>" "example_env CRC_COMPUTED True 1500"]
  by (auto simp: example_ipv4_header_def example_env_def)

text \<open>C30: on a node that has sent RDMA, a datagram larger than the MTU leaves \<open>fragmentAndSend\<close>
  as \<open>ceil(payload / F)\<close> fragments in order, \<open>F\<close> the largest multiple of 8 that fits: each
  fits the MTU, has its own offset, length and \<open>moreFragments\<close> bit and a valid checksum, and
  their payloads make up the payload of the datagram. The module is free for the next one.\<close>

theorem ipv4_rdma_fragments:
  assumes "ip_fragmentable env h d ie p" "is_isRdma s" "\<not> en_txChannel env" "is_offset s = 0"
    and "nextHop_ready env (ip_with_nextHop h p) s"
  shows "\<exists>qs s'. ip_fragmentAndSend env shared p s = Inr s' \<and> is_out s' = is_out s @ map QueueOut qs \<and>
    length qs = frag_count (ip_pieceLength h ie) (length d) \<and>
    (\<forall>j < length qs. is_ip_fragment h (ip_pieceLength h ie) d j (qs ! j) \<and> int (dataLength (qs ! j)) \<le> ie_mtu ie) \<and>
    concat (map (\<lambda>q. drop (header_length (Ipv4H h)) (pk_data q)) qs) = d \<and>
    is_packet s' = None \<and> is_current s' = None \<and> is_offset s' = 0 \<and> is_queue s' = is_queue s"
  by (rule ip_rdma_fragments_sent[OF assms])

definition example_datagram :: "crc_mode \<Rightarrow> nat \<Rightarrow> packet" where
  "example_datagram mode n = (new_packet ''m'' 0)\<lparr>
     pk_content := header_cells (Ipv4H (example_ipv4_header\<lparr>ih_crcMode := mode, ih_totalLength := 20 + int n\<rparr>)) @ replicate n (Data 7),
     pk_tags := no_tags\<lparr>t_packetProtocol := Some P_ipv4, t_interfaceReq := Some 100\<rparr>\<rparr>"

lemma example_datagram_simps:
  "packet_ok (example_datagram mode n)"
  "pk_data (example_datagram mode n) = header_cells (Ipv4H (example_ipv4_header\<lparr>ih_crcMode := mode, ih_totalLength := 20 + int n\<rparr>)) @ replicate n (Data 7)"
  "dataLength (example_datagram mode n) = 20 + n"
  by (simp_all add: example_datagram_def packet_ok_def new_packet_def pk_data_alt dataLength_def totalLength_def example_ipv4_header_def)

lemma example_datagram_tags:
  "pk_tags (example_datagram mode n) = no_tags\<lparr>t_packetProtocol := Some P_ipv4, t_interfaceReq := Some 100\<rparr>"
  by (simp add: example_datagram_def)

lemma example_fragmentable:
  assumes "28 \<le> mtu" "mtu < 20 + int n"
  shows "ip_fragmentable (example_env mode ch mtu) (example_ipv4_header\<lparr>ih_crcMode := mode, ih_totalLength := 20 + int n\<rparr>)
    (replicate n (Data 7)) (hd (en_ift (example_env mode ch mtu))) (example_datagram mode n)"
  unfolding ip_fragmentable_def ip_datagram_def
  using assms example_datagram_simps(1,2)[of mode n] by (simp add: example_datagram_tags example_env_def example_ipv4_header_def no_tags_def
      reqInterface_def getInterfaceById_def findInterfaceById_def)

lemma example_ready:
  "nextHop_ready (example_env mode ch mtu) (ip_with_nextHop h (example_datagram mode n)) s"
  by (simp add: nextHop_ready_def example_env_def ip_with_nextHop_def ip_getNextHop_def set_nextHop_def example_datagram_def
      new_packet_def no_tags_def reqInterface_def getInterfaceById_def findInterfaceById_def ip_isUnspecified_def)

theorem ipv4_rdma_fragments_witness:
  "\<exists>qs s'. ip_fragmentAndSend (example_env CRC_COMPUTED False 100) True (example_datagram CRC_COMPUTED 200)
      ((ipv4_init (new_routing_table True False False))\<lparr>is_isRdma := True\<rparr>) = Inr s' \<and> is_out s' = map QueueOut qs \<and> length qs = 3"
proof -
  let ?h = "example_ipv4_header\<lparr>ih_crcMode := CRC_COMPUTED, ih_totalLength := 20 + int 200\<rparr>"
  let ?ie = "hd (en_ift (example_env CRC_COMPUTED False 100))"
  let ?s = "(ipv4_init (new_routing_table True False False))\<lparr>is_isRdma := True\<rparr>"
  have f: "ip_fragmentable (example_env CRC_COMPUTED False 100) ?h (replicate 200 (Data 7)) ?ie (example_datagram CRC_COMPUTED 200)"
    by (rule example_fragmentable) simp_all
  have "ip_pieceLength ?h ?ie = 80" by (simp add: ip_pieceLength_def example_ipv4_header_def example_env_def)
  then show ?thesis
    using ipv4_rdma_fragments[OF f _ _ _ example_ready, of ?s True] by (fastforce simp: ipv4_init_def example_env_def frag_count_def)
qed

text \<open>A number of end-of-transmission timers, one after the other.\<close>

fun ip_endTx_run :: "ip_env \<Rightarrow> nat \<Rightarrow> ipv4_state \<Rightarrow> ipv4_state res" where
  "ip_endTx_run env 0 s = Inr s"
| "ip_endTx_run env (Suc n) s = bindE (ip_handleEndTxPeriod env s) (ip_endTx_run env n)"

text \<open>The state while fragment \<open>j\<close> of datagram \<open>p\<close> is being transmitted.\<close>

definition frag_sending :: "ip_env \<Rightarrow> ipv4_header \<Rightarrow> cell list \<Rightarrow> network_interface \<Rightarrow> packet \<Rightarrow> nat \<Rightarrow> ipv4_state \<Rightarrow> bool" where
  "frag_sending env h d ie p j s \<longleftrightarrow> \<not> is_isRdma s \<and> is_timer s \<and> is_packet s = Some p \<and> is_current s = Some p \<and>
     is_mtu s = ie_mtu ie \<and> is_payloadLength s = int (length d) \<and>
     is_offset s = int (min (ip_pieceLength h ie * Suc j) (length d)) \<and> nextHop_ready env p s \<and> ip_with_nextHop h p = p"

lemma ip_send_first:
  assumes "ip_fragmentable env h d ie p" "en_txChannel env" "\<not> is_isRdma s" "\<not> is_timer s"
    and "is_offset s = int (ip_pieceLength h ie * j)" "ip_pieceLength h ie * j < length d"
    and "nextHop_ready env (ip_with_nextHop h p) s"
  shows "\<exists>q s'. ip_fragmentAndSend env True p s = Inr s' \<and> is_out s' = is_out s @ [QueueOut q] \<and>
    is_ip_fragment h (ip_pieceLength h ie) d j q \<and> frag_sending env h d ie (ip_with_nextHop h p) j s' \<and> is_queue s' = is_queue s"
proof -
  let ?F = "ip_pieceLength h ie" and ?p = "ip_with_nextHop h p"
  let ?s = "frag_started True ?p h ie d s"
  note F = ip_pieceLength_ok[OF assms(1)]
  have dg: "ip_datagram (en_crcMode env) h d ?p" using assms(1) by (simp add: ip_fragmentable_def)
  have st: "frag_state h ?F (length d) j ?s" by (rule frag_started_state[OF assms(5)])
  have rd: "nextHop_ready env ?p ?s"
    using nextHop_ready_cong[of ?p ?p ?s s] assms(7) by (simp add: frag_started_simps)
  have tm: "\<not> (en_txChannel env \<and> is_timer ?s)" using assms(4) by (simp add: frag_started_simps)
  obtain q where q: "is_ip_fragment h ?F d j q" "ip_send_fragment env ?p h ?s
      = Inr (?s\<lparr>is_out := is_out ?s @ [QueueOut q], is_timer := is_timer ?s \<or> en_txChannel env,
               is_offset := int (?F * j + min ?F (length d - ?F * j))\<rparr>)"
    using ip_send_fragment_ok[OF dg F(1,2) st assms(6) rd tm] by blast
  define s' where "s' = ?s\<lparr>is_out := is_out ?s @ [QueueOut q], is_timer := is_timer ?s \<or> en_txChannel env,
               is_offset := int (?F * j + min ?F (length d - ?F * j))\<rparr>"
  have m: "?F * j + min ?F (length d - ?F * j) = min (?F * Suc j) (length d)" using assms(6) by auto
  have nn: "ip_with_nextHop h ?p = ?p"
    by (simp add: ip_with_nextHop_def set_nextHop_def ip_getNextHop_def)
  have "nextHop_ready env ?p s'" using nextHop_ready_cong[of ?p ?p s' ?s] rd by (simp add: s'_def)
  then have "frag_sending env h d ie ?p j s'"
    using assms(2,3) nn unfolding frag_sending_def s'_def m by (simp add: frag_started_simps)
  moreover have "ip_fragmentAndSend env True p s = Inr s'"
    unfolding ip_fragmentAndSend_started[OF assms(1)] Let_def s'_def q(2)[symmetric] using assms(3) by simp
  moreover have "is_out s' = is_out s @ [QueueOut q]" "is_queue s' = is_queue s" by (simp_all add: s'_def frag_started_simps)
  ultimately show ?thesis using q(1) by blast
qed

lemma ip_endTx_next:
  assumes "ip_fragmentable env h d ie p" "en_txChannel env" "frag_sending env h d ie p j s" "ip_pieceLength h ie * Suc j < length d"
  shows "\<exists>q s'. ip_handleEndTxPeriod env s = Inr s' \<and> is_out s' = is_out s @ [QueueOut q] \<and>
    is_ip_fragment h (ip_pieceLength h ie) d (Suc j) q \<and> frag_sending env h d ie p (Suc j) s' \<and> is_queue s' = is_queue s"
proof -
  let ?s = "s\<lparr>is_timer := False\<rparr>"
  have S: "is_packet s = Some p" "is_current s = Some p" "is_mtu s = ie_mtu ie" "\<not> is_isRdma s"
    "is_payloadLength s = int (length d)" "ip_with_nextHop h p = p" "nextHop_ready env p s"
    and off: "is_offset s = int (min (ip_pieceLength h ie * Suc j) (length d))"
    using assms(3) by (simp_all add: frag_sending_def)
  have off': "is_offset s = int (ip_pieceLength h ie * Suc j)" using off assms(4) by simp
  have more: "is_offset s < is_payloadLength s" "ie_mtu ie < int (dataLength p)"
    using off' S(5) assms(4) dataLength_datagram[of "en_crcMode env" h d p] assms(1)
    by (simp_all add: ip_fragmentable_def del: of_nat_mult)
  have h: "ip_handleEndTxPeriod env s = ip_fragmentAndSend env True p ?s"
    using S more by (simp add: ip_handleEndTxPeriod_def Let_def)
  have rd: "nextHop_ready env (ip_with_nextHop h p) ?s" using nextHop_ready_cong[of p p ?s s] S by simp
  show ?thesis unfolding h using ip_send_first[OF assms(1,2) _ _ _ assms(4) rd] S off' by auto
qed

lemma ip_endTx_rest:
  assumes "ip_fragmentable env h d ie p" "en_txChannel env" "frag_sending env h d ie p j s"
    and "frag_count (ip_pieceLength h ie) (length d) = Suc (j + n)"
  shows "\<exists>qs s'. ip_endTx_run env n s = Inr s' \<and> length qs = n \<and> is_out s' = is_out s @ map QueueOut qs \<and>
    (\<forall>i < n. is_ip_fragment h (ip_pieceLength h ie) d (Suc j + i) (qs ! i)) \<and> frag_sending env h d ie p (j + n) s' \<and>
    is_queue s' = is_queue s"
  using assms(3,4)
proof (induction n arbitrary: j s)
  case 0
  then show ?case by simp
next
  case (Suc n)
  have "Suc j < frag_count (ip_pieceLength h ie) (length d)" using Suc(3) by simp
  then have lt: "ip_pieceLength h ie * Suc j < length d"
    using frag_count_less[OF ip_pieceLength_ok(1)[OF assms(1)]] by blast
  obtain q s1 where q: "ip_handleEndTxPeriod env s = Inr s1" "is_out s1 = is_out s @ [QueueOut q]"
    "is_ip_fragment h (ip_pieceLength h ie) d (Suc j) q" "frag_sending env h d ie p (Suc j) s1" "is_queue s1 = is_queue s"
    using ip_endTx_next[OF assms(1,2) Suc(2) lt] by blast
  obtain qs s' where qs: "ip_endTx_run env n s1 = Inr s'" "length qs = n" "is_out s' = is_out s1 @ map QueueOut qs"
    "\<forall>i < n. is_ip_fragment h (ip_pieceLength h ie) d (Suc (Suc j) + i) (qs ! i)"
    "frag_sending env h d ie p (Suc j + n) s'" "is_queue s' = is_queue s1"
    using Suc.IH[OF q(4)] Suc(3) by auto
  have "\<forall>i < Suc n. is_ip_fragment h (ip_pieceLength h ie) d (Suc j + i) ((q # qs) ! i)"
    using qs(4) q(3) by (auto simp: less_Suc_eq_0_disj)
  then show ?case using q qs by (intro exI[of _ "q # qs"] exI[of _ s']) simp
qed

text \<open>C31: without RDMA and on a link with a transmission channel, one fragment is sent at once
  and one at every end of transmission: \<open>fragmentAndSend\<close> and \<open>n - 1\<close> timers send the same \<open>n\<close>
  fragments in order, none is lost or repeated, and the next timer releases the datagram
  and goes on with the queue.\<close>

theorem ipv4_timer_fragments:
  assumes "ip_fragmentable env h d ie p" "en_txChannel env" "\<not> is_isRdma s" "\<not> is_timer s" "is_offset s = 0"
    and "nextHop_ready env (ip_with_nextHop h p) s" "n = frag_count (ip_pieceLength h ie) (length d)"
  shows "\<exists>qs s'. bindE (ip_fragmentAndSend env True p s) (ip_endTx_run env (n - 1)) = Inr s' \<and>
    length qs = n \<and> is_out s' = is_out s @ map QueueOut qs \<and>
    (\<forall>j < n. is_ip_fragment h (ip_pieceLength h ie) d j (qs ! j) \<and> int (dataLength (qs ! j)) \<le> ie_mtu ie) \<and>
    concat (map (\<lambda>q. drop (header_length (Ipv4H h)) (pk_data q)) qs) = d \<and>
    ip_handleEndTxPeriod env s' =
      ip_next_from_queue env (s'\<lparr>is_timer := False, is_offset := 0, is_packet := None, is_current := None\<rparr>) \<and>
    is_queue s' = is_queue s"
proof -
  let ?F = "ip_pieceLength h ie" and ?p = "ip_with_nextHop h p"
  note F = ip_pieceLength_ok[OF assms(1)]
  have "ih_headerLength h + 8 \<le> ie_mtu ie" "ie_mtu ie < ih_headerLength h + int (length d)"
    using assms(1) unfolding ip_fragmentable_def by blast+
  then have d: "0 < length d" by linarith
  then have n: "0 < n" using frag_count_less[OF F(1), of 0 "length d"] assms(7) by simp
  obtain q s1 where q: "ip_fragmentAndSend env True p s = Inr s1" "is_out s1 = is_out s @ [QueueOut q]"
    "is_ip_fragment h ?F d 0 q" "frag_sending env h d ie ?p 0 s1" "is_queue s1 = is_queue s"
    using ip_send_first[OF assms(1-4), of 0] assms(5,6) d by auto
  have f: "ip_fragmentable env h d ie ?p" using assms(1) by simp
  have cnt: "frag_count ?F (length d) = Suc (0 + (n - 1))" using n assms(7) by simp
  obtain qs s' where qs: "ip_endTx_run env (n - 1) s1 = Inr s'" "length qs = n - 1" "is_out s' = is_out s1 @ map QueueOut qs"
    "\<forall>i < n - 1. is_ip_fragment h ?F d (Suc 0 + i) (qs ! i)"
    "frag_sending env h d ie ?p (0 + (n - 1)) s'" "is_queue s' = is_queue s1"
    using ip_endTx_rest[OF f assms(2) q(4) cnt] by blast
  have all: "\<forall>j < n. is_ip_fragment h ?F d j ((q # qs) ! j)"
    using q(3) qs(4) n by (auto simp: less_Suc_eq_0_disj nth_Cons split: nat.split)
  have len: "length (q # qs) = frag_count ?F (length d)" using qs(2) n assms(7) by simp
  have "\<not> n < frag_count ?F (length d)" using assms(7) by simp
  then have "length d \<le> ?F * n" using frag_count_less[OF F(1), of n "length d"] by simp
  then have "is_offset s' = int (length d)" "is_payloadLength s' = int (length d)"
    using qs(5) n by (simp_all add: frag_sending_def min_def)
  then have rel: "ip_handleEndTxPeriod env s' =
      ip_next_from_queue env (s'\<lparr>is_timer := False, is_offset := 0, is_packet := None, is_current := None\<rparr>)"
    by (simp add: ip_handleEndTxPeriod_def Let_def)
  have "concat (map (\<lambda>q. drop (header_length (Ipv4H h)) (pk_data q)) (q # qs)) = d"
    by (rule fragments_payload[OF F(1) len]) (use all len assms(7) in simp)
  moreover have "\<forall>j < n. int (dataLength ((q # qs) ! j)) \<le> ie_mtu ie"
    using all is_ip_fragment_size[OF assms(1)] by blast
  ultimately show ?thesis using q qs all rel n
    by (intro exI[of _ "q # qs"] exI[of _ s']) simp
qed

theorem ipv4_timer_fragments_witness:
  "\<exists>qs s'. bindE (ip_fragmentAndSend (example_env CRC_COMPUTED True 100) True (example_datagram CRC_COMPUTED 200)
      (ipv4_init (new_routing_table True False False))) (ip_endTx_run (example_env CRC_COMPUTED True 100) 2) = Inr s' \<and>
    is_out s' = map QueueOut qs \<and> length qs = 3"
proof -
  let ?h = "example_ipv4_header\<lparr>ih_crcMode := CRC_COMPUTED, ih_totalLength := 20 + int 200\<rparr>"
  let ?ie = "hd (en_ift (example_env CRC_COMPUTED True 100))"
  have f: "ip_fragmentable (example_env CRC_COMPUTED True 100) ?h (replicate 200 (Data 7)) ?ie (example_datagram CRC_COMPUTED 200)"
    by (rule example_fragmentable) simp_all
  have "ip_pieceLength ?h ?ie = 80" by (simp add: ip_pieceLength_def example_ipv4_header_def example_env_def)
  then show ?thesis
    using ipv4_timer_fragments[OF f _ _ _ _ example_ready refl, of "ipv4_init (new_routing_table True False False)"]
    by (fastforce simp: ipv4_init_def example_env_def frag_count_def)
qed

text \<open>a node that has sent RDMA and whose output has a transmission channel cannot send a
  datagram in two or more fragments: the loop sends them without waiting, and the second
  one schedules the end-of-transmission timer again.\<close>

theorem ipv4_rdma_channel_raises:
  assumes "ip_fragmentable env h d ie p" "is_isRdma s" "en_txChannel env" "\<not> is_timer s" "is_offset s = 0"
    and "nextHop_ready env (ip_with_nextHop h p) s"
  shows "ip_fragmentAndSend env shared p s = Inl (RuntimeError ''scheduleAt(): message is already scheduled'')"
proof -
  let ?F = "ip_pieceLength h ie" and ?p = "ip_with_nextHop h p"
  let ?s = "frag_started shared ?p h ie d s"
  note F = ip_pieceLength_ok[OF assms(1)]
  have dg: "ip_datagram (en_crcMode env) h d ?p" using assms(1) by (simp add: ip_fragmentable_def)
  have m: "ih_headerLength h + 8 \<le> ie_mtu ie" "ie_mtu ie < ih_headerLength h + int (length d)"
    using assms(1) unfolding ip_fragmentable_def by blast+
  then have "int ?F < int (length d)" "0 < length d" using F(4) by linarith+
  then have j: "?F * 0 < length d" "?F * 1 < length d" by simp_all
  have st: "frag_state h ?F (length d) 0 ?s" by (rule frag_started_state) (simp add: assms(5))
  have rd: "nextHop_ready env ?p ?s"
    using nextHop_ready_cong[of ?p ?p ?s s] assms(6) by (simp add: frag_started_simps)
  obtain f0 where f0: "ip_fragment_packet env ?p h ?s = Inr f0" "pk_tags f0 = pk_tags ?p"
    "int (dataLength f0) = is_headerLength ?s + ip_thisFragmentLength ?s"
    using ip_fragment_packet_ok[OF dg F(1,2) st j(1)] by blast
  have tm: "\<not> (en_txChannel env \<and> is_timer ?s)" using assms(4) by (simp add: frag_started_simps)
  have r0: "nextHop_ready env f0 ?s" using nextHop_ready_cong[OF f0(2) refl] rd by blast
  obtain q where q: "ip_sendDatagramToOutput env f0 ?s = Inr (?s\<lparr>is_out := is_out ?s @ [QueueOut q], is_timer := True\<rparr>)"
    using ip_sendDatagramToOutput_ok[OF r0 tm] assms(3) by auto
  define s1 where "s1 = ?s\<lparr>is_out := is_out ?s @ [QueueOut q], is_timer := True, is_offset := is_offset ?s + ip_thisFragmentLength ?s\<rparr>"
  have lt0: "is_offset ?s < is_payloadLength ?s" using ip_thisFragmentLength_nat(3)[OF frag_stateD(5,2,3)[OF st]] j(1) by simp
  have "ip_thisFragmentLength ?s = int ?F" using ip_thisFragmentLength_eq[OF st j(1)] j(2) by simp
  then have st1: "frag_state h ?F (length d) 1 s1" using st by (simp add: frag_state_def s1_def)
  have lt1: "is_offset s1 < is_payloadLength s1" using ip_thisFragmentLength_nat(3)[OF frag_stateD(5,2,3)[OF st1]] j(2) by simp
  obtain f1 where f1: "ip_fragment_packet env ?p h s1 = Inr f1" "pk_tags f1 = pk_tags ?p"
    "int (dataLength f1) = is_headerLength s1 + ip_thisFragmentLength s1"
    using ip_fragment_packet_ok[OF dg F(1,2) st1 j(2)] by blast
  have r1: "nextHop_ready env f1 s1"
    using nextHop_ready_cong[OF f1(2), of s1 ?s] rd by (simp add: s1_def)
  have "is_timer s1" by (simp add: s1_def)
  then have e: "ip_sendDatagramToOutput env f1 s1 = Inl (RuntimeError ''scheduleAt(): message is already scheduled'')"
    using r1 assms(3) by (auto simp: nextHop_ready_def ip_sendDatagramToOutput_def Let_def ip_sendPacketToNIC_def
        emit_out_def reqInterface_def set_macDest_def)
  have "ip_fragment_loop env ?p h ?s = ip_fragment_loop env ?p h s1"
    using lt0 f0(1,3) q by (simp add: ip_fragment_loop.simps[of env ?p h ?s] s1_def)
  also have "\<dots> = Inl (RuntimeError ''scheduleAt(): message is already scheduled'')"
    using lt1 f1(1,3) e by (simp add: ip_fragment_loop.simps[of env ?p h s1])
  finally show ?thesis unfolding ip_fragmentAndSend_started[OF assms(1)] Let_def using assms(2) by simp
qed

theorem ipv4_rdma_channel_raises_witness:
  "ip_fragmentAndSend (example_env CRC_DECLARED_CORRECT True 100) True (example_datagram CRC_DECLARED_CORRECT 200)
      ((ipv4_init (new_routing_table True False False))\<lparr>is_isRdma := True\<rparr>)
    = Inl (RuntimeError ''scheduleAt(): message is already scheduled'')"
proof -
  have f: "ip_fragmentable (example_env CRC_DECLARED_CORRECT True 100) (example_ipv4_header\<lparr>ih_crcMode := CRC_DECLARED_CORRECT, ih_totalLength := 20 + int 200\<rparr>)
    (replicate 200 (Data 7)) (hd (en_ift (example_env CRC_DECLARED_CORRECT True 100))) (example_datagram CRC_DECLARED_CORRECT 200)"
    by (rule example_fragmentable) simp_all
  show ?thesis by (rule ipv4_rdma_channel_raises[OF f _ _ _ _ example_ready]) (simp_all add: ipv4_init_def example_env_def)
qed

text \<open>Datagrams that come after one another from routing.\<close>

fun ip_post_run :: "ip_env \<Rightarrow> packet list \<Rightarrow> ipv4_state \<Rightarrow> ipv4_state res" where
  "ip_post_run env [] s = Inr s"
| "ip_post_run env (p # ps) s = bindE (ip_fragmentPostRouting env p s) (ip_post_run env ps)"

lemma run_datagramHook_state:
  assumes "run_datagramHook ty env p s = Inr (acc, s1)"
  shows "\<exists>q. s1 = s\<lparr>is_hookQueue := q\<rparr>"
proof -
  obtain r p' where "run_hooks (en_hooks env) ty p = Inr (r, p')" and r: "(acc, s1) = (case r of
       ACCEPT \<Rightarrow> (Some p', s) | DROP \<Rightarrow> (None, s)
     | QUEUE \<Rightarrow> (None, s\<lparr>is_hookQueue := is_hookQueue s @ [(p', ty)]\<rparr>) | STOLEN \<Rightarrow> (None, s))"
    using assms by (auto simp: run_datagramHook_def bindE_eq_Inr)
  have "s1 = s \<or> s1 = s\<lparr>is_hookQueue := is_hookQueue s @ [(p', ty)]\<rparr>" using r by (cases r) simp_all
  moreover have "s = s\<lparr>is_hookQueue := is_hookQueue s\<rparr>" by simp
  ultimately show ?thesis by metis
qed

lemma ip_post_blocked:
  assumes "ip_fragmentPostRouting env p s = Inr s'" "is_packet s = Some x"
  shows "is_out s' = is_out s \<and> is_packet s' = Some x \<and> is_timer s' = is_timer s"
proof -
  obtain p' acc s1 where h: "datagramPostRoutingHook env p' s = Inr (acc, s1)"
    and rest: "(case acc of None \<Rightarrow> Inr s1 | Some p \<Rightarrow> (let s = s1\<lparr>is_queue := is_queue s1 @ [p]\<rparr> in
              if is_packet s = None then ip_next_from_queue env s else Inr s)) = Inr s'"
    using assms(1) unfolding ip_fragmentPostRouting_def bindE_eq_Inr by (auto split: prod.splits)
  have "is_out s1 = is_out s \<and> is_packet s1 = is_packet s \<and> is_timer s1 = is_timer s"
    using h run_datagramHook_state unfolding datagramPostRoutingHook_def by fastforce
  then show ?thesis using rest assms(2) by (cases acc) (auto simp: Let_def)
qed

text \<open>After a datagram was dropped in \<open>fragmentAndSend\<close> because its time to live ran out, the
  member \<open>packet\<close> still points to it and no timer is started. From then on every datagram
  that the hooks accept is only put into the queue: nothing is sent any more.\<close>

theorem ipv4_drop_stalls_output:
  assumes "ip_fragmentAndSend env True p s = Inr s1" "peekAtFront as_ipv4 p = Inr h" "ih_timeToLive h \<le> 0"
    and "\<not> is_timer s" "ip_post_run env ps s1 = Inr s2"
  shows "is_packet s2 \<noteq> None \<and> \<not> is_timer s2 \<and> is_out s2 = is_out s1"
proof -
  have s1: "is_packet s1 \<noteq> None \<and> \<not> is_timer s1"
  proof -
    obtain p' s' ie where l: "ip_udp_latency (en_now env) p s = Inr (p', s')" "is_timer s' = is_timer s"
      "peekAtFront as_ipv4 p' = peekAtFront as_ipv4 p"
      using assms(1) by (auto simp: ip_fragmentAndSend_def ip_udp_latency_def bindE_eq_Inr peekAtFront_def pk_data_alt
          split: if_splits option.splits)
    then show ?thesis using assms(1-4)
      by (auto simp: ip_fragmentAndSend_def bindE_eq_Inr Let_def set_current_def sendIcmpError_def emit_out_def)
  qed
  have "is_packet s = Some x \<Longrightarrow> \<not> is_timer s \<Longrightarrow> ip_post_run env ps s = Inr s2 \<Longrightarrow>
      is_packet s2 \<noteq> None \<and> \<not> is_timer s2 \<and> is_out s2 = is_out s" for s x
  proof (induction ps arbitrary: s)
    case (Cons q ps)
    then obtain s' where s': "ip_fragmentPostRouting env q s = Inr s'" "ip_post_run env ps s' = Inr s2"
      by (auto simp: bindE_eq_Inr)
    show ?case using ip_post_blocked[OF s'(1) Cons.prems(1)] Cons.IH[OF _ _ s'(2)] Cons.prems(2) by simp
  qed simp
  then show ?thesis using s1 assms(5) by blast
qed

theorem ipv4_drop_stalls_output_witness:
  "\<exists>s1. ip_fragmentAndSend (example_env CRC_DECLARED_CORRECT True 100) True
      ((example_datagram CRC_DECLARED_CORRECT 20)\<lparr>pk_content := header_cells (Ipv4H (example_ipv4_header\<lparr>ih_timeToLive := 0\<rparr>)) @ [Data 1]\<rparr>)
      (ipv4_init (new_routing_table True False False)) = Inr s1 \<and>
    is_packet s1 \<noteq> None \<and> \<not> is_timer s1"
proof -
  let ?p = "(example_datagram CRC_DECLARED_CORRECT 20)\<lparr>pk_content := header_cells (Ipv4H (example_ipv4_header\<lparr>ih_timeToLive := 0\<rparr>)) @ [Data 1]\<rparr>"
  let ?s = "ipv4_init (new_routing_table True False False)"
  have peek: "peekAtFront as_ipv4 ?p = Inr (example_ipv4_header\<lparr>ih_timeToLive := 0\<rparr>)"
    by (rule peekAtFront_header[of _ "Ipv4H (example_ipv4_header\<lparr>ih_timeToLive := 0\<rparr>)" "[Data 1]"])
       (simp_all add: example_datagram_def new_packet_def pk_data_alt example_ipv4_header_def)
  then have "\<exists>s1. ip_fragmentAndSend (example_env CRC_DECLARED_CORRECT True 100) True ?p ?s = Inr s1"
    by (simp add: ip_fragmentAndSend_def ip_udp_latency_def example_datagram_tags reqInterface_def getInterfaceById_def
        findInterfaceById_def example_env_def no_tags_def Let_def)
  then obtain s1 where s1: "ip_fragmentAndSend (example_env CRC_DECLARED_CORRECT True 100) True ?p ?s = Inr s1" by blast
  have "is_packet s1 \<noteq> None \<and> \<not> is_timer s1 \<and> is_out s1 = is_out s1"
    by (rule ipv4_drop_stalls_output[OF s1 peek, of "[]"]) (simp_all add: ipv4_init_def)
  then show ?thesis using s1 by blast
qed

text \<open>\<open>encapsulate\<close> puts one header in front of the payload: addresses and protocol number as
  requested, the length of the whole datagram, not a fragment, a fresh identification, the
  time to live by the kind of destination. The result is a datagram for \<open>fragmentAndSend\<close>.\<close>

theorem ipv4_encapsulate_header:
  assumes "packet_ok p" "t_l3AddressReq (pk_tags p) = Some req" "l3_toIpv4 (lr_src req) = Inr src" "l3_toIpv4 (lr_dest req) = Inr dest"
    and "t_packetProtocol (pk_tags p) = Some prot" "getProtocolNumber ipprotocol prot = Inr protId"
    and "t_tosReq (pk_tags p) = None" "t_dscpReq (pk_tags p) = None" "t_ecnReq (pk_tags p) = None"
    and "t_optionsReq (pk_tags p) = None" "t_hopLimitReq (pk_tags p) = None"
    and "src = 0 \<or> lr_nonLocalSrc req \<or> getInterfaceByAddress (en_ift env) src \<noteq> None"
    and "en_crcMode env \<in> {CRC_DECLARED_CORRECT, CRC_DECLARED_INCORRECT, CRC_COMPUTED}"
  shows "\<exists>q h. ip_encapsulate env p s = Inr (q, s\<lparr>is_curFragmentId := is_curFragmentId s + 1\<rparr>) \<and>
    ip_datagram (en_crcMode env) h (pk_data p) q \<and>
    ih_srcAddress h = src \<and> ih_destAddress h = dest \<and> ih_protocolId h = protId \<and>
    ih_totalLength h = 20 + int (dataLength p) \<and> \<not> ih_moreFragments h \<and> ih_fragmentOffset h = 0 \<and>
    ih_identification h = of_int (en_moduleId env * 10) + is_curFragmentId s \<and>
    ih_timeToLive h = (if ip_isLinkLocalMulticast dest then 1 else if ip_isMulticast dest then en_defaultMcTtl env else en_defaultTtl env) \<and>
    t_l3AddressReq (pk_tags q) = None \<and> t_packetProtocol (pk_tags q) = Some P_ipv4"
proof -
  define ttl where "ttl = (if ip_isLinkLocalMulticast dest then 1 else if ip_isMulticast dest then en_defaultMcTtl env else en_defaultTtl env)"
  define t where "t = (pk_tags p)\<lparr>t_l3AddressReq := None, t_hopLimitReq := None, t_fragmentationReq := None\<rparr>"
  define df where "df = (case t_fragmentationReq (pk_tags p) of Some b \<Rightarrow> b | None \<Rightarrow> False)"
  obtain crc where crc: "ip_declaredCrc (en_crcMode env) = Inr crc" using assms(13) by (auto simp: ip_declaredCrc_def)
  define h where "h = new_ipv4_header\<lparr>ih_identification := of_int (en_moduleId env * 10) + is_curFragmentId s,
                ih_dontFragment := df, ih_timeToLive := ttl, ih_protocolId := protId, ih_srcAddress := src,
                ih_destAddress := dest, ih_crcMode := en_crcMode env, ih_headerLength := 20,
                ih_totalLength := 20 + int (dataLength p), ih_crc := crc\<rparr>"
  define q0 where "q0 = p\<lparr>pk_tags := t\<lparr>t_networkInd := Some (P_ipv4, Some (Ipv4H h)), t_packetProtocol := Some P_ipv4\<rparr>\<rparr>"
  have src: "\<not> (\<not> ip_isUnspecified src \<and> \<not> lr_nonLocalSrc req \<and> getInterfaceByAddress (en_ift env) src = None)"
    using assms(12) by (auto simp: ip_isUnspecified_def)
  have ok: "packet_ok q0" "pk_data q0 = pk_data p" using assms(1) by (simp_all add: q0_def)
  have ne: "header_cells (Ipv4H h) \<noteq> []" using length_header_cells[of "Ipv4H h"] by force
  obtain q where q: "insertAtFront (header_cells (Ipv4H h)) q0 = Inr q" using insertAtFront_eq[OF ok(1) ne] by blast
  have qk: "packet_ok q" "pk_data q = header_cells (Ipv4H h) @ pk_data p" "pk_tags q = pk_tags q0"
    using insertAtFront_ok[OF ok(1) ne q] ok(2) by simp_all
  have t': "t\<lparr>t_optionsReq := None\<rparr> = t" using assms(10) by (cases "pk_tags p") (simp add: t_def)
  have tos: "ip_encap_tos t = Inr (0, t)" using assms(7-9) by (simp add: ip_encap_tos_def t_def)
  have "insertNetworkProtocolHeader h (p\<lparr>pk_tags := t\<rparr>) = Inr q" using q by (simp add: insertNetworkProtocolHeader_def q0_def)
  then have "ip_encapsulate env p s = Inr (q, s\<lparr>is_curFragmentId := is_curFragmentId s + 1\<rparr>)"
    using assms(2-6,10,11) src crc tos t'
    by (simp add: ip_encapsulate_def Let_def t_def[symmetric] ip_encap_ttl_def ttl_def[symmetric] df_def[symmetric])
       (simp add: h_def new_ipv4_header_def t_def)
  moreover have "ip_datagram (en_crcMode env) h (pk_data p) q"
    using qk by (simp add: ip_datagram_def h_def new_ipv4_header_def)
  ultimately show ?thesis using qk(3)
    by (intro exI[of _ q] exI[of _ h]) (simp add: h_def new_ipv4_header_def ttl_def q0_def t_def)
qed

theorem ipv4_encapsulate_header_witness:
  "\<exists>q h s'. ip_encapsulate (example_env CRC_COMPUTED True 1500) ((new_packet ''m'' 0)\<lparr>pk_content := [Data 1, Data 2],
      pk_tags := no_tags\<lparr>t_packetProtocol := Some P_udp, t_l3AddressReq := Some \<lparr>lr_src = L3None, lr_dest = L3IPv4 0x0A000002, lr_nonLocalSrc = False\<rparr>\<rparr>\<rparr>)
      (ipv4_init (new_routing_table True False False)) = Inr (q, s') \<and> ih_totalLength h = 22 \<and>
      ip_datagram CRC_COMPUTED h [Data 1, Data 2] q"
proof -
  let ?p = "(new_packet ''m'' 0)\<lparr>pk_content := [Data 1, Data 2],
      pk_tags := no_tags\<lparr>t_packetProtocol := Some P_udp, t_l3AddressReq := Some \<lparr>lr_src = L3None, lr_dest = L3IPv4 0x0A000002, lr_nonLocalSrc = False\<rparr>\<rparr>\<rparr>"
  have d: "dataLength ?p = 2" "pk_data ?p = [Data 1, Data 2]"
    by (simp_all add: dataLength_def totalLength_def new_packet_def pk_data_alt)
  have n: "getProtocolNumber ipprotocol P_udp = Inr 17"
    by (simp add: getProtocolNumber_def findProtocolNumber_def ipprotocol_def)
  have m: "en_crcMode (example_env CRC_COMPUTED True 1500) = CRC_COMPUTED" by (simp add: example_env_def)
  show ?thesis
    using ipv4_encapsulate_header[OF _ _ _ _ _ n, where p = ?p and req = "\<lparr>lr_src = L3None, lr_dest = L3IPv4 0x0A000002, lr_nonLocalSrc = False\<rparr>"
        and src = 0 and dest = "0x0A000002" and env = "example_env CRC_COMPUTED True 1500" and s = "ipv4_init (new_routing_table True False False)"] d m
    by (fastforce simp: no_tags_def packet_ok_def new_packet_def)
qed

end
