(* ===== verification/Ipv4_Input.thy ===== *)
theory Ipv4_Input
  imports Ipv4_Output
begin

text \<open>
  The receiving side of the IPv4 module, its routing decisions and its commands
  (\<open>networklayer/ipv4/Ipv4.cc\<close>): \<open>handleIncomingDatagram\<close>, \<open>preroutingFinish\<close>,
  the local-out path, multicast forwarding, reassembly and delivery to the sockets and the
  transport protocols, the datagrams that hooks have queued, sockets, and the dispatch of
  messages. Packets the code duplicates are values here. Log output is not modelled.
\<close>

section \<open>Interfaces of a packet\<close>

definition ip_getSourceInterface :: "ip_env \<Rightarrow> packet \<Rightarrow> network_interface option res" where
  "ip_getSourceInterface env p = (case t_interfaceInd (pk_tags p) of
     Some i \<Rightarrow> bindE (getInterfaceById (en_ift env) i) (\<lambda>ie. Inr (Some ie)) | None \<Rightarrow> Inr None)"

definition ip_getDestInterface :: "ip_env \<Rightarrow> packet \<Rightarrow> network_interface option res" where
  "ip_getDestInterface env p = (case t_interfaceReq (pk_tags p) of
     Some i \<Rightarrow> bindE (getInterfaceById (en_ift env) i) (\<lambda>ie. Inr (Some ie)) | None \<Rightarrow> Inr None)"

definition findFirstLoopbackInterface :: "network_interface list \<Rightarrow> network_interface option" where
  "findFirstLoopbackInterface ift = find ie_isLoopback ift"

definition findFirstMulticastInterface :: "network_interface list \<Rightarrow> network_interface option" where
  "findFirstMulticastInterface ift = find (\<lambda>ie. ie_isMulticast ie \<and> \<not> ie_isLoopback ie) ift"

definition hasMulticastListener :: "network_interface \<Rightarrow> ipv4_address \<Rightarrow> bool" where
  "hasMulticastListener ie g \<longleftrightarrow> g \<in> set (ie_listenerGroups ie)"

text \<open>An id as it goes into a tag or an ICMP request; \<open>nullptr\<close> is \<open>-1\<close>.\<close>

definition interface_id :: "network_interface option \<Rightarrow> int" where
  "interface_id ie = (case ie of Some ie \<Rightarrow> ie_id ie | None \<Rightarrow> -1)"

section \<open>Delivery\<close>

definition ip_decapsulate :: "packet \<Rightarrow> packet res" where
  "ip_decapsulate p =
    bindE (popAtFront as_ipv4 p) (\<lambda>(h, p).
    bindE (getProtocol ipprotocol (ih_protocolId h)) (\<lambda>prot.
      Inr (p\<lparr>pk_tags := (pk_tags p)\<lparr>
        t_dscpInd := Some (ip_getDscp (ih_typeOfService h)), t_ecnInd := Some (ip_getEcn (ih_typeOfService h)),
        t_tosInd := Some (ih_typeOfService h), t_packetProtocol := Some prot, t_dispatchReq := Some prot,
        t_l3AddressInd := Some (L3IPv4 (ih_srcAddress h), L3IPv4 (ih_destAddress h)),
        t_hopLimitInd := Some (ih_timeToLive h)\<rparr>\<rparr>)))"

definition socket_matches :: "protocol \<Rightarrow> ipv4_address \<Rightarrow> ipv4_address \<Rightarrow> socket_descriptor \<Rightarrow> bool" where
  "socket_matches prot localAddress remoteAddress sd \<longleftrightarrow>
     sd_protocol sd = prot \<and>
     (ip_isUnspecified (sd_localAddress sd) \<or> sd_localAddress sd = localAddress) \<and>
     (ip_isUnspecified (sd_remoteAddress sd) \<or> sd_remoteAddress sd = remoteAddress)"

definition to_socket :: "packet \<Rightarrow> socket_descriptor \<Rightarrow> packet" where
  "to_socket p sd = p\<lparr>pk_kind := 0, pk_tags := (pk_tags p)\<lparr>t_socketInd := Some (sd_socketId sd)\<rparr>\<rparr>"

text \<open>
  \<open>reassembleAndDeliverFinish\<close>. A protocol number that is not in the table raises in
  \<open>decapsulate\<close>, before the null protocol is used.
\<close>

definition ip_reassembleAndDeliverFinish :: "ip_env \<Rightarrow> packet \<Rightarrow> ipv4_state \<Rightarrow> ipv4_state res" where
  "ip_reassembleAndDeliverFinish env p s =
    (let headerPosition = int (pk_front p) in
     bindE (peekAtFront as_ipv4 p) (\<lambda>h.
     bindE (ip_decapsulate p) (\<lambda>p.
     bindE (getProtocol ipprotocol (ih_protocolId h)) (\<lambda>prot.
     let socks = filter (socket_matches prot (ih_destAddress h) (ih_srcAddress h)) (map snd (is_sockets s));
         s = fold (\<lambda>sd. emit_out (TransportOut (to_socket p sd))) socks s
     in
     if prot \<in> set (en_upperProtocols env) then
       Inr (emit_out RescheduleEndUpper (emit_out (TransportOut p) s)\<lparr>is_numLocalDeliver := is_numLocalDeliver s + 1\<rparr>)
     else if socks \<noteq> [] then Inr s
     else
       bindE (setFrontOffset headerPosition p) (\<lambda>p.
       bindE (ip_getSourceInterface env p) (\<lambda>fromIE.
         Inr (sendIcmpError p (interface_id fromIE) IcmpDestinationUnreachable 2 s)))))))"

text \<open>
  The end of \<open>reassembleAndDeliver\<close>: the packet is queued and, if the channel to the upper
  layer is free, the front of the queue is taken out and delivered, when the hooks accept
  \<open>packet\<close>. That is the packet at the front only if the queue was empty; otherwise it is
  still in the queue, so what a hook changes of it is seen there, a hook result DROP deletes
  an object that a queue owns, which raises, and so does QUEUE, whose owner check fails.
\<close>

definition ip_queueToUpperLayer :: "ip_env \<Rightarrow> packet \<Rightarrow> ipv4_state \<Rightarrow> ipv4_state res" where
  "ip_queueToUpperLayer env p s =
    (if en_upperBusy env then Inr (s\<lparr>is_queueToUpper := is_queueToUpper s @ [p]\<rparr>)
     else
       case is_queueToUpper s of
         [] \<Rightarrow>
           bindE (datagramLocalInHook env p s) (\<lambda>(accepted, s).
             (case accepted of
                Some p \<Rightarrow> ip_reassembleAndDeliverFinish env p (s\<lparr>is_packetToUpper := Some p\<rparr>)
              | None \<Rightarrow> Inr (s\<lparr>is_packetToUpper := Some p\<rparr>)))
       | q # qs \<Rightarrow>
           bindE (run_hooks (en_hooks env) LOCALIN p) (\<lambda>(r, p).
             let s = s\<lparr>is_queueToUpper := qs @ [p], is_packetToUpper := Some q\<rparr> in
             (case r of
                ACCEPT \<Rightarrow> ip_reassembleAndDeliverFinish env q s
              | DROP \<Rightarrow> Inl (RuntimeError ''Object is currently in queue, it cannot be deleted'')
              | QUEUE \<Rightarrow> Inl (RuntimeError ''Model error: netfilter hook changed the owner of queued datagram'')
              | STOLEN \<Rightarrow> Inr s)))"

definition ip_purgeStale :: "ip_env \<Rightarrow> ipv4_state \<Rightarrow> ipv4_state" where
  "ip_purgeStale env s =
    (if en_now env \<ge> is_lastCheckTime s + 10 * en_second env then
       (case purgeStaleFragments (en_now env - en_fragmentTimeout env) (is_fragbuf s) of (icmp, bufs) \<Rightarrow>
          fold (\<lambda>p. emit_out (IcmpError p (-1) IcmpTimeExceeded 0)) icmp
            (s\<lparr>is_lastCheckTime := en_now env, is_fragbuf := bufs\<rparr>))
     else s)"

text \<open>A complete datagram gets a new checksum, since its header is that of a fragment.\<close>

definition ip_completed :: "ip_env \<Rightarrow> packet \<Rightarrow> ipv4_state \<Rightarrow> ipv4_state res" where
  "ip_completed env p s =
    bindE (peekAtFront as_ipv4 p) (\<lambda>h.
    bindE (if ih_crcMode h = CRC_COMPUTED then
             bindE (removeNetworkProtocolHeader p) (\<lambda>(h, p).
             bindE (ip_setComputedCrc env h) (\<lambda>h. insertNetworkProtocolHeader h p))
           else Inr p) (\<lambda>p. ip_queueToUpperLayer env p s))"

definition ip_reassembleAndDeliver :: "ip_env \<Rightarrow> packet \<Rightarrow> ipv4_state \<Rightarrow> ipv4_state res" where
  "ip_reassembleAndDeliver env p s =
    bindE (peekAtFront as_ipv4 p) (\<lambda>h.
    if ih_fragmentOffset h \<noteq> 0 \<or> ih_moreFragments h then
      let s = ip_purgeStale env s in
      bindE (ipv4_addFragment p (en_now env) (is_fragbuf s)) (\<lambda>(complete, bufs).
      let s = s\<lparr>is_fragbuf := bufs\<rparr> in
      (case complete of
         None \<Rightarrow> Inr s
       | Some p \<Rightarrow> ip_completed env p s))
    else ip_queueToUpperLayer env p s)"

definition ip_handleEndUpperTxPeriod :: "ip_env \<Rightarrow> ipv4_state \<Rightarrow> ipv4_state res" where
  "ip_handleEndUpperTxPeriod env s =
    (case is_queueToUpper s of
       [] \<Rightarrow> Inr (s\<lparr>is_packetToUpper := None\<rparr>)
     | p # ps \<Rightarrow> ip_reassembleAndDeliverFinish env p (s\<lparr>is_packetToUpper := Some p, is_queueToUpper := ps\<rparr>))"

section \<open>Routing\<close>

definition ip_drop :: "ip_drop_reason \<Rightarrow> packet \<Rightarrow> ipv4_state \<Rightarrow> ipv4_state" where
  "ip_drop r p s = emit_out (IpDropped r p) (s\<lparr>is_numDropped := is_numDropped s + 1\<rparr>)"

definition ip_unroutable :: "ip_drop_reason \<Rightarrow> packet \<Rightarrow> ipv4_state \<Rightarrow> ipv4_state" where
  "ip_unroutable r p s = emit_out (IpDropped r p) (s\<lparr>is_numUnroutable := is_numUnroutable s + 1\<rparr>)"

definition ip_prepareForForwarding :: "packet \<Rightarrow> packet res" where
  "ip_prepareForForwarding p =
    bindE (removeNetworkProtocolHeader p) (\<lambda>(h, p).
      insertNetworkProtocolHeader (h\<lparr>ih_timeToLive := ih_timeToLive h - 1\<rparr>) p)"

definition ip_routeUnicastPacketFinish :: "ip_env \<Rightarrow> packet \<Rightarrow> ipv4_state \<Rightarrow> ipv4_state res" where
  "ip_routeUnicastPacketFinish env p s =
    ip_fragmentPostRouting env p (s\<lparr>is_numForwarded := is_numForwarded s + 1\<rparr>)"

text \<open>The output interface and next hop of a packet, with the cache of the routing table.\<close>

definition ip_unicastRoute ::
  "ip_env \<Rightarrow> network_interface option \<Rightarrow> ipv4_address \<Rightarrow> packet \<Rightarrow> routing_table \<Rightarrow> (int option \<times> packet \<times> routing_table) res" where
  "ip_unicastRoute env destIE destAddr p t =
    (case destIE of
       Some ie \<Rightarrow>
         if \<not> ip_isUnspecified (ip_getNextHop p) then Inr (Some (ie_id ie), p, t)
         else if ie_isBroadcast ie then
           (case findBestMatchingRoute destAddr t of
              (Some re, t) \<Rightarrow>
                Inr (Some (ie_id ie), if re_interface re = Some (ie_id ie) then set_nextHop (re_gateway re) p else p, t)
            | (None, t) \<Rightarrow> Inr (Some (ie_id ie), p, t))
         else Inr (Some (ie_id ie), p, t)
     | None \<Rightarrow>
         (case findBestMatchingRoute destAddr t of
            (Some re, t) \<Rightarrow>
              (case re_interface re of
                 Some i \<Rightarrow> Inr (Some i, set_nextHop (re_gateway re) (set_interfaceReq i p), t)
               | None \<Rightarrow> Inl null_pointer)
          | (None, t) \<Rightarrow> Inr (None, p, t)))"

definition ip_routeUnicastPacket :: "ip_env \<Rightarrow> packet \<Rightarrow> ipv4_state \<Rightarrow> ipv4_state res" where
  "ip_routeUnicastPacket env p s =
    bindE (ip_getSourceInterface env p) (\<lambda>fromIE.
    bindE (ip_getDestInterface env p) (\<lambda>destIE.
    bindE (peekAtFront as_ipv4 p) (\<lambda>h.
    bindE (ip_unicastRoute env destIE (ih_destAddress h) p (is_rt s)) (\<lambda>(dest, p, t).
    let s = s\<lparr>is_rt := t\<rparr> in
    case dest of
      None \<Rightarrow>
        Inr (sendIcmpError p (interface_id fromIE) IcmpDestinationUnreachable 0
              (ip_unroutable NoRouteFound p s))
    | Some _ \<Rightarrow>
        if fromIE \<noteq> None then
          bindE (datagramForwardHook env p s) (\<lambda>(accepted, s).
            case accepted of None \<Rightarrow> Inr s | Some p \<Rightarrow> ip_routeUnicastPacketFinish env p s)
        else ip_routeUnicastPacketFinish env p s))))"

fun ip_broadcast_copies :: "ip_env \<Rightarrow> packet \<Rightarrow> network_interface list \<Rightarrow> ipv4_state \<Rightarrow> ipv4_state res" where
  "ip_broadcast_copies env p [] s = Inr s"
| "ip_broadcast_copies env p (ie # ies) s =
    bindE (ip_fragmentPostRouting env (set_nextHop 0xFFFFFFFF (set_interfaceReq (ie_id ie) p)) s)
      (ip_broadcast_copies env p ies)"

definition ip_routeLocalBroadcastPacket :: "ip_env \<Rightarrow> packet \<Rightarrow> ipv4_state \<Rightarrow> ipv4_state res" where
  "ip_routeLocalBroadcastPacket env p s =
    bindE (ip_getDestInterface env p) (\<lambda>destIE.
    case destIE of
      Some ie \<Rightarrow> ip_fragmentPostRouting env (set_nextHop 0xFFFFFFFF (set_interfaceReq (ie_id ie) p)) s
    | None \<Rightarrow>
        if en_limitedBroadcast env then
          bindE (peekAtFront as_ipv4 p) (\<lambda>h.
            ip_broadcast_copies env p
              (filter (\<lambda>ie. ip_isLimitedBroadcast (ih_destAddress h) \<or> ih_destAddress h = ie_broadcastAddress ie) (en_ift env)) s)
        else Inr (ip_drop NoInterfaceFound p s))"

section \<open>Multicast\<close>

fun ip_multicast_copies ::
  "ip_env \<Rightarrow> packet \<Rightarrow> ipv4_header \<Rightarrow> int \<Rightarrow> (int \<times> bool \<times> bool) list \<Rightarrow> ipv4_state \<Rightarrow> ipv4_state res" where
  "ip_multicast_copies env p h from [] s = Inr s"
| "ip_multicast_copies env p h from ((i, enabled, leaf) # outs) s =
    (if i \<noteq> from \<and> enabled then
       bindE (getInterfaceById (en_ift env) i) (\<lambda>ie.
         if ih_timeToLive h \<le> ie_ttlThreshold ie then ip_multicast_copies env p h from outs s
         else if leaf \<and> \<not> hasMulticastListener ie (ih_destAddress h) then ip_multicast_copies env p h from outs s
         else bindE (ip_fragmentPostRouting env (set_nextHop (ih_destAddress h) (set_interfaceReq i p)) s)
                (ip_multicast_copies env p h from outs))
     else ip_multicast_copies env p h from outs s)"

text \<open>
  When no route exists, the signal \<open>ipv4NewMulticast\<close> lets a listener add one: what it does to
  the table is \<open>en_newMulticast\<close>.
\<close>

definition ip_findMulticastRoute :: "ip_env \<Rightarrow> ipv4_header \<Rightarrow> routing_table \<Rightarrow> multicast_route option \<times> routing_table" where
  "ip_findMulticastRoute env h t =
    (case findBestMatchingMulticastRoute (ih_srcAddress h) (ih_destAddress h) t of
       Some r \<Rightarrow> (Some r, t)
     | None \<Rightarrow> let t = en_newMulticast env h t in
         (findBestMatchingMulticastRoute (ih_srcAddress h) (ih_destAddress h) t, t))"

definition ip_getShortestPathInterfaceToSource :: "ipv4_header \<Rightarrow> routing_table \<Rightarrow> int option \<times> routing_table" where
  "ip_getShortestPathInterfaceToSource h t = getInterfaceForDestAddr (ih_srcAddress h) t"

definition ip_forwardMulticastPacket :: "ip_env \<Rightarrow> packet \<Rightarrow> ipv4_state \<Rightarrow> ipv4_state res" where
  "ip_forwardMulticastPacket env p s =
    bindE (getTag (t_interfaceInd (pk_tags p))) (\<lambda>i.
    bindE (getInterfaceById (en_ift env) i) (\<lambda>fromIE.
    bindE (peekAtFront as_ipv4 p) (\<lambda>h.
    bindE (assertE (ip_isMulticast (ih_destAddress h)) ''destAddr.isMulticast()'') (\<lambda>_.
    bindE (assertE (\<not> ip_isLinkLocalMulticast (ih_destAddress h)) ''!destAddr.isLinkLocalMulticast()'') (\<lambda>_.
    let s = s\<lparr>is_numMulticast := is_numMulticast s + 1\<rparr> in
    case ip_findMulticastRoute env h (is_rt s) of
      (None, t) \<Rightarrow> Inr (ip_unroutable NoRouteFound p (s\<lparr>is_rt := t\<rparr>))
    | (Some route, t) \<Rightarrow>
        (let (expected, t) = (case mr_in route of
               Some i \<Rightarrow> (Some i, t) | None \<Rightarrow> ip_getShortestPathInterfaceToSource h t);
             s = s\<lparr>is_rt := t\<rparr>
         in
         if expected \<noteq> Some (ie_id fromIE) then Inr (ip_drop OtherReason p s)
         else ip_multicast_copies env p h (ie_id fromIE) (mr_outs route)
                (s\<lparr>is_numForwarded := is_numForwarded s + 1\<rparr>)))))))"

section \<open>From the network\<close>

definition ip_preroute_multicast :: "ip_env \<Rightarrow> network_interface \<Rightarrow> ipv4_header \<Rightarrow> packet \<Rightarrow> ipv4_state \<Rightarrow> ipv4_state res" where
  "ip_preroute_multicast env fromIE h p s =
    bindE (if isMemberOfMulticastGroup fromIE (ih_destAddress h) \<or>
              rt_multicastForward (is_rt s) \<and> ih_protocolId h = 2
           then ip_reassembleAndDeliver env p s else Inr s) (\<lambda>s.
      if \<not> rt_multicastForward (is_rt s) then Inr s
      else if ip_isLinkLocalMulticast (ih_destAddress h) then Inr s
      else if ih_timeToLive h \<le> 1 then Inr s
      else bindE (ip_prepareForForwarding p) (\<lambda>p. ip_forwardMulticastPacket env p s))"

definition ip_direct_broadcast :: "ip_env \<Rightarrow> network_interface \<Rightarrow> network_interface option \<Rightarrow> packet \<Rightarrow> ipv4_state \<Rightarrow> ipv4_state res" where
  "ip_direct_broadcast env fromIE broadcastIE p s =
    (case broadcastIE of
       None \<Rightarrow> Inr s
     | Some b \<Rightarrow>
         if ie_id fromIE \<noteq> ie_id b \<and> rt_forwarding (is_rt s) \<and>
            (en_directBroadcast env (ie_name b) \<or> en_directBroadcast env (ie_fullPath b))
         then bindE (ip_prepareForForwarding p) (\<lambda>p.
                ip_fragmentPostRouting env (set_nextHop 0xFFFFFFFF (set_interfaceReq (ie_id b) p)) s)
         else Inr s)"

definition ip_preroute_unicast :: "ip_env \<Rightarrow> network_interface \<Rightarrow> ipv4_header \<Rightarrow> packet \<Rightarrow> ipv4_state \<Rightarrow> ipv4_state res" where
  "ip_preroute_unicast env fromIE h p s =
    (let destAddr = ih_destAddress h;
         broadcastIE = (if ip_isLimitedBroadcast destAddr then None
                        else findInterfaceByLocalBroadcastAddress (en_ift env) destAddr)
     in
     if isLocalAddress (en_ift env) destAddr \<or> ip_isUnspecified (ie_ipAddress fromIE)
     then ip_reassembleAndDeliver env p s
     else if ip_isLimitedBroadcast destAddr \<or> broadcastIE \<noteq> None then
       bindE (ip_direct_broadcast env fromIE broadcastIE p s) (ip_reassembleAndDeliver env p)
     else if \<not> rt_forwarding (is_rt s) then Inr (ip_drop ForwardingDisabled p s)
     else bindE (ip_prepareForForwarding (set_nextHop (ip_getNextHop p) p)) (\<lambda>p. ip_routeUnicastPacket env p s))"

definition ip_preroutingFinish :: "ip_env \<Rightarrow> packet \<Rightarrow> ipv4_state \<Rightarrow> ipv4_state res" where
  "ip_preroutingFinish env p s =
    bindE (getTag (t_interfaceInd (pk_tags p))) (\<lambda>i.
    bindE (getInterfaceById (en_ift env) i) (\<lambda>fromIE.
    bindE (peekAtFront as_ipv4 p) (\<lambda>h.
      if ie_isLoopback fromIE then ip_reassembleAndDeliver env p s
      else if ip_isMulticast (ih_destAddress h) then ip_preroute_multicast env fromIE h p s
      else ip_preroute_unicast env fromIE h p s)))"

text \<open>
  What the lower layers say about a packet: \<open>isCorrect()\<close> of its header chunk, and, for a
  packet with a bit error, the random number drawn, as a fraction.
\<close>

record reception =
  rc_headerCorrect :: bool
  rc_bitError :: "(int \<times> int) option"

definition ip_bitErrorInHeader :: "reception \<Rightarrow> ipv4_header \<Rightarrow> bool" where
  "ip_bitErrorInHeader r h = (case rc_bitError r of
     None \<Rightarrow> False
   | Some (num, den) \<Rightarrow> num * int (header_length (Ipv4H h)) \<le> ih_headerLength h * den)"

definition ip_handleIncomingDatagram :: "ip_env \<Rightarrow> reception \<Rightarrow> packet \<Rightarrow> ipv4_state \<Rightarrow> ipv4_state res" where
  "ip_handleIncomingDatagram env r p s =
    bindE (getTag (t_interfaceInd (pk_tags p))) (\<lambda>interfaceId.
    bindE (peekAtFront as_ipv4 p) (\<lambda>h.
    let p = p\<lparr>pk_tags := (pk_tags p)\<lparr>t_networkInd := Some (P_ipv4, Some (Ipv4H h))\<rparr>\<rparr> in
    bindE (ip_verifyCrc (rc_headerCorrect r) h) (\<lambda>ok.
    if \<not> ok then Inr (emit_out (IpDropped Incorrect p) s)
    else if ih_totalLength h > int (dataLength p) then Inr (sendIcmpError p interfaceId IcmpParameterProblem 0 s)
    else
      bindE (if ih_totalLength h < int (dataLength p) then setBackOffset (int (pk_front p) + ih_totalLength h) p
             else Inr p) (\<lambda>p.
      if ip_bitErrorInHeader r h then Inr (sendIcmpError p interfaceId IcmpParameterProblem 0 s)
      else
        bindE (datagramPreRoutingHook env p s) (\<lambda>(accepted, s).
          case accepted of None \<Rightarrow> Inr s | Some p \<Rightarrow> ip_preroutingFinish env p s)))))"

section \<open>From the upper layer\<close>

text \<open>Socket option, routing table, source address, first multicast interface.\<close>

definition ip_multicastInterface ::
  "ip_env \<Rightarrow> ipv4_header \<Rightarrow> network_interface option \<Rightarrow> routing_table \<Rightarrow> (network_interface option \<times> routing_table) res" where
  "ip_multicastInterface env h opt t =
    (case opt of
       Some ie \<Rightarrow> Inr (Some ie, t)
     | None \<Rightarrow>
         (let (route, t) = findBestMatchingRoute (ih_destAddress h) t in
          bindE (case route of
                   Some r \<Rightarrow> (case re_interface r of
                       Some i \<Rightarrow> bindE (getInterfaceById (en_ift env) i) (\<lambda>ie. Inr (Some ie)) | None \<Rightarrow> Inr None)
                 | None \<Rightarrow> Inr None) (\<lambda>ie.
          case ie of
            Some ie \<Rightarrow> Inr (Some ie, t)
          | None \<Rightarrow>
              (case getInterfaceByAddress (en_ift env) (ih_srcAddress h) of
                 Some ie \<Rightarrow> Inr (Some ie, t)
               | None \<Rightarrow> Inr (findFirstMulticastInterface (en_ift env), t)))))"

definition ip_localOut_multicast ::
  "ip_env \<Rightarrow> network_interface option \<Rightarrow> bool \<Rightarrow> ipv4_header \<Rightarrow> packet \<Rightarrow> ipv4_state \<Rightarrow> ipv4_state res" where
  "ip_localOut_multicast env destIE multicastLoop h p s =
    bindE (ip_multicastInterface env h destIE (is_rt s)) (\<lambda>(destIE, t).
    let s = s\<lparr>is_rt := t\<rparr>;
        p = set_interfaceReq (interface_id destIE) p
    in
    bindE (if multicastLoop \<and> (case destIE of Some ie \<Rightarrow> \<not> ie_isLoopback ie | None \<Rightarrow> True) then
             (case findFirstLoopbackInterface (en_ift env) of
                Some lo \<Rightarrow> ip_fragmentPostRouting env (set_nextHop (ih_destAddress h) (set_interfaceReq (ie_id lo) p)) s
              | None \<Rightarrow> Inr s)
           else Inr s) (\<lambda>s.
    case destIE of
      Some ie \<Rightarrow>
        ip_fragmentPostRouting env (set_nextHop (ih_destAddress h) (set_interfaceReq (ie_id ie) p))
          (s\<lparr>is_numMulticast := is_numMulticast s + 1\<rparr>)
    | None \<Rightarrow> Inr (ip_unroutable NoInterfaceFound p s)))"

definition ip_localOut_local ::
  "ip_env \<Rightarrow> network_interface option \<Rightarrow> ipv4_header \<Rightarrow> packet \<Rightarrow> ipv4_state \<Rightarrow> ipv4_state res" where
  "ip_localOut_local env destIE h p s =
    (let (destIE, p) = (case destIE of
           Some ie \<Rightarrow> if \<not> ie_isLoopback ie then (None, set_interfaceReq (-1) p) else (Some ie, p)
         | None \<Rightarrow> (None, p));
         (destIE, p) = (case destIE of
           Some ie \<Rightarrow> (Some ie, p)
         | None \<Rightarrow> let lo = findFirstLoopbackInterface (en_ift env) in (lo, set_interfaceReq (interface_id lo) p))
     in
     bindE (assertE (destIE \<noteq> None) ''destIE'') (\<lambda>_.
       ip_routeUnicastPacket env (set_nextHop (ih_destAddress h) p) s))"

definition ip_datagramLocalOut :: "ip_env \<Rightarrow> packet \<Rightarrow> ipv4_state \<Rightarrow> ipv4_state res" where
  "ip_datagramLocalOut env p s =
    bindE (ip_getDestInterface env p) (\<lambda>destIE.
    bindE (peekAtFront as_ipv4 p) (\<lambda>h.
    let multicastLoop = (case t_multicastReq (pk_tags p) of Some b \<Rightarrow> b | None \<Rightarrow> False) in
    if ip_isMulticast (ih_destAddress h) then ip_localOut_multicast env destIE multicastLoop h p s
    else if isLocalAddress (en_ift env) (ih_destAddress h) then ip_localOut_local env destIE h p s
    else
      (let (localBroadcast, t) = (if ip_isLimitedBroadcast (ih_destAddress h) then (True, is_rt s)
             else isLocalBroadcastAddress (en_ift env) (ih_destAddress h) (is_rt s));
           s = s\<lparr>is_rt := t\<rparr>
       in
       if localBroadcast then ip_routeLocalBroadcastPacket env p s
       else ip_routeUnicastPacket env (set_nextHop (ip_getNextHop p) p) s)))"

definition ip_handlePacketFromHL :: "ip_env \<Rightarrow> packet \<Rightarrow> ipv4_state \<Rightarrow> ipv4_state res" where
  "ip_handlePacketFromHL env p s =
    (if en_ift env = [] then Inr (ip_drop NoInterfaceFound p s)
     else
       bindE (ip_encapsulate env p s) (\<lambda>(p, s).
       bindE (datagramLocalOutHook env p s) (\<lambda>(accepted, s).
         case accepted of None \<Rightarrow> Inr s | Some p \<Rightarrow> ip_datagramLocalOut env p s)))"

section \<open>Hooks that queued a datagram\<close>

text \<open>The queued datagram is given by its place in the list.\<close>

definition ip_erase_queued :: "nat \<Rightarrow> ipv4_state \<Rightarrow> ipv4_state" where
  "ip_erase_queued i s = s\<lparr>is_hookQueue := take i (is_hookQueue s) @ drop (Suc i) (is_hookQueue s)\<rparr>"

definition ip_dropQueuedDatagram :: "nat \<Rightarrow> ipv4_state \<Rightarrow> ipv4_state" where
  "ip_dropQueuedDatagram i s = (if i < length (is_hookQueue s) then ip_erase_queued i s else s)"

definition ip_reinjectQueuedDatagram :: "ip_env \<Rightarrow> nat \<Rightarrow> ipv4_state \<Rightarrow> ipv4_state res" where
  "ip_reinjectQueuedDatagram env i s =
    (if i < length (is_hookQueue s) then
       (let (p, ty) = is_hookQueue s ! i in
        bindE (case ty of
            LOCALOUT \<Rightarrow> ip_datagramLocalOut env p s
          | PREROUTING \<Rightarrow> ip_preroutingFinish env p s
          | POSTROUTING \<Rightarrow> ip_fragmentAndSend env False p s
          | LOCALIN \<Rightarrow> ip_reassembleAndDeliverFinish env p s
          | FORWARD \<Rightarrow> ip_routeUnicastPacketFinish env p s) (\<lambda>s. Inr (ip_erase_queued i s)))
     else Inr s)"

section \<open>Sockets, messages, life cycle\<close>

datatype ip_command = IpBind protocol ipv4_address | IpConnect ipv4_address | IpClose | IpDestroy | IpUnknownCommand

definition ip_handleRequest :: "ip_command option \<Rightarrow> int option \<Rightarrow> ipv4_state \<Rightarrow> ipv4_state res" where
  "ip_handleRequest ctrl socketReq s =
    (case ctrl of
       None \<Rightarrow> Inl (RuntimeError ''Request arrived without controlinfo'')
     | Some (IpBind prot a) \<Rightarrow> bindE (getTag socketReq) (\<lambda>i.
         Inr (s\<lparr>is_sockets := map_insert i \<lparr>sd_socketId = i, sd_protocol = prot, sd_localAddress = a, sd_remoteAddress = 0\<rparr>
                  (is_sockets s)\<rparr>))
     | Some (IpConnect a) \<Rightarrow> bindE (getTag socketReq) (\<lambda>i.
         (case map_of (is_sockets s) i of
            None \<Rightarrow> Inl (RuntimeError ''Ipv4Socket: should use bind() before connect()'')
          | Some sd \<Rightarrow> Inr (s\<lparr>is_sockets := map_insert i (sd\<lparr>sd_remoteAddress := a\<rparr>) (is_sockets s)\<rparr>)))
     | Some IpClose \<Rightarrow> bindE (getTag socketReq) (\<lambda>i.
         Inr (if map_of (is_sockets s) i \<noteq> None
              then emit_out (SocketClosed i) (s\<lparr>is_sockets := map_erase i (is_sockets s)\<rparr>) else s))
     | Some IpDestroy \<Rightarrow> bindE (getTag socketReq) (\<lambda>i.
         Inr (if map_of (is_sockets s) i \<noteq> None then s\<lparr>is_sockets := map_erase i (is_sockets s)\<rparr> else s))
     | Some IpUnknownCommand \<Rightarrow> Inl (RuntimeError ''Unknown command''))"

datatype ip_message =
    IpEndTx
  | IpEndUpperTx
  | IpRequest "ip_command option" "int option"
  | IpFromUpper packet
  | IpFromNetwork reception packet
  | IpOtherGate

definition ip_handleMessageWhenUp :: "ip_env \<Rightarrow> ip_message \<Rightarrow> ipv4_state \<Rightarrow> ipv4_state res" where
  "ip_handleMessageWhenUp env m s =
    (case m of
       IpEndTx \<Rightarrow> ip_handleEndTxPeriod env s
     | IpEndUpperTx \<Rightarrow> ip_handleEndUpperTxPeriod env s
     | IpRequest ctrl socketReq \<Rightarrow> ip_handleRequest ctrl socketReq s
     | IpFromUpper p \<Rightarrow>
         bindE (getTag (t_packetProtocol (pk_tags p))) (\<lambda>prot.
           ip_handlePacketFromHL env p (if prot = P_rdma then s\<lparr>is_isRdma := True\<rparr> else s))
     | IpFromNetwork r p \<Rightarrow> ip_handleIncomingDatagram env r p s
     | IpOtherGate \<Rightarrow> Inl (RuntimeError ''message arrived on unknown gate''))"

datatype ip_signal =
    ArpResolutionCompleted l3_address int mac_address
  | ArpResolutionFailed l3_address
  | OtherSignal

definition ip_receiveSignal :: "ip_env \<Rightarrow> ip_signal \<Rightarrow> ipv4_state \<Rightarrow> ipv4_state res" where
  "ip_receiveSignal env sig s = (case sig of
     ArpResolutionCompleted a ie mac \<Rightarrow> ip_arpResolutionCompleted env a ie mac s
   | ArpResolutionFailed a \<Rightarrow> Inr (ip_arpResolutionTimedOut a s)
   | OtherSignal \<Rightarrow> Inr s)"

definition ip_flush :: "ipv4_state \<Rightarrow> ipv4_state" where
  "ip_flush s = s\<lparr>is_pending := [], is_hookQueue := [], is_fragbuf := flush (is_fragbuf s)\<rparr>"

definition ip_stop :: "ipv4_state \<Rightarrow> ipv4_state" where
  "ip_stop s = (ip_flush s)\<lparr>is_sockets := []\<rparr>"

section \<open>Delivery lemmas\<close>

lemma fold_emit: "fold (\<lambda>x. emit_out (f x)) xs s = s\<lparr>is_out := is_out s @ map f xs\<rparr>"
  by (induction xs arbitrary: s) (simp_all add: emit_out_def)

text \<open>The datagram that \<open>decapsulate\<close> makes: the same object behind the header, with new tags.\<close>

definition decapsulated :: "ipv4_header \<Rightarrow> protocol \<Rightarrow> packet \<Rightarrow> packet" where
  "decapsulated h prot p = p\<lparr>pk_front := pk_front p + header_length (Ipv4H h), pk_tags := (pk_tags p)\<lparr>
     t_dscpInd := Some (ip_getDscp (ih_typeOfService h)), t_ecnInd := Some (ip_getEcn (ih_typeOfService h)),
     t_tosInd := Some (ih_typeOfService h), t_packetProtocol := Some prot, t_dispatchReq := Some prot,
     t_l3AddressInd := Some (L3IPv4 (ih_srcAddress h), L3IPv4 (ih_destAddress h)),
     t_hopLimitInd := Some (ih_timeToLive h)\<rparr>\<rparr>"

lemma ip_decapsulate_ok:
  assumes "packet_ok p" "pk_data p = header_cells (Ipv4H h) @ d" "getProtocol ipprotocol (ih_protocolId h) = Inr prot"
  shows "ip_decapsulate p = Inr (decapsulated h prot p)" "pk_data (decapsulated h prot p) = d"
    "packet_ok (decapsulated h prot p)"
proof -
  have "popAtFront as_ipv4 p = Inr (h, p\<lparr>pk_front := pk_front p + header_length (Ipv4H h)\<rparr>) \<and>
      packet_ok (p\<lparr>pk_front := pk_front p + header_length (Ipv4H h)\<rparr>) \<and>
      pk_data (p\<lparr>pk_front := pk_front p + header_length (Ipv4H h)\<rparr>) = d"
    using popAtFront_header[OF assms(1,2), of as_ipv4] by auto
  then show "ip_decapsulate p = Inr (decapsulated h prot p)" "pk_data (decapsulated h prot p) = d"
    "packet_ok (decapsulated h prot p)"
    using assms(3) by (simp_all add: ip_decapsulate_def decapsulated_def packet_ok_def pk_data_alt)
qed

text \<open>The sockets a datagram goes to, in the order of their ids.\<close>

definition ip_receivers :: "ipv4_header \<Rightarrow> protocol \<Rightarrow> ipv4_state \<Rightarrow> socket_descriptor list" where
  "ip_receivers h prot s = filter (socket_matches prot (ih_destAddress h) (ih_srcAddress h)) (map snd (is_sockets s))"

lemma ip_deliver_ok:
  assumes "packet_ok p" "pk_data p = header_cells (Ipv4H h) @ d" "getProtocol ipprotocol (ih_protocolId h) = Inr prot"
    and "ip_getSourceInterface env p = Inr fromIE"
  shows "ip_reassembleAndDeliverFinish env p s =
    (let q = decapsulated h prot p;
         s1 = s\<lparr>is_out := is_out s @ map (\<lambda>sd. TransportOut (to_socket q sd)) (ip_receivers h prot s)\<rparr>
     in Inr (if prot \<in> set (en_upperProtocols env) then
               s1\<lparr>is_out := is_out s1 @ [TransportOut q, RescheduleEndUpper], is_numLocalDeliver := is_numLocalDeliver s + 1\<rparr>
             else if ip_receivers h prot s \<noteq> [] then s1
             else s1\<lparr>is_out := is_out s1 @ [IcmpError (q\<lparr>pk_front := pk_front p\<rparr>) (interface_id fromIE) IcmpDestinationUnreachable 2]\<rparr>))"
proof -
  have peek: "peekAtFront as_ipv4 p = Inr h" using assms(2) by (intro peekAtFront_header) auto
  have so: "setFrontOffset (int (pk_front p)) (decapsulated h prot p) = Inr ((decapsulated h prot p)\<lparr>pk_front := pk_front p\<rparr>)"
    using assms(1) by (simp add: setFrontOffset_def decapsulated_def totalLength_def packet_ok_def)
  have fi: "ip_getSourceInterface env ((decapsulated h prot p)\<lparr>pk_front := pk_front p\<rparr>) = Inr fromIE"
    using assms(4) by (simp add: ip_getSourceInterface_def decapsulated_def)
  show ?thesis
    unfolding ip_reassembleAndDeliverFinish_def peek ip_decapsulate_ok(1)[OF assms(1-3)] assms(3) Let_def bindE_simps
      ip_receivers_def[symmetric] fold_emit so fi
    by (simp add: emit_out_def sendIcmpError_def)
qed

section \<open>Forwarding lemmas\<close>

lemma ip_prepareForForwarding_ok:
  assumes "packet_ok p" "pk_data p = header_cells (Ipv4H h) @ d"
  shows "\<exists>q. ip_prepareForForwarding p = Inr q \<and> packet_ok q \<and>
    pk_data q = header_cells (Ipv4H (h\<lparr>ih_timeToLive := ih_timeToLive h - 1\<rparr>)) @ d \<and>
    pk_tags q = ip_tagged (h\<lparr>ih_timeToLive := ih_timeToLive h - 1\<rparr>) (pk_tags p)"
proof -
  let ?h = "h\<lparr>ih_timeToLive := ih_timeToLive h - 1\<rparr>"
  obtain p1 where p1: "removeNetworkProtocolHeader p = Inr (h, p1)" "packet_ok p1" "pk_data p1 = d"
    "pk_tags p1 = (pk_tags p)\<lparr>t_networkInd := None, t_packetProtocol := None\<rparr>"
    using removeNetworkProtocolHeader_ok[OF assms] by blast
  obtain q where q: "insertNetworkProtocolHeader ?h p1 = Inr q" "packet_ok q" "pk_data q = header_cells (Ipv4H ?h) @ pk_data p1"
    "pk_tags q = ip_tagged ?h (pk_tags p1)"
    using insertNetworkProtocolHeader_ok[OF p1(2)] by blast
  then show ?thesis using p1 by (intro exI[of _ q]) (simp add: ip_prepareForForwarding_def)
qed

lemma run_datagramHook_none: "en_hooks env = [] \<Longrightarrow> run_datagramHook ty env p s = Inr (Some p, s)"
  by (simp add: run_datagramHook_def)

lemma ip_fragmentPostRouting_idle:
  assumes "en_hooks env = []" "reqInterface env p = Inr ie" "peekAtFront as_ipv4 p = Inr h" "ih_srcAddress h \<noteq> 0"
    and "is_packet s = None" "is_queue s = []"
  shows "ip_fragmentPostRouting env p s = ip_fragmentAndSend env True p (s\<lparr>is_packet := Some p\<rparr>)"
proof -
  have "s\<lparr>is_packet := Some p, is_queue := []\<rparr> = s\<lparr>is_packet := Some p\<rparr>" using assms(6) by (cases s) simp
  moreover have "ip_fragmentPostRouting env p s = ip_fragmentAndSend env True p (s\<lparr>is_packet := Some p, is_queue := []\<rparr>)"
    using assms run_datagramHook_none[OF assms(1)]
    by (simp add: ip_fragmentPostRouting_def datagramPostRoutingHook_def ip_isUnspecified_def ip_next_from_queue_def Let_def)
  ultimately show ?thesis by argo
qed

text \<open>
  A datagram in transit: it has arrived on an interface of the network and is addressed to
  neither this node nor a group nor a broadcast address.
\<close>

definition ip_transit :: "ip_env \<Rightarrow> ipv4_header \<Rightarrow> cell list \<Rightarrow> packet \<Rightarrow> bool" where
  "ip_transit env h d p \<longleftrightarrow> packet_ok p \<and> pk_data p = header_cells (Ipv4H h) @ d \<and>
     t_interfaceReq (pk_tags p) = None \<and> t_nextHopReq (pk_tags p) = None \<and>
     (\<exists>i ie. t_interfaceInd (pk_tags p) = Some i \<and> getInterfaceById (en_ift env) i = Inr ie \<and>
        \<not> ie_isLoopback ie \<and> ie_ipAddress ie \<noteq> 0) \<and>
     \<not> ip_isMulticast (ih_destAddress h) \<and> \<not> isLocalAddress (en_ift env) (ih_destAddress h) \<and>
     \<not> ip_isLimitedBroadcast (ih_destAddress h) \<and> findInterfaceByLocalBroadcastAddress (en_ift env) (ih_destAddress h) = None"

lemma ip_transit_preroute:
  assumes "ip_transit env h d p"
  shows "ip_preroutingFinish env p s =
    (if \<not> rt_forwarding (is_rt s) then Inr (ip_drop ForwardingDisabled p s)
     else bindE (ip_prepareForForwarding (set_nextHop 0 p)) (\<lambda>p. ip_routeUnicastPacket env p s))"
proof -
  obtain i ie where t: "packet_ok p" "pk_data p = header_cells (Ipv4H h) @ d" "t_interfaceInd (pk_tags p) = Some i"
    "getInterfaceById (en_ift env) i = Inr ie" "\<not> ie_isLoopback ie" "ie_ipAddress ie \<noteq> 0" "\<not> ip_isMulticast (ih_destAddress h)"
    "\<not> isLocalAddress (en_ift env) (ih_destAddress h)" "\<not> ip_isLimitedBroadcast (ih_destAddress h)"
    "findInterfaceByLocalBroadcastAddress (en_ift env) (ih_destAddress h) = None" "t_nextHopReq (pk_tags p) = None"
    using assms by (auto simp: ip_transit_def)
  have "peekAtFront as_ipv4 p = Inr h" using t(2) by (intro peekAtFront_header) auto
  then show ?thesis using t
    by (simp add: ip_preroutingFinish_def ip_preroute_unicast_def ip_isUnspecified_def ip_getNextHop_def)
qed

text \<open>What is routed: the datagram with its time to live decremented.\<close>

definition ip_decremented :: "ipv4_header \<Rightarrow> ipv4_header" where
  "ip_decremented h = h\<lparr>ih_timeToLive := ih_timeToLive h - 1\<rparr>"

lemma ip_transit_routed:
  assumes "ip_transit env h d p" "rt_forwarding (is_rt s)" "rt_ok (is_rt s)" "en_hooks env = []"
  obtains q t where "ip_preroutingFinish env p s =
      (case scan_routes (ih_destAddress h) (rt_routes (is_rt s)) of
         None \<Rightarrow> Inr (sendIcmpError q (the (t_interfaceInd (pk_tags p))) IcmpDestinationUnreachable 0
                   (ip_unroutable NoRouteFound q (s\<lparr>is_rt := t\<rparr>)))
       | Some r \<Rightarrow> (case re_interface r of
           None \<Rightarrow> Inl null_pointer
         | Some j \<Rightarrow> ip_fragmentPostRouting env (set_nextHop (re_gateway r) (set_interfaceReq j q))
                     (s\<lparr>is_rt := t, is_numForwarded := is_numForwarded s + 1\<rparr>)))"
    "packet_ok q" "pk_data q = header_cells (Ipv4H (ip_decremented h)) @ d" "t_packetProtocol (pk_tags q) = Some P_ipv4"
    "rt_ok t" "rt_routes t = rt_routes (is_rt s)"
proof -
  have ok: "packet_ok (set_nextHop 0 p)" "pk_data (set_nextHop 0 p) = header_cells (Ipv4H h) @ d"
    using assms(1) by (simp_all add: ip_transit_def set_nextHop_def)
  obtain q where q: "ip_prepareForForwarding (set_nextHop 0 p) = Inr q" "packet_ok q"
    "pk_data q = header_cells (Ipv4H (ip_decremented h)) @ d" "pk_tags q = ip_tagged (ip_decremented h) (pk_tags (set_nextHop 0 p))"
    using ip_prepareForForwarding_ok[OF ok] unfolding ip_decremented_def by blast
  obtain i ie where i: "t_interfaceInd (pk_tags p) = Some i" "getInterfaceById (en_ift env) i = Inr ie" "t_interfaceReq (pk_tags p) = None"
    using assms(1) by (auto simp: ip_transit_def)
  have peek: "peekAtFront as_ipv4 q = Inr (ip_decremented h)" using q(3) by (intro peekAtFront_header) auto
  have dest: "ih_destAddress (ip_decremented h) = ih_destAddress h" by (simp add: ip_decremented_def)
  obtain x t where f: "findBestMatchingRoute (ih_destAddress h) (is_rt s) = (x, t)" by fastforce
  note sc = findBestMatchingRoute_scan[OF assms(3) f]
  have ind: "ip_getSourceInterface env q = Inr (Some ie)" "ip_getDestInterface env q = Inr None"
    using i q(4) by (simp_all add: ip_getSourceInterface_def ip_getDestInterface_def set_nextHop_def)
  have id: "interface_id (Some ie) = i"
    using i(2) by (auto simp: interface_id_def getInterfaceById_def findInterfaceById_def find_Some_iff split: option.splits)
  have "ip_preroutingFinish env p s = ip_routeUnicastPacket env q s"
    using ip_transit_preroute[OF assms(1)] assms(2) q(1) by simp
  also have "\<dots> = (case x of
         None \<Rightarrow> Inr (sendIcmpError q i IcmpDestinationUnreachable 0 (ip_unroutable NoRouteFound q (s\<lparr>is_rt := t\<rparr>)))
       | Some r \<Rightarrow> (case re_interface r of
           None \<Rightarrow> Inl null_pointer
         | Some j \<Rightarrow> ip_fragmentPostRouting env (set_nextHop (re_gateway r) (set_interfaceReq j q))
                     (s\<lparr>is_rt := t, is_numForwarded := is_numForwarded s + 1\<rparr>)))"
    unfolding ip_routeUnicastPacket_def ind bindE_simps peek dest ip_unicastRoute_def option.case f id
    using run_datagramHook_none[OF assms(4)]
    by (auto split: option.split simp: Let_def datagramForwardHook_def ip_routeUnicastPacketFinish_def)
  finally have fin: "ip_preroutingFinish env p s = (case x of
         None \<Rightarrow> Inr (sendIcmpError q i IcmpDestinationUnreachable 0 (ip_unroutable NoRouteFound q (s\<lparr>is_rt := t\<rparr>)))
       | Some r \<Rightarrow> (case re_interface r of
           None \<Rightarrow> Inl null_pointer
         | Some j \<Rightarrow> ip_fragmentPostRouting env (set_nextHop (re_gateway r) (set_interfaceReq j q))
                     (s\<lparr>is_rt := t, is_numForwarded := is_numForwarded s + 1\<rparr>)))" .
  have prot: "t_packetProtocol (pk_tags q) = Some P_ipv4" using q(4) by simp
  show ?thesis
    by (rule that[of q t]) (use fin sc(2,3) q(2,3) prot in \<open>simp_all only: sc(1) i(1) option.sel\<close>)
qed

lemma ip_fragmentAndSend_expired:
  assumes "peekAtFront as_ipv4 p = Inr h" "ih_timeToLive h \<le> 0" "t_packetProtocol (pk_tags p) = Some prot" "prot \<noteq> P_udp"
    and "reqInterface env p = Inr ie"
  shows "\<exists>q s'. ip_fragmentAndSend env shared p s = Inr s' \<and> pk_data q = pk_data p \<and> is_numDropped s' = is_numDropped s + 1 \<and>
    is_out s' = is_out s @ [IpDropped HopLimitReached q, IcmpError q (-1) IcmpTimeExceeded 0]"
proof -
  have lat: "ip_udp_latency (en_now env) p s = Inr (p, s)" using assms(3,4) by (simp add: ip_udp_latency_def)
  show ?thesis
    unfolding ip_fragmentAndSend_def lat bindE_simps prod.case assms(5,1) Let_def ip_with_nextHop_def[symmetric]
    using assms(2) by (intro exI[of _ "ip_with_nextHop h p"])
      (simp add: sendIcmpError_def emit_out_def set_current_def)
qed

section \<open>Properties\<close>

text \<open>C17: a node that forwards sends a datagram in transit out of the interface of the best route,
  with its time to live decremented, its checksum valid again and its payload untouched,
  and sends nothing else.\<close>

theorem ipv4_forwards:
  assumes "ip_transit env h d p" "ip_datagram (en_crcMode env) h d p" "ih_headerLength h \<le> ih_totalLength h"
    and "ih_srcAddress h \<noteq> 0" "1 < ih_timeToLive h"
    and "rt_step\<^sup>*\<^sup>* (new_routing_table f m u) (is_rt s)" "rt_forwarding (is_rt s)"
    and "scan_routes (ih_destAddress h) (rt_routes (is_rt s)) = Some r" "re_interface r = Some j"
    and "getInterfaceById (en_ift env) j = Inr ie" "ie_mtu ie = 0 \<or> ih_headerLength h + int (length d) \<le> ie_mtu ie"
    and "a = (if re_gateway r = 0 then ih_destAddress h else re_gateway r)"
    and "\<not> ie_isBroadcast ie \<or> ie_mac ie = 0 \<or> ip_resolveNextHopMacAddress env a ie \<noteq> 0 \<and> map_of (is_pending s) a = None"
    and "en_hooks env = []" "is_packet s = None" "is_queue s = []" "\<not> (en_txChannel env \<and> is_timer s)"
  shows "\<exists>q c s'. ip_preroutingFinish env p s = Inr s' \<and> is_out s' = is_out s @ [QueueOut q] \<and>
    pk_data q = header_cells (Ipv4H (h\<lparr>ih_timeToLive := ih_timeToLive h - 1, ih_crc := c\<rparr>)) @ d \<and>
    t_interfaceReq (pk_tags q) = Some j \<and>
    (ih_crcMode h = CRC_COMPUTED \<or> ih_crcMode h = CRC_DECLARED_CORRECT \<longrightarrow>
       ip_verifyCrc True (h\<lparr>ih_timeToLive := ih_timeToLive h - 1, ih_crc := c\<rparr>) = Inr True) \<and>
    is_numForwarded s' = is_numForwarded s + 1"
proof -
  let ?h = "ip_decremented h"
  obtain q t where q: "packet_ok q" "pk_data q = header_cells (Ipv4H ?h) @ d" "t_packetProtocol (pk_tags q) = Some P_ipv4"
    "ip_preroutingFinish env p s = ip_fragmentPostRouting env (set_nextHop (re_gateway r) (set_interfaceReq j q))
                     (s\<lparr>is_rt := t, is_numForwarded := is_numForwarded s + 1\<rparr>)"
    by (rule ip_transit_routed[OF assms(1,7) rt_reachable_ok[OF assms(6)] assms(14)]) (simp add: assms(8,9))
  define p1 where "p1 = set_nextHop (re_gateway r) (set_interfaceReq j q)"
  define s1 where "s1 = s\<lparr>is_rt := t, is_numForwarded := is_numForwarded s + 1, is_packet := Some p1\<rparr>"
  have p1: "packet_ok p1" "pk_data p1 = header_cells (Ipv4H ?h) @ d" "t_packetProtocol (pk_tags p1) = Some P_ipv4"
    "reqInterface env p1 = Inr ie" "t_interfaceReq (pk_tags p1) = Some j" "t_nextHopReq (pk_tags p1) = Some (re_gateway r)"
    using q(1-3) assms(10) by (simp_all add: p1_def set_nextHop_def set_interfaceReq_def reqInterface_def)
  have hl: "header_length (Ipv4H ?h) = header_length (Ipv4H h)" "ih_headerLength ?h = ih_headerLength h"
    "ih_fragmentOffset ?h = ih_fragmentOffset h" "ih_crcMode ?h = ih_crcMode h" by (simp_all add: ip_decremented_def)
  have dg: "ip_datagram (en_crcMode env) ?h d p1"
    using assms(2) p1(1,2) unfolding ip_datagram_def hl by blast
  have peek: "peekAtFront as_ipv4 p1 = Inr ?h" using p1(2) by (intro peekAtFront_header) auto
  have hf: "ih_headerLength ?h = ih_headerLength h" "ih_totalLength ?h = ih_totalLength h" "0 < ih_timeToLive ?h"
    "ih_srcAddress ?h = ih_srcAddress h" "ih_destAddress ?h = ih_destAddress h" "ih_crcMode ?h = ih_crcMode h"
    using assms(5) by (simp_all add: ip_decremented_def)
  have "ip_fragmentPostRouting env p1 (s\<lparr>is_rt := t, is_numForwarded := is_numForwarded s + 1\<rparr>) = ip_fragmentAndSend env True p1 s1"
    using ip_fragmentPostRouting_idle[OF assms(14) p1(4) peek, of "s\<lparr>is_rt := t, is_numForwarded := is_numForwarded s + 1\<rparr>"]
      assms(4,15,16) hf(4) by (simp add: s1_def)
  then have run: "ip_preroutingFinish env p s = ip_fragmentAndSend env True p1 s1" using q(4) by (simp only: p1_def)
  have ready: "nextHop_ready env (ip_with_nextHop ?h p1) s1"
    using p1(4-6) assms(10,12,13) hf(5)
    by (auto simp: nextHop_ready_def ip_with_nextHop_def ip_getNextHop_def ip_isUnspecified_def set_nextHop_def reqInterface_def s1_def)
  have len: "ie_mtu ie = 0 \<or> ih_headerLength ?h + int (length d) \<le> ie_mtu ie" using assms(11) hf(1) by simp
  have tl: "ih_headerLength ?h \<le> ih_totalLength ?h" using assms(3) hf(1,2) by simp
  have tm: "\<not> (en_txChannel env \<and> is_timer s1)" using assms(17) by (simp add: s1_def)
  obtain x c s' where "ip_fragmentAndSend env True p1 s1 = Inr s'" "is_out s' = is_out s1 @ [QueueOut x]"
    "pk_data x = header_cells (Ipv4H (?h\<lparr>ih_crc := c\<rparr>)) @ d" "t_interfaceReq (pk_tags x) = t_interfaceReq (pk_tags p1)"
    "ih_crcMode ?h = CRC_COMPUTED \<or> ih_crcMode ?h = CRC_DECLARED_CORRECT \<longrightarrow> ip_verifyCrc True (?h\<lparr>ih_crc := c\<rparr>) = Inr True"
    "is_numForwarded s' = is_numForwarded s1"
    using ip_fragmentAndSend_whole[OF dg tl p1(3) _ p1(4) hf(3) len ready tm, of True] by blast
  then show ?thesis using run p1(5) hf(6)
    by (intro exI[of _ x] exI[of _ c] exI[of _ s']) (simp add: s1_def ip_decremented_def)
qed

text \<open>A node with the two example routes and a datagram that arrives on its interface.\<close>

definition example_router :: "bool \<Rightarrow> ipv4_state" where
  "example_router forwarding = (ipv4_init ((new_routing_table forwarding False False)\<lparr>rt_nextId := 2,
     rt_routes := [example_route 1 0x0A000100 0xFFFFFF00 1 7, example_route 0 0x0A000000 0xFFFF0000 1 1]\<rparr>))"

definition example_arrived :: "packet" where
  "example_arrived = (example_datagram CRC_COMPUTED 3)\<lparr>pk_tags := no_tags\<lparr>t_packetProtocol := Some P_ipv4, t_interfaceInd := Some 100\<rparr>\<rparr>"

definition example_arrived_header :: ipv4_header where
  "example_arrived_header = example_ipv4_header\<lparr>ih_crcMode := CRC_COMPUTED, ih_totalLength := 20 + int 3\<rparr>"

definition example_router_env :: ip_env where
  "example_router_env = example_env CRC_COMPUTED True 1500"

lemma example_arrived_ok:
  "packet_ok example_arrived" "pk_data example_arrived = header_cells (Ipv4H example_arrived_header) @ replicate 3 (Data 7)"
  using example_datagram_simps[of CRC_COMPUTED 3] by (simp_all add: example_arrived_def example_arrived_header_def)

lemma example_transit: "ip_transit example_router_env example_arrived_header (replicate 3 (Data 7)) example_arrived"
  using example_arrived_ok
  by (simp add: ip_transit_def example_arrived_def no_tags_def example_router_env_def example_env_def getInterfaceById_def
      findInterfaceById_def example_arrived_header_def example_ipv4_header_def ip_isMulticast_def isLocalAddress_def
      hasNetworkAddress_def ip_isLimitedBroadcast_def findInterfaceByLocalBroadcastAddress_def)

lemma example_router_reachable: "rt_step\<^sup>*\<^sup>* (new_routing_table True False False) (is_rt (example_router True))"
  using example_reachable[of False] by (simp add: example_router_def ipv4_init_def)

lemma example_router_route:
  "scan_routes (ih_destAddress example_arrived_header) (rt_routes (is_rt (example_router f))) = Some (example_route 0 0x0A000000 0xFFFF0000 1 1)"
  by (simp add: example_arrived_header_def example_ipv4_header_def example_router_def ipv4_init_def scan_routes_def
      route_matches_def maskedAddrAreEqual_def example_route_def)

theorem ipv4_forwards_witness:
  "\<exists>q c s'. ip_preroutingFinish example_router_env example_arrived (example_router True) = Inr s' \<and> is_out s' = [QueueOut q] \<and>
     pk_data q = header_cells (Ipv4H (example_arrived_header\<lparr>ih_timeToLive := 31, ih_crc := c\<rparr>)) @ replicate 3 (Data 7)"
proof -
  let ?ie = "hd (en_ift (example_env CRC_COMPUTED True 1500))"
  have h: "ih_timeToLive example_arrived_header = 32" "ih_srcAddress example_arrived_header \<noteq> 0"
    "ih_headerLength example_arrived_header \<le> ih_totalLength example_arrived_header" "ih_headerLength example_arrived_header = 20"
    by (simp_all add: example_arrived_header_def example_ipv4_header_def)
  have dg: "ip_datagram (en_crcMode example_router_env) example_arrived_header (replicate 3 (Data 7)) example_arrived"
    using example_arrived_ok by (simp add: ip_datagram_def example_arrived_header_def example_ipv4_header_def example_router_env_def example_env_def)
  have s: "rt_forwarding (is_rt (example_router True))" "is_packet (example_router True) = None" "is_queue (example_router True) = []"
    "is_out (example_router True) = []" "\<not> is_timer (example_router True)"
    by (simp_all add: example_router_def ipv4_init_def new_routing_table_def)
  have i: "getInterfaceById (en_ift example_router_env) 100 = Inr ?ie" "\<not> ie_isBroadcast ?ie" "ie_mtu ?ie = 1500" "en_hooks example_router_env = []"
    by (simp_all add: example_router_env_def example_env_def getInterfaceById_def findInterfaceById_def)
  have r: "re_interface (example_route 0 0x0A000000 0xFFFF0000 1 1) = Some 100" by (simp add: example_route_def)
  show ?thesis
    using ipv4_forwards[OF example_transit dg h(3,2) _ example_router_reachable s(1) example_router_route r i(1) _ refl _ i(4) s(2,3)] h s i
    by fastforce
qed



end
