(* ===== verification/Frag_Streams.thy ===== *)
theory Frag_Streams
  imports Frag_Bufs
begin

text \<open>
  What the fragment buffers do with the fragments of several datagrams that arrive interleaved. A call
  of \<open>addFragment\<close> reads and changes only the buffer of the key of its fragment; the locale
  \<open>keyed_adder\<close> states that contract and shows that a run of calls then treats every datagram as if its
  fragments arrived alone. It is interpreted on the buffers of IPv4 and of RDMA, also for a
  reception that lets whole datagrams pass.
\<close>

section \<open>The contract\<close>

lemma add_all_length: "add_all add ps m = Inr (rs, m') \<Longrightarrow> length rs = length ps"
  by (induction add ps m arbitrary: rs m' rule: add_all.induct) (auto simp: bindE_eq_Inr)

definition key_run :: "(packet \<Rightarrow> 'k) \<Rightarrow> 'k \<Rightarrow> (packet \<times> simtime) list \<Rightarrow> (packet \<times> simtime) list" where
  "key_run key k ps = filter (\<lambda>x. key (fst x) = k) ps"

definition key_outs :: "(packet \<Rightarrow> 'k) \<Rightarrow> 'k \<Rightarrow> (packet \<times> simtime) list \<Rightarrow> 'r list \<Rightarrow> 'r list" where
  "key_outs key k ps rs = map fst (filter (\<lambda>x. key (fst (snd x)) = k) (zip rs ps))"

text \<open>The datagrams that a run completes, in order, with the time at which each is.\<close>

fun completed :: "'r option list \<Rightarrow> (packet \<times> simtime) list \<Rightarrow> ('r \<times> simtime) list" where
  "completed (Some q # rs) ((p, now) # ps) = (q, now) # completed rs ps"
| "completed (None # rs) (_ # ps) = completed rs ps"
| "completed _ _ = []"

text \<open>
  When the outputs for each key are nothing and at last one datagram, the run completes one
  datagram for each key, the last of them with the last fragment.
\<close>

lemma length_key_outs: "length rs = length ps \<Longrightarrow> length (key_outs key k ps rs) = length (key_run key k ps)"
  by (induction rs ps rule: list_induct2) (auto simp: key_outs_def key_run_def)

lemma completed_each:
  assumes "length rs = length ps" "\<forall>x \<in> set ps. key (fst x) \<in> K"
    and "\<forall>k \<in> K. \<exists>n. key_outs key k ps rs = replicate n None @ [Some (q k)]"
  shows "\<exists>ks. distinct ks \<and> set ks = K \<and> map fst (completed rs ps) = map q ks \<and>
    (ps \<noteq> [] \<longrightarrow> completed rs ps \<noteq> [] \<and> snd (last (completed rs ps)) = snd (last ps))"
  using assms
proof (induction rs ps arbitrary: K rule: list_induct2)
  case Nil
  then show ?case by (cases "K = {}") (auto simp: key_outs_def)
next
  case (Cons r rs x ps)
  obtain p now where x: "x = (p, now)" by (cases x)
  let ?k = "key p"
  have k: "?k \<in> K" using Cons.prems(1) x by simp
  have outs: "key_outs key k (x # ps) (r # rs) = (if k = ?k then r # key_outs key k ps rs else key_outs key k ps rs)" for k
    by (simp add: key_outs_def x)
  have none: "key_outs key k ps rs = [] \<Longrightarrow> y \<in> set ps \<Longrightarrow> key (fst y) \<noteq> k" for k y
    using length_key_outs[OF Cons.hyps(1), of key k] by (simp add: key_run_def filter_empty_conv)
  obtain n where n: "key_outs key ?k (x # ps) (r # rs) = replicate n None @ [Some (q ?k)]" using Cons.prems(2) k by blast
  show ?case
  proof (cases n)
    case 0
    then have r: "r = Some (q ?k)" "key_outs key ?k ps rs = []" using n outs by auto
    have "\<forall>x \<in> set ps. key (fst x) \<in> K - {?k}" using Cons.prems(1) none[OF r(2)] by auto
    moreover have "\<forall>k \<in> K - {?k}. \<exists>n. key_outs key k ps rs = replicate n None @ [Some (q k)]"
      using Cons.prems(2) outs by (metis DiffD1 DiffD2 insertI1)
    ultimately obtain ks where "distinct ks" "set ks = K - {?k}" "map fst (completed rs ps) = map q ks"
      "ps \<noteq> [] \<longrightarrow> completed rs ps \<noteq> [] \<and> snd (last (completed rs ps)) = snd (last ps)"
      using Cons.IH[of "K - {?k}"] by blast
    moreover from this have "ps = [] \<Longrightarrow> completed rs ps = []" using Cons.hyps by simp
    ultimately show ?thesis using r k x by (intro exI[of _ "?k # ks"]) auto
  next
    case (Suc m)
    then have r: "r = None" "key_outs key ?k ps rs = replicate m None @ [Some (q ?k)]" using n outs by auto
    have "ps \<noteq> []" using r(2) by (auto simp: key_outs_def)
    moreover have "\<forall>k \<in> K. \<exists>n. key_outs key k ps rs = replicate n None @ [Some (q k)]"
      using Cons.prems(2) outs r(2) by metis
    ultimately show ?thesis using Cons.IH[of K] Cons.prems(1) r(1) x by auto
  qed
qed

locale keyed_adder =
  fixes add :: "packet \<Rightarrow> simtime \<Rightarrow> ('k::linorder \<times> 'v) list \<Rightarrow> (packet option \<times> ('k \<times> 'v) list) res"
    and key :: "packet \<Rightarrow> 'k"
  assumes add_local: "\<exists>F. \<forall>m. map_ok m \<longrightarrow>
    (case F (map_of m (key p)) of
       Inl e \<Rightarrow> add p now m = Inl e
     | Inr (r, v) \<Rightarrow> \<exists>m'. add p now m = Inr (r, m') \<and> map_ok m' \<and> map_of m' = (map_of m)(key p := v))"
begin

lemma add_cong:
  assumes "map_ok m" "map_ok n" "map_of n (key p) = map_of m (key p)" "add p now m = Inr (r, m')"
  shows "map_ok m' \<and> (\<exists>n'. add p now n = Inr (r, n') \<and> map_ok n' \<and> map_of n' (key p) = map_of m' (key p)
    \<and> (\<forall>k. k \<noteq> key p \<longrightarrow> map_of m' k = map_of m k))"
proof -
  obtain F where F: "\<forall>m. map_ok m \<longrightarrow> (case F (map_of m (key p)) of
       Inl e \<Rightarrow> add p now m = Inl e
     | Inr (r, v) \<Rightarrow> \<exists>m'. add p now m = Inr (r, m') \<and> map_ok m' \<and> map_of m' = (map_of m)(key p := v))"
    using add_local by blast
  from F assms(1) have 1: "case F (map_of m (key p)) of
       Inl e \<Rightarrow> add p now m = Inl e
     | Inr (r, v) \<Rightarrow> \<exists>m'. add p now m = Inr (r, m') \<and> map_ok m' \<and> map_of m' = (map_of m)(key p := v)" by blast
  from F assms(2) have 2: "case F (map_of n (key p)) of
       Inl e \<Rightarrow> add p now n = Inl e
     | Inr (r, v) \<Rightarrow> \<exists>m'. add p now n = Inr (r, m') \<and> map_ok m' \<and> map_of m' = (map_of n)(key p := v)" by blast
  show ?thesis using 1 2 assms(3,4) by (auto split: sum.splits)
qed

lemma add_all_cong:
  assumes "\<forall>x \<in> set ps. key (fst x) = k" "map_ok m" "map_ok n" "map_of n k = map_of m k"
    and "add_all add ps m = Inr (rs, m')"
  shows "\<exists>n'. add_all add ps n = Inr (rs, n') \<and> map_of n' k = map_of m' k"
  using assms
proof (induction ps arbitrary: m n rs)
  case Nil
  then show ?case by simp
next
  case (Cons x ps)
  obtain p now where x: "x = (p, now)" by (cases x)
  obtain r m1 rs1 where s: "add p now m = Inr (r, m1)" "add_all add ps m1 = Inr (rs1, m')" "rs = r # rs1"
    using Cons.prems(5) x by (auto simp: bindE_eq_Inr)
  have pk: "key p = k" using Cons.prems(1) x by simp_all
  obtain n1 where n1: "map_ok m1" "add p now n = Inr (r, n1)" "map_ok n1" "map_of n1 k = map_of m1 k"
    using add_cong[OF Cons.prems(2,3) _ s(1)] Cons.prems(4) pk by auto
  obtain n' where "add_all add ps n1 = Inr (rs1, n')" "map_of n' k = map_of m' k"
    using Cons.IH[OF _ n1(1,3,4) s(2)] Cons.prems(1) by auto
  then show ?case using n1(2) s(3) x by simp
qed

text \<open>When every datagram alone can be handled, so can the mix, with the same result for each.\<close>

lemma interleaved:
  assumes "map_ok m"
    and "\<forall>k. \<exists>rs m'. add_all add (key_run key k ps) m = Inr (rs, m')"
  shows "\<exists>rs m'. add_all add ps m = Inr (rs, m') \<and> map_ok m' \<and> length rs = length ps \<and>
    (\<forall>k. \<exists>n. add_all add (key_run key k ps) m = Inr (key_outs key k ps rs, n) \<and> map_of m' k = map_of n k)"
  using assms
proof (induction ps arbitrary: m)
  case Nil
  then show ?case by (simp add: key_run_def key_outs_def)
next
  case (Cons x ps)
  obtain p now where x: "x = (p, now)" by (cases x)
  let ?k = "key p"
  have run: "key_run key k (x # ps) = (if k = ?k then x # key_run key k ps else key_run key k ps)" for k
    by (simp add: key_run_def x)
  have okr: "\<forall>x \<in> set (key_run key k ps). key (fst x) = k" for k
    by (simp add: key_run_def)
  have "\<exists>rs m'. add_all add (x # key_run key ?k ps) m = Inr (rs, m')" using Cons.prems(2)[rule_format, of ?k] run by simp
  then obtain r m1 rs1 m2 where s: "add p now m = Inr (r, m1)" "add_all add (key_run key ?k ps) m1 = Inr (rs1, m2)"
    by (auto simp: x bindE_eq_Inr)
  have m1: "map_ok m1" "\<forall>k. k \<noteq> ?k \<longrightarrow> map_of m1 k = map_of m k"
    using add_cong[OF Cons.prems(1,1) refl s(1)] by auto
  have each: "\<exists>rs m'. add_all add (key_run key k ps) m1 = Inr (rs, m')" for k
  proof (cases "k = ?k")
    case True
    then show ?thesis using s(2) by blast
  next
    case False
    obtain rs m' where "add_all add (key_run key k ps) m = Inr (rs, m')" using Cons.prems(2)[rule_format, of k] run False by auto
    from add_all_cong[OF okr Cons.prems(1) m1(1) _ this] show ?thesis using m1(2) False by blast
  qed
  obtain rs m' where ih: "add_all add ps m1 = Inr (rs, m')" "map_ok m'" "length rs = length ps"
    "\<forall>k. \<exists>n. add_all add (key_run key k ps) m1 = Inr (key_outs key k ps rs, n) \<and> map_of m' k = map_of n k"
    using Cons.IH[OF m1(1)] each by blast
  have outs: "key_outs key k (x # ps) (r # rs) = (if k = ?k then r # key_outs key k ps rs else key_outs key k ps rs)" for k
    by (simp add: key_outs_def x)
  have "\<exists>n. add_all add (key_run key k (x # ps)) m = Inr (key_outs key k (x # ps) (r # rs), n) \<and> map_of m' k = map_of n k" for k
  proof (cases "k = ?k")
    case True
    obtain n where "add_all add (key_run key k ps) m1 = Inr (key_outs key k ps rs, n)" "map_of m' k = map_of n k"
      using ih(4) by blast
    then show ?thesis unfolding run outs using True s(1) x by auto
  next
    case False
    obtain n where n: "add_all add (key_run key k ps) m1 = Inr (key_outs key k ps rs, n)" "map_of m' k = map_of n k"
      using ih(4) by blast
    have "map_of m k = map_of m1 k" using m1(2) False by simp
    from add_all_cong[OF okr m1(1) Cons.prems(1) this n(1)] n(2) show ?thesis unfolding run outs using False by auto
  qed
  then show ?case using s(1) ih(1-3) x by (intro exI[of _ "r # rs"] exI[of _ m']) simp
qed

text \<open>A reception that takes some packets as they are keeps the contract.\<close>

lemma bypass:
  "keyed_adder (\<lambda>p now m. bindE (test p) (\<lambda>b. if b then add p now m else Inr (Some p, m))) key"
proof
  fix p now
  obtain F where F: "\<forall>m. map_ok m \<longrightarrow> (case F (map_of m (key p)) of
       Inl e \<Rightarrow> add p now m = Inl e
     | Inr (r, v) \<Rightarrow> \<exists>m'. add p now m = Inr (r, m') \<and> map_ok m' \<and> map_of m' = (map_of m)(key p := v))"
    using add_local by blast
  show "\<exists>F. \<forall>m. map_ok m \<longrightarrow> (case F (map_of m (key p)) of
       Inl e \<Rightarrow> bindE (test p) (\<lambda>b. if b then add p now m else Inr (Some p, m)) = Inl e
     | Inr (r, v) \<Rightarrow> \<exists>m'. bindE (test p) (\<lambda>b. if b then add p now m else Inr (Some p, m)) = Inr (r, m') \<and>
         map_ok m' \<and> map_of m' = (map_of m)(key p := v))"
  proof (cases "test p")
    case (Inl e)
    then show ?thesis by (intro exI[of _ "\<lambda>_. Inl e"]) simp
  next
    case (Inr b)
    show ?thesis
    proof (cases b)
      case True
      show ?thesis by (simp only: Inr True bindE_simps if_True) (rule exI[of _ F], rule F)
    next
      case False
      show ?thesis by (simp only: Inr False bindE_simps if_False) (rule exI[of _ "\<lambda>v. Inr (Some p, v)"], simp)
    qed
  qed
qed

text \<open>
  Several datagrams with different keys, each complete with the last of its fragments: in
  the mix each is completed once, and the last fragment completes one.
\<close>

lemma each_completes_once:
  assumes "map_ok m" "\<forall>x \<in> set ps. key (fst x) \<in> K"
    and "\<forall>k \<in> K. \<exists>n m'. add_all add (key_run key k ps) m = Inr (replicate n None @ [Some (q k)], m')"
  shows "\<exists>rs m' ks. add_all add ps m = Inr (rs, m') \<and> map_ok m' \<and> length rs = length ps \<and>
    distinct ks \<and> set ks = K \<and> map fst (completed rs ps) = map q ks \<and>
    (ps \<noteq> [] \<longrightarrow> completed rs ps \<noteq> [] \<and> snd (last (completed rs ps)) = snd (last ps))"
proof -
  have empty: "key_run key k ps = []" if "k \<notin> K" for k using that assms(2) by (auto simp: key_run_def filter_empty_conv)
  have "\<exists>rs m'. add_all add (key_run key k ps) m = Inr (rs, m')" for k
    using assms(3) empty[of k] by (cases "k \<in> K") auto
  then obtain rs m' where rs: "add_all add ps m = Inr (rs, m')" "map_ok m'" "length rs = length ps"
    "\<forall>k. \<exists>n. add_all add (key_run key k ps) m = Inr (key_outs key k ps rs, n) \<and> map_of m' k = map_of n k"
    using interleaved[OF assms(1)] by blast
  have "\<forall>k \<in> K. \<exists>n. key_outs key k ps rs = replicate n None @ [Some (q k)]"
    using rs(4) assms(3) by (metis Inr_inject prod.inject)
  from completed_each[OF rs(3) assms(2) this] rs(1-3) show ?thesis by blast
qed

end

section \<open>The buffers keep the contract\<close>

definition packet_key :: "(header \<Rightarrow> 'h option) \<Rightarrow> ('h \<Rightarrow> 'k) \<Rightarrow> 'k \<Rightarrow> packet \<Rightarrow> 'k" where
  "packet_key as keyOf k0 p = (case peekAtFront as p of Inr h \<Rightarrow> keyOf h | Inl _ \<Rightarrow> k0)"

lemma addFragment_local:
  assumes "\<And>h i. info h p = Inr i \<Longrightarrow> fi_key i = keyOf h"
  shows "\<exists>F. \<forall>m. map_ok m \<longrightarrow> (case F (map_of m (packet_key as keyOf k0 p)) of
       Inl e \<Rightarrow> addFragment_with as wrap info finish marker p now m = Inl e
     | Inr (r, v) \<Rightarrow> \<exists>m'. addFragment_with as wrap info finish marker p now m = Inr (r, m') \<and> map_ok m' \<and>
         map_of m' = (map_of m)(packet_key as keyOf k0 p := v))"
proof (cases "peekAtFront as p")
  case (Inl e)
  then show ?thesis by (intro exI[of _ "\<lambda>_. Inl e"]) (simp add: addFragment_with_def)
next
  case h: (Inr h)
  show ?thesis
  proof (cases "info h p")
    case (Inl e)
    then show ?thesis using h by (intro exI[of _ "\<lambda>_. Inl e"]) (simp add: addFragment_with_def)
  next
    case i: (Inr i)
    let ?F = "\<lambda>v. let curBuf = (case v of None \<Rightarrow> new_datagram_buffer | Some b \<Rightarrow> b) in
      bindE (peekDataAt (fi_start i) (fi_bytes i) p) (\<lambda>chunk.
      bindE (rb_replace (fi_offset i) chunk (db_buf curBuf)) (\<lambda>buf.
        let buf = (if \<not> fi_more i then setExpectedLength (fi_offset i + fi_bytes i) buf else buf);
            pkt = (case db_packet curBuf of None \<Rightarrow> p | Some q \<Rightarrow> if fi_offset i = 0 then p else q)
        in
        if isComplete buf then
          bindE (peekAtFront as pkt) (\<lambda>hdr.
          bindE (getReassembledData buf) (\<lambda>payload.
          bindE (insertAtFront (header_cells (wrap (finish hdr (int (length payload)))))
                   (removeAll (pkt\<lparr>pk_name := cut_at marker (pk_name pkt)\<rparr>))) (\<lambda>pk.
          bindE (insertAtBack payload pk) (\<lambda>pk. Inr (Some pk, None)))))
        else Inr (None, Some (curBuf\<lparr>db_buf := buf, db_packet := Some pkt, db_lastupdate := now\<rparr>))))"
    have k: "packet_key as keyOf k0 p = fi_key i" using h i assms by (simp add: packet_key_def)
    show ?thesis
      unfolding k addFragment_with_def h i bindE_simps
      by (intro exI[of _ ?F])
        (auto simp: Let_def map_of_insert map_of_erase map_ok_insert map_ok_erase bindE_def split: sum.split if_splits)
  qed
qed

definition ipv4_packet_key :: "packet \<Rightarrow> ipv4_key" where
  "ipv4_packet_key = packet_key as_ipv4 (\<lambda>h. Ipv4Key (ih_identification h) (ih_srcAddress h) (ih_destAddress h)) (Ipv4Key 0 0 0)"

definition rdma_packet_key :: "packet \<Rightarrow> port_key" where
  "rdma_packet_key = packet_key as_rdma (\<lambda>h. PortKey (rh_identification h) (uint (rh_srcPort h)) (uint (rh_destPort h))) (PortKey 0 0 0)"

interpretation ipv4_streams: keyed_adder ipv4_addFragment ipv4_packet_key
  unfolding ipv4_addFragment_def ipv4_packet_key_def
  by unfold_locales (rule addFragment_local, auto simp: ipv4_frag_info_def split: if_splits)

interpretation rdma_streams: keyed_adder rdma_addFragment rdma_packet_key
  unfolding rdma_addFragment_def rdma_packet_key_def
  by unfold_locales (rule addFragment_local, auto simp: rdma_frag_info_def split: if_splits)

section \<open>The time of creation\<close>

text \<open>
  The packet that a completed datagram is built from, and so its time of creation, is the
  last that arrived with offset 0.
\<close>

lemma insertAt_creation: "insertAt chunk off p = Inr q \<Longrightarrow> pk_creation q = pk_creation p"
  by (auto simp: insertAt_def split: if_splits)

definition stored_packet :: "'k frag_bufs \<Rightarrow> 'k \<Rightarrow> packet option" where
  "stored_packet bufs key = (case map_of bufs key of None \<Rightarrow> None | Some b \<Rightarrow> db_packet b)"

definition kept_packet :: "packet \<Rightarrow> 'k frag_info \<Rightarrow> 'k frag_bufs \<Rightarrow> packet" where
  "kept_packet p i bufs = (case stored_packet bufs (fi_key i) of None \<Rightarrow> p | Some q \<Rightarrow> if fi_offset i = 0 then p else q)"

lemma addFragment_kept:
  assumes "addFragment_with as wrap info finish marker p now bufs = Inr (r, bufs')" "map_ok bufs"
    and "peekAtFront as p = Inr h" "info h p = Inr i"
  shows "map_ok bufs' \<and> (case r of Some q \<Rightarrow> pk_creation q = pk_creation (kept_packet p i bufs)
      | None \<Rightarrow> stored_packet bufs' (fi_key i) = Some (kept_packet p i bufs))"
proof -
  have kept: "(case db_packet (case map_of bufs (fi_key i) of None \<Rightarrow> new_datagram_buffer | Some b \<Rightarrow> b) of
      None \<Rightarrow> p | Some q \<Rightarrow> if fi_offset i = 0 then p else q) = kept_packet p i bufs"
    by (simp add: kept_packet_def stored_packet_def new_datagram_buffer_def split: option.split)
  show ?thesis
    using assms(1,2) unfolding addFragment_with_def assms(3,4) bindE_simps Let_def kept
    by (auto simp: bindE_eq_Inr map_ok_insert map_ok_erase map_of_insert stored_packet_def insertAtFront_def insertAtBack_def
        removeAll_def split: if_splits dest!: insertAt_creation)
qed

lemma run_creation:
  assumes "map_ok bufs" "add_all (addFragment_with as wrap info finish marker) ps bufs = Inr (rs @ [Some q], bufs')"
    and "set rs \<subseteq> {None}"
    and "\<forall>x \<in> set ps. \<exists>h i. peekAtFront as (fst x) = Inr h \<and> info h (fst x) = Inr i \<and> fi_key i = key \<and>
      (fi_offset i = 0 \<longrightarrow> pk_creation (fst x) \<in> C)"
    and "(\<exists>q. stored_packet bufs key = Some q \<and> pk_creation q \<in> C) \<or>
      (\<exists>x \<in> set ps. \<exists>h i. peekAtFront as (fst x) = Inr h \<and> info h (fst x) = Inr i \<and> fi_offset i = 0)"
  shows "pk_creation q \<in> C"
  using assms
proof (induction ps arbitrary: bufs rs)
  case Nil
  then show ?case by simp
next
  case (Cons x ps)
  obtain p now where x: "x = (p, now)" by (cases x)
  obtain h i where i: "peekAtFront as p = Inr h" "info h p = Inr i" "fi_key i = key" "fi_offset i = 0 \<longrightarrow> pk_creation p \<in> C"
    using Cons.prems(4) x by auto
  obtain r bufs1 rs1 where s: "addFragment_with as wrap info finish marker p now bufs = Inr (r, bufs1)"
    "add_all (addFragment_with as wrap info finish marker) ps bufs1 = Inr (rs1, bufs')" "rs @ [Some q] = r # rs1"
    using Cons.prems(2) x by (auto simp: bindE_eq_Inr)
  note k = addFragment_kept[OF s(1) Cons.prems(1) i(1,2)]
  have kept: "pk_creation (kept_packet p i bufs) \<in> C \<or>
      (\<exists>x \<in> set ps. \<exists>h i. peekAtFront as (fst x) = Inr h \<and> info h (fst x) = Inr i \<and> fi_offset i = 0)"
    using Cons.prems(5) i x by (auto simp: kept_packet_def split: option.split)
  show ?case
  proof (cases rs)
    case Nil
    then have "r = Some q" "ps = []" using s(2,3) by (auto simp: bindE_eq_Inr dest: add_all_length)
    then show ?thesis using k kept by simp
  next
    case (Cons r' rs')
    then have r: "r = None" "rs1 = rs' @ [Some q]" "set rs' \<subseteq> {None}" using s(3) Cons.prems(3) by auto
    show ?thesis
    proof (rule Cons.IH[of bufs1 rs'])
      show "map_ok bufs1" using k by simp
    qed (use s(2) r k i(3) kept Cons.prems(4) in auto)
  qed
qed

text \<open>When only fragment \<open>k\<close> has offset 0, the datagram has its time of creation.\<close>

lemma first_creation:
  assumes "map_ok bufs" "add_all (addFragment_with as wrap info finish marker) ps bufs = Inr (rs @ [Some q], bufs')"
    and "set rs \<subseteq> {None}" "\<forall>j < length ps. fragment_of as info key d (fst (ps ! j)) (f j)"
    and "k < length ps" "\<forall>j < length ps. fst (f j) = 0 \<longleftrightarrow> j = k"
  shows "pk_creation q = pk_creation (fst (ps ! k))"
proof -
  have each: "\<exists>h i. peekAtFront as (fst (ps ! j)) = Inr h \<and> info h (fst (ps ! j)) = Inr i \<and>
      fi_key i = key \<and> (fi_offset i = 0 \<longleftrightarrow> j = k)" if "j < length ps" for j
    using assms(4,6) that by (auto simp: fragment_of_def)
  have "pk_creation q \<in> {pk_creation (fst (ps ! k))}"
  proof (rule run_creation[OF assms(1-3)])
    show "\<forall>x \<in> set ps. \<exists>h i. peekAtFront as (fst x) = Inr h \<and> info h (fst x) = Inr i \<and> fi_key i = key \<and>
        (fi_offset i = 0 \<longrightarrow> pk_creation (fst x) \<in> {pk_creation (fst (ps ! k))})"
    proof
      fix x assume "x \<in> set ps"
      then obtain j where "j < length ps" "x = ps ! j" by (auto simp: in_set_conv_nth)
      with each[of j] show "\<exists>h i. peekAtFront as (fst x) = Inr h \<and> info h (fst x) = Inr i \<and> fi_key i = key \<and>
          (fi_offset i = 0 \<longrightarrow> pk_creation (fst x) \<in> {pk_creation (fst (ps ! k))})" by blast
    qed
    show "(\<exists>q. stored_packet bufs key = Some q \<and> pk_creation q \<in> {pk_creation (fst (ps ! k))}) \<or>
        (\<exists>x \<in> set ps. \<exists>h i. peekAtFront as (fst x) = Inr h \<and> info h (fst x) = Inr i \<and> fi_offset i = 0)"
      using each[OF assms(5)] nth_mem[OF assms(5)] by blast
  qed
  then show ?thesis by simp
qed

end
