(* ===== verification/Rdma_App.thy ===== *)
theory Rdma_App
  imports Rdma Ipv4_Input Frag_Streams
begin

text \<open>
  The RDMA application (\<open>applications/rdmaapp/RdmaBasicApp.{h,cc}\<close>): its timer and the
  messages it sends, and the reception, which does by itself what the IPv4 module leaves
  undone for RDMA: it reassembles IPv4 fragments, decapsulates the datagram, reassembles RDMA
  fragments and counts the message with its latency. A handler returns what it emits and
  sends, in order, and the new state, or the error it raises. Name resolution, the
  interface table, the random number generator, the parameters that are read on every use
  and the time are fields of an environment. The clock is that of the simulation, no clock
  module. The statistics of \<open>finish\<close> are floating point numbers and are not modelled, nor is
  the display string.
\<close>

section \<open>State\<close>

datatype self_msg_kind = KIND_NONE | START | SEND | STOP

record rdma_app =
  ra_destAddresses :: "l3_address list"
  ra_destAddressStr :: "string list"
  ra_localPort :: int
  ra_destPort :: int
  ra_startTime :: simtime
  ra_stopTime :: simtime
  ra_dontFragment :: bool
  ra_packetName :: string
  ra_messageLength :: int
  ra_selfMsg :: self_msg_kind       \<comment> \<open>the kind of \<open>selfMsg\<close>\<close>
  ra_timer :: "simtime option"      \<comment> \<open>when \<open>selfMsg\<close> is scheduled\<close>
  ra_numSent :: int
  ra_numReceived :: int
  ra_latencyPackets :: "simtime list"
  ra_fragbufRdma :: "port_key frag_bufs"
  ra_fragbufIpv4 :: "ipv4_key frag_bufs"
  ra_gateToRdma :: bool

record rdma_app_env =
  ae_now :: simtime
  ae_parentName :: string
  ae_messageLength :: int
  ae_sendInterval :: simtime
  ae_destAddresses :: "string list"        \<comment> \<open>the parameter, cut into tokens\<close>
  ae_excludeLocal :: bool
  ae_isLocal :: "l3_address \<Rightarrow> bool"       \<comment> \<open>\<open>IInterfaceTable::isLocalAddress\<close>\<close>
  ae_tryResolve :: "string \<Rightarrow> l3_address"  \<comment> \<open>\<open>L3AddressResolver\<close>; unspecified when it fails\<close>
  ae_intrand :: "nat \<Rightarrow> nat"

datatype app_output =
    PacketSent packet       \<comment> \<open>\<open>packetSentSignal\<close>\<close>
  | SocketOut packet        \<comment> \<open>\<open>send(msg, gateToRdma)\<close>\<close>
  | PacketReceived packet   \<comment> \<open>\<open>packetReceivedSignal\<close>\<close>

type_synonym app_result = "(app_output list \<times> rdma_app) res"

text \<open>\<open>initialize\<close>, with the values of the parameters it reads.\<close>

definition rdmaApp_initialize :: "int \<Rightarrow> int \<Rightarrow> simtime \<Rightarrow> simtime \<Rightarrow> string \<Rightarrow> bool \<Rightarrow> rdma_app res" where
  "rdmaApp_initialize localPort destPort startTime stopTime name dontFragment =
    (if stopTime \<ge> 0 \<and> stopTime < startTime then Inl (RuntimeError ''Invalid startTime/stopTime parameters'')
     else Inr \<lparr>ra_destAddresses = [], ra_destAddressStr = [], ra_localPort = localPort, ra_destPort = destPort,
       ra_startTime = startTime, ra_stopTime = stopTime, ra_dontFragment = dontFragment, ra_packetName = name,
       ra_messageLength = 0, ra_selfMsg = KIND_NONE, ra_timer = None, ra_numSent = 0, ra_numReceived = 0,
       ra_latencyPackets = [], ra_fragbufRdma = [], ra_fragbufIpv4 = [], ra_gateToRdma = False\<rparr>)"

section \<open>Sending\<close>

definition ip6_isLinkLocal :: "128 word \<Rightarrow> bool" where
  "ip6_isLinkLocal a \<longleftrightarrow> (ucast (drop_bit 96 a) :: 32 word) AND 0xFFC00000 = 0xFE800000"

fun l3_isLinkLocal :: "l3_address \<Rightarrow> bool res" where
  "l3_isLinkLocal L3None = Inl (RuntimeError ''Address contains no value'')"
| "l3_isLinkLocal (L3IPv4 a) = Inr False"
| "l3_isLinkLocal (L3IPv6 a) = Inr (ip6_isLinkLocal a)"
| "l3_isLinkLocal (L3Mac a) = Inr True"
| "l3_isLinkLocal (L3ModuleId i) = Inr False"
| "l3_isLinkLocal (L3ModulePath i) = Inr False"

text \<open>
  \<open>chooseDestAddr\<close>: an address that is not resolved yet is looked up again. \<open>intrand\<close> gives an
  index of the list; an index outside would be read out of bounds and is an error here.
\<close>

definition chooseDestAddr :: "rdma_app_env \<Rightarrow> rdma_app \<Rightarrow> (l3_address \<times> rdma_app) res" where
  "chooseDestAddr env a =
    (let k = ae_intrand env (length (ra_destAddresses a)) in
     if length (ra_destAddresses a) \<le> k \<or> length (ra_destAddressStr a) \<le> k then Inl (RuntimeError ''index out of bounds'')
     else
       let addr = ra_destAddresses a ! k in
       bindE (if l3_isUnspecified addr then Inr True else l3_isLinkLocal addr) (\<lambda>again.
         let addr = (if again then ae_tryResolve env (ra_destAddressStr a ! k) else addr)
         in Inr (addr, a\<lparr>ra_destAddresses := (ra_destAddresses a)[k := addr]\<rparr>)))"

definition sendToRdma :: "packet \<Rightarrow> rdma_app \<Rightarrow> app_output list res" where
  "sendToRdma p a =
    (if \<not> ra_gateToRdma a then Inl (RuntimeError ''Rdma: setOutputGate() must be invoked'')
     else Inr [SocketOut (p\<lparr>pk_tags := (pk_tags p)\<lparr>t_dispatchReq := Some P_rdma\<rparr>\<rparr>)])"

definition rdmaApp_sendTo :: "packet \<Rightarrow> l3_address \<Rightarrow> int \<Rightarrow> rdma_app \<Rightarrow> app_output list res" where
  "rdmaApp_sendTo p destAddr destPort a =
    (let p = p\<lparr>pk_kind := 0, pk_tags := (pk_tags p)\<lparr>
        t_l4PortReq := Some (ra_localPort a, case t_l4PortReq (pk_tags p) of Some (_, d) \<Rightarrow> d | None \<Rightarrow> -1),
        t_l3AddressReq := Some (case t_l3AddressReq (pk_tags p) of Some r \<Rightarrow> r\<lparr>lr_dest := destAddr\<rparr>
          | None \<Rightarrow> \<lparr>lr_src = L3None, lr_dest = destAddr, lr_nonLocalSrc = False\<rparr>)\<rparr>\<rparr>;
         p = (if destPort \<noteq> -1 then p\<lparr>pk_tags := (pk_tags p)\<lparr>t_l4PortReq := Some (ra_localPort a, destPort)\<rparr>\<rparr> else p)
     in sendToRdma p a)"

text \<open>
  \<open>sendPacket\<close>. The creation time tag of the payload, a tag of a region of the content, is not
  modelled. The field \<open>id\<close> of the payload is never set nor read.
\<close>

definition app_payload :: "int \<Rightarrow> int \<Rightarrow> app_header" where
  "app_payload len seqNo = (new_app_header (nat len))\<lparr>ah_sequenceNumber := of_int seqNo\<rparr>"

definition rdmaApp_sendPacket :: "rdma_app_env \<Rightarrow> rdma_app \<Rightarrow> app_result" where
  "rdmaApp_sendPacket env a =
    (let name = ra_packetName a @ ae_parentName env @ ''-'' @ string_of_nat (nat (ra_numSent a));
         p = new_packet name (ae_now env);
         a = a\<lparr>ra_messageLength := ae_messageLength env\<rparr>;
         p = (if ra_dontFragment a then p\<lparr>pk_tags := (pk_tags p)\<lparr>t_fragmentationReq := Some True\<rparr>\<rparr> else p)
     in
     bindE (insertAtBack (header_cells (AppH (app_payload (ra_messageLength a) (ra_numSent a)))) p) (\<lambda>p.
     bindE (chooseDestAddr env a) (\<lambda>(destAddr, a).
     bindE (rdmaApp_sendTo p destAddr (ra_destPort a) a) (\<lambda>out.
       Inr (PacketSent p # out, a\<lparr>ra_numSent := ra_numSent a + 1\<rparr>)))))"

section \<open>The timer\<close>

text \<open>
  \<open>scheduleAt\<close> of the simulation kernel, which \<open>scheduleClockEventAt\<close> and \<open>scheduleClockEventAfter\<close>
  call without a clock module: it refuses a time in the past and a message that is scheduled.
\<close>

definition schedule_selfMsg :: "simtime \<Rightarrow> simtime \<Rightarrow> rdma_app \<Rightarrow> rdma_app res" where
  "schedule_selfMsg now t a =
    (if t < now then Inl (RuntimeError ''Cannot schedule message to the past'')
     else if ra_timer a \<noteq> None then Inl (RuntimeError ''Message is currently scheduled'')
     else Inr (a\<lparr>ra_timer := Some t\<rparr>))"

definition rdmaApp_processSend :: "rdma_app_env \<Rightarrow> rdma_app \<Rightarrow> app_result" where
  "rdmaApp_processSend env a =
    bindE (rdmaApp_sendPacket env a) (\<lambda>(out, a).
    let d = ae_sendInterval env in
    bindE (if ra_stopTime a < 0 \<or> ae_now env + d < ra_stopTime a
           then schedule_selfMsg (ae_now env) (ae_now env + d) (a\<lparr>ra_selfMsg := SEND\<rparr>)
           else schedule_selfMsg (ae_now env) (ra_stopTime a) (a\<lparr>ra_selfMsg := STOP\<rparr>)) (\<lambda>a.
      Inr (out, a)))"

text \<open>
  The loop of \<open>processStart\<close> over the tokens. The token is stored before it is known whether its
  address is left out.
\<close>

fun add_destinations :: "rdma_app_env \<Rightarrow> string list \<Rightarrow> rdma_app \<Rightarrow> rdma_app" where
  "add_destinations env [] a = a"
| "add_destinations env (tok # toks) a =
    (let a = a\<lparr>ra_destAddressStr := ra_destAddressStr a @ [tok]\<rparr>;
         result = ae_tryResolve env tok
     in if \<not> l3_isUnspecified result \<and> ae_excludeLocal env \<and> ae_isLocal env result
        then add_destinations env toks a
        else add_destinations env toks (a\<lparr>ra_destAddresses := ra_destAddresses a @ [result]\<rparr>))"

definition rdmaApp_processStart :: "rdma_app_env \<Rightarrow> rdma_app \<Rightarrow> app_result" where
  "rdmaApp_processStart env a =
    (let a = add_destinations env (ae_destAddresses env) (a\<lparr>ra_gateToRdma := True\<rparr>) in
     if ra_destAddresses a \<noteq> [] then rdmaApp_processSend env (a\<lparr>ra_selfMsg := SEND\<rparr>)
     else if ra_stopTime a \<ge> 0 then
       bindE (schedule_selfMsg (ae_now env) (ra_stopTime a) (a\<lparr>ra_selfMsg := STOP\<rparr>)) (\<lambda>a. Inr ([], a))
     else Inr ([], a))"

definition rdmaApp_processStop :: "rdma_app \<Rightarrow> app_result" where
  "rdmaApp_processStop a = Inr ([], a)"

text \<open>\<open>handleMessageWhenUp\<close> for the self message, which is not scheduled any more when it arrives.\<close>

definition rdmaApp_handleSelfMessage :: "rdma_app_env \<Rightarrow> rdma_app \<Rightarrow> app_result" where
  "rdmaApp_handleSelfMessage env a =
    (case ra_selfMsg a of
       START \<Rightarrow> rdmaApp_processStart env a
     | SEND \<Rightarrow> rdmaApp_processSend env a
     | STOP \<Rightarrow> rdmaApp_processStop a
     | KIND_NONE \<Rightarrow> Inl (RuntimeError ''Invalid kind in self message''))"

section \<open>Lifecycle\<close>

definition rdmaApp_handleStartOperation :: "simtime \<Rightarrow> rdma_app \<Rightarrow> rdma_app res" where
  "rdmaApp_handleStartOperation now a =
    (let start = max (ra_startTime a) now in
     if ra_stopTime a < 0 \<or> start < ra_stopTime a \<or> (start = ra_stopTime a \<and> ra_startTime a = ra_stopTime a)
     then schedule_selfMsg now start (a\<lparr>ra_selfMsg := START\<rparr>)
     else Inr a)"

definition rdmaApp_handleStopOperation :: "rdma_app \<Rightarrow> rdma_app" where
  "rdmaApp_handleStopOperation a = a\<lparr>ra_timer := None\<rparr>"

definition rdmaApp_handleCrashOperation :: "rdma_app \<Rightarrow> rdma_app" where
  "rdmaApp_handleCrashOperation a = a\<lparr>ra_timer := None\<rparr>"

section \<open>Receiving\<close>

text \<open>\<open>decapsulate\<close> has the text of \<open>Ipv4::decapsulate\<close>.\<close>

definition rdmaApp_decapsulate :: "packet \<Rightarrow> packet res" where
  "rdmaApp_decapsulate = ip_decapsulate"

text \<open>The two stages of \<open>processPacket\<close>, each with its buffer.\<close>

definition app_ip_stage :: "packet \<Rightarrow> simtime \<Rightarrow> ipv4_key frag_bufs \<Rightarrow> (packet option \<times> ipv4_key frag_bufs) res" where
  "app_ip_stage p now bufs =
    bindE (bindE (peekAtFront as_ipv4 p) (\<lambda>h. Inr (ih_fragmentOffset h \<noteq> 0 \<or> ih_moreFragments h))) (\<lambda>fragment.
      if fragment then ipv4_addFragment p now bufs else Inr (Some p, bufs))"

definition app_rdma_stage :: "packet \<Rightarrow> simtime \<Rightarrow> port_key frag_bufs \<Rightarrow> (packet option \<times> port_key frag_bufs) res" where
  "app_rdma_stage p now bufs =
    bindE (bindE (peekAtFront as_rdma p) (\<lambda>h. Inr (rh_fragmentOffset h \<noteq> 0 \<or> rh_moreFragments h))) (\<lambda>fragment.
      if fragment then rdma_addFragment p now bufs else Inr (Some p, bufs))"

definition rdmaApp_processPacket :: "simtime \<Rightarrow> packet \<Rightarrow> rdma_app \<Rightarrow> app_result" where
  "rdmaApp_processPacket now p a =
    bindE (app_ip_stage p now (ra_fragbufIpv4 a)) (\<lambda>(complete, bufs).
    let a = a\<lparr>ra_fragbufIpv4 := bufs\<rparr> in
    (case complete of
       None \<Rightarrow> Inr ([], a)
     | Some p \<Rightarrow>
         bindE (rdmaApp_decapsulate p) (\<lambda>p.
         bindE (app_rdma_stage p now (ra_fragbufRdma a)) (\<lambda>(complete, bufs).
         let a = a\<lparr>ra_fragbufRdma := bufs\<rparr> in
         (case complete of
            None \<Rightarrow> Inr ([], a)
          | Some p \<Rightarrow>
              Inr ([PacketReceived p], a\<lparr>ra_numReceived := ra_numReceived a + 1,
                ra_latencyPackets := ra_latencyPackets a @ [now - pk_creation p]\<rparr>))))))"

interpretation app_ip: keyed_adder app_ip_stage ipv4_packet_key
  unfolding app_ip_stage_def[abs_def] by (rule ipv4_streams.bypass)

interpretation app_rdma: keyed_adder app_rdma_stage rdma_packet_key
  unfolding app_rdma_stage_def[abs_def] by (rule rdma_streams.bypass)

section \<open>The end of the simulation\<close>

text \<open>
  The loop of \<open>finish\<close> over \<open>k\<close> received messages, from index \<open>i\<close>: the sum and the number of the latencies
  that are not below the confidence interval. \<open>accept\<close> stands for that comparison. Reading
  outside of the vector is an error here.
\<close>

fun finish_loop :: "(simtime \<Rightarrow> bool) \<Rightarrow> simtime list \<Rightarrow> nat \<Rightarrow> nat \<Rightarrow> simtime \<times> nat \<Rightarrow> (simtime \<times> nat) res" where
  "finish_loop accept ls i 0 acc = Inr acc"
| "finish_loop accept ls i (Suc k) (latency, valid) =
    (if length ls \<le> i then Inl (RuntimeError ''index out of bounds'')
     else if accept (ls ! i) then finish_loop accept ls (Suc i) k (latency + ls ! i, valid + 1)
     else finish_loop accept ls (Suc i) k (latency, valid))"

text \<open>What \<open>finish\<close> records: messages sent and received, the sum and the number of the accepted latencies.\<close>

definition rdmaApp_finish :: "(simtime \<Rightarrow> bool) \<Rightarrow> rdma_app \<Rightarrow> (int \<times> int \<times> simtime \<times> nat) res" where
  "rdmaApp_finish accept a =
    bindE (finish_loop accept (ra_latencyPackets a) 0 (nat (ra_numReceived a)) (0, 0)) (\<lambda>(latency, valid).
      Inr (ra_numSent a, ra_numReceived a, latency, valid))"

lemma finish_loop_ok:
  "i + k \<le> length ls \<Longrightarrow> finish_loop accept ls i k (latency, valid)
    = Inr (latency + sum_list (filter accept (take k (drop i ls))), valid + length (filter accept (take k (drop i ls))))"
proof (induction k arbitrary: i latency valid)
  case (Suc k)
  have "take (Suc k) (drop i ls) = ls ! i # take k (drop (Suc i) ls)" using Suc.prems by (simp add: Cons_nth_drop_Suc[symmetric])
  then show ?case using Suc.IH[of "Suc i"] Suc.prems by (simp add: add.assoc)
qed simp

section \<open>What is sent\<close>

text \<open>What \<open>sendPacket\<close> hands to the RDMA module.\<close>

lemma chooseDestAddr_frame:
  assumes "chooseDestAddr env a = Inr (dest, a1)"
  shows "\<exists>ds. a1 = a\<lparr>ra_destAddresses := ds\<rparr> \<and>
    chooseDestAddr env (a\<lparr>ra_messageLength := n\<rparr>) = Inr (dest, a1\<lparr>ra_messageLength := n\<rparr>)"
proof -
  let ?k = "ae_intrand env (length (ra_destAddresses a))"
  let ?again = "if l3_isUnspecified (ra_destAddresses a ! ?k) then Inr True else l3_isLinkLocal (ra_destAddresses a ! ?k)"
  have k: "\<not> (length (ra_destAddresses a) \<le> ?k \<or> length (ra_destAddressStr a) \<le> ?k)"
    using assms by (auto simp: chooseDestAddr_def Let_def)
  have u: "chooseDestAddr env b = bindE ?again (\<lambda>again.
      let addr = (if again then ae_tryResolve env (ra_destAddressStr a ! ?k) else ra_destAddresses a ! ?k)
      in Inr (addr, b\<lparr>ra_destAddresses := (ra_destAddresses a)[?k := addr]\<rparr>))"
    if "ra_destAddresses b = ra_destAddresses a" "ra_destAddressStr b = ra_destAddressStr a" for b
    unfolding chooseDestAddr_def that Let_def if_not_P[OF k] ..
  show ?thesis
  proof (cases ?again)
    case (Inl e)
    with assms u[of a] show ?thesis by simp
  next
    case (Inr again)
    note eqs = u[of a] u[of "a\<lparr>ra_messageLength := n\<rparr>"]
    show ?thesis using assms unfolding eqs[simplified] Inr bindE_simps Let_def by auto
  qed
qed

lemma app_sends:
  assumes "ra_gateToRdma a" "0 < ae_messageLength env" "chooseDestAddr env a = Inr (dest, a1)"
  shows "\<exists>p0 p. rdmaApp_sendPacket env a = Inr ([PacketSent p0, SocketOut p],
      a1\<lparr>ra_messageLength := ae_messageLength env, ra_numSent := ra_numSent a + 1\<rparr>) \<and>
    (\<not> l3_isUnspecified dest \<and> ra_localPort a \<noteq> -1 \<and> 0 < ra_destPort a \<and> ra_destPort a \<le> 65535 \<longrightarrow>
       rdma_sendable p (ra_localPort a) (ra_destPort a)) \<and> pk_creation p = ae_now env \<and>
    pk_name p = ra_packetName a @ ae_parentName env @ ''-'' @ string_of_nat (nat (ra_numSent a)) \<and>
    pk_data p = header_cells (AppH (app_payload (ae_messageLength env) (ra_numSent a))) \<and>
    totalLength p = nat (ae_messageLength env)"
proof -
  let ?b = "a\<lparr>ra_messageLength := ae_messageLength env\<rparr>"
  let ?cells = "header_cells (AppH (app_payload (ae_messageLength env) (ra_numSent a)))"
  let ?p = "new_packet (ra_packetName a @ ae_parentName env @ ''-'' @ string_of_nat (nat (ra_numSent a))) (ae_now env)"
  let ?q = "if ra_dontFragment a then ?p\<lparr>pk_tags := (pk_tags ?p)\<lparr>t_fragmentationReq := Some True\<rparr>\<rparr> else ?p"
  have c: "chooseDestAddr env ?b = Inr (dest, a1\<lparr>ra_messageLength := ae_messageLength env\<rparr>)"
    and a1: "ra_gateToRdma a1" "ra_localPort a1 = ra_localPort a" "ra_destPort a1 = ra_destPort a" "ra_numSent a1 = ra_numSent a"
    using chooseDestAddr_frame[OF assms(3), of "ae_messageLength env"] assms(1) by auto
  have ne: "?cells \<noteq> []" using assms(2) by (auto simp: header_cells_def app_payload_def new_app_header_def)
  have ok: "packet_ok ?q" and data: "pk_data ?q = []" by simp_all
  have new: "pk_name ?q = pk_name ?p" "pk_creation ?q = ae_now env" "pk_front ?q = 0" "pk_back ?q = 0"
    "t_l4PortReq (pk_tags ?q) = None" "t_l3AddressReq (pk_tags ?q) = None" "t_interfaceReq (pk_tags ?q) = None"
    by (simp_all add: new_packet_def no_tags_def)
  obtain r where r: "insertAtBack ?cells ?q = Inr r" using insertAtBack_eq[OF ok ne] by blast
  have rk: "packet_ok r" "pk_data r = ?cells" "pk_name r = pk_name ?p" "pk_creation r = ae_now env" "pk_front r = 0" "pk_back r = 0"
    "t_l4PortReq (pk_tags r) = None" "t_l3AddressReq (pk_tags r) = None" "t_interfaceReq (pk_tags r) = None"
    using insertAtBack_ok[OF ok ne r] new unfolding data by simp_all
  have tot: "totalLength r = nat (ae_messageLength env)"
    using arg_cong[OF rk(2), of length] rk(5,6) by (simp add: dataLength_def app_payload_def new_app_header_def)
  have "rdmaApp_sendPacket env a = bindE (rdmaApp_sendTo r dest (ra_destPort a) (a1\<lparr>ra_messageLength := ae_messageLength env\<rparr>))
      (\<lambda>out. Inr (PacketSent r # out, a1\<lparr>ra_messageLength := ae_messageLength env, ra_numSent := ra_numSent a + 1\<rparr>))"
    using r c a1 by (cases "ra_dontFragment a") (simp_all add: rdmaApp_sendPacket_def Let_def)
  moreover have "\<exists>p. rdmaApp_sendTo r dest (ra_destPort a) (a1\<lparr>ra_messageLength := ae_messageLength env\<rparr>) = Inr [SocketOut p] \<and>
      (\<not> l3_isUnspecified dest \<and> ra_localPort a \<noteq> -1 \<and> 0 < ra_destPort a \<and> ra_destPort a \<le> 65535 \<longrightarrow>
         rdma_sendable p (ra_localPort a) (ra_destPort a)) \<and> pk_creation p = ae_now env \<and> pk_name p = pk_name r \<and>
      pk_data p = pk_data r \<and> totalLength p = totalLength r"
    using rk(1,4,7-9) a1 by (simp add: rdmaApp_sendTo_def sendToRdma_def Let_def rdma_sendable_def totalLength_def)
  ultimately show ?thesis using rk(2,3) tot by (auto simp: new_packet_def)
qed

section \<open>The run of the timer\<close>

text \<open>
  The next \<open>n\<close> events of the timer, with what each sends; \<open>env t\<close> is the environment at time \<open>t\<close>.
  The run ends early when nothing is scheduled.
\<close>

fun rdmaApp_run ::
  "(simtime \<Rightarrow> rdma_app_env) \<Rightarrow> nat \<Rightarrow> rdma_app \<Rightarrow> ((simtime \<times> app_output list) list \<times> rdma_app) res" where
  "rdmaApp_run env 0 a = Inr ([], a)"
| "rdmaApp_run env (Suc n) a =
    (case ra_timer a of
       None \<Rightarrow> Inr ([], a)
     | Some t \<Rightarrow>
         bindE (rdmaApp_handleSelfMessage (env t) (a\<lparr>ra_timer := None\<rparr>)) (\<lambda>(out, a).
         bindE (rdmaApp_run env n a) (\<lambda>(outs, a). Inr ((t, out) # outs, a))))"

text \<open>A destination that is used as it is.\<close>

definition usable :: "l3_address \<Rightarrow> bool" where
  "usable x \<longleftrightarrow> \<not> l3_isUnspecified x \<and> l3_isLinkLocal x = Inr False"

definition app_ready :: "rdma_app \<Rightarrow> bool" where
  "app_ready a \<longleftrightarrow> ra_gateToRdma a \<and> ra_destAddresses a \<noteq> [] \<and> (\<forall>x \<in> set (ra_destAddresses a). usable x) \<and>
     length (ra_destAddresses a) \<le> length (ra_destAddressStr a)"

text \<open>The environment: it tells the time, the interval is \<open>d\<close>, messages are not empty, and
  \<open>intrand\<close> gives an index of the list.\<close>

definition steady :: "(simtime \<Rightarrow> rdma_app_env) \<Rightarrow> simtime \<Rightarrow> bool" where
  "steady env d \<longleftrightarrow> (\<forall>t. ae_now (env t) = t \<and> ae_sendInterval (env t) = d \<and> 0 < ae_messageLength (env t) \<and>
     (\<forall>n > 0. ae_intrand (env t) n < n))"

lemma chooseDestAddr_ready:
  assumes "app_ready a" "steady env d"
  shows "\<exists>dest. chooseDestAddr (env t) a = Inr (dest, a)"
proof -
  let ?k = "ae_intrand (env t) (length (ra_destAddresses a))"
  have k1: "?k < length (ra_destAddresses a)" using assms by (simp add: app_ready_def steady_def)
  moreover have "length (ra_destAddresses a) \<le> length (ra_destAddressStr a)" using assms(1) by (simp add: app_ready_def)
  ultimately have k: "?k < length (ra_destAddresses a)" "?k < length (ra_destAddressStr a)" by linarith+
  have "usable (ra_destAddresses a ! ?k)" using assms(1) k(1) by (simp add: app_ready_def)
  then show ?thesis using k by (simp add: chooseDestAddr_def Let_def usable_def)
qed

definition next_event :: "simtime \<Rightarrow> simtime \<Rightarrow> rdma_app \<Rightarrow> rdma_app" where
  "next_event t d a = (if ra_stopTime a < 0 \<or> t + d < ra_stopTime a then a\<lparr>ra_selfMsg := SEND, ra_timer := Some (t + d)\<rparr>
     else a\<lparr>ra_selfMsg := STOP, ra_timer := Some (ra_stopTime a)\<rparr>)"

text \<open>\<open>msg_out a env t i\<close>: the event at time \<open>t\<close> sends message \<open>i\<close>.\<close>

definition msg_out :: "rdma_app \<Rightarrow> (simtime \<Rightarrow> rdma_app_env) \<Rightarrow> simtime \<Rightarrow> int \<Rightarrow> simtime \<times> app_output list \<Rightarrow> bool" where
  "msg_out a env t i ev \<longleftrightarrow> (\<exists>sent p. ev = (t, [PacketSent sent, SocketOut p]) \<and> pk_creation p = t \<and>
     pk_name p = ra_packetName a @ ae_parentName (env t) @ ''-'' @ string_of_nat (nat i) \<and>
     pk_data p = header_cells (AppH (app_payload (ae_messageLength (env t)) i)))"

lemma processSend_ready:
  assumes "app_ready a" "steady env d" "0 < d" "ra_timer a = None" "ra_stopTime a < 0 \<or> t \<le> ra_stopTime a"
  shows "\<exists>out. rdmaApp_processSend (env t) a = Inr (out, next_event t d
      (a\<lparr>ra_messageLength := ae_messageLength (env t), ra_numSent := ra_numSent a + 1\<rparr>)) \<and> msg_out a env t (ra_numSent a) (t, out)"
proof -
  have e: "ae_now (env t) = t" "ae_sendInterval (env t) = d" "0 < ae_messageLength (env t)" using assms(2) by (simp_all add: steady_def)
  obtain dest where c: "chooseDestAddr (env t) a = Inr (dest, a)" using chooseDestAddr_ready[OF assms(1,2)] by blast
  have g: "ra_gateToRdma a" using assms(1) by (simp add: app_ready_def)
  obtain sent p where s: "rdmaApp_sendPacket (env t) a = Inr ([PacketSent sent, SocketOut p],
      a\<lparr>ra_messageLength := ae_messageLength (env t), ra_numSent := ra_numSent a + 1\<rparr>)" "pk_creation p = t"
    "pk_name p = ra_packetName a @ ae_parentName (env t) @ ''-'' @ string_of_nat (nat (ra_numSent a))"
    "pk_data p = header_cells (AppH (app_payload (ae_messageLength (env t)) (ra_numSent a)))"
    using app_sends[OF g e(3) c] unfolding e(1) by blast
  then show ?thesis using e assms(3-5)
    by (auto simp: rdmaApp_processSend_def schedule_selfMsg_def Let_def next_event_def msg_out_def)
qed

text \<open>An event that sends, and the \<open>k\<close> events after it.\<close>

definition send_run :: "(simtime \<Rightarrow> rdma_app_env) \<Rightarrow> nat \<Rightarrow> simtime \<Rightarrow> rdma_app \<Rightarrow> ((simtime \<times> app_output list) list \<times> rdma_app) res" where
  "send_run env k t a = bindE (rdmaApp_processSend (env t) a) (\<lambda>(out, a).
     bindE (rdmaApp_run env k a) (\<lambda>(outs, a). Inr ((t, out) # outs, a)))"

lemma run_SEND:
  "ra_timer a = Some t \<Longrightarrow> ra_selfMsg a = SEND \<Longrightarrow> rdmaApp_run env (Suc k) a = send_run env k t (a\<lparr>ra_timer := None\<rparr>)"
  by (simp add: rdmaApp_handleSelfMessage_def send_run_def)

lemma run_STOP:
  "ra_timer a = Some t \<Longrightarrow> ra_selfMsg a = STOP \<Longrightarrow> rdmaApp_run env (Suc 0) a = Inr ([(t, [])], a\<lparr>ra_timer := None\<rparr>)"
  by (simp add: rdmaApp_handleSelfMessage_def rdmaApp_processStop_def)

lemma frag_count_step: "0 < F \<Longrightarrow> F < N \<Longrightarrow> frag_count F N = Suc (frag_count F (N - F))"
proof -
  assume F: "0 < F" "F < N"
  then have "N + F - 1 = (N - F + F - 1) + F" by simp
  moreover have "(N - F + F - 1 + F) div F = (N - F + F - 1) div F + 1" using F(1) by (intro div_add_self2) simp
  ultimately show ?thesis unfolding frag_count_def by (metis Suc_eq_plus1)
qed

lemma frag_count_last: "0 < N \<Longrightarrow> N \<le> F \<Longrightarrow> frag_count F N = 1"
  using frag_count_less[of F 0 N] frag_count_less[of F 1 N] by simp

definition app_after :: "rdma_app \<Rightarrow> nat \<Rightarrow> rdma_app \<Rightarrow> bool" where
  "app_after a m a' \<longleftrightarrow> ra_numSent a' = ra_numSent a + int m \<and> ra_numReceived a' = ra_numReceived a \<and>
     ra_latencyPackets a' = ra_latencyPackets a \<and> app_ready a'"

text \<open>From a time before \<open>stopTime\<close>, one message every \<open>d\<close> up to it, and then the event that stops.\<close>

lemma send_run_stops:
  assumes "app_ready a" "steady env d" "0 < d" "ra_timer a = None" "t < ra_stopTime a" "0 \<le> ra_stopTime a"
    and "m = frag_count (nat d) (nat (ra_stopTime a - t))"
  shows "\<exists>outs a'. send_run env m t a = Inr (outs @ [(ra_stopTime a, [])], a') \<and> length outs = m \<and>
    (\<forall>i < m. msg_out a env (t + int i * d) (ra_numSent a + int i) (outs ! i)) \<and>
    app_after a m a' \<and> ra_timer a' = None"
  using assms
proof (induction m arbitrary: t a)
  case 0
  then show ?case using frag_count_less[of "nat d" 0 "nat (ra_stopTime a - t)"] by simp
next
  case (Suc m)
  define b where "b = a\<lparr>ra_messageLength := ae_messageLength (env t), ra_numSent := ra_numSent a + 1\<rparr>"
  have "ra_stopTime a < 0 \<or> t \<le> ra_stopTime a" using Suc.prems(5) by simp
  then obtain out where out: "rdmaApp_processSend (env t) a = Inr (out, next_event t d b)" "msg_out a env t (ra_numSent a) (t, out)"
    using processSend_ready[OF Suc.prems(1-4)] unfolding b_def by blast
  have b: "app_ready b" "ra_stopTime b = ra_stopTime a" "ra_timer b = None" "ra_numSent b = ra_numSent a + 1"
    "ra_packetName b = ra_packetName a" "app_after a 1 b"
    using Suc.prems(1,4) by (simp_all add: b_def app_ready_def app_after_def)
  show ?case
  proof (cases "t + d < ra_stopTime a")
    case True
    have m: "m = frag_count (nat d) (nat (ra_stopTime a - (t + d)))"
    proof -
      have "nat d < nat (ra_stopTime a - t)" "nat (ra_stopTime a - t) - nat d = nat (ra_stopTime a - (t + d))"
        using True Suc.prems(3,5) by linarith+
      then show ?thesis using Suc.prems(7) frag_count_step[of "nat d" "nat (ra_stopTime a - t)"] Suc.prems(3) by simp
    qed
    let ?c = "b\<lparr>ra_selfMsg := SEND\<rparr>"
    have c: "app_ready ?c" "ra_timer ?c = None" "t + d < ra_stopTime ?c" "0 \<le> ra_stopTime ?c" "m = frag_count (nat d) (nat (ra_stopTime ?c - (t + d)))"
      using b True Suc.prems(6) m by (simp_all add: app_ready_def)
    obtain outs a' where ih: "send_run env m (t + d) ?c = Inr (outs @ [(ra_stopTime ?c, [])], a')" "length outs = m"
      "\<forall>i < m. msg_out ?c env (t + d + int i * d) (ra_numSent ?c + int i) (outs ! i)" "app_after ?c m a'" "ra_timer a' = None"
      using Suc.IH[OF c(1) Suc.prems(2,3) c(2-5)] by blast
    have m0: "0 < m" using m True Suc.prems(3) frag_count_less[of "nat d" 0 "nat (ra_stopTime a - (t + d))"] by simp
    have nx: "next_event t d b = ?c\<lparr>ra_timer := Some (t + d)\<rparr>" using b True by (simp add: next_event_def)
    have "(next_event t d b)\<lparr>ra_timer := None\<rparr> = ?c" unfolding nx using b(3) by simp
    then have "rdmaApp_run env (Suc m) (next_event t d b) = Inr (outs @ [(ra_stopTime a, [])], a')"
      using run_SEND[of "next_event t d b" "t + d" env m] ih(1) b(2) unfolding nx by simp
    then have "send_run env (Suc m) t a = Inr (((t, out) # outs) @ [(ra_stopTime a, [])], a')" using out(1) by (simp add: send_run_def)
    moreover have "msg_out a env (t + int i * d) (ra_numSent a + int i) (((t, out) # outs) ! i)" if i: "i < Suc m" for i
    proof (cases i)
      case 0
      then show ?thesis using out(2) by simp
    next
      case (Suc k)
      then have "msg_out ?c env (t + d + int k * d) (ra_numSent ?c + int k) (outs ! k)" using ih(3) i by simp
      moreover have eqs: "t + d + int k * d = t + int i * d" "ra_numSent ?c + int k = ra_numSent a + int i"
        using Suc b(4) by (simp_all add: algebra_simps)
      ultimately have "msg_out ?c env (t + int i * d) (ra_numSent a + int i) (outs ! k)" unfolding eqs by blast
      moreover have "((t, out) # outs) ! i = outs ! k" "ra_packetName ?c = ra_packetName a" using Suc b(5) by simp_all
      ultimately show ?thesis unfolding msg_out_def by simp
    qed
    moreover have "app_after a (Suc m) a'" using ih(4) b(6) by (simp add: app_after_def)
    ultimately show ?thesis using ih(2,5) by (intro exI[of _ "(t, out) # outs"] exI[of _ a']) simp
  next
    case False
    then have m: "m = 0"
      using Suc.prems(7) frag_count_last[of "nat (ra_stopTime a - t)" "nat d"] Suc.prems(5) by simp
    have nx: "next_event t d b = b\<lparr>ra_selfMsg := STOP, ra_timer := Some (ra_stopTime a)\<rparr>" using b False Suc.prems(6) by (simp add: next_event_def)
    let ?a = "(next_event t d b)\<lparr>ra_timer := None\<rparr>"
    have "rdmaApp_run env (Suc 0) (next_event t d b) = Inr ([(ra_stopTime a, [])], ?a)" by (rule run_STOP) (simp_all add: nx)
    then have "send_run env (Suc m) t a = Inr ([(t, out)] @ [(ra_stopTime a, [])], ?a)" using out(1) m by (simp add: send_run_def)
    moreover have "app_after a (Suc m) ?a" using b(1,6) m by (simp add: nx app_after_def app_ready_def)
    ultimately show ?thesis using out(2) m by (intro exI[of _ "[(t, out)]"] exI[of _ ?a]) simp
  qed
qed

text \<open>Without a stop time there is always a next message.\<close>

lemma send_run_forever:
  assumes "app_ready a" "steady env d" "0 < d" "ra_timer a = None" "ra_stopTime a < 0"
  shows "\<exists>outs a'. send_run env n t a = Inr (outs, a') \<and> length outs = Suc n \<and>
    (\<forall>i \<le> n. msg_out a env (t + int i * d) (ra_numSent a + int i) (outs ! i)) \<and>
    app_after a (Suc n) a' \<and> ra_timer a' = Some (t + int (Suc n) * d)"
  using assms
proof (induction n arbitrary: t a)
  case 0
  then obtain out where out: "rdmaApp_processSend (env t) a = Inr (out, next_event t d
      (a\<lparr>ra_messageLength := ae_messageLength (env t), ra_numSent := ra_numSent a + 1\<rparr>))" "msg_out a env t (ra_numSent a) (t, out)"
    using processSend_ready[of a env d t] by blast
  then show ?case using 0 by (simp add: send_run_def next_event_def app_after_def app_ready_def)
next
  case (Suc n)
  define b where "b = a\<lparr>ra_messageLength := ae_messageLength (env t), ra_numSent := ra_numSent a + 1\<rparr>"
  obtain out where out: "rdmaApp_processSend (env t) a = Inr (out, next_event t d b)" "msg_out a env t (ra_numSent a) (t, out)"
    using processSend_ready[OF Suc.prems(1-4)] Suc.prems(5) unfolding b_def by blast
  let ?c = "b\<lparr>ra_selfMsg := SEND\<rparr>"
  have c: "app_ready ?c" "ra_timer ?c = None" "ra_stopTime ?c < 0" "ra_numSent ?c = ra_numSent a + 1"
    "ra_packetName ?c = ra_packetName a" "app_after a 1 ?c"
    using Suc.prems(1,4,5) by (simp_all add: b_def app_ready_def app_after_def)
  obtain outs a' where ih: "send_run env n (t + d) ?c = Inr (outs, a')" "length outs = Suc n"
    "\<forall>i \<le> n. msg_out ?c env (t + d + int i * d) (ra_numSent ?c + int i) (outs ! i)" "app_after ?c (Suc n) a'"
    "ra_timer a' = Some (t + d + int (Suc n) * d)"
    using Suc.IH[OF c(1) Suc.prems(2,3) c(2,3)] by blast
  have nx: "next_event t d b = ?c\<lparr>ra_timer := Some (t + d)\<rparr>" using c(3) by (simp add: next_event_def)
  have "(next_event t d b)\<lparr>ra_timer := None\<rparr> = ?c" unfolding nx using c(2) by simp
  then have "rdmaApp_run env (Suc n) (next_event t d b) = Inr (outs, a')"
    using run_SEND[of "next_event t d b" "t + d" env n] ih(1) unfolding nx by simp
  then have "send_run env (Suc n) t a = Inr ((t, out) # outs, a')" using out(1) by (simp add: send_run_def)
  moreover have "msg_out a env (t + int i * d) (ra_numSent a + int i) (((t, out) # outs) ! i)" if i: "i \<le> Suc n" for i
  proof (cases i)
    case 0
    then show ?thesis using out(2) by simp
  next
    case (Suc k)
    then have m: "msg_out ?c env (t + d + int k * d) (ra_numSent ?c + int k) (outs ! k)" using ih(3) i by simp
    have eqs: "t + d + int k * d = t + int i * d" "ra_numSent ?c + int k = ra_numSent a + int i"
      using Suc c(4) by (simp_all add: algebra_simps)
    show ?thesis using m unfolding eqs using Suc c(5) by (simp add: msg_out_def)
  qed
  moreover have "app_after a (Suc (Suc n)) a'" using ih(4) c(4,6) by (simp add: app_after_def)
  moreover have "ra_timer a' = Some (t + int (Suc (Suc n)) * d)" using ih(5) by (simp add: algebra_simps)
  ultimately show ?case using ih(2) by (intro exI[of _ "(t, out) # outs"] exI[of _ a']) simp
qed

text \<open>The start: the destinations, and the first message in the same event.\<close>

definition excluded :: "rdma_app_env \<Rightarrow> string \<Rightarrow> bool" where
  "excluded env tok \<longleftrightarrow> \<not> l3_isUnspecified (ae_tryResolve env tok) \<and> ae_excludeLocal env \<and> ae_isLocal env (ae_tryResolve env tok)"

lemma add_destinations_eq:
  "add_destinations env toks a = a\<lparr>ra_destAddressStr := ra_destAddressStr a @ toks,
     ra_destAddresses := ra_destAddresses a @ map (ae_tryResolve env) (filter (\<lambda>tok. \<not> excluded env tok) toks)\<rparr>"
  by (induction env toks a rule: add_destinations.induct) (simp_all add: Let_def excluded_def)

text \<open>The application before it is started.\<close>

definition app_initial :: "rdma_app \<Rightarrow> bool" where
  "app_initial a \<longleftrightarrow> ra_destAddresses a = [] \<and> ra_destAddressStr a = [] \<and> ra_timer a = None \<and> ra_numSent a = 0"

lemma initialize_initial:
  assumes "stop < 0 \<or> start \<le> stop"
  shows "\<exists>a. rdmaApp_initialize l d start stop name f = Inr a \<and> app_initial a \<and> ra_startTime a = start \<and> ra_stopTime a = stop"
  using assms by (auto simp: rdmaApp_initialize_def app_initial_def)

definition destinations_ok :: "rdma_app_env \<Rightarrow> bool" where
  "destinations_ok env \<longleftrightarrow> (\<forall>tok \<in> set (ae_destAddresses env). usable (ae_tryResolve env tok)) \<and>
     (\<exists>tok \<in> set (ae_destAddresses env). \<not> excluded env tok)"

lemma start_run:
  assumes "app_initial a" "start = max (ra_startTime a) now" "ra_stopTime a < 0 \<or> start < ra_stopTime a" "destinations_ok (env start)"
  shows "\<exists>a0 b. rdmaApp_handleStartOperation now a = Inr a0 \<and> rdmaApp_run env (Suc k) a0 = send_run env k start b \<and>
    app_ready b \<and> ra_timer b = None \<and> ra_stopTime b = ra_stopTime a \<and> ra_numSent b = 0 \<and> ra_packetName b = ra_packetName a"
proof -
  let ?a0 = "a\<lparr>ra_selfMsg := START, ra_timer := Some start\<rparr>"
  let ?toks = "ae_destAddresses (env start)"
  let ?ds = "map (ae_tryResolve (env start)) (filter (\<lambda>tok. \<not> excluded (env start) tok) ?toks)"
  let ?b = "a\<lparr>ra_timer := None, ra_gateToRdma := True, ra_destAddressStr := ?toks, ra_destAddresses := ?ds, ra_selfMsg := SEND\<rparr>"
  have i: "ra_destAddresses a = []" "ra_destAddressStr a = []" "ra_timer a = None" "ra_numSent a = 0"
    using assms(1) by (simp_all add: app_initial_def)
  have st: "rdmaApp_handleStartOperation now a = Inr ?a0"
    using assms(2,3) i(3) by (auto simp: rdmaApp_handleStartOperation_def schedule_selfMsg_def Let_def)
  have ds: "?ds \<noteq> []" "\<forall>x \<in> set ?ds. usable x" using assms(4) by (auto simp: destinations_ok_def filter_empty_conv)
  have "rdmaApp_processStart (env start) (?a0\<lparr>ra_timer := None\<rparr>) = rdmaApp_processSend (env start) ?b"
    using ds(1) i(1-3) by (simp add: rdmaApp_processStart_def Let_def add_destinations_eq)
  then have "rdmaApp_run env (Suc k) ?a0 = send_run env k start ?b"
    by (simp add: rdmaApp_handleSelfMessage_def send_run_def)
  moreover have "app_ready ?b" using ds by (simp add: app_ready_def)
  ultimately show ?thesis using st i by (intro exI[of _ ?a0] exI[of _ ?b]) simp
qed

text \<open>
  The token of a local address that is left out is stored, so the tokens and the addresses do
  not match any more: an address that was not resolved at the start is looked up later by
  the name of the local one, and the application sends to itself.
\<close>

lemma rdma_app_sends_to_itself:
  assumes "app_initial a" "excluded env x" "\<not> excluded env y" "l3_isUnspecified (ae_tryResolve env y)" "ae_intrand env' 1 = 0"
  shows "\<exists>a'. chooseDestAddr env' (add_destinations env [x, y] a) = Inr (ae_tryResolve env' x, a')"
  using assms by (simp add: add_destinations_eq app_initial_def chooseDestAddr_def Let_def)

definition example_app_env :: "simtime \<Rightarrow> int \<Rightarrow> simtime \<Rightarrow> rdma_app_env" where
  "example_app_env d len t = \<lparr>ae_now = t, ae_parentName = ''host'', ae_messageLength = len, ae_sendInterval = d,
     ae_destAddresses = [''b''], ae_excludeLocal = True, ae_isLocal = (\<lambda>_. False),
     ae_tryResolve = (\<lambda>_. L3IPv4 0x0A000002), ae_intrand = (\<lambda>_. 0)\<rparr>"

lemma example_app_env_ok: "0 < len \<Longrightarrow> steady (example_app_env d len) d" "destinations_ok (example_app_env d len t)"
  by (simp_all add: steady_def destinations_ok_def example_app_env_def usable_def excluded_def ip_isUnspecified_def)

section \<open>Properties\<close>

text \<open>C26: started before its stop time, the application sends a message at its start time and
  one every \<open>sendInterval\<close> as long as the stop time is not reached, numbered from 0 and of
  the configured length, then the timer fires once more, at the stop time, and nothing is
  scheduled any more; no message is scheduled in the past.\<close>

theorem rdma_app_schedule:
  assumes "app_initial a" "steady env d" "0 < d" "start = max (ra_startTime a) now"
    and "0 \<le> ra_stopTime a" "start < ra_stopTime a" "destinations_ok (env start)"
    and "m = frag_count (nat d) (nat (ra_stopTime a - start))"
  shows "\<exists>a0 outs a'. rdmaApp_handleStartOperation now a = Inr a0 \<and>
    rdmaApp_run env (Suc m) a0 = Inr (outs @ [(ra_stopTime a, [])], a') \<and> length outs = m \<and>
    (\<forall>i < m. start + int i * d < ra_stopTime a \<and> msg_out a env (start + int i * d) (int i) (outs ! i)) \<and>
    ra_stopTime a \<le> start + int m * d \<and> ra_numSent a' = int m \<and> ra_timer a' = None"
proof -
  obtain a0 b where s: "rdmaApp_handleStartOperation now a = Inr a0" "rdmaApp_run env (Suc m) a0 = send_run env m start b"
    "app_ready b" "ra_timer b = None" "ra_stopTime b = ra_stopTime a" "ra_numSent b = 0" "ra_packetName b = ra_packetName a"
    using start_run[of a start now env m, OF assms(1,4) disjI2[OF assms(6)] assms(7)] by blast
  have b: "start < ra_stopTime b" "0 \<le> ra_stopTime b" "m = frag_count (nat d) (nat (ra_stopTime b - start))"
    using assms(5,6,8) s(5) by simp_all
  obtain outs a' where r: "send_run env m start b = Inr (outs @ [(ra_stopTime b, [])], a')" "length outs = m"
    "\<forall>i < m. msg_out b env (start + int i * d) (ra_numSent b + int i) (outs ! i)" "app_after b m a'" "ra_timer a' = None"
    using send_run_stops[OF s(3) assms(2,3) s(4) b] by blast
  have lt: "i < m \<longleftrightarrow> start + int i * d < ra_stopTime a" for i
  proof -
    have "i < m \<longleftrightarrow> nat d * i < nat (ra_stopTime a - start)" using frag_count_less[of "nat d" i] assms(3,8) by simp
    also have "\<dots> \<longleftrightarrow> int (nat d * i) < ra_stopTime a - start" using assms(6) by linarith
    also have "int (nat d * i) = int i * d" using assms(3) by simp
    finally show ?thesis by linarith
  qed
  show ?thesis
    using s(1,2,5-7) r lt lt[of m] by (intro exI[of _ a0] exI[of _ outs] exI[of _ a']) (simp add: msg_out_def app_after_def)
qed

theorem rdma_app_schedule_witness:
  "\<exists>a a0 outs a'. rdmaApp_initialize 1000 2000 10 35 ''m'' False = Inr a \<and> rdmaApp_handleStartOperation 0 a = Inr a0 \<and>
    rdmaApp_run (example_app_env 10 5000) 4 a0 = Inr (outs @ [(35, [])], a') \<and> length outs = 3 \<and> ra_numSent a' = 3"
proof -
  obtain a where a: "rdmaApp_initialize 1000 2000 10 35 ''m'' False = Inr a" "app_initial a" "ra_startTime a = 10" "ra_stopTime a = 35"
    using initialize_initial[of 35 10 1000 2000 "''m''" False] by auto
  have t: "10 = max (ra_startTime a) 0" "0 \<le> ra_stopTime a" "10 < ra_stopTime a" using a(3,4) by simp_all
  have m: "3 = frag_count (nat 10) (nat (ra_stopTime a - 10))" using a(4) by (simp add: frag_count_def)
  have e: "steady (example_app_env 10 5000) 10" "destinations_ok (example_app_env 10 5000 10)" by (simp_all add: example_app_env_ok)
  have "(0::simtime) < 10" by simp
  from rdma_app_schedule[OF a(2) e(1) this t e(2) m] show ?thesis using a(1,4) by auto
qed

text \<open>C29: without a stop time the application never stops: after any number of events of its
  timer it has sent that many messages, one every \<open>sendInterval\<close>, and the next is scheduled.\<close>

theorem rdma_app_keeps_sending:
  assumes "app_initial a" "steady env d" "0 < d" "start = max (ra_startTime a) now"
    and "ra_stopTime a < 0" "destinations_ok (env start)"
  shows "\<exists>a0 outs a'. rdmaApp_handleStartOperation now a = Inr a0 \<and> rdmaApp_run env (Suc n) a0 = Inr (outs, a') \<and>
    length outs = Suc n \<and> (\<forall>i \<le> n. msg_out a env (start + int i * d) (int i) (outs ! i)) \<and>
    ra_numSent a' = int (Suc n) \<and> ra_timer a' = Some (start + int (Suc n) * d)"
proof -
  obtain a0 b where s: "rdmaApp_handleStartOperation now a = Inr a0" "rdmaApp_run env (Suc n) a0 = send_run env n start b"
    "app_ready b" "ra_timer b = None" "ra_stopTime b = ra_stopTime a" "ra_numSent b = 0" "ra_packetName b = ra_packetName a"
    using start_run[of a start now env n, OF assms(1,4) disjI1[OF assms(5)] assms(6)] by blast
  have b: "ra_stopTime b < 0" using assms(5) s(5) by simp
  from send_run_forever[OF s(3) assms(2,3) s(4) b] obtain outs a' where r: "send_run env n start b = Inr (outs, a')" "length outs = Suc n"
    "\<forall>i \<le> n. msg_out b env (start + int i * d) (ra_numSent b + int i) (outs ! i)" "app_after b (Suc n) a'"
    "ra_timer a' = Some (start + int (Suc n) * d)" by blast
  then show ?thesis using s(1,2,6,7) by (intro exI[of _ a0] exI[of _ outs] exI[of _ a']) (simp add: msg_out_def app_after_def)
qed

theorem rdma_app_keeps_sending_witness:
  "\<exists>a a0 outs a'. rdmaApp_initialize 1000 2000 10 (-1) ''m'' False = Inr a \<and> rdmaApp_handleStartOperation 0 a = Inr a0 \<and>
    rdmaApp_run (example_app_env 10 5000) 7 a0 = Inr (outs, a') \<and> length outs = 7 \<and> ra_timer a' = Some 80"
proof -
  obtain a where a: "rdmaApp_initialize 1000 2000 10 (-1) ''m'' False = Inr a" "app_initial a" "ra_startTime a = 10" "ra_stopTime a = -1"
    using initialize_initial[of "-1" 10 1000 2000 "''m''" False] by auto
  have t: "10 = max (ra_startTime a) 0" "ra_stopTime a < 0" using a(3,4) by simp_all
  have e: "steady (example_app_env 10 5000) 10" "destinations_ok (example_app_env 10 5000 10)" by (simp_all add: example_app_env_ok)
  have "(0::simtime) < 10" by simp
  from rdma_app_keeps_sending[OF a(2) e(1) this t e(2), of 6] show ?thesis using a(1) by auto
qed

end
