(* ===== verification/Ipv4_Path.thy ===== *)
theory Ipv4_Path
  imports Ipv4_Input
begin

text \<open>
  The two ends of the IPv4 layer together: the fragments that \<open>fragmentAndSend\<close> of one node
  produces, delivered in any order to \<open>reassembleAndDeliver\<close> of another, give the payload back
  to the transport protocol there.
\<close>

section \<open>The receiver\<close>

fun ip_deliver_all :: "ip_env \<Rightarrow> packet list \<Rightarrow> ipv4_state \<Rightarrow> ipv4_state res" where
  "ip_deliver_all env [] s = Inr s"
| "ip_deliver_all env (p # ps) s = bindE (ip_reassembleAndDeliver env p s) (ip_deliver_all env ps)"

definition is_fragment :: "packet \<Rightarrow> bool" where
  "is_fragment p \<longleftrightarrow> (\<exists>h. peekAtFront as_ipv4 p = Inr h \<and> (ih_fragmentOffset h \<noteq> 0 \<or> ih_moreFragments h))"

lemma ip_reassemble_fragment:
  assumes "is_fragment p" "en_now env < is_lastCheckTime s + 10 * en_second env"
    and "ipv4_addFragment p (en_now env) (is_fragbuf s) = Inr (x, bufs)"
  shows "ip_reassembleAndDeliver env p s = (case x of None \<Rightarrow> Inr (s\<lparr>is_fragbuf := bufs\<rparr>) | Some q \<Rightarrow> ip_completed env q (s\<lparr>is_fragbuf := bufs\<rparr>))"
  using assms by (auto simp: ip_reassembleAndDeliver_def is_fragment_def ip_purgeStale_def Let_def)

lemma ip_deliver_fragments:
  assumes "rs \<noteq> []" "\<forall>p \<in> set rs. is_fragment p" "en_now env < is_lastCheckTime s + 10 * en_second env"
    and "add_all ipv4_addFragment (map (\<lambda>p. (p, en_now env)) rs) (is_fragbuf s)
      = Inr (replicate (length rs - 1) None @ [Some q], bufs)"
  shows "ip_deliver_all env rs s = ip_completed env q (s\<lparr>is_fragbuf := bufs\<rparr>)"
  using assms
proof (induction rs arbitrary: s)
  case (Cons p rs)
  obtain x b xs where step: "ipv4_addFragment p (en_now env) (is_fragbuf s) = Inr (x, b)"
    "add_all ipv4_addFragment (map (\<lambda>p. (p, en_now env)) rs) b = Inr (xs, bufs)"
    "x # xs = replicate (length rs) None @ [Some q]"
    using Cons.prems(4) by (auto simp: bindE_eq_Inr)
  have p: "is_fragment p" using Cons.prems(2) by simp
  note run = ip_reassemble_fragment[OF p Cons.prems(3) step(1)]
  show ?case
  proof (cases rs)
    case Nil
    then show ?thesis using run step by (cases "ip_completed env q (s\<lparr>is_fragbuf := bufs\<rparr>)") auto
  next
    case (Cons r rs')
    then have x: "x = None" "xs = replicate (length rs - 1) None @ [Some q]" using step(3) by simp_all
    have "ip_deliver_all env rs (s\<lparr>is_fragbuf := b\<rparr>) = ip_completed env q ((s\<lparr>is_fragbuf := b\<rparr>)\<lparr>is_fragbuf := bufs\<rparr>)"
      by (rule Cons.IH) (use Cons Cons.prems(2,3) step(2) x in simp_all)
    then show ?thesis using run x(1) by simp
  qed
qed simp

text \<open>The complete datagram goes up to its protocol with its payload.\<close>

lemma ip_completed_delivers:
  assumes "packet_ok q" "pk_data q = header_cells (Ipv4H h) @ d" "ih_crcMode h = en_crcMode env"
    and "ih_headerLength h = int (header_length (Ipv4H h))" "ih_headerLength h mod 4 = 0" "ih_headerLength h \<le> 60"
    and "ih_headerLength h \<le> ih_totalLength h" "ih_fragmentOffset h = 0"
    and "getProtocol ipprotocol (ih_protocolId h) = Inr prot" "prot \<in> set (en_upperProtocols env)"
    and "\<not> en_upperBusy env" "is_queueToUpper s = []" "en_hooks env = []"
  shows "\<exists>x s'. ip_completed env q s = Inr s' \<and> pk_data x = d \<and>
    t_l3AddressInd (pk_tags x) = Some (L3IPv4 (ih_srcAddress h), L3IPv4 (ih_destAddress h)) \<and>
    is_out s' = is_out s @ map (\<lambda>sd. TransportOut (to_socket x sd)) (ip_receivers h prot s) @ [TransportOut x, RescheduleEndUpper]"
proof -
  have peek: "peekAtFront as_ipv4 q = Inr h" using assms(2) by (intro peekAtFront_header) auto
  obtain p c where p: "(if ih_crcMode h = CRC_COMPUTED then
             bindE (removeNetworkProtocolHeader q) (\<lambda>(h, p).
             bindE (ip_setComputedCrc env h) (\<lambda>h. insertNetworkProtocolHeader h p))
           else Inr q) = Inr p" "packet_ok p" "pk_data p = header_cells (Ipv4H (h\<lparr>ih_crc := c\<rparr>)) @ d"
  proof (cases "ih_crcMode h = CRC_COMPUTED")
    case True
    obtain q1 where q1: "removeNetworkProtocolHeader q = Inr (h, q1)" "packet_ok q1" "pk_data q1 = d"
      using removeNetworkProtocolHeader_ok[OF assms(1,2)] by blast
    obtain bytes where b: "ipv4_serialize (h\<lparr>ih_crc := 0\<rparr>) = Inr bytes"
      using ipv4_serialize_total[of "h\<lparr>ih_crc := 0\<rparr>"] assms(4-8) True by auto
    obtain f where f: "insertNetworkProtocolHeader (h\<lparr>ih_crc := tcpip_checksum bytes\<rparr>) q1 = Inr f" "packet_ok f"
      "pk_data f = header_cells (Ipv4H (h\<lparr>ih_crc := tcpip_checksum bytes\<rparr>)) @ pk_data q1"
      using insertNetworkProtocolHeader_ok[OF q1(2)] by blast
    show ?thesis using that[of f "tcpip_checksum bytes"] True q1 f b assms(3) by (simp add: ip_setComputedCrc_def)
  next
    case False
    have "h\<lparr>ih_crc := ih_crc h\<rparr> = h" by simp
    then show ?thesis using that[of q "ih_crc h"] False assms(1,2) by simp
  qed
  let ?h = "h\<lparr>ih_crc := c\<rparr>"
  let ?s = "s\<lparr>is_packetToUpper := Some p\<rparr>"
  have n: "getProtocol ipprotocol (ih_protocolId ?h) = Inr prot" using assms(9) by simp
  have pp: "peekAtFront as_ipv4 p = Inr ?h" using p(3) by (intro peekAtFront_header) auto
  note dec = ip_decapsulate_ok[OF p(2,3) n]
  have r: "ip_receivers ?h prot ?s = ip_receivers h prot s" by (simp add: ip_receivers_def)
  have "ip_completed env q s = ip_queueToUpperLayer env p s" unfolding ip_completed_def peek bindE_simps p(1) by simp
  also have "\<dots> = ip_reassembleAndDeliverFinish env p ?s"
    using assms(11-13) run_datagramHook_none[OF assms(13)] by (simp add: ip_queueToUpperLayer_def datagramLocalInHook_def)
  also have "\<dots> = Inr (?s\<lparr>is_out := is_out s @ map (\<lambda>sd. TransportOut (to_socket (decapsulated ?h prot p) sd)) (ip_receivers h prot s)
      @ [TransportOut (decapsulated ?h prot p), RescheduleEndUpper], is_numLocalDeliver := is_numLocalDeliver s + 1\<rparr>)"
    unfolding ip_reassembleAndDeliverFinish_def pp dec(1) n Let_def bindE_simps ip_receivers_def[symmetric] fold_emit r
    using assms(10) by (simp add: emit_out_def)
  finally show ?thesis using dec(2)
    by (intro exI[of _ "decapsulated ?h prot p"]) (simp add: decapsulated_def)
qed

section \<open>The fragments on the way\<close>

text \<open>A fragment of the sender is a fragment in the sense of the reassembly buffer.\<close>

lemma ip_fragment_is_ipv4_fragment:
  assumes "is_ip_fragment h F d j q" "0 < F" "F * j < length d" "length d \<le> 65535"
    and "ih_fragmentOffset h = 0" "\<not> ih_moreFragments h" "pk_data p = pk_data q"
  shows "ipv4_fragment h d (frag_cut F (length d) j) p"
proof -
  let ?n = "min F (length d - F * j)"
  obtain c where c: "pk_data p = header_cells (Ipv4H ((frag_header h F (length d) j)\<lparr>ih_crc := c\<rparr>)) @ peek_at (F * j) ?n d"
    using assms(1,7) by (auto simp: is_ip_fragment_def)
  have more: "(if F * j + F \<ge> length d then ih_moreFragments h else True) = (int (F * j) + int ?n < int (length d))"
    using assms(3,6) by (auto simp del: of_nat_mult simp flip: of_nat_add)
  have off: "(ih_fragmentOffset h + int (F * j)) mod 65536 = int (F * j)"
    using assms(3-5) by (simp del: of_nat_mult)
  have "(frag_header h F (length d) j)\<lparr>ih_crc := c\<rparr> = h\<lparr>ih_totalLength := ih_headerLength h + int ?n, ih_crc := c,
       ih_fragmentOffset := int (F * j), ih_moreFragments := (int (F * j) + int ?n < int (length d))\<rparr>"
    unfolding frag_header_def more off by simp
  then show ?thesis using c assms(2,3)
    by (auto simp: ipv4_fragment_def frag_cut_def cut_ok_def simp del: of_nat_mult of_nat_min)
qed

lemma frag_is_fragment:
  assumes "ipv4_fragment h d (frag_cut F (length d) j) p" "ih_headerLength h = int (header_length (Ipv4H h))"
    and "F < length d" "0 < F"
  shows "is_fragment p"
proof -
  obtain crc where "peekAtFront as_ipv4 p = Inr (h\<lparr>ih_totalLength := ih_headerLength h + int (snd (frag_cut F (length d) j)), ih_crc := crc,
       ih_fragmentOffset := fst (frag_cut F (length d) j),
       ih_moreFragments := (fst (frag_cut F (length d) j) + int (snd (frag_cut F (length d) j)) < int (length d))\<rparr>)"
    using ipv4_fragment_of(1)[OF assms(1,2)] by blast
  then show ?thesis using assms(3,4) by (cases j) (auto simp: is_fragment_def frag_cut_def)
qed

lemma ip_fragments_delivered:
  assumes "ip_fragmentable env h d ie p" "ih_fragmentOffset h = 0" "\<not> ih_moreFragments h" "length d \<le> 65535"
    and "length qs = frag_count F (length d)" "\<forall>j < length qs. is_ip_fragment h F d j (qs ! j)" "F = ip_pieceLength h ie"
    and "distinct js" "set js = {..<length qs}" "length rs = length js"
    and "\<forall>k < length js. pk_data (rs ! k) = pk_data (qs ! (js ! k))"
    and "en_crcMode env' = en_crcMode env" "\<not> en_upperBusy env'" "en_hooks env' = []" "is_queueToUpper r = []"
    and "map_ok (is_fragbuf r)" "map_of (is_fragbuf r) (Ipv4Key (ih_identification h) (ih_srcAddress h) (ih_destAddress h)) = None"
    and "en_now env' < is_lastCheckTime r + 10 * en_second env'"
    and "getProtocol ipprotocol (ih_protocolId h) = Inr prot" "prot \<in> set (en_upperProtocols env')"
  shows "\<exists>x r'. ip_deliver_all env' rs r = Inr r' \<and> pk_data x = d \<and>
    is_out r' = is_out r @ map (\<lambda>sd. TransportOut (to_socket x sd)) (ip_receivers h prot r) @ [TransportOut x, RescheduleEndUpper]"
proof -
  have F: "0 < F" "ih_headerLength h + int F \<le> ie_mtu ie" using ip_pieceLength_ok(1,4)[OF assms(1)] assms(7) by simp_all
  have dg: "ih_headerLength h = int (header_length (Ipv4H h))" "ih_headerLength h mod 4 = 0" "ih_headerLength h \<le> 60"
    "ih_crcMode h = en_crcMode env" using assms(1) unfolding ip_fragmentable_def ip_datagram_def by blast+
  have "ie_mtu ie < ih_headerLength h + int (length d)" using assms(1) by (simp add: ip_fragmentable_def)
  then have Fd: "F < length d" using F(2) by linarith
  have sj: "set js = {..<frag_count F (length d)}" using assms(5,9) by simp
  let ?cs = "map (frag_cut F (length d)) js"
  let ?ps = "map (\<lambda>p. (p, en_now env')) rs"
  have fr: "ipv4_fragment h d (?cs ! k) (rs ! k)" if k: "k < length js" for k
  proof -
    have "js ! k \<in> {..<length qs}" using k assms(9) nth_mem by blast
    then have j: "js ! k < length qs" by simp
    then have "F * (js ! k) < length d" using assms(5) frag_count_less[OF F(1)] by simp
    then show ?thesis
      using ip_fragment_is_ipv4_fragment[of h F d "js ! k" "qs ! (js ! k)" "rs ! k"] assms(2-4,6,11) F(1) j k by simp
  qed
  have dn: "d \<noteq> []" using Fd by (cases d) simp_all
  then have "0 < frag_count F (length d)" unfolding frag_count_less[OF F(1)] by simp
  then have "0 \<in> set js" unfolding sj by simp
  then have "rs \<noteq> []" using assms(10) by auto
  note ne = this dn
  have pl: "?ps \<noteq> []" "length ?cs = length ?ps" using ne(1) assms(10) by simp_all
  have fr': "\<forall>k < length ?ps. ipv4_fragment h d (?cs ! k) (fst (?ps ! k))" using fr assms(10) by simp
  have "0 < length d" using dn by simp
  note cov = frag_cuts_cover[OF F(1) assms(8) sj this refl]
  have fs: "\<forall>p \<in> set rs. is_fragment p"
    using fr frag_is_fragment[OF _ dg(1) Fd F(1)] assms(10) by (fastforce simp: in_set_conv_nth)
  obtain q crc bufs where q: "add_all ipv4_addFragment ?ps (is_fragbuf r) = Inr (replicate (length ?ps - 1) None @ [Some q], bufs)"
    "packet_ok q" "pk_data q = header_cells (Ipv4H (h\<lparr>ih_totalLength := ih_headerLength h + int (length d), ih_crc := crc,
       ih_fragmentOffset := 0, ih_moreFragments := False\<rparr>)) @ d"
    using ipv4_reassembly_run[OF ne(2) assms(16) pl dg(1) assms(17) fr' cov] by blast
  let ?h = "h\<lparr>ih_totalLength := ih_headerLength h + int (length d), ih_crc := crc, ih_fragmentOffset := 0, ih_moreFragments := False\<rparr>"
  have run: "ip_deliver_all env' rs r = ip_completed env' q (r\<lparr>is_fragbuf := bufs\<rparr>)"
    by (rule ip_deliver_fragments[OF ne(1) fs assms(18)]) (use q(1) in simp)
  have "header_length (Ipv4H ?h) = header_length (Ipv4H h)" by simp
  then have hh: "ih_crcMode ?h = en_crcMode env'" "ih_headerLength ?h = int (header_length (Ipv4H ?h))" "ih_headerLength ?h mod 4 = 0"
    "ih_headerLength ?h \<le> 60" "ih_headerLength ?h \<le> ih_totalLength ?h" "ih_fragmentOffset ?h = 0"
    "getProtocol ipprotocol (ih_protocolId ?h) = Inr prot" "is_queueToUpper (r\<lparr>is_fragbuf := bufs\<rparr>) = []"
    using dg assms(12,15,19) by simp_all
  have rc: "ip_receivers ?h prot (r\<lparr>is_fragbuf := bufs\<rparr>) = ip_receivers h prot r" by (simp add: ip_receivers_def)
  obtain x r' where "ip_completed env' q (r\<lparr>is_fragbuf := bufs\<rparr>) = Inr r'" "pk_data x = d"
    "is_out r' = is_out (r\<lparr>is_fragbuf := bufs\<rparr>) @ map (\<lambda>sd. TransportOut (to_socket x sd)) (ip_receivers h prot r) @ [TransportOut x, RescheduleEndUpper]"
    using ip_completed_delivers[OF q(2,3) hh(1-7) assms(20,13) hh(8) assms(14)] unfolding rc by blast
  then show ?thesis using run by auto
qed

section \<open>Properties\<close>

text \<open>C3: a datagram that is fragmented by the RDMA variant on one node and whose fragments arrive
  at another in any order is delivered there once, to the sockets and the transport
  protocol, with the payload that was sent.\<close>

theorem ipv4_end_to_end:
  assumes "ip_fragmentable env h d ie p" "is_isRdma s" "\<not> en_txChannel env" "is_offset s = 0"
    and "nextHop_ready env (ip_with_nextHop h p) s" "ih_fragmentOffset h = 0" "\<not> ih_moreFragments h" "length d \<le> 65535"
    and "en_crcMode env' = en_crcMode env" "\<not> en_upperBusy env'" "en_hooks env' = []" "is_queueToUpper r = []"
    and "map_ok (is_fragbuf r)" "map_of (is_fragbuf r) (Ipv4Key (ih_identification h) (ih_srcAddress h) (ih_destAddress h)) = None"
    and "en_now env' < is_lastCheckTime r + 10 * en_second env'"
    and "getProtocol ipprotocol (ih_protocolId h) = Inr prot" "prot \<in> set (en_upperProtocols env')"
  shows "\<exists>qs s'. ip_fragmentAndSend env shared p s = Inr s' \<and> is_out s' = is_out s @ map QueueOut qs \<and>
    length qs = frag_count (ip_pieceLength h ie) (length d) \<and>
    (\<forall>js rs. distinct js \<and> set js = {..<length qs} \<and> length rs = length js \<and>
       (\<forall>k < length js. pk_data (rs ! k) = pk_data (qs ! (js ! k))) \<longrightarrow>
       (\<exists>x r'. ip_deliver_all env' rs r = Inr r' \<and> pk_data x = d \<and>
          is_out r' = is_out r @ map (\<lambda>sd. TransportOut (to_socket x sd)) (ip_receivers h prot r) @ [TransportOut x, RescheduleEndUpper]))"
proof -
  obtain qs s' where q: "ip_fragmentAndSend env shared p s = Inr s'" "is_out s' = is_out s @ map QueueOut qs"
    "length qs = frag_count (ip_pieceLength h ie) (length d)"
    "\<forall>j < length qs. is_ip_fragment h (ip_pieceLength h ie) d j (qs ! j)"
    using ip_rdma_fragments_sent[OF assms(1-5), of shared] by blast
  show ?thesis
    using q(1-3) ip_fragments_delivered[OF assms(1,6-8) q(3,4) refl _ _ _ _ assms(9-17)]
    by (intro exI[of _ qs] exI[of _ s']) blast
qed

theorem ipv4_end_to_end_witness:
  "\<exists>qs s'. ip_fragmentAndSend (example_env CRC_COMPUTED False 100) True (example_datagram CRC_COMPUTED 200)
      ((ipv4_init (new_routing_table True False False))\<lparr>is_isRdma := True\<rparr>) = Inr s' \<and> is_out s' = map QueueOut qs \<and>
    length qs = 3 \<and> (\<exists>x r'. ip_deliver_all (example_env CRC_COMPUTED True 1500) [qs ! 2, qs ! 0, qs ! 1]
       (ipv4_init (new_routing_table False False False)) = Inr r' \<and>
     pk_data x = replicate 200 (Data 7) \<and> is_out r' = [TransportOut x, RescheduleEndUpper])"
proof -
  let ?h = "example_ipv4_header\<lparr>ih_crcMode := CRC_COMPUTED, ih_totalLength := 20 + int 200\<rparr>"
  let ?ie = "hd (en_ift (example_env CRC_COMPUTED False 100))"
  let ?s = "(ipv4_init (new_routing_table True False False))\<lparr>is_isRdma := True\<rparr>"
  let ?r = "ipv4_init (new_routing_table False False False)"
  let ?e = "example_env CRC_COMPUTED False 100" and ?e' = "example_env CRC_COMPUTED True 1500"
  have f: "ip_fragmentable ?e ?h (replicate 200 (Data 7)) ?ie (example_datagram CRC_COMPUTED 200)"
    by (rule example_fragmentable) simp_all
  have n: "getProtocol ipprotocol (ih_protocolId ?h) = Inr P_udp"
    by (simp add: getProtocol_def findProtocol_def ipprotocol_def example_ipv4_header_def)
  have rc: "ip_receivers ?h P_udp ?r = []" by (simp add: ip_receivers_def ipv4_init_def)
  have ih: "ih_fragmentOffset ?h = 0" "\<not> ih_moreFragments ?h" by (simp_all add: example_ipv4_header_def)
  have st: "is_isRdma ?s" "is_offset ?s = 0" "is_out ?s = []" "is_out ?r = []" "is_queueToUpper ?r = []" "map_ok (is_fragbuf ?r)"
    "map_of (is_fragbuf ?r) k = None" for k
    by (simp_all add: ipv4_init_def map_ok_def)
  have en: "\<not> en_txChannel ?e" "en_crcMode ?e' = en_crcMode ?e" "\<not> en_upperBusy ?e'" "en_hooks ?e' = []"
    "en_now ?e' < is_lastCheckTime ?r + 10 * en_second ?e'" "P_udp \<in> set (en_upperProtocols ?e')" "length (replicate 200 (Data 7)) \<le> 65535"
    by (simp_all add: example_env_def ipv4_init_def)
  obtain qs s' where q: "ip_fragmentAndSend ?e True (example_datagram CRC_COMPUTED 200) ?s = Inr s'" "is_out s' = is_out ?s @ map QueueOut qs"
    "length qs = frag_count (ip_pieceLength ?h ?ie) (length (replicate 200 (Data 7)))"
    "\<forall>js rs. distinct js \<and> set js = {..<length qs} \<and> length rs = length js \<and>
       (\<forall>k < length js. pk_data (rs ! k) = pk_data (qs ! (js ! k))) \<longrightarrow>
       (\<exists>x r'. ip_deliver_all ?e' rs ?r = Inr r' \<and> pk_data x = replicate 200 (Data 7) \<and>
          is_out r' = is_out ?r @ map (\<lambda>sd. TransportOut (to_socket x sd)) (ip_receivers ?h P_udp ?r) @ [TransportOut x, RescheduleEndUpper])"
    using ipv4_end_to_end[OF f st(1) en(1) st(2) example_ready ih en(7,2,3,4) st(5,6,7) en(5) n en(6), of True] by blast
  have "ip_pieceLength ?h ?ie = 80" by (simp add: ip_pieceLength_def example_ipv4_header_def example_env_def)
  then have n3: "length qs = 3" using q(3) by (simp add: frag_count_def)
  have "\<exists>x r'. ip_deliver_all ?e' [qs ! 2, qs ! 0, qs ! 1] ?r = Inr r' \<and> pk_data x = replicate 200 (Data 7) \<and>
      is_out r' = [TransportOut x, RescheduleEndUpper]"
    using q(4)[rule_format, of "[2, 0, 1]" "[qs ! 2, qs ! 0, qs ! 1]"] n3 st(4) rc
    by (fastforce simp: less_Suc_eq numeral_3_eq_3 lessThan_Suc)
  then show ?thesis using q(1,2) st(3) n3 by auto
qed

end
