(* ===== verification/Rdma_Delivery.thy ===== *)
theory Rdma_Delivery
  imports Rdma_App Ipv4_Path
begin

text \<open>
  The way of a message from one RDMA application to another: the sending application, the RDMA
  module that cuts it, IPv4 datagrams that may be fragmented again and arrive in any order,
  and the two reassembly stages of the receiving application.
\<close>

section \<open>The two stages of the reception\<close>

lemma add_all_cong_fun:
  "\<forall>x \<in> set ps. \<forall>m. add1 (fst x) (snd x) m = add2 (fst x) (snd x) m \<Longrightarrow> add_all add1 ps m = add_all add2 ps m"
proof (induction ps arbitrary: m)
  case (Cons x ps)
  then have "\<And>m. add_all add1 ps m = add_all add2 ps m" "\<And>m. add1 (fst x) (snd x) m = add2 (fst x) (snd x) m" by simp_all
  then show ?case by (cases x) simp
qed simp

text \<open>Every piece of an even cut arrives, each once.\<close>

definition all_pieces :: "nat \<Rightarrow> nat \<Rightarrow> nat list \<Rightarrow> bool" where
  "all_pieces F N js \<longleftrightarrow> distinct js \<and> set js = {..<frag_count F N}"

lemma frag_count_one: "0 < N \<Longrightarrow> N \<le> F \<Longrightarrow> frag_count F N = 1"
  using frag_count_less[of F 0 N] frag_count_less[of F 1 N] by simp

lemma all_pieces_one: "all_pieces F N js \<Longrightarrow> 0 < N \<Longrightarrow> N \<le> F \<Longrightarrow> js = [0]"
proof -
  assume a: "all_pieces F N js" "0 < N" "N \<le> F"
  then have "{..<frag_count F N} = {0}" unfolding frag_count_one[OF a(2,3)] by (simp add: lessThan_Suc)
  then have "set js = {0}" "distinct js" using a(1) by (simp_all add: all_pieces_def)
  moreover from this have "length js = 1" using distinct_card[of js] by simp
  then obtain x where "js = [x]" by (auto simp: length_Suc_conv)
  ultimately show "js = [0]" by simp
qed

lemma all_pieces_nonempty:
  assumes "all_pieces F N js" "0 < F" "0 < N"
  shows "js \<noteq> []"
proof -
  have "0 < frag_count F N" unfolding frag_count_less[OF assms(2)] using assms(3) by simp
  then have "0 \<in> set js" using assms(1) unfolding all_pieces_def by simp
  then show ?thesis by auto
qed

lemma all_pieces_zero: "all_pieces F N js \<Longrightarrow> k < length js \<Longrightarrow> js ! k = 0 \<Longrightarrow> j < length js \<Longrightarrow> js ! j = 0 \<longleftrightarrow> j = k"
  using nth_eq_iff_index_eq[of js j k] by (auto simp: all_pieces_def)

lemma ip_stage_run:
  assumes "all_pieces F (length d) js" "0 < F" "d \<noteq> []" "map_ok bufs" "length ps = length js"
    and "ih_headerLength h = int (header_length (Ipv4H h))"
    and "map_of bufs (Ipv4Key (ih_identification h) (ih_srcAddress h) (ih_destAddress h)) = None"
    and "\<forall>k < length js. ipv4_fragment h d (frag_cut F (length d) (js ! k)) (fst (ps ! k)) \<and> packet_ok (fst (ps ! k))"
  shows "\<exists>q bufs' h' pad. add_all app_ip_stage ps bufs = Inr (replicate (length ps - 1) None @ [Some q], bufs') \<and>
    packet_ok q \<and> pk_data q = header_cells (Ipv4H h') @ d @ pad \<and> ih_protocolId h' = ih_protocolId h \<and>
    (\<forall>k < length js. js ! k = 0 \<longrightarrow> pk_creation q = pk_creation (fst (ps ! k)))"
proof (cases "length d \<le> F")
  case True
  then have js: "js = [0]" using all_pieces_one[OF assms(1)] assms(3) by simp
  obtain p t where ps: "ps = [(p, t)]" using assms(5) js by (cases ps) auto
  have f: "ipv4_fragment h d (frag_cut F (length d) 0) p" "packet_ok p" using assms(8) js ps by simp_all
  obtain crc where h: "peekAtFront as_ipv4 p = Inr (h\<lparr>ih_totalLength := ih_headerLength h + int (snd (frag_cut F (length d) 0)), ih_crc := crc,
       ih_fragmentOffset := fst (frag_cut F (length d) 0),
       ih_moreFragments := (fst (frag_cut F (length d) 0) + int (snd (frag_cut F (length d) 0)) < int (length d))\<rparr>)"
    using ipv4_fragment_of(1)[OF f(1) assms(6)] by blast
  have "peek_at 0 (length d) d = d" by (simp add: peek_at_def)
  then obtain h' pad where "pk_data p = header_cells (Ipv4H h') @ d @ pad" "ih_protocolId h' = ih_protocolId h"
    using f(1) True by (auto simp: ipv4_fragment_def frag_cut_def)
  then show ?thesis using h f(2) True js ps by (auto simp: app_ip_stage_def frag_cut_def)
next
  case False
  then have Fd: "F < length d" by simp
  let ?cs = "map (frag_cut F (length d)) js"
  have d0: "0 < length d" using assms(3) by simp
  have ne: "ps \<noteq> []" using all_pieces_nonempty[OF assms(1,2) d0] assms(5) by auto
  have fr: "\<forall>k < length ps. ipv4_fragment h d (?cs ! k) (fst (ps ! k))" using assms(5,8) by simp
  have len: "length ?cs = length ps" using assms(5) by simp
  have dj: "distinct js" "set js = {..<frag_count F (length d)}" using assms(1) by (simp_all add: all_pieces_def)
  have frag: "is_fragment (fst x)" if "x \<in> set ps" for x
    using that fr assms(5) frag_is_fragment[OF _ assms(6) Fd assms(2)] by (auto simp: in_set_conv_nth)
  have "add_all app_ip_stage ps bufs = add_all ipv4_addFragment ps bufs"
  proof (rule add_all_cong_fun, intro ballI allI)
    fix x m assume "x \<in> set ps"
    from frag[OF this] obtain h0 where "peekAtFront as_ipv4 (fst x) = Inr h0" "ih_fragmentOffset h0 \<noteq> 0 \<or> ih_moreFragments h0"
      unfolding is_fragment_def by blast
    then show "app_ip_stage (fst x) (snd x) m = ipv4_addFragment (fst x) (snd x) m" by (simp add: app_ip_stage_def)
  qed
  moreover obtain q crc bufs' where q: "add_all ipv4_addFragment ps bufs = Inr (replicate (length ps - 1) None @ [Some q], bufs')"
    "packet_ok q" "pk_data q = header_cells (Ipv4H (h\<lparr>ih_totalLength := ih_headerLength h + int (length d), ih_crc := crc,
       ih_fragmentOffset := 0, ih_moreFragments := False\<rparr>)) @ d"
    using ipv4_reassembly_run[OF assms(3,4) ne len assms(6,7) fr frag_cuts_cover[OF assms(2) dj d0 refl]] by blast
  moreover have "pk_creation q = pk_creation (fst (ps ! k))" if k: "k < length js" "js ! k = 0" for k
  proof (rule first_creation[OF assms(4) q(1)[unfolded ipv4_addFragment_def]])
    show "\<forall>j < length ps. fragment_of as_ipv4 ipv4_frag_info
        (Ipv4Key (ih_identification h) (ih_srcAddress h) (ih_destAddress h)) d (fst (ps ! j)) (cut_piece d (?cs ! j))"
      using ipv4_fragment_of(2)[OF _ assms(6)] fr by blast
    show "\<forall>j < length ps. fst (cut_piece d (?cs ! j)) = 0 \<longleftrightarrow> j = k"
      using all_pieces_zero[OF assms(1) k] assms(2,5) by (simp add: cut_piece_def frag_cut_def)
  qed (use k assms(5) in auto)
  ultimately show ?thesis by fastforce
qed

lemma rdma_stage_run:
  assumes "all_pieces F (length d) js" "0 < F" "d \<noteq> []" "map_ok bufs" "length ps = length js"
    and "F < length d \<Longrightarrow> map_of bufs (PortKey (rh_identification base) (uint (rh_srcPort base)) (uint (rh_destPort base))) = None"
    and "\<forall>k < length js. rdma_fragment base d (frag_cut F (length d) (js ! k)) (fst (ps ! k))"
  shows "\<exists>q bufs'. add_all app_rdma_stage ps bufs = Inr (replicate (length ps - 1) None @ [Some q], bufs') \<and>
    (if length d \<le> F then ps \<noteq> [] \<and> q = fst (hd ps)
     else \<exists>crc. pk_data q = header_cells (RdmaH (base\<lparr>rh_totalLength := 8 + int (length d), rh_crc := crc,
       rh_fragmentOffset := 0, rh_moreFragments := False, rh_identification := 0\<rparr>)) @ d) \<and>
    (\<forall>k < length js. js ! k = 0 \<longrightarrow> pk_creation q = pk_creation (fst (ps ! k)))"
proof (cases "length d \<le> F")
  case True
  then have js: "js = [0]" using all_pieces_one[OF assms(1)] assms(3) by simp
  obtain p t where ps: "ps = [(p, t)]" using assms(5) js by (cases ps) auto
  have f: "rdma_fragment base d (frag_cut F (length d) 0) p" using assms(7) js ps by simp
  obtain crc where h: "peekAtFront as_rdma p = Inr (base\<lparr>rh_totalLength := 8 + int (snd (frag_cut F (length d) 0)), rh_crc := crc,
       rh_fragmentOffset := fst (frag_cut F (length d) 0),
       rh_moreFragments := (fst (frag_cut F (length d) 0) + int (snd (frag_cut F (length d) 0)) < int (length d))\<rparr>)"
    using rdma_fragment_of(1)[OF f] by blast
  then show ?thesis using True js ps by (auto simp: app_rdma_stage_def frag_cut_def)
next
  case False
  then have Fd: "F < length d" by simp
  let ?cs = "map (frag_cut F (length d)) js"
  have d0: "0 < length d" using assms(3) by simp
  have ne: "ps \<noteq> []" using all_pieces_nonempty[OF assms(1,2) d0] assms(5) by auto
  have fr: "\<forall>k < length ps. rdma_fragment base d (?cs ! k) (fst (ps ! k))" using assms(5,7) by simp
  have len: "length ?cs = length ps" using assms(5) by simp
  have dj: "distinct js" "set js = {..<frag_count F (length d)}" using assms(1) by (simp_all add: all_pieces_def)
  have "add_all app_rdma_stage ps bufs = add_all rdma_addFragment ps bufs"
  proof (rule add_all_cong_fun, intro ballI allI)
    fix x m assume "x \<in> set ps"
    then obtain j where j: "j < length ps" "x = ps ! j" by (auto simp: in_set_conv_nth)
    obtain crc where "peekAtFront as_rdma (fst x) = Inr (base\<lparr>rh_totalLength := 8 + int (snd (?cs ! j)), rh_crc := crc,
       rh_fragmentOffset := fst (?cs ! j), rh_moreFragments := (fst (?cs ! j) + int (snd (?cs ! j)) < int (length d))\<rparr>)"
      using rdma_fragment_of(1)[OF fr[rule_format, OF j(1)]] j(2) by blast
    moreover have "fst (?cs ! j) \<noteq> 0 \<or> fst (?cs ! j) + int (snd (?cs ! j)) < int (length d)"
      using j(1) assms(2,5) Fd by (cases "js ! j") (auto simp: frag_cut_def)
    ultimately show "app_rdma_stage (fst x) (snd x) m = rdma_addFragment (fst x) (snd x) m" by (simp add: app_rdma_stage_def)
  qed
  moreover obtain q crc bufs' where q: "add_all rdma_addFragment ps bufs = Inr (replicate (length ps - 1) None @ [Some q], bufs')"
    "pk_data q = header_cells (RdmaH (base\<lparr>rh_totalLength := 8 + int (length d), rh_crc := crc,
       rh_fragmentOffset := 0, rh_moreFragments := False, rh_identification := 0\<rparr>)) @ d"
    using rdma_reassembly_run[OF assms(3,4) ne len assms(6)[OF Fd] fr frag_cuts_cover[OF assms(2) dj d0 refl]] by blast
  moreover have "pk_creation q = pk_creation (fst (ps ! k))" if k: "k < length js" "js ! k = 0" for k
  proof (rule first_creation[OF assms(4) q(1)[unfolded rdma_addFragment_def]])
    show "\<forall>j < length ps. fragment_of as_rdma rdma_frag_info
        (PortKey (rh_identification base) (uint (rh_srcPort base)) (uint (rh_destPort base))) d (fst (ps ! j)) (cut_piece d (?cs ! j))"
      using rdma_fragment_of(2) fr by blast
    show "\<forall>j < length ps. fst (cut_piece d (?cs ! j)) = 0 \<longleftrightarrow> j = k"
      using all_pieces_zero[OF assms(1) k] assms(2,5) by (simp add: cut_piece_def frag_cut_def)
  qed (use k assms(5) in auto)
  ultimately show ?thesis using False by auto
qed

section \<open>Many datagrams\<close>

text \<open>
  \<open>n\<close> datagrams with the headers \<open>hs\<close> and the payloads \<open>pay\<close>, datagram \<open>j\<close> cut every \<open>F j\<close> bytes:
  an arrival is the index of its datagram, the index of the fragment in it, the packet and the
  time. Every fragment of every datagram arrives once, in any order.
\<close>

abbreviation ip_key :: "ipv4_header \<Rightarrow> ipv4_key" where
  "ip_key h \<equiv> Ipv4Key (ih_identification h) (ih_srcAddress h) (ih_destAddress h)"

definition pieces_arrive ::
  "nat \<Rightarrow> (nat \<Rightarrow> ipv4_header) \<Rightarrow> (nat \<Rightarrow> nat) \<Rightarrow> (nat \<Rightarrow> cell list) \<Rightarrow> ((nat \<times> nat) \<times> packet \<times> simtime) list \<Rightarrow> bool" where
  "pieces_arrive n hs F pay arr \<longleftrightarrow> distinct (map fst arr) \<and>
     (\<forall>j i. (j, i) \<in> fst ` set arr \<longleftrightarrow> j < n \<and> i < frag_count (F j) (length (pay j))) \<and>
     (\<forall>a \<in> set arr. packet_ok (fst (snd a)) \<and>
        ipv4_fragment (hs (fst (fst a))) (pay (fst (fst a))) (frag_cut (F (fst (fst a))) (length (pay (fst (fst a)))) (snd (fst a))) (fst (snd a)))"

text \<open>The datagrams have different keys, none of which the buffer has an entry for.\<close>

definition datagrams_ok ::
  "nat \<Rightarrow> (nat \<Rightarrow> ipv4_header) \<Rightarrow> (nat \<Rightarrow> nat) \<Rightarrow> (nat \<Rightarrow> cell list) \<Rightarrow> ipv4_key frag_bufs \<Rightarrow> bool" where
  "datagrams_ok n hs F pay bufs \<longleftrightarrow> map_ok bufs \<and> inj_on (\<lambda>j. ip_key (hs j)) {..<n} \<and>
     (\<forall>j < n. 0 < F j \<and> pay j \<noteq> [] \<and> ih_headerLength (hs j) = int (header_length (Ipv4H (hs j))) \<and>
        map_of bufs (ip_key (hs j)) = None)"

definition carries :: "ipv4_header \<Rightarrow> cell list \<Rightarrow> packet \<Rightarrow> bool" where
  "carries h d q \<longleftrightarrow> packet_ok q \<and>
     (\<exists>h' pad. pk_data q = header_cells (Ipv4H h') @ d @ pad \<and> ih_protocolId h' = ih_protocolId h)"

lemma ipv4_fragment_key:
  "ipv4_fragment h d c p \<Longrightarrow> ih_headerLength h = int (header_length (Ipv4H h)) \<Longrightarrow> ipv4_packet_key p = ip_key h"
  using ipv4_fragment_of(1)[of h d c p] by (auto simp: ipv4_packet_key_def packet_key_def)

definition arrivals_of :: "nat \<Rightarrow> ((nat \<times> nat) \<times> packet \<times> simtime) list \<Rightarrow> ((nat \<times> nat) \<times> packet \<times> simtime) list" where
  "arrivals_of j arr = filter (\<lambda>a. fst (fst a) = j) arr"

lemma arrivals_key:
  assumes "pieces_arrive n hs F pay arr" "datagrams_ok n hs F pay bufs" "a \<in> set arr"
  shows "fst (fst a) < n" "ipv4_packet_key (fst (snd a)) = ip_key (hs (fst (fst a)))"
proof -
  have "(fst (fst a), snd (fst a)) \<in> fst ` set arr" using assms(3) by simp
  then show n: "fst (fst a) < n" using assms(1) unfolding pieces_arrive_def by blast
  show "ipv4_packet_key (fst (snd a)) = ip_key (hs (fst (fst a)))"
  proof (rule ipv4_fragment_key)
    show "ipv4_fragment (hs (fst (fst a))) (pay (fst (fst a)))
        (frag_cut (F (fst (fst a))) (length (pay (fst (fst a)))) (snd (fst a))) (fst (snd a))"
      using assms(1,3) unfolding pieces_arrive_def by blast
    show "ih_headerLength (hs (fst (fst a))) = int (header_length (Ipv4H (hs (fst (fst a)))))"
      using assms(2) n unfolding datagrams_ok_def by blast
  qed
qed

lemma arrivals_run:
  assumes "pieces_arrive n hs F pay arr" "datagrams_ok n hs F pay bufs" "j < n"
  shows "key_run ipv4_packet_key (ip_key (hs j)) (map snd arr) = map snd (arrivals_of j arr)"
proof -
  have "ipv4_packet_key (fst (snd a)) = ip_key (hs j) \<longleftrightarrow> fst (fst a) = j" if "a \<in> set arr" for a
    using arrivals_key[OF assms(1,2) that] assms(2,3) inj_onD[of "\<lambda>j. ip_key (hs j)" "{..<n}" "fst (fst a)" j]
    by (auto simp: datagrams_ok_def)
  then show ?thesis unfolding key_run_def arrivals_of_def filter_map comp_def by (metis (mono_tags, lifting) filter_cong)
qed

lemma arrivals_pieces:
  assumes "pieces_arrive n hs F pay arr" "j < n"
  shows "all_pieces (F j) (length (pay j)) (map (\<lambda>a. snd (fst a)) (arrivals_of j arr))"
proof -
  have "inj_on (\<lambda>a. snd (fst a)) (set (arrivals_of j arr))"
  proof (rule inj_onI)
    fix a b assume a: "a \<in> set (arrivals_of j arr)" "b \<in> set (arrivals_of j arr)" "snd (fst a) = snd (fst b)"
    then have "fst a = fst b" "a \<in> set arr" "b \<in> set arr" by (auto simp: arrivals_of_def prod_eq_iff)
    moreover have "inj_on fst (set arr)" using assms(1) by (simp add: pieces_arrive_def distinct_map)
    ultimately show "a = b" by (simp add: inj_on_def)
  qed
  moreover have "distinct (arrivals_of j arr)" using assms(1) by (simp add: pieces_arrive_def distinct_map arrivals_of_def)
  moreover have "(\<lambda>a. snd (fst a)) ` set (arrivals_of j arr) = {i. (j, i) \<in> fst ` set arr}"
    by (force simp: arrivals_of_def)
  moreover have "{i. (j, i) \<in> fst ` set arr} = {..<frag_count (F j) (length (pay j))}"
    using assms unfolding pieces_arrive_def by blast
  ultimately show ?thesis by (simp add: all_pieces_def distinct_map)
qed

lemma arrivals_complete:
  assumes "pieces_arrive n hs F pay arr" "datagrams_ok n hs F pay bufs" "j < n"
  shows "\<exists>q m bufs'. add_all app_ip_stage (map snd (arrivals_of j arr)) bufs = Inr (replicate m None @ [Some q], bufs') \<and>
    carries (hs j) (pay j) q \<and> (\<forall>p t. ((j, 0), p, t) \<in> set arr \<longrightarrow> pk_creation q = pk_creation p)"
proof -
  let ?as = "arrivals_of j arr"
  have ok: "0 < F j" "pay j \<noteq> []" "map_ok bufs" "ih_headerLength (hs j) = int (header_length (Ipv4H (hs j)))"
    "map_of bufs (ip_key (hs j)) = None" using assms(2,3) by (simp_all add: datagrams_ok_def)
  have mem: "?as ! k \<in> set arr \<and> fst (fst (?as ! k)) = j" if "k < length ?as" for k
    using nth_mem[OF that] by (simp add: arrivals_of_def)
  have pieces: "\<forall>k < length (map (\<lambda>a. snd (fst a)) ?as). ipv4_fragment (hs j) (pay j)
      (frag_cut (F j) (length (pay j)) (map (\<lambda>a. snd (fst a)) ?as ! k)) (fst (map snd ?as ! k)) \<and> packet_ok (fst (map snd ?as ! k))"
  proof (intro allI impI)
    fix k assume k: "k < length (map (\<lambda>a. snd (fst a)) ?as)"
    then have "?as ! k \<in> set arr" "fst (fst (?as ! k)) = j" using mem[of k] by simp_all
    with assms(1) k show "ipv4_fragment (hs j) (pay j) (frag_cut (F j) (length (pay j)) (map (\<lambda>a. snd (fst a)) ?as ! k))
        (fst (map snd ?as ! k)) \<and> packet_ok (fst (map snd ?as ! k))"
      unfolding pieces_arrive_def by auto
  qed
  have l: "length (map snd ?as) = length (map (\<lambda>a. snd (fst a)) ?as)" by simp
  obtain q bufs' h' pad where q: "add_all app_ip_stage (map snd ?as) bufs = Inr (replicate (length (map snd ?as) - 1) None @ [Some q], bufs')"
    "packet_ok q" "pk_data q = header_cells (Ipv4H h') @ pay j @ pad" "ih_protocolId h' = ih_protocolId (hs j)"
    "\<forall>k < length (map (\<lambda>a. snd (fst a)) ?as). map (\<lambda>a. snd (fst a)) ?as ! k = 0 \<longrightarrow> pk_creation q = pk_creation (fst (map snd ?as ! k))"
    using ip_stage_run[OF arrivals_pieces[OF assms(1,3)] ok(1-3) l ok(4,5) pieces] by blast
  have "pk_creation q = pk_creation p" if p: "((j, 0), p, t) \<in> set arr" for p t
  proof -
    have "((j, 0), p, t) \<in> set ?as" using p by (simp add: arrivals_of_def)
    then obtain k where "k < length ?as" "?as ! k = ((j, 0), p, t)" by (auto simp: in_set_conv_nth)
    then show ?thesis using q(5) by auto
  qed
  then show ?thesis using q(1-4) unfolding carries_def by blast
qed

lemma datagrams_complete:
  assumes "pieces_arrive n hs F pay arr" "datagrams_ok n hs F pay bufs"
  shows "\<exists>rs bufs' js. add_all app_ip_stage (map snd arr) bufs = Inr (rs, bufs') \<and> length rs = length arr \<and>
    distinct js \<and> set js = {..<n} \<and> length (completed rs (map snd arr)) = length js \<and>
    (\<forall>i < length js. carries (hs (js ! i)) (pay (js ! i)) (fst (completed rs (map snd arr) ! i)) \<and>
       (\<forall>p t. ((js ! i, 0), p, t) \<in> set arr \<longrightarrow> pk_creation (fst (completed rs (map snd arr) ! i)) = pk_creation p)) \<and>
    (arr \<noteq> [] \<longrightarrow> snd (last (completed rs (map snd arr))) = snd (snd (last arr)))"
proof -
  let ?key = "\<lambda>j. ip_key (hs j)"
  have ok: "map_ok bufs" "inj_on ?key {..<n}" using assms(2) by (simp_all add: datagrams_ok_def)
  have "\<forall>j. \<exists>q. j < n \<longrightarrow> (\<exists>m bufs'. add_all app_ip_stage (map snd (arrivals_of j arr)) bufs = Inr (replicate m None @ [Some q], bufs')) \<and>
      carries (hs j) (pay j) q \<and> (\<forall>p t. ((j, 0), p, t) \<in> set arr \<longrightarrow> pk_creation q = pk_creation p)"
    using arrivals_complete[OF assms] by blast
  then obtain q where q: "\<And>j. j < n \<Longrightarrow> (\<exists>m bufs'. add_all app_ip_stage (map snd (arrivals_of j arr)) bufs = Inr (replicate m None @ [Some (q j)], bufs'))"
    "\<And>j. j < n \<Longrightarrow> carries (hs j) (pay j) (q j)"
    "\<And>j p t. j < n \<Longrightarrow> ((j, 0), p, t) \<in> set arr \<Longrightarrow> pk_creation (q j) = pk_creation p"
    by metis
  let ?inv = "inv_into {..<n} ?key"
  have inv: "?inv (?key j) = j" if "j < n" for j using inv_into_f_f[OF ok(2)] that by simp
  have keys: "\<forall>x \<in> set (map snd arr). ipv4_packet_key (fst x) \<in> ?key ` {..<n}"
    using arrivals_key[OF assms] by auto
  have runs: "\<forall>k \<in> ?key ` {..<n}. \<exists>m bufs'. add_all app_ip_stage (key_run ipv4_packet_key k (map snd arr)) bufs
      = Inr (replicate m None @ [Some (q (?inv k))], bufs')"
    using q(1) arrivals_run[OF assms] inv by auto
  obtain rs bufs' ks where r: "add_all app_ip_stage (map snd arr) bufs = Inr (rs, bufs')" "length rs = length (map snd arr)"
    "distinct ks" "set ks = ?key ` {..<n}" "map fst (completed rs (map snd arr)) = map (\<lambda>k. q (?inv k)) ks"
    "map snd arr \<noteq> [] \<longrightarrow> completed rs (map snd arr) \<noteq> [] \<and> snd (last (completed rs (map snd arr))) = snd (last (map snd arr))"
    using app_ip.each_completes_once[OF ok(1) keys runs] by blast
  define js where "js = map ?inv ks"
  have "inj_on ?inv (?key ` {..<n})" by (rule inj_on_inv_into) simp
  then have "distinct js" using r(3,4) by (simp add: js_def distinct_map)
  moreover have "set js = {..<n}" using r(4) inv by (force simp: js_def image_image)
  moreover have len: "length (completed rs (map snd arr)) = length js" using arg_cong[OF r(5), of length] by (simp add: js_def)
  moreover have "fst (completed rs (map snd arr) ! i) = q (js ! i)" if "i < length js" for i
    using arg_cong[OF r(5), of "\<lambda>l. l ! i"] that len by (simp add: js_def)
  moreover have "js ! i < n" if "i < length js" for i using calculation(2) nth_mem[OF that] by simp
  moreover have "arr \<noteq> [] \<longrightarrow> snd (last (completed rs (map snd arr))) = snd (snd (last arr))" using r(6) by (simp add: last_map)
  ultimately show ?thesis using r(1,2) q(2,3) by (intro exI[of _ rs] exI[of _ bufs'] exI[of _ js]) simp
qed

section \<open>The whole reception\<close>

text \<open>A run of packets from the network, each with its time of arrival.\<close>

fun app_receive_all :: "(packet \<times> simtime) list \<Rightarrow> rdma_app \<Rightarrow> app_result" where
  "app_receive_all [] a = Inr ([], a)"
| "app_receive_all ((p, now) # ps) a =
    bindE (rdmaApp_processPacket now p a) (\<lambda>(out, a).
    bindE (app_receive_all ps a) (\<lambda>(outs, a). Inr (out @ outs, a)))"

text \<open>
  When every datagram that the first stage completes is decapsulated to \<open>D\<close>, the run is that of
  the second stage on them.
\<close>

lemma app_receive_stages:
  assumes "add_all app_ip_stage ps (ra_fragbufIpv4 a) = Inr (rs, bufs)"
    and "\<forall>x \<in> set (completed rs ps). rdmaApp_decapsulate (fst x) = Inr (D (fst x))"
    and "add_all app_rdma_stage (map (\<lambda>x. (D (fst x), snd x)) (completed rs ps)) (ra_fragbufRdma a) = Inr (rs', bufs')"
  shows "app_receive_all ps a
    = Inr (map (\<lambda>x. PacketReceived (fst x)) (completed rs' (map (\<lambda>x. (D (fst x), snd x)) (completed rs ps))),
        a\<lparr>ra_fragbufIpv4 := bufs, ra_fragbufRdma := bufs',
          ra_numReceived := ra_numReceived a + int (length (completed rs' (map (\<lambda>x. (D (fst x), snd x)) (completed rs ps)))),
          ra_latencyPackets := ra_latencyPackets a @
            map (\<lambda>x. snd x - pk_creation (fst x)) (completed rs' (map (\<lambda>x. (D (fst x), snd x)) (completed rs ps)))\<rparr>)"
  using assms
proof (induction ps arbitrary: a rs rs')
  case Nil
  then show ?case by simp
next
  case (Cons x ps)
  obtain p now where x: "x = (p, now)" by (cases x)
  obtain r b1 rs1 where s: "app_ip_stage p now (ra_fragbufIpv4 a) = Inr (r, b1)" "add_all app_ip_stage ps b1 = Inr (rs1, bufs)" "rs = r # rs1"
    using Cons.prems(1) x by (auto simp: bindE_eq_Inr)
  show ?case
  proof (cases r)
    case None
    then show ?thesis using Cons.IH[of "a\<lparr>ra_fragbufIpv4 := b1\<rparr>" rs1 rs'] Cons.prems(2,3) s x
      by (simp add: rdmaApp_processPacket_def)
  next
    case (Some q)
    then have d: "rdmaApp_decapsulate q = Inr (D q)" using Cons.prems(2) s(3) x by simp
    obtain r' b2 rs2 where t: "app_rdma_stage (D q) now (ra_fragbufRdma a) = Inr (r', b2)"
      "add_all app_rdma_stage (map (\<lambda>x. (D (fst x), snd x)) (completed rs1 ps)) b2 = Inr (rs2, bufs')" "rs' = r' # rs2"
      using Cons.prems(3) s(3) x Some by (auto simp: bindE_eq_Inr)
    have d1: "\<forall>x \<in> set (completed rs1 ps). rdmaApp_decapsulate (fst x) = Inr (D (fst x))" using Cons.prems(2) s(3) x Some by simp
    show ?thesis
    proof (cases r')
      case None
      then show ?thesis using Cons.IH[OF _ d1, of "a\<lparr>ra_fragbufIpv4 := b1, ra_fragbufRdma := b2\<rparr>" rs2] s t d x Some
        by (simp add: rdmaApp_processPacket_def)
    next
      case q': (Some q')
      then show ?thesis using Cons.IH[OF _ d1, of "a\<lparr>ra_fragbufIpv4 := b1, ra_fragbufRdma := b2, ra_numReceived := ra_numReceived a + 1,
           ra_latencyPackets := ra_latencyPackets a @ [now - pk_creation q']\<rparr>" rs2] s t d x Some
        by (simp add: rdmaApp_processPacket_def)
    qed
  qed
qed

lemma completed_last: "ps \<noteq> [] \<Longrightarrow> completed (replicate (length ps - 1) None @ [Some q]) ps = [(q, snd (last ps))]"
proof (induction ps)
  case (Cons x ps)
  then show ?case by (cases x; cases ps) auto
qed simp

lemma decapsulate_carries:
  assumes "carries h d q" "getProtocol ipprotocol (ih_protocolId h) = Inr prot"
  shows "\<exists>r pad. rdmaApp_decapsulate q = Inr r \<and> pk_data r = d @ pad \<and> pk_creation r = pk_creation q"
proof -
  obtain h' pad where h: "packet_ok q" "pk_data q = header_cells (Ipv4H h') @ d @ pad" "ih_protocolId h' = ih_protocolId h"
    using assms(1) by (auto simp: carries_def)
  obtain r where "popAtFront as_ipv4 q = Inr (h', r)" "pk_data r = d @ pad" "pk_creation r = pk_creation q"
    using popAtFront_header[OF h(1,2), of as_ipv4 h'] by auto
  then show ?thesis using assms(2) h(3) by (simp add: rdmaApp_decapsulate_def ip_decapsulate_def)
qed

text \<open>The datagrams as the second stage gets them.\<close>

lemma datagrams_decapsulated:
  assumes "pieces_arrive n hs M pay arr" "datagrams_ok n hs M pay bufs"
    and "\<forall>j < n. \<exists>prot. getProtocol ipprotocol (ih_protocolId (hs j)) = Inr prot"
  shows "\<exists>rs bufs' js D. add_all app_ip_stage (map snd arr) bufs = Inr (rs, bufs') \<and> distinct js \<and> set js = {..<n} \<and>
    (\<forall>x \<in> set (completed rs (map snd arr)). rdmaApp_decapsulate (fst x) = Inr (D (fst x))) \<and>
    (let ps = map (\<lambda>x. (D (fst x), snd x)) (completed rs (map snd arr)) in
       length ps = length js \<and> (arr \<noteq> [] \<and> ps \<noteq> [] \<longrightarrow> snd (last ps) = snd (snd (last arr))) \<and>
       (\<forall>i < length js. (\<exists>pad. pk_data (fst (ps ! i)) = pay (js ! i) @ pad) \<and>
          (\<forall>p t. ((js ! i, 0), p, t) \<in> set arr \<longrightarrow> pk_creation (fst (ps ! i)) = pk_creation p)))"
proof -
  obtain rs bufs' js where r: "add_all app_ip_stage (map snd arr) bufs = Inr (rs, bufs')"
    "distinct js" "set js = {..<n}" "length (completed rs (map snd arr)) = length js"
    "\<forall>i < length js. carries (hs (js ! i)) (pay (js ! i)) (fst (completed rs (map snd arr) ! i)) \<and>
       (\<forall>p t. ((js ! i, 0), p, t) \<in> set arr \<longrightarrow> pk_creation (fst (completed rs (map snd arr) ! i)) = pk_creation p)"
    "arr \<noteq> [] \<longrightarrow> snd (last (completed rs (map snd arr))) = snd (snd (last arr))"
    using datagrams_complete[OF assms(1,2)] by blast
  let ?c = "completed rs (map snd arr)"
  define D where "D = (\<lambda>q. case rdmaApp_decapsulate q of Inr r \<Rightarrow> r | Inl _ \<Rightarrow> q)"
  have decap: "rdmaApp_decapsulate (fst (?c ! i)) = Inr (D (fst (?c ! i))) \<and> (\<exists>pad. pk_data (D (fst (?c ! i))) = pay (js ! i) @ pad) \<and>
      pk_creation (D (fst (?c ! i))) = pk_creation (fst (?c ! i))" if i: "i < length js" for i
  proof -
    have "js ! i < n" using nth_mem[OF i] r(3) by simp
    then obtain prot where "getProtocol ipprotocol (ih_protocolId (hs (js ! i))) = Inr prot" using assms(3) by blast
    then obtain r pad where "rdmaApp_decapsulate (fst (?c ! i)) = Inr r" "pk_data r = pay (js ! i) @ pad" "pk_creation r = pk_creation (fst (?c ! i))"
      using decapsulate_carries r(5) i by blast
    then show ?thesis by (simp add: D_def)
  qed
  have "\<forall>x \<in> set ?c. rdmaApp_decapsulate (fst x) = Inr (D (fst x))"
    unfolding all_set_conv_all_nth using decap r(4) by simp
  then show ?thesis using r(1-4,6) decap r(5)
    by (intro exI[of _ rs] exI[of _ bufs'] exI[of _ js] exI[of _ D]) (auto simp: last_map)
qed

lemma app_receives_message:
  assumes "pieces_arrive n hs M pay arr" "datagrams_ok n hs M pay (ra_fragbufIpv4 a)"
    and "\<forall>j < n. \<exists>prot. getProtocol ipprotocol (ih_protocolId (hs j)) = Inr prot"
    and "n = frag_count F (length d)" "0 < F" "d \<noteq> []"
    and "\<forall>j < n. \<forall>r pad. pk_data r = pay j @ pad \<longrightarrow> rdma_fragment base d (frag_cut F (length d) j) r"
    and "map_ok (ra_fragbufRdma a)"
    and "F < length d \<Longrightarrow> map_of (ra_fragbufRdma a) (PortKey (rh_identification base) (uint (rh_srcPort base)) (uint (rh_destPort base))) = None"
    and "((0, 0), p0, t0) \<in> set arr"
  shows "\<exists>q bi br. app_receive_all (map snd arr) a = Inr ([PacketReceived q], a\<lparr>ra_fragbufIpv4 := bi, ra_fragbufRdma := br,
      ra_numReceived := ra_numReceived a + 1,
      ra_latencyPackets := ra_latencyPackets a @ [snd (snd (last arr)) - pk_creation p0]\<rparr>) \<and>
    (if length d \<le> F then \<exists>pad. pk_data q = pay 0 @ pad
     else \<exists>crc. pk_data q = header_cells (RdmaH (base\<lparr>rh_totalLength := 8 + int (length d), rh_crc := crc,
       rh_fragmentOffset := 0, rh_moreFragments := False, rh_identification := 0\<rparr>)) @ d)"
proof -
  obtain rs bi js D where r: "add_all app_ip_stage (map snd arr) (ra_fragbufIpv4 a) = Inr (rs, bi)" "distinct js" "set js = {..<n}"
    "\<forall>x \<in> set (completed rs (map snd arr)). rdmaApp_decapsulate (fst x) = Inr (D (fst x))"
    and ps: "let ps = map (\<lambda>x. (D (fst x), snd x)) (completed rs (map snd arr)) in
       length ps = length js \<and> (arr \<noteq> [] \<and> ps \<noteq> [] \<longrightarrow> snd (last ps) = snd (snd (last arr))) \<and>
       (\<forall>i < length js. (\<exists>pad. pk_data (fst (ps ! i)) = pay (js ! i) @ pad) \<and>
          (\<forall>p t. ((js ! i, 0), p, t) \<in> set arr \<longrightarrow> pk_creation (fst (ps ! i)) = pk_creation p))"
    using datagrams_decapsulated[OF assms(1-3)] by blast
  define ps where "ps = map (\<lambda>x. (D (fst x), snd x)) (completed rs (map snd arr))"
  have l: "length ps = length js" and last: "ps \<noteq> [] \<Longrightarrow> snd (last ps) = snd (snd (last arr))"
    and each: "\<And>i. i < length js \<Longrightarrow> \<exists>pad. pk_data (fst (ps ! i)) = pay (js ! i) @ pad"
    "\<And>i p t. i < length js \<Longrightarrow> ((js ! i, 0), p, t) \<in> set arr \<Longrightarrow> pk_creation (fst (ps ! i)) = pk_creation p"
    using ps assms(10) unfolding ps_def[symmetric] Let_def by (blast, auto)
  have js: "all_pieces F (length d) js" using r(2,3) assms(4) by (simp add: all_pieces_def)
  have d0: "0 < length d" using assms(6) by simp
  have frags: "\<forall>i < length js. rdma_fragment base d (frag_cut F (length d) (js ! i)) (fst (ps ! i))"
  proof (intro allI impI)
    fix i assume i: "i < length js"
    then have "js ! i < n" using nth_mem[OF i] r(3) by simp
    with each(1)[OF i] assms(7) show "rdma_fragment base d (frag_cut F (length d) (js ! i)) (fst (ps ! i))" by blast
  qed
  obtain q br where q: "add_all app_rdma_stage ps (ra_fragbufRdma a) = Inr (replicate (length ps - 1) None @ [Some q], br)"
    "if length d \<le> F then ps \<noteq> [] \<and> q = fst (hd ps)
     else \<exists>crc. pk_data q = header_cells (RdmaH (base\<lparr>rh_totalLength := 8 + int (length d), rh_crc := crc,
       rh_fragmentOffset := 0, rh_moreFragments := False, rh_identification := 0\<rparr>)) @ d"
    "\<forall>k < length js. js ! k = 0 \<longrightarrow> pk_creation q = pk_creation (fst (ps ! k))"
    using rdma_stage_run[OF js assms(5,6,8) l assms(9) frags] by blast
  have ne: "js \<noteq> []" "ps \<noteq> []" using all_pieces_nonempty[OF js assms(5) d0] l by auto
  have "0 \<in> set js" using js assms(5) d0 by (simp add: all_pieces_def frag_count_less)
  then obtain k where k: "k < length js" "js ! k = 0" by (auto simp: in_set_conv_nth)
  have created: "pk_creation q = pk_creation p0" using q(3) k each(2)[OF k(1), of p0 t0] assms(10) by simp
  have "\<exists>pad. pk_data q = pay 0 @ pad" if "length d \<le> F"
    using all_pieces_one[OF js d0 that] q(2) each(1)[of 0] ne(2) that by (simp add: hd_conv_nth)
  moreover note app_receive_stages[OF r(1,4) q(1)[unfolded ps_def]] completed_last[OF ne(2), of q]
  ultimately show ?thesis using created last[OF ne(2)] q(2)
    by (intro exI[of _ q] exI[of _ bi] exI[of _ br]) (simp add: ps_def)
qed

section \<open>What a long message becomes\<close>

text \<open>The pieces of an even cut, put together.\<close>

lemma even_concat:
  assumes "0 < F" "\<forall>j < frag_count F N. length (f j) = min F (N - F * j)" "m \<le> frag_count F N"
  shows "length (concat (map f [0..<m])) = min (F * m) N"
  using assms(3)
proof (induction m)
  case (Suc m)
  then have "F * m < N" using frag_count_less[OF assms(1), of m N] by simp
  then show ?case using Suc assms(2) by auto
qed simp

lemma even_concat_piece:
  assumes "0 < F" "\<forall>j < frag_count F N. length (f j) = min F (N - F * j)" "j < frag_count F N"
  shows "peek_at (F * j) (min F (N - F * j)) (concat (map f [0..<frag_count F N])) = f j"
proof -
  have "[0..<frag_count F N] = [0..<j] @ j # [Suc j..<frag_count F N]"
    using assms(3) upt_add_eq_append[of 0 j "frag_count F N - j"] by (simp add: upt_conv_Cons)
  moreover have "length (concat (map f [0..<j])) = F * j"
    using even_concat[OF assms(1,2), of j] assms(3) frag_count_less[OF assms(1), of j N] by simp
  ultimately show ?thesis using assms(2,3) by (simp add: peek_at_def)
qed

lemma even_concat_length:
  assumes "0 < F" "\<forall>j < frag_count F N. length (f j) = min F (N - F * j)"
  shows "length (concat (map f [0..<frag_count F N])) = N"
  using even_concat[OF assms order_refl] frag_count_less[OF assms(1), of "frag_count F N" N] by simp

text \<open>
  The payload of a long message as the receiver takes it out of the fragments: each carries
  its header twice, and the second one is read as payload.
\<close>

definition rdma_received_piece :: "rdma_header \<Rightarrow> nat \<Rightarrow> cell list \<Rightarrow> nat \<Rightarrow> cell list" where
  "rdma_received_piece base N msg j =
    (let len = min 4088 (N - 4088 * j);
         h = base\<lparr>rh_moreFragments := (Suc j < frag_count 4088 N), rh_fragmentOffset := 4088 * int j, rh_totalLength := 8 + int len\<rparr>
     in take len (header_cells (RdmaH h) @ peek_at (8 + 4088 * j) len msg))"

definition rdma_received_payload :: "rdma_header \<Rightarrow> nat \<Rightarrow> cell list \<Rightarrow> cell list" where
  "rdma_received_payload base N msg = concat (map (rdma_received_piece base N msg) [0..<frag_count 4088 N])"

lemma rdma_received_lengths:
  assumes "length msg = 8 + N"
  shows "\<forall>j < frag_count 4088 N. length (rdma_received_piece base N msg j) = min 4088 (N - 4088 * j)"
proof (intro allI impI)
  fix j
  let ?len = "min 4088 (N - 4088 * j)"
  have "length msg - (8 + 4088 * j) = N - 4088 * j" using assms by simp
  moreover have "min ?len (8 + min ?len (N - 4088 * j)) = ?len" by (simp add: min_def)
  ultimately show "length (rdma_received_piece base N msg j) = ?len" by (simp add: rdma_received_piece_def Let_def) (simp add: min_def)
qed

lemma rdma_received_payload_length:
  assumes "length msg = 8 + N"
  shows "length (rdma_received_payload base N msg) = N"
  unfolding rdma_received_payload_def by (rule even_concat_length[OF _ rdma_received_lengths[OF assms]]) simp

lemma rdma_received_starts:
  assumes "length msg = 8 + N" "8 \<le> N"
  shows "length (rdma_received_payload base N msg) = N \<and> (\<exists>h. header_at (rdma_received_payload base N msg) = Some (RdmaH h))"
proof -
  have "0 < frag_count 4088 N" using frag_count_less[of 4088 0 N] assms(2) by simp
  then have "[0..<frag_count 4088 N] = 0 # [1..<frag_count 4088 N]" by (simp add: upt_conv_Cons)
  then have "\<exists>ys. rdma_received_payload base N msg = rdma_received_piece base N msg 0 @ ys" by (simp add: rdma_received_payload_def)
  moreover have "\<exists>h zs. rdma_received_piece base N msg 0 = header_cells (RdmaH h) @ zs" using assms(2) by (auto simp: rdma_received_piece_def Let_def)
  ultimately obtain h ys where "rdma_received_payload base N msg = header_cells (RdmaH h) @ ys" by fastforce
  then have "header_at (rdma_received_payload base N msg) = Some (RdmaH h)" by simp
  then show ?thesis using rdma_received_payload_length[OF assms(1)] by blast
qed

lemma rdma_fragment_received:
  assumes "length msg = 8 + N" "0 < N" "j < frag_count 4088 N"
    and "h = base\<lparr>rh_moreFragments := (Suc j < frag_count 4088 N), rh_fragmentOffset := 4088 * int j,
      rh_totalLength := 8 + int (min 4088 (N - 4088 * j))\<rparr>"
    and "pk_data r = (header_cells (RdmaH h) @ header_cells (RdmaH h) @ peek_at (8 + 4088 * j) (min 4088 (N - 4088 * j)) msg) @ pad"
  shows "rdma_fragment base (rdma_received_payload base N msg) (frag_cut 4088 (length (rdma_received_payload base N msg)) j) r"
proof -
  note lens = rdma_received_lengths[OF assms(1), of base]
  have N: "length (rdma_received_payload base N msg) = N"
    by (rule rdma_received_payload_length[OF assms(1)])
  let ?len = "min 4088 (N - 4088 * j)"
  let ?xs = "header_cells (RdmaH h) @ peek_at (8 + 4088 * j) ?len msg"
  have j: "4088 * j < N" using assms(3) frag_count_less[of 4088 j N] by simp
  have "peek_at (4088 * j) ?len (rdma_received_payload base N msg) = rdma_received_piece base N msg j"
    unfolding rdma_received_payload_def by (rule even_concat_piece[OF _ lens assms(3)]) simp
  also have "\<dots> = take ?len ?xs" by (simp add: rdma_received_piece_def Let_def assms(4))
  finally have piece: "peek_at (4088 * j) ?len (rdma_received_payload base N msg) = take ?len ?xs" .
  have more: "Suc j < frag_count 4088 N \<longleftrightarrow> 4088 * int j + int ?len < int N"
    using frag_count_less[of 4088 "Suc j" N] j by auto
  have "take ?len ?xs @ drop ?len ?xs @ pad = ?xs @ pad" by (simp only: append_assoc[symmetric] append_take_drop_id)
  then have "pk_data r = header_cells (RdmaH h) @ take ?len ?xs @ drop ?len ?xs @ pad" by (simp only: assms(5) append_assoc)
  note data = this
  have h: "base\<lparr>rh_totalLength := 8 + int ?len, rh_crc := rh_crc base, rh_fragmentOffset := int (4088 * j),
      rh_moreFragments := int (4088 * j) + int ?len < int N\<rparr> = h" unfolding assms(4) more by simp
  show ?thesis
    unfolding rdma_fragment_def N frag_cut_def fst_conv snd_conv nat_int
  proof (intro conjI exI)
    show "cut_ok (rdma_received_payload base N msg) (int (4088 * j), ?len)" using j N by (simp add: cut_ok_def)
    show "pk_data r = header_cells (RdmaH (base\<lparr>rh_totalLength := 8 + int ?len, rh_crc := rh_crc base,
        rh_fragmentOffset := int (4088 * j), rh_moreFragments := int (4088 * j) + int ?len < int N\<rparr>))
      @ peek_at (4088 * j) ?len (rdma_received_payload base N msg) @ drop ?len ?xs @ pad"
      unfolding h piece by (rule data)
  qed
qed

section \<open>From application to application\<close>

text \<open>
  The packets \<open>fs\<close> that the RDMA module sends for a message reach the application \<open>r\<close>: packet \<open>j\<close>
  in an IPv4 datagram with header \<open>hs j\<close>, whole or in fragments of \<open>M j\<close> bytes. The receiver has no
  unfinished datagram or message with their keys.
\<close>

definition app_gets ::
  "packet list \<Rightarrow> port_key \<Rightarrow> (nat \<Rightarrow> ipv4_header) \<Rightarrow> (nat \<Rightarrow> nat) \<Rightarrow> ((nat \<times> nat) \<times> packet \<times> simtime) list \<Rightarrow> rdma_app \<Rightarrow> bool" where
  "app_gets fs k hs M arr r \<longleftrightarrow>
     pieces_arrive (length fs) hs M (\<lambda>j. pk_data (fs ! j)) arr \<and>
     datagrams_ok (length fs) hs M (\<lambda>j. pk_data (fs ! j)) (ra_fragbufIpv4 r) \<and>
     (\<forall>j < length fs. \<exists>prot. getProtocol ipprotocol (ih_protocolId (hs j)) = Inr prot) \<and>
     map_ok (ra_fragbufRdma r) \<and> map_of (ra_fragbufRdma r) k = None"

text \<open>The key is that of every message in fragments from the same ports: their identification is 0.\<close>

definition message_key :: "int \<Rightarrow> int \<Rightarrow> port_key" where
  "message_key sp dp =
     PortKey 0 (uint (of_int sp :: port)) (uint (of_int dp :: port))"

definition counted :: "packet \<Rightarrow> simtime \<Rightarrow> rdma_app \<Rightarrow> app_result \<Rightarrow> bool" where
  "counted q latency r res \<longleftrightarrow> (\<exists>bi br. res = Inr ([PacketReceived q], r\<lparr>ra_fragbufIpv4 := bi, ra_fragbufRdma := br,
     ra_numReceived := ra_numReceived r + 1, ra_latencyPackets := ra_latencyPackets r @ [latency]\<rparr>))"

lemma app_gets_counted:
  assumes "app_gets fs k hs M arr r"
    and "F < length d \<Longrightarrow> k = PortKey (rh_identification base) (uint (rh_srcPort base)) (uint (rh_destPort base))"
    and "length fs = frag_count F (length d)" "0 < F" "d \<noteq> []" "((0, 0), p0, t0) \<in> set arr"
    and frag: "\<forall>j < length fs. \<forall>u pad. pk_data u = pk_data (fs ! j) @ pad \<longrightarrow> rdma_fragment base d (frag_cut F (length d) j) u"
  shows "\<exists>q. counted q (snd (snd (last arr)) - pk_creation p0) r (app_receive_all (map snd arr) r) \<and>
    (if length d \<le> F then \<exists>pad. pk_data q = pk_data (fs ! 0) @ pad
     else \<exists>h. pk_data q = header_cells (RdmaH h) @ d)"
proof -
  have g: "pieces_arrive (length fs) hs M (\<lambda>j. pk_data (fs ! j)) arr"
    "datagrams_ok (length fs) hs M (\<lambda>j. pk_data (fs ! j)) (ra_fragbufIpv4 r)"
    "\<forall>j < length fs. \<exists>prot. getProtocol ipprotocol (ih_protocolId (hs j)) = Inr prot" "map_ok (ra_fragbufRdma r)"
    and key: "F < length d \<Longrightarrow> map_of (ra_fragbufRdma r) (PortKey (rh_identification base) (uint (rh_srcPort base)) (uint (rh_destPort base))) = None"
    using assms(1,2) by (simp_all add: app_gets_def)
  from app_receives_message[OF g(1-3) assms(3-5) frag g(4) key assms(6)] show ?thesis
    by (auto simp: counted_def split: if_splits)
qed

lemma small_message_counted:
  assumes "rdma_sendable p sp dp" "rs_crcMode s \<noteq> CRC_MODE_UNDEFINED" "totalLength p = dataLength p"
    and "0 < dataLength p" "dataLength p \<le> 4088"
  shows "\<exists>fs s'. rdma_handleUpperPacket now parentId rnd1 rnd2 p s = Inr (map SendLower fs, s') \<and>
    (\<forall>hs M arr r p0 t0. app_gets fs (message_key sp dp) hs M arr r \<and> ((0, 0), p0, t0) \<in> set arr \<longrightarrow>
      (\<exists>q. counted q (snd (snd (last arr)) - pk_creation p0) r (app_receive_all (map snd arr) r) \<and>
         (\<exists>h pad. pk_data q = header_cells (RdmaH h) @ pk_data p @ pad)))"
proof -
  obtain q h s' where q: "rdma_handleUpperPacket now parentId rnd1 rnd2 p s = Inr ([SendLower q], s')"
    "pk_data q = header_cells (RdmaH h) @ pk_data p"
    "h = new_rdma_header\<lparr>rh_srcPort := of_int sp, rh_destPort := of_int dp,
          rh_identification := of_int (parentId * 10 + rs_numSent s),
          rh_totalLength := 8 + int (totalLength p), rh_crcMode := rs_crcMode s,
          rh_crc := declared_crc (rs_crcMode s)\<rparr>"
    using rdma_small_message_sent[OF assms(1,2)] assms(3,5) by metis
  have d: "0 < length (pk_data p)" "length (pk_data p) \<le> 4088" using assms(4,5) by simp_all
  have n: "length [q] = frag_count 4088 (length (pk_data p))" using frag_count_one[OF d] by simp
  have ne: "pk_data p \<noteq> []" using d(1) length_greater_0_conv by blast
  have frag: "rdma_fragment h (pk_data p) (frag_cut 4088 (length (pk_data p)) j) u"
    if "j < length [q]" "pk_data u = pk_data ([q] ! j) @ pad" for j u pad
    unfolding rdma_fragment_def
  proof (intro conjI exI)
    show "cut_ok (pk_data p) (frag_cut 4088 (length (pk_data p)) j)" using that(1) d by (simp add: cut_ok_def frag_cut_def)
    show "pk_data u = header_cells (RdmaH (h\<lparr>rh_totalLength := 8 + int (snd (frag_cut 4088 (length (pk_data p)) j)), rh_crc := rh_crc h,
        rh_fragmentOffset := fst (frag_cut 4088 (length (pk_data p)) j),
        rh_moreFragments := fst (frag_cut 4088 (length (pk_data p)) j) + int (snd (frag_cut 4088 (length (pk_data p)) j)) < int (length (pk_data p))\<rparr>))
      @ peek_at (nat (fst (frag_cut 4088 (length (pk_data p)) j))) (snd (frag_cut 4088 (length (pk_data p)) j)) (pk_data p) @ pad"
      using that d assms(3) by (simp add: frag_cut_def q(2,3) new_rdma_header_def peek_at_def)
  qed
  then have frags: "\<forall>j < length [q]. \<forall>u pad. pk_data u = pk_data ([q] ! j) @ pad \<longrightarrow> rdma_fragment h (pk_data p) (frag_cut 4088 (length (pk_data p)) j) u"
    by blast
  have "\<exists>x. counted x (snd (snd (last arr)) - pk_creation p0) r (app_receive_all (map snd arr) r) \<and>
      (\<exists>h pad. pk_data x = header_cells (RdmaH h) @ pk_data p @ pad)"
    if "app_gets [q] (message_key sp dp) hs M arr r" "((0, 0), p0, t0) \<in> set arr" for hs M arr r p0 t0
    using app_gets_counted[OF that(1) _ n _ ne that(2) frags] d(2) q(2) by fastforce
  moreover have "rdma_handleUpperPacket now parentId rnd1 rnd2 p s = Inr (map SendLower [q], s')" using q(1) by simp
  ultimately show ?thesis by blast
qed

text \<open>What is sent for a long message, with padding of the lower layers behind, are fragments of its received payload.\<close>

lemma large_message_fragments:
  assumes "rdma_sendable p sp dp" "rs_crcMode s \<noteq> CRC_MODE_UNDEFINED" "totalLength p = dataLength p" "dataLength p = 8 + N" "4080 < N"
  shows "\<exists>fs s'. rdma_handleUpperPacket now parentId rnd1 rnd2 p s = Inr (map SendLower fs, s') \<and> length fs = frag_count 4088 N \<and>
    (\<forall>j < length fs. \<forall>u pad. pk_data u = pk_data (fs ! j) @ pad \<longrightarrow> rdma_fragment (rdma_message_header sp dp s)
       (rdma_received_payload (rdma_message_header sp dp s) N (pk_data p)) (frag_cut 4088 N j) u)"
proof -
  let ?b = "rdma_message_header sp dp s"
  let ?d = "rdma_received_payload ?b N (pk_data p)"
  have N: "0 < N" "length (pk_data p) = 8 + N" "dataLength p - 8 = N" using assms(4,5) by simp_all
  obtain fs s' where fs: "rdma_handleUpperPacket now parentId rnd1 rnd2 p s = Inr (map SendLower fs, s')"
    "length fs = (N + 4087) div 4088"
    "\<forall>j < length fs. \<exists>h. h = ?b\<lparr>rh_moreFragments := (Suc j < length fs),
         rh_fragmentOffset := 4088 * int j, rh_totalLength := 8 + int (min 4088 (N - 4088 * j))\<rparr> \<and>
       pk_data (fs ! j) = header_cells (RdmaH h) @ header_cells (RdmaH h)
         @ peek_at (8 + 4088 * j) (min 4088 (N - 4088 * j)) (pk_data p)"
    using rdma_fragments_sent[OF assms(1,2), of now parentId rnd1 rnd2] assms(3,4,5) unfolding N(3) by auto
  have n: "length fs = frag_count 4088 N" using fs(2) by (simp add: frag_count_def)
  have len: "length ?d = N" by (rule rdma_received_payload_length[OF N(2)])
  have "rdma_fragment ?b ?d (frag_cut 4088 (length ?d) j) u" if j: "j < length fs" "pk_data u = pk_data (fs ! j) @ pad" for j u pad
  proof (rule rdma_fragment_received[OF N(2,1) _ refl])
    show "j < frag_count 4088 N" using j(1) n by simp
    show "pk_data u = (header_cells (RdmaH (?b\<lparr>rh_moreFragments := (Suc j < frag_count 4088 N), rh_fragmentOffset := 4088 * int j,
        rh_totalLength := 8 + int (min 4088 (N - 4088 * j))\<rparr>)) @ header_cells (RdmaH (?b\<lparr>rh_moreFragments := (Suc j < frag_count 4088 N),
        rh_fragmentOffset := 4088 * int j, rh_totalLength := 8 + int (min 4088 (N - 4088 * j))\<rparr>))
        @ peek_at (8 + 4088 * j) (min 4088 (N - 4088 * j)) (pk_data p)) @ pad"
      using fs(3) j n by auto
  qed
  then show ?thesis using fs(1) n unfolding len by blast
qed

lemma message_key_header:
  "message_key sp dp = PortKey (rh_identification (rdma_message_header sp dp s)) (uint (rh_srcPort (rdma_message_header sp dp s)))
     (uint (rh_destPort (rdma_message_header sp dp s)))"
  by (simp add: rdma_message_header_def message_key_def new_rdma_header_def)

lemma large_message_counted:
  assumes "rdma_sendable p sp dp" "rs_crcMode s \<noteq> CRC_MODE_UNDEFINED" "totalLength p = dataLength p" "4088 < dataLength p"
  shows "\<exists>fs s'. rdma_handleUpperPacket now parentId rnd1 rnd2 p s = Inr (map SendLower fs, s') \<and>
    (\<forall>hs M arr r p0 t0. app_gets fs (message_key sp dp) hs M arr r \<and> ((0, 0), p0, t0) \<in> set arr \<longrightarrow>
      (\<exists>q. counted q (snd (snd (last arr)) - pk_creation p0) r (app_receive_all (map snd arr) r) \<and>
         (4096 < dataLength p \<longrightarrow> (\<exists>h. pk_data q = header_cells (RdmaH h) @
            rdma_received_payload (rdma_message_header sp dp s) (dataLength p - 8) (pk_data p)))))"
proof -
  define N where "N = dataLength p - 8"
  let ?b = "rdma_message_header sp dp s"
  let ?d = "rdma_received_payload ?b N (pk_data p)"
  have N: "dataLength p = 8 + N" "4080 < N" using assms(4) by (simp_all add: N_def)
  have len: "length ?d = N" by (rule rdma_received_payload_length) (simp add: N)
  have ne: "?d \<noteq> []" using len N(2) by auto
  obtain fs s' where fs: "rdma_handleUpperPacket now parentId rnd1 rnd2 p s = Inr (map SendLower fs, s')"
    "length fs = frag_count 4088 (length ?d)"
    "\<forall>j < length fs. \<forall>u pad. pk_data u = pk_data (fs ! j) @ pad \<longrightarrow> rdma_fragment ?b ?d (frag_cut 4088 (length ?d) j) u"
    using large_message_fragments[OF assms(1-3) N, of now parentId rnd1 rnd2] unfolding len by blast
  have "\<exists>x. counted x (snd (snd (last arr)) - pk_creation p0) r (app_receive_all (map snd arr) r) \<and>
      (4096 < dataLength p \<longrightarrow> (\<exists>h. pk_data x = header_cells (RdmaH h) @ ?d))"
    if "app_gets fs (message_key sp dp) hs M arr r" "((0, 0), p0, t0) \<in> set arr" for hs M arr r p0 t0
    using app_gets_counted[OF that(1) message_key_header fs(2) _ ne that(2) fs(3)] N unfolding len by (auto split: if_splits)
  then show ?thesis using fs(1) unfolding N_def by blast
qed

definition example_rdma_app :: rdma_app where
  "example_rdma_app = \<lparr>ra_destAddresses = [L3IPv4 0x0A000002], ra_destAddressStr = [''b''], ra_localPort = 1000,
     ra_destPort = 2000, ra_startTime = 0, ra_stopTime = -1, ra_dontFragment = False, ra_packetName = ''m'',
     ra_messageLength = 0, ra_selfMsg = SEND, ra_timer = None, ra_numSent = 0, ra_numReceived = 0,
     ra_latencyPackets = [], ra_fragbufRdma = [], ra_fragbufIpv4 = [], ra_gateToRdma = True\<rparr>"

definition example_carrier :: "nat \<Rightarrow> packet \<Rightarrow> packet" where
  "example_carrier j f = (new_packet ''d'' 7)\<lparr>pk_content := header_cells (Ipv4H (example_ipv4_header
     \<lparr>ih_identification := of_nat j, ih_totalLength := 20 + int (dataLength f)\<rparr>)) @ pk_data f\<rparr>"

lemma example_carrier_whole:
  assumes "0 < dataLength f" "dataLength f \<le> 65535"
  shows "packet_ok (example_carrier j f) \<and> pk_creation (example_carrier j f) = 7 \<and>
    ipv4_fragment (example_ipv4_header\<lparr>ih_identification := of_nat j\<rparr>) (pk_data f) (frag_cut 65535 (length (pk_data f)) 0) (example_carrier j f)"
proof -
  let ?h = "example_ipv4_header\<lparr>ih_identification := of_nat j, ih_totalLength := 20 + int (dataLength f)\<rparr>"
  have d: "pk_data (example_carrier j f) = header_cells (Ipv4H ?h) @ pk_data f"
    by (simp add: example_carrier_def pk_data_alt new_packet_def)
  have "ipv4_fragment (example_ipv4_header\<lparr>ih_identification := of_nat j\<rparr>) (pk_data f) (0, dataLength f) (example_carrier j f)"
    unfolding ipv4_fragment_def using d assms(1)
    by (auto simp: cut_ok_def example_ipv4_header_def peek_at_def intro!: exI[of _ 0])
  then show ?thesis using assms(2) by (simp add: frag_cut_def example_carrier_def packet_ok_def new_packet_def)
qed

lemma example_app_gets:
  assumes "length fs = 2" "\<forall>j < 2. 0 < dataLength (fs ! j) \<and> dataLength (fs ! j) \<le> 65535"
  shows "app_gets fs k (\<lambda>j. example_ipv4_header\<lparr>ih_identification := of_nat j\<rparr>) (\<lambda>_. 65535)
    [((1, 0), example_carrier 1 (fs ! 1), 30), ((0, 0), example_carrier 0 (fs ! 0), 40)] example_rdma_app"
proof -
  have n: "frag_count 65535 (dataLength (fs ! j)) = 1" if "j < 2" for j using assms(2) that frag_count_one by blast
  have c: "packet_ok (example_carrier j (fs ! j)) \<and> ipv4_fragment (example_ipv4_header\<lparr>ih_identification := of_nat j\<rparr>)
      (pk_data (fs ! j)) (frag_cut 65535 (length (pk_data (fs ! j))) 0) (example_carrier j (fs ! j))" if "j < 2" for j
    using example_carrier_whole assms(2) that by blast
  have "pieces_arrive 2 (\<lambda>j. example_ipv4_header\<lparr>ih_identification := of_nat j\<rparr>) (\<lambda>_. 65535) (\<lambda>j. pk_data (fs ! j))
      [((1, 0), example_carrier 1 (fs ! 1), 30), ((0, 0), example_carrier 0 (fs ! 0), 40)]"
    using c[of 0] c[of 1] n[of 0] n[of 1] by (auto simp: pieces_arrive_def less_2_cases_iff)
  moreover have "datagrams_ok 2 (\<lambda>j. example_ipv4_header\<lparr>ih_identification := of_nat j\<rparr>) (\<lambda>_. 65535) (\<lambda>j. pk_data (fs ! j)) []"
  proof -
    have "pk_data (fs ! j) \<noteq> []" if "j < 2" for j using assms(2) that by (metis length_pk_data list.size(3) less_irrefl)
    moreover have "inj_on (\<lambda>j. ip_key (example_ipv4_header\<lparr>ih_identification := of_nat j\<rparr>)) {..<2}"
      by (auto simp: inj_on_def less_2_cases_iff)
    ultimately show ?thesis by (simp add: datagrams_ok_def example_ipv4_header_def)
  qed
  moreover have "getProtocol ipprotocol 17 = Inr P_udp" by (simp add: getProtocol_def findProtocol_def ipprotocol_def)
  ultimately show ?thesis using assms(1) by (simp add: app_gets_def example_rdma_app_def example_ipv4_header_def)
qed

section \<open>Properties\<close>

text \<open>C1: a message that one application sends, in as many RDMA packets as it needs, each of
  them whole or in IPv4 fragments, all arriving in any order at another application, is
  counted there once, when the last fragment arrives, with the latency since the creation
  of the packet that brought its first byte. A message of at most 4088 bytes is received
  with its content (padding may follow); a message of more than 4096 bytes is received with
  its length, but an RDMA header stands where its payload begins. The packets arrive with the
  headers they were sent with: a checksum that is computed on the way is the subject of \<open>Rdma_Copies\<close>.\<close>

theorem rdma_app_end_to_end:
  assumes "ra_gateToRdma a" "0 < ae_messageLength env" "chooseDestAddr env a = Inr (dest, a1)" "\<not> l3_isUnspecified dest"
    and "ra_localPort a \<noteq> -1" "0 < ra_destPort a" "ra_destPort a \<le> 65535" "rs_crcMode s \<noteq> CRC_MODE_UNDEFINED"
  shows "\<exists>sent p a' fs s'. rdmaApp_sendPacket env a = Inr ([PacketSent sent, SocketOut p], a') \<and>
    rdma_handleUpperPacket now parentId rnd1 rnd2 p s = Inr (map SendLower fs, s') \<and>
    (\<forall>hs M arr r p0 t0.
      app_gets fs (message_key (ra_localPort a) (ra_destPort a)) hs M arr r \<and> ((0, 0), p0, t0) \<in> set arr \<longrightarrow>
      (\<exists>q. counted q (snd (snd (last arr)) - pk_creation p0) r (app_receive_all (map snd arr) r) \<and>
        (ae_messageLength env \<le> 4088 \<longrightarrow> (\<exists>h pad. pk_data q = header_cells (RdmaH h)
           @ header_cells (AppH (app_payload (ae_messageLength env) (ra_numSent a))) @ pad)) \<and>
        (4096 < ae_messageLength env \<longrightarrow> dataLength q = nat (ae_messageLength env) \<and>
           (\<exists>h. header_at (drop 8 (pk_data q)) = Some (RdmaH h)))))"
proof -
  obtain sent p where p: "rdmaApp_sendPacket env a = Inr ([PacketSent sent, SocketOut p],
      a1\<lparr>ra_messageLength := ae_messageLength env, ra_numSent := ra_numSent a + 1\<rparr>)"
    "rdma_sendable p (ra_localPort a) (ra_destPort a)"
    "pk_data p = header_cells (AppH (app_payload (ae_messageLength env) (ra_numSent a)))" "totalLength p = nat (ae_messageLength env)"
    using app_sends[OF assms(1-3)] assms(4-7) by blast
  have d: "dataLength p = nat (ae_messageLength env)" using arg_cong[OF p(3), of length] by (simp add: app_payload_def new_app_header_def)
  have "totalLength p = dataLength p" using d p(4) by simp
  note small = small_message_counted[OF p(2) assms(8) this, of now parentId rnd1 rnd2]
    and large = large_message_counted[OF p(2) assms(8) this, of now parentId rnd1 rnd2]
  show ?thesis
  proof (cases "ae_messageLength env \<le> 4088")
    case True
    then have l: "0 < dataLength p" "dataLength p \<le> 4088" "\<not> 4096 < ae_messageLength env" using d assms(2) by simp_all
    from small[OF l(1,2)] obtain fs s' where fs: "rdma_handleUpperPacket now parentId rnd1 rnd2 p s = Inr (map SendLower fs, s')"
      "\<forall>hs M arr r p0 t0. app_gets fs (message_key (ra_localPort a) (ra_destPort a)) hs M arr r \<and>
        ((0, 0), p0, t0) \<in> set arr \<longrightarrow>
        (\<exists>q. counted q (snd (snd (last arr)) - pk_creation p0) r (app_receive_all (map snd arr) r) \<and>
         (\<exists>h pad. pk_data q = header_cells (RdmaH h) @ header_cells (AppH (app_payload (ae_messageLength env) (ra_numSent a))) @ pad))"
      unfolding p(3) by blast
    show ?thesis
      by (intro exI[of _ sent] exI[of _ p] exI exI[of _ fs] exI[of _ s'] conjI, rule p(1), rule fs(1)) (use fs(2) l(3) in blast)
  next
    case False
    then have l: "4088 < dataLength p" using d by simp
    have head: "dataLength x = nat (ae_messageLength env) \<and> (\<exists>h. header_at (drop 8 (pk_data x)) = Some (RdmaH h))"
      if "4096 < ae_messageLength env" "pk_data x = header_cells (RdmaH h) @ rdma_received_payload base (dataLength p - 8) (pk_data p)" for x h base
    proof -
      have "length (pk_data p) = 8 + (dataLength p - 8)" "8 \<le> dataLength p - 8" using d that(1) by simp_all
      note starts = rdma_received_starts[OF this, of base]
      have "length (pk_data x) = 8 + (dataLength p - 8)" unfolding that(2) length_append using starts by simp
      then have "dataLength x = nat (ae_messageLength env)" using d that(1) by simp
      moreover have "\<exists>h. header_at (drop 8 (pk_data x)) = Some (RdmaH h)" unfolding that(2) using starts by simp
      ultimately show ?thesis ..
    qed
    have eq: "4096 < ae_messageLength env \<longleftrightarrow> 4096 < dataLength p" using d by linarith
    from large[OF l] obtain fs s' where fs: "rdma_handleUpperPacket now parentId rnd1 rnd2 p s = Inr (map SendLower fs, s')"
      "\<And>hs M arr r p0 t0. app_gets fs (message_key (ra_localPort a) (ra_destPort a)) hs M arr r \<Longrightarrow>
        ((0, 0), p0, t0) \<in> set arr \<Longrightarrow>
        \<exists>q. counted q (snd (snd (last arr)) - pk_creation p0) r (app_receive_all (map snd arr) r) \<and>
         (4096 < dataLength p \<longrightarrow> (\<exists>h. pk_data q = header_cells (RdmaH h) @
            rdma_received_payload (rdma_message_header (ra_localPort a) (ra_destPort a) s) (dataLength p - 8) (pk_data p)))"
      by blast
    have "\<exists>q. counted q (snd (snd (last arr)) - pk_creation p0) r (app_receive_all (map snd arr) r) \<and>
        (4096 < ae_messageLength env \<longrightarrow> dataLength q = nat (ae_messageLength env) \<and> (\<exists>h. header_at (drop 8 (pk_data q)) = Some (RdmaH h)))"
      if "app_gets fs (message_key (ra_localPort a) (ra_destPort a)) hs M arr r" "((0, 0), p0, t0) \<in> set arr" for hs M arr r p0 t0
      using fs(2)[OF that] head unfolding eq by blast
    note got = this
    show ?thesis
      by (intro exI[of _ sent] exI[of _ p] exI exI[of _ fs] exI[of _ s'] conjI, rule p(1), rule fs(1)) (use got False in blast)
  qed
qed

theorem rdma_app_end_to_end_witness:
  "\<exists>sent p a' fs s' q. rdmaApp_sendPacket (example_app_env 10 5000 5) example_rdma_app = Inr ([PacketSent sent, SocketOut p], a') \<and>
    rdma_handleUpperPacket 5 3 0 0 p (rdma_init CRC_DECLARED_CORRECT) = Inr (map SendLower fs, s') \<and> length fs = 2 \<and>
    counted q 33 example_rdma_app
      (app_receive_all [(example_carrier 1 (fs ! 1), 30), (example_carrier 0 (fs ! 0), 40)] example_rdma_app) \<and>
    dataLength q = 5000"
proof -
  let ?a = example_rdma_app and ?e = "example_app_env 10 5000 5" and ?s = "rdma_init CRC_DECLARED_CORRECT"
  have h: "ra_gateToRdma ?a" "0 < ae_messageLength ?e" "chooseDestAddr ?e ?a = Inr (L3IPv4 0x0A000002, ?a)"
    "\<not> l3_isUnspecified (L3IPv4 0x0A000002)" "ra_localPort ?a \<noteq> -1" "0 < ra_destPort ?a" "ra_destPort ?a \<le> 65535"
    "rs_crcMode ?s \<noteq> CRC_MODE_UNDEFINED" "ae_messageLength ?e = 5000"
    by (simp_all add: example_rdma_app_def example_app_env_def chooseDestAddr_def Let_def ip_isUnspecified_def rdma_init_def)
  obtain sent p a' fs s' where t: "rdmaApp_sendPacket ?e ?a = Inr ([PacketSent sent, SocketOut p], a')"
    "rdma_handleUpperPacket 5 3 0 0 p ?s = Inr (map SendLower fs, s')"
    "\<forall>hs M arr r p0 t0.
      app_gets fs (message_key (ra_localPort ?a) (ra_destPort ?a)) hs M arr r \<and> ((0, 0), p0, t0) \<in> set arr \<longrightarrow>
      (\<exists>q. counted q (snd (snd (last arr)) - pk_creation p0) r (app_receive_all (map snd arr) r) \<and>
        (ae_messageLength ?e \<le> 4088 \<longrightarrow> (\<exists>h pad. pk_data q = header_cells (RdmaH h)
           @ header_cells (AppH (app_payload (ae_messageLength ?e) (ra_numSent ?a))) @ pad)) \<and>
        (4096 < ae_messageLength ?e \<longrightarrow> dataLength q = nat (ae_messageLength ?e) \<and>
           (\<exists>h. header_at (drop 8 (pk_data q)) = Some (RdmaH h))))"
    using rdma_app_end_to_end[OF h(1-8), of 5 3 0 0] by blast
  have "rdma_sendable p (ra_localPort ?a) (ra_destPort ?a) \<and> totalLength p = 5000 \<and> dataLength p = 5000"
  proof -
    obtain p0 p1 where p1: "rdmaApp_sendPacket ?e ?a = Inr ([PacketSent p0, SocketOut p1],
        ?a\<lparr>ra_messageLength := ae_messageLength ?e, ra_numSent := ra_numSent ?a + 1\<rparr>)"
      "rdma_sendable p1 (ra_localPort ?a) (ra_destPort ?a)"
      "pk_data p1 = header_cells (AppH (app_payload (ae_messageLength ?e) (ra_numSent ?a)))" "totalLength p1 = nat (ae_messageLength ?e)"
      using app_sends[OF h(1-3)] h(4-7) by blast
    then have "p1 = p" using t(1) by simp
    moreover have "dataLength p1 = 5000" using arg_cong[OF p1(3), of length] h(9) by (simp add: app_payload_def new_app_header_def)
    ultimately show ?thesis using p1(2,4) h(9) by simp
  qed
  then have snd: "rdma_sendable p (ra_localPort ?a) (ra_destPort ?a)" "4088 < totalLength p" "8 < dataLength p" "dataLength p = 5000" by simp_all
  obtain fs1 s1 where f: "rdma_handleUpperPacket 5 3 0 0 p ?s = Inr (map SendLower fs1, s1)" "length fs1 = (dataLength p - 8 + 4087) div 4088"
    "\<forall>j < length fs1. \<exists>h. pk_data (fs1 ! j) = header_cells (RdmaH h) @ header_cells (RdmaH h)
         @ peek_at (8 + 4088 * j) (min 4088 (dataLength p - 8 - 4088 * j)) (pk_data p)"
    using rdma_fragments_sent[OF snd(1) h(8) snd(2,3), of 5 3 0 0] by blast
  have "map SendLower fs1 = map SendLower fs" using f(1) t(2) by simp
  then have "fs1 = fs" by (simp add: map_injective inj_def)
  then have l: "length fs = 2" using f(2) snd(4) by simp
  have "\<forall>j < 2. 0 < dataLength (fs ! j) \<and> dataLength (fs ! j) \<le> 65535"
  proof (intro allI impI)
    fix j :: nat assume "j < 2"
    then obtain h where "pk_data (fs ! j) = header_cells (RdmaH h) @ header_cells (RdmaH h)
         @ peek_at (8 + 4088 * j) (min 4088 (dataLength p - 8 - 4088 * j)) (pk_data p)"
      using f(3) \<open>fs1 = fs\<close> l by auto
    from arg_cong[OF this, of length] show "0 < dataLength (fs ! j) \<and> dataLength (fs ! j) \<le> 65535" by simp
  qed
  note gets = example_app_gets[OF l this, of "message_key (ra_localPort ?a) (ra_destPort ?a)"]
  have "\<exists>q. counted q (40 - pk_creation (example_carrier 0 (fs ! 0))) ?a
      (app_receive_all [(example_carrier 1 (fs ! 1), 30), (example_carrier 0 (fs ! 0), 40)] ?a) \<and> dataLength q = 5000"
    using t(3)[rule_format, OF conjI, OF gets, of "example_carrier 0 (fs ! 0)" 40] h(9) by auto
  moreover have "pk_creation (example_carrier 0 (fs ! 0)) = 7" by (simp add: example_carrier_def new_packet_def)
  ultimately show ?thesis using t(1,2) l by auto
qed

end
