(* ===== verification/Rdma_Copies.thy ===== *)
theory Rdma_Copies
  imports Rdma_Delivery
begin

text \<open>
  What follows from the copies of the RDMA header, which lose the fields added for
  fragmentation. The fragments of all messages between two ports have the identification 0,
  so the receiver cannot tell messages apart; and a checksum that the post-routing hook
  computes turns every fragment into a message of its own.
\<close>

section \<open>Messages that mix\<close>

lemma rdma_fragment_cong:
  assumes "rdma_fragment base d c p" "length d' = length d" "peek_at (nat (fst c)) (snd c) d' = peek_at (nat (fst c)) (snd c) d"
  shows "rdma_fragment base d' c p"
  using assms unfolding rdma_fragment_def cut_ok_def by auto

text \<open>The payload with the first \<open>F\<close> bytes of \<open>d2\<close> and the rest of \<open>d1\<close>.\<close>

definition mixed :: "nat \<Rightarrow> cell list \<Rightarrow> cell list \<Rightarrow> cell list" where
  "mixed F d1 d2 = take F d2 @ drop F d1"

lemma mixed_piece:
  assumes "length d1 = N" "length d2 = N" "F \<le> N"
  shows "length (mixed F d1 d2) = N"
    and "peek_at 0 F (mixed F d1 d2) = peek_at 0 F d2"
    and "0 < j \<Longrightarrow> peek_at (F * j) n (mixed F d1 d2) = peek_at (F * j) n d1"
proof -
  show "length (mixed F d1 d2) = N" using assms by (simp add: mixed_def)
  show "peek_at 0 F (mixed F d1 d2) = peek_at 0 F d2" using assms by (simp add: mixed_def peek_at_def)
  assume "0 < j"
  then have "F \<le> F * j" by simp
  then show "peek_at (F * j) n (mixed F d1 d2) = peek_at (F * j) n d1" using assms by (simp add: mixed_def peek_at_def)
qed

text \<open>The fragments of the first message but its first, and then the first of the second message.\<close>

lemma mixed_fragments:
  assumes "length fs = frag_count 4088 N" "length fs' = frag_count 4088 N" "4088 < N" "length d = N" "length d' = N"
    and "\<forall>j < length fs. \<forall>u pad. pk_data u = pk_data (fs ! j) @ pad \<longrightarrow> rdma_fragment b d (frag_cut 4088 N j) u"
    and "\<forall>j < length fs'. \<forall>u pad. pk_data u = pk_data (fs' ! j) @ pad \<longrightarrow> rdma_fragment b d' (frag_cut 4088 N j) u"
    and "map (\<lambda>x. pk_data (fst x)) ps = map pk_data (tl fs @ [fs' ! 0])"
  shows "length ps = frag_count 4088 N \<and> (\<forall>k < length ps. rdma_fragment b (mixed 4088 d d')
    (map (frag_cut 4088 N) ([1..<frag_count 4088 N] @ [0]) ! k) (fst (ps ! k)))"
proof -
  let ?n = "frag_count 4088 N"
  have n: "0 < ?n" unfolding frag_count_less[OF zero_less_numeral] using assms(3) by simp
  have ps: "length ps = ?n" using arg_cong[OF assms(8), of length] assms(1) n by simp
  have le: "4088 \<le> N" using assms(3) by simp
  note m = mixed_piece[OF assms(4,5) le]
  have "rdma_fragment b (mixed 4088 d d') (map (frag_cut 4088 N) ([1..<?n] @ [0]) ! k) (fst (ps ! k))" if k: "k < ?n" for k
  proof -
    have data: "pk_data (fst (ps ! k)) = map pk_data (tl fs @ [fs' ! 0]) ! k"
      using arg_cong[OF assms(8), of "\<lambda>xs. xs ! k"] k ps by simp
    show ?thesis
    proof (cases "Suc k < ?n")
      case True
      then have lt: "k < ?n - Suc 0" by linarith
      then have "pk_data (fst (ps ! k)) = pk_data (fs ! Suc k) @ []" using data assms(1) by (simp add: nth_append nth_tl)
      then have f: "rdma_fragment b d (frag_cut 4088 N (Suc k)) (fst (ps ! k))"
        using assms(6)[rule_format, of "Suc k"] True unfolding assms(1) by blast
      moreover have "map (frag_cut 4088 N) ([1..<?n] @ [0]) ! k = frag_cut 4088 N (Suc k)" using lt by (simp add: nth_append)
      moreover have "rdma_fragment b (mixed 4088 d d') (frag_cut 4088 N (Suc k)) (fst (ps ! k))"
      proof (rule rdma_fragment_cong[OF f])
        show "length (mixed 4088 d d') = length d" using m(1) assms(4) by simp
        show "peek_at (nat (fst (frag_cut 4088 N (Suc k)))) (snd (frag_cut 4088 N (Suc k))) (mixed 4088 d d')
            = peek_at (nat (fst (frag_cut 4088 N (Suc k)))) (snd (frag_cut 4088 N (Suc k))) d"
          unfolding frag_cut_def fst_conv snd_conv nat_int by (rule m(3)) simp
      qed
      ultimately show ?thesis by simp
    next
      case False
      then have l: "k = ?n - Suc 0" using k by linarith
      then have "pk_data (fst (ps ! k)) = pk_data (fs' ! 0) @ []" using data assms(1) by (simp add: nth_append)
      then have f: "rdma_fragment b d' (frag_cut 4088 N 0) (fst (ps ! k))"
        using assms(7)[rule_format, of 0] n unfolding assms(2) by blast
      moreover have "map (frag_cut 4088 N) ([1..<?n] @ [0]) ! k = frag_cut 4088 N 0" using l by (simp add: nth_append)
      moreover have "rdma_fragment b (mixed 4088 d d') (frag_cut 4088 N 0) (fst (ps ! k))"
        by (rule rdma_fragment_cong[OF f]) (use m(1,2) assms(3,5) in \<open>simp_all add: frag_cut_def\<close>)
      ultimately show ?thesis by simp
    qed
  qed
  then show ?thesis using ps by simp
qed

section \<open>Properties\<close>

text \<open>C2: Messages mix. Of two messages of the same length between the same ports, whatever their numbers,
  let the first fragment of the first be lost: when the first fragment of the second
  arrives, the receiver's buffer takes it for the missing one and returns a complete message
  whose first 4088 bytes are those of the second and whose other bytes those of the first.\<close>

theorem rdma_messages_mixed:
  assumes "rdma_sendable p sp dp" "totalLength p = dataLength p" "dataLength p = 8 + N"
    and "rdma_sendable p' sp dp" "totalLength p' = dataLength p'" "dataLength p' = 8 + N" "4088 < N"
    and "rs_crcMode s \<noteq> CRC_MODE_UNDEFINED" "rs_crcMode s' = rs_crcMode s" "b = rdma_message_header sp dp s"
  shows "\<exists>fs t fs' t'. rdma_handleUpperPacket now parentId rnd1 rnd2 p s = Inr (map SendLower fs, t) \<and>
    rdma_handleUpperPacket now' parentId rnd1' rnd2' p' s' = Inr (map SendLower fs', t') \<and>
    (\<forall>bufs ps. map_ok bufs \<and> map_of bufs (message_key sp dp) = None \<and>
        map (\<lambda>x. pk_data (fst x)) ps = map pk_data (tl fs @ [fs' ! 0]) \<longrightarrow>
      (\<exists>q h bufs'. add_all rdma_addFragment ps bufs = Inr (replicate (length ps - 1) None @ [Some q], bufs') \<and>
         pk_data q = header_cells (RdmaH h)
           @ mixed 4088 (rdma_received_payload b N (pk_data p)) (rdma_received_payload b N (pk_data p'))))"
proof -
  let ?d = "rdma_received_payload b N (pk_data p)" and ?d' = "rdma_received_payload b N (pk_data p')"
  have N: "4080 < N" "0 < N" using assms(7) by simp_all
  have b': "rdma_message_header sp dp s' = b" using assms(9,10) by (simp add: rdma_message_header_def)
  have mode: "rs_crcMode s' \<noteq> CRC_MODE_UNDEFINED" using assms(8,9) by simp
  have len: "length ?d = N" "length ?d' = N" using assms(3,6) by (simp_all add: rdma_received_payload_length)
  obtain fs t where fs: "rdma_handleUpperPacket now parentId rnd1 rnd2 p s = Inr (map SendLower fs, t)" "length fs = frag_count 4088 N"
    "\<forall>j < length fs. \<forall>u pad. pk_data u = pk_data (fs ! j) @ pad \<longrightarrow> rdma_fragment b ?d (frag_cut 4088 N j) u"
    using large_message_fragments[OF assms(1,8,2,3) N(1), of now parentId rnd1 rnd2] unfolding assms(10) by blast
  obtain fs' t' where fs': "rdma_handleUpperPacket now' parentId rnd1' rnd2' p' s' = Inr (map SendLower fs', t')" "length fs' = frag_count 4088 N"
    "\<forall>j < length fs'. \<forall>u pad. pk_data u = pk_data (fs' ! j) @ pad \<longrightarrow> rdma_fragment b ?d' (frag_cut 4088 N j) u"
    using large_message_fragments[OF assms(4) mode assms(5,6) N(1), of now' parentId rnd1' rnd2'] unfolding b' by blast
  have "\<exists>q h bufs'. add_all rdma_addFragment ps bufs = Inr (replicate (length ps - 1) None @ [Some q], bufs') \<and>
      pk_data q = header_cells (RdmaH h) @ mixed 4088 ?d ?d'"
    if bufs: "map_ok bufs" "map_of bufs (message_key sp dp) = None" and ps: "map (\<lambda>x. pk_data (fst x)) ps = map pk_data (tl fs @ [fs' ! 0])" for bufs ps
  proof -
    let ?n = "frag_count 4088 N" and ?m = "mixed 4088 ?d ?d'"
    let ?js = "[1..<?n] @ [0]"
    have n: "0 < ?n" unfolding frag_count_less[OF zero_less_numeral] using N(2) by simp
    have f: "length ps = ?n" "\<forall>k < length ps. rdma_fragment b ?m (map (frag_cut 4088 N) ?js ! k) (fst (ps ! k))"
      using mixed_fragments[OF fs(2) fs'(2) assms(7) len fs(3) fs'(3) ps] by simp_all
    have lm: "length ?m = N" using mixed_piece(1)[OF len] assms(7) by simp
    then have ne: "?m \<noteq> []" "ps \<noteq> []" "length (map (frag_cut 4088 N) ?js) = length ps" using N(2) f(1) n by auto
    have js: "distinct ?js" "set ?js = {..<?n}" using n by auto
    from rdma_reassembly_run[OF ne(1) bufs(1) ne(2,3) bufs(2)[unfolded message_key_header[of sp dp s] assms(10)[symmetric]] f(2)
        frag_cuts_cover[OF _ js N(2) lm]]
    show ?thesis by auto
  qed
  then show ?thesis using fs(1) fs'(1) by blast
qed

theorem rdma_messages_mixed_witness:
  "\<exists>fs t fs' t' q h bufs'.
    rdma_handleUpperPacket 0 3 0 0 (rdma_example_packet 9000) (rdma_init CRC_DECLARED_CORRECT) = Inr (map SendLower fs, t) \<and>
    rdma_handleUpperPacket 5 3 0 0 ((rdma_example_packet 9000)\<lparr>pk_content := replicate 9000 (Data 9)\<rparr>) (rdma_init CRC_DECLARED_CORRECT\<lparr>rs_numSent := 1\<rparr>)
      = Inr (map SendLower fs', t') \<and>
    add_all rdma_addFragment (map (\<lambda>f. (f, 9)) (tl fs @ [fs' ! 0])) [] = Inr (replicate (length fs - 1) None @ [Some q], bufs') \<and>
    pk_data q = header_cells (RdmaH h) @ mixed 4088
      (rdma_received_payload (rdma_message_header 1000 2000 (rdma_init CRC_DECLARED_CORRECT)) 8992 (pk_data (rdma_example_packet 9000)))
      (rdma_received_payload (rdma_message_header 1000 2000 (rdma_init CRC_DECLARED_CORRECT)) 8992
         (pk_data ((rdma_example_packet 9000)\<lparr>pk_content := replicate 9000 (Data 9)\<rparr>)))"
proof -
  let ?p = "rdma_example_packet 9000" and ?p' = "(rdma_example_packet 9000)\<lparr>pk_content := replicate 9000 (Data 9)\<rparr>"
  let ?s = "rdma_init CRC_DECLARED_CORRECT"
  have p: "totalLength ?p = dataLength ?p" "dataLength ?p = 8 + 8992" by simp_all
  have p': "rdma_sendable ?p' 1000 2000" "totalLength ?p' = dataLength ?p'" "dataLength ?p' = 8 + 8992"
    using rdma_example_sendable[of 9000]
    by (simp_all add: rdma_sendable_def rdma_example_packet_def packet_ok_def dataLength_def totalLength_def new_packet_def)
  have s: "rs_crcMode ?s \<noteq> CRC_MODE_UNDEFINED" "rs_crcMode (?s\<lparr>rs_numSent := 1\<rparr>) = rs_crcMode ?s" by (simp_all add: rdma_init_def)
  have big: "4088 < (8992::nat)" by simp
  obtain fs t fs' t' where r: "rdma_handleUpperPacket 0 3 0 0 ?p ?s = Inr (map SendLower fs, t)"
    "rdma_handleUpperPacket 5 3 0 0 ?p' (?s\<lparr>rs_numSent := 1\<rparr>) = Inr (map SendLower fs', t')"
    "\<And>bufs ps. map_ok bufs \<and> map_of bufs (message_key 1000 2000) = None \<and>
        map (\<lambda>x. pk_data (fst x)) ps = map pk_data (tl fs @ [fs' ! 0]) \<Longrightarrow>
      \<exists>q h bufs'. add_all rdma_addFragment ps bufs = Inr (replicate (length ps - 1) None @ [Some q], bufs') \<and>
         pk_data q = header_cells (RdmaH h) @ mixed 4088 (rdma_received_payload (rdma_message_header 1000 2000 ?s) 8992 (pk_data ?p))
           (rdma_received_payload (rdma_message_header 1000 2000 ?s) 8992 (pk_data ?p'))"
    using rdma_messages_mixed[OF rdma_example_sendable p p' big s refl, of 0 3 0 0 5 0 0] by blast
  have "map_ok ([] :: port_key frag_bufs)" by (simp add: map_ok_def)
  with r(3)[of "[]" "map (\<lambda>f. (f, 9)) (tl fs @ [fs' ! 0])"] show ?thesis
    using r(1,2) by (fastforce simp: comp_def)
qed

section \<open>A computed checksum\<close>

text \<open>C25: The post-routing hook that computes the checksum puts a copy of the RDMA header back: whatever
  the header said, it now says that the datagram is not a fragment, and so the receiving
  application takes each fragment of a message, headers and all, for a message of its own.\<close>

theorem rdma_hook_unfragments:
  assumes "packet_ok p" "pk_front p = 0" "pk_back p = 0"
    and "t_interfaceInd (pk_tags p) = None" "t_packetProtocol (pk_tags p) = Some P_ipv4" "t_networkInd (pk_tags p) = Some (net, Some (Ipv4H nh))"
    and "findProtocol ipprotocol (ih_protocolId nh) = Some P_rdma" "\<not> ih_moreFragments nh" "ih_fragmentOffset nh = 0"
    and "pk_data p = header_cells (Ipv4H nh) @ header_cells (RdmaH h) @ dat" "rh_crcMode h = CRC_COMPUTED"
    and "cells_serialize dat = Inr bs"
  shows "\<exists>q crc. rdma_datagramPostRoutingHook p = Inr q \<and> pk_data q = header_cells (Ipv4H nh) @ header_cells (RdmaH (h\<lparr>rh_crc := crc,
      rh_moreFragments := False, rh_fragmentOffset := 0, rh_identification := 0\<rparr>)) @ dat \<and>
    (\<forall>r pad now bufs. pk_data r = header_cells (RdmaH (h\<lparr>rh_crc := crc,
        rh_moreFragments := False, rh_fragmentOffset := 0, rh_identification := 0\<rparr>)) @ dat @ pad \<longrightarrow>
      app_rdma_stage r now bufs = Inr (Some r, bufs))"
proof -
  let ?dup = "rdma_dup h"
  let ?src = "L3IPv4 (ih_srcAddress nh)" and ?dest = "L3IPv4 (ih_destAddress nh)"
  have u: "removeAtFront as_ipv4 p = bindE (eraseAt (pk_front p) (header_length (Ipv4H nh)) p) (\<lambda>p. Inr (nh, p))"
    using assms(10) by (simp add: removeAtFront_def)
  obtain p1 where p1: "removeAtFront as_ipv4 p = Inr (nh, p1)" "packet_ok p1" "pk_data p1 = header_cells (RdmaH h) @ dat"
    "pk_front p1 = 0" "pk_back p1 = 0"
    using removeAtFront_ok[of p "Ipv4H nh" _ as_ipv4 nh, OF assms(10)] assms(2,3) by auto
  have e: "eraseAt (pk_front p) (header_length (Ipv4H nh)) p = Inr p1"
    using p1(1) unfolding u bindE_eq_Inr by blast
  obtain p2 where p2: "removeAtFront as_rdma p1 = Inr (h, p2)" "packet_ok p2" "pk_data p2 = dat" "pk_front p2 = 0" "pk_back p2 = 0"
    using removeAtFront_ok[of p1 "RdmaH h" dat as_rdma h, OF p1(3)] p1(4,5) by auto
  obtain ph where "pseudo_serialize P_ipv4 ?src ?dest IP_PROT_RDMA (8 + int (length (pk_data p2))) = Inr ph" by (simp add: pseudo_serialize_def)
  then obtain crc where crc: "rdma_insertCrc P_ipv4 ?src ?dest ?dup p2 = Inr (?dup\<lparr>rh_crc := crc, rh_crcMode := CRC_COMPUTED\<rparr>)"
    using assms(11,12) p2(3) by (simp add: rdma_insertCrc_def rdma_computeCrc_def rdma_serialize_def serializable_def rdma_dup_eq Let_def)
  have "?dup\<lparr>rh_crc := crc, rh_crcMode := CRC_COMPUTED\<rparr> = ?dup\<lparr>rh_crc := crc\<rparr>"
    using assms(11) by (cases h) (simp add: rdma_dup_eq)
  with crc have c: "rdma_insertCrc P_ipv4 ?src ?dest ?dup p2 = Inr (?dup\<lparr>rh_crc := crc\<rparr>)" by simp
  let ?h = "?dup\<lparr>rh_crc := crc\<rparr>"
  have ne: "header_cells (RdmaH ?h) \<noteq> []" "header_cells (Ipv4H nh) \<noteq> []" by (simp_all add: header_cells_def)
  obtain p3 where p3: "insertAtFront (header_cells (RdmaH ?h)) p2 = Inr p3" using insertAtFront_eq[OF p2(2) ne(1)] by blast
  note k3 = insertAtFront_ok[OF p2(2) ne(1) p3]
  obtain q where q: "insertAtFront (header_cells (Ipv4H nh)) p3 = Inr q" using insertAtFront_eq[OF _ ne(2), of p3] k3 by blast
  have kq: "pk_data q = header_cells (Ipv4H nh) @ header_cells (RdmaH ?h) @ dat" using insertAtFront_ok[OF _ ne(2) q] k3 p2(3) by simp
  have hook: "rdma_datagramPostRoutingHook p = Inr q"
    using assms(4-9,11) e p2(1) c p3 q by (simp add: rdma_datagramPostRoutingHook_def Let_def) (simp add: rdma_dup_eq)
  have eq: "?h = h\<lparr>rh_crc := crc, rh_moreFragments := False, rh_fragmentOffset := 0, rh_identification := 0\<rparr>" by (simp add: rdma_dup_eq)
  have "app_rdma_stage r now bufs = Inr (Some r, bufs)" if "pk_data r = header_cells (RdmaH ?h) @ dat @ pad" for r pad now bufs
  proof -
    have "peekAtFront as_rdma r = Inr ?h" by (rule peekAtFront_header[OF that]) simp_all
    then show ?thesis by (simp add: app_rdma_stage_def rdma_dup_eq)
  qed
  then show ?thesis using hook kq unfolding eq by blast
qed

definition example_fragment_header :: rdma_header where
  "example_fragment_header = new_rdma_header\<lparr>rh_srcPort := 1000, rh_destPort := 2000, rh_totalLength := 10,
     rh_crcMode := CRC_COMPUTED, rh_moreFragments := True\<rparr>"

definition example_fragment_datagram :: packet where
  "example_fragment_datagram = (new_packet ''m-frag-0'' 0)\<lparr>pk_content := header_cells (Ipv4H (example_ipv4_header\<lparr>ih_protocolId := 20\<rparr>))
       @ header_cells (RdmaH example_fragment_header) @ [Data 1, Data 2],
     pk_tags := no_tags\<lparr>t_packetProtocol := Some P_ipv4, t_networkInd := Some (P_ipv4, Some (Ipv4H (example_ipv4_header\<lparr>ih_protocolId := 20\<rparr>)))\<rparr>\<rparr>"

theorem rdma_hook_unfragments_witness:
  "\<exists>q. rdma_datagramPostRoutingHook example_fragment_datagram = Inr q \<and>
    app_rdma_stage ((new_packet ''in'' 0)\<lparr>pk_content := drop 20 (pk_data q)\<rparr>) 5 []
      = Inr (Some ((new_packet ''in'' 0)\<lparr>pk_content := drop 20 (pk_data q)\<rparr>), [])"
proof -
  let ?p = example_fragment_datagram and ?nh = "example_ipv4_header\<lparr>ih_protocolId := 20\<rparr>"
  have p: "packet_ok ?p" "pk_front ?p = 0" "pk_back ?p = 0" "t_interfaceInd (pk_tags ?p) = None" "t_packetProtocol (pk_tags ?p) = Some P_ipv4"
    "t_networkInd (pk_tags ?p) = Some (P_ipv4, Some (Ipv4H ?nh))"
    "pk_data ?p = header_cells (Ipv4H ?nh) @ header_cells (RdmaH example_fragment_header) @ [Data 1, Data 2]"
    by (simp_all add: example_fragment_datagram_def new_packet_def packet_ok_def no_tags_def pk_data_alt)
  have nh: "findProtocol ipprotocol (ih_protocolId ?nh) = Some P_rdma" "\<not> ih_moreFragments ?nh" "ih_fragmentOffset ?nh = 0"
    by (simp_all add: findProtocol_def ipprotocol_def example_ipv4_header_def)
  have h: "rh_crcMode example_fragment_header = CRC_COMPUTED" "cells_serialize [Data 1, Data 2] = Inr [1, 2]"
    by (simp_all add: example_fragment_header_def)
  obtain q crc where q: "rdma_datagramPostRoutingHook ?p = Inr q" "pk_data q = header_cells (Ipv4H ?nh)
      @ header_cells (RdmaH (example_fragment_header\<lparr>rh_crc := crc, rh_moreFragments := False, rh_fragmentOffset := 0, rh_identification := 0\<rparr>)) @ [Data 1, Data 2]"
    "\<And>r pad now bufs. pk_data r = header_cells (RdmaH (example_fragment_header\<lparr>rh_crc := crc,
        rh_moreFragments := False, rh_fragmentOffset := 0, rh_identification := 0\<rparr>)) @ [Data 1, Data 2] @ pad \<Longrightarrow>
      app_rdma_stage r now bufs = Inr (Some r, bufs)"
    using rdma_hook_unfragments[OF p(1-6) nh p(7) h] by blast
  have l: "length (header_cells (Ipv4H ?nh)) = 20" by (simp add: example_ipv4_header_def)
  have d: "drop 20 (pk_data q) = header_cells (RdmaH (example_fragment_header\<lparr>rh_crc := crc,
        rh_moreFragments := False, rh_fragmentOffset := 0, rh_identification := 0\<rparr>)) @ [Data 1, Data 2] @ []"
    unfolding q(2) append_Nil2 using l by simp
  show ?thesis using q(1) q(3)[of "(new_packet ''in'' 0)\<lparr>pk_content := drop 20 (pk_data q)\<rparr>" "[]"] d
    by (simp add: pk_data_alt new_packet_def)
qed

end
