(* ===== verification/Udp_Sockets.thy ===== *)
theory Udp_Sockets
  imports Routing_Table
begin

text \<open>
  The sockets of the UDP module (\<open>transportlayer/udp/Udp.{h,cc}\<close>): the two maps that hold them,
  by socket id and by local port, the ephemeral ports, the commands of the applications
  (bind, connect, options, multicast memberships, close, destroy) and the choice of the
  sockets that receive a datagram. A socket descriptor is allocated only for an id that is
  not in \<open>socketsByIdMap\<close>, so the id stands for the pointer in the lists of
  \<open>socketsByPortMap\<close>. Calls that change a network interface are outputs.
\<close>

section \<open>Descriptors\<close>

datatype filter_mode = IncludeSources | ExcludeSources

record membership =
  mm_address :: l3_address
  mm_interfaceId :: int
  mm_mode :: filter_mode
  mm_sources :: "l3_address list"

record sock_desc =
  sd_sockId :: int
  sd_isBound :: bool
  sd_onlyLocalPortIsSet :: bool
  sd_reuseAddr :: bool
  sd_localAddr :: l3_address
  sd_remoteAddr :: l3_address
  sd_localPort :: int
  sd_remotePort :: int
  sd_isBroadcast :: bool
  sd_multicastOutputInterfaceId :: int
  sd_multicastLoop :: bool
  sd_ttl :: int
  sd_dscp :: int
  sd_tos :: int
  sd_memberships :: "membership list"

definition new_sock_desc :: "int \<Rightarrow> sock_desc" where
  "new_sock_desc sockId = \<lparr>sd_sockId = sockId, sd_isBound = False, sd_onlyLocalPortIsSet = False, sd_reuseAddr = False,
     sd_localAddr = L3None, sd_remoteAddr = L3None, sd_localPort = -1, sd_remotePort = -1, sd_isBroadcast = False,
     sd_multicastOutputInterfaceId = -1, sd_multicastLoop = True, sd_ttl = -1, sd_dscp = -1, sd_tos = -1,
     sd_memberships = []\<rparr>"

record udp_sockets =
  us_byId :: "(int \<times> sock_desc) list"
  us_byPort :: "(int \<times> int list) list"
  us_lastEphemeralPort :: port

definition no_sockets :: udp_sockets where
  "no_sockets = \<lparr>us_byId = [], us_byPort = [], us_lastEphemeralPort = 1024\<rparr>"

definition clearAllSockets :: "udp_sockets \<Rightarrow> udp_sockets" where
  "clearAllSockets us = us\<lparr>us_byId := [], us_byPort := []\<rparr>"

definition socketsByPort :: "udp_sockets \<Rightarrow> int \<Rightarrow> int list" where
  "socketsByPort us port = (case map_of (us_byPort us) port of Some ids \<Rightarrow> ids | None \<Rightarrow> [])"

text \<open>The descriptors in the list of a port, in its order; a port without a list has none.\<close>

definition port_sockets :: "udp_sockets \<Rightarrow> int \<Rightarrow> sock_desc list" where
  "port_sockets us port = List.map_filter (map_of (us_byId us)) (socketsByPort us port)"

definition update_socket :: "int \<Rightarrow> (sock_desc \<Rightarrow> sock_desc) \<Rightarrow> udp_sockets \<Rightarrow> udp_sockets" where
  "update_socket sockId f us = us\<lparr>us_byId := map (\<lambda>(i, sd). (i, if i = sockId then f sd else sd)) (us_byId us)\<rparr>"

section \<open>Ephemeral ports\<close>

definition EPHEMERAL_START :: port where
  "EPHEMERAL_START = 1024"

definition EPHEMERAL_END :: port where
  "EPHEMERAL_END = 5000"

definition next_port :: "port \<Rightarrow> port" where
  "next_port p = (let p = p + 1 in if p = EPHEMERAL_END then EPHEMERAL_START else p)"

text \<open>
  The loop of \<open>getEphemeralPort\<close> from the port \<open>p\<close>, with fuel: \<open>None\<close> when it has not ended
  after \<open>n\<close> ports. \<open>Inl\<close> is the raise when the search is back at its starting point.
\<close>

fun port_search :: "nat \<Rightarrow> (port \<Rightarrow> bool) \<Rightarrow> port \<Rightarrow> port \<Rightarrow> port res option" where
  "port_search 0 used searchUntil p = None"
| "port_search (Suc n) used searchUntil p =
    (if \<not> used p then Some (Inr p)
     else if p = searchUntil then Some (Inl (RuntimeError ''Ephemeral port range exhausted, all ports occupied''))
     else port_search n used searchUntil (next_port p))"

definition port_used :: "udp_sockets \<Rightarrow> port \<Rightarrow> bool" where
  "port_used us p \<longleftrightarrow> map_of (us_byPort us) (uint p) \<noteq> None"

definition getEphemeralPort :: "udp_sockets \<Rightarrow> (port \<times> udp_sockets) res" where
  "getEphemeralPort us =
    (case port_search 65536 (port_used us) (us_lastEphemeralPort us) (next_port (us_lastEphemeralPort us)) of
       None \<Rightarrow> Inl (RuntimeError ''getEphemeralPort does not return'')
     | Some r \<Rightarrow> bindE r (\<lambda>p. Inr (p, us\<lparr>us_lastEphemeralPort := p\<rparr>)))"

section \<open>Creating, binding, connecting and closing\<close>

definition createSocket :: "int \<Rightarrow> l3_address \<Rightarrow> int \<Rightarrow> udp_sockets \<Rightarrow> udp_sockets res" where
  "createSocket sockId localAddr localPort us =
    bindE (if localPort = -1 then bindE (getEphemeralPort us) (\<lambda>(p, us). Inr (uint p, us)) else Inr (localPort, us)) (\<lambda>(port, us).
      let sd = (new_sock_desc sockId)\<lparr>sd_localAddr := localAddr, sd_localPort := port,
                 sd_onlyLocalPortIsSet := l3_isUnspecified localAddr\<rparr>
      in Inr (us\<lparr>us_byId := map_insert sockId sd (us_byId us),
                 us_byPort := map_insert port (socketsByPort us port @ [sockId]) (us_byPort us)\<rparr>))"

text \<open>The port is converted to \<open>ushort\<close> by the call.\<close>

definition findFirstSocketByLocalAddress :: "l3_address \<Rightarrow> int \<Rightarrow> udp_sockets \<Rightarrow> sock_desc option" where
  "findFirstSocketByLocalAddress localAddr localPort us =
    find (\<lambda>sd. l3_isUnspecified (sd_localAddr sd) \<or> sd_localAddr sd = localAddr) (port_sockets us (localPort mod 2 ^ 16))"

definition move_to_port :: "int \<Rightarrow> int \<Rightarrow> int \<Rightarrow> udp_sockets \<Rightarrow> udp_sockets" where
  "move_to_port sockId old new us =
    (let byPort = map_insert old (filter (\<lambda>i. i \<noteq> sockId) (socketsByPort us old)) (us_byPort us);
         us = us\<lparr>us_byPort := byPort\<rparr>
     in update_socket sockId (\<lambda>sd. sd\<lparr>sd_localPort := new\<rparr>)
          (us\<lparr>us_byPort := map_insert new (socketsByPort us new @ [sockId]) byPort\<rparr>))"

definition udp_bind :: "int \<Rightarrow> l3_address \<Rightarrow> int \<Rightarrow> udp_sockets \<Rightarrow> udp_sockets res" where
  "udp_bind sockId localAddr localPort us =
    (if sockId = -1 then Inl (RuntimeError ''sockId in BIND message not filled in'')
     else if localPort < -1 \<or> localPort > 65535 then Inl (RuntimeError ''bind: invalid local port number'')
     else
       let sd = map_of (us_byId us) sockId;
           existing = findFirstSocketByLocalAddress localAddr localPort us
       in if (case existing of None \<Rightarrow> False
              | Some e \<Rightarrow> (case sd of None \<Rightarrow> True | Some sd \<Rightarrow> \<not> sd_reuseAddr sd \<or> \<not> sd_reuseAddr e))
          then Inl (RuntimeError ''bind: local address/port already taken'')
          else case sd of
            Some sd \<Rightarrow>
              if sd_isBound sd then Inl (RuntimeError ''bind: socket is already bound'')
              else
                let us = update_socket sockId (\<lambda>sd. sd\<lparr>sd_isBound := True, sd_localAddr := localAddr\<rparr>) us
                in Inr (if localPort \<noteq> -1 \<and> sd_localPort sd \<noteq> localPort
                        then move_to_port sockId (sd_localPort sd) localPort us else us)
          | None \<Rightarrow>
              bindE (createSocket sockId localAddr localPort us) (\<lambda>us.
                Inr (update_socket sockId (\<lambda>sd. sd\<lparr>sd_isBound := True\<rparr>) us)))"

definition getOrCreateSocket :: "int \<Rightarrow> udp_sockets \<Rightarrow> udp_sockets res" where
  "getOrCreateSocket sockId us =
    (if sockId = -1 then Inl (RuntimeError ''sockId in Udp command not filled in'')
     else if map_of (us_byId us) sockId \<noteq> None then Inr us
     else createSocket sockId L3None (-1) us)"

definition udp_connect :: "int \<Rightarrow> l3_address \<Rightarrow> int \<Rightarrow> udp_sockets \<Rightarrow> udp_sockets res" where
  "udp_connect sockId remoteAddr remotePort us =
    (if l3_isUnspecified remoteAddr then Inl (RuntimeError ''connect: unspecified remote address'')
     else if remotePort \<le> 0 \<or> remotePort > 65535 then Inl (RuntimeError ''connect: invalid remote port number'')
     else bindE (getOrCreateSocket sockId us) (\<lambda>us.
       Inr (update_socket sockId (\<lambda>sd. sd\<lparr>sd_remoteAddr := remoteAddr, sd_remotePort := remotePort,
              sd_onlyLocalPortIsSet := False\<rparr>) us)))"

text \<open>\<open>close\<close> and \<open>destroySocket(int)\<close>, which differ in what they log.\<close>

definition destroySocket :: "int \<Rightarrow> udp_sockets \<Rightarrow> udp_sockets" where
  "destroySocket sockId us =
    (case map_of (us_byId us) sockId of
       None \<Rightarrow> us
     | Some sd \<Rightarrow>
       let ids = remove1 sockId (socketsByPort us (sd_localPort sd));
           byPort = map_insert (sd_localPort sd) ids (us_byPort us)
       in us\<lparr>us_byId := map_erase sockId (us_byId us),
             us_byPort := (if ids = [] then map_erase (sd_localPort sd) byPort else byPort)\<rparr>)"

section \<open>Multicast memberships\<close>

definition lessMembership :: "l3_address \<times> int \<Rightarrow> l3_address \<times> int \<Rightarrow> bool" where
  "lessMembership x y =
    (if fst x \<noteq> fst y then l3_less (fst x) (fst y)
     else if snd x = -1 \<or> snd x \<ge> snd y then False else True)"

definition mm_key :: "membership \<Rightarrow> l3_address \<times> int" where
  "mm_key m = (mm_address m, mm_interfaceId m)"

definition membership_pos :: "l3_address \<Rightarrow> int \<Rightarrow> membership list \<Rightarrow> nat" where
  "membership_pos a i ms = lower_bound (\<lambda>m. lessMembership (mm_key m) (a, i)) ms"

definition findFirstMulticastMembership :: "l3_address \<Rightarrow> membership list \<Rightarrow> nat option" where
  "findFirstMulticastMembership a ms =
    (let k = membership_pos a 0 ms in if k < length ms \<and> mm_address (ms ! k) = a then Some k else None)"

definition findMulticastMembership :: "l3_address \<Rightarrow> int \<Rightarrow> membership list \<Rightarrow> nat option" where
  "findMulticastMembership a i ms =
    (let k = membership_pos a i ms
     in if k < length ms \<and> mm_address (ms ! k) = a \<and> mm_interfaceId (ms ! k) = i then Some k else None)"

definition addMulticastMembership :: "membership \<Rightarrow> membership list \<Rightarrow> membership list" where
  "addMulticastMembership m ms =
    (let k = membership_pos (mm_address m) (mm_interfaceId m) ms in take k ms @ m # drop k ms)"

definition deleteMulticastMembership :: "nat \<Rightarrow> membership list \<Rightarrow> membership list" where
  "deleteMulticastMembership k ms = take k ms @ drop (Suc k) ms"

definition isSourceAllowed :: "l3_address \<Rightarrow> membership \<Rightarrow> bool" where
  "isSourceAllowed a m \<longleftrightarrow> mm_mode m = IncludeSources \<and> a \<in> set (mm_sources m)
     \<or> mm_mode m = ExcludeSources \<and> a \<notin> set (mm_sources m)"

datatype if_call =
    AddMulticastAddress int l3_address
  | ChangeMembership int l3_address filter_mode "l3_address list" filter_mode "l3_address list"

definition new_membership :: "l3_address \<Rightarrow> int \<Rightarrow> filter_mode \<Rightarrow> membership" where
  "new_membership a i mode = \<lparr>mm_address = a, mm_interfaceId = i, mm_mode = mode, mm_sources = []\<rparr>"

definition assertMulticast :: "l3_address \<Rightarrow> unit res" where
  "assertMulticast a = bindE (l3_isMulticast a) (\<lambda>b. assertE b ''multicastAddr.isMulticast()'')"

fun joinMulticastGroups :: "network_interface list \<Rightarrow> (l3_address \<times> int) list \<Rightarrow> membership list
    \<Rightarrow> (if_call list \<times> membership list) res" where
  "joinMulticastGroups ift [] ms = Inr ([], ms)"
| "joinMulticastGroups ift ((a, i) # groups) ms =
    bindE (assertMulticast a) (\<lambda>_.
    if findMulticastMembership a i ms \<noteq> None then Inl (RuntimeError ''group is already joined'')
    else
      let ms = addMulticastMembership (new_membership a i ExcludeSources) ms
      in bindE (if i \<noteq> -1 then
                  bindE (getInterfaceById ift i) (\<lambda>ie.
                  bindE (assertE (ie_isMulticast ie) ''ie->isMulticast()'') (\<lambda>_. Inr [AddMulticastAddress i a]))
                else Inr (map (\<lambda>ie. AddMulticastAddress (ie_id ie) a) (filter ie_isMulticast ift))) (\<lambda>calls.
         bindE (joinMulticastGroups ift groups ms) (\<lambda>(rest, ms). Inr (calls @ rest, ms))))"

text \<open>The interfaces beside the addresses; an address without one is joined on all.\<close>

definition join_groups :: "l3_address list \<Rightarrow> int list \<Rightarrow> (l3_address \<times> int) list" where
  "join_groups addrs interfaceIds =
    map (\<lambda>(k, a). (a, if k < length interfaceIds then interfaceIds ! k else -1)) (zip [0..<length addrs] addrs)"

fun leave_calls :: "network_interface list \<Rightarrow> membership list \<Rightarrow> if_call list res" where
  "leave_calls ift [] = Inr []"
| "leave_calls ift (m # ms) =
    bindE (if mm_interfaceId m \<noteq> -1 then
             bindE (getInterfaceById ift (mm_interfaceId m)) (\<lambda>ie.
               Inr [ChangeMembership (ie_id ie) (mm_address m) (mm_mode m) (mm_sources m) IncludeSources []])
           else Inr (map (\<lambda>ie. ChangeMembership (ie_id ie) (mm_address m) (mm_mode m) (mm_sources m) IncludeSources [])
                       (filter ie_isMulticast ift))) (\<lambda>calls.
    bindE (leave_calls ift ms) (\<lambda>rest. Inr (calls @ rest)))"

fun leaveMulticastGroups :: "network_interface list \<Rightarrow> l3_address list \<Rightarrow> membership list
    \<Rightarrow> (if_call list \<times> membership list) res" where
  "leaveMulticastGroups ift [] ms = Inr ([], ms)"
| "leaveMulticastGroups ift (a # addrs) ms =
    (let k = (case findFirstMulticastMembership a ms of Some k \<Rightarrow> k | None \<Rightarrow> length ms);
         left = takeWhile (\<lambda>m. mm_address m = a) (drop k ms);
         ms = take k ms @ dropWhile (\<lambda>m. mm_address m = a) (drop k ms)
     in bindE (leave_calls ift left) (\<lambda>calls.
        bindE (leaveMulticastGroups ift addrs ms) (\<lambda>(rest, ms). Inr (calls @ rest, ms))))"

text \<open>
  The operations on the source list of a membership all look it up on an interface, change its list
  source by source, and report the change to the interface when there was one. A source that is
  not in the list is not added: \<open>add_source\<close> is the loop body of \<open>blockMulticastSources\<close> and of
  \<open>joinMulticastSources\<close>, \<open>remove_source\<close> that of the other two.
\<close>

definition add_source :: "l3_address \<Rightarrow> l3_address list \<times> bool \<Rightarrow> l3_address list \<times> bool" where
  "add_source a s = (case s of (sources, changed) \<Rightarrow>
     if a \<in> set sources then (sources @ [a], True) else (sources, changed))"

definition remove_source :: "l3_address \<Rightarrow> l3_address list \<times> bool \<Rightarrow> l3_address list \<times> bool" where
  "remove_source a s = (case s of (sources, changed) \<Rightarrow>
     if a \<in> set sources then (remove1 a sources, True) else (sources, changed))"

definition multicast_interface :: "network_interface list \<Rightarrow> int \<Rightarrow> l3_address \<Rightarrow> network_interface res" where
  "multicast_interface ift i a =
    bindE (getInterfaceById ift i) (\<lambda>ie.
    bindE (assertE (ie_isMulticast ie) ''ie->isMulticast()'') (\<lambda>_.
    bindE (assertMulticast a) (\<lambda>_. Inr ie)))"

definition blockMulticastSources :: "network_interface list \<Rightarrow> int \<Rightarrow> l3_address \<Rightarrow> l3_address list \<Rightarrow> membership list
    \<Rightarrow> (if_call list \<times> membership list) res" where
  "blockMulticastSources ift i a sourceList ms =
    bindE (multicast_interface ift i a) (\<lambda>ie.
    case findMulticastMembership a (ie_id ie) ms of
      None \<Rightarrow> Inl (RuntimeError ''not a member of group on interface'')
    | Some k \<Rightarrow>
      let m = ms ! k
      in if mm_mode m \<noteq> ExcludeSources then Inl (RuntimeError ''socket was not joined to all sources of group'')
         else let (sources, changed) = fold add_source sourceList (mm_sources m, False)
              in Inr (if changed then [ChangeMembership (ie_id ie) a ExcludeSources (mm_sources m) ExcludeSources sources] else [],
                      ms[k := m\<lparr>mm_sources := sources\<rparr>]))"

definition unblockMulticastSources :: "network_interface list \<Rightarrow> int \<Rightarrow> l3_address \<Rightarrow> l3_address list \<Rightarrow> membership list
    \<Rightarrow> (if_call list \<times> membership list) res" where
  "unblockMulticastSources ift i a sourceList ms =
    bindE (multicast_interface ift i a) (\<lambda>ie.
    case findMulticastMembership a (ie_id ie) ms of
      None \<Rightarrow> Inl (RuntimeError ''not a member of group on interface'')
    | Some k \<Rightarrow>
      let m = ms ! k
      in if mm_mode m \<noteq> ExcludeSources then Inl (RuntimeError ''socket was not joined to all sources of group'')
         else let (sources, changed) = fold remove_source sourceList (mm_sources m, False)
              in Inr (if changed then [ChangeMembership (ie_id ie) a ExcludeSources (mm_sources m) ExcludeSources sources] else [],
                      ms[k := m\<lparr>mm_sources := sources\<rparr>]))"

definition leaveMulticastSources :: "network_interface list \<Rightarrow> int \<Rightarrow> l3_address \<Rightarrow> l3_address list \<Rightarrow> membership list
    \<Rightarrow> (if_call list \<times> membership list) res" where
  "leaveMulticastSources ift i a sourceList ms =
    bindE (multicast_interface ift i a) (\<lambda>ie.
    case findMulticastMembership a (ie_id ie) ms of
      None \<Rightarrow> Inl (RuntimeError ''not a member of group on interface'')
    | Some k \<Rightarrow>
      let m = ms ! k
      in if mm_mode m = ExcludeSources then Inl (RuntimeError ''socket was joined to all sources of group'')
         else let (sources, changed) = fold remove_source sourceList (mm_sources m, False);
                  ms = ms[k := m\<lparr>mm_sources := sources\<rparr>]
              in Inr (if changed then [ChangeMembership (ie_id ie) a ExcludeSources (mm_sources m) ExcludeSources sources] else [],
                      if sources = [] then deleteMulticastMembership k ms else ms))"

text \<open>The membership that is looked up again after \<open>addMulticastMembership\<close> is the one just added.\<close>

definition find_or_add_membership :: "l3_address \<Rightarrow> int \<Rightarrow> membership list \<Rightarrow> nat \<times> membership list" where
  "find_or_add_membership a i ms =
    (case findMulticastMembership a i ms of
       Some k \<Rightarrow> (k, ms)
     | None \<Rightarrow> (membership_pos a i ms, addMulticastMembership (new_membership a i IncludeSources) ms))"

definition joinMulticastSources :: "network_interface list \<Rightarrow> int \<Rightarrow> l3_address \<Rightarrow> l3_address list \<Rightarrow> membership list
    \<Rightarrow> (if_call list \<times> membership list) res" where
  "joinMulticastSources ift i a sourceList ms =
    bindE (multicast_interface ift i a) (\<lambda>ie.
    let (k, ms) = find_or_add_membership a (ie_id ie) ms; m = ms ! k
    in if mm_mode m = ExcludeSources then Inl (RuntimeError ''socket was joined to all sources of group'')
       else let (sources, changed) = fold add_source sourceList (mm_sources m, False)
            in Inr (if changed then [ChangeMembership (ie_id ie) a IncludeSources (mm_sources m) IncludeSources sources] else [],
                    ms[k := m\<lparr>mm_sources := sources\<rparr>]))"

definition setMulticastSourceFilter :: "network_interface list \<Rightarrow> int \<Rightarrow> l3_address \<Rightarrow> filter_mode \<Rightarrow> l3_address list
    \<Rightarrow> membership list \<Rightarrow> (if_call list \<times> membership list) res" where
  "setMulticastSourceFilter ift i a mode sourceList ms =
    bindE (multicast_interface ift i a) (\<lambda>ie.
    let (k, ms) = find_or_add_membership a (ie_id ie) ms; m = ms ! k
    in if mm_mode m \<noteq> mode \<or> mm_sources m \<noteq> sourceList
       then Inr ([ChangeMembership (ie_id ie) a (mm_mode m) (mm_sources m) mode sourceList],
                 ms[k := m\<lparr>mm_mode := mode, mm_sources := sourceList\<rparr>])
       else Inr ([], ms))"

section \<open>Commands of the applications\<close>

datatype udp_option =
    SetTtl int | SetDscp int | SetTos int | SetBroadcast bool | SetMcastIface int | SetMcastLoop bool | SetReuseAddr bool
  | JoinMcastGroups "l3_address list" "int list" | LeaveMcastGroups "l3_address list"
  | BlockMcastSrc int l3_address "l3_address list" | UnblockMcastSrc int l3_address "l3_address list"
  | LeaveMcastSrc int l3_address "l3_address list" | JoinMcastSrc int l3_address "l3_address list"
  | SetMcastSrcFilter int l3_address filter_mode "l3_address list"

datatype udp_command =
    UdpBind int l3_address int | UdpConnect int l3_address int | UdpSetOption int udp_option
  | UdpClose int | UdpDestroy int | UdpUnknown int

datatype command_out = IfCall if_call | ClosedIndication int

text \<open>The options that set a field of the descriptor, and those that change its memberships.\<close>

fun set_option_field :: "udp_option \<Rightarrow> sock_desc \<Rightarrow> sock_desc" where
  "set_option_field (SetTtl n) sd = sd\<lparr>sd_ttl := n\<rparr>"
| "set_option_field (SetDscp n) sd = sd\<lparr>sd_dscp := n\<rparr>"
| "set_option_field (SetTos n) sd = sd\<lparr>sd_tos := n\<rparr>"
| "set_option_field (SetBroadcast b) sd = sd\<lparr>sd_isBroadcast := b\<rparr>"
| "set_option_field (SetMcastIface i) sd = sd\<lparr>sd_multicastOutputInterfaceId := i\<rparr>"
| "set_option_field (SetMcastLoop b) sd = sd\<lparr>sd_multicastLoop := b\<rparr>"
| "set_option_field (SetReuseAddr b) sd = sd\<lparr>sd_reuseAddr := b\<rparr>"
| "set_option_field _ sd = sd"

fun set_option_memberships :: "network_interface list \<Rightarrow> udp_option \<Rightarrow> membership list
    \<Rightarrow> (if_call list \<times> membership list) res" where
  "set_option_memberships ift (JoinMcastGroups addrs is) ms = joinMulticastGroups ift (join_groups addrs is) ms"
| "set_option_memberships ift (LeaveMcastGroups addrs) ms = leaveMulticastGroups ift addrs ms"
| "set_option_memberships ift (BlockMcastSrc i a srcs) ms = blockMulticastSources ift i a srcs ms"
| "set_option_memberships ift (UnblockMcastSrc i a srcs) ms = unblockMulticastSources ift i a srcs ms"
| "set_option_memberships ift (LeaveMcastSrc i a srcs) ms = leaveMulticastSources ift i a srcs ms"
| "set_option_memberships ift (JoinMcastSrc i a srcs) ms = joinMulticastSources ift i a srcs ms"
| "set_option_memberships ift (SetMcastSrcFilter i a mode srcs) ms = setMulticastSourceFilter ift i a mode srcs ms"
| "set_option_memberships ift _ ms = Inr ([], ms)"

definition udp_setOption :: "network_interface list \<Rightarrow> int \<Rightarrow> udp_option \<Rightarrow> udp_sockets
    \<Rightarrow> (if_call list \<times> udp_sockets) res" where
  "udp_setOption ift sockId opt us =
    bindE (getOrCreateSocket sockId us) (\<lambda>us.
    case map_of (us_byId us) sockId of
      None \<Rightarrow> Inl (RuntimeError ''no socket'')
    | Some sd \<Rightarrow>
      bindE (set_option_memberships ift opt (sd_memberships sd)) (\<lambda>(calls, ms).
        Inr (calls, update_socket sockId (\<lambda>sd. (set_option_field opt sd)\<lparr>sd_memberships := ms\<rparr>) us)))"

fun udp_handleCommand :: "network_interface list \<Rightarrow> udp_command \<Rightarrow> udp_sockets \<Rightarrow> (command_out list \<times> udp_sockets) res" where
  "udp_handleCommand ift (UdpBind sockId a port) us = bindE (udp_bind sockId a port us) (\<lambda>us. Inr ([], us))"
| "udp_handleCommand ift (UdpConnect sockId a port) us = bindE (udp_connect sockId a port us) (\<lambda>us. Inr ([], us))"
| "udp_handleCommand ift (UdpSetOption sockId opt) us =
    bindE (udp_setOption ift sockId opt us) (\<lambda>(calls, us). Inr (map IfCall calls, us))"
| "udp_handleCommand ift (UdpClose sockId) us = Inr ([ClosedIndication sockId], destroySocket sockId us)"
| "udp_handleCommand ift (UdpDestroy sockId) us = Inr ([], destroySocket sockId us)"
| "udp_handleCommand ift (UdpUnknown k) us = Inl (RuntimeError ''Unknown command code (message kind) received from app'')"

section \<open>Finding the receivers of a datagram\<close>

definition remote_matches :: "l3_address \<Rightarrow> int \<Rightarrow> sock_desc \<Rightarrow> bool" where
  "remote_matches remoteAddr remotePort sd \<longleftrightarrow>
     (sd_remotePort sd = -1 \<or> sd_remotePort sd = remotePort)
     \<and> (l3_isUnspecified (sd_remoteAddr sd) \<or> sd_remoteAddr sd = remoteAddr)"

definition unicast_matches :: "l3_address \<Rightarrow> l3_address \<Rightarrow> int \<Rightarrow> sock_desc \<Rightarrow> bool" where
  "unicast_matches localAddr remoteAddr remotePort sd \<longleftrightarrow> sd_onlyLocalPortIsSet sd
     \<or> remote_matches remoteAddr remotePort sd \<and> (l3_isUnspecified (sd_localAddr sd) \<or> sd_localAddr sd = localAddr)"

text \<open>The loop over the list of the port, in reverse; \<open>any\<close> is \<open>socketBoundToAnyAddress\<close>.\<close>

fun unicast_loop :: "(sock_desc \<Rightarrow> bool) \<Rightarrow> sock_desc option \<Rightarrow> sock_desc list \<Rightarrow> sock_desc option" where
  "unicast_loop ok any [] = any"
| "unicast_loop ok any (sd # sds) =
    (if ok sd then
       (if l3_isUnspecified (sd_localAddr sd) then unicast_loop ok (Some sd) sds else Some sd)
     else unicast_loop ok any sds)"

definition findSocketForUnicastPacket :: "l3_address \<Rightarrow> int \<Rightarrow> l3_address \<Rightarrow> int \<Rightarrow> udp_sockets \<Rightarrow> sock_desc option" where
  "findSocketForUnicastPacket localAddr localPort remoteAddr remotePort us =
    unicast_loop (unicast_matches localAddr remoteAddr remotePort) None (rev (port_sockets us localPort))"

definition findSocketsForMcastBcastPacket ::
  "l3_address \<Rightarrow> int \<Rightarrow> l3_address \<Rightarrow> int \<Rightarrow> bool \<Rightarrow> bool \<Rightarrow> udp_sockets \<Rightarrow> sock_desc list" where
  "findSocketsForMcastBcastPacket localAddr localPort remoteAddr remotePort isMulticast isBroadcast us =
    filter (\<lambda>sd.
      if isBroadcast then sd_isBroadcast sd \<and> remote_matches remoteAddr remotePort sd
      else case findFirstMulticastMembership localAddr (sd_memberships sd) of
          None \<Rightarrow> False
        | Some k \<Rightarrow> remote_matches remoteAddr remotePort sd \<and> isSourceAllowed remoteAddr (sd_memberships sd ! k))
      (port_sockets us localPort)"

section \<open>The search for an ephemeral port\<close>

text \<open>The ports of the range, in the order of the search; \<open>k\<close> counts modulo their number.\<close>

definition port_at :: "nat \<Rightarrow> port" where
  "port_at k = word_of_nat (1024 + k mod 3976)"

lemma unat_port_at: "unat (port_at k) = 1024 + k mod 3976"
proof -
  have "1024 + k mod 3976 < 65536" using mod_less_divisor[of 3976 k] by linarith
  then show ?thesis unfolding port_at_def unat_of_nat by simp
qed

lemma port_at_eq_iff: "port_at k = port_at j \<longleftrightarrow> k mod 3976 = j mod 3976"
  using unat_port_at by (metis add_left_cancel port_at_def)

lemma next_port_at: "next_port (port_at k) = port_at (Suc k)"
proof -
  have lt: "k mod 3976 < 3976" by simp
  have s: "port_at k + 1 = word_of_nat (1024 + k mod 3976 + 1)" by (simp add: port_at_def)
  have "1024 + k mod 3976 + 1 < 65536" using lt by linarith
  then have u: "unat (port_at k + 1) = 1024 + k mod 3976 + 1"
    unfolding s by (simp only: unat_of_nat) simp
  have "port_at k + 1 = EPHEMERAL_END \<longleftrightarrow> k mod 3976 = 3975"
    using u by (simp add: word_unat_eq_iff EPHEMERAL_END_def)
  then show ?thesis
    using s lt by (simp add: next_port_def EPHEMERAL_START_def port_at_def mod_Suc)
qed

definition ephemeral :: "port \<Rightarrow> bool" where
  "ephemeral p \<longleftrightarrow> EPHEMERAL_START \<le> p \<and> p < EPHEMERAL_END"

lemma ephemeral_port_at: "ephemeral p \<longleftrightarrow> (\<exists>k < 3976. p = port_at k)"
proof
  assume "ephemeral p"
  then have r: "1024 \<le> unat p" "unat p < 5000"
    by (simp_all add: ephemeral_def EPHEMERAL_START_def EPHEMERAL_END_def word_le_nat_alt word_less_nat_alt)
  then have "p = port_at (unat p - 1024)" by (simp add: word_unat_eq_iff unat_port_at)
  then show "\<exists>k < 3976. p = port_at k" using r by (intro exI[of _ "unat p - 1024"]) simp
next
  assume "\<exists>k < 3976. p = port_at k"
  then show "ephemeral p"
    by (auto simp: ephemeral_def EPHEMERAL_START_def EPHEMERAL_END_def word_le_nat_alt word_less_nat_alt unat_port_at)
qed

lemma port_search_from:
  assumes "i \<le> 3975" "3975 - i < n"
  shows "(\<exists>q. port_search n used (port_at j) (port_at (Suc j + i)) = Some (Inr q) \<and> ephemeral q \<and> \<not> used q)
    \<or> (\<exists>e. port_search n used (port_at j) (port_at (Suc j + i)) = Some (Inl e))
      \<and> (\<forall>k. i \<le> k \<and> k \<le> 3975 \<longrightarrow> used (port_at (Suc j + k)))"
  using assms
proof (induction "3975 - i" arbitrary: i n)
  case 0
  then have i: "i = 3975" by simp
  have p: "port_at (Suc j + i) = port_at j" by (simp add: port_at_eq_iff i)
  obtain m where "n = Suc m" using 0 by (cases n) auto
  moreover have "ephemeral (port_at j)" by (auto simp: ephemeral_port_at port_at_eq_iff intro!: exI[of _ "j mod 3976"])
  ultimately show ?case using p i by (cases "used (port_at j)") auto
next
  case (Suc d)
  then have i: "i < 3975" by simp
  obtain m where m: "n = Suc m" using Suc.prems by (cases n) auto
  have ne: "port_at (Suc j + i) \<noteq> port_at j"
  proof
    assume "port_at (Suc j + i) = port_at j"
    then have "(Suc j + i) mod 3976 = j mod 3976" by (simp add: port_at_eq_iff)
    then have "3976 dvd Suc j + i - j" by (simp add: mod_eq_dvd_iff_nat)
    then show False using i by (auto dest: dvd_imp_le)
  qed
  have eph: "ephemeral (port_at (Suc j + i))"
    by (auto simp: ephemeral_port_at port_at_eq_iff intro!: exI[of _ "(Suc j + i) mod 3976"])
  show ?case
  proof (cases "used (port_at (Suc j + i))")
    case True
    have IH: "(\<exists>q. port_search m used (port_at j) (port_at (Suc j + Suc i)) = Some (Inr q) \<and> ephemeral q \<and> \<not> used q)
      \<or> (\<exists>e. port_search m used (port_at j) (port_at (Suc j + Suc i)) = Some (Inl e))
        \<and> (\<forall>k. Suc i \<le> k \<and> k \<le> 3975 \<longrightarrow> used (port_at (Suc j + k)))"
      using Suc.hyps(1)[of "Suc i" m] Suc.hyps(2) Suc.prems m i by simp
    have st: "port_search n used (port_at j) (port_at (Suc j + i)) = port_search m used (port_at j) (port_at (Suc j + Suc i))"
      using True ne m next_port_at[of "Suc j + i"] by simp
    show ?thesis unfolding st using IH True by (metis Suc_leI le_neq_implies_less)
  next
    case False
    then show ?thesis using eph m by simp
  qed
qed

lemma port_search_range:
  assumes "ephemeral s" "3976 \<le> n"
  shows "(\<exists>q. port_search n used s (next_port s) = Some (Inr q) \<and> ephemeral q \<and> \<not> used q)
    \<or> (\<exists>e. port_search n used s (next_port s) = Some (Inl e)) \<and> (\<forall>q. ephemeral q \<longrightarrow> used q)"
proof -
  obtain j where j: "s = port_at j" using assms(1) ephemeral_port_at by blast
  have all: "used q" if u: "\<forall>k. 0 \<le> k \<and> k \<le> 3975 \<longrightarrow> used (port_at (Suc j + k))" and q: "ephemeral q" for q
  proof -
    obtain i where i: "q = port_at i" "i < 3976" using q ephemeral_port_at by blast
    let ?k = "(i + 3976 - (Suc j) mod 3976) mod 3976"
    have "(Suc j) mod 3976 \<le> i + 3976" using mod_less_divisor[of 3976 "Suc j"] by linarith
    then have "((Suc j) mod 3976 + (i + 3976 - (Suc j) mod 3976)) mod 3976 = i mod 3976" by simp
    then have "(Suc j + ?k) mod 3976 = i mod 3976" by (metis mod_add_eq mod_mod_trivial)
    then have "port_at (Suc j + ?k) = q" using i(1) port_at_eq_iff by blast
    moreover have "?k \<le> 3975" using mod_less_divisor[of 3976 "i + 3976 - Suc j mod 3976"] by linarith
    ultimately show ?thesis using u by blast
  qed
  have "next_port s = port_at (Suc j + 0)" using next_port_at j by simp
  then show ?thesis using port_search_from[of 0 n used j] assms(2) all by (simp add: j) blast
qed

lemma getEphemeralPort_range:
  assumes "ephemeral (us_lastEphemeralPort us)"
  shows "(\<exists>p. getEphemeralPort us = Inr (p, us\<lparr>us_lastEphemeralPort := p\<rparr>) \<and> ephemeral p \<and> \<not> port_used us p)
    \<or> getEphemeralPort us = Inl (RuntimeError ''Ephemeral port range exhausted, all ports occupied'')
      \<and> (\<forall>p. ephemeral p \<longrightarrow> port_used us p)"
proof -
  have e: "port_search n used s p = Some (Inl e) \<Longrightarrow> e = RuntimeError ''Ephemeral port range exhausted, all ports occupied''"
    for n used s p e by (induction n used s p rule: port_search.induct) (auto split: if_splits)
  show ?thesis
    using port_search_range[OF assms, of 65536 "port_used us"] by (auto simp: getEphemeralPort_def dest: e)
qed

section \<open>The socket tables are consistent\<close>

definition us_ok :: "udp_sockets \<Rightarrow> bool" where
  "us_ok us \<longleftrightarrow> map_ok (us_byId us) \<and> map_ok (us_byPort us)
     \<and> (\<forall>i sd. map_of (us_byId us) i = Some sd \<longrightarrow>
          sd_sockId sd = i \<and> 0 \<le> sd_localPort sd \<and> sd_localPort sd \<le> 65535 \<and> i \<in> set (socketsByPort us (sd_localPort sd)))
     \<and> (\<forall>p. distinct (socketsByPort us p)
          \<and> (\<forall>i \<in> set (socketsByPort us p). \<exists>sd. map_of (us_byId us) i = Some sd \<and> sd_localPort sd = p))
     \<and> ephemeral (us_lastEphemeralPort us)"

lemma us_okD:
  assumes "us_ok us"
  shows "map_ok (us_byId us)" "map_ok (us_byPort us)" "ephemeral (us_lastEphemeralPort us)"
    "map_of (us_byId us) i = Some sd \<Longrightarrow> sd_sockId sd = i"
    "map_of (us_byId us) i = Some sd \<Longrightarrow> 0 \<le> sd_localPort sd \<and> sd_localPort sd \<le> 65535"
    "map_of (us_byId us) i = Some sd \<Longrightarrow> i \<in> set (socketsByPort us (sd_localPort sd))"
    "distinct (socketsByPort us p)"
    "i \<in> set (socketsByPort us p) \<Longrightarrow> \<exists>sd. map_of (us_byId us) i = Some sd \<and> sd_localPort sd = p"
  using assms by (auto simp: us_ok_def)

lemma no_sockets_ok: "us_ok no_sockets"
  by (simp add: us_ok_def no_sockets_def socketsByPort_def ephemeral_def EPHEMERAL_START_def EPHEMERAL_END_def)

lemma clearAllSockets_ok: "us_ok us \<Longrightarrow> us_ok (clearAllSockets us)"
  by (simp add: us_ok_def clearAllSockets_def socketsByPort_def)

lemma ephemeral_uint: "ephemeral p \<Longrightarrow> 1024 \<le> uint p \<and> uint p \<le> 4999"
  by (auto simp: ephemeral_def EPHEMERAL_START_def EPHEMERAL_END_def word_le_def word_less_def)

lemma socketsByPort_last [simp]: "socketsByPort (us\<lparr>us_lastEphemeralPort := x\<rparr>) = socketsByPort us"
  by (simp add: socketsByPort_def fun_eq_iff)

lemma socketsByPort_byId [simp]: "socketsByPort (us\<lparr>us_byId := x\<rparr>) = socketsByPort us"
  by (simp add: socketsByPort_def fun_eq_iff)

text \<open>A new socket at the end of the list of its port.\<close>

lemma new_socket_ok:
  assumes ok: "us_ok us" and new: "map_of (us_byId us) sockId = None"
    and sd: "sd_sockId sd = sockId" "sd_localPort sd = port" "0 \<le> port" "port \<le> 65535"
    and us': "us' = us\<lparr>us_byId := map_insert sockId sd (us_byId us),
       us_byPort := map_insert port (socketsByPort us port @ [sockId]) (us_byPort us)\<rparr>"
  shows "us_ok us' \<and> map_of (us_byId us') = (map_of (us_byId us))(sockId \<mapsto> sd)"
proof -
  note D = us_okD[OF ok]
  have m: "map_of (us_byId us') = (map_of (us_byId us))(sockId \<mapsto> sd)" using D(1) by (simp add: us' map_of_insert)
  have p: "socketsByPort us' q = (if q = port then socketsByPort us port @ [sockId] else socketsByPort us q)" for q
    using D(2) by (simp add: us' socketsByPort_def map_of_insert)
  have notin: "sockId \<notin> set (socketsByPort us q)" for q using D(8) new by fastforce
  have "us_ok us'"
    unfolding us_ok_def
  proof (intro conjI allI impI ballI)
    show "map_ok (us_byId us')" "map_ok (us_byPort us')" using D(1,2) by (simp_all add: us' map_ok_insert)
    show "ephemeral (us_lastEphemeralPort us')" using D(3) by (simp add: us')
  next
    fix i sd' assume i: "map_of (us_byId us') i = Some sd'"
    show "sd_sockId sd' = i" "0 \<le> sd_localPort sd'" "sd_localPort sd' \<le> 65535"
      using i sd D(4,5) by (auto simp: m split: if_splits)
    show "i \<in> set (socketsByPort us' (sd_localPort sd'))"
      using i sd D(6)[of i sd'] by (auto simp: m p split: if_splits)
  next
    fix q show "distinct (socketsByPort us' q)" using D(7) notin by (simp add: p)
  next
    fix q i assume "i \<in> set (socketsByPort us' q)"
    then show "\<exists>sd. map_of (us_byId us') i = Some sd \<and> sd_localPort sd = q"
      using D(8) notin sd by (auto simp: m p split: if_splits)
  qed
  then show ?thesis using m by simp
qed

lemma createSocket_ok:
  assumes "us_ok us" "map_of (us_byId us) sockId = None" "-1 \<le> localPort" "localPort \<le> 65535"
    and "createSocket sockId localAddr localPort us = Inr us'"
  shows "us_ok us' \<and> (\<exists>port. (localPort \<noteq> -1 \<longrightarrow> port = localPort)
    \<and> map_of (us_byId us') = (map_of (us_byId us))(sockId \<mapsto> (new_sock_desc sockId)\<lparr>sd_localAddr := localAddr,
        sd_localPort := port, sd_onlyLocalPortIsSet := l3_isUnspecified localAddr\<rparr>))"
proof -
  obtain port us1 where 1: "(if localPort = -1 then bindE (getEphemeralPort us) (\<lambda>(p, us). Inr (uint p, us)) else Inr (localPort, us)) = Inr (port, us1)"
    using assms(5) by (auto simp: createSocket_def bindE_eq_Inr)
  have ok1: "us_ok us1 \<and> us_byId us1 = us_byId us \<and> 0 \<le> port \<and> port \<le> 65535 \<and> (localPort \<noteq> -1 \<longrightarrow> port = localPort)"
  proof (cases "localPort = -1")
    case True
    then obtain p where "getEphemeralPort us = Inr (p, us1)" "port = uint p" using 1 by (auto simp: bindE_eq_Inr)
    then show ?thesis using getEphemeralPort_range[OF us_okD(3)[OF assms(1)]] ephemeral_uint[of p] assms(1) True
      by (auto simp: us_ok_def)
  next
    case False
    then show ?thesis using 1 assms by auto
  qed
  define sd where "sd = (new_sock_desc sockId)\<lparr>sd_localAddr := localAddr, sd_localPort := port,
                 sd_onlyLocalPortIsSet := l3_isUnspecified localAddr\<rparr>"
  have us': "us' = us1\<lparr>us_byId := map_insert sockId sd (us_byId us1),
       us_byPort := map_insert port (socketsByPort us1 port @ [sockId]) (us_byPort us1)\<rparr>"
    using assms(5) 1 by (simp add: createSocket_def sd_def)
  have "us_ok us' \<and> map_of (us_byId us') = (map_of (us_byId us1))(sockId \<mapsto> sd)"
    using ok1 assms(2) by (intro new_socket_ok[OF _ _ _ _ _ _ us']) (simp_all add: sd_def new_sock_desc_def)
  then show ?thesis using ok1 sd_def by auto
qed

lemma map_of_update_socket:
  "map_of (us_byId (update_socket sockId f us)) i = map_option (if i = sockId then f else id) (map_of (us_byId us) i)"
proof -
  have "map_of (map (\<lambda>(i, sd). (i, if i = sockId then f sd else sd)) m) i
      = map_option (if i = sockId then f else id) (map_of m i)" for m
    by (induction m) auto
  then show ?thesis by (simp add: update_socket_def)
qed

lemma update_socket_ok:
  assumes ok: "us_ok us" and f: "\<And>sd. sd_sockId (f sd) = sd_sockId sd \<and> sd_localPort (f sd) = sd_localPort sd"
  shows "us_ok (update_socket sockId f us)"
proof -
  note D = us_okD[OF ok]
  have p: "socketsByPort (update_socket sockId f us) = socketsByPort us" by (simp add: update_socket_def)
  show ?thesis
    unfolding us_ok_def
  proof (intro conjI allI impI ballI)
    show "map_ok (us_byId (update_socket sockId f us))" "map_ok (us_byPort (update_socket sockId f us))"
      "ephemeral (us_lastEphemeralPort (update_socket sockId f us))"
      using D(1-3) by (simp_all add: update_socket_def map_ok_map)
    show "distinct (socketsByPort (update_socket sockId f us) q)" for q using D(7) by (simp add: p)
  next
    fix i sd' assume i: "map_of (us_byId (update_socket sockId f us)) i = Some sd'"
    then obtain sd where sd: "map_of (us_byId us) i = Some sd" "sd_sockId sd' = sd_sockId sd" "sd_localPort sd' = sd_localPort sd"
      using f by (auto simp: map_of_update_socket split: if_splits)
    show "sd_sockId sd' = i" "0 \<le> sd_localPort sd'" "sd_localPort sd' \<le> 65535"
      "i \<in> set (socketsByPort (update_socket sockId f us) (sd_localPort sd'))"
      using D(4-6)[OF sd(1)] sd(2,3) by (simp_all add: p)
  next
    fix q i assume "i \<in> set (socketsByPort (update_socket sockId f us) q)"
    then obtain sd where "map_of (us_byId us) i = Some sd" "sd_localPort sd = q" using D(8) by (auto simp: p)
    then show "\<exists>sd. map_of (us_byId (update_socket sockId f us)) i = Some sd \<and> sd_localPort sd = q"
      using f by (simp add: map_of_update_socket)
  qed
qed

lemma move_to_port_ok:
  assumes ok: "us_ok us" and sd: "map_of (us_byId us) sockId = Some sd" "sd_localPort sd = old"
    and new: "0 \<le> new" "new \<le> 65535" "new \<noteq> old"
  shows "us_ok (move_to_port sockId old new us)"
proof -
  note D = us_okD[OF ok]
  let ?us = "move_to_port sockId old new us"
  have i: "map_of (us_byId ?us) i = map_option (if i = sockId then \<lambda>sd. sd\<lparr>sd_localPort := new\<rparr> else id) (map_of (us_byId us) i)" for i
    by (simp add: move_to_port_def Let_def map_of_update_socket)
  have p: "socketsByPort ?us q = (if q = new then socketsByPort us new @ [sockId]
      else if q = old then filter (\<lambda>i. i \<noteq> sockId) (socketsByPort us old) else socketsByPort us q)" for q
    using D(2) new(3)
    by (simp add: move_to_port_def Let_def update_socket_def socketsByPort_def map_of_insert map_ok_insert)
  have only: "sockId \<in> set (socketsByPort us q) \<Longrightarrow> q = old" for q using D(8)[of sockId q] sd by auto
  show ?thesis
    unfolding us_ok_def
  proof (intro conjI allI impI ballI)
    show "map_ok (us_byId ?us)" "map_ok (us_byPort ?us)" "ephemeral (us_lastEphemeralPort ?us)"
      using D(1-3) by (simp_all add: move_to_port_def Let_def update_socket_def map_ok_map map_ok_insert)
    show "distinct (socketsByPort ?us q)" for q using D(7) only new(3) by (auto simp: p)
  next
    fix j sd' assume "map_of (us_byId ?us) j = Some sd'"
    then obtain sd0 where j: "map_of (us_byId us) j = Some sd0" "sd' = (if j = sockId then sd0\<lparr>sd_localPort := new\<rparr> else sd0)"
      by (auto simp: i split: if_splits)
    show "sd_sockId sd' = j" "0 \<le> sd_localPort sd'" "sd_localPort sd' \<le> 65535"
      using D(4,5)[OF j(1)] j(2) new by auto
    show "j \<in> set (socketsByPort ?us (sd_localPort sd'))"
      using D(6)[OF j(1)] j(2) by (auto simp: p)
  next
    fix q j assume "j \<in> set (socketsByPort ?us q)"
    then have c: "(q = new \<and> j = sockId) \<or> (j \<in> set (socketsByPort us q) \<and> j \<noteq> sockId)"
      using only new(3) by (auto simp: p split: if_splits)
    then show "\<exists>sd. map_of (us_byId ?us) j = Some sd \<and> sd_localPort sd = q"
      using sd D(8)[of j q] by (auto simp: i)
  qed
qed

lemma destroySocket_ok:
  assumes ok: "us_ok us"
  shows "us_ok (destroySocket sockId us) \<and> map_of (us_byId (destroySocket sockId us)) = (map_of (us_byId us))(sockId := None)"
proof (cases "map_of (us_byId us) sockId")
  case None
  then show ?thesis using ok by (auto simp: destroySocket_def fun_upd_idem)
next
  case (Some sd)
  note D = us_okD[OF ok]
  let ?us = "destroySocket sockId us" and ?port = "sd_localPort sd"
  have i: "map_of (us_byId ?us) = (map_of (us_byId us))(sockId := None)"
    using Some by (simp add: destroySocket_def Let_def map_of_erase)
  have p: "socketsByPort ?us q = (if q = ?port then remove1 sockId (socketsByPort us q) else socketsByPort us q)" for q
    using Some D(2) by (simp add: destroySocket_def Let_def socketsByPort_def map_of_insert map_of_erase map_ok_insert)
  have only: "sockId \<in> set (socketsByPort us q) \<Longrightarrow> q = ?port" for q using D(8)[of sockId q] Some by auto
  have "us_ok ?us"
    unfolding us_ok_def
  proof (intro conjI allI impI ballI)
    show "map_ok (us_byId ?us)" "map_ok (us_byPort ?us)" "ephemeral (us_lastEphemeralPort ?us)"
      using D(1-3) Some by (simp_all add: destroySocket_def Let_def map_ok_insert map_ok_erase)
    show "distinct (socketsByPort ?us q)" for q using D(7) by (simp add: p)
  next
    fix j sd' assume "map_of (us_byId ?us) j = Some sd'"
    then have j: "j \<noteq> sockId" "map_of (us_byId us) j = Some sd'" by (auto simp: i split: if_splits)
    show "sd_sockId sd' = j" "0 \<le> sd_localPort sd'" "sd_localPort sd' \<le> 65535" using D(4,5)[OF j(2)] by simp_all
    show "j \<in> set (socketsByPort ?us (sd_localPort sd'))" using D(6)[OF j(2)] j(1) by (cases "sd_localPort sd' = ?port") (simp_all add: p)
  next
    fix q j assume "j \<in> set (socketsByPort ?us q)"
    then have "j \<in> set (socketsByPort us q)" "j \<noteq> sockId"
      using only D(7) by (auto simp: p split: if_splits dest: notin_set_remove1)
    then show "\<exists>sd. map_of (us_byId ?us) j = Some sd \<and> sd_localPort sd = q" using D(8) by (simp add: i)
  qed
  then show ?thesis using i by simp
qed

lemma getOrCreateSocket_ok:
  assumes "us_ok us" "getOrCreateSocket sockId us = Inr us'"
  shows "us_ok us' \<and> map_of (us_byId us') sockId \<noteq> None \<and> (\<forall>i. i \<noteq> sockId \<longrightarrow> map_of (us_byId us') i = map_of (us_byId us) i)"
  using assms createSocket_ok[of us sockId "-1" L3None us']
  by (auto simp: getOrCreateSocket_def split: if_splits)

lemma udp_bind_ok:
  assumes ok: "us_ok us" and b: "udp_bind sockId a port us = Inr us'"
  shows "us_ok us'"
proof -
  have port: "-1 \<le> port" "port \<le> 65535" using b by (auto simp: udp_bind_def split: if_splits)
  show ?thesis
  proof (cases "map_of (us_byId us) sockId")
    case None
    then obtain us1 where us1: "createSocket sockId a port us = Inr us1"
      "us' = update_socket sockId (\<lambda>sd. sd\<lparr>sd_isBound := True\<rparr>) us1"
      using b by (auto simp: udp_bind_def Let_def bindE_eq_Inr split: if_splits option.splits)
    then show ?thesis using createSocket_ok[OF ok None port us1(1)] update_socket_ok by simp
  next
    case (Some sd)
    let ?us = "update_socket sockId (\<lambda>sd. sd\<lparr>sd_isBound := True, sd_localAddr := a\<rparr>) us"
    have ok1: "us_ok ?us" using ok by (intro update_socket_ok) simp_all
    have sd: "map_of (us_byId ?us) sockId = Some (sd\<lparr>sd_isBound := True, sd_localAddr := a\<rparr>)"
      using Some by (simp add: map_of_update_socket)
    have "us' = (if port \<noteq> -1 \<and> sd_localPort sd \<noteq> port then move_to_port sockId (sd_localPort sd) port ?us else ?us)"
      using b Some by (auto simp: udp_bind_def Let_def split: if_splits option.splits)
    then show ?thesis using move_to_port_ok[OF ok1 sd, of "sd_localPort sd" port] ok1 port by auto
  qed
qed

lemma set_option_field_keeps:
  "sd_sockId (set_option_field opt sd) = sd_sockId sd \<and> sd_localPort (set_option_field opt sd) = sd_localPort sd"
  by (cases opt) simp_all

lemma udp_handleCommand_ok:
  assumes ok: "us_ok us" and c: "udp_handleCommand ift cmd us = Inr (outs, us')"
  shows "us_ok us'"
proof (cases cmd)
  case (UdpBind sockId a port)
  then show ?thesis using c udp_bind_ok[OF ok] by (auto simp: bindE_eq_Inr)
next
  case (UdpConnect sockId a port)
  then obtain us1 where us1: "getOrCreateSocket sockId us = Inr us1"
    "us' = update_socket sockId (\<lambda>sd. sd\<lparr>sd_remoteAddr := a, sd_remotePort := port, sd_onlyLocalPortIsSet := False\<rparr>) us1"
    using c by (auto simp: udp_connect_def bindE_eq_Inr split: if_splits)
  then show ?thesis using getOrCreateSocket_ok[OF ok us1(1)] update_socket_ok by simp
next
  case (UdpSetOption sockId opt)
  then obtain us1 ms where us1: "getOrCreateSocket sockId us = Inr us1"
    "us' = update_socket sockId (\<lambda>sd. (set_option_field opt sd)\<lparr>sd_memberships := ms\<rparr>) us1"
    using c by (auto simp: udp_setOption_def bindE_eq_Inr split: option.splits prod.splits)
  then show ?thesis using getOrCreateSocket_ok[OF ok us1(1)] set_option_field_keeps by (auto intro: update_socket_ok)
qed (use c destroySocket_ok[OF ok] in auto)

section \<open>Reachable tables\<close>

text \<open>
  A table changes by a command of an application, by a packet of an application whose
  socket is created for it, and by the stop of the node.
\<close>

inductive udp_reach :: "network_interface list \<Rightarrow> udp_sockets \<Rightarrow> bool" for ift where
  udp_reach_init: "udp_reach ift no_sockets"
| udp_reach_command: "udp_reach ift us \<Longrightarrow> udp_handleCommand ift cmd us = Inr (outs, us') \<Longrightarrow> udp_reach ift us'"
| udp_reach_send: "udp_reach ift us \<Longrightarrow> getOrCreateSocket sockId us = Inr us' \<Longrightarrow> udp_reach ift us'"
| udp_reach_stop: "udp_reach ift us \<Longrightarrow> udp_reach ift (clearAllSockets us)"

lemma udp_reach_ok: "udp_reach ift us \<Longrightarrow> us_ok us"
  by (induction rule: udp_reach.induct)
    (auto simp: no_sockets_ok clearAllSockets_ok dest: udp_handleCommand_ok getOrCreateSocket_ok)

lemma getEphemeralPort_next:
  assumes "\<not> port_used us (next_port (us_lastEphemeralPort us))"
  shows "getEphemeralPort us = Inr (next_port (us_lastEphemeralPort us),
    us\<lparr>us_lastEphemeralPort := next_port (us_lastEphemeralPort us)\<rparr>)"
proof -
  have "(65536 :: nat) = Suc 65535" by simp
  then have "port_search 65536 (port_used us) s (next_port (us_lastEphemeralPort us))
      = Some (Inr (next_port (us_lastEphemeralPort us)))" for s using assms by (simp only: port_search.simps) simp
  then show ?thesis by (simp add: getEphemeralPort_def)
qed

text \<open>C20: In every reachable table a socket is registered under its own id, has a port of the
  16-bit range, and is in the list of that port, once, and in no other; and every list holds
  only sockets that exist.\<close>

theorem udp_sockets_consistent:
  assumes "udp_reach ift us"
  shows "(\<forall>i sd. map_of (us_byId us) i = Some sd \<longrightarrow> sd_sockId sd = i \<and> 0 \<le> sd_localPort sd \<and> sd_localPort sd \<le> 65535
      \<and> (\<forall>p. i \<in> set (socketsByPort us p) \<longleftrightarrow> p = sd_localPort sd))
    \<and> (\<forall>p. distinct (socketsByPort us p) \<and> (\<forall>i \<in> set (socketsByPort us p). map_of (us_byId us) i \<noteq> None))"
  using udp_reach_ok[OF assms] by (fastforce simp: us_ok_def)

definition udp_example_sockets :: udp_sockets where
  "udp_example_sockets = \<lparr>us_byId =
      [(1, (new_sock_desc 1)\<lparr>sd_isBound := True, sd_onlyLocalPortIsSet := True, sd_localPort := 53\<rparr>),
       (2, (new_sock_desc 2)\<lparr>sd_isBound := True, sd_onlyLocalPortIsSet := True, sd_localPort := 1025\<rparr>)],
     us_byPort = [(53, [1]), (1025, [2])], us_lastEphemeralPort = 1025\<rparr>"

lemma udp_example_reach: "udp_reach [] udp_example_sockets"
proof -
  have "\<not> port_used (no_sockets\<lparr>us_byId := m, us_byPort := [(53, [1])]\<rparr>) 1025" for m by (simp add: port_used_def)
  then have e: "getEphemeralPort (no_sockets\<lparr>us_byId := m, us_byPort := [(53, [1])]\<rparr>)
      = Inr (1025, (no_sockets\<lparr>us_byId := m, us_byPort := [(53, [1])]\<rparr>)\<lparr>us_lastEphemeralPort := 1025\<rparr>)" for m
    using getEphemeralPort_next[of "no_sockets\<lparr>us_byId := m, us_byPort := [(53, [1])]\<rparr>"]
    by (simp add: no_sockets_def next_port_def EPHEMERAL_END_def)
  let ?us = "no_sockets\<lparr>us_byId := [(1, (new_sock_desc 1)\<lparr>sd_isBound := True, sd_onlyLocalPortIsSet := True, sd_localPort := 53\<rparr>)],
     us_byPort := [(53, [1])]\<rparr>"
  have 1: "udp_handleCommand [] (UdpBind 1 L3None 53) no_sockets = Inr ([], ?us)"
    by (simp add: udp_bind_def findFirstSocketByLocalAddress_def port_sockets_def socketsByPort_def no_sockets_def
        createSocket_def update_socket_def new_sock_desc_def List.map_filter_def)
  have 2: "udp_handleCommand [] (UdpBind 2 L3None (-1)) ?us = Inr ([], udp_example_sockets)"
    using e by (simp add: udp_bind_def findFirstSocketByLocalAddress_def port_sockets_def socketsByPort_def
        createSocket_def update_socket_def new_sock_desc_def List.map_filter_def udp_example_sockets_def)
  show ?thesis by (rule udp_reach_command[OF udp_reach_command[OF udp_reach_init 1] 2])
qed

lemma udp_sockets_consistent_witness:
  "2 \<in> set (socketsByPort udp_example_sockets 1025) \<and> 2 \<notin> set (socketsByPort udp_example_sockets 53)"
proof -
  have "map_of (us_byId udp_example_sockets) 2
      = Some ((new_sock_desc 2)\<lparr>sd_isBound := True, sd_onlyLocalPortIsSet := True, sd_localPort := 1025\<rparr>)"
    by (simp add: udp_example_sockets_def)
  from udp_sockets_consistent[OF udp_example_reach, THEN conjunct1, rule_format, OF this] show ?thesis by simp
qed

text \<open>C34: The search for an ephemeral port always returns: in every reachable table it finds a port of
  the range 1024..4999 that no list exists for, if there is one, and otherwise it raises after
  it has found all of them taken. The fuel of the model never runs out.\<close>

theorem udp_ephemeral_port:
  assumes "udp_reach ift us"
  shows "(if \<exists>p. ephemeral p \<and> \<not> port_used us p
     then \<exists>p. getEphemeralPort us = Inr (p, us\<lparr>us_lastEphemeralPort := p\<rparr>) \<and> ephemeral p \<and> \<not> port_used us p
     else getEphemeralPort us = Inl (RuntimeError ''Ephemeral port range exhausted, all ports occupied''))"
  using getEphemeralPort_range[OF us_okD(3)[OF udp_reach_ok[OF assms]]] by auto

lemma udp_ephemeral_port_witness:
  "\<exists>p. getEphemeralPort udp_example_sockets = Inr (p, udp_example_sockets\<lparr>us_lastEphemeralPort := p\<rparr>)
    \<and> ephemeral p \<and> p \<noteq> 1025"
proof -
  have "ephemeral 1030 \<and> \<not> port_used udp_example_sockets 1030" "port_used udp_example_sockets 1025"
    by (simp_all add: ephemeral_def EPHEMERAL_START_def EPHEMERAL_END_def port_used_def udp_example_sockets_def)
  then show ?thesis using udp_ephemeral_port[OF udp_example_reach] by (auto split: if_splits)
qed

section \<open>The receiver of a unicast datagram\<close>

lemma unicast_loop_eq:
  "unicast_loop ok any sds = (case find (\<lambda>sd. ok sd \<and> \<not> l3_isUnspecified (sd_localAddr sd)) sds of
      Some sd \<Rightarrow> Some sd
    | None \<Rightarrow> (case filter ok sds of [] \<Rightarrow> any | _ \<Rightarrow> Some (last (filter ok sds))))"
  by (induction sds arbitrary: any) (auto split: option.splits list.splits)

lemma find_last_filter: "(case filter P (rev xs) of [] \<Rightarrow> None | _ \<Rightarrow> Some (last (filter P (rev xs)))) = find P xs"
  by (induction xs) (auto split: list.splits)

lemma findSocketForUnicastPacket_eq:
  "findSocketForUnicastPacket la lp ra rp us =
    (case find (\<lambda>sd. unicast_matches la ra rp sd \<and> \<not> l3_isUnspecified (sd_localAddr sd)) (rev (port_sockets us lp)) of
       Some sd \<Rightarrow> Some sd | None \<Rightarrow> find (unicast_matches la ra rp) (port_sockets us lp))"
  unfolding findSocketForUnicastPacket_def unicast_loop_eq find_last_filter ..

lemma set_port_sockets:
  assumes "us_ok us"
  shows "sd \<in> set (port_sockets us p) \<longleftrightarrow> map_of (us_byId us) (sd_sockId sd) = Some sd \<and> sd_localPort sd = p"
proof -
  have e: "sd \<in> set (port_sockets us p) \<longleftrightarrow> (\<exists>i \<in> set (socketsByPort us p). map_of (us_byId us) i = Some sd)"
    by (auto simp: port_sockets_def List.map_filter_def image_iff)
  show ?thesis
  proof
    assume "sd \<in> set (port_sockets us p)"
    then obtain i where i: "i \<in> set (socketsByPort us p)" "map_of (us_byId us) i = Some sd" using e by blast
    then show "map_of (us_byId us) (sd_sockId sd) = Some sd \<and> sd_localPort sd = p"
      using us_okD(8)[OF assms i(1)] us_okD(4)[OF assms i(2)] by simp
  next
    assume a: "map_of (us_byId us) (sd_sockId sd) = Some sd \<and> sd_localPort sd = p"
    then show "sd \<in> set (port_sockets us p)"
      using us_okD(6)[OF assms conjunct1[OF a]] e by blast
  qed
qed

lemma find_first_split:
  assumes "find P xs = Some x"
  obtains ys zs where "xs = ys @ x # zs" "P x" "\<forall>y \<in> set ys. \<not> P y"
proof -
  obtain i where i: "i < length xs" "P (xs ! i)" "x = xs ! i" "\<forall>j < i. \<not> P (xs ! j)" using assms by (auto simp: find_Some_iff)
  have "xs = take i xs @ x # drop (Suc i) xs" using i(1,3) by (simp add: id_take_nth_drop)
  moreover have "\<forall>y \<in> set (take i xs). \<not> P y" using i(1,4) by (auto simp: in_set_conv_nth)
  ultimately show ?thesis using that i(2,3) by blast
qed

lemma find_last_split:
  assumes "find P (rev xs) = Some x"
  obtains ys zs where "xs = ys @ x # zs" "P x" "\<forall>z \<in> set zs. \<not> P z"
proof -
  obtain ys zs where "rev xs = ys @ x # zs" "P x" "\<forall>y \<in> set ys. \<not> P y" by (rule find_first_split[OF assms])
  moreover from this(1) have "xs = rev zs @ x # rev ys" by (metis append.assoc append_Cons append_Nil rev.simps(2) rev_append rev_rev_ident)
  ultimately show ?thesis using that by simp
qed

text \<open>A socket of a port, in a reachable table.\<close>

abbreviation socket_on :: "udp_sockets \<Rightarrow> int \<Rightarrow> sock_desc \<Rightarrow> bool" where
  "socket_on us port sd \<equiv> map_of (us_byId us) (sd_sockId sd) = Some sd \<and> sd_localPort sd = port"

text \<open>What a socket asks of the sender of a datagram: the port and the address it is connected to, if it is.\<close>

definition peer_fits :: "l3_address \<Rightarrow> int \<Rightarrow> sock_desc \<Rightarrow> bool" where
  "peer_fits remoteAddr remotePort sd \<longleftrightarrow> sd_remotePort sd \<in> {-1, remotePort}
     \<and> (l3_isUnspecified (sd_remoteAddr sd) \<or> sd_remoteAddr sd = remoteAddr)"

text \<open>The sockets the datagram can go to.\<close>

definition takes_unicast :: "l3_address \<Rightarrow> l3_address \<Rightarrow> int \<Rightarrow> sock_desc \<Rightarrow> bool" where
  "takes_unicast localAddr remoteAddr remotePort sd \<longleftrightarrow>
     (if sd_onlyLocalPortIsSet sd then True
      else if l3_isUnspecified (sd_localAddr sd) then peer_fits remoteAddr remotePort sd
      else sd_localAddr sd = localAddr \<and> peer_fits remoteAddr remotePort sd)"

lemma takes_unicast_eq: "unicast_matches localAddr remoteAddr remotePort = takes_unicast localAddr remoteAddr remotePort"
  by (auto simp: fun_eq_iff unicast_matches_def remote_matches_def takes_unicast_def peer_fits_def)

lemma sockets_by_id:
  assumes "us_ok us"
  shows "map sd_sockId (port_sockets us p) = socketsByPort us p"
proof -
  have "map sd_sockId (List.map_filter (map_of (us_byId us)) ids) = ids" if "\<forall>i \<in> set ids. map_of (us_byId us) i \<noteq> None" for ids
    using that by (induction ids) (auto simp: List.map_filter_simps dest: us_okD(4)[OF assms])
  moreover have "\<forall>i \<in> set (socketsByPort us p). map_of (us_byId us) i \<noteq> None" using us_okD(8)[OF assms] by fastforce
  ultimately show ?thesis by (simp add: port_sockets_def)
qed

text \<open>C32: a unicast datagram goes to a socket of its port that takes it, whenever there is one. A socket
  with a local address of its own goes before those bound to any address; among several of them the last of
  the list of the port receives, among those bound to any address the first. A socket takes the datagram
  when it is connected to the sender or to nobody, and is bound to the destination address or to any; or when
  its \<open>onlyLocalPortIsSet\<close> is set, whatever it is bound or connected to. So a socket bound to the destination
  address receives, if there is one, as long as no socket of the port has this flag and an address of its
  own; that it can have both is a defect (\<open>udp_bind_takes_other_address\<close>).\<close>

theorem udp_unicast_receiver:
  assumes "udp_reach ift us"
  shows "(case findSocketForUnicastPacket localAddr localPort remoteAddr remotePort us of
      None \<Rightarrow> \<forall>sd. socket_on us localPort sd \<longrightarrow> \<not> takes_unicast localAddr remoteAddr remotePort sd
    | Some sd \<Rightarrow> socket_on us localPort sd \<and> takes_unicast localAddr remoteAddr remotePort sd \<and>
        (\<exists>before after. socketsByPort us localPort = before @ sd_sockId sd # after \<and>
          (if l3_isUnspecified (sd_localAddr sd)
           then (\<forall>sd'. socket_on us localPort sd' \<and> takes_unicast localAddr remoteAddr remotePort sd'
                   \<longrightarrow> l3_isUnspecified (sd_localAddr sd') \<and> sd_sockId sd' \<notin> set before)
           else (\<forall>sd'. socket_on us localPort sd' \<and> takes_unicast localAddr remoteAddr remotePort sd'
                   \<longrightarrow> l3_isUnspecified (sd_localAddr sd') \<or> sd_sockId sd' \<notin> set after))))
    \<and> ((\<forall>sd. socket_on us localPort sd \<and> sd_onlyLocalPortIsSet sd \<longrightarrow> l3_isUnspecified (sd_localAddr sd)) \<longrightarrow>
       (\<exists>sd. socket_on us localPort sd \<and> sd_localAddr sd = localAddr \<and> \<not> l3_isUnspecified localAddr \<and> peer_fits remoteAddr remotePort sd) \<longrightarrow>
       (\<exists>sd. findSocketForUnicastPacket localAddr localPort remoteAddr remotePort us = Some sd
          \<and> sd_localAddr sd = localAddr \<and> peer_fits remoteAddr remotePort sd))"
proof -
  let ?ok = "takes_unicast localAddr remoteAddr remotePort" and ?own = "\<lambda>sd. \<not> l3_isUnspecified (sd_localAddr sd)"
  let ?r = "findSocketForUnicastPacket localAddr localPort remoteAddr remotePort us" and ?l = "port_sockets us localPort"
  note ok = udp_reach_ok[OF assms]
  have set: "socket_on us localPort sd \<longleftrightarrow> sd \<in> set ?l" for sd using set_port_sockets[OF ok] by simp
  have dist: "distinct (map sd_sockId ?l)" using us_okD(7)[OF ok] sockets_by_id[OF ok] by simp
  have eq: "?r = (case find (\<lambda>sd. ?ok sd \<and> ?own sd) (rev ?l) of Some sd \<Rightarrow> Some sd | None \<Rightarrow> find ?ok ?l)"
    unfolding findSocketForUnicastPacket_eq takes_unicast_eq ..
  have ids: "socketsByPort us localPort = map sd_sockId ys @ sd_sockId sd # map sd_sockId zs" if "?l = ys @ sd # zs" for ys sd zs
    using sockets_by_id[OF ok, of localPort] that by simp
  have own: "\<exists>ys zs. socketsByPort us localPort = ys @ sd_sockId sd # zs \<and> sd \<in> set ?l \<and> ?ok sd \<and> ?own sd \<and>
      (\<forall>sd' \<in> set ?l. ?ok sd' \<longrightarrow> ?own sd' \<longrightarrow> sd_sockId sd' \<notin> set zs)"
    if f: "find (\<lambda>sd. ?ok sd \<and> ?own sd) (rev ?l) = Some sd" for sd
  proof -
    obtain ys zs where s: "?l = ys @ sd # zs" "?ok sd \<and> ?own sd" "\<forall>z \<in> set zs. \<not> (?ok z \<and> ?own z)" by (rule find_last_split[OF f])
    have "sd_sockId sd' \<notin> set (map sd_sockId zs)" if "sd' \<in> set ?l" "?ok sd'" "?own sd'" for sd'
      using dist that s unfolding s(1) by (auto dest: map_of_SomeD)
    then show ?thesis using ids[OF s(1)] s(1,2) by (intro exI[of _ "map sd_sockId ys"] exI[of _ "map sd_sockId zs"]) auto
  qed
  have any: "\<exists>ys zs. socketsByPort us localPort = ys @ sd_sockId sd # zs \<and> sd \<in> set ?l \<and> ?ok sd \<and>
      (\<forall>sd' \<in> set ?l. ?ok sd' \<longrightarrow> sd_sockId sd' \<notin> set ys)"
    if f: "find ?ok ?l = Some sd" for sd
  proof -
    obtain ys zs where s: "?l = ys @ sd # zs" "?ok sd" "\<forall>y \<in> set ys. \<not> ?ok y" by (rule find_first_split[OF f])
    have "sd_sockId sd' \<notin> set (map sd_sockId ys)" if "sd' \<in> set ?l" "?ok sd'" for sd'
      using dist that s unfolding s(1) by auto
    then show ?thesis using ids[OF s(1)] s(1,2) by (intro exI[of _ "map sd_sockId ys"] exI[of _ "map sd_sockId zs"]) auto
  qed
  have own_flag: "sd_localAddr sd = localAddr \<and> peer_fits remoteAddr remotePort sd"
    if "?ok sd" "?own sd" "\<not> sd_onlyLocalPortIsSet sd" for sd using that by (simp add: takes_unicast_def)
  show ?thesis
  proof (cases "find (\<lambda>sd. ?ok sd \<and> ?own sd) (rev ?l)")
    case (Some sd)
    obtain ys zs where s: "socketsByPort us localPort = ys @ sd_sockId sd # zs" "sd \<in> set ?l" "?ok sd" "?own sd"
      "\<forall>sd' \<in> set ?l. ?ok sd' \<longrightarrow> ?own sd' \<longrightarrow> sd_sockId sd' \<notin> set zs" using own[OF Some] by blast
    have r: "?r = Some sd" using Some by (simp add: eq)
    have 1: "if l3_isUnspecified (sd_localAddr sd)
        then (\<forall>sd'. sd' \<in> set ?l \<and> ?ok sd' \<longrightarrow> l3_isUnspecified (sd_localAddr sd') \<and> sd_sockId sd' \<notin> set ys)
        else (\<forall>sd'. sd' \<in> set ?l \<and> ?ok sd' \<longrightarrow> l3_isUnspecified (sd_localAddr sd') \<or> sd_sockId sd' \<notin> set zs)"
      using s(4,5) by auto
    have 2: "\<exists>sd'. Some sd = Some sd' \<and> sd_localAddr sd' = localAddr \<and> peer_fits remoteAddr remotePort sd'"
      if "\<forall>sd. sd \<in> set ?l \<and> sd_onlyLocalPortIsSet sd \<longrightarrow> l3_isUnspecified (sd_localAddr sd)"
      using own_flag[OF s(3,4)] that s(2,4) by auto
    show ?thesis unfolding set r option.case
      by (intro conjI impI s(2,3) exI[of _ ys] exI[of _ zs] s(1) 1) (rule 2)
  next
    case None
    then have none: "\<forall>sd \<in> set ?l. ?ok sd \<longrightarrow> \<not> ?own sd" by (simp add: find_None_iff)
    have bound: "\<not> (\<exists>sd. sd \<in> set ?l \<and> sd_localAddr sd = localAddr \<and> \<not> l3_isUnspecified localAddr \<and> peer_fits remoteAddr remotePort sd)"
      using none by (auto simp: takes_unicast_def split: if_splits)
    show ?thesis
    proof (cases "find ?ok ?l")
      case n: None
      have r: "?r = None" unfolding eq None n by simp
      have "\<forall>sd. sd \<in> set ?l \<longrightarrow> \<not> ?ok sd" using n by (simp add: find_None_iff)
      then show ?thesis unfolding set r option.case by (intro conjI impI) (use bound in blast)+
    next
      case (Some sd)
      obtain ys zs where s: "socketsByPort us localPort = ys @ sd_sockId sd # zs" "sd \<in> set ?l" "?ok sd"
        "\<forall>sd' \<in> set ?l. ?ok sd' \<longrightarrow> sd_sockId sd' \<notin> set ys" using any[OF Some] by blast
      have r: "?r = Some sd" "l3_isUnspecified (sd_localAddr sd)" using none s(2,3) unfolding eq None Some by auto
      have 1: "if l3_isUnspecified (sd_localAddr sd)
        then (\<forall>sd'. sd' \<in> set ?l \<and> ?ok sd' \<longrightarrow> l3_isUnspecified (sd_localAddr sd') \<and> sd_sockId sd' \<notin> set ys)
        else (\<forall>sd'. sd' \<in> set ?l \<and> ?ok sd' \<longrightarrow> l3_isUnspecified (sd_localAddr sd') \<or> sd_sockId sd' \<notin> set zs)"
        using r(2) none s(4) by auto
      show ?thesis unfolding set r(1) option.case
        by (intro conjI impI s(2,3) exI[of _ ys] exI[of _ zs] s(1) 1) (use bound in blast)
    qed
  qed
qed

text \<open>Two sockets of one port, bound to different addresses.\<close>

definition udp_two_sockets :: udp_sockets where
  "udp_two_sockets = \<lparr>us_byId =
      [(1, (new_sock_desc 1)\<lparr>sd_isBound := True, sd_localAddr := L3IPv4 0x0A000001, sd_localPort := 53\<rparr>),
       (2, (new_sock_desc 2)\<lparr>sd_isBound := True, sd_localAddr := L3IPv4 0x0A000002, sd_localPort := 53\<rparr>)],
     us_byPort = [(53, [1, 2])], us_lastEphemeralPort = EPHEMERAL_START\<rparr>"

lemma udp_two_reach: "udp_reach [] udp_two_sockets"
proof -
  let ?us = "no_sockets\<lparr>us_byId := [(1, (new_sock_desc 1)\<lparr>sd_isBound := True, sd_localAddr := L3IPv4 0x0A000001, sd_localPort := 53\<rparr>)],
     us_byPort := [(53, [1])]\<rparr>"
  have 1: "udp_handleCommand [] (UdpBind 1 (L3IPv4 0x0A000001) 53) no_sockets = Inr ([], ?us)"
    by (simp add: ip_isUnspecified_def udp_bind_def findFirstSocketByLocalAddress_def port_sockets_def socketsByPort_def no_sockets_def
        createSocket_def update_socket_def new_sock_desc_def List.map_filter_def)
  have 2: "udp_handleCommand [] (UdpBind 2 (L3IPv4 0x0A000002) 53) ?us = Inr ([], udp_two_sockets)"
    by (simp add: ip_isUnspecified_def udp_bind_def findFirstSocketByLocalAddress_def port_sockets_def socketsByPort_def no_sockets_def
        createSocket_def update_socket_def new_sock_desc_def List.map_filter_def udp_two_sockets_def EPHEMERAL_START_def)
  show ?thesis by (rule udp_reach_command[OF udp_reach_command[OF udp_reach_init 1] 2])
qed

lemma udp_unicast_receiver_witness:
  "\<exists>sd. findSocketForUnicastPacket (L3IPv4 0x0A000001) 53 (L3IPv4 0x0A000009) 4000 udp_two_sockets = Some sd \<and> sd_sockId sd = 1"
proof -
  let ?sd = "(new_sock_desc 1)\<lparr>sd_isBound := True, sd_localAddr := L3IPv4 0x0A000001, sd_localPort := 53\<rparr>"
  let ?r = "findSocketForUnicastPacket (L3IPv4 0x0A000001) 53 (L3IPv4 0x0A000009) 4000 udp_two_sockets"
  note t = udp_unicast_receiver[OF udp_two_reach, where localAddr = "L3IPv4 0x0A000001" and localPort = 53
      and remoteAddr = "L3IPv4 0x0A000009" and remotePort = 4000]
  have "\<forall>sd. socket_on udp_two_sockets 53 sd \<and> sd_onlyLocalPortIsSet sd \<longrightarrow> l3_isUnspecified (sd_localAddr sd)"
    by (auto simp: udp_two_sockets_def new_sock_desc_def split: if_splits)
  moreover have "socket_on udp_two_sockets 53 ?sd \<and> sd_localAddr ?sd = L3IPv4 0x0A000001 \<and> \<not> l3_isUnspecified (L3IPv4 0x0A000001)
      \<and> peer_fits (L3IPv4 0x0A000009) 4000 ?sd"
    by (simp add: udp_two_sockets_def new_sock_desc_def peer_fits_def ip_isUnspecified_def)
  ultimately obtain sd where sd: "?r = Some sd" "sd_localAddr sd = L3IPv4 0x0A000001" using conjunct2[OF t] by blast
  have "socket_on udp_two_sockets 53 sd" using conjunct1[OF t] by (simp add: sd(1))
  then have "sd_sockId sd = 1" using sd(2) by (auto simp: udp_two_sockets_def new_sock_desc_def split: if_splits)
  then show ?thesis using sd(1) by blast
qed

section \<open>Where the sockets do not do what they mean to\<close>

lemma update_socket_byPort [simp]: "us_byPort (update_socket i f us) = us_byPort us"
  "socketsByPort (update_socket i f us) = socketsByPort us"
  by (simp_all add: update_socket_def)

text \<open>
  \<open>bind\<close> does not clear \<open>onlyLocalPortIsSet\<close>. A socket that an option created before it is bound
  keeps it set, and then it receives what is sent to its port at any local address.
\<close>

lemma udp_bind_existing:
  assumes "udp_reach ift us" "map_of (us_byId us) i = Some sd" "udp_bind i a port us = Inr us'"
  shows "\<exists>sd'. map_of (us_byId us') i = Some sd' \<and> sd_localAddr sd' = a \<and> sd_isBound sd'
    \<and> sd_onlyLocalPortIsSet sd' = sd_onlyLocalPortIsSet sd
    \<and> sd_localPort sd' = (if port = -1 then sd_localPort sd else port)"
  using assms(2,3)
  by (auto simp: udp_bind_def Let_def move_to_port_def map_of_update_socket split: if_splits option.splits)

lemma udp_bind_after_option:
  assumes "udp_reach ift us" "map_of (us_byId us) i = Some sd" "sd_onlyLocalPortIsSet sd" "udp_bind i a port us = Inr us'"
  shows "\<exists>sd'. map_of (us_byId us') i = Some sd' \<and> sd_localAddr sd' = a
    \<and> (\<forall>localAddr remoteAddr remotePort. unicast_matches localAddr remoteAddr remotePort sd')"
  using udp_bind_existing[OF assms(1,2,4)] assms(3) by (auto simp: unicast_matches_def)

text \<open>
  Such a socket takes datagrams from the one that is bound to their address: when one socket is bound to
  10.0.0.1, and another sets an option and is then bound to 10.0.0.2 and the same port, what is sent to
  10.0.0.1 goes to the second.
\<close>

definition udp_option_sockets :: udp_sockets where
  "udp_option_sockets = \<lparr>us_byId =
      [(1, (new_sock_desc 1)\<lparr>sd_isBound := True, sd_localAddr := L3IPv4 0x0A000001, sd_localPort := 53\<rparr>),
       (2, (new_sock_desc 2)\<lparr>sd_isBound := True, sd_onlyLocalPortIsSet := True, sd_localAddr := L3IPv4 0x0A000002,
          sd_localPort := 53, sd_ttl := 7\<rparr>)],
     us_byPort = [(53, [1, 2]), (1025, [])], us_lastEphemeralPort = 1025\<rparr>"

lemma udp_bind_takes_other_address:
  "\<exists>us1 us2. udp_handleCommand [] (UdpBind 1 (L3IPv4 0x0A000001) 53) no_sockets = Inr ([], us1)
    \<and> udp_handleCommand [] (UdpSetOption 2 (SetTtl 7)) us1 = Inr ([], us2)
    \<and> udp_handleCommand [] (UdpBind 2 (L3IPv4 0x0A000002) 53) us2 = Inr ([], udp_option_sockets)
    \<and> map_option sd_sockId (findSocketForUnicastPacket (L3IPv4 0x0A000001) 53 (L3IPv4 0x0A000009) 4000 udp_option_sockets) = Some 2"
proof -
  let ?m = "[(1, (new_sock_desc 1)\<lparr>sd_isBound := True, sd_localAddr := L3IPv4 0x0A000001, sd_localPort := 53\<rparr>)]"
  let ?us1 = "no_sockets\<lparr>us_byId := ?m, us_byPort := [(53, [1])]\<rparr>"
  let ?us2 = "\<lparr>us_byId = ?m @ [(2, (new_sock_desc 2)\<lparr>sd_onlyLocalPortIsSet := True, sd_localPort := 1025, sd_ttl := 7\<rparr>)],
     us_byPort = [(53, [1]), (1025, [2])], us_lastEphemeralPort = 1025\<rparr>"
  have "\<not> port_used ?us1 1025" by (simp add: port_used_def)
  then have e: "getEphemeralPort ?us1 = Inr (1025, ?us1\<lparr>us_lastEphemeralPort := 1025\<rparr>)"
    using getEphemeralPort_next[of ?us1] by (simp add: no_sockets_def next_port_def EPHEMERAL_END_def)
  have 1: "udp_handleCommand [] (UdpBind 1 (L3IPv4 0x0A000001) 53) no_sockets = Inr ([], ?us1)"
    by (simp add: ip_isUnspecified_def udp_bind_def findFirstSocketByLocalAddress_def port_sockets_def socketsByPort_def no_sockets_def
        createSocket_def update_socket_def new_sock_desc_def List.map_filter_def)
  have 2: "udp_handleCommand [] (UdpSetOption 2 (SetTtl 7)) ?us1 = Inr ([], ?us2)"
    using e by (simp add: udp_setOption_def getOrCreateSocket_def socketsByPort_def
        createSocket_def update_socket_def new_sock_desc_def)
  have 3: "udp_handleCommand [] (UdpBind 2 (L3IPv4 0x0A000002) 53) ?us2 = Inr ([], udp_option_sockets)"
    by (simp add: ip_isUnspecified_def udp_bind_def findFirstSocketByLocalAddress_def port_sockets_def socketsByPort_def move_to_port_def
        update_socket_def new_sock_desc_def List.map_filter_def udp_option_sockets_def)
  have "map_option sd_sockId (findSocketForUnicastPacket (L3IPv4 0x0A000001) 53 (L3IPv4 0x0A000009) 4000 udp_option_sockets) = Some 2"
    by (simp add: findSocketForUnicastPacket_def port_sockets_def socketsByPort_def udp_option_sockets_def List.map_filter_def
        unicast_matches_def new_sock_desc_def ip_isUnspecified_def)
  then show ?thesis using 1 2 3 by blast
qed

text \<open>
  Moving a socket to another port leaves the list of its old port in the map, empty. For the
  search of an ephemeral port that port stays taken.
\<close>

lemma udp_bind_leaks_port:
  assumes "udp_reach ift us" "map_of (us_byId us) i = Some sd" "socketsByPort us (sd_localPort sd) = [i]"
    and "udp_bind i a port us = Inr us'" "port \<noteq> -1" "port \<noteq> sd_localPort sd"
  shows "map_of (us_byPort us') (sd_localPort sd) = Some []
    \<and> (\<forall>j sd'. map_of (us_byId us') j = Some sd' \<longrightarrow> sd_localPort sd' \<noteq> sd_localPort sd)"
proof -
  have ok: "us_ok us" using udp_reach_ok[OF assms(1)] .
  have "udp_handleCommand ift (UdpBind i a port) us = Inr ([], us')" using assms(4) by simp
  then have ok': "us_ok us'" using udp_handleCommand_ok[OF ok] by blast
  have "us' = move_to_port i (sd_localPort sd) port (update_socket i (\<lambda>sd. sd\<lparr>sd_isBound := True, sd_localAddr := a\<rparr>) us)"
    using assms(2,4-6) by (auto simp: udp_bind_def Let_def split: if_splits option.splits)
  then have e: "map_of (us_byPort us') (sd_localPort sd) = Some []"
    using assms(3,6) us_okD(2)[OF ok]
    by (simp add: move_to_port_def Let_def map_of_insert map_ok_insert)
  have "sd_localPort sd' \<noteq> sd_localPort sd" if "map_of (us_byId us') j = Some sd'" for j sd'
    using us_okD(6)[OF ok' that] e by (auto simp: socketsByPort_def)
  then show ?thesis using e by blast
qed

text \<open>
  \<open>joinMulticastSources\<close> tests for a source that is already in the list where it means one that is
  not: a socket that joins a group for the first time includes no source, and receives nothing.
\<close>

lemma add_source_none: "fold add_source srcs ([], False) = ([], False)"
  by (induction srcs) (simp_all add: add_source_def)

lemma udp_join_sources_ignored:
  assumes "multicast_interface ift i a = Inr ie" "findMulticastMembership a (ie_id ie) ms = None"
    and "membership_pos a (ie_id ie) ms \<le> length ms"
  shows "\<exists>ms' k. joinMulticastSources ift i a srcs ms = Inr ([], ms') \<and> k < length ms' \<and> mm_key (ms' ! k) = (a, ie_id ie)
    \<and> (\<forall>src. \<not> isSourceAllowed src (ms' ! k))"
proof -
  let ?k = "membership_pos a (ie_id ie) ms" and ?m = "new_membership a (ie_id ie) IncludeSources"
  have n: "(take ?k ms @ ?m # drop ?k ms) ! ?k = ?m" using assms(3) by (simp add: nth_append)
  have "joinMulticastSources ift i a srcs ms = Inr ([], (take ?k ms @ ?m # drop ?k ms)[?k := ?m])"
    using assms n
    by (simp add: joinMulticastSources_def find_or_add_membership_def addMulticastMembership_def new_membership_def
        add_source_none Let_def)
  moreover have "(take ?k ms @ ?m # drop ?k ms)[?k := ?m] = take ?k ms @ ?m # drop ?k ms"
    using n by (metis list_update_id)
  ultimately show ?thesis using assms(3) n
    by (intro exI[of _ "take ?k ms @ ?m # drop ?k ms"] exI[of _ ?k])
       (simp add: new_membership_def mm_key_def isSourceAllowed_def)
qed

text \<open>
  The membership on all interfaces (id -1) is meant to come last; it is not after any other one, and
  the memberships of a group on an interface and on all are not found both.
\<close>

lemma lessMembership_all: "i \<ge> -1 \<Longrightarrow> \<not> lessMembership (a, i) (a, -1) \<and> \<not> lessMembership (a, -1) (a, i)"
  by (simp add: lessMembership_def)

lemma udp_membership_lost:
  "findMulticastMembership (L3IPv4 0xE0000001) 101
    (addMulticastMembership (new_membership (L3IPv4 0xE0000001) (-1) ExcludeSources)
      (addMulticastMembership (new_membership (L3IPv4 0xE0000001) 101 ExcludeSources) [])) = None"
  by code_simp

end
