(* ===== verification/Udp.thy ===== *)
theory Udp
  imports Rdma Udp_Sockets
begin

text \<open>
  The packet side of the UDP module (\<open>transportlayer/udp/Udp.{h,cc}\<close>): sending, the checksum,
  receiving, ICMP errors, the queues in front of a channel with a transmission time and
  the timers that empty them. The sockets are those of \<open>Udp_Sockets\<close>. A handler returns its
  outputs, in order, and the new state, or the error it raises.
\<close>

section \<open>State and outputs\<close>

definition UDP_MAX_MESSAGE_SIZE :: int where
  "UDP_MAX_MESSAGE_SIZE = 65535"

definition IP_PROT_UDP :: int where
  "IP_PROT_UDP = 17"

definition UDP_C_DATA :: int where
  "UDP_C_DATA = 0"

definition UDP_I_DATA :: int where
  "UDP_I_DATA = 0"

text \<open>\<open>ud_txScheduled\<close> and \<open>ud_upTxScheduled\<close> say whether the two timers are scheduled.\<close>

record udp_state =
  ud_crcMode :: crc_mode
  ud_sockets :: udp_sockets
  ud_numSent :: int
  ud_numPassedUp :: int
  ud_numDroppedWrongPort :: int
  ud_numDroppedBadChecksum :: int
  ud_queue :: "packet list"
  ud_upQueue :: "packet list"
  ud_txScheduled :: bool
  ud_upTxScheduled :: bool

definition udp_init :: "crc_mode \<Rightarrow> udp_state" where
  "udp_init mode = \<lparr>ud_crcMode = mode, ud_sockets = no_sockets, ud_numSent = 0, ud_numPassedUp = 0,
     ud_numDroppedWrongPort = 0, ud_numDroppedBadChecksum = 0, ud_queue = [], ud_upQueue = [],
     ud_txScheduled = False, ud_upTxScheduled = False\<rparr>"

text \<open>
  The surroundings of a call: the interfaces, and for each of the two output channels, when there
  is one, whether it is busy and when a transmission started now ends.
\<close>

record udp_env =
  ue_interfaces :: "network_interface list"
  ue_channel :: "(bool \<times> simtime) option"
  ue_upChannel :: "(bool \<times> simtime) option"

datatype udp_output =
    IpOut packet | UdpAppOut packet
  | UdpDropped drop_reason packet
  | UdpIcmpUnreachable packet int | UdpIcmpv6Unreachable packet
  | UdpErrorIndication int l3_address l3_address int int
      \<comment> \<open>socket id, local and remote address, local and remote port\<close>
  | UdpCommandOut command_out
  | UdpScheduleTx simtime | UdpScheduleUpTx simtime

type_synonym udp_result = "(udp_output list \<times> udp_state) res"

section \<open>The checksum\<close>

definition udp_computeCrc ::
  "protocol \<Rightarrow> l3_address \<Rightarrow> l3_address \<Rightarrow> udp_header \<Rightarrow> cell list \<Rightarrow> (16 word) res" where
  "udp_computeCrc net src dest h dat =
    bindE (pseudo_serialize net src dest IP_PROT_UDP (8 + int (length dat))) (\<lambda>ph.
    bindE (udp_serialize h) (\<lambda>hb.
    bindE (cells_serialize dat) (\<lambda>db.
      let crc = tcpip_checksum (ph @ hb @ db)
      in Inr (if crc = 0 then 0xFFFF else crc))))"

definition udp_insertCrc ::
  "protocol \<Rightarrow> l3_address \<Rightarrow> l3_address \<Rightarrow> udp_header \<Rightarrow> packet \<Rightarrow> udp_header res" where
  "udp_insertCrc net src dest h p =
    (case uh_crcMode h of
       CRC_DISABLED \<Rightarrow> Inr (h\<lparr>uh_crc := 0\<rparr>)
     | CRC_DECLARED_CORRECT \<Rightarrow> Inr (h\<lparr>uh_crc := 0xC00D\<rparr>)
     | CRC_DECLARED_INCORRECT \<Rightarrow> Inr (h\<lparr>uh_crc := 0xBAAD\<rparr>)
     | CRC_COMPUTED \<Rightarrow>
         (let h = h\<lparr>uh_crc := 0, uh_crcMode := CRC_DISABLED\<rparr> in
          bindE (udp_computeCrc net src dest h (pk_data p)) (\<lambda>crc.
            Inr (h\<lparr>uh_crc := crc, uh_crcMode := CRC_COMPUTED\<rparr>)))
     | CRC_MODE_UNDEFINED \<Rightarrow> Inl (RuntimeError ''Unknown CRC mode''))"

definition udp_verifyCrc :: "bool \<Rightarrow> bool \<Rightarrow> protocol \<Rightarrow> udp_header \<Rightarrow> packet \<Rightarrow> bool res" where
  "udp_verifyCrc headerOk dataOk net h p =
    (case uh_crcMode h of
       CRC_DISABLED \<Rightarrow> Inr (uh_crc h = 0)
     | CRC_DECLARED_CORRECT \<Rightarrow>
         bindE (peekDataAt 0 (uh_totalLength h - 8) p) (\<lambda>_. Inr (headerOk \<and> dataOk))
     | CRC_DECLARED_INCORRECT \<Rightarrow> Inr False
     | CRC_COMPUTED \<Rightarrow>
         (if uh_crc h = 0 then Inr True
          else bindE (getTag (t_l3AddressInd (pk_tags p))) (\<lambda>(src, dest).
               bindE (peekDataAt 0 (uh_totalLength h - 8) p) (\<lambda>dat.
               bindE (udp_computeCrc net src dest h dat) (\<lambda>crc.
                 Inr (crc = 0xFFFF \<and> headerOk \<and> dataOk)))))
     | CRC_MODE_UNDEFINED \<Rightarrow> Inl (RuntimeError ''Unknown CRC mode''))"

section \<open>Output through a channel\<close>

text \<open>\<open>scheduleAt\<close> raises for a timer that is already scheduled.\<close>

definition udp_scheduleTx :: "simtime \<Rightarrow> udp_state \<Rightarrow> udp_result" where
  "udp_scheduleTx finish s =
    (if ud_txScheduled s then Inl (RuntimeError ''scheduleAt(): Message is already scheduled'')
     else Inr ([UdpScheduleTx finish], s\<lparr>ud_txScheduled := True\<rparr>))"

definition udp_scheduleUpTx :: "simtime \<Rightarrow> udp_state \<Rightarrow> udp_result" where
  "udp_scheduleUpTx finish s =
    (if ud_upTxScheduled s then Inl (RuntimeError ''scheduleAt(): Message is already scheduled'')
     else Inr ([UdpScheduleUpTx finish], s\<lparr>ud_upTxScheduled := True\<rparr>))"

definition udp_transmit :: "(bool \<times> simtime) option \<Rightarrow> packet \<Rightarrow> udp_state \<Rightarrow> udp_result" where
  "udp_transmit channel p s =
    (case channel of
       None \<Rightarrow> Inr ([IpOut p], s)
     | Some (busy, finish) \<Rightarrow>
       let s = s\<lparr>ud_queue := ud_queue s @ [p]\<rparr>
       in if busy then Inr ([], s)
          else case ud_queue s of
              [] \<Rightarrow> Inr ([], s)
            | q # qs \<Rightarrow> bindE (udp_scheduleTx finish (s\<lparr>ud_queue := qs\<rparr>)) (\<lambda>(outs, s). Inr (IpOut q # outs, s)))"

definition udp_transmitUp :: "(bool \<times> simtime) option \<Rightarrow> packet \<Rightarrow> udp_state \<Rightarrow> udp_result" where
  "udp_transmitUp channel p s =
    (case channel of
       None \<Rightarrow> Inr ([UdpAppOut p], s)
     | Some (busy, finish) \<Rightarrow>
       let s = s\<lparr>ud_upQueue := ud_upQueue s @ [p]\<rparr>
       in if busy then Inr ([], s)
          else case ud_upQueue s of
              [] \<Rightarrow> Inr ([], s)
            | q # qs \<Rightarrow> bindE (udp_scheduleUpTx finish (s\<lparr>ud_upQueue := qs\<rparr>)) (\<lambda>(outs, s). Inr (UdpAppOut q # outs, s)))"

definition udp_handleEndTxPeriod :: "udp_env \<Rightarrow> udp_state \<Rightarrow> udp_result" where
  "udp_handleEndTxPeriod env s =
    (case ud_queue s of
       [] \<Rightarrow> Inr ([], s)
     | q # qs \<Rightarrow>
       (case ue_channel env of
          None \<Rightarrow> Inl (RuntimeError ''transmissionChannel is nullptr'')
        | Some (busy, finish) \<Rightarrow>
            bindE (udp_scheduleTx finish (s\<lparr>ud_queue := qs\<rparr>)) (\<lambda>(outs, s). Inr (IpOut q # outs, s))))"

definition udp_handleEndUpperTxPeriod :: "udp_env \<Rightarrow> udp_state \<Rightarrow> udp_result" where
  "udp_handleEndUpperTxPeriod env s =
    (case ud_upQueue s of
       [] \<Rightarrow> Inr ([], s)
     | q # qs \<Rightarrow>
       (case ue_upChannel env of
          None \<Rightarrow> Inl (RuntimeError ''upperTransmissionChannel is nullptr'')
        | Some (busy, finish) \<Rightarrow>
            bindE (udp_scheduleUpTx finish (s\<lparr>ud_upQueue := qs\<rparr>)) (\<lambda>(outs, s). Inr (UdpAppOut q # outs, s))))"

text \<open>
  A timer that fires is no longer scheduled. The second test of \<open>handleSelfMessage\<close> is an
  assignment, so every message but the first timer is taken for the second one.
\<close>

datatype udp_timer = EndTx | EndUpperTx | OtherTimer

definition udp_handleSelfMessage :: "udp_env \<Rightarrow> udp_timer \<Rightarrow> udp_state \<Rightarrow> udp_result" where
  "udp_handleSelfMessage env msg s =
    (if msg = EndTx then udp_handleEndTxPeriod env (s\<lparr>ud_txScheduled := False\<rparr>)
     else udp_handleEndUpperTxPeriod env (if msg = EndUpperTx then s\<lparr>ud_upTxScheduled := False\<rparr> else s))"

section \<open>Sending\<close>

text \<open>
  The tags of an outgoing packet: the addresses and ports that the application left open come
  from the socket, and so do the multicast loop flag, the hop limit, the DSCP and the type of service.
\<close>

definition udp_interface_tag :: "l3_address \<Rightarrow> sock_desc \<Rightarrow> tags \<Rightarrow> tags res" where
  "udp_interface_tag destAddr sd t =
    (if t_interfaceReq t = Some (-1) then Inl (AssertFailed ''interfaceReq'')
     else if t_interfaceReq t \<noteq> None then Inr t
     else bindE (l3_isMulticast destAddr) (\<lambda>multicast.
       if \<not> multicast then Inr t
       else
         let interfaceId = (case findFirstMulticastMembership destAddr (sd_memberships sd) of
               Some k \<Rightarrow> if mm_interfaceId (sd_memberships sd ! k) \<noteq> -1 then mm_interfaceId (sd_memberships sd ! k)
                         else sd_multicastOutputInterfaceId sd
             | None \<Rightarrow> sd_multicastOutputInterfaceId sd)
         in Inr (if interfaceId \<noteq> -1 then t\<lparr>t_interfaceReq := Some interfaceId\<rparr> else t)))"

definition udp_option_tags :: "sock_desc \<Rightarrow> tags \<Rightarrow> tags res" where
  "udp_option_tags sd t =
    (let t = (if t_multicastReq t = None then t\<lparr>t_multicastReq := Some (sd_multicastLoop sd)\<rparr> else t);
         t = (if sd_ttl sd \<noteq> -1 \<and> t_hopLimitReq t = None then t\<lparr>t_hopLimitReq := Some (sd_ttl sd)\<rparr> else t);
         t = (if sd_dscp sd \<noteq> -1 \<and> t_dscpReq t = None then t\<lparr>t_dscpReq := Some (of_int (sd_dscp sd))\<rparr> else t)
     in if sd_tos sd \<noteq> -1 \<and> t_tosReq t = None then
          (if t_dscpReq t \<noteq> None then Inl (RuntimeError ''setting error: TOS and DSCP found together'')
           else Inr (t\<lparr>t_tosReq := Some (of_int (sd_tos sd))\<rparr>))
        else Inr t)"

definition udp_encapsulate :: "crc_mode \<Rightarrow> l3_address \<Rightarrow> l3_address \<Rightarrow> int \<Rightarrow> int \<Rightarrow> packet \<Rightarrow> packet res" where
  "udp_encapsulate mode srcAddr destAddr srcPort destPort p =
    (let l3 = l3_protocol_of destAddr;
         len = 8 + int (totalLength p);
         h = new_udp_header\<lparr>uh_srcPort := of_int srcPort, uh_destPort := of_int destPort, uh_totalLength := len\<rparr>
     in if len > UDP_MAX_MESSAGE_SIZE then Inl (RuntimeError ''send: total UDP message size exceeds'')
        else bindE (if mode = CRC_COMPUTED then Inr (h\<lparr>uh_crcMode := CRC_COMPUTED, uh_crc := 0\<rparr>)
                    else udp_insertCrc l3 srcAddr destAddr (h\<lparr>uh_crcMode := mode\<rparr>) p) (\<lambda>h.
             bindE (insertTransportProtocolHeader p P_udp (UdpH h)) (\<lambda>p.
               Inr (p\<lparr>pk_kind := 0, pk_tags := (pk_tags p)\<lparr>t_dispatchReq := Some l3\<rparr>\<rparr>))))"

definition udp_handleUpperPacket :: "udp_env \<Rightarrow> packet \<Rightarrow> udp_state \<Rightarrow> udp_result" where
  "udp_handleUpperPacket env p s =
    (if pk_kind p \<noteq> UDP_C_DATA then Inl (RuntimeError ''Unknown packet command code (message kind) received from app'')
     else
       bindE (getTag (t_socketReq (pk_tags p))) (\<lambda>socketId.
       bindE (getOrCreateSocket socketId (ud_sockets s)) (\<lambda>us.
       case map_of (us_byId us) socketId of
         None \<Rightarrow> Inl (RuntimeError ''no socket'')
       | Some sd \<Rightarrow>
         let t = (pk_tags p)\<lparr>t_socketReq := None\<rparr>;
             req = (case t_l3AddressReq t of Some a \<Rightarrow> a
                    | None \<Rightarrow> \<lparr>lr_src = L3None, lr_dest = L3None, lr_nonLocalSrc = False\<rparr>);
             srcAddr = (if l3_isUnspecified (lr_src req) then sd_localAddr sd else lr_src req);
             destAddr = (if l3_isUnspecified (lr_dest req) then sd_remoteAddr sd else lr_dest req);
             (srcPort, destPort) = (case t_l4PortReq t of Some ports \<Rightarrow> ports | None \<Rightarrow> (-1, -1));
             srcPort = (if srcPort = -1 then sd_localPort sd else srcPort);
             destPort = (if destPort = -1 then sd_remotePort sd else destPort);
             t = t\<lparr>t_l3AddressReq := Some (req\<lparr>lr_src := srcAddr, lr_dest := destAddr\<rparr>), t_l4PortReq := None\<rparr>
         in bindE (udp_interface_tag destAddr sd t) (\<lambda>t.
            if l3_isUnspecified destAddr then Inl (RuntimeError ''send: unspecified destination address'')
            else if destPort \<le> 0 \<or> destPort > 65535 then Inl (RuntimeError ''send: invalid remote port number'')
            else
              bindE (udp_option_tags sd t) (\<lambda>t.
              bindE (udp_encapsulate (ud_crcMode s) srcAddr destAddr srcPort destPort (p\<lparr>pk_tags := t\<rparr>)) (\<lambda>p.
              bindE (udp_transmit (ue_channel env) p (s\<lparr>ud_sockets := us\<rparr>)) (\<lambda>(outs, s).
                Inr (outs, s\<lparr>ud_numSent := ud_numSent s + 1\<rparr>))))))))"

section \<open>Receiving\<close>

definition udp_sendUp :: "udp_env \<Rightarrow> udp_header \<Rightarrow> packet \<Rightarrow> sock_desc \<Rightarrow> port \<Rightarrow> port \<Rightarrow> udp_state \<Rightarrow> udp_result" where
  "udp_sendUp env h payload sd srcPort destPort s =
    (let t = (pk_tags payload)\<lparr>t_packetProtocol := None, t_dispatchReq := None, t_socketInd := Some (sd_sockId sd),
               t_transportInd := Some (P_udp, UdpH h), t_l4PortInd := Some (uint srcPort, uint destPort)\<rparr>
     in bindE (udp_transmitUp (ue_upChannel env) (payload\<lparr>pk_kind := UDP_I_DATA, pk_tags := t\<rparr>) s) (\<lambda>(outs, s).
          Inr (outs, s\<lparr>ud_numPassedUp := ud_numPassedUp s + 1\<rparr>)))"

text \<open>
  A copy to each of the sockets. After the first one the channel, if there is one, is busy: the copy
  was sent on it, or it was busy before.
\<close>

fun udp_sendUpAll :: "udp_env \<Rightarrow> udp_header \<Rightarrow> packet \<Rightarrow> sock_desc list \<Rightarrow> port \<Rightarrow> port \<Rightarrow> udp_state \<Rightarrow> udp_result" where
  "udp_sendUpAll env h p [] srcPort destPort s = Inr ([], s)"
| "udp_sendUpAll env h p (sd # sds) srcPort destPort s =
    bindE (udp_sendUp env h p sd srcPort destPort s) (\<lambda>(outs, s).
    bindE (udp_sendUpAll (env\<lparr>ue_upChannel := channel_sent (ue_upChannel env)\<rparr>) h p sds srcPort destPort s) (\<lambda>(outs', s).
      Inr (outs @ outs', s)))"

definition udp_processUndeliverablePacket :: "packet \<Rightarrow> udp_state \<Rightarrow> udp_result" where
  "udp_processUndeliverablePacket p s =
    bindE (peekAtFront as_udp p) (\<lambda>h.
    let s = s\<lparr>ud_numDroppedWrongPort := ud_numDroppedWrongPort s + 1\<rparr>;
        dropped = UdpDropped NO_PORT_FOUND p;
        p = p\<lparr>pk_name := ''Port '' @ string_of_nat (unat (uh_destPort h)) @ '' unreachable''\<rparr>
    in
    bindE (getTag (t_networkInd (pk_tags p))) (\<lambda>(net, nh).
    bindE (trim p) (\<lambda>p.
    bindE (case nh of Some g \<Rightarrow> insertAtFront (header_cells g) p | None \<Rightarrow> Inl (CheckFailed ''chunk is nullptr'')) (\<lambda>p.
    bindE (getTag (t_interfaceInd (pk_tags p))) (\<lambda>inIe.
      if net = P_ipv4 then Inr ([dropped, UdpIcmpUnreachable p inIe], s)
      else if net = P_ipv6 then Inr ([dropped, UdpIcmpv6Unreachable p], s)
      else if net = P_nextHopForwarding then Inr ([dropped], s)
      else Inl (RuntimeError ''arrived from lower layer with unrecognized NetworkProtocolInd''))))))"

definition udp_undeliverable :: "nat \<Rightarrow> packet \<Rightarrow> udp_state \<Rightarrow> udp_result" where
  "udp_undeliverable popPosition p s =
    bindE (setFrontOffset (int popPosition) p) (\<lambda>p. udp_processUndeliverablePacket p s)"

text \<open>The sockets that a datagram is passed up to.\<close>

definition udp_receivers :: "udp_sockets \<Rightarrow> l3_address \<Rightarrow> port \<Rightarrow> l3_address \<Rightarrow> port \<Rightarrow> sock_desc list res" where
  "udp_receivers us destAddr destPort srcAddr srcPort =
    bindE (l3_isMulticast destAddr) (\<lambda>isMulticast.
    bindE (l3_isBroadcast destAddr) (\<lambda>isBroadcast.
      Inr (if \<not> isMulticast \<and> \<not> isBroadcast then
             (case findSocketForUnicastPacket destAddr (uint destPort) srcAddr (uint srcPort) us of
                Some sd \<Rightarrow> [sd] | None \<Rightarrow> [])
           else findSocketsForMcastBcastPacket destAddr (uint destPort) srcAddr (uint srcPort) isMulticast isBroadcast us)))"

definition udp_processUDPPacket :: "udp_env \<Rightarrow> bool \<Rightarrow> bool \<Rightarrow> packet \<Rightarrow> udp_state \<Rightarrow> udp_result" where
  "udp_processUDPPacket env headerOk dataOk p s =
    bindE (getTag (t_packetProtocol (pk_tags p))) (\<lambda>_.
    let p = p\<lparr>pk_tags := (pk_tags p)\<lparr>t_packetProtocol := None\<rparr>\<rparr>;
        popPosition = pk_front p
    in
    bindE (popAtFront as_udp p) (\<lambda>(h, p).
    bindE (getTag (t_l3AddressInd (pk_tags p))) (\<lambda>(srcAddr, destAddr).
    let len = uh_totalLength h;
        hasIncorrectLength = (len < 8 \<or> len > 8 + int (dataLength p))
    in
    bindE (getTag (t_networkInd (pk_tags p))) (\<lambda>(net, _).
    bindE (if hasIncorrectLength then Inr False else udp_verifyCrc headerOk dataOk net h p) (\<lambda>ok.
      if hasIncorrectLength \<or> \<not> ok then
        Inr ([UdpDropped INCORRECTLY_RECEIVED p], s\<lparr>ud_numDroppedBadChecksum := ud_numDroppedBadChecksum s + 1\<rparr>)
      else
        bindE (if len < int (dataLength p) then setBackOffset (int popPosition + len) p else Inr p) (\<lambda>p.
        bindE (udp_receivers (ud_sockets s) destAddr (uh_destPort h) srcAddr (uh_srcPort h)) (\<lambda>sds.
          if sds = [] then udp_undeliverable popPosition p s
          else udp_sendUpAll env h p sds (uh_srcPort h) (uh_destPort h) s)))))))"

text \<open>
  An ICMP error names the socket by the header of the datagram it quotes. \<open>crcOk\<close> is the answer of
  the ICMP module's \<open>verifyCrc\<close>.
\<close>

definition udp_reportError :: "l3_address \<Rightarrow> l3_address \<Rightarrow> packet \<Rightarrow> udp_state \<Rightarrow> udp_result" where
  "udp_reportError localAddr remoteAddr p s =
    bindE (peekAtFront as_udp p) (\<lambda>h.
      Inr (case findSocketForUnicastPacket localAddr (uint (uh_srcPort h)) remoteAddr (uint (uh_destPort h)) (ud_sockets s) of
             Some sd \<Rightarrow> [UdpErrorIndication (sd_sockId sd) localAddr remoteAddr (sd_localPort sd) (uint (uh_destPort h))]
           | None \<Rightarrow> [], s))"

definition udp_processICMPv4Error :: "bool \<Rightarrow> packet \<Rightarrow> udp_state \<Rightarrow> udp_result" where
  "udp_processICMPv4Error crcOk p s =
    (if \<not> crcOk then Inr ([UdpDropped INCORRECTLY_RECEIVED p], s)
     else
       bindE (popAtFront as_icmp p) (\<lambda>(_, p).
       bindE (popAtFront as_ipv4 p) (\<lambda>(ih, p).
         if ih_dontFragment ih \<or> ih_fragmentOffset ih = 0
         then udp_reportError (L3IPv4 (ih_srcAddress ih)) (L3IPv4 (ih_destAddress ih)) p s
         else Inr ([], s))))"

definition udp_processICMPv6Error :: "bool \<Rightarrow> packet \<Rightarrow> udp_state \<Rightarrow> udp_result" where
  "udp_processICMPv6Error crcOk p s =
    (if \<not> crcOk then Inr ([UdpDropped INCORRECTLY_RECEIVED p], s)
     else
       bindE (popAtFront as_icmpv6 p) (\<lambda>(_, p).
       bindE (popAtFront as_ipv6 p) (\<lambda>((src, dest, fragmentOffset), p).
         if fragmentOffset = None \<or> fragmentOffset = Some 0
         then udp_reportError (L3IPv6 src) (L3IPv6 dest) p s
         else Inr ([], s))))"

definition udp_handleLowerPacket :: "udp_env \<Rightarrow> bool \<Rightarrow> bool \<Rightarrow> bool \<Rightarrow> packet \<Rightarrow> udp_state \<Rightarrow> udp_result" where
  "udp_handleLowerPacket env headerOk dataOk icmpCrcOk p s =
    bindE (getTag (t_packetProtocol (pk_tags p))) (\<lambda>prot.
      if prot = P_udp then udp_processUDPPacket env headerOk dataOk p s
      else if prot = P_icmpv4 then udp_processICMPv4Error icmpCrcOk p s
      else if prot = P_icmpv6 then udp_processICMPv6Error icmpCrcOk p s
      else Inl (RuntimeError ''Unknown protocol''))"

definition udp_isCorrectPacket :: "bool \<Rightarrow> bool \<Rightarrow> packet \<Rightarrow> udp_header \<Rightarrow> bool res" where
  "udp_isCorrectPacket headerOk dataOk p h =
    (let trailerPopOffset = int (backOffset p);
         headerOffset = int (pk_front p) - 8
     in if uh_totalLength h < 8 then Inr False
        else if uh_totalLength h > trailerPopOffset - headerOffset then Inr False
        else case (t_l3AddressInd (pk_tags p), t_networkInd (pk_tags p)) of
            (Some _, Some (net, _)) \<Rightarrow> udp_verifyCrc headerOk dataOk net h p
          | _ \<Rightarrow> Inr (uh_crcMode h \<noteq> CRC_DECLARED_INCORRECT))"

section \<open>The checksum hook, commands and the life cycle\<close>

text \<open>As in the hook of RDMA, the header that is taken out is a copy.\<close>

definition udp_datagramPostRoutingHook :: "packet \<Rightarrow> packet res" where
  "udp_datagramPostRoutingHook p =
    (if t_interfaceInd (pk_tags p) \<noteq> None then Inr p
     else
       bindE (getTag (t_packetProtocol (pk_tags p))) (\<lambda>net.
       bindE (case t_networkInd (pk_tags p) of
                Some (_, Some (Ipv4H nh)) \<Rightarrow> Inr nh
              | _ \<Rightarrow> Inl (RuntimeError ''Network protocol header not found'')) (\<lambda>nh.
         if findProtocol ipprotocol (ih_protocolId nh) = Some P_udp then
           if ih_moreFragments nh \<or> ih_fragmentOffset nh \<noteq> 0 then Inl (AssertFailed ''!networkHeader->isFragment()'')
           else
             bindE (eraseAt (pk_front p) (header_length (Ipv4H nh)) p) (\<lambda>p.
             bindE (removeAtFront as_udp p) (\<lambda>(h, p).
               let h = udp_dup h in
               if uh_crcMode h \<noteq> CRC_COMPUTED then Inl (AssertFailed ''getCrcMode() == CRC_COMPUTED'')
               else
                 bindE (udp_insertCrc net (L3IPv4 (ih_srcAddress nh)) (L3IPv4 (ih_destAddress nh)) h p) (\<lambda>h.
                 bindE (insertAtFront (header_cells (UdpH h)) p) (\<lambda>p.
                   insertAtFront (header_cells (Ipv4H nh)) p))))
         else Inr p)))"

definition udp_handleUpperCommand :: "udp_env \<Rightarrow> udp_command \<Rightarrow> udp_state \<Rightarrow> udp_result" where
  "udp_handleUpperCommand env cmd s =
    bindE (udp_handleCommand (ue_interfaces env) cmd (ud_sockets s)) (\<lambda>(outs, us).
      Inr (map UdpCommandOut outs, s\<lparr>ud_sockets := us\<rparr>))"

definition udp_stop :: "udp_state \<Rightarrow> udp_state" where
  "udp_stop s = s\<lparr>ud_sockets := clearAllSockets (ud_sockets s)\<rparr>"

section \<open>The checksum verifies\<close>

lemma udp_pseudo_positive: "pseudo_serialize net src dest IP_PROT_UDP n = Inr ph \<Longrightarrow> 0 < word_sum ph"
proof -
  have e: "even (length (be32_bytes w))" "even (length (be128_bytes v))" for w v
    by (simp_all add: be32_bytes_def be128_bytes_def upt_rec)
  have "(17 :: 8 word) \<noteq> 0" by simp
  then show "pseudo_serialize net src dest IP_PROT_UDP n = Inr ph \<Longrightarrow> 0 < word_sum ph"
    by (auto simp: pseudo_serialize_def bindE_eq_Inr IP_PROT_UDP_def word_sum_append e split: if_splits)
qed

lemma udp_serialize_split:
  assumes "udp_serialize h = Inr hb"
  shows "hb = (be_bytes (uh_srcPort h) @ be_bytes (uh_destPort h) @ be_bytes (of_int (uh_totalLength h))) @ be_bytes (uh_crc h)"
  using assms by (auto simp: udp_serialize_def split: if_splits)

lemma udp_crc_verifies:
  assumes "udp_insertCrc net src dest h p = Inr h'" "uh_crcMode h = CRC_COMPUTED"
    and "take (nat (uh_totalLength h - 8)) (pk_data q) = pk_data p" "t_l3AddressInd (pk_tags q) = Some (src, dest)"
    and "uh_totalLength h = 8 + int (dataLength p)" "0 < dataLength p"
  shows "udp_verifyCrc True True net h' q = Inr True \<and> uh_crc h' \<noteq> 0"
proof -
  let ?h0 = "h\<lparr>uh_crc := 0, uh_crcMode := CRC_DISABLED\<rparr>"
  obtain crc where crc: "udp_computeCrc net src dest ?h0 (pk_data p) = Inr crc"
    and h': "h' = ?h0\<lparr>uh_crc := crc, uh_crcMode := CRC_COMPUTED\<rparr>"
    using assms(1,2) by (auto simp: udp_insertCrc_def Let_def bindE_eq_Inr)
  obtain ph hb db where ph: "pseudo_serialize net src dest IP_PROT_UDP (8 + int (length (pk_data p))) = Inr ph"
    and hb: "udp_serialize ?h0 = Inr hb" and db: "cells_serialize (pk_data p) = Inr db"
    and c: "crc = (if tcpip_checksum (ph @ hb @ db) = 0 then 0xFFFF else tcpip_checksum (ph @ hb @ db))"
    using crc by (auto simp: udp_computeCrc_def bindE_eq_Inr Let_def)
  define pre where "pre = ph @ be_bytes (uh_srcPort h) @ be_bytes (uh_destPort h) @ be_bytes (of_int (uh_totalLength h))"
  have pre: "even (length pre)" "0 < word_sum pre"
    using even_pseudo[OF ph] udp_pseudo_positive[OF ph] by (simp_all add: pre_def be_bytes_def word_sum_append)
  have b0: "ph @ hb @ db = pre @ [0, 0] @ db"
    using udp_serialize_split[OF hb] by (simp add: pre_def be_bytes_def[of 0])
  have "tcpip_checksum (pre @ be_bytes crc @ db) = 0"
    using checksum_fill_nonzero[OF pre, of db] unfolding c b0 .
  moreover have "udp_serialize h' = Inr ((be_bytes (uh_srcPort h) @ be_bytes (uh_destPort h) @ be_bytes (of_int (uh_totalLength h))) @ be_bytes crc)"
    by (simp add: h' udp_serialize_def serializable_def)
  ultimately have ver: "udp_computeCrc net src dest h' (pk_data p) = Inr 0xFFFF"
    using ph db by (simp add: udp_computeCrc_def pre_def)
  have nz: "crc \<noteq> 0" by (simp add: c)
  have "dataLength p \<le> dataLength q" using assms(3,5) by (metis length_pk_data length_take min.cobounded1)
  then have "peekDataAt 0 (uh_totalLength h' - 8) q = Inr (pk_data p)"
    using assms(3,5,6) by (simp add: h' peekDataAt_def peek_at_def)
  then show ?thesis using ver nz assms(4) by (simp add: udp_verifyCrc_def h')
qed

section \<open>From socket to socket\<close>

lemma udp_insertCrc_declared:
  assumes "m \<noteq> CRC_MODE_UNDEFINED"
  shows "(if m = CRC_COMPUTED then Inr (h\<lparr>uh_crcMode := CRC_COMPUTED, uh_crc := 0\<rparr>)
          else udp_insertCrc net src dest (h\<lparr>uh_crcMode := m\<rparr>) p)
       = Inr (h\<lparr>uh_crcMode := m, uh_crc := declared_crc m\<rparr>)"
  using assms by (cases m) (auto simp: udp_insertCrc_def)

definition udp_sent_header :: "crc_mode \<Rightarrow> int \<Rightarrow> int \<Rightarrow> nat \<Rightarrow> udp_header" where
  "udp_sent_header mode srcPort destPort n = new_udp_header\<lparr>uh_srcPort := of_int srcPort, uh_destPort := of_int destPort,
     uh_totalLength := 8 + int n, uh_crcMode := mode, uh_crc := declared_crc mode\<rparr>"

lemma udp_encapsulate_ok:
  assumes "packet_ok p" "mode \<noteq> CRC_MODE_UNDEFINED" "8 + int (totalLength p) \<le> UDP_MAX_MESSAGE_SIZE"
  shows "\<exists>q. udp_encapsulate mode src dest srcPort destPort p = Inr q \<and> packet_ok q
    \<and> pk_data q = header_cells (UdpH (udp_sent_header mode srcPort destPort (totalLength p))) @ pk_data p
    \<and> pk_kind q = 0 \<and> t_packetProtocol (pk_tags q) = Some P_udp \<and> t_dispatchReq (pk_tags q) = Some (l3_protocol_of dest)
    \<and> t_l3AddressReq (pk_tags q) = t_l3AddressReq (pk_tags p)"
proof -
  let ?h = "udp_sent_header mode srcPort destPort (totalLength p)"
  obtain q where q: "insertTransportProtocolHeader p P_udp (UdpH ?h) = Inr q" "packet_ok q"
    "pk_data q = header_cells (UdpH ?h) @ pk_data p"
    "pk_tags q = (pk_tags p)\<lparr>t_transportInd := Some (P_udp, UdpH ?h), t_packetProtocol := Some P_udp\<rparr>"
    using insertTransportProtocolHeader_ok[OF assms(1), of "UdpH ?h" P_udp] by auto
  have "udp_encapsulate mode src dest srcPort destPort p
      = Inr (q\<lparr>pk_kind := 0, pk_tags := (pk_tags q)\<lparr>t_dispatchReq := Some (l3_protocol_of dest)\<rparr>\<rparr>)"
    using assms(3) q(1) by (simp add: udp_encapsulate_def Let_def udp_insertCrc_declared[OF assms(2)] udp_sent_header_def)
  then show ?thesis using q by (auto simp: packet_ok_def pk_data_alt)
qed

text \<open>A packet of a connected socket that leaves addresses, ports and options to the socket.\<close>

definition connected_send :: "udp_env \<Rightarrow> udp_state \<Rightarrow> packet \<Rightarrow> sock_desc \<Rightarrow> bool" where
  "connected_send env s p sd \<longleftrightarrow> pk_kind p = UDP_C_DATA \<and> packet_ok p \<and> pk_front p = 0 \<and> pk_back p = 0
     \<and> 0 < dataLength p \<and> 8 + int (dataLength p) \<le> UDP_MAX_MESSAGE_SIZE
     \<and> t_socketReq (pk_tags p) = Some (sd_sockId sd) \<and> sd_sockId sd \<noteq> -1
     \<and> map_of (us_byId (ud_sockets s)) (sd_sockId sd) = Some sd
     \<and> t_l3AddressReq (pk_tags p) = None \<and> t_l4PortReq (pk_tags p) = None \<and> t_interfaceReq (pk_tags p) = None
     \<and> (sd_tos sd = -1 \<or> sd_dscp sd = -1 \<and> t_dscpReq (pk_tags p) = None)
     \<and> 0 < sd_remotePort sd \<and> sd_remotePort sd \<le> 65535 \<and> ue_channel env = None"

lemma udp_option_tags_ok:
  assumes "sd_tos sd = -1 \<or> sd_dscp sd = -1 \<and> t_dscpReq t = None"
  shows "\<exists>t'. udp_option_tags sd t = Inr t' \<and> t_l3AddressReq t' = t_l3AddressReq t"
  using assms by (auto simp: udp_option_tags_def Let_def)

lemma udp_send_connected:
  assumes c: "connected_send env s p sd" and dest: "sd_remoteAddr sd = L3IPv4 dest" "\<not> ip_isMulticast dest" "\<not> ip_isUnspecified dest"
    and mode: "ud_crcMode s \<noteq> CRC_MODE_UNDEFINED"
  shows "\<exists>q. udp_handleUpperPacket env p s = Inr ([IpOut q], s\<lparr>ud_numSent := ud_numSent s + 1\<rparr>) \<and> packet_ok q
    \<and> pk_data q = header_cells (UdpH (udp_sent_header (ud_crcMode s) (sd_localPort sd) (sd_remotePort sd) (dataLength p))) @ pk_data p
    \<and> t_packetProtocol (pk_tags q) = Some P_udp \<and> t_dispatchReq (pk_tags q) = Some P_ipv4
    \<and> t_l3AddressReq (pk_tags q) = Some \<lparr>lr_src = sd_localAddr sd, lr_dest = L3IPv4 dest, lr_nonLocalSrc = False\<rparr>"
proof -
  let ?t = "(pk_tags p)\<lparr>t_socketReq := None, t_l3AddressReq := Some \<lparr>lr_src = sd_localAddr sd, lr_dest = L3IPv4 dest,
     lr_nonLocalSrc = False\<rparr>, t_l4PortReq := None\<rparr>"
  have g: "getOrCreateSocket (sd_sockId sd) (ud_sockets s) = Inr (ud_sockets s)"
    using c by (simp add: getOrCreateSocket_def connected_send_def)
  have i: "udp_interface_tag (L3IPv4 dest) sd ?t = Inr ?t"
    using c dest by (simp add: udp_interface_tag_def connected_send_def)
  obtain t where t: "udp_option_tags sd ?t = Inr t" "t_l3AddressReq t = t_l3AddressReq ?t"
    using udp_option_tags_ok[of sd ?t] c by (auto simp: connected_send_def)
  have tl: "totalLength p = dataLength p" "8 + int (dataLength p) \<le> UDP_MAX_MESSAGE_SIZE" "packet_ok p"
    using c by (auto simp: connected_send_def dataLength_def)
  have "totalLength (p\<lparr>pk_tags := t\<rparr>) = dataLength p" using tl(1) by (simp add: totalLength_def)
  then obtain q where q: "udp_encapsulate (ud_crcMode s) (sd_localAddr sd) (L3IPv4 dest) (sd_localPort sd) (sd_remotePort sd) (p\<lparr>pk_tags := t\<rparr>) = Inr q"
    "packet_ok q" "pk_data q = header_cells (UdpH (udp_sent_header (ud_crcMode s) (sd_localPort sd) (sd_remotePort sd) (dataLength p))) @ pk_data p"
    "t_packetProtocol (pk_tags q) = Some P_udp" "t_dispatchReq (pk_tags q) = Some P_ipv4" "t_l3AddressReq (pk_tags q) = t_l3AddressReq t"
    using udp_encapsulate_ok[of "p\<lparr>pk_tags := t\<rparr>" "ud_crcMode s" "sd_localAddr sd" "L3IPv4 dest" "sd_localPort sd" "sd_remotePort sd"] mode tl
    by (auto simp: l3_protocol_of_def)
  have "udp_handleUpperPacket env p s = Inr ([IpOut q], s\<lparr>ud_sockets := ud_sockets s, ud_numSent := ud_numSent s + 1\<rparr>)"
    using c g i t(1) q(1) dest by (simp add: udp_handleUpperPacket_def connected_send_def Let_def udp_transmit_def)
  then show ?thesis using q t(2) by simp
qed

lemma udp_receive:
  assumes ok: "packet_ok r" and r: "pk_data r = header_cells (UdpH h) @ payload @ pad"
    and tags: "t_packetProtocol (pk_tags r) = Some P_udp" "t_l3AddressInd (pk_tags r) = Some (L3IPv4 src, L3IPv4 dest)"
      "t_networkInd (pk_tags r) = Some (net, g)"
    and len: "uh_totalLength h = 8 + int (length payload)" and up: "ue_upChannel env = None"
    and dest: "\<not> ip_isMulticast dest" "\<not> ip_isLimitedBroadcast dest"
    and rd: "findSocketForUnicastPacket (L3IPv4 dest) (uint (uh_destPort h)) (L3IPv4 src) (uint (uh_srcPort h)) (ud_sockets s) = Some rd"
    and crc: "\<And>q. pk_data q = payload @ pad \<Longrightarrow> t_l3AddressInd (pk_tags q) = Some (L3IPv4 src, L3IPv4 dest) \<Longrightarrow>
        udp_verifyCrc True True net h q = Inr True"
  shows "\<exists>a. udp_handleLowerPacket env True True icmpOk r s = Inr ([UdpAppOut a], s\<lparr>ud_numPassedUp := ud_numPassedUp s + 1\<rparr>)
    \<and> pk_data a = payload @ (if 8 < length pad then [] else pad) \<and> t_socketInd (pk_tags a) = Some (sd_sockId rd)
    \<and> t_l4PortInd (pk_tags a) = Some (uint (uh_srcPort h), uint (uh_destPort h)) \<and> pk_creation a = pk_creation r"
proof -
  let ?p = "r\<lparr>pk_tags := (pk_tags r)\<lparr>t_packetProtocol := None\<rparr>\<rparr>"
  obtain p1 where p1: "popAtFront as_udp ?p = Inr (h, p1)" "packet_ok p1" "pk_data p1 = payload @ pad"
    "pk_tags p1 = (pk_tags r)\<lparr>t_packetProtocol := None\<rparr>" "pk_front p1 = pk_front r + 8"
    "pk_creation p1 = pk_creation r"
    using popAtFront_header[of ?p "UdpH h" "payload @ pad" as_udp h] ok r by auto
  have dl: "dataLength p1 = length payload + length pad" using p1(3) by (metis length_append length_pk_data)
  have v: "udp_verifyCrc True True net h p1 = Inr True" using crc[OF p1(3)] p1(4) tags(2) by simp
  have cut: "\<exists>p2. (if uh_totalLength h < int (dataLength p1) then setBackOffset (int (pk_front r) + uh_totalLength h) p1 else Inr p1) = Inr p2
      \<and> pk_data p2 = payload @ (if 8 < length pad then [] else pad) \<and> pk_tags p2 = pk_tags p1 \<and> pk_creation p2 = pk_creation p1"
  proof (cases "8 < length pad")
    case True
    have "int (pk_front r) + uh_totalLength h \<le> int (backOffset p1)"
      using len dl p1(2,5) by (simp add: backOffset_def dataLength_def totalLength_def packet_ok_def)
    from setBackOffset_ok[OF p1(2) _ this] obtain p2 where
      "setBackOffset (int (pk_front r) + uh_totalLength h) p1 = Inr p2"
      "pk_data p2 = take (nat (int (pk_front r) + uh_totalLength h - int (pk_front p1))) (pk_data p1)" "pk_tags p2 = pk_tags p1"
      using len p1(5) by auto
    then show ?thesis using True len dl p1(3,5) setBackOffset_creation by simp
  next
    case False
    then show ?thesis using len dl p1(3) by simp
  qed
  then obtain p2 where p2: "(if uh_totalLength h < int (dataLength p1) then setBackOffset (int (pk_front r) + uh_totalLength h) p1 else Inr p1) = Inr p2"
    "pk_data p2 = payload @ (if 8 < length pad then [] else pad)" "pk_tags p2 = pk_tags p1" "pk_creation p2 = pk_creation p1" by blast
  have rcv: "udp_receivers (ud_sockets s) (L3IPv4 dest) (uh_destPort h) (L3IPv4 src) (uh_srcPort h) = Inr [rd]"
    using dest rd by (simp add: udp_receivers_def)
  have nl: "\<not> (uh_totalLength h < 8 \<or> uh_totalLength h > 8 + int (dataLength p1))" using len dl by simp
  let ?a = "p2\<lparr>pk_kind := UDP_I_DATA, pk_tags := (pk_tags p2)\<lparr>t_packetProtocol := None, t_dispatchReq := None,
     t_socketInd := Some (sd_sockId rd), t_transportInd := Some (P_udp, UdpH h), t_l4PortInd := Some (uint (uh_srcPort h), uint (uh_destPort h))\<rparr>\<rparr>"
  let ?cut = "\<lambda>p. if uh_totalLength h < int (dataLength p) then setBackOffset (int (pk_front r) + uh_totalLength h) p else Inr p"
  have "udp_processUDPPacket env True True r s
      = bindE (?cut p1) (\<lambda>p. bindE (udp_receivers (ud_sockets s) (L3IPv4 dest) (uh_destPort h) (L3IPv4 src) (uh_srcPort h)) (\<lambda>sds.
          if sds = [] then udp_undeliverable (pk_front r) p s else udp_sendUpAll env h p sds (uh_srcPort h) (uh_destPort h) s))"
    using tags p1(1,4) v nl by (simp add: udp_processUDPPacket_def Let_def cong: if_cong)
  also have "\<dots> = udp_sendUpAll env h p2 [rd] (uh_srcPort h) (uh_destPort h) s"
    unfolding p2(1) rcv by simp
  finally have "udp_handleLowerPacket env True True icmpOk r s = Inr ([UdpAppOut ?a], s\<lparr>ud_numPassedUp := ud_numPassedUp s + 1\<rparr>)"
    using tags(1) up by (simp add: udp_handleLowerPacket_def udp_sendUp_def udp_transmitUp_def)
  then show ?thesis using p2(2,4) p1(6) by simp
qed

text \<open>
  The bytes of the datagram \<open>q\<close> as they arrive: as they were sent or, with a computed checksum,
  with the one the post-routing hook puts into the header; behind them the padding of a lower layer.
\<close>

definition udp_arrives :: "l3_address \<Rightarrow> l3_address \<Rightarrow> udp_header \<Rightarrow> packet \<Rightarrow> cell list \<Rightarrow> packet \<Rightarrow> bool" where
  "udp_arrives src dest h payload pad r \<longleftrightarrow>
     pk_data r = header_cells (UdpH h) @ pk_data payload @ pad
     \<or> uh_crcMode h = CRC_COMPUTED \<and> (\<exists>h'. udp_insertCrc P_ipv4 src dest h payload = Inr h'
         \<and> pk_data r = header_cells (UdpH h') @ pk_data payload @ pad)"

lemma udp_verify_sent:
  assumes h: "h = udp_sent_header mode srcPort destPort (dataLength p)"
    and mode: "mode \<in> {CRC_DISABLED, CRC_DECLARED_CORRECT, CRC_COMPUTED}" and p: "0 < dataLength p"
    and q: "pk_data q = pk_data p @ pad"
  shows "udp_verifyCrc True True net h q = Inr True"
proof -
  have "dataLength p \<le> dataLength q" using q by (metis length_append length_pk_data le_add1)
  then have "peekDataAt 0 (uh_totalLength h - 8) q = Inr (peek_at 0 (dataLength p) (pk_data q))"
    using peekDataAt_ok[of 0 "uh_totalLength h - 8" q] p by (simp add: h udp_sent_header_def)
  then show ?thesis using mode by (auto simp: udp_verifyCrc_def h udp_sent_header_def)
qed

lemma udp_arrived_up:
  assumes h: "h = udp_sent_header mode srcPort destPort (dataLength p)" "mode \<in> {CRC_DISABLED, CRC_DECLARED_CORRECT, CRC_COMPUTED}" "0 < dataLength p"
    and ports: "0 \<le> srcPort" "srcPort \<le> 65535" "0 \<le> destPort" "destPort \<le> 65535"
    and r: "packet_ok r" "t_packetProtocol (pk_tags r) = Some P_udp" "t_l3AddressInd (pk_tags r) = Some (L3IPv4 src, L3IPv4 dest)"
      "t_networkInd (pk_tags r) = Some (P_ipv4, g)" "udp_arrives (L3IPv4 src) (L3IPv4 dest) h p pad r"
    and dest: "\<not> ip_isMulticast dest" "\<not> ip_isLimitedBroadcast dest" and up: "ue_upChannel env = None"
    and rd: "findSocketForUnicastPacket (L3IPv4 dest) destPort (L3IPv4 src) srcPort (ud_sockets s) = Some rd"
  shows "\<exists>a. udp_handleLowerPacket env True True icmpOk r s = Inr ([UdpAppOut a], s\<lparr>ud_numPassedUp := ud_numPassedUp s + 1\<rparr>)
      \<and> pk_data a = pk_data p @ (if 8 < length pad then [] else pad) \<and> t_socketInd (pk_tags a) = Some (sd_sockId rd)
      \<and> t_l4PortInd (pk_tags a) = Some (srcPort, destPort) \<and> pk_creation a = pk_creation r"
proof -
  have u: "uint (uh_srcPort h) = srcPort" "uint (uh_destPort h) = destPort" "uh_totalLength h = 8 + int (length (pk_data p))"
    using ports by (simp_all add: h(1) udp_sent_header_def uint_word_of_int)
  obtain h' where h': "pk_data r = header_cells (UdpH h') @ pk_data p @ pad" "uh_srcPort h' = uh_srcPort h"
    "uh_destPort h' = uh_destPort h" "uh_totalLength h' = uh_totalLength h"
    "\<And>q. pk_data q = pk_data p @ pad \<Longrightarrow> t_l3AddressInd (pk_tags q) = Some (L3IPv4 src, L3IPv4 dest) \<Longrightarrow>
      udp_verifyCrc True True P_ipv4 h' q = Inr True"
  proof (cases "pk_data r = header_cells (UdpH h) @ pk_data p @ pad")
    case True
    show ?thesis using udp_verify_sent[OF h] by (rule that[OF True refl refl refl])
  next
    case False
    then obtain h' where i: "uh_crcMode h = CRC_COMPUTED" "udp_insertCrc P_ipv4 (L3IPv4 src) (L3IPv4 dest) h p = Inr h'"
      "pk_data r = header_cells (UdpH h') @ pk_data p @ pad" using r(5) by (auto simp: udp_arrives_def)
    have f: "uh_srcPort h' = uh_srcPort h" "uh_destPort h' = uh_destPort h" "uh_totalLength h' = uh_totalLength h"
      using i(1,2) by (auto simp: udp_insertCrc_def Let_def bindE_eq_Inr)
    show ?thesis using udp_crc_verifies[OF i(2,1)] u(3) h(3) by (intro that[OF i(3) f]) simp
  qed
  have len: "uh_totalLength h' = 8 + int (length (pk_data p))" unfolding h'(4) by (rule u(3))
  have "findSocketForUnicastPacket (L3IPv4 dest) (uint (uh_destPort h')) (L3IPv4 src) (uint (uh_srcPort h')) (ud_sockets s) = Some rd"
    unfolding h'(2,3) u(1,2) by (rule rd)
  from udp_receive[where icmpOk = icmpOk, OF r(1) h'(1) r(2-4) len up dest this h'(5)]
  show ?thesis unfolding h'(2,3) u(1,2) .
qed

text \<open>C4: What a connected socket sends is passed up to the socket that the receiving host has for it. The
  sender emits one datagram for the packet, with its payload behind a header with the ports of
  the socket; when its bytes arrive, with the checksum as sent or as the
  hook computes it, the receiver passes up one packet, to the matching socket and with
  the two ports, whose content is the payload, and the padding of the lower layer if that has at most 8
  bytes (a longer padding is removed).\<close>

theorem udp_end_to_end:
  assumes send: "connected_send env s p sd" "sd_localAddr sd = L3IPv4 src" "sd_remoteAddr sd = L3IPv4 dest"
      "ud_crcMode s \<in> {CRC_DISABLED, CRC_DECLARED_CORRECT, CRC_COMPUTED}" "udp_reach (ue_interfaces env) (ud_sockets s)"
    and dest: "\<not> ip_isMulticast dest" "\<not> ip_isLimitedBroadcast dest" "\<not> ip_isUnspecified dest"
    and up: "ue_upChannel env' = None"
    and rd: "findSocketForUnicastPacket (L3IPv4 dest) (sd_remotePort sd) (L3IPv4 src) (sd_localPort sd) (ud_sockets s') = Some rd"
  shows "\<exists>q h. udp_handleUpperPacket env p s = Inr ([IpOut q], s\<lparr>ud_numSent := ud_numSent s + 1\<rparr>)
    \<and> pk_data q = header_cells (UdpH h) @ pk_data p
    \<and> (\<forall>r pad icmpOk. packet_ok r \<and> udp_arrives (L3IPv4 src) (L3IPv4 dest) h p pad r \<and> t_packetProtocol (pk_tags r) = Some P_udp
         \<and> t_l3AddressInd (pk_tags r) = Some (L3IPv4 src, L3IPv4 dest) \<and> (\<exists>g. t_networkInd (pk_tags r) = Some (P_ipv4, g))
       \<longrightarrow> (\<exists>a. udp_handleLowerPacket env' True True icmpOk r s' = Inr ([UdpAppOut a], s'\<lparr>ud_numPassedUp := ud_numPassedUp s' + 1\<rparr>)
             \<and> pk_data a = pk_data p @ (if 8 < length pad then [] else pad) \<and> t_socketInd (pk_tags a) = Some (sd_sockId rd)
             \<and> t_l4PortInd (pk_tags a) = Some (sd_localPort sd, sd_remotePort sd)))"
proof -
  let ?h = "udp_sent_header (ud_crcMode s) (sd_localPort sd) (sd_remotePort sd) (dataLength p)"
  have c: "0 < dataLength p" "map_of (us_byId (ud_sockets s)) (sd_sockId sd) = Some sd" "0 < sd_remotePort sd" "sd_remotePort sd \<le> 65535"
    using send(1) by (simp_all add: connected_send_def)
  have lp: "0 \<le> sd_localPort sd" "sd_localPort sd \<le> 65535"
    using us_okD(5)[OF udp_reach_ok[OF send(5)] c(2)] by simp_all
  have "ud_crcMode s \<noteq> CRC_MODE_UNDEFINED" using send(4) by auto
  from udp_send_connected[OF send(1,3) dest(1,3) this] obtain q where
    q: "udp_handleUpperPacket env p s = Inr ([IpOut q], s\<lparr>ud_numSent := ud_numSent s + 1\<rparr>)"
    "pk_data q = header_cells (UdpH ?h) @ pk_data p" by blast
  have "\<exists>a. udp_handleLowerPacket env' True True icmpOk r s' = Inr ([UdpAppOut a], s'\<lparr>ud_numPassedUp := ud_numPassedUp s' + 1\<rparr>)
      \<and> pk_data a = pk_data p @ (if 8 < length pad then [] else pad) \<and> t_socketInd (pk_tags a) = Some (sd_sockId rd)
      \<and> t_l4PortInd (pk_tags a) = Some (sd_localPort sd, sd_remotePort sd)"
    if r: "packet_ok r" "t_packetProtocol (pk_tags r) = Some P_udp" "t_l3AddressInd (pk_tags r) = Some (L3IPv4 src, L3IPv4 dest)"
      "t_networkInd (pk_tags r) = Some (P_ipv4, g)" and a: "udp_arrives (L3IPv4 src) (L3IPv4 dest) ?h p pad r" for r pad g icmpOk
    using udp_arrived_up[where icmpOk = icmpOk, OF refl send(4) c(1) lp _ c(4) r a dest(1,2) up rd] c(3) by auto
  then show ?thesis using q by blast
qed

definition udp_example_sender :: udp_sockets where
  "udp_example_sender = \<lparr>us_byId = [(1, (new_sock_desc 1)\<lparr>sd_isBound := True, sd_localAddr := L3IPv4 0x0A000001, sd_localPort := 1000,
       sd_remoteAddr := L3IPv4 0x0A000002, sd_remotePort := 2000\<rparr>)],
     us_byPort = [(1000, [1])], us_lastEphemeralPort = 1024\<rparr>"

lemma udp_example_sender_reach: "udp_reach ift udp_example_sender"
proof -
  let ?us = "\<lparr>us_byId = [(1, (new_sock_desc 1)\<lparr>sd_isBound := True, sd_localAddr := L3IPv4 0x0A000001, sd_localPort := 1000\<rparr>)],
     us_byPort = [(1000, [1])], us_lastEphemeralPort = 1024\<rparr>"
  have 1: "udp_handleCommand ift (UdpBind 1 (L3IPv4 0x0A000001) 1000) no_sockets = Inr ([], ?us)"
    by (simp add: udp_bind_def findFirstSocketByLocalAddress_def port_sockets_def socketsByPort_def no_sockets_def
        createSocket_def update_socket_def new_sock_desc_def List.map_filter_def ip_isUnspecified_def)
  have 2: "udp_handleCommand ift (UdpConnect 1 (L3IPv4 0x0A000002) 2000) ?us = Inr ([], udp_example_sender)"
    by (simp add: udp_connect_def getOrCreateSocket_def update_socket_def new_sock_desc_def ip_isUnspecified_def udp_example_sender_def)
  show ?thesis by (rule udp_reach_command[OF udp_reach_command[OF udp_reach_init 1] 2])
qed

definition udp_example_receiver :: udp_sockets where
  "udp_example_receiver = \<lparr>us_byId = [(7, (new_sock_desc 7)\<lparr>sd_isBound := True, sd_onlyLocalPortIsSet := True, sd_localPort := 2000\<rparr>)],
     us_byPort = [(2000, [7])], us_lastEphemeralPort = 1024\<rparr>"

definition udp_example_packet :: packet where
  "udp_example_packet = (new_packet ''hello'' 0)\<lparr>pk_content := [Data 1, Data 2, Data 3], pk_tags := no_tags\<lparr>t_socketReq := Some 1\<rparr>\<rparr>"

definition udp_example_env :: udp_env where
  "udp_example_env = \<lparr>ue_interfaces = [], ue_channel = None, ue_upChannel = None\<rparr>"

lemma udp_end_to_end_witness:
  "\<exists>q h a. udp_handleUpperPacket udp_example_env udp_example_packet ((udp_init CRC_COMPUTED)\<lparr>ud_sockets := udp_example_sender\<rparr>)
      = Inr ([IpOut q], (udp_init CRC_COMPUTED)\<lparr>ud_sockets := udp_example_sender, ud_numSent := 1\<rparr>)
    \<and> pk_data q = header_cells (UdpH h) @ [Data 1, Data 2, Data 3]
    \<and> udp_handleLowerPacket udp_example_env True True True ((new_packet ''in'' 0)\<lparr>pk_content := pk_data q @ replicate 20 (Data 0),
         pk_tags := no_tags\<lparr>t_packetProtocol := Some P_udp, t_l3AddressInd := Some (L3IPv4 0x0A000001, L3IPv4 0x0A000002),
           t_networkInd := Some (P_ipv4, None)\<rparr>\<rparr>) ((udp_init CRC_COMPUTED)\<lparr>ud_sockets := udp_example_receiver\<rparr>)
      = Inr ([UdpAppOut a], (udp_init CRC_COMPUTED)\<lparr>ud_sockets := udp_example_receiver, ud_numPassedUp := 1\<rparr>)
    \<and> pk_data a = [Data 1, Data 2, Data 3] \<and> t_socketInd (pk_tags a) = Some 7"
proof -
  let ?s = "(udp_init CRC_COMPUTED)\<lparr>ud_sockets := udp_example_sender\<rparr>" and ?s' = "(udp_init CRC_COMPUTED)\<lparr>ud_sockets := udp_example_receiver\<rparr>"
  let ?sd = "(new_sock_desc 1)\<lparr>sd_isBound := True, sd_localAddr := L3IPv4 0x0A000001, sd_localPort := 1000,
       sd_remoteAddr := L3IPv4 0x0A000002, sd_remotePort := 2000\<rparr>"
  let ?rd = "(new_sock_desc 7)\<lparr>sd_isBound := True, sd_onlyLocalPortIsSet := True, sd_localPort := 2000\<rparr>"
  have d: "pk_data udp_example_packet = [Data 1, Data 2, Data 3]"
    by (simp add: udp_example_packet_def new_packet_def pk_data_alt)
  have c: "connected_send udp_example_env ?s udp_example_packet ?sd"
    by (simp add: connected_send_def udp_example_packet_def new_packet_def packet_ok_def dataLength_def totalLength_def
        UDP_C_DATA_def UDP_MAX_MESSAGE_SIZE_def no_tags_def udp_example_sender_def new_sock_desc_def udp_example_env_def)
  have rd: "findSocketForUnicastPacket (L3IPv4 0x0A000002) 2000 (L3IPv4 0x0A000001) 1000 udp_example_receiver = Some ?rd"
    by (simp add: findSocketForUnicastPacket_def port_sockets_def socketsByPort_def udp_example_receiver_def List.map_filter_def
        unicast_matches_def new_sock_desc_def)
  have m: "\<not> ip_isMulticast 0x0A000002" "\<not> ip_isLimitedBroadcast 0x0A000002" "\<not> ip_isUnspecified 0x0A000002" by code_simp+
  have pre: "sd_localAddr ?sd = L3IPv4 0x0A000001" "sd_remoteAddr ?sd = L3IPv4 0x0A000002"
    "ud_crcMode ?s \<in> {CRC_DISABLED, CRC_DECLARED_CORRECT, CRC_COMPUTED}" "udp_reach (ue_interfaces udp_example_env) (ud_sockets ?s)"
    "ue_upChannel udp_example_env = None"
    using udp_example_sender_reach by (simp_all add: udp_init_def udp_example_env_def)
  have rd': "findSocketForUnicastPacket (L3IPv4 0x0A000002) (sd_remotePort ?sd) (L3IPv4 0x0A000001) (sd_localPort ?sd) (ud_sockets ?s') = Some ?rd"
    using rd by simp
  from udp_end_to_end[OF c pre(1-4) m pre(5) rd']
  obtain q h where q: "udp_handleUpperPacket udp_example_env udp_example_packet ?s = Inr ([IpOut q], ?s\<lparr>ud_numSent := ud_numSent ?s + 1\<rparr>)"
    "pk_data q = header_cells (UdpH h) @ pk_data udp_example_packet"
    "\<forall>r pad icmpOk. packet_ok r \<and> udp_arrives (L3IPv4 0x0A000001) (L3IPv4 0x0A000002) h udp_example_packet pad r \<and> t_packetProtocol (pk_tags r) = Some P_udp
         \<and> t_l3AddressInd (pk_tags r) = Some (L3IPv4 0x0A000001, L3IPv4 0x0A000002) \<and> (\<exists>g. t_networkInd (pk_tags r) = Some (P_ipv4, g))
       \<longrightarrow> (\<exists>a. udp_handleLowerPacket udp_example_env True True icmpOk r ?s' = Inr ([UdpAppOut a], ?s'\<lparr>ud_numPassedUp := ud_numPassedUp ?s' + 1\<rparr>)
             \<and> pk_data a = pk_data udp_example_packet @ (if 8 < length pad then [] else pad) \<and> t_socketInd (pk_tags a) = Some (sd_sockId ?rd)
             \<and> t_l4PortInd (pk_tags a) = Some (sd_localPort ?sd, sd_remotePort ?sd))"
    by blast
  let ?r = "(new_packet ''in'' 0)\<lparr>pk_content := pk_data q @ replicate 20 (Data 0),
         pk_tags := no_tags\<lparr>t_packetProtocol := Some P_udp, t_l3AddressInd := Some (L3IPv4 0x0A000001, L3IPv4 0x0A000002),
           t_networkInd := Some (P_ipv4, None)\<rparr>\<rparr>"
  have r: "pk_data ?r = pk_data q @ replicate 20 (Data 0)" "packet_ok ?r" by (simp_all add: new_packet_def pk_data_alt packet_ok_def)
  then have "udp_arrives (L3IPv4 0x0A000001) (L3IPv4 0x0A000002) h udp_example_packet (replicate 20 (Data 0)) ?r"
    using q(2) by (simp add: udp_arrives_def)
  then obtain a where "udp_handleLowerPacket udp_example_env True True True ?r ?s' = Inr ([UdpAppOut a], ?s'\<lparr>ud_numPassedUp := ud_numPassedUp ?s' + 1\<rparr>)"
    "pk_data a = pk_data udp_example_packet" "t_socketInd (pk_tags a) = Some 7"
    using q(3)[rule_format, of ?r "replicate 20 (Data 0)" True] r(2) by (auto simp: new_sock_desc_def)
  then show ?thesis using q(1,2) d by (auto simp: udp_init_def)
qed

end
