(* ===== verification/Udp_Socket.thy ===== *)
theory Udp_Socket
  imports Udp
begin

text \<open>
  The client side of a UDP socket (\<open>transportlayer/contract/udp/UdpSocket.{h,cc}\<close>): the object an
  application holds. Its operations check their arguments and send a request or a packet to
  the UDP module, whose commands are those of \<open>Udp_Sockets\<close>; the socket id that \<open>sendToUDP\<close> puts
  into the \<open>SocketReq\<close> tag of a request is the argument of the command. The messages that come
  back are dispatched to the callback. \<open>getReceivedPacketInfo\<close>, a text for the log, is not modelled.
\<close>

section \<open>State\<close>

datatype sock_state = CONNECTED | CLOSED

record udp_socket =
  so_socketId :: int
  so_callback :: bool     \<comment> \<open>\<open>cb\<close> is set\<close>
  so_gateToUdp :: bool    \<comment> \<open>\<open>gateToUdp\<close> is set\<close>
  so_state :: sock_state

datatype udp_msg = UdpRequest udp_command | UdpData packet

type_synonym sock_result = "(udp_msg list \<times> udp_socket) res"

text \<open>The constructor; the id is the next unique number of the simulation.\<close>

definition new_udp_socket :: "int \<Rightarrow> udp_socket" where
  "new_udp_socket i = \<lparr>so_socketId = i, so_callback = False, so_gateToUdp = False, so_state = CLOSED\<rparr>"

definition setOutputGate :: "udp_socket \<Rightarrow> udp_socket" where
  "setOutputGate so = so\<lparr>so_gateToUdp := True\<rparr>"

definition setCallback :: "udp_socket \<Rightarrow> udp_socket" where
  "setCallback so = so\<lparr>so_callback := True\<rparr>"

section \<open>Requests and packets\<close>

definition sendToUDP :: "(int \<Rightarrow> udp_msg) \<Rightarrow> udp_socket \<Rightarrow> udp_msg list res" where
  "sendToUDP msg so =
    (if \<not> so_gateToUdp so then Inl (RuntimeError ''UdpSocket: setOutputGate() must be invoked before socket can be used'')
     else Inr [msg (so_socketId so)])"

definition data_msg :: "packet \<Rightarrow> int \<Rightarrow> udp_msg" where
  "data_msg p sockId = UdpData (p\<lparr>pk_tags := (pk_tags p)\<lparr>t_dispatchReq := Some P_udp, t_socketReq := Some sockId\<rparr>\<rparr>)"

definition sock_bind :: "l3_address \<Rightarrow> int \<Rightarrow> udp_socket \<Rightarrow> sock_result" where
  "sock_bind localAddr localPort so =
    (if localPort < -1 \<or> localPort > 65535 then Inl (RuntimeError ''UdpSocket::bind(): invalid port number'')
     else bindE (sendToUDP (\<lambda>i. UdpRequest (UdpBind i localAddr localPort)) so) (\<lambda>out.
       Inr (out, so\<lparr>so_state := CONNECTED\<rparr>)))"

definition sock_connect :: "l3_address \<Rightarrow> int \<Rightarrow> udp_socket \<Rightarrow> sock_result" where
  "sock_connect addr port so =
    (if l3_isUnspecified addr then Inl (RuntimeError ''UdpSocket::connect(): unspecified remote address'')
     else if port \<le> 0 \<or> port > 65535 then Inl (RuntimeError ''UdpSocket::connect(): invalid remote port number'')
     else bindE (sendToUDP (\<lambda>i. UdpRequest (UdpConnect i addr port)) so) (\<lambda>out.
       Inr (out, so\<lparr>so_state := CONNECTED\<rparr>)))"

definition sock_sendTo :: "packet \<Rightarrow> l3_address \<Rightarrow> int \<Rightarrow> udp_socket \<Rightarrow> sock_result" where
  "sock_sendTo p destAddr destPort so =
    (let p = p\<lparr>pk_kind := UDP_C_DATA, pk_tags := (pk_tags p)\<lparr>
        t_l3AddressReq := Some (case t_l3AddressReq (pk_tags p) of Some r \<Rightarrow> r\<lparr>lr_dest := destAddr\<rparr>
          | None \<Rightarrow> \<lparr>lr_src = L3None, lr_dest = destAddr, lr_nonLocalSrc = False\<rparr>)\<rparr>\<rparr>;
         p = (if destPort \<noteq> -1
              then p\<lparr>pk_tags := (pk_tags p)\<lparr>t_l4PortReq := Some (case t_l4PortReq (pk_tags p) of Some (s, _) \<Rightarrow> s | None \<Rightarrow> -1, destPort)\<rparr>\<rparr>
              else p)
     in bindE (sendToUDP (data_msg p) so) (\<lambda>out. Inr (out, so\<lparr>so_state := CONNECTED\<rparr>)))"

definition sock_send :: "packet \<Rightarrow> udp_socket \<Rightarrow> sock_result" where
  "sock_send p so = bindE (sendToUDP (data_msg (p\<lparr>pk_kind := UDP_C_DATA\<rparr>)) so) (\<lambda>out. Inr (out, so\<lparr>so_state := CONNECTED\<rparr>))"

definition sock_close :: "udp_socket \<Rightarrow> sock_result" where
  "sock_close so =
    (if so_state so = CLOSED then Inr ([], so)
     else bindE (sendToUDP (\<lambda>i. UdpRequest (UdpClose i)) so) (\<lambda>out. Inr (out, so\<lparr>so_state := CLOSED\<rparr>)))"

text \<open>\<open>destroy\<close> leaves the state as it is.\<close>

definition sock_destroy :: "udp_socket \<Rightarrow> sock_result" where
  "sock_destroy so =
    (if \<not> so_gateToUdp so then Inr ([], so)
     else bindE (sendToUDP (\<lambda>i. UdpRequest (UdpDestroy i)) so) (\<lambda>out. Inr (out, so)))"

section \<open>Options\<close>

definition sock_option :: "udp_option \<Rightarrow> udp_socket \<Rightarrow> sock_result" where
  "sock_option opt so = bindE (sendToUDP (\<lambda>i. UdpRequest (UdpSetOption i opt)) so) (\<lambda>out. Inr (out, so))"

text \<open>An \<open>int\<close> passed as a \<open>short\<close>.\<close>

definition as_short :: "int \<Rightarrow> int" where
  "as_short n = sint (of_int n :: 16 word)"

definition sock_setTimeToLive :: "int \<Rightarrow> udp_socket \<Rightarrow> sock_result" where
  "sock_setTimeToLive ttl = sock_option (SetTtl ttl)"

definition sock_setDscp :: "int \<Rightarrow> udp_socket \<Rightarrow> sock_result" where
  "sock_setDscp dscp = sock_option (SetDscp (as_short dscp))"

definition sock_setTos :: "int \<Rightarrow> udp_socket \<Rightarrow> sock_result" where
  "sock_setTos tos = sock_option (SetTos (as_short tos))"

definition sock_setBroadcast :: "bool \<Rightarrow> udp_socket \<Rightarrow> sock_result" where
  "sock_setBroadcast b = sock_option (SetBroadcast b)"

definition sock_setMulticastOutputInterface :: "int \<Rightarrow> udp_socket \<Rightarrow> sock_result" where
  "sock_setMulticastOutputInterface i = sock_option (SetMcastIface i)"

definition sock_setMulticastLoop :: "bool \<Rightarrow> udp_socket \<Rightarrow> sock_result" where
  "sock_setMulticastLoop b = sock_option (SetMcastLoop b)"

definition sock_setReuseAddress :: "bool \<Rightarrow> udp_socket \<Rightarrow> sock_result" where
  "sock_setReuseAddress b = sock_option (SetReuseAddr b)"

definition sock_joinMulticastGroup :: "l3_address \<Rightarrow> int \<Rightarrow> udp_socket \<Rightarrow> sock_result" where
  "sock_joinMulticastGroup a i = sock_option (JoinMcastGroups [a] [i])"

definition sock_leaveMulticastGroup :: "l3_address \<Rightarrow> udp_socket \<Rightarrow> sock_result" where
  "sock_leaveMulticastGroup a = sock_option (LeaveMcastGroups [a])"

definition sock_blockMulticastSources :: "int \<Rightarrow> l3_address \<Rightarrow> l3_address list \<Rightarrow> udp_socket \<Rightarrow> sock_result" where
  "sock_blockMulticastSources i a srcs = sock_option (BlockMcastSrc i a srcs)"

definition sock_unblockMulticastSources :: "int \<Rightarrow> l3_address \<Rightarrow> l3_address list \<Rightarrow> udp_socket \<Rightarrow> sock_result" where
  "sock_unblockMulticastSources i a srcs = sock_option (UnblockMcastSrc i a srcs)"

definition sock_leaveMulticastSources :: "int \<Rightarrow> l3_address \<Rightarrow> l3_address list \<Rightarrow> udp_socket \<Rightarrow> sock_result" where
  "sock_leaveMulticastSources i a srcs = sock_option (LeaveMcastSrc i a srcs)"

definition sock_joinMulticastSources :: "int \<Rightarrow> l3_address \<Rightarrow> l3_address list \<Rightarrow> udp_socket \<Rightarrow> sock_result" where
  "sock_joinMulticastSources i a srcs = sock_option (JoinMcastSrc i a srcs)"

definition sock_setMulticastSourceFilter :: "int \<Rightarrow> l3_address \<Rightarrow> filter_mode \<Rightarrow> l3_address list \<Rightarrow> udp_socket \<Rightarrow> sock_result" where
  "sock_setMulticastSourceFilter i a mode srcs = sock_option (SetMcastSrcFilter i a mode srcs)"

text \<open>A \<open>MulticastGroupList\<close> holds pairs of a group and an interface.\<close>

definition sock_joinLocalMulticastGroups :: "(l3_address \<times> int) list \<Rightarrow> udp_socket \<Rightarrow> sock_result" where
  "sock_joinLocalMulticastGroups mgl so =
    (if mgl \<noteq> [] then sock_option (JoinMcastGroups (map fst mgl) (map snd mgl)) so else Inr ([], so))"

definition sock_leaveLocalMulticastGroups :: "(l3_address \<times> int) list \<Rightarrow> udp_socket \<Rightarrow> sock_result" where
  "sock_leaveLocalMulticastGroups mgl so =
    (if mgl \<noteq> [] then sock_option (LeaveMcastGroups (map fst mgl)) so else Inr ([], so))"

section \<open>Messages from the UDP module\<close>

datatype udp_indication = DataInd packet | ErrorInd | ClosedInd | OtherInd int

datatype sock_callback = DataArrived packet | ErrorArrived | ClosedArrived

text \<open>The first argument is the \<open>SocketInd\<close> tag of the message.\<close>

definition belongsToSocket :: "int option \<Rightarrow> udp_socket \<Rightarrow> bool" where
  "belongsToSocket ind so \<longleftrightarrow> ind = Some (so_socketId so)"

definition sock_processMessage :: "int option \<Rightarrow> udp_indication \<Rightarrow> udp_socket \<Rightarrow> (sock_callback list \<times> udp_socket) res" where
  "sock_processMessage ind msg so =
    (if \<not> belongsToSocket ind so then Inl (AssertFailed ''belongsToSocket(msg)'')
     else case msg of
       DataInd p \<Rightarrow> Inr (if so_callback so then [DataArrived p] else [], so)
     | ErrorInd \<Rightarrow> Inr (if so_callback so then [ErrorArrived] else [], so)
     | ClosedInd \<Rightarrow> Inr (if so_callback so then [ClosedArrived] else [], so\<lparr>so_state := CLOSED\<rparr>)
     | OtherInd k \<Rightarrow> Inl (RuntimeError ''UdpSocket: invalid msg kind''))"

end
