(* ===== verification/Udp_App.thy ===== *)
theory Udp_App
  imports Udp_Socket Rdma_App
begin

text \<open>
  The UDP application (\<open>applications/udpapp/MyUdpBasicApp.{h,cc}\<close>): its timer, the messages it
  sends through a UDP socket, which it cuts into fragments by itself, and the reception with
  \<open>UdpAppFragBuf\<close>. As in \<open>Rdma_App\<close>, a handler returns its outputs and the new state, or the error it
  raises; name resolution, the interface table, the random number generator, the time and the
  parameters that are read on every use are fields of an environment. What is written to
  the log, the floating point statistics of \<open>finish\<close>, the display string and the delays that the base class adds
  to a stop operation are not modelled.
\<close>

section \<open>State\<close>

record udp_app =
  ua_packetsToSend :: int
  ua_destAddresses :: "l3_address list"
  ua_destAddressStr :: "string list"
  ua_localPort :: int
  ua_destPort :: int
  ua_startTime :: simtime
  ua_stopTime :: simtime
  ua_dontFragment :: bool
  ua_packetName :: string
  ua_messageLength :: int
  ua_id :: int
  ua_fragmentSize :: int
  ua_offset :: int
  ua_fragMsgName :: string
  ua_socket :: udp_socket
  ua_selfMsg :: self_msg_kind
  ua_timer :: "simtime option"
  ua_numSent :: int
  ua_numReceived :: int
  ua_latencyPackets :: "simtime list"
  ua_destAddr :: l3_address
  ua_channel :: bool             \<comment> \<open>\<open>transmissionChannel\<close> is set\<close>
  ua_isGlobalArp :: bool
  ua_fragbuf :: "port_key frag_bufs"

record udp_app_env =
  va_now :: simtime
  va_parentName :: string
  va_parentId :: int
  va_messageLength :: int
  va_firstPacket :: int
  va_sendInterval :: simtime
  va_localAddress :: string
  va_destAddresses :: "string list"            \<comment> \<open>the parameter, cut into tokens\<close>
  va_excludeLocal :: bool
  va_isLocal :: "l3_address \<Rightarrow> bool"
  va_resolve :: "string \<Rightarrow> l3_address res"    \<comment> \<open>\<open>L3AddressResolver::resolve\<close>\<close>
  va_tryResolve :: "string \<Rightarrow> l3_address"
  va_intrand :: "nat \<Rightarrow> nat"
  va_timeToLive :: int
  va_dscp :: int
  va_tos :: int
  va_multicastInterface :: string
  va_findInterface :: "string \<Rightarrow> int option"  \<comment> \<open>\<open>IInterfaceTable::findInterfaceByName\<close>, the id\<close>
  va_receiveBroadcast :: bool
  va_joinLocalMulticastGroups :: bool
  va_multicastGroups :: "(l3_address \<times> int) list"
  va_stopping :: bool             \<comment> \<open>\<open>operationalState == STOPPING_OPERATION\<close>\<close>

datatype udp_app_output =
    MsgSent packet         \<comment> \<open>\<open>packetSentSignal\<close>\<close>
  | ToUdp udp_msg          \<comment> \<open>sent on \<open>socketOut\<close>\<close>
  | MsgReceived packet     \<comment> \<open>\<open>packetReceivedSignal\<close>\<close>
  | ExtraTimeOrFinish      \<comment> \<open>\<open>startActiveOperationExtraTimeOrFinish\<close>\<close>

type_synonym udp_app_result = "(udp_app_output list \<times> udp_app) res"

definition MAX_INT :: int where
  "MAX_INT = 2147483647"

text \<open>\<open>initialize\<close>, with the values of the parameters it reads and the id of the new socket.\<close>

definition udpApp_initialize ::
  "int \<Rightarrow> int \<Rightarrow> int \<Rightarrow> simtime \<Rightarrow> simtime \<Rightarrow> string \<Rightarrow> bool \<Rightarrow> int \<Rightarrow> int \<Rightarrow> bool \<Rightarrow> bool \<Rightarrow> udp_app res" where
  "udpApp_initialize sockId localPort destPort startTime stopTime name dontFragment packetsToSend fragmentSize channel globalArp =
    (let packetsToSend = (if packetsToSend = -1 then MAX_INT else packetsToSend) in
     if fragmentSize > UDP_MAX_MESSAGE_SIZE - 8 \<or> fragmentSize \<le> 0 then Inl (RuntimeError ''Invalid value for fragment size'')
     else if stopTime \<ge> 0 \<and> stopTime < startTime then Inl (RuntimeError ''Invalid startTime/stopTime parameters'')
     else Inr \<lparr>ua_packetsToSend = packetsToSend, ua_destAddresses = [], ua_destAddressStr = [], ua_localPort = localPort,
       ua_destPort = destPort, ua_startTime = startTime, ua_stopTime = stopTime, ua_dontFragment = dontFragment,
       ua_packetName = name, ua_messageLength = 0, ua_id = 0, ua_fragmentSize = fragmentSize, ua_offset = 0, ua_fragMsgName = [],
       ua_socket = new_udp_socket sockId, ua_selfMsg = KIND_NONE, ua_timer = None, ua_numSent = 0, ua_numReceived = 0,
       ua_latencyPackets = [], ua_destAddr = L3None, ua_channel = channel, ua_isGlobalArp = globalArp, ua_fragbuf = []\<rparr>)"

text \<open>A call of the socket.\<close>

definition on_socket :: "(udp_socket \<Rightarrow> sock_result) \<Rightarrow> udp_app \<Rightarrow> udp_app_result" where
  "on_socket op a = bindE (op (ua_socket a)) (\<lambda>(out, so). Inr (map ToUdp out, a\<lparr>ua_socket := so\<rparr>))"

definition then_do :: "udp_app_result \<Rightarrow> (udp_app \<Rightarrow> udp_app_result) \<Rightarrow> udp_app_result" where
  "then_do r f = bindE r (\<lambda>(out, a). bindE (f a) (\<lambda>(out', a). Inr (out @ out', a)))"

section \<open>The socket's options\<close>

definition udpApp_setSocketOptions :: "udp_app_env \<Rightarrow> udp_app \<Rightarrow> udp_app_result" where
  "udpApp_setSocketOptions env a =
    then_do (if va_timeToLive env \<noteq> -1 then on_socket (sock_setTimeToLive (va_timeToLive env)) a else Inr ([], a)) (\<lambda>a.
    then_do (if va_dscp env \<noteq> -1 then on_socket (sock_setDscp (va_dscp env)) a else Inr ([], a)) (\<lambda>a.
    then_do (if va_tos env \<noteq> -1 then on_socket (sock_setTos (va_tos env)) a else Inr ([], a)) (\<lambda>a.
    then_do (if va_multicastInterface env \<noteq> [] then
               (case va_findInterface env (va_multicastInterface env) of
                  None \<Rightarrow> Inl (RuntimeError ''Wrong multicastInterface setting'')
                | Some i \<Rightarrow> on_socket (sock_setMulticastOutputInterface i) a)
             else Inr ([], a)) (\<lambda>a.
    then_do (if va_receiveBroadcast env then on_socket (sock_setBroadcast True) a else Inr ([], a)) (\<lambda>a.
    then_do (if va_joinLocalMulticastGroups env then on_socket (sock_joinLocalMulticastGroups (va_multicastGroups env)) a
             else Inr ([], a)) (\<lambda>a.
      Inr ([], a\<lparr>ua_socket := setCallback (ua_socket a)\<rparr>)))))))"

section \<open>Sending\<close>

text \<open>
  \<open>chooseDestAddr\<close>. The tokens \<open>destAddressStr\<close> are never filled in, so looking an address up again reads
  outside of the vector; that is an error here.
\<close>

definition udpApp_chooseDestAddr :: "udp_app_env \<Rightarrow> udp_app \<Rightarrow> (l3_address \<times> udp_app) res" where
  "udpApp_chooseDestAddr env a =
    (let k = va_intrand env (length (ua_destAddresses a)) in
     if length (ua_destAddresses a) \<le> k then Inl (RuntimeError ''index out of bounds'')
     else
       let addr = ua_destAddresses a ! k in
       bindE (if l3_isUnspecified addr then Inr True else l3_isLinkLocal addr) (\<lambda>again.
         if again \<and> length (ua_destAddressStr a) \<le> k then Inl (RuntimeError ''index out of bounds'')
         else
           let addr = (if again then va_tryResolve env (ua_destAddressStr a ! k) else addr)
           in Inr (addr, a\<lparr>ua_destAddresses := (ua_destAddresses a)[k := addr]\<rparr>)))"

text \<open>
  The fragment at the current offset, in the loop without a transmission channel. \<open>payload\<close> is the header of the
  whole message; \<open>-last\<close> is added to the name after the packet was created with it, so it is
  lost. The mark of a first fragment is written and never read; it is not modelled.
\<close>

definition udpApp_thisFragmentLength :: "udp_app \<Rightarrow> int" where
  "udpApp_thisFragmentLength a =
    (if ua_offset a + ua_fragmentSize a \<ge> ua_messageLength a then ua_messageLength a - ua_offset a else ua_fragmentSize a)"

definition udpApp_fragment :: "simtime \<Rightarrow> packet \<Rightarrow> app_header \<Rightarrow> udp_app \<Rightarrow> packet res" where
  "udpApp_fragment now p payload a =
    (let lastFragment = ua_offset a + ua_fragmentSize a \<ge> ua_messageLength a;
         len = udpApp_thisFragmentLength a;
         fragment = (new_packet (ua_fragMsgName a @ string_of_nat (nat (ua_offset a))) now)\<lparr>pk_tags := pk_tags p\<rparr>;
         h = (app_dup payload)\<lparr>ah_chunkLength := nat len,
               ah_fragmentOffset := of_int (uint (ah_fragmentOffset payload) + ua_offset a),
               ah_totalLength := len, ah_id := Some (ua_id a)\<rparr>;
         h = (if lastFragment then h else h\<lparr>ah_moreFragments := True\<rparr>)
     in insertAtFront (header_cells (AppH h)) fragment)"

lemma udpApp_fragment_progress:
  assumes "udpApp_fragment now p payload a = Inr f"
  shows "0 < udpApp_thisFragmentLength a"
proof (rule ccontr)
  assume "\<not> 0 < udpApp_thisFragmentLength a"
  then have "nat (udpApp_thisFragmentLength a) = 0" by simp
  then show False using assms
    by (auto simp: udpApp_fragment_def Let_def insertAtFront_def insertAt_def header_cells_def split: if_splits)
qed

text \<open>The loop \<open>while (offset < messageLength)\<close>.\<close>

function udpApp_fragment_loop :: "simtime \<Rightarrow> packet \<Rightarrow> app_header \<Rightarrow> udp_app \<Rightarrow> udp_app_result" where
  "udpApp_fragment_loop now p payload a =
    (if ua_offset a < ua_messageLength a then
       (case udpApp_fragment now p payload a of
          Inl e \<Rightarrow> Inl e
        | Inr f \<Rightarrow>
            (case on_socket (sock_sendTo f (ua_destAddr a) (ua_destPort a)) a of
               Inl e \<Rightarrow> Inl e
             | Inr (out, b) \<Rightarrow>
                 bindE (udpApp_fragment_loop now p payload
                          (a\<lparr>ua_socket := ua_socket b, ua_offset := ua_offset a + udpApp_thisFragmentLength a\<rparr>)) (\<lambda>(out', a).
                   Inr (out @ out', a))))
     else Inr ([], a))"
  by pat_completeness auto
termination
proof (relation "measure (\<lambda>(now, p, payload, a). nat (ua_messageLength a - ua_offset a))")
  fix now :: simtime and p f :: packet and payload and a b :: udp_app and x and out :: "udp_app_output list"
  assume "ua_offset a < ua_messageLength a" "udpApp_fragment now p payload a = Inr f"
  then show "((now, p, payload, a\<lparr>ua_socket := ua_socket b, ua_offset := ua_offset a + udpApp_thisFragmentLength a\<rparr>), now, p, payload, a)
    \<in> measure (\<lambda>(now, p, payload, a). nat (ua_messageLength a - ua_offset a))"
    using udpApp_fragment_progress[of now p payload a f] by simp
qed simp

declare udpApp_fragment_loop.simps [simp del]

text \<open>
  \<open>sendPacket\<close>. A whole message is announced by two signals. With a transmission channel a longer
  message raises: the payload was made immutable when it was put into the packet, and the code then
  changes it, first with \<open>setMoreFragments\<close>, \<open>setFirstFragment\<close> or \<open>setChunkLength\<close>.
\<close>

definition udpApp_payload :: "int \<Rightarrow> int \<Rightarrow> int \<Rightarrow> app_header" where
  "udpApp_payload len seqNo i = (new_app_header (nat len))\<lparr>ah_sequenceNumber := of_int seqNo, ah_id := Some i\<rparr>"

definition udpApp_sendPacket :: "udp_app_env \<Rightarrow> udp_app \<Rightarrow> udp_app_result" where
  "udpApp_sendPacket env a =
    (if ua_packetsToSend a > ua_numSent a then
       let str = ua_packetName a @ ''_'' @ va_parentName env @ ''-'' @ string_of_nat (nat (ua_numSent a));
           p = new_packet str (va_now env);
           p = (if ua_dontFragment a then p\<lparr>pk_tags := (pk_tags p)\<lparr>t_fragmentationReq := Some True\<rparr>\<rparr> else p);
           a = a\<lparr>ua_messageLength := (if ua_numSent a = 0 \<and> ua_isGlobalArp a then va_firstPacket env else va_messageLength env),
                 ua_id := va_parentId env * 10 + ua_numSent a\<rparr>;
           payload = udpApp_payload (ua_messageLength a) (ua_numSent a) (ua_id a)
       in
       bindE (insertAtFront (header_cells (AppH payload)) p) (\<lambda>p.
         if ua_messageLength a \<le> ua_fragmentSize a then
           bindE (on_socket (sock_sendTo p (ua_destAddr a) (ua_destPort a)) a) (\<lambda>(out, a).
             Inr ([MsgSent p, MsgSent p] @ out, a\<lparr>ua_numSent := ua_numSent a + 1\<rparr>))
         else
           let a = a\<lparr>ua_fragMsgName := str @ ''-frag-''\<rparr>
           in if ua_channel a then Inl (CheckFailed ''chunk is immutable'')
              else
                bindE (udpApp_fragment_loop (va_now env) p payload a) (\<lambda>(out, a).
                  Inr (MsgSent p # out, a\<lparr>ua_numSent := ua_numSent a + 1, ua_offset := 0\<rparr>)))
     else Inr ([], a))"

section \<open>The timer\<close>

definition udpApp_schedule :: "simtime \<Rightarrow> simtime \<Rightarrow> udp_app \<Rightarrow> udp_app res" where
  "udpApp_schedule now t a =
    (if t < now then Inl (RuntimeError ''Cannot schedule message to the past'')
     else if ua_timer a \<noteq> None then Inl (RuntimeError ''Message is currently scheduled'')
     else Inr (a\<lparr>ua_timer := Some t\<rparr>))"

definition udpApp_processSend :: "udp_app_env \<Rightarrow> udp_app \<Rightarrow> udp_app_result" where
  "udpApp_processSend env a =
    bindE (udpApp_chooseDestAddr env a) (\<lambda>(dest, a).
    bindE (udpApp_sendPacket env (a\<lparr>ua_destAddr := dest\<rparr>)) (\<lambda>(out, a).
    let d = va_sendInterval env in
    bindE (if ua_stopTime a < 0 \<or> va_now env + d < ua_stopTime a
           then udpApp_schedule (va_now env) (va_now env + d) (a\<lparr>ua_selfMsg := SEND\<rparr>)
           else udpApp_schedule (va_now env) (ua_stopTime a) (a\<lparr>ua_selfMsg := STOP\<rparr>)) (\<lambda>a.
      Inr (out, a))))"

text \<open>\<open>strstr\<close>, as a question.\<close>

fun occurs_in :: "string \<Rightarrow> string \<Rightarrow> bool" where
  "occurs_in pat [] \<longleftrightarrow> pat = []"
| "occurs_in pat (c # cs) \<longleftrightarrow> take (length pat) (c # cs) = pat \<or> occurs_in pat cs"

text \<open>The loop of \<open>processStart\<close> over the tokens of the destinations.\<close>

fun udpApp_destinations :: "udp_app_env \<Rightarrow> string list \<Rightarrow> l3_address list \<Rightarrow> l3_address list res" where
  "udpApp_destinations env [] ds = Inr ds"
| "udpApp_destinations env (tok # toks) ds =
    (if occurs_in ''Broadcast'' tok then udpApp_destinations env toks (ds @ [L3IPv4 0xFFFFFFFF])
     else bindE (va_resolve env tok) (\<lambda>addr.
       if va_excludeLocal env \<and> va_isLocal env addr then udpApp_destinations env toks ds
       else udpApp_destinations env toks (ds @ [addr])))"

definition udpApp_processStart :: "udp_app_env \<Rightarrow> udp_app \<Rightarrow> udp_app_result" where
  "udpApp_processStart env a =
    (let a = a\<lparr>ua_socket := setOutputGate (ua_socket a)\<rparr> in
     bindE (if va_localAddress env \<noteq> [] then va_resolve env (va_localAddress env) else Inr L3None) (\<lambda>local.
     then_do (on_socket (sock_bind local (ua_localPort a)) a) (\<lambda>a.
     then_do (udpApp_setSocketOptions env a) (\<lambda>a.
     bindE (udpApp_destinations env (va_destAddresses env) (ua_destAddresses a)) (\<lambda>ds.
       let a = a\<lparr>ua_destAddresses := ds\<rparr> in
       if ds \<noteq> [] then udpApp_processSend env (a\<lparr>ua_selfMsg := SEND\<rparr>)
       else if ua_stopTime a \<ge> 0 then
         bindE (udpApp_schedule (va_now env) (ua_stopTime a) (a\<lparr>ua_selfMsg := STOP\<rparr>)) (\<lambda>a. Inr ([], a))
       else Inr ([], a))))))"

definition udpApp_processStop :: "udp_app \<Rightarrow> udp_app_result" where
  "udpApp_processStop a = on_socket sock_close a"

definition udpApp_handleEndTxPeriod :: "udp_app_env \<Rightarrow> udp_app \<Rightarrow> udp_app_result" where
  "udpApp_handleEndTxPeriod env a =
    (if ua_offset a < ua_messageLength a then udpApp_sendPacket env a else Inr ([], a\<lparr>ua_offset := 0\<rparr>))"

section \<open>Receiving\<close>

definition udp_app_stage :: "packet \<Rightarrow> simtime \<Rightarrow> port_key frag_bufs \<Rightarrow> (packet option \<times> port_key frag_bufs) res" where
  "udp_app_stage p now bufs =
    bindE (bindE (peekAtFront as_app p) (\<lambda>h. Inr (ah_fragmentOffset h \<noteq> 0 \<or> ah_moreFragments h))) (\<lambda>fragment.
      if fragment then udpApp_addFragment p now bufs else Inr (Some p, bufs))"

text \<open>With \<open>isGlobalArp\<close> the first packet is counted and not looked at.\<close>

definition udpApp_processPacket :: "simtime \<Rightarrow> packet \<Rightarrow> udp_app \<Rightarrow> udp_app_result" where
  "udpApp_processPacket now p a =
    (if ua_numReceived a = 0 \<and> ua_isGlobalArp a then Inr ([], a\<lparr>ua_numReceived := ua_numReceived a + 1\<rparr>)
     else
       bindE (udp_app_stage p now (ua_fragbuf a)) (\<lambda>(complete, bufs).
       let a = a\<lparr>ua_fragbuf := bufs\<rparr> in
       (case complete of
          None \<Rightarrow> Inr ([], a)
        | Some p \<Rightarrow>
            Inr ([MsgReceived p], a\<lparr>ua_numReceived := ua_numReceived a + 1,
              ua_latencyPackets := ua_latencyPackets a @ [now - pk_creation p]\<rparr>))))"

text \<open>\<open>socketDataArrived\<close>, \<open>socketErrorArrived\<close> and \<open>socketClosed\<close>.\<close>

fun udpApp_callback :: "udp_app_env \<Rightarrow> sock_callback \<Rightarrow> udp_app \<Rightarrow> udp_app_result" where
  "udpApp_callback env (DataArrived p) a = udpApp_processPacket (va_now env) p a"
| "udpApp_callback env ErrorArrived a = Inr ([], a)"
| "udpApp_callback env ClosedArrived a = Inr (if va_stopping env then [ExtraTimeOrFinish] else [], a)"

section \<open>Dispatch and lifecycle\<close>

datatype udp_app_message = EndTransmission | SelfMsg | FromSocket "int option" udp_indication

text \<open>\<open>handleMessageWhenUp\<close>; a timer that arrives is not scheduled any more.\<close>

definition udpApp_handleMessage :: "udp_app_env \<Rightarrow> udp_app_message \<Rightarrow> udp_app \<Rightarrow> udp_app_result" where
  "udpApp_handleMessage env m a =
    (case m of
       EndTransmission \<Rightarrow> udpApp_handleEndTxPeriod env a
     | SelfMsg \<Rightarrow>
         (let a = a\<lparr>ua_timer := None\<rparr> in
          case ua_selfMsg a of
            START \<Rightarrow> udpApp_processStart env a
          | SEND \<Rightarrow> udpApp_processSend env a
          | STOP \<Rightarrow> udpApp_processStop a
          | KIND_NONE \<Rightarrow> Inl (RuntimeError ''Invalid kind in self message''))
     | FromSocket ind msg \<Rightarrow>
         bindE (sock_processMessage ind msg (ua_socket a)) (\<lambda>(calls, so).
         let a = a\<lparr>ua_socket := so\<rparr> in
         (case calls of [] \<Rightarrow> Inr ([], a) | call # _ \<Rightarrow> udpApp_callback env call a)))"

definition udpApp_handleStartOperation :: "simtime \<Rightarrow> udp_app \<Rightarrow> udp_app res" where
  "udpApp_handleStartOperation now a =
    (let start = max (ua_startTime a) now in
     if ua_stopTime a < 0 \<or> start < ua_stopTime a \<or> (start = ua_stopTime a \<and> ua_startTime a = ua_stopTime a)
     then udpApp_schedule now start (a\<lparr>ua_selfMsg := START\<rparr>)
     else Inr a)"

definition udpApp_handleStopOperation :: "udp_app \<Rightarrow> udp_app_result" where
  "udpApp_handleStopOperation a = on_socket sock_close (a\<lparr>ua_timer := None\<rparr>)"

definition udpApp_handleCrashOperation :: "udp_app \<Rightarrow> udp_app_result" where
  "udpApp_handleCrashOperation a = on_socket sock_destroy (a\<lparr>ua_timer := None\<rparr>)"

text \<open>\<open>finish\<close>, which leaves out one message sent and one received with \<open>isGlobalArp\<close>; the loop is that of \<open>RdmaBasicApp\<close>.\<close>

definition udpApp_finish :: "(simtime \<Rightarrow> bool) \<Rightarrow> udp_app \<Rightarrow> (int \<times> int \<times> simtime \<times> nat) res" where
  "udpApp_finish accept a =
    (let a = (if ua_isGlobalArp a then a\<lparr>ua_numSent := ua_numSent a - 1, ua_numReceived := ua_numReceived a - 1\<rparr> else a)
     in bindE (finish_loop accept (ua_latencyPackets a) 0 (nat (ua_numReceived a)) (0, 0)) (\<lambda>(latency, valid).
       Inr (ua_numSent a, ua_numReceived a, latency, valid)))"

section \<open>Requests change nothing but the socket\<close>

fun is_request :: "udp_app_output \<Rightarrow> bool" where
  "is_request (ToUdp (UdpRequest c)) \<longleftrightarrow> True"
| "is_request _ \<longleftrightarrow> False"

text \<open>\<open>quiet a r\<close>: the result \<open>r\<close> differs from \<open>a\<close> in the socket alone, which keeps its id, and its outputs are requests.\<close>

definition quiet :: "udp_app \<Rightarrow> udp_app_result \<Rightarrow> bool" where
  "quiet a r \<longleftrightarrow> (\<forall>out b. r = Inr (out, b) \<longrightarrow>
     (\<exists>so. b = a\<lparr>ua_socket := so\<rparr> \<and> so_socketId so = so_socketId (ua_socket a)) \<and> list_all is_request out)"

text \<open>An operation of the socket that sends requests only.\<close>

locale request_op =
  fixes op :: "udp_socket \<Rightarrow> sock_result"
  assumes keeps: "op so = Inr (out, so') \<Longrightarrow> so_socketId so' = so_socketId so \<and> so_callback so' = so_callback so \<and> so_gateToUdp so' = so_gateToUdp so"
    and requests: "op so = Inr (out, so') \<Longrightarrow> \<forall>m \<in> set out. \<exists>c. m = UdpRequest c"
begin

lemma quiet_on_socket: "quiet a (on_socket op a)"
  unfolding quiet_def
proof (intro allI impI)
  fix out b assume "on_socket op a = Inr (out, b)"
  then obtain ms so where o: "op (ua_socket a) = Inr (ms, so)" "out = map ToUdp ms" "b = a\<lparr>ua_socket := so\<rparr>"
    by (auto simp: on_socket_def bindE_eq_Inr)
  have "list_all is_request out" using requests[OF o(1)] unfolding o(2) by (auto simp: list_all_iff)
  moreover have "b = a\<lparr>ua_socket := so\<rparr> \<and> so_socketId so = so_socketId (ua_socket a)" using o(3) keeps[OF o(1)] by simp
  ultimately show "(\<exists>so. b = a\<lparr>ua_socket := so\<rparr> \<and> so_socketId so = so_socketId (ua_socket a)) \<and> list_all is_request out" by (intro conjI exI[of _ so]) simp_all
qed

end

lemma sendToUDP_Inr: "sendToUDP msg so = Inr out \<longleftrightarrow> so_gateToUdp so \<and> out = [msg (so_socketId so)]"
  by (auto simp: sendToUDP_def)

interpretation option_op: request_op "sock_option opt" for opt
  by unfold_locales (auto simp: sock_option_def sendToUDP_Inr bindE_eq_Inr)

interpretation bind_op: request_op "sock_bind addr port" for addr port
  by unfold_locales (auto simp: sock_bind_def sendToUDP_Inr bindE_eq_Inr split: if_splits)

interpretation close_op: request_op sock_close
  by unfold_locales (auto simp: sock_close_def sendToUDP_Inr bindE_eq_Inr split: if_splits)

interpretation destroy_op: request_op sock_destroy
  by unfold_locales (auto simp: sock_destroy_def sendToUDP_Inr bindE_eq_Inr split: if_splits)

interpretation join_op: request_op "sock_joinLocalMulticastGroups mgl" for mgl
  by unfold_locales (auto simp: sock_joinLocalMulticastGroups_def sock_option_def sendToUDP_Inr bindE_eq_Inr split: if_splits)

lemma then_do_Inr: "then_do r f = Inr (out, b) \<longleftrightarrow> (\<exists>o1 a o2. r = Inr (o1, a) \<and> f a = Inr (o2, b) \<and> out = o1 @ o2)"
  by (auto simp: then_do_def bindE_eq_Inr)

lemma quiet_then:
  assumes "quiet a r" "\<And>b. quiet b (f b)"
  shows "quiet a (then_do r f)"
  unfolding quiet_def
proof (intro allI impI)
  fix out b assume "then_do r f = Inr (out, b)"
  then obtain o1 c o2 where t: "r = Inr (o1, c)" "f c = Inr (o2, b)" "out = o1 @ o2" unfolding then_do_Inr by blast
  obtain so where c: "c = a\<lparr>ua_socket := so\<rparr>" "so_socketId so = so_socketId (ua_socket a)" "list_all is_request o1"
    using assms(1) t(1) unfolding quiet_def by blast
  obtain so' where b: "b = c\<lparr>ua_socket := so'\<rparr>" "so_socketId so' = so_socketId (ua_socket c)" "list_all is_request o2"
    using assms(2)[of c] t(2) unfolding quiet_def by blast
  show "(\<exists>so. b = a\<lparr>ua_socket := so\<rparr> \<and> so_socketId so = so_socketId (ua_socket a)) \<and> list_all is_request out"
    using b c t(3) by (intro conjI exI[of _ so']) simp_all
qed

lemma quiet_Inr:
  assumes "so_socketId so = so_socketId (ua_socket a)" "list_all is_request out"
  shows "quiet a (Inr (out, a\<lparr>ua_socket := so\<rparr>))"
  unfolding quiet_def
proof (intro allI impI)
  fix out' b assume "Inr (out, a\<lparr>ua_socket := so\<rparr>) = (Inr (out', b) :: udp_app_result)"
  then show "(\<exists>so. b = a\<lparr>ua_socket := so\<rparr> \<and> so_socketId so = so_socketId (ua_socket a)) \<and> list_all is_request out'"
    using assms by (intro conjI exI[of _ so]) simp_all
qed

lemma quiet_Inl: "quiet a (Inl e)"
  unfolding quiet_def by (metis Inl_Inr_False)

lemma quiet_same: "quiet a (Inr ([], a))"
  using quiet_Inr[of "ua_socket a" a "[]"] by simp

lemma quiet_setCallback: "quiet a (Inr ([], a\<lparr>ua_socket := setCallback (ua_socket a)\<rparr>))"
  by (rule quiet_Inr) (simp_all add: setCallback_def)

lemmas quiet_Nil = quiet_Inl quiet_same quiet_setCallback

lemma quiet_if: "quiet a r \<Longrightarrow> quiet a r' \<Longrightarrow> quiet a (if c then r else r')"
  by simp

lemmas quiet_socket = option_op.quiet_on_socket bind_op.quiet_on_socket close_op.quiet_on_socket
  destroy_op.quiet_on_socket join_op.quiet_on_socket

lemma quiet_setSocketOptions: "quiet a (udpApp_setSocketOptions env a)"
  unfolding udpApp_setSocketOptions_def sock_setTimeToLive_def sock_setDscp_def sock_setTos_def
    sock_setMulticastOutputInterface_def sock_setBroadcast_def
  by (intro quiet_then quiet_if quiet_socket quiet_Nil) (auto split: option.split intro: quiet_Nil quiet_socket)

section \<open>What a message is sent as\<close>

text \<open>A datagram that the application may hand to UDP: not empty and at most \<open>F\<close> bytes.\<close>

fun output_ok :: "int \<Rightarrow> udp_app_output \<Rightarrow> bool" where
  "output_ok F (ToUdp (UdpData p)) \<longleftrightarrow> packet_ok p \<and> pk_front p = 0 \<and> pk_back p = 0 \<and> 0 < dataLength p \<and> int (dataLength p) \<le> F"
| "output_ok F _ \<longleftrightarrow> True"

text \<open>The packet that \<open>sendTo\<close> hands to the UDP module.\<close>

definition sock_packet :: "l3_address \<Rightarrow> int \<Rightarrow> int \<Rightarrow> packet \<Rightarrow> packet" where
  "sock_packet dest destPort i p = p\<lparr>pk_kind := UDP_C_DATA, pk_tags := (pk_tags p)\<lparr>t_dispatchReq := Some P_udp, t_socketReq := Some i,
     t_l3AddressReq := Some (case t_l3AddressReq (pk_tags p) of Some r \<Rightarrow> r\<lparr>lr_dest := dest\<rparr>
       | None \<Rightarrow> \<lparr>lr_src = L3None, lr_dest = dest, lr_nonLocalSrc = False\<rparr>),
     t_l4PortReq := (if destPort \<noteq> -1 then Some (case t_l4PortReq (pk_tags p) of Some (s, _) \<Rightarrow> s | None \<Rightarrow> -1, destPort)
       else t_l4PortReq (pk_tags p))\<rparr>\<rparr>"

lemma sock_sendTo_eq:
  "sock_sendTo p dest destPort so = (if so_gateToUdp so then Inr ([UdpData (sock_packet dest destPort (so_socketId so) p)], so\<lparr>so_state := CONNECTED\<rparr>)
     else Inl (RuntimeError ''UdpSocket: setOutputGate() must be invoked before socket can be used''))"
  by (simp add: sock_sendTo_def sendToUDP_def data_msg_def sock_packet_def Let_def)

definition app_packet :: "string \<Rightarrow> simtime \<Rightarrow> bool \<Rightarrow> app_header \<Rightarrow> packet" where
  "app_packet name now df h = (new_packet name now)\<lparr>pk_content := header_cells (AppH h),
     pk_tags := (if df then no_tags\<lparr>t_fragmentationReq := Some True\<rparr> else no_tags)\<rparr>"

lemma app_packet_simps [simp]:
  "pk_tags (app_packet name now df h) = (if df then no_tags\<lparr>t_fragmentationReq := Some True\<rparr> else no_tags)"
  "pk_creation (app_packet name now df h) = now" "pk_name (app_packet name now df h) = name"
  "pk_data (app_packet name now df h) = header_cells (AppH h)" "packet_ok (app_packet name now df h)"
  "pk_front (app_packet name now df h) = 0" "pk_back (app_packet name now df h) = 0"
  by (simp_all add: app_packet_def new_packet_def pk_data_alt packet_ok_def)

lemma dataLength_app_packet: "dataLength (app_packet name now df h) = ah_chunkLength h"
  by (simp add: dataLength_def totalLength_def app_packet_def new_packet_def)

lemma sock_packet_simps [simp]:
  "pk_data (sock_packet d dp i p) = pk_data p" "packet_ok (sock_packet d dp i p) = packet_ok p" "pk_front (sock_packet d dp i p) = pk_front p"
  "pk_back (sock_packet d dp i p) = pk_back p" "pk_creation (sock_packet d dp i p) = pk_creation p"
  "dataLength (sock_packet d dp i p) = dataLength p" "pk_name (sock_packet d dp i p) = pk_name p" "pk_kind (sock_packet d dp i p) = UDP_C_DATA"
  by (simp_all add: sock_packet_def)

lemma insert_header_new:
  "0 < ah_chunkLength h \<Longrightarrow> insertAtFront (header_cells (AppH h)) ((new_packet name now)\<lparr>pk_tags := t\<rparr>)
     = Inr ((new_packet name now)\<lparr>pk_content := header_cells (AppH h), pk_tags := t\<rparr>)"
  by (auto simp: insertAtFront_def insertAt_def new_packet_def totalLength_def backOffset_def header_cells_def)

text \<open>Fragment \<open>j\<close> of a message of \<open>N\<close> bytes with the header \<open>payload\<close>, cut every \<open>F\<close> bytes.\<close>

definition app_fragment_header :: "app_header \<Rightarrow> int \<Rightarrow> nat \<Rightarrow> nat \<Rightarrow> nat \<Rightarrow> app_header" where
  "app_fragment_header payload i F N j = (app_dup payload)\<lparr>ah_chunkLength := min F (N - F * j), ah_fragmentOffset := of_nat (F * j),
     ah_totalLength := int (min F (N - F * j)), ah_id := Some i, ah_moreFragments := (F * Suc j < N)\<rparr>"

lemma app_dup_new [simp]: "ah_moreFragments (app_dup h) = False" "ah_fragmentOffset (app_dup h) = 0"
  by (simp_all add: app_dup_def new_app_header_def)

lemma udpApp_fragment_eq:
  assumes "0 < F" "ua_fragmentSize a = int F" "ua_messageLength a = int N" "ua_offset a = int (F * j)" "F * j < N"
    and "ah_fragmentOffset payload = 0" "pk_tags p = (if df then no_tags\<lparr>t_fragmentationReq := Some True\<rparr> else no_tags)"
  shows "udpApp_thisFragmentLength a = int (min F (N - F * j))"
    and "udpApp_fragment now p payload a = Inr (app_packet (ua_fragMsgName a @ string_of_nat (F * j)) now df
       (app_fragment_header payload (ua_id a) F N j))"
proof -
  have last: "ua_offset a + ua_fragmentSize a \<ge> ua_messageLength a \<longleftrightarrow> \<not> F * Suc j < N"
    unfolding assms(2-4) by (simp add: of_nat_add[symmetric] del: of_nat_add of_nat_mult) (simp add: add.commute not_less)
  have len: "udpApp_thisFragmentLength a = int (min F (N - F * j))"
  proof (cases "F * Suc j < N")
    case True
    then have "F \<le> N - F * j" by simp
    then show ?thesis using True last by (simp add: udpApp_thisFragmentLength_def assms(2) min_absorb1)
  next
    case False
    then have "N - F * j \<le> F" by simp
    then show ?thesis using False last assms(5) by (simp add: udpApp_thisFragmentLength_def assms(3,4) min_absorb2 of_nat_diff)
  qed
  have w: "(of_int (uint (ah_fragmentOffset payload) + ua_offset a) :: 32 word) = of_nat (F * j)" by (simp add: assms(4,6))
  let ?h = "app_fragment_header payload (ua_id a) F N j"
  have h: "(if ua_offset a + ua_fragmentSize a \<ge> ua_messageLength a
      then (app_dup payload)\<lparr>ah_chunkLength := nat (udpApp_thisFragmentLength a), ah_fragmentOffset := of_int (uint (ah_fragmentOffset payload) + ua_offset a),
        ah_totalLength := udpApp_thisFragmentLength a, ah_id := Some (ua_id a)\<rparr>
      else (app_dup payload)\<lparr>ah_chunkLength := nat (udpApp_thisFragmentLength a), ah_fragmentOffset := of_int (uint (ah_fragmentOffset payload) + ua_offset a),
        ah_totalLength := udpApp_thisFragmentLength a, ah_id := Some (ua_id a)\<rparr>\<lparr>ah_moreFragments := True\<rparr>) = ?h"
    unfolding len w last nat_int app_fragment_header_def by (auto simp: app_dup_def new_app_header_def)
  have "0 < ah_chunkLength ?h" using assms(1,5) by (simp add: app_fragment_header_def)
  note ins = insert_header_new[OF this]
  show "udpApp_fragment now p payload a = Inr (app_packet (ua_fragMsgName a @ string_of_nat (F * j)) now df ?h)"
    unfolding udpApp_fragment_def Let_def h ins app_packet_def assms(7) by (simp add: assms(4) del: of_nat_mult)
  show "udpApp_thisFragmentLength a = int (min F (N - F * j))" by (rule len)
qed

text \<open>The message that carries fragment \<open>j\<close> to UDP; it depends on fields of the state that the loop does not change.\<close>

definition fragment_msg :: "simtime \<Rightarrow> bool \<Rightarrow> app_header \<Rightarrow> udp_app \<Rightarrow> nat \<Rightarrow> nat \<Rightarrow> nat \<Rightarrow> udp_app_output" where
  "fragment_msg now df payload a F N j = ToUdp (UdpData (sock_packet (ua_destAddr a) (ua_destPort a) (so_socketId (ua_socket a))
     (app_packet (ua_fragMsgName a @ string_of_nat (F * j)) now df (app_fragment_header payload (ua_id a) F N j))))"

lemma fragment_msg_same:
  "so_socketId so = so_socketId (ua_socket a) \<Longrightarrow> fragment_msg now df payload (a\<lparr>ua_socket := so, ua_offset := k\<rparr>) = fragment_msg now df payload a"
  by (simp add: fragment_msg_def fun_eq_iff)

lemma fragment_msg_ok: "0 < F \<Longrightarrow> F * j < N \<Longrightarrow> output_ok (int F) (fragment_msg now df payload a F N j)"
  by (simp add: fragment_msg_def dataLength_app_packet app_fragment_header_def)

definition sent_state :: "udp_app \<Rightarrow> nat \<Rightarrow> udp_app" where
  "sent_state a N = a\<lparr>ua_socket := (ua_socket a)\<lparr>so_state := CONNECTED\<rparr>, ua_offset := int N\<rparr>"

lemma udpApp_fragment_loop_eq:
  assumes "0 < F" "ua_fragmentSize a = int F" "ua_messageLength a = int N" "ua_offset a = int (F * j)" "F * j < N"
    and "ah_fragmentOffset payload = 0" "pk_tags p = (if df then no_tags\<lparr>t_fragmentationReq := Some True\<rparr> else no_tags)"
    and "so_gateToUdp (ua_socket a)"
  shows "udpApp_fragment_loop now p payload a
    = Inr (map (fragment_msg now df payload a F N) [j..<frag_count F N], sent_state a N)"
  using assms
proof (induction "N - F * j" arbitrary: j a rule: less_induct)
  case less
  let ?so = "(ua_socket a)\<lparr>so_state := CONNECTED\<rparr>"
  let ?b = "a\<lparr>ua_socket := ?so, ua_offset := ua_offset a + udpApp_thisFragmentLength a\<rparr>"
  have j: "j < frag_count F N" using frag_count_less[OF less.prems(1)] less.prems(5) by simp
  note frag = udpApp_fragment_eq[OF less.prems(1-7)]
  have send: "on_socket (sock_sendTo (app_packet (ua_fragMsgName a @ string_of_nat (F * j)) now df (app_fragment_header payload (ua_id a) F N j))
      (ua_destAddr a) (ua_destPort a)) a = Inr ([fragment_msg now df payload a F N j], a\<lparr>ua_socket := ?so\<rparr>)"
    using less.prems(8) by (simp add: on_socket_def sock_sendTo_eq fragment_msg_def)
  have more: "ua_offset a < ua_messageLength a" using less.prems(3-5) by (metis of_nat_less_iff)
  have step: "udpApp_fragment_loop now p payload a
      = bindE (udpApp_fragment_loop now p payload ?b) (\<lambda>(out', b). Inr (fragment_msg now df payload a F N j # out', b))"
    unfolding udpApp_fragment_loop.simps[of now p payload a] frag(2) using more send by simp
  have same: "fragment_msg now df payload ?b = fragment_msg now df payload a" by (rule fragment_msg_same) simp
  show ?case
  proof (cases "F * Suc j < N")
    case True
    then have off: "ua_offset ?b = int (F * Suc j)" unfolding frag(1) using less.prems(4) by (simp add: min_absorb1)
    have "N - F * Suc j < N - F * j" using less.prems(1,5) by simp
    from less.hyps[OF this less.prems(1) _ _ off True less.prems(6,7)] less.prems(2,3,8)
    have "udpApp_fragment_loop now p payload ?b
        = Inr (map (fragment_msg now df payload a F N) [Suc j..<frag_count F N], sent_state ?b N)" by (simp add: same)
    then show ?thesis unfolding step using j by (simp add: sent_state_def upt_conv_Cons)
  next
    case False
    then have len: "ua_offset ?b = int N" unfolding frag(1) using less.prems(4,5) by (simp add: min_absorb2 of_nat_diff)
    have fc: "frag_count F N = Suc j" using frag_count_less[OF less.prems(1), of "Suc j" N] False j by simp
    have "udpApp_fragment_loop now p payload ?b = Inr ([], ?b)"
      using len less.prems(3) by (simp add: udpApp_fragment_loop.simps)
    then show ?thesis unfolding step using len by (simp add: sent_state_def fc)
  qed
qed

text \<open>The next message: its length, its header and its packet, and the state in which it is sent.\<close>

definition next_length :: "udp_app_env \<Rightarrow> udp_app \<Rightarrow> int" where
  "next_length env a = (if ua_numSent a = 0 \<and> ua_isGlobalArp a then va_firstPacket env else va_messageLength env)"

definition next_id :: "udp_app_env \<Rightarrow> udp_app \<Rightarrow> int" where
  "next_id env a = va_parentId env * 10 + ua_numSent a"

definition next_name :: "udp_app_env \<Rightarrow> udp_app \<Rightarrow> string" where
  "next_name env a = ua_packetName a @ ''_'' @ va_parentName env @ ''-'' @ string_of_nat (nat (ua_numSent a))"

definition next_payload :: "udp_app_env \<Rightarrow> udp_app \<Rightarrow> app_header" where
  "next_payload env a = udpApp_payload (next_length env a) (ua_numSent a) (next_id env a)"

definition next_packet :: "udp_app_env \<Rightarrow> udp_app \<Rightarrow> packet" where
  "next_packet env a = app_packet (next_name env a) (va_now env) (ua_dontFragment a) (next_payload env a)"

definition next_state :: "udp_app_env \<Rightarrow> udp_app \<Rightarrow> udp_app" where
  "next_state env a = a\<lparr>ua_messageLength := next_length env a, ua_id := next_id env a\<rparr>"

definition frag_state :: "udp_app_env \<Rightarrow> udp_app \<Rightarrow> udp_app" where
  "frag_state env a = (next_state env a)\<lparr>ua_fragMsgName := next_name env a @ ''-frag-''\<rparr>"

lemmas next_defs = next_length_def next_id_def next_name_def next_payload_def next_packet_def next_state_def frag_state_def

lemma next_payload_simps [simp]:
  "ah_chunkLength (next_payload env a) = nat (next_length env a)" "ah_fragmentOffset (next_payload env a) = 0"
  "ah_moreFragments (next_payload env a) = False"
  by (simp_all add: next_payload_def udpApp_payload_def new_app_header_def)

lemma next_packet_inserted:
  "insertAtFront (header_cells (AppH (udpApp_payload (next_length env a) (ua_numSent a) (next_id env a))))
     (let p = new_packet (next_name env a) (va_now env)
      in if ua_dontFragment a then p\<lparr>pk_tags := (pk_tags p)\<lparr>t_fragmentationReq := Some True\<rparr>\<rparr> else p)
   = (if 0 < next_length env a then Inr (next_packet env a) else Inl (CheckFailed ''chunk is empty''))"
proof (cases "0 < next_length env a")
  case True
  then have h: "0 < ah_chunkLength (next_payload env a)" by simp
  have "(let p = new_packet (next_name env a) (va_now env)
      in if ua_dontFragment a then p\<lparr>pk_tags := (pk_tags p)\<lparr>t_fragmentationReq := Some True\<rparr>\<rparr> else p)
    = (new_packet (next_name env a) (va_now env))\<lparr>pk_tags := (if ua_dontFragment a then no_tags\<lparr>t_fragmentationReq := Some True\<rparr> else no_tags)\<rparr>"
    by (simp add: new_packet_def Let_def)
  then show ?thesis using insert_header_new[OF h] True
    by (simp add: next_packet_def app_packet_def flip: next_payload_def)
next
  case False
  then have "header_cells (AppH (udpApp_payload (next_length env a) (ua_numSent a) (next_id env a))) = []"
    by (simp add: udpApp_payload_def new_app_header_def header_cells_def)
  then show ?thesis using False by (simp add: insertAtFront_def insertAt_def)
qed

definition send_whole :: "udp_app_env \<Rightarrow> udp_app \<Rightarrow> udp_app_output" where
  "send_whole env a = ToUdp (UdpData (sock_packet (ua_destAddr a) (ua_destPort a) (so_socketId (ua_socket a)) (next_packet env a)))"

lemma udpApp_sendPacket_eq:
  "udpApp_sendPacket env a =
    (if \<not> ua_packetsToSend a > ua_numSent a then Inr ([], a)
     else if \<not> 0 < next_length env a then Inl (CheckFailed ''chunk is empty'')
     else if next_length env a \<le> ua_fragmentSize a then
       bindE (on_socket (sock_sendTo (next_packet env a) (ua_destAddr a) (ua_destPort a)) (next_state env a)) (\<lambda>(out, b).
         Inr ([MsgSent (next_packet env a), MsgSent (next_packet env a)] @ out, b\<lparr>ua_numSent := ua_numSent a + 1\<rparr>))
     else if ua_channel a then Inl (CheckFailed ''chunk is immutable'')
     else bindE (udpApp_fragment_loop (va_now env) (next_packet env a) (next_payload env a) (frag_state env a)) (\<lambda>(out, b).
       Inr (MsgSent (next_packet env a) # out, b\<lparr>ua_numSent := ua_numSent b + 1, ua_offset := 0\<rparr>)))"
proof -
  define L I M where "L = next_length env a" and "I = next_id env a" and "M = next_name env a"
  have ins: "insertAtFront (header_cells (AppH (udpApp_payload L (ua_numSent a) I)))
      (if ua_dontFragment a then (new_packet M (va_now env))\<lparr>pk_tags := (pk_tags (new_packet M (va_now env)))\<lparr>t_fragmentationReq := Some True\<rparr>\<rparr> else new_packet M (va_now env))
    = (if 0 < L then Inr (next_packet env a) else Inl (CheckFailed ''chunk is empty''))"
    using next_packet_inserted[of env a] unfolding L_def I_def M_def Let_def .
  have len: "(if ua_numSent a = 0 \<and> ua_isGlobalArp a then va_firstPacket env else va_messageLength env) = L" by (simp add: L_def next_length_def)
  have i: "va_parentId env * 10 + ua_numSent a = I" by (simp add: I_def next_id_def)
  have m: "ua_packetName a @ ''_'' @ va_parentName env @ ''-'' @ string_of_nat (nat (ua_numSent a)) = M" by (simp only: M_def next_name_def)
  have st: "next_state env a = a\<lparr>ua_messageLength := L, ua_id := I\<rparr>" "frag_state env a = a\<lparr>ua_messageLength := L, ua_id := I, ua_fragMsgName := M @ ''-frag-''\<rparr>"
    "next_payload env a = udpApp_payload L (ua_numSent a) I" by (simp_all add: next_state_def frag_state_def next_payload_def L_def I_def M_def)
  show ?thesis
    unfolding udpApp_sendPacket_def Let_def len i m st L_def[symmetric]
    by (cases "ua_packetsToSend a > ua_numSent a"; cases "0 < L"; cases "L \<le> ua_fragmentSize a"; cases "ua_channel a")
       (simp_all add: ins on_socket_def bindE_def split: sum.split)
qed

end
