(* ===== verification/Udp_App_Runs.thy ===== *)
theory Udp_App_Runs
  imports Udp_App
begin

text \<open>
  Runs of the UDP application (\<open>MyUdpBasicApp\<close>): any sequence of the messages and lifecycle
  operations that its handlers finish without an error, each with its own environment. What
  is sent and counted along a run is bounded by the parameters of the module.
\<close>

section \<open>Events and runs\<close>

datatype udp_app_event = MessageArrives udp_app_message | StartOperation | StopOperation | CrashOperation

definition udpApp_handle :: "udp_app_env \<Rightarrow> udp_app_event \<Rightarrow> udp_app \<Rightarrow> udp_app_result" where
  "udpApp_handle env ev a =
    (case ev of
       MessageArrives m \<Rightarrow> udpApp_handleMessage env m a
     | StartOperation \<Rightarrow> bindE (udpApp_handleStartOperation (va_now env) a) (\<lambda>a. Inr ([], a))
     | StopOperation \<Rightarrow> udpApp_handleStopOperation a
     | CrashOperation \<Rightarrow> udpApp_handleCrashOperation a)"

inductive udp_app_run :: "udp_app \<Rightarrow> udp_app_output list \<Rightarrow> udp_app \<Rightarrow> bool" for a0 where
  run_start: "udp_app_run a0 [] a0"
| run_event: "udp_app_run a0 outs a \<Longrightarrow> udpApp_handle env ev a = Inr (out, b) \<Longrightarrow> udp_app_run a0 (outs @ out) b"

section \<open>What a handler may do\<close>

fun is_sent :: "udp_app_output \<Rightarrow> bool" where
  "is_sent (MsgSent p) \<longleftrightarrow> True"
| "is_sent _ \<longleftrightarrow> False"

fun is_received :: "udp_app_output \<Rightarrow> bool" where
  "is_received (MsgReceived p) \<longleftrightarrow> True"
| "is_received _ \<longleftrightarrow> False"

abbreviation sent_signals :: "udp_app_output list \<Rightarrow> int" where
  "sent_signals out \<equiv> int (length (filter is_sent out))"

abbreviation received_signals :: "udp_app_output list \<Rightarrow> int" where
  "received_signals out \<equiv> int (length (filter is_received out))"

definition app_set_up :: "udp_app \<Rightarrow> bool" where
  "app_set_up a \<longleftrightarrow> 0 < ua_fragmentSize a \<and> ua_offset a = 0 \<and> 0 \<le> ua_numReceived a"

definition same_params :: "udp_app \<Rightarrow> udp_app \<Rightarrow> bool" where
  "same_params a b \<longleftrightarrow> ua_fragmentSize b = ua_fragmentSize a \<and> ua_packetsToSend b = ua_packetsToSend a \<and>
     ua_isGlobalArp b = ua_isGlobalArp a \<and> ua_offset b = ua_offset a"

definition sent_counted :: "udp_app \<Rightarrow> udp_app_output list \<Rightarrow> udp_app \<Rightarrow> bool" where
  "sent_counted a out b \<longleftrightarrow> ua_numSent a \<le> ua_numSent b \<and> ua_numSent b \<le> max (ua_numSent a) (ua_packetsToSend a) \<and>
     ua_numSent b - ua_numSent a \<le> sent_signals out \<and> sent_signals out \<le> 2 * (ua_numSent b - ua_numSent a)"

definition received_counted :: "udp_app \<Rightarrow> udp_app_output list \<Rightarrow> udp_app \<Rightarrow> bool" where
  "received_counted a out b \<longleftrightarrow> int (length (ua_latencyPackets b)) = int (length (ua_latencyPackets a)) + received_signals out \<and>
     ua_numReceived b = ua_numReceived a + received_signals out
       + (if ua_isGlobalArp a \<and> ua_numReceived a = 0 \<and> 0 < ua_numReceived b then 1 else 0)"

definition accounted :: "udp_app \<Rightarrow> udp_app_output list \<Rightarrow> udp_app \<Rightarrow> bool" where
  "accounted a out b \<longleftrightarrow> same_params a b \<and> sent_counted a out b \<and> received_counted a out b \<and> list_all (output_ok (ua_fragmentSize a)) out"

lemmas accounted_defs = accounted_def same_params_def sent_counted_def received_counted_def

lemma accounted_set_up: "app_set_up a \<Longrightarrow> accounted a out b \<Longrightarrow> app_set_up b"
  by (auto simp: app_set_up_def accounted_defs split: if_splits)

lemma accounted_trans:
  assumes "app_set_up a" "accounted a o1 b" "accounted b o2 c"
  shows "accounted a (o1 @ o2) c"
proof -
  have "same_params a c" using assms(2,3) by (simp add: accounted_def same_params_def)
  moreover have "sent_counted a (o1 @ o2) c" using assms(2,3) by (auto simp: accounted_def same_params_def sent_counted_def max_def split: if_splits)
  moreover have "received_counted a (o1 @ o2) c"
    using assms by (auto simp: accounted_def same_params_def received_counted_def app_set_up_def split: if_splits)
  ultimately show ?thesis using assms(2,3) by (simp add: accounted_def same_params_def)
qed

lemma accounted_refl: "accounted a [] a"
  by (simp add: accounted_defs)

text \<open>Nothing that is counted changes, and nothing is sent.\<close>

lemma accounted_frame:
  "same_params a b \<Longrightarrow> ua_numSent b = ua_numSent a \<Longrightarrow> ua_numReceived b = ua_numReceived a \<Longrightarrow>
    ua_latencyPackets b = ua_latencyPackets a \<Longrightarrow> list_all is_request out \<Longrightarrow> accounted a out b"
proof -
  assume a: "same_params a b" "ua_numSent b = ua_numSent a" "ua_numReceived b = ua_numReceived a" "ua_latencyPackets b = ua_latencyPackets a" "list_all is_request out"
  have "\<not> is_sent x \<and> \<not> is_received x \<and> output_ok F x" if "is_request x" for x F using that by (cases x rule: is_request.cases) auto
  then have "filter is_sent out = []" "filter is_received out = []" "list_all (output_ok (ua_fragmentSize a)) out"
    using a(5) by (auto simp: filter_empty_conv list_all_iff)
  then show ?thesis using a(1-4) by (simp add: accounted_def sent_counted_def received_counted_def)
qed

lemma accounted_quiet:
  assumes "quiet a r" "r = Inr (out, b)"
  shows "accounted a out b"
proof -
  obtain so where so: "b = a\<lparr>ua_socket := so\<rparr>" "list_all is_request out" using assms unfolding quiet_def by blast
  show ?thesis by (rule accounted_frame) (simp_all add: so same_params_def)
qed

lemma accounted_then:
  assumes "then_do r f = Inr (out, b)" "app_set_up a"
    and "\<And>o1 c. r = Inr (o1, c) \<Longrightarrow> accounted a o1 c"
    and "\<And>o1 c o2. r = Inr (o1, c) \<Longrightarrow> app_set_up c \<Longrightarrow> f c = Inr (o2, b) \<Longrightarrow> accounted c o2 b"
  shows "accounted a out b"
proof -
  obtain o1 c o2 where t: "r = Inr (o1, c)" "f c = Inr (o2, b)" "out = o1 @ o2" using assms(1) unfolding then_do_Inr by blast
  have 1: "accounted a o1 c" by (rule assms(3)[OF t(1)])
  show ?thesis unfolding t(3) by (rule accounted_trans[OF assms(2) 1 assms(4)[OF t(1) accounted_set_up[OF assms(2) 1] t(2)]])
qed

section \<open>The handlers\<close>

lemma chooseDestAddr_accounted:
  assumes "udpApp_chooseDestAddr env a = Inr (d, b)"
  shows "\<exists>ds. b = a\<lparr>ua_destAddresses := ds\<rparr>"
  using assms by (auto simp: udpApp_chooseDestAddr_def Let_def bindE_eq_Inr split: if_splits)

lemma schedule_accounted:
  assumes "udpApp_schedule now t a = Inr b"
  shows "b = a\<lparr>ua_timer := Some t\<rparr>"
  using assms by (auto simp: udpApp_schedule_def split: if_splits)

lemma fragment_loop_gate:
  assumes "udpApp_fragment_loop now p payload a = Inr r" "ua_offset a < ua_messageLength a"
  shows "so_gateToUdp (ua_socket a)"
  using assms unfolding udpApp_fragment_loop.simps[of now p payload a]
  by (auto simp: on_socket_def sock_sendTo_eq split: sum.splits if_splits)

lemma sendPacket_accounted:
  assumes "app_set_up a" "udpApp_sendPacket env a = Inr (out, b)"
  shows "accounted a out b"
proof (cases "ua_packetsToSend a > ua_numSent a")
  case False
  then show ?thesis using assms(2) by (simp add: udpApp_sendPacket_eq accounted_refl)
next
  case True
  have len: "0 < next_length env a" using assms(2) True by (auto simp: udpApp_sendPacket_eq split: if_splits)
  show ?thesis
  proof (cases "next_length env a \<le> ua_fragmentSize a")
    case le: True
    have "out = [MsgSent (next_packet env a), MsgSent (next_packet env a), send_whole env a]"
      "b = (next_state env a)\<lparr>ua_socket := (ua_socket a)\<lparr>so_state := CONNECTED\<rparr>, ua_numSent := ua_numSent a + 1\<rparr>"
      using assms(2) True le len
      by (auto simp: udpApp_sendPacket_eq on_socket_def sock_sendTo_eq bindE_eq_Inr send_whole_def next_state_def split: if_splits)
    then show ?thesis using le len True
      by (simp add: accounted_defs next_state_def send_whole_def next_packet_def dataLength_app_packet)
  next
    case gt: False
    define F where "F = nat (ua_fragmentSize a)"
    define N where "N = nat (next_length env a)"
    have F: "0 < F" "ua_fragmentSize a = int F" and N: "0 < N" "next_length env a = int N"
      using assms(1) len by (simp_all add: app_set_up_def F_def N_def)
    obtain o1 c where loop: "udpApp_fragment_loop (va_now env) (next_packet env a) (next_payload env a) (frag_state env a) = Inr (o1, c)"
      and out: "out = MsgSent (next_packet env a) # o1" "b = c\<lparr>ua_numSent := ua_numSent c + 1, ua_offset := 0\<rparr>"
      using assms(2) True gt len by (auto simp: udpApp_sendPacket_eq bindE_eq_Inr split: if_splits)
    have fs: "ua_fragmentSize (frag_state env a) = int F" "ua_messageLength (frag_state env a) = int N" "ua_offset (frag_state env a) = int (F * 0)"
      "pk_tags (next_packet env a) = (if ua_dontFragment a then no_tags\<lparr>t_fragmentationReq := Some True\<rparr> else no_tags)"
      using F(2) N(2) assms(1) by (simp_all add: frag_state_def next_state_def app_set_up_def next_packet_def)
    have gate: "so_gateToUdp (ua_socket (frag_state env a))"
      by (rule fragment_loop_gate[OF loop]) (use N(1) fs in simp)
    let ?m = "fragment_msg (va_now env) (ua_dontFragment a) (next_payload env a) (frag_state env a) F N"
    have "o1 = map ?m [0..<frag_count F N]" "c = sent_state (frag_state env a) N"
      using udpApp_fragment_loop_eq[OF F(1) fs(1-3) _ _ fs(4) gate, where payload = "next_payload env a" and now = "va_now env"] N(1) loop by simp_all
    moreover have "list_all (output_ok (int F)) (map ?m [0..<frag_count F N])"
      using fragment_msg_ok[OF F(1)] frag_count_less[OF F(1)] by (auto simp: list_all_iff)
    moreover have "filter is_sent (map ?m [0..<frag_count F N]) = []" "filter is_received (map ?m [0..<frag_count F N]) = []"
      by (simp_all add: filter_empty_conv fragment_msg_def)
    ultimately show ?thesis using True F(2) assms(1)
      by (simp add: out accounted_defs sent_state_def frag_state_def next_state_def app_set_up_def)
  qed
qed

lemma processSend_accounted:
  assumes "app_set_up a" "udpApp_processSend env a = Inr (out, b)"
  shows "accounted a out b"
proof -
  obtain d c e where c: "udpApp_chooseDestAddr env a = Inr (d, c)" "udpApp_sendPacket env (c\<lparr>ua_destAddr := d\<rparr>) = Inr (out, e)"
    and b: "\<exists>k t. b = e\<lparr>ua_selfMsg := k, ua_timer := Some t\<rparr>"
    using assms(2) by (auto simp: udpApp_processSend_def Let_def bindE_eq_Inr dest!: schedule_accounted split: if_splits)
  obtain ds where ds: "c = a\<lparr>ua_destAddresses := ds\<rparr>" using chooseDestAddr_accounted[OF c(1)] by blast
  have 1: "accounted a [] (c\<lparr>ua_destAddr := d\<rparr>)" by (rule accounted_frame) (simp_all add: ds same_params_def)
  have 2: "accounted (c\<lparr>ua_destAddr := d\<rparr>) out e" by (rule sendPacket_accounted[OF accounted_set_up[OF assms(1) 1] c(2)])
  obtain k t where b: "b = e\<lparr>ua_selfMsg := k, ua_timer := Some t\<rparr>" using b by blast
  have 3: "accounted e [] b" by (rule accounted_frame) (simp_all add: b same_params_def)
  note 12 = accounted_trans[OF assms(1) 1 2]
  show ?thesis using accounted_trans[OF assms(1) 12 3] by simp
qed

lemma processStart_accounted:
  assumes "app_set_up a" "udpApp_processStart env a = Inr (out, b)"
  shows "accounted a out b"
proof -
  let ?a = "a\<lparr>ua_socket := setOutputGate (ua_socket a)\<rparr>"
  have 1: "accounted a [] ?a" by (rule accounted_frame) (simp_all add: same_params_def)
  note up = accounted_set_up[OF assms(1) 1]
  define tail where "tail = (\<lambda>a ds. let a = a\<lparr>ua_destAddresses := ds\<rparr> in
       if ds \<noteq> [] then udpApp_processSend env (a\<lparr>ua_selfMsg := SEND\<rparr>)
       else if ua_stopTime a \<ge> 0 then
         bindE (udpApp_schedule (va_now env) (ua_stopTime a) (a\<lparr>ua_selfMsg := STOP\<rparr>)) (\<lambda>a. Inr ([], a))
       else Inr ([], a))"
  define rest where "rest = (\<lambda>a. bindE (udpApp_destinations env (va_destAddresses env) (ua_destAddresses a)) (tail a))"
  have rest: "accounted c o2 b" if r: "rest c = Inr (o2, b)" and up: "app_set_up c" for c o2
  proof -
    obtain ds where ds: "tail c ds = Inr (o2, b)" using r unfolding rest_def bindE_eq_Inr by blast
    have 2: "accounted c [] (c\<lparr>ua_destAddresses := ds, ua_selfMsg := SEND\<rparr>)" by (rule accounted_frame) (simp_all add: same_params_def)
    show ?thesis
    proof (cases "ds = []")
      case True
      then have "o2 = [] \<and> (b = c\<lparr>ua_destAddresses := [], ua_selfMsg := STOP, ua_timer := Some (ua_stopTime c)\<rparr>
          \<or> b = c\<lparr>ua_destAddresses := []\<rparr>)"
        using ds by (auto simp: tail_def Let_def bindE_eq_Inr dest!: schedule_accounted split: if_splits)
      then show ?thesis by (elim conjE disjE) (simp_all add: accounted_frame same_params_def)
    next
      case False
      then have "udpApp_processSend env (c\<lparr>ua_destAddresses := ds, ua_selfMsg := SEND\<rparr>) = Inr (o2, b)" using ds by (simp add: tail_def)
      from accounted_trans[OF up 2 processSend_accounted[OF accounted_set_up[OF up 2] this]] show ?thesis by simp
    qed
  qed
  obtain l where t: "then_do (on_socket (sock_bind l (ua_localPort a)) ?a) (\<lambda>a. then_do (udpApp_setSocketOptions env a) rest) = Inr (out, b)"
    using assms(2) unfolding udpApp_processStart_def Let_def rest_def tail_def by (auto simp: bindE_eq_Inr)
  have "accounted ?a out b"
  proof (rule accounted_then[OF t up])
    show "accounted ?a o1 c" if "on_socket (sock_bind l (ua_localPort a)) ?a = Inr (o1, c)" for o1 c
      by (rule accounted_quiet[OF bind_op.quiet_on_socket that])
    show "accounted c o2 b" if "app_set_up c" "then_do (udpApp_setSocketOptions env c) rest = Inr (o2, b)" for c o2
      by (rule accounted_then[OF that(2,1)]) (use accounted_quiet[OF quiet_setSocketOptions] rest in auto)
  qed
  from accounted_trans[OF assms(1) 1 this] show ?thesis by simp
qed

lemma processPacket_accounted:
  assumes "app_set_up a" "udpApp_processPacket now p a = Inr (out, b)"
  shows "accounted a out b"
proof (cases "ua_numReceived a = 0 \<and> ua_isGlobalArp a")
  case True
  then show ?thesis using assms(2) by (auto simp: udpApp_processPacket_def accounted_defs)
next
  case False
  then obtain cb where cb: "(\<lambda>(complete, bufs). let a = a\<lparr>ua_fragbuf := bufs\<rparr> in (case complete of None \<Rightarrow> Inr ([], a)
        | Some p \<Rightarrow> Inr ([MsgReceived p], a\<lparr>ua_numReceived := ua_numReceived a + 1,
            ua_latencyPackets := ua_latencyPackets a @ [now - pk_creation p]\<rparr>))) cb = (Inr (out, b) :: udp_app_result)"
    using assms(2) unfolding udpApp_processPacket_def if_not_P[OF False] bindE_eq_Inr by blast
  obtain c bufs where "cb = (c, bufs)" by (cases cb)
  note r = cb[unfolded this prod.case Let_def]
  show ?thesis
  proof (cases c)
    case None
    then have "out = []" "b = a\<lparr>ua_fragbuf := bufs\<rparr>" using r by simp_all
    then show ?thesis by (simp add: accounted_frame same_params_def)
  next
    case (Some q)
    then have "out = [MsgReceived q]" "b = a\<lparr>ua_fragbuf := bufs, ua_numReceived := ua_numReceived a + 1,
        ua_latencyPackets := ua_latencyPackets a @ [now - pk_creation q]\<rparr>" using r by simp_all
    then show ?thesis using False by (auto simp: accounted_defs)
  qed
qed

lemma callback_accounted:
  assumes "app_set_up a" "udpApp_callback env call a = Inr (out, b)"
  shows "accounted a out b"
proof (cases call)
  case (DataArrived p)
  then show ?thesis using assms(2) processPacket_accounted[OF assms(1)] by simp
next
  case ErrorArrived
  then show ?thesis using assms(2) by (simp add: accounted_refl)
next
  case ClosedArrived
  then have "out = (if va_stopping env then [ExtraTimeOrFinish] else [])" "b = a" using assms(2) by simp_all
  then show ?thesis by (simp add: accounted_defs)
qed

lemma handleMessage_accounted:
  assumes "app_set_up a" "udpApp_handleMessage env m a = Inr (out, b)"
  shows "accounted a out b"
proof (cases m)
  case EndTransmission
  then show ?thesis using assms sendPacket_accounted[OF assms(1)]
    by (auto simp: udpApp_handleMessage_def udpApp_handleEndTxPeriod_def accounted_frame same_params_def app_set_up_def split: if_splits)
next
  case SelfMsg
  let ?a = "a\<lparr>ua_timer := None\<rparr>"
  have 1: "accounted a [] ?a" by (rule accounted_frame) (simp_all add: same_params_def)
  have "accounted ?a out b"
    using assms(2) SelfMsg processStart_accounted[OF accounted_set_up[OF assms(1) 1]] processSend_accounted[OF accounted_set_up[OF assms(1) 1]]
      accounted_quiet[OF close_op.quiet_on_socket]
    by (auto simp: udpApp_handleMessage_def udpApp_processStop_def Let_def split: self_msg_kind.splits)
  from accounted_trans[OF assms(1) 1 this] show ?thesis by simp
next
  case (FromSocket ind msg)
  obtain calls so where c: "(case calls of [] \<Rightarrow> Inr ([], a\<lparr>ua_socket := so\<rparr>) | call # _ \<Rightarrow> udpApp_callback env call (a\<lparr>ua_socket := so\<rparr>)) = Inr (out, b)"
    using assms(2) FromSocket by (auto simp: udpApp_handleMessage_def Let_def bindE_eq_Inr)
  have 1: "accounted a [] (a\<lparr>ua_socket := so\<rparr>)" by (rule accounted_frame) (simp_all add: same_params_def)
  show ?thesis
  proof (cases calls)
    case Nil
    then show ?thesis using c 1 by simp
  next
    case (Cons call rest)
    from Cons c have "udpApp_callback env call (a\<lparr>ua_socket := so\<rparr>) = Inr (out, b)" by simp
    from accounted_trans[OF assms(1) 1 callback_accounted[OF accounted_set_up[OF assms(1) 1] this]] show ?thesis by simp
  qed
qed

lemma handle_accounted:
  assumes "app_set_up a" "udpApp_handle env ev a = Inr (out, b)"
  shows "accounted a out b"
proof (cases ev)
  case (MessageArrives m)
  then show ?thesis using assms handleMessage_accounted by (simp add: udpApp_handle_def)
next
  case StartOperation
  then show ?thesis using assms(2)
    by (auto simp: udpApp_handle_def udpApp_handleStartOperation_def Let_def bindE_eq_Inr accounted_frame same_params_def
        dest!: schedule_accounted split: if_splits)
next
  case StopOperation
  have 1: "accounted a [] (a\<lparr>ua_timer := None\<rparr>)" by (rule accounted_frame) (simp_all add: same_params_def)
  have "accounted (a\<lparr>ua_timer := None\<rparr>) out b"
    using assms(2) StopOperation accounted_quiet[OF close_op.quiet_on_socket] by (simp add: udpApp_handle_def udpApp_handleStopOperation_def)
  from accounted_trans[OF assms(1) 1 this] show ?thesis by simp
next
  case CrashOperation
  have 1: "accounted a [] (a\<lparr>ua_timer := None\<rparr>)" by (rule accounted_frame) (simp_all add: same_params_def)
  have "accounted (a\<lparr>ua_timer := None\<rparr>) out b"
    using assms(2) CrashOperation accounted_quiet[OF destroy_op.quiet_on_socket] by (simp add: udpApp_handle_def udpApp_handleCrashOperation_def)
  from accounted_trans[OF assms(1) 1 this] show ?thesis by simp
qed

lemma run_accounted: "udp_app_run a0 outs b \<Longrightarrow> app_set_up a0 \<Longrightarrow> accounted a0 outs b"
proof (induction rule: udp_app_run.induct)
  case run_start
  show ?case by (rule accounted_refl)
next
  case (run_event outs a env ev out b)
  then have "accounted a0 outs a" by simp
  then show ?case
    using accounted_trans[OF run_event.prems _ handle_accounted[OF accounted_set_up[OF run_event.prems] run_event.hyps(2)]] by blast
qed

lemma initialize_set_up:
  assumes "udpApp_initialize sockId localPort destPort startTime stopTime name df packetsToSend F channel arp = Inr a"
  shows "app_set_up a \<and> ua_fragmentSize a = F \<and> F \<le> 65527 \<and> ua_packetsToSend a = (if packetsToSend = -1 then MAX_INT else packetsToSend)
    \<and> ua_numSent a = 0 \<and> ua_numReceived a = 0 \<and> ua_latencyPackets a = [] \<and> ua_isGlobalArp a = arp"
  using assms by (auto simp: udpApp_initialize_def Let_def app_set_up_def UDP_MAX_MESSAGE_SIZE_def split: if_splits)

section \<open>An example\<close>

text \<open>An application that sends one message of \<open>len\<close> bytes at time \<open>t\<close> to \<open>10.0.0.2:2000\<close>.\<close>

definition example_udp_env :: "int \<Rightarrow> simtime \<Rightarrow> udp_app_env" where
  "example_udp_env len t = \<lparr>va_now = t, va_parentName = ''h'', va_parentId = 7, va_messageLength = len, va_firstPacket = 1,
     va_sendInterval = 10, va_localAddress = [], va_destAddresses = [''b''], va_excludeLocal = False, va_isLocal = (\<lambda>_. False),
     va_resolve = (\<lambda>_. Inr (L3IPv4 0x0A000002)), va_tryResolve = (\<lambda>_. L3None), va_intrand = (\<lambda>_. 0), va_timeToLive = -1,
     va_dscp = -1, va_tos = -1, va_multicastInterface = [], va_findInterface = (\<lambda>_. None), va_receiveBroadcast = False,
     va_joinLocalMulticastGroups = False, va_multicastGroups = [], va_stopping = False\<rparr>"

definition example_udp_start :: "udp_app res" where
  "example_udp_start = udpApp_initialize 5 1000 2000 0 (-1) ''m'' False 1 2 False False"

definition example_udp_run :: "(udp_app_output list \<times> udp_app) res" where
  "example_udp_run = bindE example_udp_start (\<lambda>a. then_do (udpApp_handle (example_udp_env 3 0) StartOperation a)
     (udpApp_handle (example_udp_env 3 0) (MessageArrives SelfMsg)))"

lemma example_udp_run_exists:
  "\<exists>a0 outs b p. example_udp_start = Inr a0 \<and> udp_app_run a0 outs b \<and> ua_numSent b = 1 \<and> ua_packetsToSend a0 = 1 \<and>
     ToUdp (UdpData p) \<in> set outs"
proof -
  have c: "case example_udp_run of Inr (outs, b) \<Rightarrow> ua_numSent b = 1 \<and> length outs = 4 \<and>
      (case outs ! 2 of ToUdp (UdpData p) \<Rightarrow> True | _ \<Rightarrow> False) | Inl e \<Rightarrow> False"
    by code_simp
  then obtain outs b where r: "example_udp_run = Inr (outs, b)" "ua_numSent b = 1" "length outs = 4"
    "case outs ! 2 of ToUdp (UdpData p) \<Rightarrow> True | _ \<Rightarrow> False"
    by (auto split: sum.splits prod.splits)
  obtain p where "outs ! 2 = ToUdp (UdpData p)" using r(4) by (auto split: udp_app_output.splits udp_msg.splits)
  then have p: "ToUdp (UdpData p) \<in> set outs" using nth_mem[of 2 outs] r(3) by simp
  obtain a0 where a0: "example_udp_start = Inr a0"
    and t: "then_do (udpApp_handle (example_udp_env 3 0) StartOperation a0) (udpApp_handle (example_udp_env 3 0) (MessageArrives SelfMsg)) = Inr (outs, b)"
    using r(1) unfolding example_udp_run_def bindE_eq_Inr by blast
  obtain o1 a o2 where "udpApp_handle (example_udp_env 3 0) StartOperation a0 = Inr (o1, a)"
    "udpApp_handle (example_udp_env 3 0) (MessageArrives SelfMsg) a = Inr (o2, b)" "outs = o1 @ o2"
    using t unfolding then_do_Inr by blast
  then have "udp_app_run a0 outs b" using run_event[OF run_event[OF run_start]] by fastforce
  moreover have "ua_packetsToSend a0 = 1" using a0 by (auto simp: example_udp_start_def udpApp_initialize_def Let_def split: if_splits)
  ultimately show ?thesis using a0 r(2) p by blast
qed

section \<open>Properties\<close>

text \<open>C27: Along every run of the UDP application, each packet it hands to UDP carries at least one byte and at most
  \<open>fragmentSize\<close> bytes, and UDP can put its header in front of it: the datagram stays within the
  largest UDP message.\<close>

theorem udp_app_datagrams_fit:
  assumes "udpApp_initialize sockId localPort destPort startTime stopTime name df packetsToSend F channel arp = Inr a0"
    and "udp_app_run a0 outs b" "ToUdp (UdpData p) \<in> set outs" "mode \<noteq> CRC_MODE_UNDEFINED"
  shows "0 < dataLength p \<and> int (dataLength p) \<le> F \<and>
    (\<exists>q. udp_encapsulate mode src dest sp dp (p\<lparr>pk_tags := t\<rparr>) = Inr q \<and> int (dataLength q) \<le> UDP_MAX_MESSAGE_SIZE)"
proof -
  note i = initialize_set_up[OF assms(1)]
  have "list_all (output_ok F) outs" using run_accounted[OF assms(2)] i by (auto simp: accounted_def)
  then have "output_ok F (ToUdp (UdpData p))" using assms(3) unfolding list_all_iff by blast
  then have p: "packet_ok p" "pk_front p = 0" "pk_back p = 0" "0 < dataLength p" "int (dataLength p) \<le> F" by simp_all
  let ?p = "p\<lparr>pk_tags := t\<rparr>"
  have tl: "totalLength ?p = dataLength p" using p(2,3) by (simp add: dataLength_def totalLength_def)
  have ok: "packet_ok ?p" "8 + int (totalLength ?p) \<le> UDP_MAX_MESSAGE_SIZE"
    using p i tl by (simp_all add: packet_ok_def totalLength_def UDP_MAX_MESSAGE_SIZE_def)
  obtain q where q: "udp_encapsulate mode src dest sp dp ?p = Inr q"
    "pk_data q = header_cells (UdpH (udp_sent_header mode sp dp (totalLength ?p))) @ pk_data ?p"
    using udp_encapsulate_ok[OF ok(1) assms(4) ok(2)] by blast
  have "dataLength q = 8 + dataLength p" using arg_cong[OF q(2), of length] by simp
  then show ?thesis using p(4,5) q(1) ok(2) tl by auto
qed

theorem udp_app_datagrams_fit_witness:
  "\<exists>a0 outs b p. example_udp_start = Inr a0 \<and> udp_app_run a0 outs b \<and> ToUdp (UdpData p) \<in> set outs \<and>
     0 < dataLength p \<and> int (dataLength p) \<le> 2"
proof -
  obtain a0 outs b p where r: "example_udp_start = Inr a0" "udp_app_run a0 outs b" "ToUdp (UdpData p) \<in> set outs"
    using example_udp_run_exists by blast
  show ?thesis
    using r udp_app_datagrams_fit[OF r(1)[unfolded example_udp_start_def] r(2,3), of CRC_DECLARED_CORRECT] by blast
qed

text \<open>C28: Along every run the counters of the UDP application stay within what its parameters allow and agree with
  the signals: \<open>numSent\<close> never exceeds \<open>packetsToSend\<close>, and every message sent is announced by one or
  two signals; \<open>latencyPackets\<close> has one entry for every message announced as received, and
  \<open>numReceived\<close> counts them and the first packet that is skipped with \<open>isGlobalArp\<close>; between
  two events no message is half sent. So \<open>finish\<close> never reads a latency that is not there: it adds up the
  accepted ones of all of them, and records one message sent and one received less with
  \<open>isGlobalArp\<close>, also when there was none.\<close>

theorem udp_app_counts:
  assumes "udpApp_initialize sockId localPort destPort startTime stopTime name df packetsToSend F channel arp = Inr a0"
    and "udp_app_run a0 outs b"
  shows "0 \<le> ua_numSent b \<and> ua_numSent b \<le> max 0 (ua_packetsToSend a0) \<and>
    ua_numSent b \<le> sent_signals outs \<and> sent_signals outs \<le> 2 * ua_numSent b \<and>
    int (length (ua_latencyPackets b)) = received_signals outs \<and>
    ua_numReceived b = received_signals outs + (if arp \<and> 0 < ua_numReceived b then 1 else 0) \<and> ua_offset b = 0 \<and>
    udpApp_finish accept b = Inr (ua_numSent b - (if arp then 1 else 0), ua_numReceived b - (if arp then 1 else 0),
      sum_list (filter accept (ua_latencyPackets b)), length (filter accept (ua_latencyPackets b)))"
proof -
  note i = initialize_set_up[OF assms(1)]
  have "accounted a0 outs b" using run_accounted[OF assms(2)] i by simp
  then have acc: "0 \<le> ua_numSent b \<and> ua_numSent b \<le> max 0 (ua_packetsToSend a0) \<and>
    ua_numSent b \<le> sent_signals outs \<and> sent_signals outs \<le> 2 * ua_numSent b \<and>
    int (length (ua_latencyPackets b)) = received_signals outs \<and>
    ua_numReceived b = received_signals outs + (if arp \<and> 0 < ua_numReceived b then 1 else 0) \<and> ua_offset b = 0" "ua_isGlobalArp b = arp"
    using i by (auto simp: accounted_defs app_set_up_def split: if_splits)
  let ?n = "ua_numReceived b - (if arp then 1 else 0)"
  have "nat ?n = length (ua_latencyPackets b)" using acc by (auto split: if_splits)
  then have "finish_loop accept (ua_latencyPackets b) 0 (nat ?n) (0, 0)
      = Inr (sum_list (filter accept (ua_latencyPackets b)), length (filter accept (ua_latencyPackets b)))"
    using finish_loop_ok[of 0 "length (ua_latencyPackets b)" "ua_latencyPackets b" accept 0 0] by simp
  then have "udpApp_finish accept b = Inr (ua_numSent b - (if arp then 1 else 0), ?n,
      sum_list (filter accept (ua_latencyPackets b)), length (filter accept (ua_latencyPackets b)))"
    using acc(2) by (cases arp) (simp_all add: udpApp_finish_def Let_def)
  then show ?thesis using acc(1) by blast
qed

theorem udp_app_counts_witness:
  "\<exists>a0 outs b. example_udp_start = Inr a0 \<and> udp_app_run a0 outs b \<and> ua_numSent b = 1 \<and> ua_packetsToSend a0 = 1 \<and>
     1 \<le> sent_signals outs \<and> sent_signals outs \<le> 2 \<and> udpApp_finish (\<lambda>_. True) b = Inr (1, ua_numReceived b, sum_list (ua_latencyPackets b), length (ua_latencyPackets b))"
proof -
  obtain a0 outs b where r: "example_udp_start = Inr a0" "udp_app_run a0 outs b" "ua_numSent b = 1" "ua_packetsToSend a0 = 1"
    using example_udp_run_exists by blast
  show ?thesis using r udp_app_counts[OF r(1)[unfolded example_udp_start_def] r(2), of "\<lambda>_. True"] by auto
qed

end
