(* ===== verification/Udp_Delivery.thy ===== *)
theory Udp_Delivery
  imports Udp_App_Runs Rdma_Delivery
begin

text \<open>
  The way of a message from one UDP application (\<open>MyUdpBasicApp\<close>) to another: what the sender
  hands to its socket, and what the receiver reports when all of it has arrived, in any order.
\<close>

section \<open>What arrives\<close>

text \<open>The packets that were handed to UDP.\<close>

fun sent_datagrams :: "udp_app_output list \<Rightarrow> packet list" where
  "sent_datagrams [] = []"
| "sent_datagrams (ToUdp (UdpData p) # outs) = p # sent_datagrams outs"
| "sent_datagrams (_ # outs) = sent_datagrams outs"

lemma sent_datagrams_map: "sent_datagrams (map (\<lambda>j. ToUdp (UdpData (f j))) js) = map f js"
  by (induction js) simp_all

text \<open>The payload that the receiver puts together: its pieces are the whole fragments, each one header chunk.\<close>

definition app_pieces :: "app_header \<Rightarrow> int \<Rightarrow> nat \<Rightarrow> nat \<Rightarrow> cell list" where
  "app_pieces h i F N = concat (map (\<lambda>j. header_cells (AppH (app_fragment_header h i F N j))) [0..<frag_count F N])"

lemma app_piece_lengths:
  "0 < F \<Longrightarrow> \<forall>j < frag_count F N. length (header_cells (AppH (app_fragment_header h i F N j))) = min F (N - F * j)"
  by (simp add: app_fragment_header_def)

lemma app_pieces_length: "0 < F \<Longrightarrow> length (app_pieces h i F N) = N"
  unfolding app_pieces_def by (rule even_concat_length[OF _ app_piece_lengths])

abbreviation app_key :: "int \<Rightarrow> port_key" where
  "app_key i \<equiv> PortKey (of_int i) (-1) (-1)"

lemma app_fragment_of:
  assumes "0 < F" "j < frag_count F N" "N < 2 ^ 32" "pk_data p = header_cells (AppH (app_fragment_header h i F N j))"
  shows "peekAtFront as_app p = Inr (app_fragment_header h i F N j)"
    and "fragment_of as_app app_frag_info (app_key i) (app_pieces h i F N) p (cut_piece (app_pieces h i F N) (frag_cut F N j))"
proof -
  let ?h = "app_fragment_header h i F N j"
  let ?d = "app_pieces h i F N"
  have j: "F * j < N" using assms(1,2) frag_count_less by blast
  have len: "length ?d = N" by (rule app_pieces_length[OF assms(1)])
  have pos: "0 < ah_chunkLength ?h" using assms(1) j by (simp add: app_fragment_header_def)
  show h: "peekAtFront as_app p = Inr ?h"
    by (rule peekAtFront_header[of p "AppH ?h" "[]"]) (use assms(4) pos in simp_all)
  have "peek_at (F * j) (min F (N - F * j)) ?d = header_cells (AppH ?h)"
    unfolding app_pieces_def by (rule even_concat_piece[OF assms(1) app_piece_lengths[OF assms(1)] assms(2)])
  then have piece: "cut_piece ?d (frag_cut F N j) = (int (F * j), header_cells (AppH ?h))" by (simp add: cut_piece_def frag_cut_def del: of_nat_mult)
  have ok: "cut_ok ?d (frag_cut F N j)" using assms(1) j len by (simp add: cut_ok_def frag_cut_def flip: of_nat_add of_nat_mult)
  have data: "dataLength p = min F (N - F * j)" using arg_cong[OF assms(4), of length] by (simp add: app_fragment_header_def)
  have ne: "header_cells (AppH ?h) \<noteq> []" using pos by (simp add: header_cells_def)
  have "peekDataAt 0 (int (length (header_cells (AppH ?h)))) p = Inr (header_cells (AppH ?h))"
    using peekDataAt_after[of p "[]" "header_cells (AppH ?h)" "[]"] assms(4) ne by simp
  then have peek: "peekDataAt 0 (int (dataLength p)) p = Inr (header_cells (AppH ?h))" using arg_cong[OF assms(4), of length] by simp
  have "F * j < 2 ^ 32" using j assms(3) by linarith
  then have off: "uint (ah_fragmentOffset ?h) = int (F * j)" by (simp add: app_fragment_header_def unsigned_of_nat take_bit_nat_eq_self del: of_nat_mult)
  have "F * Suc j < N \<longleftrightarrow> F * j + dataLength p < N" unfolding data using j by (auto simp: min_def)
  then have more: "ah_moreFragments ?h \<longleftrightarrow> int (F * j) + int (dataLength p) < int (length ?d)"
    unfolding len by (simp add: app_fragment_header_def flip: of_nat_add del: of_nat_mult mult_Suc_right)
  have "app_frag_info ?h p = Inr \<lparr>fi_key = app_key i, fi_offset = int (F * j), fi_more = ah_moreFragments ?h, fi_start = 0, fi_bytes = int (dataLength p)\<rparr>"
    using off data assms(1) j by (simp add: app_frag_info_def app_fragment_header_def)
  then show "fragment_of as_app app_frag_info (app_key i) ?d p (cut_piece ?d (frag_cut F N j))"
    unfolding fragment_of_def using h peek piece_of_cut[OF ok] more data
    by (intro exI[of _ ?h]) (simp add: piece app_fragment_header_def)
qed

section \<open>The reception\<close>

text \<open>All the fragments of a message, or the packet of a short one.\<close>

lemma udp_app_stage_run:
  assumes "all_pieces F N js" "0 < F" "F < N" "N < 2 ^ 32" "map_ok bufs" "map_of bufs (app_key i) = None" "length ps = length js"
    and "\<forall>k < length js. pk_data (fst (ps ! k)) = header_cells (AppH (app_fragment_header h i F N (js ! k)))"
  shows "\<exists>q bufs' j. add_all udp_app_stage ps bufs = Inr (replicate (length ps - 1) None @ [Some q], bufs') \<and> j < frag_count F N \<and>
    pk_data q = header_cells (AppH (app_frag_finish (app_fragment_header h i F N j) (int N))) @ app_pieces h i F N \<and>
    (\<forall>k < length js. js ! k = 0 \<longrightarrow> pk_creation q = pk_creation (fst (ps ! k)))"
proof -
  let ?d = "app_pieces h i F N"
  let ?H = "app_fragment_header h i F N ` {..<frag_count F N}"
  let ?cs = "map (frag_cut F N) js"
  let ?fs = "map (cut_piece ?d) ?cs"
  have len: "length ?d = N" by (rule app_pieces_length[OF assms(2)])
  have d: "?d \<noteq> []" using len assms(3) by auto
  have dj: "distinct js" "set js = {..<frag_count F N}" using assms(1) by (simp_all add: all_pieces_def)
  have jk: "js ! k < frag_count F N" if "k < length js" for k using nth_mem[OF that] dj(2) by simp
  note frag = app_fragment_of[OF assms(2) jk assms(4) assms(8)[rule_format]]
  have N0: "0 < N" using assms(3) by simp
  have ne: "ps \<noteq> []" using all_pieces_nonempty[OF assms(1,2) N0] assms(7) by auto
  have stage: "add_all udp_app_stage ps bufs = add_all udpApp_addFragment ps bufs"
  proof (rule add_all_cong_fun, intro ballI allI)
    fix x m assume "x \<in> set ps"
    then obtain k where k: "k < length js" "x = ps ! k" using assms(7) by (auto simp: in_set_conv_nth)
    have "F * (js ! k) < N" "F * (js ! k) < 2 ^ 32" using jk[OF k(1)] frag_count_less[OF assms(2)] assms(4) by fastforce+
    then have "uint (ah_fragmentOffset (app_fragment_header h i F N (js ! k))) = int (F * (js ! k))"
      by (simp add: app_fragment_header_def unsigned_of_nat take_bit_nat_eq_self del: of_nat_mult)
    then have "ah_fragmentOffset (app_fragment_header h i F N (js ! k)) \<noteq> 0 \<or> ah_moreFragments (app_fragment_header h i F N (js ! k))"
    proof (cases "js ! k = 0")
      case True
      then show ?thesis using assms(3) by (simp add: app_fragment_header_def)
    next
      case False
      then have "int (F * (js ! k)) \<noteq> 0" using assms(2) by simp
      then show ?thesis using \<open>uint _ = _\<close> by (metis unsigned_0)
    qed
    then show "udp_app_stage (fst x) (snd x) m = udpApp_addFragment (fst x) (snd x) m"
      using frag(1)[OF k(1) k(1)] k(2) by (simp add: udp_app_stage_def)
  qed
  have fr: "\<forall>k < length ps. fragment_of as_app app_frag_info (app_key i) ?d (fst (ps ! k)) (?fs ! k)"
    using frag(2) assms(7) by simp
  have peek: "\<forall>k < length ps. \<exists>g \<in> ?H. peekAtFront as_app (fst (ps ! k)) = Inr g" using frag(1) jk assms(7) by auto
  have pos: "\<forall>g \<in> ?H. 0 < header_length (AppH g)" using assms(2) frag_count_less[OF assms(2)] by (auto simp: app_fragment_header_def)
  have cuts: "\<forall>c \<in> set ?cs. cut_ok ?d c"
    using dj(2) frag_count_less[OF assms(2)] assms(2) len by (auto simp: cut_ok_def frag_cut_def simp flip: of_nat_add of_nat_mult)
  have cov: "covered ({} \<union> set ?fs) ?d" "\<not> covered ({} \<union> set (butlast ?fs)) ?d"
    unfolding Un_empty_left using frag_cuts_cover[OF assms(2) dj N0 len] covered_cuts[OF cuts] butlast_covered[OF cuts] by auto
  have start: "progress as_app (app_key i) ?d {} ?H bufs" using assms(6) by (simp add: progress_def)
  obtain q g bufs' where q: "add_all udpApp_addFragment ps bufs = Inr (replicate (length ps - 1) None @ [Some q], bufs')"
    "g \<in> ?H" "pk_data q = header_cells (AppH (app_frag_finish g (int (length ?d)))) @ ?d"
    using app_frag.add_all_complete[OF ne _ assms(5) d fr peek pos start _ cov] assms(7) unfolding udpApp_addFragment_def by auto
  have "pk_creation q = pk_creation (fst (ps ! k))" if k: "k < length js" "js ! k = 0" for k
  proof (rule first_creation[OF assms(5) q(1)[unfolded udpApp_addFragment_def] _ fr])
    show "\<forall>j < length ps. fst (?fs ! j) = 0 \<longleftrightarrow> j = k"
      using all_pieces_zero[OF assms(1) k] assms(2,7) by (simp add: cut_piece_def frag_cut_def)
  qed (use k assms(7) in auto)
  then show ?thesis using q stage len by auto
qed

text \<open>The datagrams that the UDP module delivers to the socket of the application.\<close>

fun udpApp_receive_all :: "udp_app_env \<Rightarrow> (packet \<times> simtime) list \<Rightarrow> udp_app \<Rightarrow> udp_app_result" where
  "udpApp_receive_all env [] a = Inr ([], a)"
| "udpApp_receive_all env ((p, now) # ps) a =
    then_do (udpApp_handleMessage (env\<lparr>va_now := now\<rparr>) (FromSocket (Some (so_socketId (ua_socket a))) (DataInd p)) a)
      (udpApp_receive_all env ps)"

definition udp_receiver_ready :: "udp_app \<Rightarrow> bool" where
  "udp_receiver_ready r \<longleftrightarrow> so_callback (ua_socket r) \<and> map_ok (ua_fragbuf r) \<and> 0 \<le> ua_numReceived r \<and> (ua_isGlobalArp r \<longrightarrow> 0 < ua_numReceived r)"

lemma handle_data:
  "so_callback (ua_socket r) \<Longrightarrow>
    udpApp_handleMessage env (FromSocket (Some (so_socketId (ua_socket r))) (DataInd p)) r = udpApp_processPacket (va_now env) p r"
  by (simp add: udpApp_handleMessage_def sock_processMessage_def belongsToSocket_def)

lemma udpApp_receive_eq:
  assumes "add_all udp_app_stage ps (ua_fragbuf r) = Inr (rs, bufs)" "so_callback (ua_socket r)" "0 \<le> ua_numReceived r"
    and "ua_isGlobalArp r \<longrightarrow> 0 < ua_numReceived r"
  shows "udpApp_receive_all env ps r = Inr (map (\<lambda>x. MsgReceived (fst x)) (completed rs ps), r\<lparr>ua_fragbuf := bufs,
     ua_numReceived := ua_numReceived r + int (length (completed rs ps)),
     ua_latencyPackets := ua_latencyPackets r @ map (\<lambda>x. snd x - pk_creation (fst x)) (completed rs ps)\<rparr>)"
  using assms
proof (induction ps arbitrary: r rs)
  case Nil
  then show ?case by simp
next
  case (Cons x ps)
  obtain p now where x: "x = (p, now)" by (cases x)
  obtain c b1 rs1 where s: "udp_app_stage p now (ua_fragbuf r) = Inr (c, b1)" "add_all udp_app_stage ps b1 = Inr (rs1, bufs)" "rs = c # rs1"
    using Cons.prems(1) x by (auto simp: bindE_eq_Inr)
  have look: "\<not> (ua_numReceived r = 0 \<and> ua_isGlobalArp r)" using Cons.prems(4) by auto
  show ?case
  proof (cases c)
    case None
    then have "udpApp_processPacket now p r = Inr ([], r\<lparr>ua_fragbuf := b1\<rparr>)"
      unfolding udpApp_processPacket_def if_not_P[OF look] using s by simp
    then show ?thesis using Cons.IH[of "r\<lparr>ua_fragbuf := b1\<rparr>" rs1] Cons.prems(2-4) s None x
      by (simp add: handle_data then_do_def)
  next
    case (Some q)
    let ?r = "r\<lparr>ua_fragbuf := b1, ua_numReceived := ua_numReceived r + 1, ua_latencyPackets := ua_latencyPackets r @ [now - pk_creation q]\<rparr>"
    have "udpApp_processPacket now p r = Inr ([MsgReceived q], ?r)"
      unfolding udpApp_processPacket_def if_not_P[OF look] using s Some by simp
    then show ?thesis using Cons.IH[of ?r rs1] Cons.prems(2-4) s Some x
      by (simp add: handle_data then_do_def)
  qed
qed

section \<open>The sender\<close>

text \<open>The next message has \<open>N\<close> bytes and is cut every \<open>F\<close> bytes, which only works without a transmission channel.\<close>

definition udp_sender_ready :: "udp_app_env \<Rightarrow> udp_app \<Rightarrow> nat \<Rightarrow> nat \<Rightarrow> bool" where
  "udp_sender_ready env a F N \<longleftrightarrow> ua_numSent a < ua_packetsToSend a \<and> ua_fragmentSize a = int F \<and> 0 < F \<and>
     next_length env a = int N \<and> 0 < N \<and> ua_offset a = 0 \<and> so_gateToUdp (ua_socket a) \<and> (F < N \<longrightarrow> \<not> ua_channel a)"

definition sent_header :: "udp_app_env \<Rightarrow> udp_app \<Rightarrow> nat \<Rightarrow> nat \<Rightarrow> nat \<Rightarrow> app_header" where
  "sent_header env a F N j = (if F < N then app_fragment_header (next_payload env a) (next_id env a) F N j else next_payload env a)"

text \<open>The packet with piece \<open>j\<close> of the message, as it is handed to UDP, with the name \<open>nm\<close>.\<close>

definition sent_packet :: "udp_app_env \<Rightarrow> udp_app \<Rightarrow> nat \<Rightarrow> nat \<Rightarrow> nat \<Rightarrow> string \<Rightarrow> packet" where
  "sent_packet env a F N j nm = sock_packet (ua_destAddr a) (ua_destPort a) (so_socketId (ua_socket a))
     (app_packet nm (va_now env) (ua_dontFragment a) (sent_header env a F N j))"

lemma sent_datagrams_set: "ToUdp (UdpData p) \<in> set out \<longleftrightarrow> p \<in> set (sent_datagrams out)"
  by (induction out rule: sent_datagrams.induct) auto

lemma udp_sender_packets:
  assumes "udp_sender_ready env a F N"
  shows "\<exists>out b. udpApp_sendPacket env a = Inr (out, b) \<and> ua_numSent b = ua_numSent a + 1 \<and> ua_offset b = 0 \<and>
    \<not> list_ex is_request out \<and> length (sent_datagrams out) = frag_count F N \<and>
    (\<forall>j < frag_count F N. \<exists>nm. sent_datagrams out ! j = sent_packet env a F N j nm)"
proof -
  have a: "ua_numSent a < ua_packetsToSend a" "ua_fragmentSize a = int F" "0 < F" "next_length env a = int N" "0 < N" "ua_offset a = 0"
    "so_gateToUdp (ua_socket a)" "F < N \<Longrightarrow> \<not> ua_channel a" using assms by (simp_all add: udp_sender_ready_def)
  show ?thesis
  proof (cases "F < N")
    case False
    then have "udpApp_sendPacket env a = Inr ([MsgSent (next_packet env a), MsgSent (next_packet env a), send_whole env a],
        (next_state env a)\<lparr>ua_socket := (ua_socket a)\<lparr>so_state := CONNECTED\<rparr>, ua_numSent := ua_numSent a + 1\<rparr>)"
      using a by (simp add: udpApp_sendPacket_eq on_socket_def sock_sendTo_eq next_state_def send_whole_def)
    moreover have "frag_count F N = 1" using False a(5) by (simp add: frag_count_one)
    ultimately show ?thesis using a(6) False
      by (auto simp: send_whole_def next_packet_def next_state_def sent_header_def sent_packet_def)
  next
    case True
    have fs: "ua_fragmentSize (frag_state env a) = int F" "ua_messageLength (frag_state env a) = int N" "ua_offset (frag_state env a) = int (F * 0)"
      "so_gateToUdp (ua_socket (frag_state env a))" using a by (simp_all add: frag_state_def next_state_def)
    have tags: "pk_tags (next_packet env a) = (if ua_dontFragment a then no_tags\<lparr>t_fragmentationReq := Some True\<rparr> else no_tags)"
      by (simp add: next_packet_def)
    let ?m = "fragment_msg (va_now env) (ua_dontFragment a) (next_payload env a) (frag_state env a) F N"
    have loop: "udpApp_fragment_loop (va_now env) (next_packet env a) (next_payload env a) (frag_state env a)
        = Inr (map ?m [0..<frag_count F N], sent_state (frag_state env a) N)"
      using udpApp_fragment_loop_eq[OF a(3) fs(1-3) _ _ tags fs(4), where payload = "next_payload env a" and now = "va_now env"] a(5) by simp
    define out where "out = MsgSent (next_packet env a) # map ?m [0..<frag_count F N]"
    have n: "ua_numSent (sent_state (frag_state env a) N) = ua_numSent a" by (simp add: sent_state_def frag_state_def next_state_def)
    have "udpApp_sendPacket env a = Inr (out, (sent_state (frag_state env a) N)\<lparr>ua_numSent := ua_numSent a + 1, ua_offset := 0\<rparr>)"
      using a True by (simp add: udpApp_sendPacket_eq loop out_def n)
    moreover have "sent_datagrams out = map (\<lambda>j. sent_packet env a F N j (next_name env a @ ''-frag-'' @ string_of_nat (F * j))) [0..<frag_count F N]"
      using True unfolding out_def fragment_msg_def
      by (simp add: sent_datagrams_map frag_state_def next_state_def sent_header_def sent_packet_def)
    moreover have "\<not> list_ex is_request out" by (auto simp: out_def fragment_msg_def list_ex_iff)
    ultimately show ?thesis by (intro exI conjI) auto
  qed
qed

lemma sent_packet_simps [simp]:
  "pk_data (sent_packet env a F N j nm) = header_cells (AppH (sent_header env a F N j))" "pk_creation (sent_packet env a F N j nm) = va_now env"
  "packet_ok (sent_packet env a F N j nm)" "pk_front (sent_packet env a F N j nm) = 0" "pk_back (sent_packet env a F N j nm) = 0"
  "pk_kind (sent_packet env a F N j nm) = UDP_C_DATA" "dataLength (sent_packet env a F N j nm) = ah_chunkLength (sent_header env a F N j)"
  by (simp_all add: sent_packet_def dataLength_app_packet)

lemma udp_sender_sends:
  assumes "udp_sender_ready env a F N"
  shows "\<exists>out b. udpApp_sendPacket env a = Inr (out, b) \<and> ua_numSent b = ua_numSent a + 1 \<and> ua_offset b = 0 \<and>
    length (sent_datagrams out) = frag_count F N \<and> (\<forall>j < frag_count F N. pk_creation (sent_datagrams out ! j) = va_now env \<and>
      pk_data (sent_datagrams out ! j) = header_cells (AppH (sent_header env a F N j)))"
proof -
  obtain out b where o: "udpApp_sendPacket env a = Inr (out, b)" "ua_numSent b = ua_numSent a + 1" "ua_offset b = 0"
    "length (sent_datagrams out) = frag_count F N" "\<forall>j < frag_count F N. \<exists>nm. sent_datagrams out ! j = sent_packet env a F N j nm"
    using udp_sender_packets[OF assms] by blast
  have "\<forall>j < frag_count F N. pk_creation (sent_datagrams out ! j) = va_now env \<and>
      pk_data (sent_datagrams out ! j) = header_cells (AppH (sent_header env a F N j))" using o(5) by fastforce
  then show ?thesis using o(1-4) by blast
qed

section \<open>From application to application\<close>

text \<open>\<open>shuffled F N msgs t js ps\<close>: what was sent as \<open>msgs\<close> at time \<open>t\<close> arrives as \<open>ps\<close>, every piece once, in the order \<open>js\<close>.\<close>

definition shuffled :: "nat \<Rightarrow> nat \<Rightarrow> packet list \<Rightarrow> simtime \<Rightarrow> nat list \<Rightarrow> (packet \<times> simtime) list \<Rightarrow> bool" where
  "shuffled F N msgs t js ps \<longleftrightarrow> all_pieces F N js \<and> length ps = length js \<and>
     (\<forall>k < length js. pk_data (fst (ps ! k)) = pk_data (msgs ! (js ! k)) \<and> pk_creation (fst (ps ! k)) = t)"

lemma sent_concat:
  assumes "F < N" "length (sent_datagrams out) = frag_count F N"
    "\<forall>j < frag_count F N. pk_data (sent_datagrams out ! j) = header_cells (AppH (sent_header env a F N j))"
  shows "app_pieces (next_payload env a) (next_id env a) F N = concat (map pk_data (sent_datagrams out))"
  unfolding app_pieces_def using assms by (intro arg_cong[of _ _ concat] nth_equalityI) (simp_all add: sent_header_def)

lemma shuffled_stage:
  assumes "shuffled F N (sent_datagrams out) t js ps" "0 < F" "0 < N" "N < 2 ^ 32" "map_ok bufs" "map_of bufs (app_key (next_id env a)) = None"
    and "length (sent_datagrams out) = frag_count F N" "next_length env a = int N"
    and sent: "\<forall>j < frag_count F N. pk_data (sent_datagrams out ! j) = header_cells (AppH (sent_header env a F N j))"
  shows "\<exists>q bufs'. add_all udp_app_stage ps bufs = Inr (replicate (length ps - 1) None @ [Some q], bufs') \<and> pk_creation q = t \<and>
      (if F < N then \<exists>h. pk_data q = header_cells (AppH h) @ concat (map pk_data (sent_datagrams out)) \<and> N < dataLength q
       else pk_data q = pk_data (hd (sent_datagrams out)))"
proof -
  have js: "all_pieces F N js" "length ps = length js" using assms(1) by (simp_all add: shuffled_def)
  have jk: "js ! k < frag_count F N" if "k < length js" for k using nth_mem[OF that] js(1) by (simp add: all_pieces_def)
  then have data: "pk_data (fst (ps ! k)) = header_cells (AppH (sent_header env a F N (js ! k)))" "pk_creation (fst (ps ! k)) = t"
    if "k < length js" for k using assms(1) sent that by (simp_all add: shuffled_def)
  show ?thesis
  proof (cases "F < N")
    case True
    then have "\<forall>k < length js. pk_data (fst (ps ! k)) = header_cells (AppH (app_fragment_header (next_payload env a) (next_id env a) F N (js ! k)))"
      using data(1) by (simp add: sent_header_def)
    from udp_app_stage_run[OF js(1) assms(2) True assms(4-6) js(2) this]
    obtain q bufs' j where q: "add_all udp_app_stage ps bufs = Inr (replicate (length ps - 1) None @ [Some q], bufs')" "j < frag_count F N"
      "pk_data q = header_cells (AppH (app_frag_finish (app_fragment_header (next_payload env a) (next_id env a) F N j) (int N)))
         @ app_pieces (next_payload env a) (next_id env a) F N"
      "\<forall>k < length js. js ! k = 0 \<longrightarrow> pk_creation q = pk_creation (fst (ps ! k))" by blast
    have "0 < frag_count F N" using frag_count_less[OF assms(2)] assms(3) by simp
    then have "0 \<in> set js" using js(1) by (simp add: all_pieces_def)
    then obtain k where "k < length js" "js ! k = 0" by (auto simp: in_set_conv_nth)
    then have "pk_creation q = t" using q(4) data(2) by simp
    moreover have "dataLength q = min F (N - F * j) + N"
      using arg_cong[OF q(3), of length] app_pieces_length[OF assms(2)] by (simp add: app_frag_finish_def app_dup_def new_app_header_def app_fragment_header_def)
    moreover have "0 < min F (N - F * j)" using q(2) frag_count_less[OF assms(2)] assms(2) by simp
    ultimately show ?thesis using q(1,3) True sent_concat[OF True assms(7) sent] by auto
  next
    case False
    then have one: "js = [0]" using all_pieces_one[OF js(1) assms(3)] by simp
    obtain p u where ps: "ps = [(p, u)]" using js(2) one by (cases ps) auto
    have p: "pk_data p = header_cells (AppH (next_payload env a))" "pk_creation p = t" using data[of 0] one ps False by (simp_all add: sent_header_def)
    have "peekAtFront as_app p = Inr (next_payload env a)"
      by (rule peekAtFront_header[of p "AppH (next_payload env a)" "[]"]) (use p assms(3,8) in simp_all)
    moreover have "sent_datagrams out \<noteq> []" using assms(7) frag_count_one[OF assms(3)] False by (cases "sent_datagrams out") auto
    then have "pk_data p = pk_data (hd (sent_datagrams out))"
      using p sent False frag_count_one[OF assms(3)] by (simp add: hd_conv_nth sent_header_def)
    ultimately show ?thesis using ps p(2) False by (simp add: udp_app_stage_def)
  qed
qed

text \<open>
  The receiver has counted the packet \<open>x\<close>, after \<open>latency\<close>, for the message sent as \<open>msgs\<close>. A short message
  is as it was sent. A fragmented one is all the fragments behind one another and a header in front that is as
  long as one fragment: it is longer than the message.
\<close>

definition reported :: "nat \<Rightarrow> nat \<Rightarrow> packet list \<Rightarrow> simtime \<Rightarrow> udp_app \<Rightarrow> packet \<Rightarrow> udp_app \<Rightarrow> bool" where
  "reported F N msgs latency r x r' \<longleftrightarrow> ua_numReceived r' = ua_numReceived r + 1 \<and>
     ua_latencyPackets r' = ua_latencyPackets r @ [latency] \<and>
     (if F < N then \<exists>h. pk_data x = header_cells (AppH h) @ concat (map pk_data msgs) \<and> N < dataLength x
      else pk_data x = pk_data (hd msgs))"

lemma udp_app_reception:
  assumes send: "udp_sender_ready env a F N" "N < 2 ^ 32" "length (sent_datagrams out) = frag_count F N"
      "\<forall>j < frag_count F N. pk_data (sent_datagrams out ! j) = header_cells (AppH (sent_header env a F N j))"
    and rcv: "udp_receiver_ready r" "map_of (ua_fragbuf r) (app_key (next_id env a)) = None"
    and sh: "shuffled F N (sent_datagrams out) t js ps"
  shows "\<exists>x r'. udpApp_receive_all env' ps r = Inr ([MsgReceived x], r') \<and> reported F N (sent_datagrams out) (snd (last ps) - t) r x r'"
proof -
  have F: "0 < F" "0 < N" using send(1) by (simp_all add: udp_sender_ready_def)
  have js: "all_pieces F N js" "length ps = length js" using sh by (simp_all add: shuffled_def)
  have ne: "ps \<noteq> []" using all_pieces_nonempty[OF js(1) F] js(2) by auto
  obtain q bufs' where q: "add_all udp_app_stage ps (ua_fragbuf r) = Inr (replicate (length ps - 1) None @ [Some q], bufs')" "pk_creation q = t"
    "if F < N then \<exists>h. pk_data q = header_cells (AppH h) @ concat (map pk_data (sent_datagrams out)) \<and> N < dataLength q
     else pk_data q = pk_data (hd (sent_datagrams out))"
    using shuffled_stage[OF sh F send(2) _ rcv(2) send(3) _ send(4)] send(1) rcv(1) unfolding udp_receiver_ready_def udp_sender_ready_def by blast
  let ?r = "r\<lparr>ua_fragbuf := bufs', ua_numReceived := ua_numReceived r + 1, ua_latencyPackets := ua_latencyPackets r @ [snd (last ps) - t]\<rparr>"
  have "udpApp_receive_all env' ps r = Inr ([MsgReceived q], ?r)"
    using udpApp_receive_eq[OF q(1)] rcv(1) completed_last[OF ne, of q] q(2) by (simp add: udp_receiver_ready_def)
  moreover have "reported F N (sent_datagrams out) (snd (last ps) - t) r q ?r" using q(3) by (simp add: reported_def)
  ultimately show ?thesis by blast
qed

text \<open>An application whose next message is cut every two bytes.\<close>

definition example_udp_app :: "bool \<Rightarrow> udp_app" where
  "example_udp_app rcv = \<lparr>ua_packetsToSend = 1, ua_destAddresses = [], ua_destAddressStr = [], ua_localPort = 1000,
     ua_destPort = 2000, ua_startTime = 0, ua_stopTime = -1, ua_dontFragment = False, ua_packetName = ''m'',
     ua_messageLength = 0, ua_id = 0, ua_fragmentSize = 2, ua_offset = 0, ua_fragMsgName = [],
     ua_socket = \<lparr>so_socketId = 5, so_callback = rcv, so_gateToUdp = True, so_state = CONNECTED\<rparr>, ua_selfMsg = SEND, ua_timer = None,
     ua_numSent = 0, ua_numReceived = 0, ua_latencyPackets = [], ua_destAddr = L3IPv4 0x0A000002, ua_channel = False,
     ua_isGlobalArp = False, ua_fragbuf = []\<rparr>"

end
