(* ===== verification/Udp_Path.thy ===== *)
theory Udp_Path
  imports Udp_Delivery
begin

text \<open>
  The UDP application (\<open>MyUdpBasicApp\<close>), its socket and the UDP module (\<open>Udp\<close>) of one host, and
  the same on another host: what one application sends is what the other one counts.
\<close>

section \<open>An application on top of the UDP module\<close>

text \<open>The UDP module gets, in order, what the application sends to it.\<close>

fun udp_serve :: "udp_env \<Rightarrow> udp_app_output list \<Rightarrow> udp_state \<Rightarrow> udp_result" where
  "udp_serve env [] s = Inr ([], s)"
| "udp_serve env (ToUdp (UdpData p) # outs) s =
    bindE (udp_handleUpperPacket env p s) (\<lambda>(o1, s). bindE (udp_serve env outs s) (\<lambda>(o2, s). Inr (o1 @ o2, s)))"
| "udp_serve env (ToUdp (UdpRequest c) # outs) s =
    bindE (udp_handleUpperCommand env c s) (\<lambda>(o1, s). bindE (udp_serve env outs s) (\<lambda>(o2, s). Inr (o1 @ o2, s)))"
| "udp_serve env (_ # outs) s = udp_serve env outs s"

text \<open>The application gets the packets that the module passes up to its socket.\<close>

fun udp_deliver :: "udp_app_env \<Rightarrow> udp_output list \<Rightarrow> udp_app \<Rightarrow> udp_app_result" where
  "udp_deliver env [] a = Inr ([], a)"
| "udp_deliver env (UdpAppOut p # outs) a =
    then_do (if belongsToSocket (t_socketInd (pk_tags p)) (ua_socket a)
             then udpApp_handleMessage env (FromSocket (t_socketInd (pk_tags p)) (DataInd p)) a else Inr ([], a))
      (udp_deliver env outs)"
| "udp_deliver env (_ # outs) a = udp_deliver env outs a"

text \<open>A run of packets from the network, without bit errors.\<close>

fun udp_host_receive :: "udp_env \<Rightarrow> udp_app_env \<Rightarrow> (packet \<times> simtime) list \<Rightarrow> udp_state \<Rightarrow> udp_app
    \<Rightarrow> (udp_app_output list \<times> udp_state \<times> udp_app) res" where
  "udp_host_receive env aenv [] s a = Inr ([], s, a)"
| "udp_host_receive env aenv ((p, now) # ps) s a =
    bindE (udp_handleLowerPacket env True True True p s) (\<lambda>(outs, s).
    bindE (udp_deliver (aenv\<lparr>va_now := now\<rparr>) outs a) (\<lambda>(o1, a).
    bindE (udp_host_receive env aenv ps s a) (\<lambda>(o2, s, a). Inr (o1 @ o2, s, a))))"

section \<open>Sending\<close>

text \<open>\<open>sendTo\<close> on the socket \<open>sd\<close>, to a unicast address.\<close>

definition host_sends :: "udp_env \<Rightarrow> udp_state \<Rightarrow> udp_app \<Rightarrow> sock_desc \<Rightarrow> ipv4_address \<Rightarrow> bool" where
  "host_sends env s a sd dest \<longleftrightarrow> so_socketId (ua_socket a) \<noteq> -1 \<and> map_of (us_byId (ud_sockets s)) (so_socketId (ua_socket a)) = Some sd
     \<and> (sd_tos sd = -1 \<or> sd_dscp sd = -1) \<and> ue_channel env = None \<and> ud_crcMode s \<in> {CRC_DISABLED, CRC_DECLARED_CORRECT, CRC_COMPUTED}
     \<and> ua_destAddr a = L3IPv4 dest \<and> \<not> ip_isMulticast dest \<and> \<not> ip_isUnspecified dest
     \<and> 0 < ua_destPort a \<and> ua_destPort a \<le> 65535"

lemma udp_encapsulate_creation: "udp_encapsulate mode src dest sp dp p = Inr q \<Longrightarrow> pk_creation q = pk_creation p"
  by (auto simp: udp_encapsulate_def Let_def bindE_eq_Inr insertTransportProtocolHeader_def insertAtFront_def insertAt_def split: if_splits)

lemma host_sends_packet:
  assumes "host_sends env s a sd dest"
    and p: "p = sock_packet (ua_destAddr a) (ua_destPort a) (so_socketId (ua_socket a)) (app_packet nm now df h)"
    and len: "0 < ah_chunkLength h" "int (ah_chunkLength h) \<le> 65527"
  shows "\<exists>q. udp_handleUpperPacket env p s = Inr ([IpOut q], s\<lparr>ud_numSent := ud_numSent s + 1\<rparr>) \<and> pk_creation q = now \<and>
    pk_data q = header_cells (UdpH (udp_sent_header (ud_crcMode s) (sd_localPort sd) (ua_destPort a) (dataLength p))) @ pk_data p"
proof -
  let ?i = "so_socketId (ua_socket a)"
  have s: "?i \<noteq> -1" "map_of (us_byId (ud_sockets s)) ?i = Some sd" "sd_tos sd = -1 \<or> sd_dscp sd = -1" "ue_channel env = None"
    "ud_crcMode s \<noteq> CRC_MODE_UNDEFINED" "ua_destAddr a = L3IPv4 dest" "\<not> ip_isMulticast dest" "\<not> ip_isUnspecified dest"
    "0 < ua_destPort a" "ua_destPort a \<le> 65535" using assms(1) by (auto simp: host_sends_def)
  have t: "t_socketReq (pk_tags p) = Some ?i" "t_l3AddressReq (pk_tags p) = Some \<lparr>lr_src = L3None, lr_dest = L3IPv4 dest, lr_nonLocalSrc = False\<rparr>"
    "t_l4PortReq (pk_tags p) = Some (-1, ua_destPort a)" "t_interfaceReq (pk_tags p) = None" "t_dscpReq (pk_tags p) = None"
    using s(6,9) by (simp_all add: p sock_packet_def no_tags_def)
  have d: "packet_ok p" "pk_front p = 0" "pk_back p = 0" "pk_kind p = UDP_C_DATA" "dataLength p = ah_chunkLength h" "pk_creation p = now"
    by (simp_all add: p dataLength_app_packet)
  have g: "getOrCreateSocket ?i (ud_sockets s) = Inr (ud_sockets s)" using s(1,2) by (simp add: getOrCreateSocket_def)
  let ?t = "(pk_tags p)\<lparr>t_socketReq := None, t_l3AddressReq := Some \<lparr>lr_src = sd_localAddr sd, lr_dest = L3IPv4 dest,
     lr_nonLocalSrc = False\<rparr>, t_l4PortReq := None\<rparr>"
  have i: "udp_interface_tag (L3IPv4 dest) sd ?t = Inr ?t" using t(4) s(7) by (simp add: udp_interface_tag_def)
  have "sd_tos sd = -1 \<or> sd_dscp sd = -1 \<and> t_dscpReq ?t = None" using s(3) t(5) by simp
  then obtain u where u: "udp_option_tags sd ?t = Inr u" using udp_option_tags_ok by blast
  have tl: "totalLength (p\<lparr>pk_tags := u\<rparr>) = dataLength p" using d(2,3) by (simp add: dataLength_def totalLength_def)
  have ok: "packet_ok (p\<lparr>pk_tags := u\<rparr>)" "8 + int (totalLength (p\<lparr>pk_tags := u\<rparr>)) \<le> UDP_MAX_MESSAGE_SIZE"
    using d(1) len(2) unfolding tl d(5) by (simp_all add: UDP_MAX_MESSAGE_SIZE_def)
  obtain q where q: "udp_encapsulate (ud_crcMode s) (sd_localAddr sd) (L3IPv4 dest) (sd_localPort sd) (ua_destPort a) (p\<lparr>pk_tags := u\<rparr>) = Inr q"
    "pk_data q = header_cells (UdpH (udp_sent_header (ud_crcMode s) (sd_localPort sd) (ua_destPort a) (dataLength p))) @ pk_data p"
    using udp_encapsulate_ok[OF ok(1) s(5) ok(2), of "sd_localAddr sd" "L3IPv4 dest" "sd_localPort sd" "ua_destPort a"] unfolding tl by auto
  have "udp_handleUpperPacket env p s = Inr ([IpOut q], s\<lparr>ud_numSent := ud_numSent s + 1\<rparr>)"
    using d(4) t g s i u q(1) by (simp add: udp_handleUpperPacket_def Let_def udp_transmit_def)
  then show ?thesis using q(2) udp_encapsulate_creation[OF q(1)] d(6) by simp
qed

text \<open>The datagram \<open>q\<close> that the module makes of the packet \<open>p\<close>.\<close>

definition datagram_of :: "crc_mode \<Rightarrow> int \<Rightarrow> int \<Rightarrow> packet \<Rightarrow> packet \<Rightarrow> bool" where
  "datagram_of mode sp dp p q \<longleftrightarrow> pk_creation q = pk_creation p \<and>
     pk_data q = header_cells (UdpH (udp_sent_header mode sp dp (dataLength p))) @ pk_data p"

definition to_host :: "udp_app \<Rightarrow> packet \<Rightarrow> bool" where
  "to_host a p \<longleftrightarrow> (\<exists>nm now df h. p = sock_packet (ua_destAddr a) (ua_destPort a) (so_socketId (ua_socket a)) (app_packet nm now df h) \<and>
     0 < ah_chunkLength h \<and> int (ah_chunkLength h) \<le> 65527)"

lemma host_sends_numSent: "host_sends env (s\<lparr>ud_numSent := n\<rparr>) a sd dest = host_sends env s a sd dest"
  by (simp add: host_sends_def)

lemma udp_serve_data:
  assumes "host_sends env s a sd dest" "\<not> list_ex is_request out" "\<forall>p \<in> set (sent_datagrams out). to_host a p"
  shows "\<exists>qs. udp_serve env out s = Inr (map IpOut qs, s\<lparr>ud_numSent := ud_numSent s + int (length (sent_datagrams out))\<rparr>) \<and>
    list_all2 (datagram_of (ud_crcMode s) (sd_localPort sd) (ua_destPort a)) (sent_datagrams out) qs"
  using assms
proof (induction out arbitrary: s)
  case Nil
  then show ?case by simp
next
  case (Cons x out)
  show ?case
  proof (cases "sent_datagrams (x # out) = sent_datagrams out")
    case True
    have x: "udp_serve env (x # out) s = udp_serve env out s"
    proof (cases x)
      case (ToUdp m)
      then show ?thesis using True Cons.prems(2) by (cases m) (auto dest: arg_cong[of _ _ length])
    qed simp_all
    show ?thesis using Cons.IH[OF Cons.prems(1)] Cons.prems(2,3) unfolding x True by simp
  next
    case False
    then obtain p where x: "x = ToUdp (UdpData p)" by (cases x rule: is_request.cases) auto
    obtain nm now df h where p: "p = sock_packet (ua_destAddr a) (ua_destPort a) (so_socketId (ua_socket a)) (app_packet nm now df h)"
      "0 < ah_chunkLength h" "int (ah_chunkLength h) \<le> 65527" using Cons.prems(3) x by (auto simp: to_host_def)
    let ?s = "s\<lparr>ud_numSent := ud_numSent s + 1\<rparr>"
    obtain q where q: "udp_handleUpperPacket env p s = Inr ([IpOut q], ?s)" "pk_creation q = now"
      "pk_data q = header_cells (UdpH (udp_sent_header (ud_crcMode s) (sd_localPort sd) (ua_destPort a) (dataLength p))) @ pk_data p"
      using host_sends_packet[OF Cons.prems(1) p] by blast
    have d: "datagram_of (ud_crcMode s) (sd_localPort sd) (ua_destPort a) p q" using q(2,3) by (simp add: datagram_of_def p(1))
    obtain qs where "udp_serve env out ?s = Inr (map IpOut qs, ?s\<lparr>ud_numSent := ud_numSent ?s + int (length (sent_datagrams out))\<rparr>)"
      "list_all2 (datagram_of (ud_crcMode ?s) (sd_localPort sd) (ua_destPort a)) (sent_datagrams out) qs"
      using Cons.IH[of ?s] Cons.prems x by (auto simp: host_sends_numSent)
    then show ?thesis using q(1) d by (intro exI[of _ "q # qs"]) (simp add: x)
  qed
qed

section \<open>Receiving\<close>

text \<open>
  The datagram \<open>q\<close> with the packet \<open>p\<close> arrives as \<open>r\<close>: the checksum may have been computed on the
  way, and padding of more than 8 bytes may follow (a shorter one is taken for data, see \<open>udp_end_to_end\<close>).
\<close>

definition udp_arrival :: "ipv4_address \<Rightarrow> ipv4_address \<Rightarrow> crc_mode \<Rightarrow> int \<Rightarrow> int \<Rightarrow> packet \<Rightarrow> packet \<Rightarrow> bool" where
  "udp_arrival src dest mode sp dp p r \<longleftrightarrow> packet_ok r \<and> pk_creation r = pk_creation p \<and>
     (\<exists>pad. udp_arrives (L3IPv4 src) (L3IPv4 dest) (udp_sent_header mode sp dp (dataLength p)) p pad r \<and> (pad = [] \<or> 8 < length pad)) \<and>
     t_packetProtocol (pk_tags r) = Some P_udp \<and> t_l3AddressInd (pk_tags r) = Some (L3IPv4 src, L3IPv4 dest) \<and>
     (\<exists>g. t_networkInd (pk_tags r) = Some (P_ipv4, g))"

definition host_receives :: "udp_env \<Rightarrow> udp_state \<Rightarrow> udp_app \<Rightarrow> ipv4_address \<Rightarrow> ipv4_address \<Rightarrow> int \<Rightarrow> int \<Rightarrow> bool" where
  "host_receives env s r src dest sp dp \<longleftrightarrow> ue_upChannel env = None \<and> \<not> ip_isMulticast dest \<and> \<not> ip_isLimitedBroadcast dest \<and>
     0 \<le> sp \<and> sp \<le> 65535 \<and> 0 < dp \<and> dp \<le> 65535 \<and>
     (\<exists>rd. findSocketForUnicastPacket (L3IPv4 dest) dp (L3IPv4 src) sp (ud_sockets s) = Some rd \<and> sd_sockId rd = so_socketId (ua_socket r))"

lemma handle_data_socket:
  assumes "udpApp_handleMessage env (FromSocket ind (DataInd p)) a = Inr (out, b)"
  shows "ua_socket b = ua_socket a"
proof -
  obtain calls where c: "sock_processMessage ind (DataInd p) (ua_socket a) = Inr (calls, ua_socket a)" "calls = [] \<or> calls = [DataArrived p]"
    using assms by (auto simp: udpApp_handleMessage_def sock_processMessage_def bindE_eq_Inr split: if_splits)
  have "ua_socket b = ua_socket a" if "udpApp_processPacket now p a = Inr (out, b)" for now
    using that by (auto simp: udpApp_processPacket_def Let_def bindE_eq_Inr split: if_splits option.splits)
  then show ?thesis using assms c by (auto simp: udpApp_handleMessage_def Let_def)
qed

lemma udp_deliver_one:
  assumes "t_socketInd (pk_tags p) = Some (so_socketId (ua_socket a))"
  shows "udp_deliver env [UdpAppOut p] a = udpApp_handleMessage env (FromSocket (Some (so_socketId (ua_socket a))) (DataInd p)) a"
  using assms by (auto simp: belongsToSocket_def then_do_def bindE_def split: sum.split)

lemma udp_host_receive_eq:
  assumes "host_receives env s r src dest sp dp" "mode \<in> {CRC_DISABLED, CRC_DECLARED_CORRECT, CRC_COMPUTED}"
    and "list_all2 (\<lambda>p x. 0 < dataLength p \<and> udp_arrival src dest mode sp dp p (fst x)) ps rs"
  shows "\<exists>as. length as = length rs \<and> map snd as = map snd rs \<and>
    (\<forall>k < length rs. pk_data (fst (as ! k)) = pk_data (ps ! k) \<and> pk_creation (fst (as ! k)) = pk_creation (ps ! k)) \<and>
    udp_host_receive env aenv rs s r
      = bindE (udpApp_receive_all aenv as r) (\<lambda>(out, r). Inr (out, s\<lparr>ud_numPassedUp := ud_numPassedUp s + int (length rs)\<rparr>, r))"
  using assms(3,1)
proof (induction arbitrary: s r rule: list_all2_induct)
  case Nil
  then show ?case by simp
next
  case (Cons p ps x rs)
  obtain q t where x: "x = (q, t)" by (cases x)
  obtain rd where h: "ue_upChannel env = None" "\<not> ip_isMulticast dest" "\<not> ip_isLimitedBroadcast dest" "0 \<le> sp" "sp \<le> 65535" "0 < dp" "dp \<le> 65535"
    "findSocketForUnicastPacket (L3IPv4 dest) dp (L3IPv4 src) sp (ud_sockets s) = Some rd" "sd_sockId rd = so_socketId (ua_socket r)"
    using Cons.prems by (auto simp: host_receives_def)
  obtain pad g where a: "0 < dataLength p" "packet_ok q" "pk_creation q = pk_creation p" "udp_arrives (L3IPv4 src) (L3IPv4 dest) (udp_sent_header mode sp dp (dataLength p)) p pad q"
    "pad = [] \<or> 8 < length pad" "t_packetProtocol (pk_tags q) = Some P_udp" "t_l3AddressInd (pk_tags q) = Some (L3IPv4 src, L3IPv4 dest)"
    "t_networkInd (pk_tags q) = Some (P_ipv4, g)" using Cons.hyps(1) x by (auto simp: udp_arrival_def)
  let ?s = "s\<lparr>ud_numPassedUp := ud_numPassedUp s + 1\<rparr>"
  obtain u where u: "udp_handleLowerPacket env True True True q s = Inr ([UdpAppOut u], ?s)"
    "pk_data u = pk_data p" "t_socketInd (pk_tags u) = Some (so_socketId (ua_socket r))" "pk_creation u = pk_creation p"
    using udp_arrived_up[where icmpOk = True, OF refl assms(2) a(1) h(4,5) _ h(7) a(2,6-8,4) h(2,3,1,8)] h(6,9) a(3,5) by auto
  let ?first = "udpApp_handleMessage (aenv\<lparr>va_now := t\<rparr>) (FromSocket (Some (so_socketId (ua_socket r))) (DataInd u)) r"
  have step: "udp_host_receive env aenv (x # rs) s r = bindE ?first (\<lambda>(o1, r). bindE (udp_host_receive env aenv rs ?s r) (\<lambda>(o2, s, r). Inr (o1 @ o2, s, r)))"
    by (simp add: x u(1) udp_deliver_one[OF u(3)] del: udp_deliver.simps)
  have next_host: "host_receives env ?s r' src dest sp dp" if "ua_socket r' = ua_socket r" for r'
    using Cons.prems that by (simp add: host_receives_def)
  show ?case
  proof (cases ?first)
    case (Inl e)
    obtain as where as: "length as = length rs" "map snd as = map snd rs"
      "\<forall>k < length rs. pk_data (fst (as ! k)) = pk_data (ps ! k) \<and> pk_creation (fst (as ! k)) = pk_creation (ps ! k)"
      using Cons.IH[OF next_host[OF refl]] by blast
    show ?thesis unfolding step Inl using as u(2,4) x Inl
      by (intro exI[of _ "(u, t) # as"]) (auto simp: then_do_def nth_Cons' less_Suc_eq_0_disj)
  next
    case (Inr ob)
    obtain o1 r' where ob: "ob = (o1, r')" by (cases ob)
    have "ua_socket r' = ua_socket r" using handle_data_socket Inr unfolding ob .
    from Cons.IH[OF next_host[OF this]]
    obtain as where as: "length as = length rs" "map snd as = map snd rs"
      "\<forall>k < length rs. pk_data (fst (as ! k)) = pk_data (ps ! k) \<and> pk_creation (fst (as ! k)) = pk_creation (ps ! k)"
      "udp_host_receive env aenv rs ?s r' = bindE (udpApp_receive_all aenv as r') (\<lambda>(out, r). Inr (out, ?s\<lparr>ud_numPassedUp := ud_numPassedUp ?s + int (length rs)\<rparr>, r))"
      by blast
    have "udp_host_receive env aenv (x # rs) s r = bindE (udpApp_receive_all aenv ((u, t) # as) r)
        (\<lambda>(out, r). Inr (out, s\<lparr>ud_numPassedUp := ud_numPassedUp s + int (length (x # rs))\<rparr>, r))"
      unfolding step Inr ob by (simp add: as(4) Inr ob then_do_def bindE_def add.assoc split: sum.split)
    moreover have "\<forall>k < length (x # rs). pk_data (fst (((u, t) # as) ! k)) = pk_data ((p # ps) ! k) \<and>
        pk_creation (fst (((u, t) # as) ! k)) = pk_creation ((p # ps) ! k)"
      using as(3) u(2,4) by (auto simp: nth_Cons split: nat.split)
    ultimately show ?thesis using as(1,2) x by (intro exI[of _ "(u, t) # as"]) simp
  qed
qed

section \<open>Properties\<close>

lemma sent_header_length:
  assumes "udp_sender_ready env a F N" "j < frag_count F N"
  shows "0 < ah_chunkLength (sent_header env a F N j) \<and> ah_chunkLength (sent_header env a F N j) \<le> F"
proof -
  have "0 < F" "0 < N" "next_length env a = int N" using assms(1) by (simp_all add: udp_sender_ready_def)
  then show ?thesis using assms(2) frag_count_less[of F j N] by (simp add: sent_header_def app_fragment_header_def)
qed

lemma all_pieces_length: "all_pieces F N js \<Longrightarrow> length js = frag_count F N"
  using distinct_card[of js] by (simp add: all_pieces_def)

lemma shuffled_arrivals:
  assumes "all_pieces F N js" "length msgs = frag_count F N" "\<forall>p \<in> set msgs. pk_creation p = t" "length as = length js"
    and "\<forall>k < length js. pk_data (fst (as ! k)) = pk_data (msgs ! (js ! k)) \<and> pk_creation (fst (as ! k)) = pk_creation (msgs ! (js ! k))"
  shows "shuffled F N msgs t js as"
proof -
  have "msgs ! (js ! k) \<in> set msgs" if "k < length js" for k
    using nth_mem[OF that] assms(1,2) by (simp add: all_pieces_def)
  then show ?thesis using assms by (simp add: shuffled_def)
qed

lemma arrivals_reported:
  assumes send: "udp_sender_ready env a F N" "N < 2 ^ 32" "length (sent_datagrams out) = frag_count F N"
      "\<forall>j < frag_count F N. \<exists>nm. sent_datagrams out ! j = sent_packet env a F N j nm"
    and rcv: "udp_receiver_ready r" "map_of (ua_fragbuf r) (app_key (next_id env a)) = None" "host_receives uenv s r src dest sp dp"
    and mode: "mode \<in> {CRC_DISABLED, CRC_DECLARED_CORRECT, CRC_COMPUTED}"
    and js: "all_pieces F N js" and arr: "list_all2 (\<lambda>j x. udp_arrival src dest mode sp dp (sent_datagrams out ! j) (fst x)) js rs"
  shows "\<exists>x r'. udp_host_receive uenv aenv rs s r = Inr ([MsgReceived x], s\<lparr>ud_numPassedUp := ud_numPassedUp s + int (frag_count F N)\<rparr>, r') \<and>
    reported F N (sent_datagrams out) (snd (last rs) - va_now env) r x r'"
proof -
  have len: "length js = frag_count F N" "length rs = frag_count F N" using all_pieces_length[OF js] list_all2_lengthD[OF arr] by simp_all
  have sent: "pk_creation (sent_datagrams out ! j) = va_now env" "pk_data (sent_datagrams out ! j) = header_cells (AppH (sent_header env a F N j))"
    "0 < dataLength (sent_datagrams out ! j)" if "j < frag_count F N" for j using send(4) sent_header_length[OF send(1)] that by fastforce+
  have "j < frag_count F N" if "j \<in> set js" for j using that js by (simp add: all_pieces_def)
  then have "list_all2 (\<lambda>p x. 0 < dataLength p \<and> udp_arrival src dest mode sp dp p (fst x)) (map ((!) (sent_datagrams out)) js) rs"
    using arr sent(3) unfolding list_all2_map1 by (auto simp: list_all2_conv_all_nth)
  from udp_host_receive_eq[OF rcv(3) mode this, of aenv]
  obtain as where as: "length as = length rs" "map snd as = map snd rs"
    "\<forall>k < length rs. pk_data (fst (as ! k)) = pk_data (map ((!) (sent_datagrams out)) js ! k) \<and>
       pk_creation (fst (as ! k)) = pk_creation (map ((!) (sent_datagrams out)) js ! k)"
    "udp_host_receive uenv aenv rs s r
      = bindE (udpApp_receive_all aenv as r) (\<lambda>(out, r). Inr (out, s\<lparr>ud_numPassedUp := ud_numPassedUp s + int (length rs)\<rparr>, r))"
    by blast
  have created: "\<forall>p \<in> set (sent_datagrams out). pk_creation p = va_now env" using sent(1) send(3) by (auto simp: in_set_conv_nth)
  have sh: "shuffled F N (sent_datagrams out) (va_now env) js as"
    by (rule shuffled_arrivals[OF js send(3) created]) (use as(1,3) len in simp_all)
  have "rs \<noteq> []" using all_pieces_nonempty[OF js] send(1) len by (auto simp: udp_sender_ready_def)
  then have last: "snd (last as) = snd (last rs)" using as(1,2) by (metis last_map length_0_conv)
  have "\<forall>j < frag_count F N. pk_data (sent_datagrams out ! j) = header_cells (AppH (sent_header env a F N j))" using sent(2) by blast
  from udp_app_reception[OF send(1-3) this rcv(1,2) sh, of aenv] show ?thesis unfolding as(4) len(2) last by auto
qed

text \<open>C5: A message goes from one UDP application to another. The sender hands the pieces to its UDP module,
  which emits one datagram for each, with the ports of the socket and of the destination; in whatever order the
  datagrams arrive, with the checksum as sent or as computed on the way, the receiving
  application reports exactly one packet, with the last arrival, and counts it with its
  latency. A short message arrives as it was sent; what is reported for a fragmented one is all the fragments
  behind a header too many, so it is longer than the message.\<close>

theorem udp_app_end_to_end:
  assumes send: "udp_sender_ready env a F N" "F \<le> 65527" "N < 2 ^ 32" "host_sends uenv s a sd dest"
    and rcv: "udp_receiver_ready r" "map_of (ua_fragbuf r) (app_key (next_id env a)) = None"
      "host_receives uenv' s' r src dest (sd_localPort sd) (ua_destPort a)"
  shows "\<exists>out b qs. udpApp_sendPacket env a = Inr (out, b) \<and> ua_numSent b = ua_numSent a + 1 \<and>
    udp_serve uenv out s = Inr (map IpOut qs, s\<lparr>ud_numSent := ud_numSent s + int (frag_count F N)\<rparr>) \<and>
    length (sent_datagrams out) = frag_count F N \<and> (\<forall>p \<in> set (sent_datagrams out). pk_creation p = va_now env) \<and>
    list_all2 (datagram_of (ud_crcMode s) (sd_localPort sd) (ua_destPort a)) (sent_datagrams out) qs \<and>
    (\<forall>js rs aenv. all_pieces F N js \<and>
        list_all2 (\<lambda>j x. udp_arrival src dest (ud_crcMode s) (sd_localPort sd) (ua_destPort a) (sent_datagrams out ! j) (fst x)) js rs \<longrightarrow>
      (\<exists>x r'. udp_host_receive uenv' aenv rs s' r
          = Inr ([MsgReceived x], s'\<lparr>ud_numPassedUp := ud_numPassedUp s' + int (frag_count F N)\<rparr>, r') \<and>
        reported F N (sent_datagrams out) (snd (last rs) - va_now env) r x r'))"
proof -
  obtain out b where o: "udpApp_sendPacket env a = Inr (out, b)" "ua_numSent b = ua_numSent a + 1" "\<not> list_ex is_request out"
    "length (sent_datagrams out) = frag_count F N" "\<forall>j < frag_count F N. \<exists>nm. sent_datagrams out ! j = sent_packet env a F N j nm"
    using udp_sender_packets[OF send(1)] by blast
  have "to_host a p \<and> pk_creation p = va_now env" if mem: "p \<in> set (sent_datagrams out)" for p
  proof -
    obtain j where j: "j < frag_count F N" "p = sent_datagrams out ! j" using mem o(4) by (auto simp: in_set_conv_nth)
    then obtain nm where p: "p = sent_packet env a F N j nm" using o(5) by blast
    have "0 < ah_chunkLength (sent_header env a F N j)" "int (ah_chunkLength (sent_header env a F N j)) \<le> 65527"
      using sent_header_length[OF send(1) j(1)] send(2) by simp_all
    then have "to_host a p" unfolding to_host_def p sent_packet_def by blast
    then show ?thesis by (simp add: p)
  qed
  then have p: "\<forall>p \<in> set (sent_datagrams out). to_host a p" "\<forall>p \<in> set (sent_datagrams out). pk_creation p = va_now env" by blast+
  obtain qs where qs: "udp_serve uenv out s = Inr (map IpOut qs, s\<lparr>ud_numSent := ud_numSent s + int (frag_count F N)\<rparr>)"
    "list_all2 (datagram_of (ud_crcMode s) (sd_localPort sd) (ua_destPort a)) (sent_datagrams out) qs"
    using udp_serve_data[OF send(4) o(3) p(1)] unfolding o(4) by blast
  have mode: "ud_crcMode s \<in> {CRC_DISABLED, CRC_DECLARED_CORRECT, CRC_COMPUTED}" using send(4) by (simp add: host_sends_def)
  note rep = arrivals_reported[OF send(1,3) o(4,5) rcv mode]
  show ?thesis by (intro exI[of _ out] exI[of _ b] exI[of _ qs] conjI o(1,2,4) p(2) qs allI impI) (elim conjE, rule rep)
qed

text \<open>A message of three bytes in two fragments, whose last byte arrives first.\<close>

definition example_udp_host :: udp_state where
  "example_udp_host = (udp_init CRC_DECLARED_CORRECT)\<lparr>ud_sockets := \<lparr>us_byId = [(5, (new_sock_desc 5)\<lparr>sd_isBound := True, sd_localPort := 1000\<rparr>)],
     us_byPort = [(1000, [5])], us_lastEphemeralPort = 1024\<rparr>\<rparr>"

definition example_udp_peer :: udp_app where
  "example_udp_peer = (example_udp_app True)\<lparr>ua_socket := (ua_socket (example_udp_app True))\<lparr>so_socketId := 7\<rparr>\<rparr>"

definition as_arrived :: "packet \<Rightarrow> packet" where
  "as_arrived q = (new_packet ''in'' 0)\<lparr>pk_content := pk_data q, pk_tags := no_tags\<lparr>t_packetProtocol := Some P_udp,
     t_l3AddressInd := Some (L3IPv4 0x0A000001, L3IPv4 0x0A000002), t_networkInd := Some (P_ipv4, None)\<rparr>\<rparr>"

lemma as_arrived_arrival:
  "datagram_of mode sp dp p q \<Longrightarrow> pk_creation p = 0 \<Longrightarrow> udp_arrival 0x0A000001 0x0A000002 mode sp dp p (as_arrived q)"
  by (auto simp: udp_arrival_def as_arrived_def new_packet_def packet_ok_def datagram_of_def udp_arrives_def pk_data_alt)

theorem udp_app_end_to_end_witness:
  "\<exists>out b qs x r'. udpApp_sendPacket (example_udp_env 3 0) (example_udp_app False) = Inr (out, b) \<and>
    udp_serve udp_example_env out example_udp_host = Inr (map IpOut qs, example_udp_host\<lparr>ud_numSent := 2\<rparr>) \<and>
    udp_host_receive udp_example_env (example_udp_env 3 0) [(as_arrived (qs ! 1), 4), (as_arrived (qs ! 0), 5)]
        ((udp_init CRC_COMPUTED)\<lparr>ud_sockets := udp_example_receiver\<rparr>) example_udp_peer
      = Inr ([MsgReceived x], (udp_init CRC_COMPUTED)\<lparr>ud_sockets := udp_example_receiver, ud_numPassedUp := 2\<rparr>, r') \<and>
    ua_numReceived r' = 1 \<and> ua_latencyPackets r' = [5] \<and> 3 < dataLength x"
proof -
  let ?env = "example_udp_env 3 0" and ?a = "example_udp_app False" and ?r = "example_udp_peer"
  let ?sd = "(new_sock_desc 5)\<lparr>sd_isBound := True, sd_localPort := 1000\<rparr>" and ?s' = "(udp_init CRC_COMPUTED)\<lparr>ud_sockets := udp_example_receiver\<rparr>"
  let ?rd = "(new_sock_desc 7)\<lparr>sd_isBound := True, sd_onlyLocalPortIsSet := True, sd_localPort := 2000\<rparr>"
  have fc: "frag_count 2 3 = 2" by code_simp
  have m: "\<not> ip_isMulticast 0x0A000002" "\<not> ip_isLimitedBroadcast 0x0A000002" "\<not> ip_isUnspecified 0x0A000002" by code_simp+
  have rd: "findSocketForUnicastPacket (L3IPv4 0x0A000002) 2000 (L3IPv4 0x0A000001) 1000 udp_example_receiver = Some ?rd"
    by (simp add: findSocketForUnicastPacket_def port_sockets_def socketsByPort_def udp_example_receiver_def List.map_filter_def
        unicast_matches_def new_sock_desc_def)
  have ready: "udp_sender_ready ?env ?a 2 3" "udp_receiver_ready ?r" "map_of (ua_fragbuf ?r) (app_key (next_id ?env ?a)) = None"
    by (simp_all add: udp_sender_ready_def udp_receiver_ready_def example_udp_env_def example_udp_app_def example_udp_peer_def next_length_def map_ok_def)
  have hs: "host_sends udp_example_env example_udp_host ?a ?sd 0x0A000002"
    using m by (simp add: host_sends_def example_udp_app_def example_udp_host_def udp_example_env_def new_sock_desc_def udp_init_def)
  have hr: "host_receives udp_example_env ?s' ?r 0x0A000001 0x0A000002 (sd_localPort ?sd) (ua_destPort ?a)"
    using m rd by (simp add: host_receives_def example_udp_app_def example_udp_peer_def udp_example_env_def new_sock_desc_def)
  obtain out b qs where o: "udpApp_sendPacket ?env ?a = Inr (out, b)"
    "udp_serve udp_example_env out example_udp_host = Inr (map IpOut qs, example_udp_host\<lparr>ud_numSent := ud_numSent example_udp_host + int (frag_count 2 3)\<rparr>)"
    "length (sent_datagrams out) = frag_count 2 3" "\<forall>p \<in> set (sent_datagrams out). pk_creation p = va_now ?env"
    "list_all2 (datagram_of (ud_crcMode example_udp_host) (sd_localPort ?sd) (ua_destPort ?a)) (sent_datagrams out) qs"
    and get: "\<forall>js rs aenv. all_pieces 2 3 js \<and> list_all2 (\<lambda>j x. udp_arrival 0x0A000001 0x0A000002 (ud_crcMode example_udp_host) (sd_localPort ?sd) (ua_destPort ?a)
          (sent_datagrams out ! j) (fst x)) js rs \<longrightarrow>
      (\<exists>x r'. udp_host_receive udp_example_env aenv rs ?s' ?r = Inr ([MsgReceived x], ?s'\<lparr>ud_numPassedUp := ud_numPassedUp ?s' + int (frag_count 2 3)\<rparr>, r') \<and>
        reported 2 3 (sent_datagrams out) (snd (last rs) - va_now ?env) ?r x r')"
    using udp_app_end_to_end[OF ready(1) _ _ hs ready(2,3) hr] by auto
  have pieces: "all_pieces 2 3 [1, 0]" unfolding all_pieces_def fc by (auto simp: less_Suc_eq)
  have len: "length (sent_datagrams out) = 2" "length qs = 2" using o(3) list_all2_lengthD[OF o(5)] fc by simp_all
  have "udp_arrival 0x0A000001 0x0A000002 (ud_crcMode example_udp_host) (sd_localPort ?sd) (ua_destPort ?a) (sent_datagrams out ! j) (as_arrived (qs ! j))"
    if "j < 2" for j
    by (rule as_arrived_arrival) (use that o(4) list_all2_nthD[OF o(5)] len in \<open>simp_all add: example_udp_env_def\<close>)
  then have "list_all2 (\<lambda>j x. udp_arrival 0x0A000001 0x0A000002 (ud_crcMode example_udp_host) (sd_localPort ?sd) (ua_destPort ?a)
      (sent_datagrams out ! j) (fst x)) [1, 0] [(as_arrived (qs ! 1), 4), (as_arrived (qs ! 0), 5)]" by simp
  from get[rule_format, OF conjI[OF pieces this], of ?env]
  obtain x r' where x: "udp_host_receive udp_example_env ?env [(as_arrived (qs ! 1), 4), (as_arrived (qs ! 0), 5)] ?s' ?r
      = Inr ([MsgReceived x], ?s'\<lparr>ud_numPassedUp := ud_numPassedUp ?s' + int (frag_count 2 3)\<rparr>, r')"
    "reported 2 3 (sent_datagrams out) (5 - va_now ?env) ?r x r'" by auto
  have "ua_numReceived r' = 1 \<and> ua_latencyPackets r' = [5] \<and> 3 < dataLength x"
    using x(2) by (auto simp: reported_def example_udp_peer_def example_udp_app_def example_udp_env_def)
  then show ?thesis using o(1,2) x(1) fc by (auto simp: udp_init_def example_udp_host_def)
qed

end
