(* ===== verification/Ipv4_Invariant.thy ===== *)
theory Ipv4_Invariant
  imports Ipv4_Input
begin

text \<open>
  The reachable states of the IPv4 module: a step is the handling of a message, a signal, a
  call by a hook or a stop. Their invariant says that the routing table is sorted and its
  cache agrees with it, that a socket is stored under its own id, that no address waits for
  ARP with an empty queue, and that the maps of sockets, waiting packets and reassembly
  buffers have no key twice.
\<close>

section \<open>The invariant\<close>

definition ip_inv :: "((int \<times> socket_descriptor) list \<Rightarrow> bool) \<Rightarrow> ipv4_state \<Rightarrow> bool" where
  "ip_inv P s \<longleftrightarrow> rt_ok (is_rt s) \<and> P (is_sockets s) \<and>
     map_ok (is_pending s) \<and> (\<forall>e \<in> set (is_pending s). snd e \<noteq> []) \<and>
     map_ok (is_fragbuf s)"

lemma ip_inv_update [simp]:
  "ip_inv P (s\<lparr>is_out := x1\<rparr>) = ip_inv P s" "ip_inv P (s\<lparr>is_isRdma := x2\<rparr>) = ip_inv P s" "ip_inv P (s\<lparr>is_curFragmentId := x3\<rparr>) = ip_inv P s"
  "ip_inv P (s\<lparr>is_lastCheckTime := x4\<rparr>) = ip_inv P s" "ip_inv P (s\<lparr>is_numMulticast := x5\<rparr>) = ip_inv P s" "ip_inv P (s\<lparr>is_numLocalDeliver := x5\<rparr>) = ip_inv P s"
  "ip_inv P (s\<lparr>is_numDropped := x5\<rparr>) = ip_inv P s" "ip_inv P (s\<lparr>is_numUnroutable := x5\<rparr>) = ip_inv P s" "ip_inv P (s\<lparr>is_numForwarded := x5\<rparr>) = ip_inv P s"
  "ip_inv P (s\<lparr>is_latencyReception := x4\<rparr>) = ip_inv P s" "ip_inv P (s\<lparr>is_timer := x2\<rparr>) = ip_inv P s" "ip_inv P (s\<lparr>is_offset := x5\<rparr>) = ip_inv P s"
  "ip_inv P (s\<lparr>is_mtu := x5\<rparr>) = ip_inv P s" "ip_inv P (s\<lparr>is_headerLength := x5\<rparr>) = ip_inv P s" "ip_inv P (s\<lparr>is_payloadLength := x5\<rparr>) = ip_inv P s"
  "ip_inv P (s\<lparr>is_fragmentLength := x5\<rparr>) = ip_inv P s" "ip_inv P (s\<lparr>is_offsetBase := x5\<rparr>) = ip_inv P s" "ip_inv P (s\<lparr>is_noOfFragments := x5\<rparr>) = ip_inv P s"
  "ip_inv P (s\<lparr>is_fragMsgName := x6\<rparr>) = ip_inv P s" "ip_inv P (s\<lparr>is_header := x7\<rparr>) = ip_inv P s" "ip_inv P (s\<lparr>is_packet := x8\<rparr>) = ip_inv P s"
  "ip_inv P (s\<lparr>is_current := x8\<rparr>) = ip_inv P s" "ip_inv P (s\<lparr>is_packetToUpper := x8\<rparr>) = ip_inv P s" "ip_inv P (s\<lparr>is_queue := x9\<rparr>) = ip_inv P s"
  "ip_inv P (s\<lparr>is_queueToUpper := x9\<rparr>) = ip_inv P s" "ip_inv P (s\<lparr>is_hookQueue := x10\<rparr>) = ip_inv P s"
  by (simp_all add: ip_inv_def)

lemma ip_inv_outputs [simp]:
  "ip_inv P (emit_out o1 s) = ip_inv P s" "ip_inv P (sendIcmpError p i ty c s) = ip_inv P s" "ip_inv P (set_current sh p s) = ip_inv P s"
  "ip_inv P (ip_drop r p s) = ip_inv P s" "ip_inv P (ip_unroutable r p s) = ip_inv P s"
  by (simp_all add: emit_out_def sendIcmpError_def set_current_def ip_drop_def ip_unroutable_def)

lemma ip_inv_rt: "ip_inv P s \<Longrightarrow> rt_ok t \<Longrightarrow> ip_inv P (s\<lparr>is_rt := t\<rparr>)"
  by (simp add: ip_inv_def)

lemma ip_inv_emit [simp]: "ip_inv P (fold (\<lambda>x. emit_out (f x)) xs s) = ip_inv P s"
  by (simp add: fold_emit)

section \<open>Sending\<close>

lemma inv_sendPacketToNIC:
  assumes "ip_sendPacketToNIC env p s = Inr s'" "ip_inv P s"
  shows "ip_inv P s'"
proof -
  obtain q where "s' = emit_out q s \<or> s' = (emit_out q s)\<lparr>is_timer := True\<rparr>"
    using assms(1) unfolding ip_sendPacketToNIC_def Let_def by (cases "reqInterface env p") (simp_all split: if_splits, blast+)
  then show ?thesis using assms(2) by (elim disjE) simp_all
qed

lemma set_map_insert_sub: "set (map_insert k v m) \<subseteq> insert (k, v) (set m)"
  by (induction m) (auto split: if_splits)

lemma ip_inv_pend:
  assumes "ip_inv P s" "q \<noteq> []"
  shows "ip_inv P (s\<lparr>is_pending := map_insert a q (is_pending s)\<rparr>)"
  using assms set_map_insert_sub[of a q "is_pending s"] by (auto simp: ip_inv_def map_ok_insert)

lemma in_map_erase: "e \<in> set (map_erase a m) \<longleftrightarrow> e \<in> set m \<and> fst e \<noteq> a"
  by (auto simp: map_erase_def)

lemma ip_inv_unpend: "ip_inv P s \<Longrightarrow> ip_inv P (s\<lparr>is_pending := map_erase a (is_pending s')\<rparr>)" if "is_pending s' = is_pending s"
  using that by (auto simp: ip_inv_def map_ok_erase in_map_erase)

lemma inv_sendDatagramToOutput: "ip_sendDatagramToOutput env p s = Inr s' \<Longrightarrow> ip_inv P s \<Longrightarrow> ip_inv P s'"
  by (auto simp: ip_sendDatagramToOutput_def bindE_eq_Inr Let_def intro: inv_sendPacketToNIC ip_inv_pend split: if_splits)

lemma inv_fragment_loop: "ip_fragment_loop env p h s = Inr s' \<Longrightarrow> ip_inv P s \<Longrightarrow> ip_inv P s'"
proof (induction env p h s rule: ip_fragment_loop.induct)
  case (1 env p h s)
  show ?case
    using 1(2,3) 1(1) inv_sendDatagramToOutput
    by (subst (asm) ip_fragment_loop.simps) (fastforce split: if_splits sum.splits)
qed

lemma inv_fragmentAndSend:
  assumes "ip_fragmentAndSend env shared p s = Inr s'" "ip_inv P s"
  shows "ip_inv P s'"
proof -
  obtain p1 s1 ie h where s1: "ip_udp_latency (en_now env) p s = Inr (p1, s1)" "reqInterface env p1 = Inr ie" "peekAtFront as_ipv4 p1 = Inr h"
    using assms(1) by (auto simp: ip_fragmentAndSend_def bindE_eq_Inr)
  have i1: "ip_inv P s1" using s1(1) assms(2) by (auto simp: ip_udp_latency_def bindE_eq_Inr split: if_splits option.splits)
  let ?p = "ip_with_nextHop h p1"
  have whole: "ip_send_whole env shared ?p s2 = Inr s' \<Longrightarrow> ip_inv P s2 \<Longrightarrow> ip_inv P s'" for s2
    by (auto simp: ip_send_whole_def bindE_eq_Inr split: if_splits dest!: inv_sendDatagramToOutput)
  have start: "ip_start_fragments ?p h m s2 = Inr s3 \<Longrightarrow> ip_inv P s2 \<Longrightarrow> ip_inv P s3" for m s2 s3
    by (auto simp: ip_start_fragments_def Let_def split: if_splits)
  have one: "ip_send_fragment env ?p h s2 = Inr s' \<Longrightarrow> ip_inv P s2 \<Longrightarrow> ip_inv P s'" for s2
    by (auto simp: ip_send_fragment_def bindE_eq_Inr dest!: inv_sendDatagramToOutput)
  show ?thesis
    using assms(1) i1 unfolding ip_fragmentAndSend_def s1 bindE_simps prod.case Let_def ip_with_nextHop_def[symmetric]
    by (auto simp: bindE_eq_Inr intro: whole one inv_fragment_loop split: if_splits dest!: start)
qed

lemma inv_next_from_queue: "ip_next_from_queue env s = Inr s' \<Longrightarrow> ip_inv P s \<Longrightarrow> ip_inv P s'"
  by (auto simp: ip_next_from_queue_def split: list.splits intro: inv_fragmentAndSend)

lemma inv_hook: "run_datagramHook ty env p s = Inr (x, s') \<Longrightarrow> ip_inv P s \<Longrightarrow> ip_inv P s'"
  by (auto simp: run_datagramHook_def bindE_eq_Inr) (case_tac a; auto)

lemmas hook_defs = datagramPreRoutingHook_def datagramForwardHook_def datagramPostRoutingHook_def datagramLocalInHook_def
  datagramLocalOutHook_def

lemma inv_fragmentPostRouting:
  assumes "ip_fragmentPostRouting env p s = Inr s'" "ip_inv P s"
  shows "ip_inv P s'"
proof -
  obtain p1 acc s1 where h: "datagramPostRoutingHook env p1 s = Inr (acc, s1)"
    and rest: "(case acc of None \<Rightarrow> Inr s1 | Some p \<Rightarrow> (let s = s1\<lparr>is_queue := is_queue s1 @ [p]\<rparr> in
              if is_packet s = None then ip_next_from_queue env s else Inr s)) = Inr s'"
    using assms(1) unfolding ip_fragmentPostRouting_def bindE_eq_Inr by (auto split: prod.splits)
  have "ip_inv P s1" using inv_hook h assms(2) unfolding hook_defs by blast
  then show ?thesis using rest by (auto simp: Let_def split: option.splits if_splits intro: inv_next_from_queue)
qed

lemma inv_handleEndTxPeriod:
  assumes "ip_handleEndTxPeriod env s = Inr s'" "ip_inv P s"
  shows "ip_inv P s'"
proof -
  let ?s = "s\<lparr>is_timer := False\<rparr>"
  have "(\<exists>p. ip_fragmentAndSend env True p ?s = Inr s') \<or>
      ip_next_from_queue env (?s\<lparr>is_offset := 0, is_packet := None, is_current := None\<rparr>) = Inr s'"
    using assms(1) unfolding ip_handleEndTxPeriod_def Let_def bindE_eq_Inr by (auto split: if_splits option.splits)
  then show ?thesis using inv_fragmentAndSend inv_next_from_queue assms(2) by (elim disjE exE) (simp, blast?)+
qed

section \<open>Receiving\<close>

lemma inv_deliverFinish:
  assumes "ip_reassembleAndDeliverFinish env p s = Inr s'" "ip_inv P s"
  shows "ip_inv P s'"
  using assms by (auto simp: ip_reassembleAndDeliverFinish_def bindE_eq_Inr Let_def split: if_splits)

lemma inv_queueToUpper:
  assumes "ip_queueToUpperLayer env p s = Inr s'" "ip_inv P s"
  shows "ip_inv P s'"
proof (cases "en_upperBusy env")
  case True
  then show ?thesis using assms by (auto simp: ip_queueToUpperLayer_def)
next
  case False
  show ?thesis
  proof (cases "is_queueToUpper s")
    case Nil
    then obtain acc s1 where h: "run_datagramHook LOCALIN env p s = Inr (acc, s1)"
      "(case acc of Some q \<Rightarrow> ip_reassembleAndDeliverFinish env q (s1\<lparr>is_packetToUpper := Some q\<rparr>)
         | None \<Rightarrow> Inr (s1\<lparr>is_packetToUpper := Some p\<rparr>)) = Inr s'"
      using assms(1) False unfolding ip_queueToUpperLayer_def hook_defs by (auto simp: bindE_eq_Inr)
    then show ?thesis using inv_hook[OF h(1) assms(2)] by (auto split: option.splits dest: inv_deliverFinish)
  next
    case (Cons q qs)
    then obtain r p1 where "run_hooks (en_hooks env) LOCALIN p = Inr (r, p1)"
      "(case r of ACCEPT \<Rightarrow> ip_reassembleAndDeliverFinish env q (s\<lparr>is_queueToUpper := qs @ [p1], is_packetToUpper := Some q\<rparr>)
         | DROP \<Rightarrow> Inl (RuntimeError ''Object is currently in queue, it cannot be deleted'')
         | QUEUE \<Rightarrow> Inl (RuntimeError ''Model error: netfilter hook changed the owner of queued datagram'')
         | STOLEN \<Rightarrow> Inr (s\<lparr>is_queueToUpper := qs @ [p1], is_packetToUpper := Some q\<rparr>)) = Inr s'"
      using assms(1) False unfolding ip_queueToUpperLayer_def by (auto simp: bindE_eq_Inr Let_def)
    then show ?thesis using assms(2) by (cases r) (auto dest: inv_deliverFinish)
  qed
qed

lemma purge_map_ok: "map_ok bufs \<Longrightarrow> map_ok (snd (purgeStaleFragments t bufs))"
proof -
  have sub: "set (snd (purgeStaleFragments t bufs)) \<subseteq> set bufs" for t and bufs :: "('a::linorder \<times> datagram_buffer) list"
    by (induction t bufs rule: purgeStaleFragments.induct) (auto split: prod.splits option.splits if_splits)
  show "map_ok bufs \<Longrightarrow> map_ok (snd (purgeStaleFragments t bufs))"
  proof (induction t bufs rule: purgeStaleFragments.induct)
    case (2 t key buf bufs)
    have "\<forall>e \<in> set (snd (purgeStaleFragments t bufs)). key < fst e" using sub[of t bufs] 2(2) by (auto simp: map_ok_Cons)
    then show ?case using 2 by (auto simp: map_ok_Cons split: prod.splits option.splits)
  qed simp
qed

lemma addFragment_map_ok:
  "addFragment_with as wrap info finish marker p now bufs = Inr (x, bufs') \<Longrightarrow> map_ok bufs \<Longrightarrow> map_ok bufs'"
  unfolding addFragment_with_def by (auto simp: bindE_eq_Inr Let_def map_ok_insert map_ok_erase split: if_splits)

lemma ip_inv_fragbuf: "ip_inv P s \<Longrightarrow> map_ok b \<Longrightarrow> ip_inv P (s\<lparr>is_fragbuf := b\<rparr>)"
  by (simp add: ip_inv_def)

lemma inv_purgeStale: "ip_inv P s \<Longrightarrow> ip_inv P (ip_purgeStale env s)"
  using purge_map_ok[of "is_fragbuf s" "en_now env - en_fragmentTimeout env"]
  by (auto simp: ip_purgeStale_def ip_inv_def fold_emit split: prod.splits)

lemma inv_reassembleAndDeliver:
  assumes "ip_reassembleAndDeliver env p s = Inr s'" "ip_inv P s"
  shows "ip_inv P s'"
proof -
  have complete: "ip_completed env q s1 = Inr s' \<Longrightarrow> ip_inv P s1 \<Longrightarrow> ip_inv P s'" for q s1
    by (auto simp: ip_completed_def bindE_eq_Inr dest: inv_queueToUpper)
  obtain h where h: "peekAtFront as_ipv4 p = Inr h" using assms(1) by (auto simp: ip_reassembleAndDeliver_def bindE_eq_Inr)
  show ?thesis
  proof (cases "ih_fragmentOffset h \<noteq> 0 \<or> ih_moreFragments h")
    case True
    let ?s = "ip_purgeStale env s"
    obtain x bufs where x: "ipv4_addFragment p (en_now env) (is_fragbuf ?s) = Inr (x, bufs)"
      "(case x of None \<Rightarrow> Inr (?s\<lparr>is_fragbuf := bufs\<rparr>) | Some q \<Rightarrow> ip_completed env q (?s\<lparr>is_fragbuf := bufs\<rparr>)) = Inr s'"
      using assms(1) h True by (auto simp: ip_reassembleAndDeliver_def bindE_eq_Inr Let_def)
    have "map_ok bufs" using addFragment_map_ok[OF x(1)[unfolded ipv4_addFragment_def]] inv_purgeStale[OF assms(2)]
      by (auto simp: ip_inv_def)
    then have "ip_inv P (?s\<lparr>is_fragbuf := bufs\<rparr>)" using ip_inv_fragbuf inv_purgeStale[OF assms(2)] by blast
    then show ?thesis using x(2) by (auto split: option.splits dest: complete)
  next
    case False
    then show ?thesis using assms h by (auto simp: ip_reassembleAndDeliver_def dest: inv_queueToUpper)
  qed
qed

lemma inv_handleEndUpperTxPeriod: "ip_handleEndUpperTxPeriod env s = Inr s' \<Longrightarrow> ip_inv P s \<Longrightarrow> ip_inv P s'"
  by (auto simp: ip_handleEndUpperTxPeriod_def split: list.splits dest: inv_deliverFinish)

section \<open>Routing\<close>

lemma inv_routeUnicastFinish: "ip_routeUnicastPacketFinish env p s = Inr s' \<Longrightarrow> ip_inv P s \<Longrightarrow> ip_inv P s'"
  by (auto simp: ip_routeUnicastPacketFinish_def dest: inv_fragmentPostRouting)

lemma unicastRoute_rt_ok:
  assumes "ip_unicastRoute env destIE d p t = Inr (x, q, t')" "rt_ok t"
  shows "rt_ok t'"
proof -
  obtain y t1 where f: "findBestMatchingRoute d t = (y, t1)" by fastforce
  then have "rt_ok t1" by (rule findBestMatchingRoute_scan(2)[OF assms(2)])
  then show ?thesis using assms f by (auto simp: ip_unicastRoute_def split: option.splits if_splits)
qed

lemma inv_routeUnicastPacket:
  assumes "ip_routeUnicastPacket env p s = Inr s'" "ip_inv P s"
  shows "ip_inv P s'"
proof -
  obtain fromIE destIE h x q t where r: "ip_getSourceInterface env p = Inr fromIE" "ip_getDestInterface env p = Inr destIE"
    "peekAtFront as_ipv4 p = Inr h" "ip_unicastRoute env destIE (ih_destAddress h) p (is_rt s) = Inr (x, q, t)"
    using assms(1) by (auto simp: ip_routeUnicastPacket_def bindE_eq_Inr)
  have "rt_ok t" using unicastRoute_rt_ok[OF r(4)] assms(2) by (simp add: ip_inv_def)
  then have i: "ip_inv P (s\<lparr>is_rt := t\<rparr>)" using assms(2) ip_inv_rt by blast
  show ?thesis
  proof (cases x)
    case None
    then show ?thesis using assms(1) i unfolding ip_routeUnicastPacket_def r bindE_simps by (auto simp: Let_def)
  next
    case (Some j)
    show ?thesis
    proof (cases "fromIE = None")
      case True
      then show ?thesis using assms(1) i Some unfolding ip_routeUnicastPacket_def r bindE_simps
        by (auto simp: Let_def dest: inv_routeUnicastFinish)
    next
      case False
      then obtain acc s1 where h: "datagramForwardHook env q (s\<lparr>is_rt := t\<rparr>) = Inr (acc, s1)"
        "(case acc of None \<Rightarrow> Inr s1 | Some p \<Rightarrow> ip_routeUnicastPacketFinish env p s1) = Inr s'"
        using assms(1) Some unfolding ip_routeUnicastPacket_def r bindE_simps by (auto simp: Let_def bindE_eq_Inr)
      have "ip_inv P s1" using inv_hook h(1) i unfolding hook_defs by blast
      then show ?thesis using h(2) by (auto split: option.splits dest: inv_routeUnicastFinish)
    qed
  qed
qed

lemma inv_broadcast_copies: "ip_broadcast_copies env p ies s = Inr s' \<Longrightarrow> ip_inv P s \<Longrightarrow> ip_inv P s'"
  by (induction ies arbitrary: s) (auto simp: bindE_eq_Inr dest: inv_fragmentPostRouting)

lemma inv_routeLocalBroadcast:
  assumes "ip_routeLocalBroadcastPacket env p s = Inr s'" "ip_inv P s"
  shows "ip_inv P s'"
  using assms by (auto simp: ip_routeLocalBroadcastPacket_def bindE_eq_Inr split: option.splits if_splits
      dest: inv_fragmentPostRouting inv_broadcast_copies)

lemma inv_multicast_copies: "ip_multicast_copies env p h i outs s = Inr s' \<Longrightarrow> ip_inv P s \<Longrightarrow> ip_inv P s'"
  by (induction env p h i outs s rule: ip_multicast_copies.induct)
     (auto simp: bindE_eq_Inr split: if_splits dest: inv_fragmentPostRouting)

text \<open>A listener of the multicast signal changes the table by its operations only.\<close>

definition ip_env_ok :: "ip_env \<Rightarrow> bool" where
  "ip_env_ok env \<longleftrightarrow> (\<forall>h t. rt_ok t \<longrightarrow> rt_ok (en_newMulticast env h t))"

lemma inv_forwardMulticast:
  assumes "ip_forwardMulticastPacket env p s = Inr s'" "ip_inv P s" "ip_env_ok env"
  shows "ip_inv P s'"
proof -
  obtain i fromIE h where h: "getTag (t_interfaceInd (pk_tags p)) = Inr i" "getInterfaceById (en_ift env) i = Inr fromIE"
    "peekAtFront as_ipv4 p = Inr h" "ip_isMulticast (ih_destAddress h)" "\<not> ip_isLinkLocalMulticast (ih_destAddress h)"
    using assms(1) by (auto simp: ip_forwardMulticastPacket_def bindE_eq_Inr)
  obtain x t where f: "ip_findMulticastRoute env h (is_rt s) = (x, t)" by fastforce
  have t: "rt_ok t" using f assms(2,3) by (auto simp: ip_findMulticastRoute_def ip_inv_def ip_env_ok_def Let_def split: option.splits)
  show ?thesis
  proof (cases x)
    case None
    have "ip_inv P (s\<lparr>is_numMulticast := n, is_rt := t\<rparr>)" for n using assms(2) t by (simp add: ip_inv_rt)
    then show ?thesis using assms(1) h f None
      by (auto simp: ip_forwardMulticastPacket_def assertE_def Let_def)
  next
    case (Some route)
    obtain e t1 where e: "(case mr_in route of Some i \<Rightarrow> (Some i, t) | None \<Rightarrow> ip_getShortestPathInterfaceToSource h t) = (e, t1)"
      by fastforce
    obtain y t2 where y: "findBestMatchingRoute (ih_srcAddress h) t = (y, t2)" by fastforce
    have "rt_ok t1" using e t findBestMatchingRoute_scan(2)[OF t y] y
      by (auto simp: ip_getShortestPathInterfaceToSource_def getInterfaceForDestAddr_def split: option.splits)
    then have "ip_inv P (s\<lparr>is_numMulticast := n, is_rt := t1\<rparr>)" for n using assms(2) by (auto intro: ip_inv_rt)
    then show ?thesis using assms(1) h f e Some
      by (auto simp: ip_forwardMulticastPacket_def assertE_def Let_def split: if_splits dest!: inv_multicast_copies)
  qed
qed

lemma inv_preroutingFinish:
  assumes "ip_preroutingFinish env p s = Inr s'" "ip_inv P s" "ip_env_ok env"
  shows "ip_inv P s'"
proof -
  obtain i fromIE h where h: "getTag (t_interfaceInd (pk_tags p)) = Inr i" "getInterfaceById (en_ift env) i = Inr fromIE"
    "peekAtFront as_ipv4 p = Inr h"
    using assms(1) by (auto simp: ip_preroutingFinish_def bindE_eq_Inr)
  have multi: "ip_preroute_multicast env fromIE h p s = Inr s' \<Longrightarrow> ip_inv P s'"
    using assms(2,3) by (auto simp: ip_preroute_multicast_def bindE_eq_Inr split: if_splits
        dest: inv_reassembleAndDeliver inv_forwardMulticast)
  have direct: "ip_direct_broadcast env fromIE b p s = Inr s1 \<Longrightarrow> ip_inv P s1" for b s1
    using assms(2) by (auto simp: ip_direct_broadcast_def bindE_eq_Inr split: option.splits if_splits dest: inv_fragmentPostRouting)
  have uni: "ip_preroute_unicast env fromIE h p s = Inr s' \<Longrightarrow> ip_inv P s'"
    using assms(2) by (auto simp: ip_preroute_unicast_def bindE_eq_Inr Let_def split: if_splits
        dest: inv_reassembleAndDeliver inv_routeUnicastPacket dest!: direct)
  show ?thesis using assms(1,2) multi uni unfolding ip_preroutingFinish_def h bindE_simps
    by (auto split: if_splits dest: inv_reassembleAndDeliver)
qed

lemma inv_handleIncomingDatagram:
  assumes "ip_handleIncomingDatagram env r p s = Inr s'" "ip_inv P s" "ip_env_ok env"
  shows "ip_inv P s'"
proof -
  have finish: "datagramPreRoutingHook env q s = Inr (acc, s1) \<Longrightarrow>
      (case acc of None \<Rightarrow> Inr s1 | Some p \<Rightarrow> ip_preroutingFinish env p s1) = Inr s' \<Longrightarrow> ip_inv P s'" for q acc s1
    using assms(2,3) inv_hook unfolding hook_defs by (fastforce split: option.splits dest: inv_preroutingFinish)
  show ?thesis using assms(1,2)
    by (auto simp: ip_handleIncomingDatagram_def bindE_eq_Inr Let_def split: if_splits dest: finish)
qed

section \<open>From the upper layer\<close>

lemma multicastInterface_rt_ok:
  assumes "ip_multicastInterface env h opt t = Inr (x, t')" "rt_ok t"
  shows "rt_ok t'"
proof -
  obtain y t1 where f: "findBestMatchingRoute (ih_destAddress h) t = (y, t1)" by fastforce
  have "t' = t \<or> t' = t1"
    using assms(1) by (auto simp: ip_multicastInterface_def f Let_def bindE_eq_Inr split: option.splits)
  then show ?thesis using findBestMatchingRoute_scan(2)[OF assms(2) f] assms(2) by blast
qed

lemma inv_datagramLocalOut:
  assumes "ip_datagramLocalOut env p s = Inr s'" "ip_inv P s"
  shows "ip_inv P s'"
proof -
  obtain destIE h where h: "ip_getDestInterface env p = Inr destIE" "peekAtFront as_ipv4 p = Inr h"
    using assms(1) by (auto simp: ip_datagramLocalOut_def bindE_eq_Inr)
  have multi: "ip_inv P s'" if m: "ip_localOut_multicast env destIE lp h p s = Inr s'" for lp
  proof -
    obtain x t where x: "ip_multicastInterface env h destIE (is_rt s) = Inr (x, t)"
      using m by (auto simp: ip_localOut_multicast_def bindE_eq_Inr)
    have i: "ip_inv P (s\<lparr>is_rt := t\<rparr>)"
      using multicastInterface_rt_ok[OF x] assms(2) by (auto intro: ip_inv_rt simp: ip_inv_def)
    then show ?thesis using m unfolding ip_localOut_multicast_def x bindE_simps
      by (auto simp: Let_def bindE_eq_Inr split: if_splits option.splits dest!: inv_fragmentPostRouting)
  qed
  have local: "ip_localOut_local env destIE h p s = Inr s' \<Longrightarrow> ip_inv P s'"
    using assms(2) by (auto simp: ip_localOut_local_def bindE_eq_Inr Let_def split: prod.splits dest: inv_routeUnicastPacket)
  have bc: "rt_ok (snd (isLocalBroadcastAddress ift a t)) = rt_ok t" for ift a t
    by (simp add: isLocalBroadcastAddress_def Let_def rt_ok_def)
  obtain b t where b: "(if ip_isLimitedBroadcast (ih_destAddress h) then (True, is_rt s)
      else isLocalBroadcastAddress (en_ift env) (ih_destAddress h) (is_rt s)) = (b, t)" by fastforce
  have "rt_ok t" using b assms(2) bc[of "en_ift env" "ih_destAddress h" "is_rt s"] by (auto simp: ip_inv_def split: if_splits)
  then have "ip_inv P (s\<lparr>is_rt := t\<rparr>)" using assms(2) by (auto intro: ip_inv_rt)
  then show ?thesis using assms(1) multi local unfolding ip_datagramLocalOut_def h bindE_simps Let_def b
    by (auto split: if_splits dest: inv_routeLocalBroadcast inv_routeUnicastPacket)
qed

lemma inv_handlePacketFromHL:
  assumes "ip_handlePacketFromHL env p s = Inr s'" "ip_inv P s"
  shows "ip_inv P s'"
proof (cases "en_ift env = []")
  case True
  then show ?thesis using assms by (auto simp: ip_handlePacketFromHL_def)
next
  case False
  then obtain q s1 acc s2 where q: "ip_encapsulate env p s = Inr (q, s1)" "datagramLocalOutHook env q s1 = Inr (acc, s2)"
    "(case acc of None \<Rightarrow> Inr s2 | Some p \<Rightarrow> ip_datagramLocalOut env p s2) = Inr s'"
    using assms(1) by (auto simp: ip_handlePacketFromHL_def bindE_eq_Inr)
  have "ip_inv P s1" using q(1) assms(2) by (auto simp: ip_encapsulate_def bindE_eq_Inr Let_def split: if_splits)
  then have "ip_inv P s2" using inv_hook q(2) unfolding hook_defs by blast
  then show ?thesis using q(3) by (auto split: option.splits dest: inv_datagramLocalOut)
qed

section \<open>Commands, signals, hooks\<close>

definition sockets_ok :: "(int \<times> socket_descriptor) list \<Rightarrow> bool" where
  "sockets_ok m \<longleftrightarrow> map_ok m \<and> (\<forall>e \<in> set m. sd_socketId (snd e) = fst e)"

lemma inv_handleRequest:
  assumes "ip_handleRequest ctrl i s = Inr s'" "ip_inv sockets_ok s"
  shows "ip_inv sockets_ok s'"
proof -
  have ins: "sd_socketId sd = k \<Longrightarrow> ip_inv sockets_ok (s\<lparr>is_sockets := map_insert k sd (is_sockets s)\<rparr>)" for k sd
    using assms(2) set_map_insert_sub[of k sd "is_sockets s"] by (auto simp: sockets_ok_def ip_inv_def map_ok_insert)
  have del: "ip_inv sockets_ok (s\<lparr>is_sockets := map_erase k (is_sockets s)\<rparr>)" for k
    using assms(2) by (auto simp: sockets_ok_def ip_inv_def map_ok_erase in_map_erase)
  have key: "map_of (is_sockets s) k = Some sd \<Longrightarrow> sd_socketId sd = k" for k sd
    using assms(2) map_of_SomeD[of "is_sockets s" k sd] by (auto simp: sockets_ok_def ip_inv_def)
  obtain c where c: "ctrl = Some c" using assms(1) by (cases ctrl) (auto simp: ip_handleRequest_def)
  show ?thesis
    using assms del unfolding c
    by (cases c) (auto simp: ip_handleRequest_def bindE_eq_Inr key split: option.splits if_splits intro!: ins)
qed

lemma inv_send_waiting: "send_waiting env ie mac ps s = Inr s' \<Longrightarrow> ip_inv P s \<Longrightarrow> ip_inv P s'"
  by (induction ps arbitrary: s) (auto simp: bindE_eq_Inr dest: inv_sendPacketToNIC)

lemma ip_inv_erase: "ip_inv P s \<Longrightarrow> ip_inv P (s\<lparr>is_pending := map_erase a (is_pending s)\<rparr>)"
  by (rule ip_inv_unpend) simp_all

lemma inv_receiveSignal:
  assumes "ip_receiveSignal env sig s = Inr s'" "ip_inv P s"
  shows "ip_inv P s'"
proof (cases sig)
  case (ArpResolutionCompleted a ie mac)
  then show ?thesis using assms
    by (cases a) (auto simp: ip_receiveSignal_def ip_arpResolutionCompleted_def bindE_eq_Inr split: option.splits
        intro: ip_inv_erase inv_send_waiting)
next
  case (ArpResolutionFailed a)
  have "ip_inv P (s\<lparr>is_out := x, is_pending := map_erase y (is_pending s)\<rparr>)" for x y
    using ip_inv_erase[of P "s\<lparr>is_out := x\<rparr>" y] assms(2) by simp
  then show ?thesis using ArpResolutionFailed assms
    by (cases a) (auto simp: ip_receiveSignal_def ip_arpResolutionTimedOut_def fold_emit split: option.splits)
qed (use assms in \<open>simp add: ip_receiveSignal_def\<close>)

lemma inv_reinject:
  assumes "ip_reinjectQueuedDatagram env i s = Inr s'" "ip_inv P s" "ip_env_ok env"
  shows "ip_inv P s'"
proof (cases "i < length (is_hookQueue s)")
  case True
  obtain p ty where p: "is_hookQueue s ! i = (p, ty)" by fastforce
  then obtain s1 where s1: "(case ty of LOCALOUT \<Rightarrow> ip_datagramLocalOut env p s | PREROUTING \<Rightarrow> ip_preroutingFinish env p s
      | POSTROUTING \<Rightarrow> ip_fragmentAndSend env False p s | LOCALIN \<Rightarrow> ip_reassembleAndDeliverFinish env p s
      | FORWARD \<Rightarrow> ip_routeUnicastPacketFinish env p s) = Inr s1" "s' = ip_erase_queued i s1"
    using assms(1) True by (auto simp: ip_reinjectQueuedDatagram_def bindE_eq_Inr)
  have "ip_inv P s1" using s1(1) assms(2,3)
    by (cases ty) (auto dest: inv_datagramLocalOut inv_preroutingFinish inv_fragmentAndSend inv_deliverFinish inv_routeUnicastFinish)
  then show ?thesis using s1(2) by (simp add: ip_erase_queued_def)
qed (use assms in \<open>simp add: ip_reinjectQueuedDatagram_def\<close>)

lemma inv_handleMessage:
  assumes "ip_handleMessageWhenUp env m s = Inr s'" "\<And>c i. m \<noteq> IpRequest c i" "ip_inv P s" "ip_env_ok env"
  shows "ip_inv P s'"
  using assms by (cases m) (auto simp: ip_handleMessageWhenUp_def bindE_eq_Inr split: if_splits
      dest: inv_handleEndTxPeriod inv_handleEndUpperTxPeriod inv_handlePacketFromHL inv_handleIncomingDatagram)

lemma inv_message:
  assumes "ip_handleMessageWhenUp env m s = Inr s'" "ip_inv sockets_ok s" "ip_env_ok env"
  shows "ip_inv sockets_ok s'"
proof (cases "\<exists>c i. m = IpRequest c i")
  case True
  then show ?thesis using assms inv_handleRequest by (auto simp: ip_handleMessageWhenUp_def)
qed (use assms inv_handleMessage in blast)

lemma inv_stop: "ip_inv sockets_ok s \<Longrightarrow> ip_inv sockets_ok (ip_stop s)"
  by (simp add: sockets_ok_def ip_inv_def ip_stop_def ip_flush_def flush_def map_ok_def)

section \<open>Reachable states\<close>

inductive ip_step :: "ipv4_state \<Rightarrow> ipv4_state \<Rightarrow> bool" where
  step_message: "ip_env_ok env \<Longrightarrow> ip_handleMessageWhenUp env m s = Inr s' \<Longrightarrow> ip_step s s'"
| step_signal: "ip_receiveSignal env sig s = Inr s' \<Longrightarrow> ip_step s s'"
| step_reinject: "ip_env_ok env \<Longrightarrow> ip_reinjectQueuedDatagram env i s = Inr s' \<Longrightarrow> ip_step s s'"
| step_dropQueued: "ip_step s (ip_dropQueuedDatagram i s)"
| step_stop: "ip_step s (ip_stop s)"
| step_routes: "rt_step (is_rt s) t \<Longrightarrow> ip_step s (s\<lparr>is_rt := t\<rparr>)"

lemma inv_step: "ip_step s s' \<Longrightarrow> ip_inv sockets_ok s \<Longrightarrow> ip_inv sockets_ok s'"
proof (induction rule: ip_step.induct)
  case (step_dropQueued s i)
  then show ?case by (simp add: ip_dropQueuedDatagram_def ip_erase_queued_def)
next
  case (step_routes s t)
  then show ?case using ip_inv_rt rt_step_ok by (auto simp: sockets_ok_def ip_inv_def)
qed (blast intro: inv_message inv_receiveSignal inv_reinject inv_stop)+

lemma inv_reachable:
  assumes "rt_step\<^sup>*\<^sup>* (new_routing_table f m u) t" "ip_step\<^sup>*\<^sup>* (ipv4_init t) s"
  shows "ip_inv sockets_ok s"
  using assms(2)
proof (induction rule: rtranclp_induct)
  case base
  show ?case using rt_reachable_ok[OF assms(1)] by (simp add: sockets_ok_def ip_inv_def ipv4_init_def map_ok_def)
qed (rule inv_step)

section \<open>Properties\<close>

text \<open>C13: in every state the module can reach, whatever messages, signals, hooks and changes of
  the routing table have come in whatever order, a socket is found under its own id and
  under no other, no address waits for ARP without a packet, no datagram has two
  reassembly buffers, and the lookup in the routing table, with its cache, answers what a
  scan of the routes answers.\<close>

theorem ipv4_reachable:
  assumes "rt_step\<^sup>*\<^sup>* (new_routing_table f m u) t" "ip_step\<^sup>*\<^sup>* (ipv4_init t) s"
  shows "(\<forall>i sd. (i, sd) \<in> set (is_sockets s) \<longleftrightarrow> map_of (is_sockets s) i = Some sd) \<and>
    (\<forall>i sd. map_of (is_sockets s) i = Some sd \<longrightarrow> sd_socketId sd = i) \<and>
    (\<forall>a ps. map_of (is_pending s) a = Some ps \<longrightarrow> ps \<noteq> []) \<and>
    distinct (map fst (is_fragbuf s)) \<and>
    (\<forall>d. fst (findBestMatchingRoute d (is_rt s)) = scan_routes d (rt_routes (is_rt s)))"
proof -
  have inv: "ip_inv sockets_ok s" by (rule inv_reachable[OF assms])
  have "distinct (map fst (is_fragbuf s))"
    using inv strict_sorted_iff[of "map fst (is_fragbuf s)"] by (simp add: sockets_ok_def ip_inv_def map_ok_def)
  moreover have "fst (findBestMatchingRoute d (is_rt s)) = scan_routes d (rt_routes (is_rt s))" for d
    using findBestMatchingRoute_scan(1)[of "is_rt s" d] inv by (metis ip_inv_def prod.collapse)
  ultimately show ?thesis using inv map_of_in_set[of "is_sockets s"] map_of_SomeD
    by (fastforce simp: sockets_ok_def ip_inv_def)
qed

theorem ipv4_reachable_witness:
  "\<exists>s. ip_handleMessageWhenUp (example_env CRC_COMPUTED True 1500) (IpRequest (Some (IpBind P_rdma 0)) (Some 4))
      (ipv4_init (new_routing_table True False False)) = Inr s \<and>
    (\<exists>sd. map_of (is_sockets s) 4 = Some sd \<and> sd_socketId sd = 4)"
proof -
  let ?sd = "\<lparr>sd_socketId = 4, sd_protocol = P_rdma, sd_localAddress = 0, sd_remoteAddress = 0\<rparr>"
  let ?init = "ipv4_init (new_routing_table True False False)"
  obtain s where b: "ip_handleMessageWhenUp (example_env CRC_COMPUTED True 1500) (IpRequest (Some (IpBind P_rdma 0)) (Some 4)) ?init = Inr s"
    "is_sockets s = [(4, ?sd)]"
    by (simp add: ip_handleMessageWhenUp_def ip_handleRequest_def ipv4_init_def)
  have "ip_env_ok (example_env CRC_COMPUTED True 1500)" by (simp add: ip_env_ok_def example_env_def)
  then have "ip_step\<^sup>*\<^sup>* ?init s" using b(1) step_message by blast
  note reach = ipv4_reachable[OF rtranclp.rtrancl_refl this]
  have "map_of (is_sockets s) 4 = Some ?sd" using b(2) by simp
  moreover have "sd_socketId ?sd = 4" using reach calculation by blast
  ultimately show ?thesis using b(1) by blast
qed

end
