(* ===== verification/Ipv4_Sockets.thy ===== *)
theory Ipv4_Sockets
  imports Ipv4_Invariant
begin

text \<open>
  The raw sockets of the IPv4 module: what the history of the commands says that a socket is bound and connected
  to, and that this is who a delivered datagram goes to. Everything else that happens to the module
  (datagrams, timers, signals, hooks, changes of the routing table) leaves the sockets as they are.
\<close>

section \<open>Histories\<close>

text \<open>A command to a socket, or \<open>None\<close> for a stop of the module; the newest is the first.\<close>

type_synonym socket_history = "(int \<times> ip_command) option list"

inductive ip_history :: "routing_table \<Rightarrow> socket_history \<Rightarrow> ipv4_state \<Rightarrow> bool" for t where
  history_init: "ip_history t [] (ipv4_init t)"
| history_command: "ip_history t es s \<Longrightarrow> ip_env_ok env
    \<Longrightarrow> ip_handleMessageWhenUp env (IpRequest (Some c) (Some i)) s = Inr s' \<Longrightarrow> ip_history t (Some (i, c) # es) s'"
| history_stop: "ip_history t es s \<Longrightarrow> ip_history t (None # es) (ip_stop s)"
| history_message: "ip_history t es s \<Longrightarrow> ip_env_ok env \<Longrightarrow> (\<And>c i. m \<noteq> IpRequest c i)
    \<Longrightarrow> ip_handleMessageWhenUp env m s = Inr s' \<Longrightarrow> ip_history t es s'"
| history_signal: "ip_history t es s \<Longrightarrow> ip_receiveSignal env sig s = Inr s' \<Longrightarrow> ip_history t es s'"
| history_reinject: "ip_history t es s \<Longrightarrow> ip_env_ok env \<Longrightarrow> ip_reinjectQueuedDatagram env i s = Inr s' \<Longrightarrow> ip_history t es s'"
| history_dropQueued: "ip_history t es s \<Longrightarrow> ip_history t es (ip_dropQueuedDatagram i s)"
| history_routes: "ip_history t es s \<Longrightarrow> rt_step (is_rt s) r \<Longrightarrow> ip_history t es (s\<lparr>is_rt := r\<rparr>)"

text \<open>What a socket is after a history: its protocol, the address it is bound to and the one it is connected to.\<close>

fun socket_after :: "socket_history \<Rightarrow> int \<Rightarrow> (protocol \<times> ipv4_address \<times> ipv4_address) option" where
  "socket_after [] i = None"
| "socket_after (None # es) i = None"
| "socket_after (Some (j, c) # es) i =
    (if j \<noteq> i then socket_after es i
     else case c of
       IpBind prot a \<Rightarrow> Some (prot, a, 0)
     | IpConnect r \<Rightarrow> map_option (\<lambda>(prot, a, _). (prot, a, r)) (socket_after es i)
     | _ \<Rightarrow> None)"

section \<open>The sockets are what the history says\<close>

definition sockets_of :: "socket_history \<Rightarrow> (int \<times> socket_descriptor) list \<Rightarrow> bool" where
  "sockets_of es m \<longleftrightarrow> map_ok m \<and> (\<forall>i. map_of m i = map_option (\<lambda>(prot, a, r).
     \<lparr>sd_socketId = i, sd_protocol = prot, sd_localAddress = a, sd_remoteAddress = r\<rparr>) (socket_after es i))"

lemma sockets_of_command:
  assumes "ip_handleMessageWhenUp env (IpRequest (Some c) (Some i)) s = Inr s'" "ip_inv (sockets_of es) s"
  shows "ip_inv (sockets_of (Some (i, c) # es)) s'"
proof -
  have m: "map_ok (is_sockets s)" using assms(2) by (simp add: ip_inv_def sockets_of_def)
  show ?thesis using assms m
    by (cases c; cases "socket_after es i")
      (auto simp: ip_handleMessageWhenUp_def ip_handleRequest_def ip_inv_def sockets_of_def map_of_insert map_ok_insert
        map_of_erase map_ok_erase emit_out_def split: option.splits if_splits)
qed

lemma ip_history_sockets:
  assumes "ip_history t es s" "rt_ok t"
  shows "ip_inv (sockets_of es) s"
  using assms(1)
proof (induction rule: ip_history.induct)
  case history_init
  then show ?case using assms(2) by (simp add: ip_inv_def ipv4_init_def sockets_of_def)
next
  case (history_stop es s)
  then show ?case by (simp add: ip_inv_def ip_stop_def ip_flush_def flush_def sockets_of_def map_ok_def)
next
  case (history_dropQueued es s i)
  then show ?case by (simp add: ip_dropQueuedDatagram_def ip_erase_queued_def)
next
  case (history_routes es s r)
  then show ?case using ip_inv_rt rt_step_ok by (auto simp: ip_inv_def)
qed (blast intro: sockets_of_command inv_handleMessage inv_receiveSignal inv_reinject)+

section \<open>Delivery\<close>

text \<open>The sockets that accept a datagram with this header and protocol.\<close>

definition socket_accepts :: "socket_history \<Rightarrow> protocol \<Rightarrow> ipv4_header \<Rightarrow> int \<Rightarrow> bool" where
  "socket_accepts es prot h i \<longleftrightarrow> (\<exists>localAddress remoteAddress. socket_after es i = Some (prot, localAddress, remoteAddress)
     \<and> localAddress \<in> {0, ih_destAddress h} \<and> remoteAddress \<in> {0, ih_srcAddress h})"

lemma receivers_ids:
  assumes "sockets_of es (is_sockets s)"
  shows "\<exists>ids. sorted_wrt (<) ids \<and> (\<forall>i. i \<in> set ids \<longleftrightarrow> socket_accepts es prot h i)
    \<and> map sd_socketId (ip_receivers h prot s) = ids"
proof (intro exI conjI)
  let ?m = "is_sockets s" and ?ok = "socket_matches prot (ih_destAddress h) (ih_srcAddress h)"
  have m: "map_ok ?m" and of: "\<And>i. map_of ?m i = map_option (\<lambda>(prot, a, r).
     \<lparr>sd_socketId = i, sd_protocol = prot, sd_localAddress = a, sd_remoteAddress = r\<rparr>) (socket_after es i)"
    using assms by (simp_all add: sockets_of_def)
  have id: "sd_socketId sd = i" if "(i, sd) \<in> set ?m" for i sd
    using that of[of i] map_of_in_set[OF m, of i sd] by auto
  have eq: "map sd_socketId (ip_receivers h prot s) = map fst (filter (\<lambda>e. ?ok (snd e)) ?m)"
    using id by (auto simp: ip_receivers_def filter_map comp_def)
  show "map sd_socketId (ip_receivers h prot s) = map fst (filter (\<lambda>e. ?ok (snd e)) ?m)" by (rule eq)
  show "sorted_wrt (<) (map fst (filter (\<lambda>e. ?ok (snd e)) ?m))"
    using map_ok_filter[OF m, of "\<lambda>e. ?ok (snd e)"] by (simp add: map_ok_def)
  show "\<forall>i. i \<in> set (map fst (filter (\<lambda>e. ?ok (snd e)) ?m)) \<longleftrightarrow> socket_accepts es prot h i"
  proof
    fix i
    have "i \<in> set (map fst (filter (\<lambda>e. ?ok (snd e)) ?m)) \<longleftrightarrow> (\<exists>sd. map_of ?m i = Some sd \<and> ?ok sd)"
      using map_of_in_set[OF m] by (auto simp: image_iff)
    also have "\<dots> \<longleftrightarrow> socket_accepts es prot h i"
      by (auto simp: of socket_accepts_def socket_matches_def ip_isUnspecified_def)
    finally show "i \<in> set (map fst (filter (\<lambda>e. ?ok (snd e)) ?m)) \<longleftrightarrow> socket_accepts es prot h i" .
  qed
qed

text \<open>C35: after any history of the module, a datagram that is delivered goes, without its header, to
  exactly the sockets that the commands so far have left bound to its protocol and to its destination
  address or any, and connected to its source address or to none, once each and in the order of their ids;
  and to the transport protocol if one is registered. If there is neither, the sender is told with an
  ICMP error that carries the datagram with its header restored. Nothing else is sent.\<close>

theorem ipv4_delivery:
  assumes "rt_step\<^sup>*\<^sup>* (new_routing_table f m u) t" and "ip_history t es s"
    and "packet_ok p" "pk_data p = header_cells (Ipv4H h) @ d" "getProtocol ipprotocol (ih_protocolId h) = Inr prot"
    and "ip_getSourceInterface env p = Inr fromIE"
  shows "\<exists>q s' ids. ip_reassembleAndDeliverFinish env p s = Inr s' \<and> pk_data q = d \<and>
    t_packetProtocol (pk_tags q) = Some prot \<and>
    t_l3AddressInd (pk_tags q) = Some (L3IPv4 (ih_srcAddress h), L3IPv4 (ih_destAddress h)) \<and>
    t_hopLimitInd (pk_tags q) = Some (ih_timeToLive h) \<and>
    sorted_wrt (<) ids \<and> (\<forall>i. i \<in> set ids \<longleftrightarrow> socket_accepts es prot h i) \<and>
    is_out s' = is_out s
      @ map (\<lambda>i. TransportOut (q\<lparr>pk_kind := 0, pk_tags := (pk_tags q)\<lparr>t_socketInd := Some i\<rparr>\<rparr>)) ids
      @ (if prot \<in> set (en_upperProtocols env) then [TransportOut q, RescheduleEndUpper]
         else if ids \<noteq> [] then []
         else [IcmpError (q\<lparr>pk_front := pk_front p\<rparr>) (interface_id fromIE) IcmpDestinationUnreachable 2]) \<and>
    pk_data (q\<lparr>pk_front := pk_front p\<rparr>) = pk_data p"
proof -
  have "sockets_of es (is_sockets s)" using ip_history_sockets[OF assms(2) rt_reachable_ok[OF assms(1)]] by (simp add: ip_inv_def)
  then obtain ids where ids: "sorted_wrt (<) ids" "\<forall>i. i \<in> set ids \<longleftrightarrow> socket_accepts es prot h i"
    "map sd_socketId (ip_receivers h prot s) = ids" using receivers_ids by blast
  let ?q = "decapsulated h prot p"
  have "map (\<lambda>sd. TransportOut (to_socket ?q sd)) (ip_receivers h prot s)
      = map (\<lambda>i. TransportOut (?q\<lparr>pk_kind := 0, pk_tags := (pk_tags ?q)\<lparr>t_socketInd := Some i\<rparr>\<rparr>)) ids"
    by (simp add: ids(3)[symmetric] to_socket_def)
  moreover have "(ids \<noteq> []) = (ip_receivers h prot s \<noteq> [])" using ids(3) by auto
  ultimately show ?thesis
    using ids(1,2) ip_deliver_ok[OF assms(3-6), of s] ip_decapsulate_ok(2)[OF assms(3-5)] assms(4)
    by (intro exI[of _ ?q]) (auto simp: Let_def decapsulated_def pk_data_alt intro!: exI[of _ ids])
qed

text \<open>
  Five sockets: one of TCP, one closed again, one bound to the destination, one bound to any address and connected
  to another host, and one bound to any address and connected to the source of the datagram.
\<close>

definition example_history :: socket_history where
  "example_history = map Some [(8, IpConnect 0x0A000001), (8, IpBind P_udp 0), (7, IpConnect 0x0A000009), (7, IpBind P_udp 0),
     (6, IpClose), (5, IpBind P_udp 0x0A000002), (6, IpBind P_udp 0), (4, IpBind P_tcp 0)]"

lemma example_history_reached: "\<exists>s. ip_history (new_routing_table True False False) example_history s"
proof -
  let ?env = "example_env CRC_DECLARED_CORRECT True 1500" and ?t = "new_routing_table True False False"
  have env: "ip_env_ok ?env" by (simp add: ip_env_ok_def example_env_def)
  have bind: "\<exists>s'. ip_history ?t (Some (i, IpBind prot a) # es) s'" if "\<exists>s. ip_history ?t es s" for i prot a es
    using that history_command[OF _ env, of ?t es _ "IpBind prot a" i] by (auto simp: ip_handleMessageWhenUp_def ip_handleRequest_def)
  have close: "\<exists>s'. ip_history ?t (Some (i, IpClose) # es) s'" if "\<exists>s. ip_history ?t es s" for i es
    using that history_command[OF _ env, of ?t es _ IpClose i] by (auto simp: ip_handleMessageWhenUp_def ip_handleRequest_def)
  have connect: "\<exists>s'. ip_history ?t (Some (i, IpConnect r) # es) s'" if h: "\<exists>s. ip_history ?t es s" and "socket_after es i \<noteq> None" for i r es
  proof -
    obtain s where s: "ip_history ?t es s" using h by blast
    have "rt_ok ?t" by (rule rt_reachable_ok[OF rtranclp.rtrancl_refl])
    then have "map_of (is_sockets s) i \<noteq> None" using ip_history_sockets[OF s] that(2) by (auto simp: ip_inv_def sockets_of_def)
    then show ?thesis using history_command[OF s env, of "IpConnect r" i]
      by (auto simp: ip_handleMessageWhenUp_def ip_handleRequest_def split: option.splits)
  qed
  have "\<exists>s. ip_history ?t [] s" using history_init by blast
  then show ?thesis unfolding example_history_def list.map by (intro connect bind close) simp_all
qed

theorem ipv4_delivery_witness:
  "\<exists>s q s'. ip_history (new_routing_table True False False) example_history s \<and>
    ip_reassembleAndDeliverFinish ((example_env CRC_DECLARED_CORRECT True 1500)\<lparr>en_upperProtocols := []\<rparr>)
      ((example_datagram CRC_DECLARED_CORRECT 3)\<lparr>pk_tags := no_tags\<rparr>) s = Inr s' \<and> pk_data q = replicate 3 (Data 7) \<and>
    is_out s' = is_out s @ map (\<lambda>i. TransportOut (q\<lparr>pk_kind := 0, pk_tags := (pk_tags q)\<lparr>t_socketInd := Some i\<rparr>\<rparr>)) [5, 8]"
proof -
  let ?env = "(example_env CRC_DECLARED_CORRECT True 1500)\<lparr>en_upperProtocols := []\<rparr>"
  let ?p = "(example_datagram CRC_DECLARED_CORRECT 3)\<lparr>pk_tags := no_tags\<rparr>"
  let ?h = "example_ipv4_header\<lparr>ih_crcMode := CRC_DECLARED_CORRECT, ih_totalLength := 20 + int 3\<rparr>"
  obtain s where s: "ip_history (new_routing_table True False False) example_history s" using example_history_reached by blast
  have p: "packet_ok ?p" "pk_data ?p = header_cells (Ipv4H ?h) @ replicate 3 (Data 7)" using example_datagram_simps by simp_all
  have n: "getProtocol ipprotocol (ih_protocolId ?h) = Inr P_udp"
    by (simp add: getProtocol_def findProtocol_def ipprotocol_def example_ipv4_header_def)
  have i: "ip_getSourceInterface ?env ?p = Inr None" by (simp add: ip_getSourceInterface_def no_tags_def)
  obtain q s' ids where q: "ip_reassembleAndDeliverFinish ?env ?p s = Inr s'" "pk_data q = replicate 3 (Data 7)" "sorted_wrt (<) ids"
    "\<forall>i. i \<in> set ids \<longleftrightarrow> socket_accepts example_history P_udp ?h i"
    "is_out s' = is_out s @ map (\<lambda>i. TransportOut (q\<lparr>pk_kind := 0, pk_tags := (pk_tags q)\<lparr>t_socketInd := Some i\<rparr>\<rparr>)) ids
      @ (if P_udp \<in> set (en_upperProtocols ?env) then [TransportOut q, RescheduleEndUpper]
         else if ids \<noteq> [] then []
         else [IcmpError (q\<lparr>pk_front := pk_front ?p\<rparr>) (interface_id None) IcmpDestinationUnreachable 2])"
    using ipv4_delivery[OF rtranclp.rtrancl_refl s p n i] by blast
  have "socket_accepts example_history P_udp ?h i \<longleftrightarrow> i \<in> {5, 8}" for i
    by (auto simp: socket_accepts_def example_history_def example_ipv4_header_def)
  then have "ids = [5, 8]" using q(3,4) by (intro strict_sorted_equal) auto
  then show ?thesis using s q(1,2,5) by (intro exI[of _ s] exI[of _ q] exI[of _ s']) simp
qed

end
