(* ===== verification/Mac_Table.thy ===== *)
theory Mac_Table
  imports Routing_Table
begin

text \<open>
  The forwarding table of an Ethernet switch
  (\<open>linklayer/ethernet/common/MacAddressTable.{h,cc}\<close>): one address table per VLAN, aging,
  purging, flushing and the table file. A purge is lazy (it runs at most once a second, and a
  lookup erases the aged entry it meets); that it is invisible is the refinement of the
  specification \<open>mac_spec\<close>, a map of what was learned and when, out of which nothing is
  ever erased for its age. The refinement is proved once in the locale \<open>timed_refinement\<close>, for an
  implementation whose relation to its specification survives the passing of time.
\<close>

section \<open>The table\<close>

record address_entry =
  ae_vid :: nat
  ae_interfaceId :: int
  ae_insertionTime :: simtime

type_synonym address_table = "(mac_address \<times> address_entry) list"

text \<open>
  \<open>mt_hasAddressTable\<close> says that the pointer \<open>addressTable\<close> is set; it is set to the table of VLAN 0
  when that table is created, and to nothing else.
\<close>

record mac_table =
  mt_agingTime :: simtime
  mt_lastPurge :: simtime
  mt_hasAddressTable :: bool
  mt_vlans :: "(nat \<times> address_table) list"

text \<open>A second, in ticks of the simulation clock at its default resolution of a picosecond.\<close>

definition second :: simtime where
  "second = 10 ^ 12"

definition new_mac_table :: "simtime \<Rightarrow> mac_table" where
  "new_mac_table agingTime = \<lparr>mt_agingTime = agingTime, mt_lastPurge = 0, mt_hasAddressTable = False, mt_vlans = []\<rparr>"

definition getTableForVid :: "nat \<Rightarrow> mac_table \<Rightarrow> address_table option" where
  "getTableForVid vid t =
    (if vid = 0 \<and> \<not> mt_hasAddressTable t then None else map_of (mt_vlans t) vid)"

definition put_table :: "nat \<Rightarrow> address_table \<Rightarrow> mac_table \<Rightarrow> mac_table" where
  "put_table vid tab t = t\<lparr>mt_vlans := map_insert vid tab (mt_vlans t)\<rparr>"

text \<open>\<open>new AddressTable()\<close>, registered under its VLAN and, for VLAN 0, as \<open>addressTable\<close>.\<close>

definition create_table :: "nat \<Rightarrow> mac_table \<Rightarrow> mac_table" where
  "create_table vid t = put_table vid [] (t\<lparr>mt_hasAddressTable := (mt_hasAddressTable t \<or> vid = 0)\<rparr>)"

definition aged :: "simtime \<Rightarrow> simtime \<Rightarrow> address_entry \<Rightarrow> bool" where
  "aged now agingTime e \<longleftrightarrow> ae_insertionTime e + agingTime \<le> now"

definition map_tables :: "(address_table \<Rightarrow> address_table) \<Rightarrow> mac_table \<Rightarrow> mac_table" where
  "map_tables f t = t\<lparr>mt_vlans := map (\<lambda>(v, tab). (v, f tab)) (mt_vlans t)\<rparr>"

section \<open>Lookup, learning, aging\<close>

definition getInterfaceIdForAddress :: "simtime \<Rightarrow> mac_address \<Rightarrow> nat \<Rightarrow> mac_table \<Rightarrow> int \<times> mac_table" where
  "getInterfaceIdForAddress now a vid t =
    (case getTableForVid vid t of
       None \<Rightarrow> (-1, t)
     | Some tab \<Rightarrow>
       (case map_of tab a of
          None \<Rightarrow> (-1, t)
        | Some e \<Rightarrow>
          if aged now (mt_agingTime t) e then (-1, put_table vid (map_erase a tab) t)
          else (ae_interfaceId e, t)))"

definition drop_aged :: "simtime \<Rightarrow> simtime \<Rightarrow> address_table \<Rightarrow> address_table" where
  "drop_aged now agingTime tab = filter (\<lambda>(a, e). \<not> aged now agingTime e) tab"

definition removeAgedEntriesFromVlan :: "simtime \<Rightarrow> nat \<Rightarrow> mac_table \<Rightarrow> mac_table" where
  "removeAgedEntriesFromVlan now vid t =
    (case getTableForVid vid t of
       None \<Rightarrow> t
     | Some tab \<Rightarrow> put_table vid (drop_aged now (mt_agingTime t) tab) t)"

definition removeAgedEntriesFromAllVlans :: "simtime \<Rightarrow> mac_table \<Rightarrow> mac_table" where
  "removeAgedEntriesFromAllVlans now t = map_tables (drop_aged now (mt_agingTime t)) t"

definition removeAgedEntriesIfNeeded :: "simtime \<Rightarrow> mac_table \<Rightarrow> mac_table" where
  "removeAgedEntriesIfNeeded now t =
    (if now \<ge> mt_lastPurge t + second then removeAgedEntriesFromAllVlans now t else t)\<lparr>mt_lastPurge := now\<rparr>"

text \<open>\<open>(*table)[address] = entry\<close> of the table of a VLAN.\<close>

definition set_entry :: "nat \<Rightarrow> mac_address \<Rightarrow> address_entry \<Rightarrow> mac_table \<Rightarrow> mac_table" where
  "set_entry vid a e t =
    (case map_of (mt_vlans t) vid of
       None \<Rightarrow> t
     | Some tab \<Rightarrow> put_table vid (map_insert a e tab) t)"

definition updateTableWithAddress ::
  "simtime \<Rightarrow> int \<Rightarrow> mac_address \<Rightarrow> nat \<Rightarrow> mac_table \<Rightarrow> bool \<times> mac_table" where
  "updateTableWithAddress now interfaceId a vid t =
    (if mac_isMulticast a then (False, t)
     else
       let t' = (if getTableForVid vid t = None then create_table vid t else t)
       in case (case getTableForVid vid t of None \<Rightarrow> None | Some tab \<Rightarrow> map_of tab a) of
            None \<Rightarrow> (False, set_entry vid a \<lparr>ae_vid = vid, ae_interfaceId = interfaceId, ae_insertionTime = now\<rparr>
                             (removeAgedEntriesIfNeeded now t'))
          | Some e \<Rightarrow> (True, set_entry vid a (e\<lparr>ae_insertionTime := now, ae_interfaceId := interfaceId\<rparr>) t'))"

definition flush_interface :: "int \<Rightarrow> mac_table \<Rightarrow> mac_table" where
  "flush_interface interfaceId t = map_tables (filter (\<lambda>(a, e). ae_interfaceId e \<noteq> interfaceId)) t"

definition copyTable :: "int \<Rightarrow> int \<Rightarrow> mac_table \<Rightarrow> mac_table" where
  "copyTable i j t =
    map_tables (map (\<lambda>(a, e). (a, if ae_interfaceId e = i then e\<lparr>ae_interfaceId := j\<rparr> else e))) t"

definition clearTable :: "mac_table \<Rightarrow> mac_table" where
  "clearTable t = t\<lparr>mt_vlans := [], mt_hasAddressTable := False\<rparr>"

definition setAgingTime :: "simtime \<Rightarrow> mac_table \<Rightarrow> mac_table" where
  "setAgingTime agingTime t = t\<lparr>mt_agingTime := agingTime\<rparr>"

definition resetDefaultAging :: "simtime \<Rightarrow> mac_table \<Rightarrow> mac_table" where
  "resetDefaultAging par_agingTime t = t\<lparr>mt_agingTime := par_agingTime\<rparr>"

section \<open>The table file\<close>

text \<open>
  \<open>fgets\<close> reads at most \<open>MAX_LINE - 1\<close> characters, up to and with the newline; the trailing
  line ends are chopped. The file has no NUL bytes.
\<close>

definition fgets :: "nat \<Rightarrow> string \<Rightarrow> string" where
  "fgets n s = take (n - 1) (takeWhile (\<lambda>c. c \<noteq> CHR 0x0A) s @ take 1 (dropWhile (\<lambda>c. c \<noteq> CHR 0x0A) s))"

definition fgetline :: "string \<Rightarrow> (string \<times> string) option" where
  "fgetline s = (if s = [] then None
     else let l = fgets 100 s
          in Some (rev (dropWhile (\<lambda>c. c = CHR 0x0A \<or> c = CHR 0x0D) (rev l)), drop (length l) s))"

definition strtok :: "string \<Rightarrow> (string \<times> string) option" where
  "strtok s =
    (let delim = (\<lambda>c. c = CHR '' '' \<or> c = CHR 0x09); s = dropWhile delim s
     in if s = [] then None
        else Some (takeWhile (\<lambda>c. \<not> delim c) s, drop 1 (dropWhile (\<lambda>c. \<not> delim c) s)))"

definition is_digit :: "char \<Rightarrow> bool" where
  "is_digit c \<longleftrightarrow> 48 \<le> (of_char c :: nat) \<and> (of_char c :: nat) \<le> 57"

definition digits_value :: "string \<Rightarrow> int" where
  "digits_value ds = foldl (\<lambda>v c. 10 * v + (int (of_char c) - 48)) 0 ds"

text \<open>\<open>strtol\<close> in base 10 on a token: the value, cut to a \<open>long\<close>, and what is left.\<close>

definition strtol :: "string \<Rightarrow> int \<times> string" where
  "strtol s =
    (let sgn = (s \<noteq> [] \<and> (hd s = CHR ''-'' \<or> hd s = CHR ''+''));
         body = (if sgn then tl s else s);
         ds = takeWhile is_digit body;
         v = (if sgn \<and> hd s = CHR ''-'' then - digits_value ds else digits_value ds)
     in if ds = [] then (0, s)
        else (max (- (2 ^ 63)) (min (2 ^ 63 - 1) v), drop (length ds) body))"

definition findInterfaceByName :: "network_interface list \<Rightarrow> string \<Rightarrow> network_interface option" where
  "findInterfaceByName ift name = find (\<lambda>ie. ie_name ie = name) ift"

text \<open>
  One line of the file: nothing for a comment or an empty line, otherwise its VLAN, address
  and interface. \<open>resolve\<close> stands for \<open>L3AddressResolver::tryResolve\<close> with \<open>ADDR_MAC\<close>.
\<close>

definition parse_table_line ::
  "(string \<Rightarrow> mac_address option) \<Rightarrow> network_interface list \<Rightarrow> string \<Rightarrow> (nat \<times> mac_address \<times> int) option res" where
  "parse_table_line resolve ift line =
    (if take 1 line = ''#'' then Inr None
     else case strtok line of
       None \<Rightarrow> Inr None
     | Some (vlanIdStr, rest) \<Rightarrow>
       if take 1 vlanIdStr = ''#'' then Inr None
       else case strtok rest of
         None \<Rightarrow> Inl (RuntimeError ''line invalid in address table file'')
       | Some (macAddressStr, rest) \<Rightarrow>
         (case strtok rest of
            None \<Rightarrow> Inl (RuntimeError ''line invalid in address table file'')
          | Some (interfaceName, _) \<Rightarrow>
            let (vlanId, vrest) = strtol vlanIdStr
            in if vrest \<noteq> [] then Inl (RuntimeError ''VLAN ID unresolved'')
               else case resolve macAddressStr of
                 None \<Rightarrow> Inl (RuntimeError ''MAC address unresolved'')
               | Some a \<Rightarrow>
                 let (num, nrest) = strtol interfaceName;
                     ie = (case findInterfaceByName ift interfaceName of
                             Some ie \<Rightarrow> Some ie
                           | None \<Rightarrow> if nrest = [] then findInterfaceById ift num else None)
                 in (case ie of
                       None \<Rightarrow> Inl (RuntimeError ''interface not found'')
                     | Some ie \<Rightarrow> Inr (Some (nat (vlanId mod 2 ^ 32), a, ie_id ie)))))"

lemma fgets_nonempty: "s \<noteq> [] \<Longrightarrow> 1 < n \<Longrightarrow> fgets n s \<noteq> []"
  by (cases s) (auto simp: fgets_def)

function parse_table :: "(string \<Rightarrow> mac_address option) \<Rightarrow> network_interface list \<Rightarrow> string
    \<Rightarrow> (nat \<times> mac_address \<times> int) list res" where
  "parse_table resolve ift s =
    (case fgetline s of
       None \<Rightarrow> Inr []
     | Some (line, rest) \<Rightarrow>
       bindE (parse_table_line resolve ift line) (\<lambda>e.
         bindE (parse_table resolve ift rest) (\<lambda>es.
           Inr (case e of None \<Rightarrow> es | Some e \<Rightarrow> e # es))))"
  by pat_completeness auto
termination
proof (relation "measure (\<lambda>(resolve, ift, s). length s)")
  fix resolve :: "string \<Rightarrow> mac_address option" and ift s x line rest e
  assume "fgetline s = Some x" "(line, rest) = x"
  then have "s \<noteq> []" "rest = drop (length (fgets 100 s)) s"
    by (auto simp: fgetline_def Let_def split: if_splits)
  moreover from this have "fgets 100 s \<noteq> []" by (intro fgets_nonempty) simp_all
  ultimately show "((resolve, ift, rest), resolve, ift, s) \<in> measure (\<lambda>(resolve, ift, s). length s)"
    by (cases s) simp_all
qed simp

declare parse_table.simps [simp del]

text \<open>An entry of the file is as old as the simulation.\<close>

definition add_file_entry :: "nat \<times> mac_address \<times> int \<Rightarrow> mac_table \<Rightarrow> mac_table" where
  "add_file_entry e t = (case e of (vid, a, i) \<Rightarrow>
     set_entry vid a \<lparr>ae_vid = vid, ae_interfaceId = i, ae_insertionTime = 0\<rparr>
       (if getTableForVid vid t = None then create_table vid t else t))"

definition readAddressTable ::
  "(string \<Rightarrow> mac_address option) \<Rightarrow> network_interface list \<Rightarrow> string option \<Rightarrow> mac_table \<Rightarrow> mac_table res" where
  "readAddressTable resolve ift file t = (case file of
      None \<Rightarrow> Inl (RuntimeError ''cannot open address table file'')
    | Some s \<Rightarrow> bindE (parse_table resolve ift s) (\<lambda>es. Inr (fold add_file_entry es t)))"

text \<open>\<open>fs\<close> stands for the file system.\<close>

definition initializeTable ::
  "(string \<Rightarrow> mac_address option) \<Rightarrow> network_interface list \<Rightarrow> (string \<Rightarrow> string option) \<Rightarrow> string \<Rightarrow> mac_table \<Rightarrow> mac_table res" where
  "initializeTable resolve ift fs addressTableFile t =
    (if addressTableFile \<noteq> [] then readAddressTable resolve ift (fs addressTableFile) (clearTable t)
     else Inr (clearTable t))"

section \<open>The table as a map of entries\<close>

definition mt_ok :: "mac_table \<Rightarrow> bool" where
  "mt_ok t \<longleftrightarrow> map_ok (mt_vlans t) \<and> (\<forall>(v, tab) \<in> set (mt_vlans t). map_ok tab)
     \<and> mt_hasAddressTable t = (map_of (mt_vlans t) 0 \<noteq> None)"

definition mt_entry :: "mac_table \<Rightarrow> nat \<Rightarrow> mac_address \<Rightarrow> address_entry option" where
  "mt_entry t vid a = (case map_of (mt_vlans t) vid of None \<Rightarrow> None | Some tab \<Rightarrow> map_of tab a)"

lemma getTableForVid_eq: "mt_ok t \<Longrightarrow> getTableForVid vid t = map_of (mt_vlans t) vid"
  by (auto simp: mt_ok_def getTableForVid_def)

lemma mt_ok_table: "mt_ok t \<Longrightarrow> map_of (mt_vlans t) vid = Some tab \<Longrightarrow> map_ok tab"
  by (auto simp: mt_ok_def dest: map_of_SomeD)

lemma mt_ok_update [simp]: "mt_ok (t\<lparr>mt_lastPurge := x\<rparr>) = mt_ok t" "mt_ok (t\<lparr>mt_agingTime := d\<rparr>) = mt_ok t"
  by (simp_all add: mt_ok_def)

lemma mt_entry_update [simp]: "mt_entry (t\<lparr>mt_lastPurge := x\<rparr>) = mt_entry t" "mt_entry (t\<lparr>mt_agingTime := d\<rparr>) = mt_entry t"
  "mt_entry (t\<lparr>mt_hasAddressTable := b\<rparr>) = mt_entry t"
  by (simp_all add: mt_entry_def fun_eq_iff)

lemma put_table_entry: "mt_ok t \<Longrightarrow>
    mt_entry (put_table vid tab t) v a = (if v = vid then map_of tab a else mt_entry t v a)"
  by (simp add: mt_entry_def put_table_def mt_ok_def std_map.get_put)

lemma put_table_ok:
  assumes "mt_ok t" "map_ok tab" "map_of (mt_vlans t) vid \<noteq> None"
  shows "mt_ok (put_table vid tab t)"
  using assms set_map_insert[of vid tab "mt_vlans t"]
  by (auto simp: mt_ok_def put_table_def std_map.get_put map_ok_insert)

lemma create_table_ok:
  assumes "mt_ok t" "map_of (mt_vlans t) vid = None"
  shows "mt_ok (create_table vid t) \<and> mt_entry (create_table vid t) = mt_entry t
    \<and> map_of (mt_vlans (create_table vid t)) vid = Some [] \<and> mt_agingTime (create_table vid t) = mt_agingTime t
    \<and> mt_lastPurge (create_table vid t) = mt_lastPurge t"
proof -
  have "mt_entry (create_table vid t) = mt_entry t"
    using assms by (auto simp: fun_eq_iff create_table_def mt_entry_def put_table_def mt_ok_def std_map.get_put)
  moreover have "mt_ok (create_table vid t)"
    using assms set_map_insert[of vid "[]" "mt_vlans t"]
    by (auto simp: mt_ok_def create_table_def put_table_def std_map.get_put map_ok_insert)
  moreover have "map_of (mt_vlans (create_table vid t)) vid = Some []"
    using assms by (simp add: create_table_def put_table_def mt_ok_def std_map.get_put)
  ultimately show ?thesis by (simp add: create_table_def put_table_def)
qed

lemma map_tables_ok:
  assumes "mt_ok t" "\<And>tab. map_ok tab \<Longrightarrow> map_ok (f tab)"
  shows "mt_ok (map_tables f t)"
proof -
  have "map_ok (map (\<lambda>(v, tab). (v, f tab)) (mt_vlans t)) = map_ok (mt_vlans t)" by (rule map_ok_map)
  then show ?thesis using assms by (auto simp: mt_ok_def map_tables_def map_of_map)
qed

lemma map_tables_entry:
  "mt_entry (map_tables f t) v a = (case map_of (mt_vlans t) v of None \<Rightarrow> None | Some tab \<Rightarrow> map_of (f tab) a)"
  by (simp add: mt_entry_def map_tables_def map_of_map split: option.split)

lemma map_tables_filter_entry:
  assumes "mt_ok t"
  shows "mt_entry (map_tables (filter P) t) v a
    = (case mt_entry t v a of Some e \<Rightarrow> if P (a, e) then Some e else None | None \<Rightarrow> None)"
  unfolding map_tables_entry mt_entry_def[of t] using mt_ok_table[OF assms]
  by (auto simp: map_of_filter_ok split: option.split)

lemma set_entry_ok:
  assumes "mt_ok t" "map_of (mt_vlans t) vid \<noteq> None"
  shows "mt_ok (set_entry vid a e t) \<and> mt_agingTime (set_entry vid a e t) = mt_agingTime t \<and>
    mt_entry (set_entry vid a e t) v b = (if v = vid \<and> b = a then Some e else mt_entry t v b)"
proof -
  obtain tab where tab: "map_of (mt_vlans t) vid = Some tab" using assms(2) by blast
  have "map_ok tab" using mt_ok_table[OF assms(1) tab] .
  then show ?thesis using assms tab
    by (auto simp: set_entry_def put_table_entry put_table_ok map_ok_insert map_of_insert)
       (simp_all add: put_table_def mt_entry_def)
qed

section \<open>The specification\<close>

text \<open>What was learned, where and when; an entry counts while it is younger than the aging time.\<close>

record mac_spec =
  ms_aging :: simtime
  ms_learned :: "nat \<times> mac_address \<Rightarrow> (int \<times> simtime) option"

definition fresh :: "simtime \<Rightarrow> simtime \<Rightarrow> (int \<times> simtime) option \<Rightarrow> (int \<times> simtime) option" where
  "fresh now agingTime x = (case x of None \<Rightarrow> None
     | Some (i, learned) \<Rightarrow> if learned + agingTime \<le> now then None else Some (i, learned))"

datatype mac_op =
    Learn int mac_address nat | Lookup mac_address nat | FlushInterface int | CopyTable int int
  | PurgeVlan nat | PurgeAll | ClearTable | SetAgingTime simtime | LoadFile "(nat \<times> mac_address \<times> int) list"

fun mac_exec :: "simtime \<Rightarrow> mac_op \<Rightarrow> mac_table \<Rightarrow> int option \<times> mac_table" where
  "mac_exec now (Learn i a vid) t = (None, snd (updateTableWithAddress now i a vid t))"
| "mac_exec now (Lookup a vid) t = (case getInterfaceIdForAddress now a vid t of (i, t) \<Rightarrow> (Some i, t))"
| "mac_exec now (FlushInterface i) t = (None, flush_interface i t)"
| "mac_exec now (CopyTable i j) t = (None, copyTable i j t)"
| "mac_exec now (PurgeVlan vid) t = (None, removeAgedEntriesFromVlan now vid t)"
| "mac_exec now PurgeAll t = (None, removeAgedEntriesFromAllVlans now t)"
| "mac_exec now ClearTable t = (None, clearTable t)"
| "mac_exec now (SetAgingTime d) t = (None, setAgingTime d t)"
| "mac_exec now (LoadFile es) t = (None, fold add_file_entry es t)"

fun spec_exec :: "simtime \<Rightarrow> mac_op \<Rightarrow> mac_spec \<Rightarrow> int option \<times> mac_spec" where
  "spec_exec now (Learn i a vid) s =
    (None, if mac_isMulticast a then s else s\<lparr>ms_learned := (ms_learned s)((vid, a) \<mapsto> (i, now))\<rparr>)"
| "spec_exec now (Lookup a vid) s =
    (Some (case fresh now (ms_aging s) (ms_learned s (vid, a)) of Some (i, _) \<Rightarrow> i | None \<Rightarrow> -1), s)"
| "spec_exec now (FlushInterface i) s = (None, s\<lparr>ms_learned := (\<lambda>k. case ms_learned s k of
      Some (j, learned) \<Rightarrow> if j = i then None else Some (j, learned) | None \<Rightarrow> None)\<rparr>)"
| "spec_exec now (CopyTable i j) s = (None, s\<lparr>ms_learned := (\<lambda>k. case ms_learned s k of
      Some (l, learned) \<Rightarrow> Some (if l = i then j else l, learned) | None \<Rightarrow> None)\<rparr>)"
| "spec_exec now (PurgeVlan vid) s = (None, s)"
| "spec_exec now PurgeAll s = (None, s)"
| "spec_exec now ClearTable s = (None, s\<lparr>ms_learned := (\<lambda>k. None)\<rparr>)"
| "spec_exec now (SetAgingTime d) s = (None, s\<lparr>ms_aging := d\<rparr>)"
| "spec_exec now (LoadFile es) s =
    (None, s\<lparr>ms_learned := fold (\<lambda>(vid, a, i) m. m((vid, a) \<mapsto> (i, 0))) es (ms_learned s)\<rparr>)"

text \<open>
  A longer aging time would bring back the entries that happen not to be purged yet; the
  specification covers the histories in which it is never raised.
\<close>

fun aging_not_raised :: "mac_op \<Rightarrow> mac_spec \<Rightarrow> bool" where
  "aging_not_raised (SetAgingTime d) s \<longleftrightarrow> d \<le> ms_aging s"
| "aging_not_raised _ s \<longleftrightarrow> True"

section \<open>Refinement over time\<close>

fun run_ops :: "('t \<Rightarrow> 'op \<Rightarrow> 's \<Rightarrow> 'o \<times> 's) \<Rightarrow> ('t \<times> 'op) list \<Rightarrow> 's \<Rightarrow> 'o list \<times> 's" where
  "run_ops exec [] s = ([], s)"
| "run_ops exec ((now, op) # ops) s =
    (case exec now op s of (out, s) \<Rightarrow> (case run_ops exec ops s of (outs, s) \<Rightarrow> (out # outs, s)))"

fun run_guard :: "('t \<Rightarrow> 'op \<Rightarrow> 's \<Rightarrow> 'o \<times> 's) \<Rightarrow> ('op \<Rightarrow> 's \<Rightarrow> bool) \<Rightarrow> ('t \<times> 'op) list \<Rightarrow> 's \<Rightarrow> bool" where
  "run_guard exec ok [] s \<longleftrightarrow> True"
| "run_guard exec ok ((now, op) # ops) s \<longleftrightarrow> ok op s \<and> run_guard exec ok ops (snd (exec now op s))"

locale timed_refinement =
  fixes cexec :: "'t::linorder \<Rightarrow> 'op \<Rightarrow> 'c \<Rightarrow> 'o \<times> 'c"
    and aexec :: "'t \<Rightarrow> 'op \<Rightarrow> 'a \<Rightarrow> 'o \<times> 'a"
    and ok :: "'op \<Rightarrow> 'a \<Rightarrow> bool"
    and R :: "'t \<Rightarrow> 'c \<Rightarrow> 'a \<Rightarrow> bool"
  assumes step_out: "R now c a \<Longrightarrow> ok op a \<Longrightarrow> fst (cexec now op c) = fst (aexec now op a)"
    and step_rel: "R now c a \<Longrightarrow> ok op a \<Longrightarrow> R now (snd (cexec now op c)) (snd (aexec now op a))"
    and elapse: "R now c a \<Longrightarrow> now \<le> now' \<Longrightarrow> R now' c a"
begin

lemma run_refines:
  assumes "R now c a" "sorted (now # map fst ops)" "run_guard aexec ok ops a"
  shows "fst (run_ops cexec ops c) = fst (run_ops aexec ops a)
    \<and> R (last (now # map fst ops)) (snd (run_ops cexec ops c)) (snd (run_ops aexec ops a))"
  using assms
proof (induction ops arbitrary: now c a)
  case (Cons x ops)
  obtain now' op where x: "x = (now', op)" by (cases x)
  have R': "R now' c a" using elapse Cons.prems(1,2) by (auto simp: x)
  have ok: "ok op a" using Cons.prems(3) by (simp add: x)
  obtain out c' where c: "cexec now' op c = (out, c')" by (cases "cexec now' op c")
  obtain a' where a: "aexec now' op a = (out, a')"
    using step_out[OF R' ok] c by (cases "aexec now' op a") simp
  have "R now' c' a'" using step_rel[OF R' ok] c a by simp
  moreover have "sorted (now' # map fst ops)" using Cons.prems(2) by (simp add: x)
  moreover have "run_guard aexec ok ops a'" using Cons.prems(3) by (simp add: x a)
  ultimately show ?case using Cons.IH[of now' c' a'] c a by (auto simp: x split: prod.splits)
qed simp

lemma run_out:
  "R now c a \<Longrightarrow> sorted (now # map fst ops) \<Longrightarrow> run_guard aexec ok ops a
    \<Longrightarrow> fst (run_ops cexec ops c) = fst (run_ops aexec ops a)"
  using run_refines by blast

end

section \<open>The table refines its specification\<close>

definition entry_info :: "address_entry \<Rightarrow> int \<times> simtime" where
  "entry_info e = (ae_interfaceId e, ae_insertionTime e)"

definition mac_rel :: "simtime \<Rightarrow> mac_table \<Rightarrow> mac_spec \<Rightarrow> bool" where
  "mac_rel now t s \<longleftrightarrow> mt_ok t \<and> mt_agingTime t = ms_aging s \<and>
     (\<forall>vid a. fresh now (mt_agingTime t) (map_option entry_info (mt_entry t vid a))
            = fresh now (mt_agingTime t) (ms_learned s (vid, a)))"

lemma fresh_simps [simp]:
  "fresh now d None = None"
  "fresh now d (Some (i, learned)) = (if learned + d \<le> now then None else Some (i, learned))"
  by (simp_all add: fresh_def)

lemma fresh_info: "fresh now d (Some (entry_info e)) = (if aged now d e then None else Some (entry_info e))"
  by (simp add: entry_info_def aged_def)

lemma fresh_later:
  assumes "fresh now d x = fresh now d y" "now \<le> now'" "d' \<le> d"
  shows "fresh now' d' x = fresh now' d' y"
  using assms by (auto simp: fresh_def split: option.splits if_splits)

text \<open>Throwing out aged entries is not seen through \<open>fresh\<close>.\<close>

lemma fresh_drop_aged:
  "fresh now d (map_option entry_info (case x of Some e \<Rightarrow> if aged now d e then None else Some e | None \<Rightarrow> None))
    = fresh now d (map_option entry_info x)"
  by (auto simp: fresh_info split: option.split)

lemma removeAged_fresh:
  assumes "mt_ok t"
  shows "mt_ok (removeAgedEntriesFromAllVlans now t) \<and> mt_agingTime (removeAgedEntriesFromAllVlans now t) = mt_agingTime t
    \<and> fresh now (mt_agingTime t) (map_option entry_info (mt_entry (removeAgedEntriesFromAllVlans now t) vid a))
      = fresh now (mt_agingTime t) (map_option entry_info (mt_entry t vid a))
    \<and> (map_of (mt_vlans (removeAgedEntriesFromAllVlans now t)) vid \<noteq> None) = (map_of (mt_vlans t) vid \<noteq> None)"
proof -
  have f: "drop_aged now (mt_agingTime t) = filter (\<lambda>(a, e). \<not> aged now (mt_agingTime t) e)"
    by (simp add: drop_aged_def fun_eq_iff)
  have ok: "mt_ok (removeAgedEntriesFromAllVlans now t)"
    unfolding removeAgedEntriesFromAllVlans_def f using assms by (intro map_tables_ok) (simp_all add: map_ok_filter)
  have "mt_entry (removeAgedEntriesFromAllVlans now t) vid a
      = (case mt_entry t vid a of Some e \<Rightarrow> if aged now (mt_agingTime t) e then None else Some e | None \<Rightarrow> None)"
    unfolding removeAgedEntriesFromAllVlans_def f map_tables_filter_entry[OF assms] by (simp split: option.split)
  then show ?thesis using ok by (simp add: fresh_drop_aged) (simp add: removeAgedEntriesFromAllVlans_def map_tables_def map_of_map)
qed

lemma mac_relD:
  assumes "mac_rel now t s"
  shows "mt_ok t" "mt_agingTime t = ms_aging s"
    "fresh now (ms_aging s) (map_option entry_info (mt_entry t vid a)) = fresh now (ms_aging s) (ms_learned s (vid, a))"
  using assms by (auto simp: mac_rel_def)

lemma mac_relI:
  assumes "mt_ok t" "mt_agingTime t = ms_aging s"
    "\<And>vid a. fresh now (ms_aging s) (map_option entry_info (mt_entry t vid a)) = fresh now (ms_aging s) (ms_learned s (vid, a))"
  shows "mac_rel now t s"
  using assms by (simp add: mac_rel_def)

lemma entry_of_table: "map_of (mt_vlans t) vid = Some tab \<Longrightarrow> map_of tab a = mt_entry t vid a"
  by (simp add: mt_entry_def)

lemma lookup_refines:
  assumes R: "mac_rel now t s" and l: "getInterfaceIdForAddress now a vid t = (i, t')"
  shows "i = (case fresh now (ms_aging s) (ms_learned s (vid, a)) of Some (i, _) \<Rightarrow> i | None \<Rightarrow> -1) \<and> mac_rel now t' s"
proof -
  have ok: "mt_ok t" and ag: "mt_agingTime t = ms_aging s"
    and fr: "\<And>vid a. fresh now (ms_aging s) (map_option entry_info (mt_entry t vid a)) = fresh now (ms_aging s) (ms_learned s (vid, a))"
    using mac_relD[OF R] by blast+
  note g = getTableForVid_eq[OF ok]
  show ?thesis
  proof (cases "mt_entry t vid a")
    case None
    then have "(i, t') = (-1, t)"
      using l g by (auto simp: getInterfaceIdForAddress_def mt_entry_def split: option.splits)
    then show ?thesis using R fr[of vid a] None by simp
  next
    case (Some e)
    then obtain tab where tab: "map_of (mt_vlans t) vid = Some tab" "map_of tab a = Some e"
      by (auto simp: mt_entry_def split: option.splits)
    show ?thesis
    proof (cases "aged now (mt_agingTime t) e")
      case True
      then have i: "i = -1" and t': "t' = put_table vid (map_erase a tab) t"
        using l g tab by (auto simp: getInterfaceIdForAddress_def)
      have ok': "mt_ok t'" unfolding t' using put_table_ok[OF ok] mt_ok_table[OF ok tab(1)] tab(1)
        by (simp add: map_ok_erase)
      have "mt_entry t' v b = (if v = vid \<and> b = a then None else mt_entry t v b)" for v b
        unfolding t' using entry_of_table[OF tab(1)] by (simp add: put_table_entry[OF ok] map_of_erase)
      moreover have n: "fresh now (ms_aging s) (ms_learned s (vid, a)) = None"
        using fr[of vid a] True Some ag by (simp add: fresh_info)
      moreover have "mt_agingTime t' = ms_aging s" using ag by (simp add: t' put_table_def)
      ultimately have "mac_rel now t' s" using fr by (intro mac_relI ok') simp_all
      then show ?thesis using i n by simp
    next
      case False
      then have "(i, t') = (ae_interfaceId e, t)" using l g tab by (auto simp: getInterfaceIdForAddress_def)
      moreover have "fresh now (ms_aging s) (ms_learned s (vid, a)) = Some (entry_info e)"
        using fr[of vid a] False Some ag by (simp add: fresh_info)
      ultimately show ?thesis using R by (simp add: entry_info_def)
    qed
  qed
qed

text \<open>A new entry, in a table that has one for its VLAN.\<close>

lemma set_entry_rel:
  assumes R: "mac_rel now t s" and v: "map_of (mt_vlans t) vid \<noteq> None"
  shows "mac_rel now (set_entry vid a e t) (s\<lparr>ms_learned := (ms_learned s)((vid, a) \<mapsto> entry_info e)\<rparr>)"
  using mac_relD[OF R] set_entry_ok[OF mac_relD(1)[OF R] v, of a e]
  by (intro mac_relI) simp_all

lemma create_rel:
  assumes "mac_rel now t s"
  shows "mac_rel now (if map_of (mt_vlans t) vid = None then create_table vid t else t) s
    \<and> map_of (mt_vlans (if map_of (mt_vlans t) vid = None then create_table vid t else t)) vid \<noteq> None
    \<and> mt_entry (if map_of (mt_vlans t) vid = None then create_table vid t else t) = mt_entry t"
proof (cases "map_of (mt_vlans t) vid")
  case None
  note c = create_table_ok[OF mac_relD(1)[OF assms] None]
  have "mac_rel now (create_table vid t) s" using mac_relD[OF assms] c by (intro mac_relI) simp_all
  then show ?thesis using c None by simp
qed (simp add: assms)

lemma purge_rel:
  assumes R: "mac_rel now t s" and v: "map_of (mt_vlans t) vid \<noteq> None"
  shows "mac_rel now (removeAgedEntriesIfNeeded now t) s
    \<and> map_of (mt_vlans (removeAgedEntriesIfNeeded now t)) vid \<noteq> None"
proof -
  have "mac_rel now (removeAgedEntriesFromAllVlans now t) s"
    using mac_relD[OF R] removeAged_fresh[OF mac_relD(1)[OF R]] by (intro mac_relI) auto
  moreover have "map_of (mt_vlans (removeAgedEntriesFromAllVlans now t)) vid \<noteq> None"
    using removeAged_fresh[OF mac_relD(1)[OF R]] v by blast
  moreover have "mac_rel now (u\<lparr>mt_lastPurge := x\<rparr>) s" if "mac_rel now u s" for u x
    using mac_relD[OF that] by (intro mac_relI) simp_all
  ultimately show ?thesis using R v by (simp add: removeAgedEntriesIfNeeded_def)
qed

lemma learn_refines:
  assumes R: "mac_rel now t s"
  shows "mac_rel now (snd (updateTableWithAddress now i a vid t))
    (if mac_isMulticast a then s else s\<lparr>ms_learned := (ms_learned s)((vid, a) \<mapsto> (i, now))\<rparr>)"
proof (cases "mac_isMulticast a")
  case True
  then show ?thesis using R by (simp add: updateTableWithAddress_def)
next
  case False
  let ?t = "if map_of (mt_vlans t) vid = None then create_table vid t else t"
  note g = getTableForVid_eq[OF mac_relD(1)[OF R], of vid]
  have R': "mac_rel now ?t s" and v: "map_of (mt_vlans ?t) vid \<noteq> None" using create_rel[OF R] by blast+
  let ?e = "mt_entry t vid a"
  have e: "(case map_of (mt_vlans t) vid of None \<Rightarrow> None | Some tab \<Rightarrow> map_of tab a) = ?e"
    by (simp add: mt_entry_def)
  show ?thesis
  proof (cases ?e)
    case None
    let ?new = "\<lparr>ae_vid = vid, ae_interfaceId = i, ae_insertionTime = now\<rparr>"
    have "snd (updateTableWithAddress now i a vid t) = set_entry vid a ?new (removeAgedEntriesIfNeeded now ?t)"
      using False None by (simp add: updateTableWithAddress_def g e)
    then show ?thesis using set_entry_rel[of now "removeAgedEntriesIfNeeded now ?t" s vid a ?new] purge_rel[OF R' v] False
      by (simp only: if_False) (simp add: entry_info_def)
  next
    case (Some e')
    let ?new = "e'\<lparr>ae_insertionTime := now, ae_interfaceId := i\<rparr>"
    have "snd (updateTableWithAddress now i a vid t) = set_entry vid a ?new ?t"
      using False Some by (simp add: updateTableWithAddress_def g e)
    then show ?thesis using set_entry_rel[OF R' v, of a ?new] False
      by (simp only: if_False) (simp add: entry_info_def)
  qed
qed

lemma map_tables_aging [simp]: "mt_agingTime (map_tables f t) = mt_agingTime t"
  by (simp add: map_tables_def)

lemma flush_refines:
  assumes R: "mac_rel now t s"
  shows "mac_rel now (flush_interface i t) (snd (spec_exec now (FlushInterface i) s))"
proof (rule mac_relI)
  note ok = mac_relD(1)[OF R]
  show "mt_ok (flush_interface i t)"
    unfolding flush_interface_def using ok by (intro map_tables_ok) (simp_all add: map_ok_filter)
  show "mt_agingTime (flush_interface i t) = ms_aging (snd (spec_exec now (FlushInterface i) s))"
    using mac_relD(2)[OF R] by (simp add: flush_interface_def)
  fix vid a
  have f: "mt_entry (flush_interface i t) vid a
      = (case mt_entry t vid a of Some e \<Rightarrow> if ae_interfaceId e \<noteq> i then Some e else None | None \<Rightarrow> None)"
    unfolding flush_interface_def map_tables_filter_entry[OF ok] by (simp split: option.split)
  show "fresh now (ms_aging (snd (spec_exec now (FlushInterface i) s))) (map_option entry_info (mt_entry (flush_interface i t) vid a))
      = fresh now (ms_aging (snd (spec_exec now (FlushInterface i) s))) (ms_learned (snd (spec_exec now (FlushInterface i) s)) (vid, a))"
    using mac_relD(3)[OF R, of vid a]
    by (auto simp: f fresh_def entry_info_def split: option.splits if_splits)
qed

lemma copy_refines:
  assumes R: "mac_rel now t s"
  shows "mac_rel now (copyTable i j t) (snd (spec_exec now (CopyTable i j) s))"
proof (rule mac_relI)
  let ?g = "\<lambda>e. if ae_interfaceId e = i then e\<lparr>ae_interfaceId := j\<rparr> else e"
  note ok = mac_relD(1)[OF R]
  show "mt_ok (copyTable i j t)"
    unfolding copyTable_def using ok by (intro map_tables_ok) (simp_all add: map_ok_map)
  show "mt_agingTime (copyTable i j t) = ms_aging (snd (spec_exec now (CopyTable i j) s))"
    using mac_relD(2)[OF R] by (simp add: copyTable_def)
  fix vid a
  have f: "mt_entry (copyTable i j t) vid a = map_option ?g (mt_entry t vid a)"
    unfolding copyTable_def map_tables_entry mt_entry_def[of t] by (simp add: map_of_map split: option.split)
  show "fresh now (ms_aging (snd (spec_exec now (CopyTable i j) s))) (map_option entry_info (mt_entry (copyTable i j t) vid a))
      = fresh now (ms_aging (snd (spec_exec now (CopyTable i j) s))) (ms_learned (snd (spec_exec now (CopyTable i j) s)) (vid, a))"
    using mac_relD(3)[OF R, of vid a]
    by (auto simp: f fresh_def entry_info_def split: option.splits if_splits)
qed

lemma purgeVlan_refines:
  assumes R: "mac_rel now t s"
  shows "mac_rel now (removeAgedEntriesFromVlan now vid t) s"
proof (cases "map_of (mt_vlans t) vid")
  case None
  then show ?thesis using R getTableForVid_eq[OF mac_relD(1)[OF R]] by (simp add: removeAgedEntriesFromVlan_def)
next
  case (Some tab)
  note ok = mac_relD(1)[OF R]
  note ag = mac_relD(2)[OF R]
  let ?tab = "drop_aged now (ms_aging s) tab"
  have tab: "map_ok tab" using mt_ok_table[OF ok Some] .
  have t': "removeAgedEntriesFromVlan now vid t = put_table vid ?tab t"
    using Some getTableForVid_eq[OF ok] ag by (simp add: removeAgedEntriesFromVlan_def)
  have e: "mt_entry (put_table vid ?tab t) v a = (if v = vid
      then case mt_entry t vid a of Some e \<Rightarrow> if aged now (ms_aging s) e then None else Some e | None \<Rightarrow> None
      else mt_entry t v a)" for v a
    unfolding put_table_entry[OF ok] drop_aged_def map_of_filter_ok[OF tab] entry_of_table[OF Some]
    by (simp split: option.split)
  have "mt_ok (put_table vid ?tab t)"
    using put_table_ok[OF ok] tab Some by (simp add: drop_aged_def map_ok_filter)
  moreover have "mt_agingTime (put_table vid ?tab t) = ms_aging s" using ag by (simp add: put_table_def)
  moreover have "fresh now (ms_aging s) (map_option entry_info (mt_entry (put_table vid ?tab t) v a))
      = fresh now (ms_aging s) (ms_learned s (v, a))" for v a
    using mac_relD(3)[OF R, of v a] unfolding e by (cases "v = vid") (simp_all only: simp_thms if_True if_False fresh_drop_aged)
  ultimately show ?thesis unfolding t' by (rule mac_relI)
qed

lemma add_file_refines:
  assumes "mac_rel now t s"
  shows "mac_rel now (add_file_entry (vid, a, i) t) (s\<lparr>ms_learned := (ms_learned s)((vid, a) \<mapsto> (i, 0))\<rparr>)"
proof -
  let ?t = "if map_of (mt_vlans t) vid = None then create_table vid t else t"
  let ?e = "\<lparr>ae_vid = vid, ae_interfaceId = i, ae_insertionTime = 0\<rparr>"
  have "add_file_entry (vid, a, i) t = set_entry vid a ?e ?t"
    using getTableForVid_eq[OF mac_relD(1)[OF assms]] by (simp add: add_file_entry_def)
  then show ?thesis using set_entry_rel[of now ?t s vid a ?e] create_rel[OF assms, of vid]
    by (simp only:) (simp add: entry_info_def)
qed

lemma load_refines:
  "mac_rel now t s \<Longrightarrow> mac_rel now (fold add_file_entry es t)
    (s\<lparr>ms_learned := fold (\<lambda>(vid, a, i) m. m((vid, a) \<mapsto> (i, 0))) es (ms_learned s)\<rparr>)"
proof (induction es arbitrary: t s)
  case (Cons e es)
  obtain vid a i where e: "e = (vid, a, i)" by (cases e)
  show ?case using Cons.IH[OF add_file_refines[OF Cons.prems, of vid a i]] by (simp add: e)
qed simp

lemma mac_exec_out:
  assumes "mac_rel now t s"
  shows "fst (mac_exec now op t) = fst (spec_exec now op s)"
proof (cases op)
  case (Lookup a vid)
  then show ?thesis using lookup_refines[OF assms, of a vid] by (auto split: prod.split)
qed simp_all

lemma mac_exec_rel:
  assumes R: "mac_rel now t s" and ok: "aging_not_raised op s"
  shows "mac_rel now (snd (mac_exec now op t)) (snd (spec_exec now op s))"
proof (cases op)
  case (Learn i a vid)
  then show ?thesis using learn_refines[OF R] by simp
next
  case (Lookup a vid)
  then show ?thesis using lookup_refines[OF R, of a vid] by (auto split: prod.split)
next
  case (FlushInterface i)
  then show ?thesis using flush_refines[OF R, of i] by simp
next
  case (CopyTable i j)
  then show ?thesis using copy_refines[OF R, of i j] by simp
next
  case (PurgeVlan vid)
  then show ?thesis using purgeVlan_refines[OF R] by simp
next
  case PurgeAll
  then show ?thesis using mac_relD[OF R] removeAged_fresh[OF mac_relD(1)[OF R]]
    by (intro mac_relI) auto
next
  case ClearTable
  then show ?thesis using mac_relD[OF R]
    by (intro mac_relI) (simp_all add: clearTable_def mt_ok_def mt_entry_def)
next
  case (SetAgingTime d)
  then have d: "d \<le> ms_aging s" using ok by simp
  show ?thesis unfolding SetAgingTime using mac_relD[OF R] fresh_later[OF mac_relD(3)[OF R] order_refl d]
    by (intro mac_relI) (simp_all add: setAgingTime_def)
next
  case (LoadFile es)
  then show ?thesis using load_refines[OF R] by simp
qed

lemma mac_rel_later:
  assumes "mac_rel now t s" "now \<le> now'"
  shows "mac_rel now' t s"
  using mac_relD(1,2)[OF assms(1)] fresh_later[OF mac_relD(3)[OF assms(1)] assms(2) order_refl]
  by (rule mac_relI)

interpretation mac: timed_refinement mac_exec spec_exec aging_not_raised mac_rel
  by unfold_locales (erule mac_exec_out mac_exec_rel mac_rel_later; assumption?)+

lemma new_mac_table_rel: "mac_rel now (new_mac_table d) \<lparr>ms_aging = d, ms_learned = (\<lambda>k. None)\<rparr>"
  by (simp add: mac_rel_def new_mac_table_def mt_ok_def mt_entry_def)

text \<open>C8: Whatever is learned, looked up, flushed, copied, purged, loaded or cleared, at
  times that do not decrease and with an aging time that is never raised, every lookup in the
  table answers what the specification answers: the port the address was last learned on in
  that VLAN if this is less than the aging time ago, and -1 otherwise. When and how often the
  table is purged makes no difference.\<close>

theorem mac_table_refines:
  assumes "sorted (map fst ops)" and "run_guard spec_exec aging_not_raised ops \<lparr>ms_aging = agingTime, ms_learned = (\<lambda>k. None)\<rparr>"
  shows "fst (run_ops mac_exec ops (new_mac_table agingTime))
    = fst (run_ops spec_exec ops \<lparr>ms_aging = agingTime, ms_learned = (\<lambda>k. None)\<rparr>)"
proof (cases ops)
  case (Cons x xs)
  then have "sorted (fst x # map fst ops)" using assms(1) by simp
  then show ?thesis using mac.run_out[OF new_mac_table_rel _ assms(2), where now = "fst x"] by blast
qed simp

definition mac_example_ops :: "(simtime \<times> mac_op) list" where
  "mac_example_ops = [(0, Learn 101 0x0A0000000001 0), (5, Learn 102 0x0A0000000002 0), (50, Lookup 0x0A0000000001 0),
     (60, Learn 103 0x0A0000000001 0), (119, Lookup 0x0A0000000002 0), (125, Lookup 0x0A0000000002 0), (130, Lookup 0x0A0000000001 0),
     (140, SetAgingTime 60), (150, Lookup 0x0A0000000001 0)]"

lemma mac_table_refines_witness:
  "fst (run_ops mac_exec mac_example_ops (new_mac_table 120))
    = [None, None, Some 101, None, Some 102, Some (- 1), Some 103, None, Some (- 1)]"
proof -
  have "sorted (map fst mac_example_ops)" by (simp add: mac_example_ops_def)
  moreover have "run_guard spec_exec aging_not_raised mac_example_ops \<lparr>ms_aging = 120, ms_learned = (\<lambda>k. None)\<rparr>"
    by code_simp
  moreover have "fst (run_ops spec_exec mac_example_ops \<lparr>ms_aging = 120, ms_learned = (\<lambda>k. None)\<rparr>)
    = [None, None, Some 101, None, Some 102, Some (- 1), Some 103, None, Some (- 1)]" by code_simp
  ultimately show ?thesis using mac_table_refines[of mac_example_ops 120] by simp
qed

end
