(* ===== verification/Mac_Relay.thy ===== *)
theory Mac_Relay
  imports Mac_Table
begin

text \<open>
  The relay unit of an Ethernet switch (\<open>linklayer/base/MacRelayUnitBase.{h,cc}\<close> and
  \<open>linklayer/ethernet/common/MacRelayUnit.cc\<close>): it learns the source address of a frame on the
  interface the frame came from, and sends the frame out of the interface its destination was
  learned on, or out of every other forwarding interface. The table it uses is that of
  \<open>Mac_Table\<close>, through its refinement.
\<close>

section \<open>The handler\<close>

record relay_state =
  rl_table :: mac_table
  rl_processed :: int
  rl_dropped :: int

definition relay_init :: "simtime \<Rightarrow> relay_state" where
  "relay_init agingTime = \<lparr>rl_table = new_mac_table agingTime, rl_processed = 0, rl_dropped = 0\<rparr>"

text \<open>A packet sent on \<open>ifOut\<close>, or dropped with \<open>NO_INTERFACE_FOUND\<close>.\<close>

datatype relay_out = IfOut packet | RelayDrop packet

definition isForwardingInterface :: "network_interface \<Rightarrow> bool" where
  "isForwardingInterface ie \<longleftrightarrow> \<not> ie_isLoopback ie \<and> ie_isBroadcast ie"

definition relay_sendPacket :: "packet \<Rightarrow> network_interface \<Rightarrow> relay_out" where
  "relay_sendPacket p ie = IfOut (p\<lparr>pk_tags := (pk_tags p)\<lparr>t_outbound := Some True,
     t_interfaceReq := Some (ie_id ie), t_dispatchReq := ie_protocol ie\<rparr>\<rparr>)"

text \<open>The interfaces are compared by address; an interface table has one interface per id.\<close>

definition broadcastPacket :: "network_interface list \<Rightarrow> packet \<Rightarrow> network_interface option \<Rightarrow> relay_out list" where
  "broadcastPacket ift p incoming =
    map (relay_sendPacket p) (filter (\<lambda>ie. map_option ie_id incoming \<noteq> Some (ie_id ie) \<and> isForwardingInterface ie) ift)"

definition updatePeerAddress :: "simtime \<Rightarrow> network_interface \<Rightarrow> mac_address \<Rightarrow> relay_state \<Rightarrow> relay_state" where
  "updatePeerAddress now incoming sourceAddress st =
    st\<lparr>rl_table := snd (updateTableWithAddress now (ie_id incoming) sourceAddress 0 (rl_table st))\<rparr>"

definition relay_tags :: "protocol \<Rightarrow> mac_address \<Rightarrow> mac_address \<Rightarrow> tags \<Rightarrow> tags" where
  "relay_tags protocol src dest t = no_tags\<lparr>t_packetProtocol := Some protocol, t_vlanReq := t_vlanInd t,
     t_userPriorityReq := t_userPriorityInd t, t_macReq := Some (src, dest)\<rparr>"

definition relay_unicast :: "network_interface list \<Rightarrow> simtime \<Rightarrow> packet \<Rightarrow> mac_address \<Rightarrow> network_interface
    \<Rightarrow> relay_state \<Rightarrow> (relay_out list \<times> relay_state) res" where
  "relay_unicast ift now p dest incoming st =
    (case getInterfaceIdForAddress now dest 0 (rl_table st) of (out, table) \<Rightarrow>
       let st = st\<lparr>rl_table := table\<rparr>
       in if ie_id incoming = out then Inr ([RelayDrop p], st\<lparr>rl_dropped := rl_dropped st + 1\<rparr>)
          else if out \<noteq> -1 then bindE (getInterfaceById ift out) (\<lambda>ie. Inr ([relay_sendPacket p ie], st))
          else Inr (broadcastPacket ift p (Some incoming), st))"

definition relay_handleLowerPacket ::
  "network_interface list \<Rightarrow> simtime \<Rightarrow> packet \<Rightarrow> relay_state \<Rightarrow> (relay_out list \<times> relay_state) res" where
  "relay_handleLowerPacket ift now p st =
    bindE (getTag (t_packetProtocol (pk_tags p))) (\<lambda>protocol.
    bindE (getTag (t_macInd (pk_tags p))) (\<lambda>(src, dest).
    bindE (getTag (t_interfaceInd (pk_tags p))) (\<lambda>i.
    bindE (getInterfaceById ift i) (\<lambda>incoming.
      let st = updatePeerAddress now incoming src st
      in bindE (trim p) (\<lambda>q.
           let q = q\<lparr>pk_tags := relay_tags protocol src dest (pk_tags p)\<rparr>
           in bindE (if mac_isBroadcast dest then Inr (broadcastPacket ift q (Some incoming), st)
                     else relay_unicast ift now q dest incoming st) (\<lambda>(outs, st).
                Inr (outs, st\<lparr>rl_processed := rl_processed st + 1\<rparr>)))))))"

text \<open>Frames that arrive one after the other, with the time each arrives at.\<close>

fun relay_run :: "network_interface list \<Rightarrow> (simtime \<times> packet) list \<Rightarrow> relay_state
    \<Rightarrow> (relay_out list list \<times> relay_state) res" where
  "relay_run ift [] st = Inr ([], st)"
| "relay_run ift ((now, p) # fs) st =
    bindE (relay_handleLowerPacket ift now p st) (\<lambda>(out, st).
    bindE (relay_run ift fs st) (\<lambda>(outs, st). Inr (out # outs, st)))"

section \<open>What a frame should do\<close>

definition frame_src :: "packet \<Rightarrow> mac_address" where
  "frame_src p = fst (the (t_macInd (pk_tags p)))"

definition frame_dest :: "packet \<Rightarrow> mac_address" where
  "frame_dest p = snd (the (t_macInd (pk_tags p)))"

definition frame_port :: "packet \<Rightarrow> int" where
  "frame_port p = the (t_interfaceInd (pk_tags p))"

definition frame_ok :: "network_interface list \<Rightarrow> packet \<Rightarrow> bool" where
  "frame_ok ift p \<longleftrightarrow> packet_ok p \<and> t_packetProtocol (pk_tags p) \<noteq> None \<and> t_macInd (pk_tags p) \<noteq> None
     \<and> t_interfaceInd (pk_tags p) \<noteq> None \<and> findInterfaceById ift (frame_port p) \<noteq> None"

definition learn :: "simtime \<Rightarrow> packet \<Rightarrow> mac_spec \<Rightarrow> mac_spec" where
  "learn now p s = snd (spec_exec now (Learn (frame_port p) (frame_src p) 0) s)"

text \<open>Where the destination of a frame was learned, if it is known.\<close>

definition known_port :: "simtime \<Rightarrow> packet \<Rightarrow> mac_spec \<Rightarrow> int option" where
  "known_port now p s = (if mac_isBroadcast (frame_dest p) then None
     else map_option fst (fresh now (ms_aging s) (ms_learned s (0, frame_dest p))))"

definition relay_targets :: "network_interface list \<Rightarrow> int \<Rightarrow> int option \<Rightarrow> int list" where
  "relay_targets ift i port = (case port of
      None \<Rightarrow> map ie_id (filter (\<lambda>ie. ie_id ie \<noteq> i \<and> isForwardingInterface ie) ift)
    | Some j \<Rightarrow> if j = i then [] else [j])"

definition relayed :: "packet \<Rightarrow> packet \<Rightarrow> bool" where
  "relayed p q \<longleftrightarrow> packet_ok q \<and> pk_data q = pk_data p \<and> t_packetProtocol (pk_tags q) = t_packetProtocol (pk_tags p)
     \<and> t_macReq (pk_tags q) = t_macInd (pk_tags p) \<and> t_vlanReq (pk_tags q) = t_vlanInd (pk_tags p)
     \<and> t_userPriorityReq (pk_tags q) = t_userPriorityInd (pk_tags p) \<and> t_outbound (pk_tags q) = Some True
     \<and> t_macInd (pk_tags q) = None \<and> t_interfaceInd (pk_tags q) = None"

definition relays_to :: "packet \<Rightarrow> int list \<Rightarrow> relay_out list \<Rightarrow> bool" where
  "relays_to p ids outs \<longleftrightarrow>
     (\<exists>qs. map (\<lambda>q. t_interfaceReq (pk_tags q)) qs = map Some ids \<and> (\<forall>q \<in> set qs. relayed p q)
        \<and> (outs = map IfOut qs \<or> qs = [] \<and> (\<exists>q. outs = [RelayDrop q])))"

text \<open>The relay unit against a specification whose ports are all interfaces of the switch.\<close>

definition relay_rel :: "network_interface list \<Rightarrow> simtime \<Rightarrow> relay_state \<Rightarrow> mac_spec \<Rightarrow> bool" where
  "relay_rel ift now st s \<longleftrightarrow> mac_rel now (rl_table st) s
     \<and> (\<forall>k j learned. ms_learned s k = Some (j, learned) \<longrightarrow> findInterfaceById ift j \<noteq> None)"

definition valid_ids :: "network_interface list \<Rightarrow> bool" where
  "valid_ids ift \<longleftrightarrow> (\<forall>ie \<in> set ift. 0 \<le> ie_id ie)"

section \<open>One frame\<close>

lemma findInterfaceById_Some: "findInterfaceById ift i = Some ie \<Longrightarrow> ie_id ie = i \<and> ie \<in> set ift"
  by (auto simp: findInterfaceById_def find_Some_iff)

lemma relay_rel_learn:
  assumes "relay_rel ift now st s" "frame_ok ift p" "findInterfaceById ift (frame_port p) = Some ie"
  shows "relay_rel ift now (updatePeerAddress now ie (frame_src p) st) (learn now p s)"
proof -
  have "ie_id ie = frame_port p" using findInterfaceById_Some[OF assms(3)] by simp
  then show ?thesis using assms(1,3) mac.step_rel[of now "rl_table st" s "Learn (frame_port p) (frame_src p) 0"]
    by (auto simp: relay_rel_def learn_def updatePeerAddress_def split: if_splits)
qed

lemma relayed_sendPacket:
  assumes "packet_ok p" "t_packetProtocol (pk_tags p) = Some protocol" "t_macInd (pk_tags p) = Some (src, dest)"
    "trim p = Inr q"
  shows "\<exists>q'. relay_sendPacket (q\<lparr>pk_tags := relay_tags protocol src dest (pk_tags p)\<rparr>) ie = IfOut q'
    \<and> t_interfaceReq (pk_tags q') = Some (ie_id ie) \<and> relayed p q'"
proof -
  have "q = p\<lparr>pk_content := pk_data p, pk_front := 0, pk_back := 0\<rparr>" using trim_ok[OF assms(1)] assms(4) by simp
  then have "packet_ok q" "pk_data q = pk_data p" by (simp_all add: packet_ok_def pk_data_alt[of q] )
     (simp add: pk_data_alt)
  then show ?thesis using assms by (simp add: relay_sendPacket_def relayed_def relay_tags_def no_tags_def)
qed

lemma relays_to_one:
  assumes "out = IfOut q" "t_interfaceReq (pk_tags q) = Some j" "relayed p q"
  shows "relays_to p [j] [out]"
  unfolding relays_to_def using assms by (intro exI[of _ "[q]"]) simp

lemma relays_to_map:
  assumes "\<And>ie. \<exists>q. f ie = IfOut q \<and> t_interfaceReq (pk_tags q) = Some (ie_id ie) \<and> relayed p q"
  shows "relays_to p (map ie_id ies) (map f ies)"
proof -
  obtain g where g: "\<And>ie. f ie = IfOut (g ie) \<and> t_interfaceReq (pk_tags (g ie)) = Some (ie_id ie) \<and> relayed p (g ie)"
    using assms by metis
  show ?thesis unfolding relays_to_def using g by (intro exI[of _ "map g ies"]) auto
qed

lemma relay_frame:
  assumes R: "relay_rel ift now st s" and ok: "frame_ok ift p" and ids: "valid_ids ift"
  shows "\<exists>outs st'. relay_handleLowerPacket ift now p st = Inr (outs, st')
    \<and> relays_to p (relay_targets ift (frame_port p) (known_port now p (learn now p s))) outs
    \<and> relay_rel ift now st' (learn now p s)
    \<and> rl_processed st' = rl_processed st + 1
    \<and> rl_dropped st' = rl_dropped st + (if known_port now p (learn now p s) = Some (frame_port p) then 1 else 0)"
proof -
  let ?i = "frame_port p" and ?src = "frame_src p" and ?dest = "frame_dest p" and ?s = "learn now p s"
  obtain protocol where protocol: "t_packetProtocol (pk_tags p) = Some protocol" using ok by (auto simp: frame_ok_def)
  have mac: "t_macInd (pk_tags p) = Some (?src, ?dest)" using ok by (auto simp: frame_ok_def frame_src_def frame_dest_def)
  have i: "t_interfaceInd (pk_tags p) = Some ?i" using ok by (auto simp: frame_ok_def frame_port_def)
  obtain ie where ie: "findInterfaceById ift ?i = Some ie" using ok by (auto simp: frame_ok_def)
  have ie_id: "ie_id ie = ?i" "0 \<le> ?i" using findInterfaceById_Some[OF ie] ids by (auto simp: valid_ids_def)
  define st1 where "st1 = updatePeerAddress now ie ?src st"
  have R1: "relay_rel ift now st1 ?s" unfolding st1_def by (rule relay_rel_learn[OF R ok ie])
  obtain q where q: "trim p = Inr q" using trim_ok ok by (auto simp: frame_ok_def)
  define q' where "q' = q\<lparr>pk_tags := relay_tags protocol ?src ?dest (pk_tags p)\<rparr>"
  note snd = relayed_sendPacket[OF _ protocol mac q, folded q'_def]
  have snd': "\<exists>r. relay_sendPacket q' ie = IfOut r \<and> t_interfaceReq (pk_tags r) = Some (ie_id ie) \<and> relayed p r" for ie
    using snd ok by (simp add: frame_ok_def)
  have flood: "relays_to p (relay_targets ift ?i None) (broadcastPacket ift q' (Some ie))"
    unfolding relay_targets_def broadcastPacket_def option.case option.map option.inject ie_id(1)
    using relays_to_map[OF snd'] by (simp only: eq_commute[of "frame_port p"])
  have h: "relay_handleLowerPacket ift now p st
      = bindE (if mac_isBroadcast ?dest then Inr (broadcastPacket ift q' (Some ie), st1)
               else relay_unicast ift now q' ?dest ie st1) (\<lambda>(outs, st). Inr (outs, st\<lparr>rl_processed := rl_processed st + 1\<rparr>))"
    using protocol mac i ie q
    by (simp add: relay_handleLowerPacket_def getInterfaceById_def q'_def st1_def Let_def)
  have cnt: "rl_processed st1 = rl_processed st" "rl_dropped st1 = rl_dropped st"
    by (simp_all add: st1_def updatePeerAddress_def)
  have relD: "relay_rel ift now (st\<lparr>rl_processed := n\<rparr>) ?s = relay_rel ift now st ?s"
    "relay_rel ift now (st\<lparr>rl_dropped := n\<rparr>) ?s = relay_rel ift now st ?s" for st n by (simp_all add: relay_rel_def)
  show ?thesis
  proof (cases "mac_isBroadcast ?dest")
    case True
    then show ?thesis using h flood R1 cnt relD by (simp add: known_port_def)
  next
    case False
    obtain j table where l: "getInterfaceIdForAddress now ?dest 0 (rl_table st1) = (j, table)" by (cases "getInterfaceIdForAddress now ?dest 0 (rl_table st1)")
    note lk = lookup_refines[OF _ l, of ?s]
    have j: "j = (case known_port now p ?s of Some j \<Rightarrow> j | None \<Rightarrow> -1)" and R2: "relay_rel ift now (st1\<lparr>rl_table := table\<rparr>) ?s"
      using lk R1 False by (auto simp: relay_rel_def known_port_def split: option.splits)
    have known: "findInterfaceById ift j \<noteq> None" if "known_port now p ?s = Some j"
      using that R1 False by (auto simp: relay_rel_def known_port_def fresh_def split: option.splits if_splits) blast
    show ?thesis
    proof (cases "known_port now p ?s")
      case None
      then show ?thesis using h False l j ie_id flood R2 cnt relD by (simp add: relay_unicast_def)
    next
      case (Some k)
      then obtain ke where ke: "findInterfaceById ift j = Some ke" using known j by auto
      have kid: "ie_id ke = j" "0 \<le> j" using findInterfaceById_Some[OF ke] ids by (auto simp: valid_ids_def)
      show ?thesis
      proof (cases "j = ?i")
        case True
        then have "relays_to p (relay_targets ift ?i (known_port now p ?s)) [RelayDrop q']"
          using Some j by (simp add: relays_to_def relay_targets_def)
        then show ?thesis using h False l j ie_id Some R2 cnt True relD by (simp add: relay_unicast_def)
      next
        case False
        obtain r where "relay_sendPacket q' ke = IfOut r" "t_interfaceReq (pk_tags r) = Some j" "relayed p r"
          using snd'[of ke] kid by auto
        then have "relays_to p (relay_targets ift ?i (known_port now p ?s)) [relay_sendPacket q' ke]"
          using relays_to_one[of _ r j p] Some j False by (simp add: relay_targets_def)
        then show ?thesis using h \<open>\<not> mac_isBroadcast ?dest\<close> l j ie_id Some R2 cnt False ke kid relD
          by (simp add: relay_unicast_def getInterfaceById_def)
      qed
    qed
  qed
qed

section \<open>Any number of frames\<close>

definition learn_all :: "(simtime \<times> packet) list \<Rightarrow> mac_spec \<Rightarrow> mac_spec" where
  "learn_all fs s = fold (\<lambda>(now, p). learn now p) fs s"

lemma relay_rel_later: "relay_rel ift now st s \<Longrightarrow> now \<le> now' \<Longrightarrow> relay_rel ift now' st s"
  using mac.elapse by (auto simp: relay_rel_def)

text \<open>What the relay unit does with the frames \<open>fs\<close> when it starts with \<open>s\<close> learned.\<close>

fun relay_trace :: "network_interface list \<Rightarrow> (simtime \<times> packet) list \<Rightarrow> mac_spec \<Rightarrow> relay_out list list \<Rightarrow> bool" where
  "relay_trace ift [] s outs \<longleftrightarrow> outs = []"
| "relay_trace ift ((now, p) # fs) s outs \<longleftrightarrow> (\<exists>out rest. outs = out # rest
     \<and> relays_to p (relay_targets ift (frame_port p) (known_port now p (learn now p s))) out
     \<and> relay_trace ift fs (learn now p s) rest)"

lemma relay_run_trace:
  assumes "relay_rel ift now st s" "valid_ids ift" "\<forall>(now, p) \<in> set fs. frame_ok ift p" "sorted (now # map fst fs)"
  shows "\<exists>outs st'. relay_run ift fs st = Inr (outs, st') \<and> relay_trace ift fs s outs
    \<and> rl_processed st' = rl_processed st + int (length fs)"
  using assms
proof (induction fs arbitrary: now st s)
  case (Cons f fs)
  obtain t p where f: "f = (t, p)" by (cases f)
  have R: "relay_rel ift t st s" using relay_rel_later Cons.prems(1,4) by (auto simp: f)
  have ok: "frame_ok ift p" using Cons.prems(3) by (auto simp: f)
  obtain out st1 where 1: "relay_handleLowerPacket ift t p st = Inr (out, st1)"
    "relays_to p (relay_targets ift (frame_port p) (known_port t p (learn t p s))) out"
    "relay_rel ift t st1 (learn t p s)" "rl_processed st1 = rl_processed st + 1"
    using relay_frame[OF R ok Cons.prems(2)] by blast
  have "\<forall>(now, p) \<in> set fs. frame_ok ift p" "sorted (t # map fst fs)" using Cons.prems(3,4) by (auto simp: f)
  from Cons.IH[OF 1(3) Cons.prems(2) this] obtain outs st2 where
    "relay_run ift fs st1 = Inr (outs, st2)" "relay_trace ift fs (learn t p s) outs"
    "rl_processed st2 = rl_processed st1 + int (length fs)" by blast
  then show ?case using 1 by (auto simp: f)
qed simp

lemma relay_trace_nth:
  "relay_trace ift fs s outs \<Longrightarrow> length outs = length fs \<and>
    (\<forall>k < length fs. relays_to (snd (fs ! k)) (relay_targets ift (frame_port (snd (fs ! k)))
       (known_port (fst (fs ! k)) (snd (fs ! k)) (learn_all (take (Suc k) fs) s))) (outs ! k))"
proof (induction fs arbitrary: s outs)
  case (Cons f fs)
  obtain now p where f: "f = (now, p)" by (cases f)
  obtain out rest where o: "outs = out # rest"
    "relays_to p (relay_targets ift (frame_port p) (known_port now p (learn now p s))) out"
    "relay_trace ift fs (learn now p s) rest" using Cons.prems by (auto simp: f)
  note IH = Cons.IH[OF o(3)]
  have "relays_to (snd ((f # fs) ! k)) (relay_targets ift (frame_port (snd ((f # fs) ! k)))
      (known_port (fst ((f # fs) ! k)) (snd ((f # fs) ! k)) (learn_all (take (Suc k) (f # fs)) s))) (outs ! k)"
    if "k < length (f # fs)" for k
  proof (cases k)
    case 0
    then show ?thesis using o by (simp add: f learn_all_def)
  next
    case (Suc k')
    then show ?thesis using IH that o by (simp add: f learn_all_def)
  qed
  then show ?case using IH o by simp
qed simp

definition no_learned :: "simtime \<Rightarrow> mac_spec" where
  "no_learned agingTime = \<lparr>ms_aging = agingTime, ms_learned = (\<lambda>k. None)\<rparr>"

lemma relay_init_rel: "relay_rel ift now (relay_init d) (no_learned d)"
  using new_mac_table_rel by (simp add: relay_rel_def relay_init_def no_learned_def)

lemma relay_init_counts: "rl_processed (relay_init d) = 0" "rl_dropped (relay_init d) = 0"
  by (simp_all add: relay_init_def)

lemma relay_run_frames:
  assumes "valid_ids ift" "\<forall>(now, p) \<in> set fs. frame_ok ift p" "sorted (map fst fs)"
  shows "\<exists>outs st. relay_run ift fs (relay_init agingTime) = Inr (outs, st) \<and> length outs = length fs
    \<and> rl_processed st = int (length fs)
    \<and> (\<forall>k < length fs. relays_to (snd (fs ! k)) (relay_targets ift (frame_port (snd (fs ! k)))
         (known_port (fst (fs ! k)) (snd (fs ! k)) (learn_all (take (Suc k) fs) (no_learned agingTime)))) (outs ! k))"
proof (cases fs)
  case Nil
  then show ?thesis by (simp add: relay_init_def)
next
  case (Cons f fs')
  have "sorted (fst f # map fst fs)" using assms(3) Cons by simp
  from relay_run_trace[OF relay_init_rel[where d = agingTime] assms(1,2) this] obtain outs st where
    "relay_run ift fs (relay_init agingTime) = Inr (outs, st)" "relay_trace ift fs (no_learned agingTime) outs"
    "rl_processed st = int (length fs)" using relay_init_counts by auto
  then show ?thesis using relay_trace_nth by blast
qed

section \<open>What is learned stays\<close>

lemma learn_learned:
  "ms_learned (learn now p s) (0, a) =
    (if a = frame_src p \<and> \<not> mac_isMulticast a then Some (frame_port p, now) else ms_learned s (0, a))"
  "ms_aging (learn now p s) = ms_aging s"
  by (auto simp: learn_def)

lemma learn_all_other:
  assumes "\<forall>(now, p) \<in> set fs. frame_src p \<noteq> a"
  shows "ms_learned (learn_all fs s) (0, a) = ms_learned s (0, a) \<and> ms_aging (learn_all fs s) = ms_aging s"
  using assms
proof (induction fs arbitrary: s)
  case (Cons f fs)
  obtain now p where f: "f = (now, p)" by (cases f)
  have "\<forall>(now, p) \<in> set fs. frame_src p \<noteq> a" "frame_src p \<noteq> a" using Cons.prems by (auto simp: f)
  then show ?case using Cons.IH[of "learn now p s"] learn_learned(1)[where now = now and p = p and s = s and a = a]
      learn_learned(2)[where now = now and p = p and s = s]
    by (simp add: learn_all_def f)
qed (simp add: learn_all_def)

lemma learn_all_append: "learn_all (xs @ ys) s = learn_all ys (learn_all xs s)"
  by (simp add: learn_all_def)

lemma learn_all_aging: "ms_aging (learn_all fs s) = ms_aging s"
  by (induction fs arbitrary: s) (auto simp: learn_all_def learn_learned(2) split: prod.splits)

text \<open>C18: A switch started with an empty table handles any sequence of frames (complete frames
  from its own interfaces, at times that do not decrease) without raising, and for the
  \<open>k\<close>-th frame it sends exactly one copy, with the payload, the protocol, the addresses, the VLAN
  and the priority of the frame and without the tags of its reception, on every interface it should: the one its
  destination was last learned on if that is less than the aging time ago, none if that is where the frame
  came from, and otherwise (and for a broadcast) every forwarding interface but that one.\<close>

theorem relay_forwards:
  assumes "valid_ids ift" "\<forall>(now, p) \<in> set fs. frame_ok ift p" "sorted (map fst fs)"
  shows "\<exists>outs st. relay_run ift fs (relay_init agingTime) = Inr (outs, st) \<and> length outs = length fs
    \<and> rl_processed st = int (length fs)
    \<and> (\<forall>k < length fs. relays_to (snd (fs ! k)) (relay_targets ift (frame_port (snd (fs ! k)))
         (known_port (fst (fs ! k)) (snd (fs ! k)) (learn_all (take (Suc k) fs) (no_learned agingTime)))) (outs ! k))"
  using assms by (rule relay_run_frames)

text \<open>C33: Once a station has sent a frame from its interface, a frame to it that arrives on another
  interface within the aging time is sent out of that interface and no other, whatever the other
  stations sent before and in between.\<close>

theorem relay_learns:
  assumes "valid_ids ift" "\<forall>(now, p) \<in> set (before @ (t1, f1) # between @ [(t2, f2)]). frame_ok ift p"
    and "sorted (map fst (before @ (t1, f1) # between @ [(t2, f2)]))" and "t2 < t1 + agingTime"
    and "\<not> mac_isMulticast (frame_src f1)" "\<not> mac_isBroadcast (frame_src f1)"
    and "frame_dest f2 = frame_src f1" "frame_src f2 \<noteq> frame_src f1" "frame_port f2 \<noteq> frame_port f1"
    and "\<forall>(now, p) \<in> set between. frame_src p \<noteq> frame_src f1"
  shows "\<exists>outs st. relay_run ift (before @ (t1, f1) # between @ [(t2, f2)]) (relay_init agingTime) = Inr (outs, st)
    \<and> (\<exists>q. last outs = [IfOut q] \<and> relayed f2 q \<and> t_interfaceReq (pk_tags q) = Some (frame_port f1))"
proof -
  let ?fs = "before @ (t1, f1) # between @ [(t2, f2)]" and ?a = "frame_src f1"
  obtain outs st where r: "relay_run ift ?fs (relay_init agingTime) = Inr (outs, st)" "length outs = length ?fs"
    "\<forall>k < length ?fs. relays_to (snd (?fs ! k)) (relay_targets ift (frame_port (snd (?fs ! k)))
         (known_port (fst (?fs ! k)) (snd (?fs ! k)) (learn_all (take (Suc k) ?fs) (no_learned agingTime)))) (outs ! k)"
    using relay_run_frames[OF assms(1-3)] by blast
  let ?n = "length before + length between + 1"
  have last: "?fs ! ?n = (t2, f2)" "take (Suc ?n) ?fs = ?fs" "?n < length ?fs" by (simp_all add: nth_append)
  have "last outs = outs ! ?n" using r(2) by (subst last_conv_nth) auto
  then have out: "relays_to f2 (relay_targets ift (frame_port f2) (known_port t2 f2 (learn_all ?fs (no_learned agingTime)))) (last outs)"
    using r(3) last by (metis fst_conv snd_conv)
  have "ms_learned (learn_all ?fs (no_learned agingTime)) (0, ?a) = Some (frame_port f1, t1)"
    using assms(5,8) learn_all_other[OF assms(10)] learn_learned
    by (simp add: learn_all_append learn_all_def[of "_ # _"] learn_all_def[symmetric])
  moreover have "ms_aging (learn_all ?fs (no_learned agingTime)) = agingTime"
    by (simp add: learn_all_aging) (simp add: no_learned_def)
  ultimately have "known_port t2 f2 (learn_all ?fs (no_learned agingTime)) = Some (frame_port f1)"
    using assms(4,6,7) by (simp add: known_port_def)
  then have "relays_to f2 [frame_port f1] (last outs)" using out assms(9) by (simp add: relay_targets_def)
  then show ?thesis using r(1) by (auto simp: relays_to_def)
qed

section \<open>A switch with three ports\<close>

definition switch_port :: "int \<Rightarrow> network_interface" where
  "switch_port i = \<lparr>ie_id = i, ie_name = ''eth'', ie_fullPath = ''switch.eth'', ie_isUp = True, ie_isLoopback = False,
     ie_isBroadcast = True, ie_isMulticast = True, ie_mac = 0x0AAA00000000, ie_mtu = 1500, ie_protocol = Some P_ethernetMac,
     ie_ipAddress = 0, ie_netmask = 0, ie_ipMetric = 0, ie_joinedGroups = [], ie_listenerGroups = [], ie_ttlThreshold = 0\<rparr>"

definition example_frame :: "int \<Rightarrow> mac_address \<Rightarrow> mac_address \<Rightarrow> packet" where
  "example_frame i src dest = (new_packet ''frame'' 0)\<lparr>pk_content := [Data 1, Data 2], pk_tags := no_tags
     \<lparr>t_packetProtocol := Some P_ethernetMac, t_macInd := Some (src, dest), t_interfaceInd := Some i\<rparr>\<rparr>"

definition example_switch :: "network_interface list" where
  "example_switch = map switch_port [101, 102, 103]"

lemma example_switch_ok:
  "valid_ids example_switch"
  "i \<in> {101, 102, 103} \<Longrightarrow> frame_ok example_switch (example_frame i src dest)"
  by (auto simp: valid_ids_def example_switch_def switch_port_def frame_ok_def example_frame_def new_packet_def
      packet_ok_def frame_port_def findInterfaceById_def)

lemma example_frame_simps [simp]:
  "frame_src (example_frame i src dest) = src" "frame_dest (example_frame i src dest) = dest"
  "frame_port (example_frame i src dest) = i"
  by (simp_all add: frame_src_def frame_dest_def frame_port_def example_frame_def)

lemma relay_forwards_witness:
  "\<exists>outs st. relay_run example_switch [(0, example_frame 101 0x0A0000000001 0x0A0000000002),
       (5, example_frame 102 0x0A0000000002 0x0A0000000001)] (relay_init 120) = Inr (outs, st)
    \<and> relays_to (example_frame 101 0x0A0000000001 0x0A0000000002) [102, 103] (outs ! 0)
    \<and> relays_to (example_frame 102 0x0A0000000002 0x0A0000000001) [101] (outs ! 1)"
proof -
  let ?fs = "[(0 :: simtime, example_frame 101 0x0A0000000001 0x0A0000000002), (5, example_frame 102 0x0A0000000002 0x0A0000000001)]"
  have "\<forall>(now, p) \<in> set ?fs. frame_ok example_switch p" using example_switch_ok by simp
  moreover have "sorted (map fst ?fs)" by simp
  ultimately obtain outs st where r: "relay_run example_switch ?fs (relay_init 120) = Inr (outs, st)"
    "\<forall>k < length ?fs. relays_to (snd (?fs ! k)) (relay_targets example_switch (frame_port (snd (?fs ! k)))
         (known_port (fst (?fs ! k)) (snd (?fs ! k)) (learn_all (take (Suc k) ?fs) (no_learned 120)))) (outs ! k)"
    using relay_forwards[of example_switch ?fs 120] example_switch_ok(1) by blast
  have m: "\<not> mac_isMulticast 0x0A0000000001" "\<not> mac_isMulticast 0x0A0000000002"
    "\<not> mac_isBroadcast 0x0A0000000001" "\<not> mac_isBroadcast 0x0A0000000002" by code_simp+
  have "relays_to (example_frame 101 0x0A0000000001 0x0A0000000002) [102, 103] (outs ! 0)"
    using r(2)[rule_format, of 0] m
    by (simp add: learn_all_def learn_learned known_port_def no_learned_def relay_targets_def example_switch_def
        switch_port_def isForwardingInterface_def)
  moreover have "relays_to (example_frame 102 0x0A0000000002 0x0A0000000001) [101] (outs ! 1)"
    using r(2)[rule_format, of 1] m
    by (simp add: learn_all_def learn_learned known_port_def no_learned_def relay_targets_def example_switch_def
        switch_port_def isForwardingInterface_def)
  ultimately show ?thesis using r(1) by blast
qed

lemma relay_learns_witness:
  "\<exists>outs st. relay_run example_switch [(0, example_frame 101 0x0A0000000001 0xFFFFFFFFFFFF),
       (3, example_frame 103 0x0A0000000003 0x0A0000000002), (5, example_frame 102 0x0A0000000002 0x0A0000000001)] (relay_init 120)
       = Inr (outs, st)
    \<and> (\<exists>q. last outs = [IfOut q] \<and> relayed (example_frame 102 0x0A0000000002 0x0A0000000001) q \<and> t_interfaceReq (pk_tags q) = Some 101)"
proof -
  have m: "\<not> mac_isMulticast 0x0A0000000001" "\<not> mac_isBroadcast 0x0A0000000001" by code_simp+
  show ?thesis
    using relay_learns[where ift = example_switch and before = "[]" and ?t1.0 = 0 and ?f1.0 = "example_frame 101 0x0A0000000001 0xFFFFFFFFFFFF"
        and between = "[(3, example_frame 103 0x0A0000000003 0x0A0000000002)]" and ?t2.0 = 5
        and ?f2.0 = "example_frame 102 0x0A0000000002 0x0A0000000001" and agingTime = 120]
      example_switch_ok m by simp
qed

end
