(* ===== verification/Ethernet_Encap.thy ===== *)
theory Ethernet_Encap
  imports Wire
begin

text \<open>
  Ethernet encapsulation (\<open>linklayer/ethernet/basic/EthernetEncapsulation.{h,cc}\<close>) and the LLC
  module it extends (\<open>linklayer/ieee8022/Ieee8022Llc.{h,cc}\<close>): a packet of a higher layer gets a
  MAC header and a frame check sequence, behind an LLC or SNAP header where it has no EtherType;
  a frame from the MAC is stripped of them and passed up, to sockets and to the protocol
  it carries. Signals and the display string are left out.
\<close>

section \<open>State and outputs\<close>

definition snapOui :: protocol_group where
  "snapOui = []"

definition ieee8022protocol :: protocol_group where
  "ieee8022protocol = [(0x4242, P_stp), (0xAAAA, P_named ''ieee8022snap''), (0xFE00, P_named ''isis'')]"

definition isEth2Type :: "int \<Rightarrow> bool" where
  "isEth2Type n \<longleftrightarrow> n \<ge> 0x600 \<or> n = 0"

definition isIeee8023Length :: "int \<Rightarrow> bool" where
  "isIeee8023Length n \<longleftrightarrow> n > 0 \<and> n < 0x600"

definition MAX_ETHERNET_DATA_BYTES :: nat where
  "MAX_ETHERNET_DATA_BYTES = 1500"

definition ETHER_FCS_BYTES :: nat where
  "ETHER_FCS_BYTES = 4"

definition MULTICAST_PAUSE_ADDRESS :: mac_address where
  "MULTICAST_PAUSE_ADDRESS = 0x0180C2000001"

record eth_socket =
  eo_localAddress :: mac_address
  eo_remoteAddress :: mac_address
  eo_protocol :: "protocol option"
  eo_steal :: bool

text \<open>
  \<open>es_fcsMode\<close> is the number of the FCS mode; \<open>es_nicAddress\<close> the address of \<open>networkInterface\<close>, when
  there is one; \<open>es_llcSockets\<close> the local and the remote SAP of each LLC socket; \<open>es_channel\<close> the
  transmission channel, when there is one, as its busy flag and the end of a transmission
  started now.
\<close>

record eth_state =
  es_fcsMode :: nat
  es_useSNAP :: bool
  es_isRdma :: bool
  es_seqNum :: int
  es_totalFromHigherLayer :: int
  es_totalFromMAC :: int
  es_totalPauseSent :: int
  es_sockets :: "(int \<times> eth_socket) list"
  es_llcSockets :: "(int \<times> (int \<times> int)) list"
  es_upperProtocols :: "protocol list"
  es_queue :: "packet list"
  es_txScheduled :: bool
  es_nicAddress :: "mac_address option"

definition eth_init :: "nat \<Rightarrow> bool \<Rightarrow> bool \<Rightarrow> mac_address option \<Rightarrow> eth_state" where
  "eth_init fcsMode useSNAP isRdma nic = \<lparr>es_fcsMode = fcsMode, es_useSNAP = useSNAP, es_isRdma = isRdma, es_seqNum = 0,
     es_totalFromHigherLayer = 0, es_totalFromMAC = 0, es_totalPauseSent = 0, es_sockets = [], es_llcSockets = [],
     es_upperProtocols = [], es_queue = [], es_txScheduled = False, es_nicAddress = nic\<rparr>"

datatype eth_output =
    LowerLayerOut packet | UpperLayerOut packet | AppLayerOut packet
  | EthDropped packet                \<comment> \<open>\<open>NO_PROTOCOL_FOUND\<close>\<close>
  | SocketClosed string int          \<comment> \<open>gate and socket id\<close>
  | EthScheduleTx simtime

type_synonym eth_result = "(eth_output list \<times> eth_state) res"

section \<open>LLC\<close>

definition llc_header_of :: "packet \<Rightarrow> header res" where
  "llc_header_of p =
    (let protocol = t_packetProtocol (pk_tags p);
         number = (\<lambda>g. case protocol of Some prot \<Rightarrow> findProtocolNumber g prot | None \<Rightarrow> -1);
         ethType = number ethertype;
         oui = (if protocol \<noteq> None \<and> ethType = -1 then number snapOui else -1)
     in if ethType \<noteq> -1 then Inr (SnapH 0 ethType)
        else if oui \<noteq> -1 then Inr (SnapH oui (-1))
        else let sapData = number ieee8022protocol
             in if sapData \<noteq> -1 then Inr (LlcH ((sapData div 256) mod 256) (sapData mod 256) 3)
                else bindE (getTag (t_sapReq (pk_tags p))) (\<lambda>(ssap, dsap). Inr (LlcH ssap dsap 3)))"

definition llc_encapsulate :: "packet \<Rightarrow> packet res" where
  "llc_encapsulate p =
    bindE (llc_header_of p) (\<lambda>h.
    bindE (insertAtFront (header_cells h) p) (\<lambda>p.
      Inr (p\<lparr>pk_tags := (pk_tags p)\<lparr>t_packetProtocol := Some P_ieee8022llc\<rparr>\<rparr>)))"

text \<open>
  The SAPs and the control field of an LLC header; a SNAP header has 0xAA, 0xAA and 3 there. An LLC header
  with these values that is not a SNAP header is an error.
\<close>

fun llc_saps :: "llc_header \<Rightarrow> int \<times> int" where
  "llc_saps (Llc s d c) = (s, d)"
| "llc_saps (Snap oui n) = (0xAA, 0xAA)"

fun llc_getProtocol :: "llc_header \<Rightarrow> protocol option res" where
  "llc_getProtocol (Snap oui n) = Inr (if oui = 0 then findProtocol ethertype n else findProtocol snapOui oui)"
| "llc_getProtocol (Llc s d c) =
    (if s = 0xAA \<and> d = 0xAA \<and> c = 3
     then Inl (RuntimeError ''LLC header indicates SNAP header, but SNAP header is missing'')
     else Inr (findProtocol ieee8022protocol ((s mod 256) * 256 + d mod 256)))"

definition llc_decapsulate :: "packet \<Rightarrow> packet res" where
  "llc_decapsulate p =
    bindE (popAtFront as_llc p) (\<lambda>(h, p).
    bindE (llc_getProtocol h) (\<lambda>protocol.
      Inr (p\<lparr>pk_tags := (pk_tags p)\<lparr>t_sapInd := Some (llc_saps h), t_dispatchReq := protocol, t_packetProtocol := protocol\<rparr>\<rparr>)))"

definition llc_processPacketFromHigherLayer :: "packet \<Rightarrow> eth_state \<Rightarrow> eth_result" where
  "llc_processPacketFromHigherLayer p s = bindE (llc_encapsulate p) (\<lambda>p. Inr ([LowerLayerOut p], s))"

text \<open>A copy of a packet for a socket.\<close>

definition SOCKET_I_DATA :: int where
  "SOCKET_I_DATA = 0"

definition socket_copy :: "packet \<Rightarrow> int \<Rightarrow> eth_output" where
  "socket_copy p socketId = UpperLayerOut (p\<lparr>pk_kind := SOCKET_I_DATA, pk_tags := (pk_tags p)\<lparr>t_socketInd := Some socketId\<rparr>\<rparr>)"

definition llc_processPacketFromMac :: "packet \<Rightarrow> eth_state \<Rightarrow> eth_result" where
  "llc_processPacketFromMac p s =
    bindE (llc_decapsulate p) (\<lambda>p.
      let copies = (case t_sapInd (pk_tags p) of
            Some (ssap, dsap) \<Rightarrow>
              map (\<lambda>(socketId, localSap, remoteSap). socket_copy p socketId)
                (filter (\<lambda>(socketId, localSap, remoteSap). (localSap = dsap \<or> localSap = -1) \<and> (remoteSap = ssap \<or> remoteSap = -1))
                   (es_llcSockets s))
          | None \<Rightarrow> []);
          known = (case t_packetProtocol (pk_tags p) of Some prot \<Rightarrow> prot \<in> set (es_upperProtocols s) | None \<Rightarrow> False)
      in Inr (if known then copies @ [UpperLayerOut p] else if copies = [] then [EthDropped p] else copies, s))"

section \<open>From the higher layer\<close>

definition eth_typeOrLength :: "packet \<Rightarrow> eth_state \<Rightarrow> int" where
  "eth_typeOrLength p s =
    (if es_useSNAP s then -1
     else case t_packetProtocol (pk_tags p) of
         None \<Rightarrow> -1
       | Some prot \<Rightarrow> findProtocolNumber ethertype (if prot = P_rdma then P_ipv4 else prot))"

definition eth_header :: "simtime \<Rightarrow> protocol \<Rightarrow> mac_address \<Rightarrow> mac_address \<Rightarrow> int \<Rightarrow> mac_header" where
  "eth_header now protocol src dest typeOrLength =
    (let h = new_mac_header\<lparr>mh_src := src, mh_dest := dest, mh_typeOrLength := typeOrLength mod 2 ^ 16\<rparr>
     in if protocol = P_rdma then h\<lparr>mh_isRdma := Some 1, mh_generationTime := now\<rparr>
        else if protocol = P_ipv4 then h\<lparr>mh_isRdma := Some 0\<rparr> else h)"

definition eth_processPacketFromHigherLayer :: "simtime \<Rightarrow> packet \<Rightarrow> eth_state \<Rightarrow> eth_result" where
  "eth_processPacketFromHigherLayer now p s =
    (let p = p\<lparr>pk_tags := (pk_tags p)\<lparr>t_dispatchReq := None\<rparr>\<rparr>
     in if dataLength p > MAX_ETHERNET_DATA_BYTES
        then Inl (RuntimeError ''packet length from higher layer exceeds maximum Ethernet payload length'')
        else
          let s = s\<lparr>es_totalFromHigherLayer := es_totalFromHigherLayer s + 1\<rparr>;
              ethType = eth_typeOrLength p s
          in bindE (if ethType = -1 then bindE (llc_encapsulate p) (\<lambda>p. Inr (int (dataLength p), p)) else Inr (ethType, p)) (\<lambda>(typeOrLength, p).
             bindE (getTag (t_macReq (pk_tags p))) (\<lambda>(src, dest).
             bindE (getTag (t_packetProtocol (pk_tags p))) (\<lambda>protocol.
               let srcAddr = (case es_nicAddress s of Some a \<Rightarrow> if src = 0 then a else src | None \<Rightarrow> src)
               in bindE (insertAtFront (header_cells (MacH (eth_header now protocol srcAddr dest typeOrLength))) p) (\<lambda>p.
                  bindE (insertAtBack (header_cells (FcsH (es_fcsMode s))) p) (\<lambda>p.
                    Inr ([LowerLayerOut (p\<lparr>pk_tags := (pk_tags p)\<lparr>t_packetProtocol := Some P_ethernetMac\<rparr>\<rparr>)], s)))))))"

section \<open>From the MAC\<close>

definition decapsulateMacHeader :: "packet \<Rightarrow> (mac_header \<times> packet) res" where
  "decapsulateMacHeader p =
    bindE (popAtFront as_mac p) (\<lambda>(h, p).
    bindE (popAtBack as_fcs ETHER_FCS_BYTES p) (\<lambda>(_, p).
      let p = p\<lparr>pk_tags := (pk_tags p)\<lparr>t_macInd := Some (mh_src h, mh_dest h)\<rparr>\<rparr>; n = mh_typeOrLength h
      in if isIeee8023Length n then
           (if int (dataLength p) < n then Inl (RuntimeError ''incorrect payload length in ethernet frame'')
            else bindE (setBackOffset (int (pk_front p) + n) p) (\<lambda>p.
                   Inr (h, p\<lparr>pk_tags := (pk_tags p)\<lparr>t_packetProtocol := Some P_ieee8022llc\<rparr>\<rparr>)))
         else if isEth2Type n then
           Inr (h, p\<lparr>pk_tags := (pk_tags p)\<lparr>t_packetProtocol := findProtocol ethertype n\<rparr>\<rparr>)
         else Inr (h, p)))"

definition eth_socket_matches :: "packet \<Rightarrow> mac_header \<Rightarrow> eth_socket \<Rightarrow> bool res" where
  "eth_socket_matches p h so =
    (if eo_remoteAddress so \<noteq> 0 \<and> \<not> mac_isBroadcast (mh_src h) \<and> mh_src h \<noteq> eo_remoteAddress so then Inr False
     else if eo_localAddress so \<noteq> 0 \<and> \<not> mac_isBroadcast (mh_dest h) \<and> mh_dest h \<noteq> eo_localAddress so then Inr False
     else case eo_protocol so of
         None \<Rightarrow> Inr True
       | Some prot \<Rightarrow> bindE (getTag (t_packetProtocol (pk_tags p))) (\<lambda>prot'. Inr (prot' = prot)))"

text \<open>The loop over the sockets: the copies it sends, and whether a socket steals the packet.\<close>

fun eth_to_sockets :: "packet \<Rightarrow> mac_header \<Rightarrow> (int \<times> eth_socket) list \<Rightarrow> (eth_output list \<times> bool) res" where
  "eth_to_sockets p h [] = Inr ([], False)"
| "eth_to_sockets p h ((socketId, so) # sos) =
    bindE (eth_socket_matches p h so) (\<lambda>m.
    bindE (eth_to_sockets p h sos) (\<lambda>(outs, steal).
      Inr (if m then (socket_copy p socketId # outs, eo_steal so \<or> steal) else (outs, steal))))"

definition eth_sendPacket :: "(bool \<times> simtime) option \<Rightarrow> packet \<Rightarrow> eth_state \<Rightarrow> eth_result" where
  "eth_sendPacket channel p s =
    (let s = s\<lparr>es_totalFromMAC := es_totalFromMAC s + 1\<rparr>
     in bindE (getTag (t_packetProtocol (pk_tags p))) (\<lambda>protocol.
        if es_isRdma s \<and> protocol \<noteq> P_arp then Inr ([AppLayerOut p], s)
        else case channel of
            None \<Rightarrow> Inr ([UpperLayerOut p], s)
          | Some (busy, finish) \<Rightarrow>
              if es_txScheduled s then Inl (RuntimeError ''scheduleAt(): Message is already scheduled'')
              else Inr ([UpperLayerOut p, EthScheduleTx finish], s\<lparr>es_txScheduled := True\<rparr>)))"

text \<open>The head of \<open>queueToUpperLayer\<close>, if there is one.\<close>

definition eth_send_next :: "(bool \<times> simtime) option \<Rightarrow> eth_state \<Rightarrow> eth_result" where
  "eth_send_next channel s =
    (case es_queue s of [] \<Rightarrow> Inr ([], s) | p # ps \<Rightarrow> eth_sendPacket channel p (s\<lparr>es_queue := ps\<rparr>))"

definition eth_passUp :: "(bool \<times> simtime) option \<Rightarrow> packet \<Rightarrow> eth_state \<Rightarrow> eth_result" where
  "eth_passUp channel p s =
    (if es_isRdma s then eth_sendPacket channel p s
     else let s = s\<lparr>es_queue := es_queue s @ [p]\<rparr>
          in case channel of
              None \<Rightarrow> Inl (RuntimeError ''transmissionChannel is nullptr'')
            | Some (busy, _) \<Rightarrow> if busy then Inr ([], s) else eth_send_next channel s)"

definition eth_processPacketFromMac :: "(bool \<times> simtime) option \<Rightarrow> packet \<Rightarrow> eth_state \<Rightarrow> eth_result" where
  "eth_processPacketFromMac channel p s =
    bindE (decapsulateMacHeader p) (\<lambda>(h, p).
      let n = mh_typeOrLength h
      in if isIeee8023Length n then llc_processPacketFromMac p s
         else if isEth2Type n then
           let payloadProtocol = findProtocol ethertype n;
               p = p\<lparr>pk_tags := (pk_tags p)\<lparr>t_packetProtocol := payloadProtocol, t_dispatchReq := payloadProtocol\<rparr>\<rparr>
           in bindE (eth_to_sockets p h (es_sockets s)) (\<lambda>(copies, steal).
                if steal then Inr (copies, s)
                else if (case payloadProtocol of Some prot \<Rightarrow> prot \<in> set (es_upperProtocols s) | None \<Rightarrow> False)
                then bindE (eth_passUp (if copies = [] then channel else channel_sent channel) p s) (\<lambda>(outs, s). Inr (copies @ outs, s))
                else Inr (copies @ [EthDropped p], s))
         else Inl (RuntimeError ''Unknown ethernet header''))"

definition eth_handleEndTxPeriod :: "(bool \<times> simtime) option \<Rightarrow> eth_state \<Rightarrow> eth_result" where
  "eth_handleEndTxPeriod channel s = eth_send_next channel s"

section \<open>Commands\<close>

definition eth_handleSendPause :: "int \<Rightarrow> mac_address \<Rightarrow> int \<Rightarrow> simtime \<Rightarrow> eth_state \<Rightarrow> eth_result" where
  "eth_handleSendPause moduleId dest pauseUnits now s =
    (let p = new_packet (''pause-'' @ string_of_nat (nat moduleId) @ ''-'' @ string_of_nat (nat (es_seqNum s))) now;
         s = s\<lparr>es_seqNum := es_seqNum s + 1\<rparr>;
         h = new_mac_header\<lparr>mh_dest := (if dest = 0 then MULTICAST_PAUSE_ADDRESS else dest), mh_typeOrLength := 0x8808\<rparr>
     in bindE (insertAtFront (header_cells (PauseH pauseUnits)) p) (\<lambda>p.
        bindE (insertAtFront (header_cells (MacH h)) p) (\<lambda>p.
        bindE (insertAtBack (header_cells (FcsH (es_fcsMode s))) p) (\<lambda>p.
          Inr ([LowerLayerOut (p\<lparr>pk_tags := (pk_tags p)\<lparr>t_packetProtocol := Some P_ethernetMac\<rparr>\<rparr>)],
               s\<lparr>es_totalPauseSent := es_totalPauseSent s + 1\<rparr>)))))"

datatype eth_command =
    EthPause mac_address int | EthBind int mac_address mac_address "protocol option" bool
  | EthClose int | EthDestroy int | LlcOpen int int | EthUnknown

definition llc_processCommand :: "eth_command \<Rightarrow> eth_state \<Rightarrow> eth_result" where
  "llc_processCommand cmd s =
    (case cmd of
       LlcOpen socketId localSap \<Rightarrow> Inr ([], s\<lparr>es_llcSockets := map_insert socketId (localSap, -1) (es_llcSockets s)\<rparr>)
     | EthClose socketId \<Rightarrow> Inr ([SocketClosed ''upperLayerOut'' socketId], s\<lparr>es_llcSockets := map_erase socketId (es_llcSockets s)\<rparr>)
     | EthDestroy socketId \<Rightarrow> Inr ([], s\<lparr>es_llcSockets := map_erase socketId (es_llcSockets s)\<rparr>)
     | _ \<Rightarrow> Inl (RuntimeError ''Unknown command''))"

definition eth_processCommand :: "int \<Rightarrow> simtime \<Rightarrow> eth_command \<Rightarrow> eth_state \<Rightarrow> eth_result" where
  "eth_processCommand moduleId now cmd s =
    (case cmd of
       EthPause dest pauseUnits \<Rightarrow> eth_handleSendPause moduleId dest pauseUnits now s
     | EthBind socketId local remote protocol steal \<Rightarrow>
         Inr ([], s\<lparr>es_sockets := map_insert socketId \<lparr>eo_localAddress = local, eo_remoteAddress = remote,
                eo_protocol = protocol, eo_steal = steal\<rparr> (es_sockets s)\<rparr>)
     | EthClose socketId \<Rightarrow>
         (if map_of (es_sockets s) socketId \<noteq> None
          then Inr ([SocketClosed ''transportOut'' socketId], s\<lparr>es_sockets := map_erase socketId (es_sockets s)\<rparr>)
          else llc_processCommand cmd s)
     | EthDestroy socketId \<Rightarrow>
         (if map_of (es_sockets s) socketId \<noteq> None then Inr ([], s\<lparr>es_sockets := map_erase socketId (es_sockets s)\<rparr>)
          else llc_processCommand cmd s)
     | _ \<Rightarrow> llc_processCommand cmd s)"

section \<open>Dispatch\<close>

text \<open>
  Whatever arrives from the higher layer is cast to \<open>Packet\<close>: the cast raises for a command, which is a
  \<open>Request\<close>. The base class tells the two apart.
\<close>

datatype eth_message =
    EthEndTxTimer | EthOtherTimer | EthFromUpper packet | EthCommand eth_command | EthFromMac packet

definition eth_handleMessageWhenUp ::
  "int \<Rightarrow> simtime \<Rightarrow> (bool \<times> simtime) option \<Rightarrow> eth_message \<Rightarrow> eth_state \<Rightarrow> eth_result" where
  "eth_handleMessageWhenUp moduleId now channel msg s =
    (case msg of
       EthEndTxTimer \<Rightarrow> eth_handleEndTxPeriod channel (s\<lparr>es_txScheduled := False\<rparr>)
     | EthOtherTimer \<Rightarrow> Inr ([], s)
     | EthFromUpper p \<Rightarrow> eth_processPacketFromHigherLayer now p s
     | EthCommand cmd \<Rightarrow> Inl (RuntimeError ''check_and_cast(): Cannot cast inet::Request to type inet::Packet'')
     | EthFromMac p \<Rightarrow> eth_processPacketFromMac channel p s)"

definition llc_handleMessageWhenUp :: "eth_message \<Rightarrow> eth_state \<Rightarrow> eth_result" where
  "llc_handleMessageWhenUp msg s =
    (case msg of
       EthFromUpper p \<Rightarrow> llc_processPacketFromHigherLayer p s
     | EthCommand cmd \<Rightarrow> llc_processCommand cmd s
     | EthFromMac p \<Rightarrow> llc_processPacketFromMac p s
     | _ \<Rightarrow> Inl (RuntimeError ''Unknown gate''))"

definition handleRegisterProtocol :: "protocol \<Rightarrow> eth_state \<Rightarrow> eth_state" where
  "handleRegisterProtocol prot s = s\<lparr>es_upperProtocols := List.insert prot (es_upperProtocols s)\<rparr>"

definition llc_clearSockets :: "eth_state \<Rightarrow> eth_state" where
  "llc_clearSockets s = s\<lparr>es_llcSockets := []\<rparr>"

section \<open>A frame from one host to another\<close>

lemma popAtBack_header:
  assumes "packet_ok p" "pk_data p = xs @ header_cells h" "0 < header_length h" "as h = Some x"
  shows "\<exists>q. popAtBack as (header_length h) p = Inr (x, q) \<and> packet_ok q \<and> pk_data q = xs
    \<and> pk_tags q = pk_tags p \<and> pk_front q = pk_front p"
proof -
  define q where "q = p\<lparr>pk_back := pk_back p + header_length h\<rparr>"
  have len: "dataLength p = length xs + header_length h" using assms(2) by (metis length_append length_header_cells length_pk_data)
  then have "drop (dataLength p - header_length h) (pk_data p) = header_cells h" using assms(2) by simp
  moreover have "header_at (header_cells h) = Some h" using header_at_cells[OF assms(3), of "[]"] by simp
  ultimately have pop: "popAtBack as (header_length h) p = Inr (x, q)"
    using len assms(4) by (simp add: popAtBack_def q_def)
  have l: "length (pk_content p) - pk_front p - (pk_back p + header_length h) = length xs"
    using len by (simp add: dataLength_def totalLength_def)
  have "pk_data q = take (length xs) (pk_data p)"
    unfolding pk_data_alt[of q] using l len by (simp add: q_def pk_data_alt dataLength_def totalLength_def)
  then have "pk_data q = xs" using assms(2) by simp
  moreover have "packet_ok q" using assms(1) len by (simp add: q_def packet_ok_def dataLength_def totalLength_def)
  ultimately show ?thesis using pop by (auto simp: q_def)
qed

lemma ethertype_number:
  assumes "findProtocolNumber ethertype prot = n" "n \<noteq> -1"
  shows "findProtocol ethertype n = Some prot \<and> 0x600 \<le> n \<and> n < 2 ^ 16"
proof -
  have f: "findProtocol ethertype n = Some prot"
    using assms distinct_groups(2) by (intro findProtocol_number) (simp_all add: getProtocolNumber_def)
  then have "(n, prot) \<in> set ethertype" unfolding findProtocol_def by (rule map_of_SomeD)
  moreover have "\<forall>(n, prot) \<in> set ethertype. 0x600 \<le> n \<and> n < 2 ^ 16" by (simp add: ethertype_def)
  ultimately show ?thesis using f by auto
qed

text \<open>What \<open>processPacketFromHigherLayer\<close> puts around the payload.\<close>

definition eth_link_protocol :: "protocol \<Rightarrow> bool \<Rightarrow> protocol" where
  "eth_link_protocol prot snap = (if prot = P_rdma \<and> \<not> snap then P_ipv4 else prot)"

definition eth_payload :: "bool \<Rightarrow> int \<Rightarrow> cell list \<Rightarrow> cell list" where
  "eth_payload snap n dat = (if snap then header_cells (SnapH 0 n) @ dat else dat)"

lemma eth_send_frame:
  assumes ok: "packet_ok p" "dataLength p \<le> MAX_ETHERNET_DATA_BYTES"
    and tags: "t_packetProtocol (pk_tags p) = Some prot" "t_macReq (pk_tags p) = Some (src, dest)"
    and n: "findProtocolNumber ethertype (eth_link_protocol prot (es_useSNAP s)) = n" "n \<noteq> -1"
  shows "\<exists>q mh. eth_processPacketFromHigherLayer now p s
      = Inr ([LowerLayerOut q], s\<lparr>es_totalFromHigherLayer := es_totalFromHigherLayer s + 1\<rparr>)
    \<and> packet_ok q \<and> pk_data q = header_cells (MacH mh) @ eth_payload (es_useSNAP s) n (pk_data p) @ header_cells (FcsH (es_fcsMode s))
    \<and> t_packetProtocol (pk_tags q) = Some P_ethernetMac \<and> mh_dest mh = dest
    \<and> mh_src mh = (case es_nicAddress s of Some a \<Rightarrow> if src = 0 then a else src | None \<Rightarrow> src)
    \<and> mh_typeOrLength mh = (if es_useSNAP s then 8 + int (dataLength p) else n)"
proof -
  let ?p = "p\<lparr>pk_tags := (pk_tags p)\<lparr>t_dispatchReq := None\<rparr>\<rparr>" and ?s = "s\<lparr>es_totalFromHigherLayer := es_totalFromHigherLayer s + 1\<rparr>"
  let ?src = "case es_nicAddress s of Some a \<Rightarrow> if src = 0 then a else src | None \<Rightarrow> src"
  let ?etype = "if es_useSNAP s then 8 + int (dataLength p) else n"
  have nn: "0x600 \<le> n" "n < 2 ^ 16" using ethertype_number[OF n] by simp_all
  have ne: "header_cells h \<noteq> []" if "0 < header_length h" for h using that by (metis length_greater_0_conv length_header_cells)
  have enc: "\<exists>p1 prot1. (if eth_typeOrLength ?p ?s = -1 then bindE (llc_encapsulate ?p) (\<lambda>p. Inr (int (dataLength p), p)) else Inr (eth_typeOrLength ?p ?s, ?p))
      = Inr (?etype, p1) \<and> packet_ok p1 \<and> pk_data p1 = eth_payload (es_useSNAP s) n (pk_data p)
      \<and> t_macReq (pk_tags p1) = Some (src, dest) \<and> t_packetProtocol (pk_tags p1) = Some prot1"
  proof (cases "es_useSNAP s")
    case True
    then have h: "llc_header_of ?p = Inr (SnapH 0 n)" using n tags by (simp add: llc_header_of_def eth_link_protocol_def Let_def)
    obtain p1 where p1: "insertAtFront (header_cells (SnapH 0 n)) ?p = Inr p1"
      using insertAtFront_eq[of ?p "header_cells (SnapH 0 n)"] ok ne[of "SnapH 0 n"] by auto
    from insertAtFront_ok[OF _ _ p1] have i: "packet_ok p1" "pk_data p1 = header_cells (SnapH 0 n) @ pk_data p" "pk_tags p1 = pk_tags ?p"
      using ok ne[of "SnapH 0 n"] by simp_all
    have "dataLength p1 = 8 + dataLength p" using arg_cong[OF i(2), of length] by (simp add: length_header_cells length_pk_data)
    then show ?thesis using True h p1 i tags by (simp add: eth_typeOrLength_def llc_encapsulate_def eth_payload_def)
  next
    case False
    then have "eth_typeOrLength ?p ?s = n" using n tags by (simp add: eth_typeOrLength_def eth_link_protocol_def)
    then show ?thesis using False n ok tags by (simp add: eth_payload_def)
  qed
  then obtain p1 prot1 where p1: "(if eth_typeOrLength ?p ?s = -1 then bindE (llc_encapsulate ?p) (\<lambda>p. Inr (int (dataLength p), p)) else Inr (eth_typeOrLength ?p ?s, ?p))
      = Inr (?etype, p1)" "packet_ok p1" "pk_data p1 = eth_payload (es_useSNAP s) n (pk_data p)"
      "t_macReq (pk_tags p1) = Some (src, dest)" "t_packetProtocol (pk_tags p1) = Some prot1" by blast
  define mh where "mh = eth_header now prot1 ?src dest ?etype"
  obtain p2 where p2: "insertAtFront (header_cells (MacH mh)) p1 = Inr p2" using insertAtFront_eq[OF p1(2) ne[of "MacH mh"]] by auto
  from insertAtFront_ok[OF p1(2) ne p2] have i2: "packet_ok p2" "pk_data p2 = header_cells (MacH mh) @ pk_data p1" "pk_tags p2 = pk_tags p1"
    by simp_all
  obtain p3 where p3: "insertAtBack (header_cells (FcsH (es_fcsMode s))) p2 = Inr p3"
    using insertAtBack_eq[OF i2(1) ne[of "FcsH (es_fcsMode s)"]] by auto
  from insertAtBack_ok[OF i2(1) ne p3] have i3: "packet_ok p3" "pk_data p3 = pk_data p2 @ header_cells (FcsH (es_fcsMode s))" by simp_all
  let ?q = "p3\<lparr>pk_tags := (pk_tags p3)\<lparr>t_packetProtocol := Some P_ethernetMac\<rparr>\<rparr>"
  have dl: "\<not> dataLength ?p > MAX_ETHERNET_DATA_BYTES" using ok(2) by simp
  have "eth_processPacketFromHigherLayer now p s = Inr ([LowerLayerOut ?q], ?s)"
    unfolding eth_processPacketFromHigherLayer_def Let_def if_not_P[OF dl] p1(1)
    using p1(4,5) p2 p3 by (simp add: mh_def)
  moreover have "mh_dest mh = dest" "mh_src mh = ?src" "mh_typeOrLength mh = ?etype"
    using nn ok(2) by (simp_all add: mh_def eth_header_def Let_def new_mac_header_def MAX_ETHERNET_DATA_BYTES_def)
  ultimately show ?thesis using i3 i2 p1(3) by auto
qed

text \<open>The frame as it arrives: the MAC below may have padded it in front of the check sequence.\<close>

definition frame_arrives :: "mac_header \<Rightarrow> nat \<Rightarrow> cell list \<Rightarrow> cell list \<Rightarrow> packet \<Rightarrow> bool" where
  "frame_arrives mh fcs dat pad r \<longleftrightarrow> packet_ok r
     \<and> pk_data r = header_cells (MacH mh) @ (dat @ pad) @ header_cells (FcsH fcs)"

lemma decapsulate_frame:
  assumes r: "frame_arrives mh fcs dat pad r"
  shows "isEth2Type (mh_typeOrLength mh) \<Longrightarrow> \<exists>q. decapsulateMacHeader r = Inr (mh, q) \<and> packet_ok q \<and> pk_data q = dat @ pad
      \<and> pk_tags q = (pk_tags r)\<lparr>t_macInd := Some (mh_src mh, mh_dest mh), t_packetProtocol := findProtocol ethertype (mh_typeOrLength mh)\<rparr>"
    and "isIeee8023Length (mh_typeOrLength mh) \<Longrightarrow> mh_typeOrLength mh = int (length dat)
      \<Longrightarrow> \<exists>q. decapsulateMacHeader r = Inr (mh, q) \<and> packet_ok q \<and> pk_data q = dat
        \<and> pk_tags q = (pk_tags r)\<lparr>t_macInd := Some (mh_src mh, mh_dest mh), t_packetProtocol := Some P_ieee8022llc\<rparr>"
proof -
  have ok: "packet_ok r" and d: "pk_data r = header_cells (MacH mh) @ (dat @ pad) @ header_cells (FcsH fcs)"
    using r by (simp_all add: frame_arrives_def)
  obtain p1 where p1: "popAtFront as_mac r = Inr (mh, p1)" "packet_ok p1" "pk_data p1 = (dat @ pad) @ header_cells (FcsH fcs)"
    "pk_tags p1 = pk_tags r" using popAtFront_header[OF ok d, of as_mac mh] by auto
  have 4: "header_length (FcsH fcs) = ETHER_FCS_BYTES" by (simp add: ETHER_FCS_BYTES_def)
  obtain p2 where p2: "popAtBack as_fcs ETHER_FCS_BYTES p1 = Inr (fcs, p2)" "packet_ok p2" "pk_data p2 = dat @ pad" "pk_tags p2 = pk_tags r"
    using popAtBack_header[OF p1(2,3), of as_fcs fcs] p1(4) unfolding 4 by (auto simp: ETHER_FCS_BYTES_def)
  let ?p = "p2\<lparr>pk_tags := (pk_tags p2)\<lparr>t_macInd := Some (mh_src mh, mh_dest mh)\<rparr>\<rparr>"
  show "\<exists>q. decapsulateMacHeader r = Inr (mh, q) \<and> packet_ok q \<and> pk_data q = dat @ pad
      \<and> pk_tags q = (pk_tags r)\<lparr>t_macInd := Some (mh_src mh, mh_dest mh), t_packetProtocol := findProtocol ethertype (mh_typeOrLength mh)\<rparr>"
    if "isEth2Type (mh_typeOrLength mh)"
  proof -
    have "\<not> isIeee8023Length (mh_typeOrLength mh)" using that by (auto simp: isEth2Type_def isIeee8023Length_def)
    then show ?thesis using p1(1) p2 that by (simp add: decapsulateMacHeader_def Let_def)
  qed
  show "\<exists>q. decapsulateMacHeader r = Inr (mh, q) \<and> packet_ok q \<and> pk_data q = dat
        \<and> pk_tags q = (pk_tags r)\<lparr>t_macInd := Some (mh_src mh, mh_dest mh), t_packetProtocol := Some P_ieee8022llc\<rparr>"
    if n: "isIeee8023Length (mh_typeOrLength mh)" "mh_typeOrLength mh = int (length dat)"
  proof -
    have dl: "dataLength p2 = length dat + length pad" using p2(3) by (metis length_append length_pk_data)
    have "int (pk_front ?p) + int (length dat) \<le> int (backOffset ?p)"
      using dl p2(2) by (simp add: backOffset_def dataLength_def totalLength_def packet_ok_def)
    from setBackOffset_ok[OF _ _ this] obtain q where q: "setBackOffset (int (pk_front ?p) + int (length dat)) ?p = Inr q" "packet_ok q"
      "pk_data q = take (length dat) (pk_data ?p)" "pk_tags q = pk_tags ?p"
      using p2(2) by auto
    have "decapsulateMacHeader r = Inr (mh, q\<lparr>pk_tags := (pk_tags q)\<lparr>t_packetProtocol := Some P_ieee8022llc\<rparr>\<rparr>)"
      using p1(1) p2(1) n dl q(1) by (simp add: decapsulateMacHeader_def Let_def)
    then show ?thesis using q p2(3,4) by simp
  qed
qed

text \<open>A host that can take a packet from the MAC at once: no sockets, and an idle channel.\<close>

definition eth_ready :: "eth_state \<Rightarrow> bool" where
  "eth_ready s \<longleftrightarrow> es_sockets s = [] \<and> es_llcSockets s = [] \<and> es_queue s = [] \<and> \<not> es_txScheduled s"

definition eth_passed_up :: "eth_state \<Rightarrow> protocol \<Rightarrow> bool \<Rightarrow> packet \<Rightarrow> eth_output list \<Rightarrow> bool" where
  "eth_passed_up s prot snap a outs \<longleftrightarrow>
     (if es_isRdma s \<and> prot \<noteq> P_arp \<and> \<not> snap then outs = [AppLayerOut a]
      else filter (\<lambda>out. case out of EthScheduleTx _ \<Rightarrow> False | _ \<Rightarrow> True) outs = [UpperLayerOut a])"

lemma eth_receive_ethernet2:
  assumes r: "frame_arrives mh fcs dat pad r" and s: "eth_ready s" "prot \<in> set (es_upperProtocols s)"
    and n: "findProtocol ethertype (mh_typeOrLength mh) = Some prot" "0x600 \<le> mh_typeOrLength mh"
  shows "\<exists>a outs s'. eth_processPacketFromMac (Some (False, finish)) r s = Inr (outs, s') \<and> eth_passed_up s prot False a outs
    \<and> pk_data a = dat @ pad \<and> t_macInd (pk_tags a) = Some (mh_src mh, mh_dest mh)
    \<and> t_packetProtocol (pk_tags a) = Some prot \<and> t_dispatchReq (pk_tags a) = Some prot"
proof -
  have e: "isEth2Type (mh_typeOrLength mh)" "\<not> isIeee8023Length (mh_typeOrLength mh)"
    using n(2) by (simp_all add: isEth2Type_def isIeee8023Length_def)
  obtain q where q: "decapsulateMacHeader r = Inr (mh, q)" "pk_data q = dat @ pad"
    "pk_tags q = (pk_tags r)\<lparr>t_macInd := Some (mh_src mh, mh_dest mh), t_packetProtocol := Some prot\<rparr>"
    using decapsulate_frame(1)[OF r e(1)] n(1) by auto
  let ?a = "q\<lparr>pk_tags := (pk_tags q)\<lparr>t_packetProtocol := Some prot, t_dispatchReq := Some prot\<rparr>\<rparr>"
  have "eth_processPacketFromMac (Some (False, finish)) r s = eth_passUp (Some (False, finish)) ?a s"
    using q(1) e n(1) s by (simp add: eth_processPacketFromMac_def eth_ready_def Let_def) (simp add: bindE_def split: sum.split prod.split)
  moreover have "\<exists>outs s'. eth_passUp (Some (False, finish)) ?a s = Inr (outs, s') \<and> eth_passed_up s prot False ?a outs"
    using s by (simp add: eth_passUp_def eth_send_next_def eth_sendPacket_def eth_ready_def eth_passed_up_def Let_def)
  ultimately obtain outs s' where "eth_processPacketFromMac (Some (False, finish)) r s = Inr (outs, s')" "eth_passed_up s prot False ?a outs"
    by auto
  then show ?thesis using q(2,3) by (intro exI[of _ ?a] exI[of _ outs] exI[of _ s']) simp
qed

lemma eth_receive_snap:
  assumes r: "frame_arrives mh fcs (header_cells (SnapH 0 n) @ dat) pad r" and s: "eth_ready s" "prot \<in> set (es_upperProtocols s)"
    and n: "findProtocol ethertype n = Some prot" and len: "mh_typeOrLength mh = 8 + int (length dat)" "length dat \<le> MAX_ETHERNET_DATA_BYTES"
  shows "\<exists>a outs s'. eth_processPacketFromMac (Some (False, finish)) r s = Inr (outs, s') \<and> eth_passed_up s prot True a outs
    \<and> pk_data a = dat \<and> t_macInd (pk_tags a) = Some (mh_src mh, mh_dest mh)
    \<and> t_packetProtocol (pk_tags a) = Some prot \<and> t_dispatchReq (pk_tags a) = Some prot"
proof -
  have e: "isIeee8023Length (mh_typeOrLength mh)" using len by (simp add: isIeee8023Length_def MAX_ETHERNET_DATA_BYTES_def)
  have "mh_typeOrLength mh = int (length (header_cells (SnapH 0 n) @ dat))" using len(1) by simp
  from decapsulate_frame(2)[OF r e this] obtain q where q: "decapsulateMacHeader r = Inr (mh, q)" "packet_ok q"
    "pk_data q = header_cells (SnapH 0 n) @ dat"
    "pk_tags q = (pk_tags r)\<lparr>t_macInd := Some (mh_src mh, mh_dest mh), t_packetProtocol := Some P_ieee8022llc\<rparr>" by blast
  obtain q1 where q1: "popAtFront as_llc q = Inr (Snap 0 n, q1)" "pk_data q1 = dat" "pk_tags q1 = pk_tags q"
    using popAtFront_header[OF q(2,3), of as_llc "Snap 0 n"] by auto
  let ?a = "q1\<lparr>pk_tags := (pk_tags q1)\<lparr>t_sapInd := Some (0xAA, 0xAA), t_dispatchReq := Some prot, t_packetProtocol := Some prot\<rparr>\<rparr>"
  have "eth_processPacketFromMac (Some (False, finish)) r s = Inr ([UpperLayerOut ?a], s)"
    using q(1) e q1(1) n s by (simp add: eth_processPacketFromMac_def llc_processPacketFromMac_def llc_decapsulate_def eth_ready_def Let_def)
  then show ?thesis using q1(2,3) q(4) by (intro exI[of _ ?a] exI[of _ "[UpperLayerOut ?a]"] exI[of _ s]) (simp add: eth_passed_up_def)
qed

text \<open>C19: A packet of at most 1500 bytes of a protocol with an EtherType (RDMA counts as IPv4) is sent
  as one frame: a MAC header with the addresses asked for, the own address when the source is
  left open, then the data (behind a SNAP header when SNAP is used), then the check sequence. A host
  that the frame reaches, padded or not, and that has the protocol registered passes up one
  packet with the data, the addresses and the protocol: to the application on an RDMA interface, except
  for ARP, and to the upper layer otherwise. The padding is removed when SNAP is used, and stays otherwise.\<close>

theorem eth_frame_roundtrip:
  assumes "packet_ok p" "dataLength p \<le> MAX_ETHERNET_DATA_BYTES"
    and "t_packetProtocol (pk_tags p) = Some prot" "t_macReq (pk_tags p) = Some (src, dest)"
    and "findProtocolNumber ethertype (eth_link_protocol prot (es_useSNAP s)) \<noteq> -1"
  shows "\<exists>q mh dat. eth_processPacketFromHigherLayer now p s
      = Inr ([LowerLayerOut q], s\<lparr>es_totalFromHigherLayer := es_totalFromHigherLayer s + 1\<rparr>)
    \<and> pk_data q = header_cells (MacH mh) @ dat @ header_cells (FcsH (es_fcsMode s)) \<and> mh_dest mh = dest
    \<and> mh_src mh = (case es_nicAddress s of Some a \<Rightarrow> if src = 0 then a else src | None \<Rightarrow> src)
    \<and> (\<forall>r pad s' finish. frame_arrives mh (es_fcsMode s) dat pad r \<and> eth_ready s'
          \<and> eth_link_protocol prot (es_useSNAP s) \<in> set (es_upperProtocols s')
        \<longrightarrow> (\<exists>a outs s''. eth_processPacketFromMac (Some (False, finish)) r s' = Inr (outs, s'')
              \<and> eth_passed_up s' (eth_link_protocol prot (es_useSNAP s)) (es_useSNAP s) a outs
              \<and> pk_data a = pk_data p @ (if es_useSNAP s then [] else pad) \<and> t_macInd (pk_tags a) = Some (mh_src mh, dest)
              \<and> t_packetProtocol (pk_tags a) = Some (eth_link_protocol prot (es_useSNAP s))
              \<and> t_dispatchReq (pk_tags a) = Some (eth_link_protocol prot (es_useSNAP s))))"
proof -
  let ?n = "findProtocolNumber ethertype (eth_link_protocol prot (es_useSNAP s))" and ?prot = "eth_link_protocol prot (es_useSNAP s)"
  let ?dat = "eth_payload (es_useSNAP s) ?n (pk_data p)"
  obtain q mh where q: "eth_processPacketFromHigherLayer now p s = Inr ([LowerLayerOut q], s\<lparr>es_totalFromHigherLayer := es_totalFromHigherLayer s + 1\<rparr>)"
    "pk_data q = header_cells (MacH mh) @ ?dat @ header_cells (FcsH (es_fcsMode s))" "mh_dest mh = dest"
    "mh_src mh = (case es_nicAddress s of Some a \<Rightarrow> if src = 0 then a else src | None \<Rightarrow> src)"
    "mh_typeOrLength mh = (if es_useSNAP s then 8 + int (dataLength p) else ?n)"
    using eth_send_frame[OF assms(1-4) refl assms(5), of now] by blast
  note n = ethertype_number[OF refl assms(5)]
  have "\<exists>a outs s''. eth_processPacketFromMac (Some (False, finish)) r s' = Inr (outs, s'') \<and> eth_passed_up s' ?prot (es_useSNAP s) a outs
      \<and> pk_data a = pk_data p @ (if es_useSNAP s then [] else pad) \<and> t_macInd (pk_tags a) = Some (mh_src mh, dest)
      \<and> t_packetProtocol (pk_tags a) = Some ?prot \<and> t_dispatchReq (pk_tags a) = Some ?prot"
    if a: "frame_arrives mh (es_fcsMode s) ?dat pad r" "eth_ready s'" "?prot \<in> set (es_upperProtocols s')" for r pad s' finish
  proof (cases "es_useSNAP s")
    case True
    have "frame_arrives mh (es_fcsMode s) (header_cells (SnapH 0 ?n) @ pk_data p) pad r" using a(1) True by (simp add: eth_payload_def)
    from eth_receive_snap[OF this a(2,3), of finish] show ?thesis using n q(3,5) True assms(2) by simp
  next
    case False
    have "frame_arrives mh (es_fcsMode s) (pk_data p) pad r" using a(1) False by (simp add: eth_payload_def)
    from eth_receive_ethernet2[OF this a(2,3), of finish] show ?thesis using n q(3,5) False by simp
  qed
  then show ?thesis using q(1-4) by blast
qed

definition eth_example_packet :: packet where
  "eth_example_packet = (new_packet ''rdma'' 0)\<lparr>pk_content := [Data 7, Data 8],
     pk_tags := no_tags\<lparr>t_packetProtocol := Some P_rdma, t_macReq := Some (0, 0x0A0000000002)\<rparr>\<rparr>"

definition eth_example_host :: eth_state where
  "eth_example_host = (eth_init 1 False True None)\<lparr>es_upperProtocols := [P_ipv4]\<rparr>"

lemma eth_frame_roundtrip_witness:
  "\<exists>q mh dat a s''. eth_processPacketFromHigherLayer 0 eth_example_packet (eth_init 1 False False (Some 0x0A0000000001))
      = Inr ([LowerLayerOut q], (eth_init 1 False False (Some 0x0A0000000001))\<lparr>es_totalFromHigherLayer := 1\<rparr>)
    \<and> mh_src mh = 0x0A0000000001
    \<and> eth_processPacketFromMac (Some (False, 9)) ((new_packet ''in'' 0)\<lparr>pk_content := header_cells (MacH mh)
         @ (dat @ [Data 0]) @ header_cells (FcsH 1)\<rparr>) eth_example_host = Inr ([AppLayerOut a], s'')
    \<and> pk_data a = [Data 7, Data 8, Data 0] \<and> t_dispatchReq (pk_tags a) = Some P_ipv4"
proof -
  let ?s = "eth_init 1 False False (Some 0x0A0000000001)"
  have d: "pk_data eth_example_packet = [Data 7, Data 8]" by (simp add: eth_example_packet_def new_packet_def pk_data_alt)
  have p: "packet_ok eth_example_packet" "dataLength eth_example_packet \<le> MAX_ETHERNET_DATA_BYTES"
    "t_packetProtocol (pk_tags eth_example_packet) = Some P_rdma" "t_macReq (pk_tags eth_example_packet) = Some (0, 0x0A0000000002)"
    by (simp_all add: eth_example_packet_def new_packet_def packet_ok_def dataLength_def totalLength_def MAX_ETHERNET_DATA_BYTES_def)
  have s: "es_useSNAP ?s = False" "es_fcsMode ?s = 1" "es_nicAddress ?s = Some 0x0A0000000001" "es_totalFromHigherLayer ?s = 0"
    by (simp_all add: eth_init_def)
  have l: "eth_link_protocol P_rdma False = P_ipv4" by (simp add: eth_link_protocol_def)
  have n: "findProtocolNumber ethertype (eth_link_protocol P_rdma (es_useSNAP ?s)) \<noteq> -1"
    unfolding l s by (simp add: findProtocolNumber_def ethertype_def)
  note T = eth_frame_roundtrip[OF p n, where now = 0, unfolded s l d if_False option.case simp_thms if_True add_0_left]
  obtain q mh dat where q: "eth_processPacketFromHigherLayer 0 eth_example_packet ?s = Inr ([LowerLayerOut q], ?s\<lparr>es_totalFromHigherLayer := 1\<rparr>)"
    "pk_data q = header_cells (MacH mh) @ dat @ header_cells (FcsH 1)" "mh_dest mh = 0x0A0000000002" "mh_src mh = 0x0A0000000001"
    and rcv: "\<forall>r pad s' finish. frame_arrives mh 1 dat pad r \<and> eth_ready s' \<and> P_ipv4 \<in> set (es_upperProtocols s')
        \<longrightarrow> (\<exists>a outs s''. eth_processPacketFromMac (Some (False, finish)) r s' = Inr (outs, s'')
              \<and> eth_passed_up s' P_ipv4 False a outs \<and> pk_data a = [Data 7, Data 8] @ pad
              \<and> t_macInd (pk_tags a) = Some (mh_src mh, 0x0A0000000002) \<and> t_packetProtocol (pk_tags a) = Some P_ipv4
              \<and> t_dispatchReq (pk_tags a) = Some P_ipv4)"
    using T by (elim exE conjE) (rule that)
  let ?r = "(new_packet ''in'' 0)\<lparr>pk_content := header_cells (MacH mh) @ (dat @ [Data 0]) @ header_cells (FcsH 1)\<rparr>"
  have "frame_arrives mh 1 dat [Data 0] ?r" by (simp add: frame_arrives_def packet_ok_def new_packet_def pk_data_alt)
  moreover have h: "eth_ready eth_example_host" "P_ipv4 \<in> set (es_upperProtocols eth_example_host)" "es_isRdma eth_example_host"
    by (simp_all add: eth_ready_def eth_example_host_def eth_init_def)
  ultimately obtain a outs s'' where a: "eth_processPacketFromMac (Some (False, 9)) ?r eth_example_host = Inr (outs, s'')"
    "eth_passed_up eth_example_host P_ipv4 False a outs" "pk_data a = [Data 7, Data 8] @ [Data 0]" "t_dispatchReq (pk_tags a) = Some P_ipv4"
    using rcv by blast
  have "outs = [AppLayerOut a]" using a(2) h(3) by (simp add: eth_passed_up_def)
  then show ?thesis using q a by (intro exI[of _ q] exI[of _ mh] exI[of _ dat] exI[of _ a] exI[of _ s'']) simp
qed

end
