(* ===== verification/Arp.thy ===== *)
theory Arp
  imports Ipv4_Output
begin

text \<open>
  The ARP module (\<open>networklayer/arp/ipv4/Arp.{h,cc}\<close>): the cache of resolved and pending addresses,
  the resolution that \<open>Ipv4\<close> asks for, the retries on a timer, the answers to requests and what
  is learned from every packet. A handler is a function on the state that may raise; what it
  sends and the notifications it emits are appended to \<open>ar_out\<close> in order. The interface pointer of an
  entry is the interface's id, and the timer of an entry is the time it fires at. What the module
  reads and does not change is in the environment: the parameters, the interfaces, the pattern
  of the proxy ARP interfaces, the time. The routing table is shared with \<open>Ipv4\<close>.
\<close>

section \<open>State\<close>

record arp_env =
  an_now :: simtime
  an_ift :: "network_interface list"
  an_retryTimeout :: simtime
  an_retryCount :: int
  an_cacheTimeout :: simtime
  an_proxy :: "string \<Rightarrow> bool"

record arp_entry =
  ae_ie :: int
  ae_pending :: bool
  ae_mac :: mac_address
  ae_lastUpdate :: simtime
  ae_numRetries :: int
  ae_timer :: "simtime option"

text \<open>A new entry, once its interface is set; the other members have initializers.\<close>

definition new_arp_entry :: "int \<Rightarrow> arp_entry" where
  "new_arp_entry ie = \<lparr>ae_ie = ie, ae_pending = False, ae_mac = 0, ae_lastUpdate = 0,
     ae_numRetries = 0, ae_timer = None\<rparr>"

datatype arp_output =
    ArpIfOut packet                          \<comment> \<open>\<open>send(packet, "ifOut")\<close>\<close>
  | ArpInitiated ipv4_address int            \<comment> \<open>the notifications: address, MAC address, interface\<close>
  | ArpCompleted ipv4_address mac_address int
  | ArpFailed ipv4_address int

record arp_state =
  ar_cache :: "(ipv4_address \<times> arp_entry) list"
  ar_out :: "arp_output list"
  ar_rt :: routing_table
  ar_numResolutions :: int
  ar_numFailedResolutions :: int
  ar_numRequestsSent :: int
  ar_numRepliesSent :: int

definition arp_init :: "routing_table \<Rightarrow> arp_state" where
  "arp_init rt = \<lparr>ar_cache = [], ar_out = [], ar_rt = rt, ar_numResolutions = 0,
     ar_numFailedResolutions = 0, ar_numRequestsSent = 0, ar_numRepliesSent = 0\<rparr>"

definition arp_emit :: "arp_output \<Rightarrow> arp_state \<Rightarrow> arp_state" where
  "arp_emit x s = s\<lparr>ar_out := ar_out s @ [x]\<rparr>"

definition arp_set_entry :: "ipv4_address \<Rightarrow> arp_entry \<Rightarrow> arp_state \<Rightarrow> arp_state" where
  "arp_set_entry a e s = s\<lparr>ar_cache := map_insert a e (ar_cache s)\<rparr>"

text \<open>Reading through the interface pointer of an entry.\<close>

definition arp_interface :: "arp_env \<Rightarrow> int \<Rightarrow> network_interface res" where
  "arp_interface env i = (case findInterfaceById (an_ift env) i of Some ie \<Rightarrow> Inr ie | None \<Rightarrow> Inl null_pointer)"

section \<open>Packets\<close>

text \<open>A new packet for the network protocol, with the tags that every sender sets.\<close>

definition arp_make_packet ::
  "string \<Rightarrow> simtime \<Rightarrow> arp_packet \<Rightarrow> network_interface \<Rightarrow> mac_address \<Rightarrow> mac_address \<Rightarrow> packet res" where
  "arp_make_packet name now a ie srcMac destMac =
    bindE (insertAtFront (header_cells (ArpH a)) (new_packet name now)) (\<lambda>p.
      Inr (p\<lparr>pk_tags := (pk_tags p)\<lparr>t_macReq := Some (srcMac, destMac), t_interfaceReq := Some (ie_id ie),
              t_dispatchReq := ie_protocol ie, t_packetProtocol := Some P_arp\<rparr>\<rparr>))"

definition arp_sendArpRequest :: "arp_env \<Rightarrow> int \<Rightarrow> ipv4_address \<Rightarrow> arp_state \<Rightarrow> arp_state res" where
  "arp_sendArpRequest env i addr s =
    bindE (arp_interface env i) (\<lambda>ie.
    bindE (assertE (ie_mac ie \<noteq> 0) ''!myMACAddress.isUnspecified()'') (\<lambda>_.
    bindE (assertE (\<not> ip_isUnspecified (ie_ipAddress ie)) ''!myIPAddress.isUnspecified()'') (\<lambda>_.
    bindE (arp_make_packet ''arpREQ'' (an_now env)
             (new_arp_packet\<lparr>ap_opcode := 1, ap_srcMac := ie_mac ie, ap_srcIp := ie_ipAddress ie, ap_destIp := addr\<rparr>)
             ie 0 0xFFFFFFFFFFFF) (\<lambda>p.
    Inr ((arp_emit (ArpIfOut p) s)\<lparr>ar_numRequestsSent := ar_numRequestsSent s + 1\<rparr>)))))"

section \<open>Resolution\<close>

definition arp_initiateArpResolution :: "arp_env \<Rightarrow> ipv4_address \<Rightarrow> arp_entry \<Rightarrow> arp_state \<Rightarrow> arp_state res" where
  "arp_initiateArpResolution env addr e s =
    (let e = e\<lparr>ae_pending := True, ae_numRetries := 0, ae_lastUpdate := 0, ae_mac := 0\<rparr> in
     bindE (arp_sendArpRequest env (ae_ie e) addr (arp_set_entry addr e s)) (\<lambda>s.
       let e = e\<lparr>ae_timer := Some (an_now env + an_retryTimeout env)\<rparr> in
       Inr (arp_emit (ArpInitiated addr (ae_ie e))
         ((arp_set_entry addr e s)\<lparr>ar_numResolutions := ar_numResolutions s + 1\<rparr>))))"

definition arp_requestTimedOut :: "arp_env \<Rightarrow> ipv4_address \<Rightarrow> arp_state \<Rightarrow> arp_state res" where
  "arp_requestTimedOut env addr s =
    (case map_of (ar_cache s) addr of
       None \<Rightarrow> Inl null_pointer
     | Some e \<Rightarrow>
         let e = e\<lparr>ae_numRetries := ae_numRetries e + 1\<rparr> in
         if ae_numRetries e < an_retryCount env then
           bindE (arp_sendArpRequest env (ae_ie e) addr s) (\<lambda>s.
             Inr (arp_set_entry addr (e\<lparr>ae_timer := Some (an_now env + an_retryTimeout env)\<rparr>) s))
         else
           let s = arp_emit (ArpFailed addr (ae_ie e)) s in
           Inr (s\<lparr>ar_cache := map_erase addr (ar_cache s),
                  ar_numFailedResolutions := ar_numFailedResolutions s + 1\<rparr>))"

text \<open>\<open>updateArpCache\<close> cancels the timer of a pending entry.\<close>

definition arp_updateArpCache :: "arp_env \<Rightarrow> ipv4_address \<Rightarrow> arp_entry \<Rightarrow> mac_address \<Rightarrow> arp_state \<Rightarrow> arp_state" where
  "arp_updateArpCache env addr e mac s =
    (let e = (if ae_pending e then e\<lparr>ae_pending := False, ae_timer := None, ae_numRetries := 0\<rparr> else e);
         e = e\<lparr>ae_mac := mac, ae_lastUpdate := an_now env\<rparr>
     in arp_emit (ArpCompleted addr mac (ae_ie e)) (arp_set_entry addr e s))"

definition arp_resolveL3Address ::
  "arp_env \<Rightarrow> l3_address \<Rightarrow> network_interface \<Rightarrow> arp_state \<Rightarrow> (mac_address \<times> arp_state) res" where
  "arp_resolveL3Address env address ie s =
    bindE (l3_toIpv4 address) (\<lambda>addr.
    case map_of (ar_cache s) addr of
      None \<Rightarrow> bindE (arp_initiateArpResolution env addr (new_arp_entry (ie_id ie)) s) (\<lambda>s. Inr (0, s))
    | Some e \<Rightarrow>
        if ae_pending e then Inr (0, s)
        else if ae_lastUpdate e + an_cacheTimeout env \<ge> an_now env then Inr (ae_mac e, s)
        else bindE (arp_initiateArpResolution env addr (e\<lparr>ae_ie := ie_id ie\<rparr>) s) (\<lambda>s. Inr (0, s)))"

definition arp_getL3AddressFor :: "arp_env \<Rightarrow> mac_address \<Rightarrow> arp_state \<Rightarrow> l3_address" where
  "arp_getL3AddressFor env mac s =
    (if mac = 0 then L3IPv4 0
     else case find (\<lambda>(a, e). ae_mac e = mac \<and> ae_lastUpdate e + an_cacheTimeout env \<ge> an_now env) (ar_cache s) of
       Some (a, e) \<Rightarrow> L3IPv4 a | None \<Rightarrow> L3IPv4 0)"

section \<open>Received packets\<close>

definition arp_addressRecognized :: "arp_env \<Rightarrow> ipv4_address \<Rightarrow> network_interface \<Rightarrow> routing_table \<Rightarrow> bool \<times> routing_table" where
  "arp_addressRecognized env destAddr ie rt =
    (if isLocalAddress (an_ift env) destAddr then (True, rt)
     else if an_proxy env (ie_name ie) then
       let (rtie, rt) = getInterfaceForDestAddr destAddr rt in (rtie \<noteq> None \<and> rtie \<noteq> Some (ie_id ie), rt)
     else (False, rt))"

definition arp_resolveMacAddressForArpReply :: "network_interface \<Rightarrow> arp_packet \<Rightarrow> mac_address" where
  "arp_resolveMacAddressForArpReply ie arp = ie_mac ie"

definition arp_reply :: "arp_env \<Rightarrow> arp_packet \<Rightarrow> network_interface \<Rightarrow> arp_state \<Rightarrow> arp_state res" where
  "arp_reply env arp ie s =
    (let myMAC = arp_resolveMacAddressForArpReply ie arp in
     if myMAC = 0 then Inr s
     else bindE (arp_make_packet ''arpREPLY'' (an_now env)
            (new_arp_packet\<lparr>ap_destIp := ap_srcIp arp, ap_destMac := ap_srcMac arp,
               ap_srcIp := ap_destIp arp, ap_srcMac := myMAC, ap_opcode := 2\<rparr>) ie 0 (ap_srcMac arp)) (\<lambda>p.
          Inr ((arp_emit (ArpIfOut p) s)\<lparr>ar_numRepliesSent := ar_numRepliesSent s + 1\<rparr>)))"

definition arp_opcode_action :: "arp_env \<Rightarrow> arp_packet \<Rightarrow> network_interface \<Rightarrow> arp_state \<Rightarrow> arp_state res" where
  "arp_opcode_action env arp ie s =
    (if ap_opcode arp = 1 then arp_reply env arp ie s
     else if ap_opcode arp = 2 then Inr s
     else if ap_opcode arp = 3 then Inl (RuntimeError ''RARP request received: RARP is not supported'')
     else if ap_opcode arp = 4 then Inl (RuntimeError ''RARP reply received: RARP is not supported'')
     else Inl (RuntimeError ''Unsupported opcode in received ARP packet''))"

definition arp_processArpPacket :: "arp_env \<Rightarrow> packet \<Rightarrow> arp_state \<Rightarrow> arp_state res" where
  "arp_processArpPacket env p s =
    bindE (peekAtFront as_arp p) (\<lambda>arp.
    bindE (getTag (t_interfaceInd (pk_tags p))) (\<lambda>i.
    bindE (getInterfaceById (an_ift env) i) (\<lambda>ie.
    if ap_srcMac arp = 0 then Inl (RuntimeError ''wrong ARP packet: source MAC address is empty'')
    else if ip_isUnspecified (ap_srcIp arp) then Inl (RuntimeError ''wrong ARP packet: source IPv4 address is empty'')
    else
      let it = map_of (ar_cache s) (ap_srcIp arp);
          s = (case it of Some e \<Rightarrow> arp_updateArpCache env (ap_srcIp arp) e (ap_srcMac arp) s | None \<Rightarrow> s);
          (recognized, rt) = arp_addressRecognized env (ap_destIp arp) ie (ar_rt s);
          s = s\<lparr>ar_rt := rt\<rparr>
      in
      if \<not> recognized then Inr s
      else
        let s = (if it = None
                 then arp_updateArpCache env (ap_srcIp arp) (new_arp_entry (ie_id ie)) (ap_srcMac arp) s
                 else s)
        in arp_opcode_action env arp ie s)))"

section \<open>Announcements and probes\<close>

text \<open>
  \<open>std::map::insert\<close> keeps the entry that is there already; the new entry is lost then.
\<close>

definition arp_sendArpGratuitous ::
  "arp_env \<Rightarrow> network_interface \<Rightarrow> mac_address \<Rightarrow> ipv4_address \<Rightarrow> int \<Rightarrow> arp_state \<Rightarrow> arp_state res" where
  "arp_sendArpGratuitous env ie srcAddr ipAddr opcode s =
    bindE (assertE (srcAddr \<noteq> 0) ''!srcAddr.isUnspecified()'') (\<lambda>_.
    bindE (assertE (\<not> ip_isUnspecified ipAddr) ''!ipAddr.isUnspecified()'') (\<lambda>_.
    bindE (arp_make_packet ''arpGrt'' (an_now env)
             (new_arp_packet\<lparr>ap_opcode := opcode, ap_srcMac := srcAddr, ap_srcIp := ipAddr, ap_destIp := ipAddr,
                ap_destMac := 0xFFFFFFFFFFFF\<rparr>) ie srcAddr 0xFFFFFFFFFFFF) (\<lambda>p.
    let s = (if map_of (ar_cache s) ipAddr = None then arp_set_entry ipAddr (new_arp_entry (ie_id ie)) s else s)
    in Inr (arp_emit (ArpIfOut p) s))))"

definition arp_sendArpProbe ::
  "arp_env \<Rightarrow> network_interface \<Rightarrow> mac_address \<Rightarrow> ipv4_address \<Rightarrow> arp_state \<Rightarrow> arp_state res" where
  "arp_sendArpProbe env ie srcAddr probedAddr s =
    bindE (assertE (srcAddr \<noteq> 0) ''!srcAddr.isUnspecified()'') (\<lambda>_.
    bindE (assertE (\<not> ip_isUnspecified probedAddr) ''!probedAddr.isUnspecified()'') (\<lambda>_.
    bindE (arp_make_packet ''arpProbe'' (an_now env)
             (new_arp_packet\<lparr>ap_opcode := 1, ap_srcMac := srcAddr, ap_srcIp := 0, ap_destIp := probedAddr, ap_destMac := 0\<rparr>)
             ie srcAddr 0xFFFFFFFFFFFF) (\<lambda>p.
    Inr (arp_emit (ArpIfOut p) s))))"

section \<open>Events and lifecycle\<close>

datatype arp_event = ArpTimer ipv4_address | ArpMessage packet

fun arp_handleMessageWhenUp :: "arp_env \<Rightarrow> arp_event \<Rightarrow> arp_state \<Rightarrow> arp_state res" where
  "arp_handleMessageWhenUp env (ArpTimer a) s = arp_requestTimedOut env a s"
| "arp_handleMessageWhenUp env (ArpMessage p) s = arp_processArpPacket env p s"

definition arp_flush :: "arp_state \<Rightarrow> arp_state" where
  "arp_flush s = s\<lparr>ar_cache := []\<rparr>"

definition arp_handleStartOperation :: "arp_state \<Rightarrow> arp_state res" where
  "arp_handleStartOperation s = bindE (assertE (ar_cache s = []) ''arpCache.empty()'') (\<lambda>_. Inr s)"

definition arp_handleStopOperation :: "arp_state \<Rightarrow> arp_state" where
  "arp_handleStopOperation s = arp_flush s"

definition arp_handleCrashOperation :: "arp_state \<Rightarrow> arp_state" where
  "arp_handleCrashOperation s = arp_flush s"

section \<open>What the operations do\<close>

lemma arp_make_packet_Inr:
  "arp_make_packet name now a ie srcMac destMac = Inr p \<Longrightarrow>
     packet_ok p \<and> pk_data p = header_cells (ArpH a) \<and> t_macReq (pk_tags p) = Some (srcMac, destMac)
     \<and> t_interfaceReq (pk_tags p) = Some (ie_id ie) \<and> t_packetProtocol (pk_tags p) = Some P_arp
     \<and> t_dispatchReq (pk_tags p) = ie_protocol ie"
  using insertAtFront_ok[of "new_packet name now" "header_cells (ArpH a)"]
  by (auto simp: arp_make_packet_def bindE_eq_Inr header_cells_def)

lemma arp_make_packet_total: "\<exists>p. arp_make_packet name now a ie srcMac destMac = Inr p"
  using insertAtFront_eq[of "new_packet name now" "header_cells (ArpH a)"]
  by (simp add: arp_make_packet_def header_cells_def)

lemma arp_peek: "pk_data p = header_cells (ArpH a) @ xs \<Longrightarrow> peekAtFront as_arp p = Inr a"
  by (auto intro: peekAtFront_header)

text \<open>The request: it is sent whenever both addresses of the interface are set, and nothing else changes.\<close>

definition arp_request_for :: "network_interface \<Rightarrow> ipv4_address \<Rightarrow> arp_packet" where
  "arp_request_for ie addr = new_arp_packet\<lparr>ap_opcode := 1, ap_srcMac := ie_mac ie, ap_srcIp := ie_ipAddress ie, ap_destIp := addr\<rparr>"

definition arp_sends :: "arp_packet \<Rightarrow> network_interface \<Rightarrow> mac_address \<Rightarrow> mac_address \<Rightarrow> packet \<Rightarrow> bool" where
  "arp_sends a ie srcMac destMac p \<longleftrightarrow> packet_ok p \<and> pk_data p = header_cells (ArpH a)
     \<and> t_macReq (pk_tags p) = Some (srcMac, destMac) \<and> t_interfaceReq (pk_tags p) = Some (ie_id ie)
     \<and> t_packetProtocol (pk_tags p) = Some P_arp"

lemma arp_request_Inr:
  assumes "arp_sendArpRequest env i addr s = Inr s'"
  shows "\<exists>ie p. findInterfaceById (an_ift env) i = Some ie \<and> arp_sends (arp_request_for ie addr) ie 0 0xFFFFFFFFFFFF p
    \<and> s' = s\<lparr>ar_out := ar_out s @ [ArpIfOut p], ar_numRequestsSent := ar_numRequestsSent s + 1\<rparr>"
  using assms
  by (auto simp: arp_sendArpRequest_def bindE_eq_Inr arp_interface_def arp_emit_def arp_sends_def arp_request_for_def
      split: option.splits dest!: arp_make_packet_Inr)

lemma arp_request_total:
  assumes "findInterfaceById (an_ift env) i = Some ie" "ie_mac ie \<noteq> 0" "ie_ipAddress ie \<noteq> 0"
  shows "\<exists>s'. arp_sendArpRequest env i addr s = Inr s'"
  using assms arp_make_packet_total[of "''arpREQ''" "an_now env" "arp_request_for ie addr" ie 0 "0xFFFFFFFFFFFF"]
  by (auto simp: arp_sendArpRequest_def arp_interface_def ip_isUnspecified_def arp_request_for_def)

lemma map_insert_twice: "map_insert k v (map_insert k w m) = map_insert k v m"
  by (induction m) auto

lemma arp_initiate_Inr:
  assumes "arp_initiateArpResolution env addr e s = Inr s'"
  shows "\<exists>ie p. findInterfaceById (an_ift env) (ae_ie e) = Some ie \<and> arp_sends (arp_request_for ie addr) ie 0 0xFFFFFFFFFFFF p
    \<and> s' = s\<lparr>ar_numRequestsSent := ar_numRequestsSent s + 1,
             ar_cache := map_insert addr (e\<lparr>ae_pending := True, ae_numRetries := 0, ae_lastUpdate := 0,
                ae_mac := 0, ae_timer := Some (an_now env + an_retryTimeout env)\<rparr>) (ar_cache s),
             ar_numResolutions := ar_numResolutions s + 1,
             ar_out := ar_out s @ [ArpIfOut p, ArpInitiated addr (ae_ie e)]\<rparr>"
proof -
  obtain t where t: "arp_sendArpRequest env (ae_ie e) addr
      (arp_set_entry addr (e\<lparr>ae_pending := True, ae_numRetries := 0, ae_lastUpdate := 0, ae_mac := 0\<rparr>) s) = Inr t"
    using assms by (auto simp: arp_initiateArpResolution_def Let_def bindE_eq_Inr)
  show ?thesis using arp_request_Inr[OF t] assms t
    by (auto simp: arp_initiateArpResolution_def arp_set_entry_def arp_emit_def map_insert_twice)
qed

lemma arp_initiate_total:
  assumes "findInterfaceById (an_ift env) (ae_ie e) = Some ie" "ie_mac ie \<noteq> 0" "ie_ipAddress ie \<noteq> 0"
  shows "\<exists>s'. arp_initiateArpResolution env addr e s = Inr s'"
proof -
  obtain t where "arp_sendArpRequest env (ae_ie e) addr
     (arp_set_entry addr (e\<lparr>ae_pending := True, ae_numRetries := 0, ae_lastUpdate := 0, ae_mac := 0\<rparr>) s) = Inr t"
    using arp_request_total[OF assms] by blast
  then show ?thesis by (simp add: arp_initiateArpResolution_def Let_def)
qed

section \<open>Well-formed caches\<close>

definition arp_entry_ok :: "int \<Rightarrow> simtime \<Rightarrow> arp_entry \<Rightarrow> bool" where
  "arp_entry_ok retryCount now e \<longleftrightarrow>
    (if ae_pending e
     then ae_mac e = 0 \<and> 0 \<le> ae_numRetries e \<and> ae_numRetries e < max 1 retryCount
       \<and> (case ae_timer e of Some t \<Rightarrow> now \<le> t | None \<Rightarrow> False)
     else ae_timer e = None \<and> ae_numRetries e = 0 \<and> ae_lastUpdate e \<le> now \<and> (ae_mac e = 0 \<longrightarrow> ae_lastUpdate e = 0))"

definition arp_pending :: "(ipv4_address \<times> arp_entry) list \<Rightarrow> int" where
  "arp_pending c = int (length (filter (\<lambda>(a, e). ae_pending e) c))"

definition arp_ok :: "int \<Rightarrow> simtime \<Rightarrow> arp_state \<Rightarrow> bool" where
  "arp_ok retryCount now s \<longleftrightarrow> map_ok (ar_cache s) \<and> (\<forall>e \<in> set (ar_cache s). arp_entry_ok retryCount now (snd e))
     \<and> 0 \<le> ar_numFailedResolutions s
     \<and> ar_numFailedResolutions s + arp_pending (ar_cache s) \<le> ar_numResolutions s
     \<and> ar_numResolutions s \<le> ar_numRequestsSent s"

lemma arp_pending_insert:
  "map_ok c \<Longrightarrow> arp_pending (map_insert a e c) =
     arp_pending c + of_bool (ae_pending e) - of_bool (\<exists>d. map_of c a = Some d \<and> ae_pending d)"
proof (induction c)
  case (Cons x c)
  obtain b d where x: "x = (b, d)" by (cases x)
  have "map_ok c" using Cons.prems by (simp add: map_ok_Cons)
  moreover have "map_of c a = None" if "a < b \<or> a = b"
    using Cons.prems that by (force simp: map_ok_Cons x map_of_eq_None_iff)
  ultimately show ?case using Cons.IH by (auto simp: x arp_pending_def)
qed (simp add: arp_pending_def)

lemma arp_pending_erase:
  "map_ok c \<Longrightarrow> arp_pending (map_erase a c) = arp_pending c - of_bool (\<exists>d. map_of c a = Some d \<and> ae_pending d)"
proof (induction c)
  case (Cons x c)
  obtain b d where x: "x = (b, d)" by (cases x)
  have c: "map_ok c" using Cons.prems by (simp add: map_ok_Cons)
  have "map_erase b c = c" "map_of c b = None"
    using Cons.prems by (force simp: map_ok_Cons x map_erase_def filter_id_conv map_of_eq_None_iff)+
  then show ?case using Cons.IH[OF c] by (auto simp: x arp_pending_def map_erase_def)
qed (simp add: arp_pending_def map_erase_def)

lemma arp_pending_nonneg [simp]: "0 \<le> arp_pending c"
  by (simp add: arp_pending_def)

lemma arp_entry_later:
  "arp_entry_ok rc now e \<Longrightarrow> now \<le> now' \<Longrightarrow> (\<And>t. ae_timer e = Some t \<Longrightarrow> now' \<le> t) \<Longrightarrow> arp_entry_ok rc now' e"
  by (auto simp: arp_entry_ok_def split: option.splits)

lemma arp_okD: "arp_ok rc now s \<Longrightarrow> map_of (ar_cache s) a = Some e \<Longrightarrow> arp_entry_ok rc now e"
  by (auto simp: arp_ok_def dest!: map_of_SomeD)

lemma entries_insert:
  "\<forall>x \<in> set m. P (snd x) \<Longrightarrow> P e \<Longrightarrow> \<forall>x \<in> set (map_insert a e m). P (snd x)"
  using set_map_insert[of a e m] by fastforce

lemma arp_ok_insert:
  assumes "arp_ok rc now s" "arp_entry_ok rc now e"
    "ar_cache s' = map_insert a e (ar_cache s)" "ar_numFailedResolutions s' = ar_numFailedResolutions s"
    "ar_numResolutions s' - ar_numResolutions s \<ge> of_bool (ae_pending e) - of_bool (\<exists>d. map_of (ar_cache s) a = Some d \<and> ae_pending d)"
    "ar_numResolutions s' - ar_numResolutions s \<le> ar_numRequestsSent s' - ar_numRequestsSent s"
  shows "arp_ok rc now s'"
  using assms arp_pending_insert[of "ar_cache s" a e] entries_insert[of "ar_cache s" "arp_entry_ok rc now" e a]
  by (simp add: arp_ok_def map_ok_insert)

lemma arp_ok_erase:
  assumes "arp_ok rc now s" "map_of (ar_cache s) a = Some e" "ae_pending e"
  shows "arp_ok rc now (s\<lparr>ar_out := xs, ar_cache := map_erase a (ar_cache s),
    ar_numFailedResolutions := ar_numFailedResolutions s + 1\<rparr>)"
proof -
  have "set (map_erase a (ar_cache s)) \<subseteq> set (ar_cache s)" by (auto simp: map_erase_def)
  then show ?thesis using assms arp_pending_erase[of "ar_cache s" a] by (auto simp: arp_ok_def map_ok_erase)
qed

lemma arp_initiate_ok:
  assumes "arp_ok (an_retryCount env) (an_now env) s" "0 \<le> an_retryTimeout env"
    "arp_initiateArpResolution env addr e s = Inr s'"
  shows "arp_ok (an_retryCount env) (an_now env) s'"
proof -
  let ?e = "(e\<lparr>ae_pending := True, ae_numRetries := 0, ae_lastUpdate := 0,
                ae_mac := 0, ae_timer := Some (an_now env + an_retryTimeout env)\<rparr>)"
  have "arp_entry_ok (an_retryCount env) (an_now env) ?e" using assms(2) by (simp add: arp_entry_ok_def)
  then show ?thesis using arp_initiate_Inr[OF assms(3)] by (auto intro: arp_ok_insert[OF assms(1), where e = ?e and a = addr])
qed

lemma arp_resolve_ok:
  assumes "arp_ok (an_retryCount env) (an_now env) s" "0 \<le> an_retryTimeout env"
    "arp_resolveL3Address env addr ie s = Inr (m, s')"
  shows "arp_ok (an_retryCount env) (an_now env) s'"
  using assms(3) arp_initiate_ok[OF assms(1,2)] assms(1)
  by (auto simp: arp_resolveL3Address_def bindE_eq_Inr split: option.splits if_splits)

lemma arp_timeout_ok:
  assumes ok: "arp_ok (an_retryCount env) (an_now env) s" and "0 \<le> an_retryTimeout env"
    and "map_of (ar_cache s) a = Some e" "ae_timer e \<noteq> None" and "arp_requestTimedOut env a s = Inr s'"
  shows "arp_ok (an_retryCount env) (an_now env) s'"
proof -
  have e: "arp_entry_ok (an_retryCount env) (an_now env) e" using arp_okD[OF ok assms(3)] .
  then have p: "ae_pending e" using assms(4) by (auto simp: arp_entry_ok_def split: if_splits)
  show ?thesis
  proof (cases "ae_numRetries e + 1 < an_retryCount env")
    case True
    let ?e = "e\<lparr>ae_numRetries := ae_numRetries e + 1, ae_timer := Some (an_now env + an_retryTimeout env)\<rparr>"
    have "arp_entry_ok (an_retryCount env) (an_now env) ?e"
      using e p True assms(2) by (auto simp: arp_entry_ok_def)
    then show ?thesis using assms(3,5) True p
      by (auto simp: arp_requestTimedOut_def bindE_eq_Inr arp_set_entry_def dest!: arp_request_Inr
          intro: arp_ok_insert[OF ok, where e = ?e and a = a])
  next
    case False
    then show ?thesis using arp_ok_erase[OF ok assms(3) p] assms(3,5)
      by (auto simp: arp_requestTimedOut_def arp_emit_def)
  qed
qed

lemma arp_update_ok:
  assumes ok: "arp_ok rc (an_now env) s" and mac: "mac \<noteq> 0"
    and e: "arp_entry_ok rc (an_now env) e" "\<And>d. map_of (ar_cache s) a = Some d \<Longrightarrow> d = e"
  shows "arp_ok rc (an_now env) (arp_updateArpCache env a e mac s)"
proof -
  let ?e = "(if ae_pending e then e\<lparr>ae_pending := False, ae_timer := None, ae_numRetries := 0\<rparr> else e)
      \<lparr>ae_mac := mac, ae_lastUpdate := an_now env\<rparr>"
  have "arp_entry_ok rc (an_now env) ?e" using e(1) mac by (auto simp: arp_entry_ok_def)
  then show ?thesis
    by (rule arp_ok_insert[OF ok, where a = a]) (auto simp: arp_updateArpCache_def Let_def arp_set_entry_def arp_emit_def)
qed

lemma arp_ok_out [simp]: "arp_ok rc now (s\<lparr>ar_out := xs\<rparr>) = arp_ok rc now s"
  "arp_ok rc now (s\<lparr>ar_rt := t\<rparr>) = arp_ok rc now s" "arp_ok rc now (s\<lparr>ar_numRepliesSent := n\<rparr>) = arp_ok rc now s"
  by (simp_all add: arp_ok_def)

lemma arp_opcode_ok: "arp_opcode_action env arp ie s = Inr s' \<Longrightarrow> arp_ok rc now s' = arp_ok rc now s"
  by (auto simp: arp_opcode_action_def arp_reply_def Let_def arp_emit_def bindE_eq_Inr split: if_splits)

lemma arp_new_entry_ok: "0 \<le> now \<Longrightarrow> arp_entry_ok rc now (new_arp_entry i)"
  by (simp add: new_arp_entry_def arp_entry_ok_def)

lemma arp_update_rt [simp]: "ar_rt (arp_updateArpCache env a e mac s) = ar_rt s"
  by (simp add: arp_updateArpCache_def Let_def arp_emit_def arp_set_entry_def)

text \<open>What a received packet does, by whether its sender is in the cache.\<close>

definition arp_received :: "arp_env \<Rightarrow> packet \<Rightarrow> arp_packet \<Rightarrow> network_interface \<Rightarrow> bool" where
  "arp_received env p arp ie \<longleftrightarrow> peekAtFront as_arp p = Inr arp
     \<and> (\<exists>i. t_interfaceInd (pk_tags p) = Some i \<and> getInterfaceById (an_ift env) i = Inr ie)
     \<and> ap_srcMac arp \<noteq> 0 \<and> ap_srcIp arp \<noteq> 0"

lemma arp_process_cases:
  "arp_processArpPacket env p s = Inr s' \<Longrightarrow> \<exists>arp ie. arp_received env p arp ie"
  by (auto simp: arp_processArpPacket_def arp_received_def bindE_eq_Inr ip_isUnspecified_def split: if_splits)

lemma arp_process_known:
  assumes "arp_received env p arp ie" "map_of (ar_cache s) (ap_srcIp arp) = Some e"
    "arp_addressRecognized env (ap_destIp arp) ie (ar_rt s) = (recognized, rt)"
  shows "arp_processArpPacket env p s =
    (let s = (arp_updateArpCache env (ap_srcIp arp) e (ap_srcMac arp) s)\<lparr>ar_rt := rt\<rparr> in
     if recognized then arp_opcode_action env arp ie s else Inr s)"
  using assms by (auto simp: arp_processArpPacket_def arp_received_def ip_isUnspecified_def Let_def)

lemma arp_process_unknown:
  assumes "arp_received env p arp ie" "map_of (ar_cache s) (ap_srcIp arp) = None"
    "arp_addressRecognized env (ap_destIp arp) ie (ar_rt s) = (recognized, rt)"
  shows "arp_processArpPacket env p s =
    (if recognized then arp_opcode_action env arp ie
       (arp_updateArpCache env (ap_srcIp arp) (new_arp_entry (ie_id ie)) (ap_srcMac arp) (s\<lparr>ar_rt := rt\<rparr>))
     else Inr (s\<lparr>ar_rt := rt\<rparr>))"
  using assms by (auto simp: arp_processArpPacket_def arp_received_def ip_isUnspecified_def Let_def)

lemma arp_process_ok:
  assumes ok: "arp_ok rc (an_now env) s" and now: "0 \<le> an_now env" and s': "arp_processArpPacket env p s = Inr s'"
  shows "arp_ok rc (an_now env) s'"
proof -
  obtain arp ie where r: "arp_received env p arp ie" using arp_process_cases[OF s'] by blast
  obtain b rt where a: "arp_addressRecognized env (ap_destIp arp) ie (ar_rt s) = (b, rt)" by fastforce
  have mac: "ap_srcMac arp \<noteq> 0" using r by (simp add: arp_received_def)
  show ?thesis
  proof (cases "map_of (ar_cache s) (ap_srcIp arp)")
    case None
    have "arp_ok rc (an_now env) (arp_updateArpCache env (ap_srcIp arp) (new_arp_entry (ie_id ie)) (ap_srcMac arp) (s\<lparr>ar_rt := rt\<rparr>))"
      using None ok now by (intro arp_update_ok mac arp_new_entry_ok) simp_all
    then show ?thesis using s' ok unfolding arp_process_unknown[OF r None a]
      by (auto simp: arp_opcode_ok split: if_splits)
  next
    case (Some e)
    have "arp_ok rc (an_now env) (arp_updateArpCache env (ap_srcIp arp) e (ap_srcMac arp) s)"
      by (rule arp_update_ok[OF ok mac arp_okD[OF ok Some]]) (simp add: Some)
    then show ?thesis using s' unfolding arp_process_known[OF r Some a]
      by (auto simp: Let_def arp_opcode_ok split: if_splits)
  qed
qed

lemma arp_gratuitous_ok:
  assumes "arp_ok rc (an_now env) s" "0 \<le> an_now env" "arp_sendArpGratuitous env ie mac a opcode s = Inr s'"
  shows "arp_ok rc (an_now env) s'"
  using assms arp_ok_insert[OF assms(1) arp_new_entry_ok[OF assms(2)], where a = a and s' = "arp_set_entry a (new_arp_entry (ie_id ie)) s"]
  by (auto simp: arp_sendArpGratuitous_def Let_def bindE_eq_Inr arp_emit_def arp_set_entry_def new_arp_entry_def split: if_splits)

lemma arp_probe_ok: "arp_sendArpProbe env ie mac a s = Inr s' \<Longrightarrow> arp_ok rc now s' = arp_ok rc now s"
  by (auto simp: arp_sendArpProbe_def bindE_eq_Inr arp_emit_def)

lemma arp_flush_ok: "arp_ok rc now s \<Longrightarrow> arp_ok rc now (arp_flush s)"
  using arp_pending_nonneg[of "ar_cache s"] by (simp add: arp_ok_def arp_flush_def arp_pending_def)

section \<open>Runs\<close>

text \<open>
  What can happen to the module at the time of an environment: no timer of the cache is overdue, and
  the one that fires is due now.
\<close>

definition arp_event_at :: "int \<Rightarrow> simtime \<Rightarrow> arp_env \<Rightarrow> arp_state \<Rightarrow> bool" where
  "arp_event_at retryCount now env s \<longleftrightarrow> an_retryCount env = retryCount \<and> 0 \<le> an_retryTimeout env \<and> now \<le> an_now env
     \<and> (\<forall>x \<in> set (ar_cache s). case ae_timer (snd x) of Some t \<Rightarrow> an_now env \<le> t | None \<Rightarrow> True)"

definition arp_timer_due :: "arp_env \<Rightarrow> ipv4_address \<Rightarrow> arp_state \<Rightarrow> bool" where
  "arp_timer_due env a s \<longleftrightarrow>
    (case map_of (ar_cache s) a of Some e \<Rightarrow> ae_timer e = Some (an_now env) | None \<Rightarrow> False)"

inductive arp_step :: "int \<Rightarrow> simtime \<times> arp_state \<Rightarrow> simtime \<times> arp_state \<Rightarrow> bool" for rc where
  Timer: "\<lbrakk>arp_event_at rc now env s; arp_timer_due env a s; arp_handleMessageWhenUp env (ArpTimer a) s = Inr s'\<rbrakk>
    \<Longrightarrow> arp_step rc (now, s) (an_now env, s')"
| Received: "\<lbrakk>arp_event_at rc now env s; arp_handleMessageWhenUp env (ArpMessage p) s = Inr s'\<rbrakk>
    \<Longrightarrow> arp_step rc (now, s) (an_now env, s')"
| Resolve: "\<lbrakk>arp_event_at rc now env s; arp_resolveL3Address env a ie s = Inr (m, s')\<rbrakk>
    \<Longrightarrow> arp_step rc (now, s) (an_now env, s')"
| Gratuitous: "\<lbrakk>arp_event_at rc now env s; arp_sendArpGratuitous env ie mac ip opcode s = Inr s'\<rbrakk>
    \<Longrightarrow> arp_step rc (now, s) (an_now env, s')"
| Probe: "\<lbrakk>arp_event_at rc now env s; arp_sendArpProbe env ie mac ip s = Inr s'\<rbrakk>
    \<Longrightarrow> arp_step rc (now, s) (an_now env, s')"
| Stop: "arp_event_at rc now env s \<Longrightarrow> arp_step rc (now, s) (an_now env, arp_handleStopOperation s)"
| Crash: "arp_event_at rc now env s \<Longrightarrow> arp_step rc (now, s) (an_now env, arp_handleCrashOperation s)"
| Start: "\<lbrakk>arp_event_at rc now env s; arp_handleStartOperation s = Inr s'\<rbrakk> \<Longrightarrow> arp_step rc (now, s) (an_now env, s')"

lemma arp_event_ok:
  assumes "arp_event_at rc now env s" "arp_ok rc now s"
  shows "arp_ok rc (an_now env) s" "an_retryCount env = rc" "0 \<le> an_retryTimeout env" "now \<le> an_now env"
proof -
  show "an_retryCount env = rc" "0 \<le> an_retryTimeout env" "now \<le> an_now env" using assms(1) by (simp_all add: arp_event_at_def)
  have "arp_entry_ok rc (an_now env) (snd x)" if "x \<in> set (ar_cache s)" for x
  proof (rule arp_entry_later)
    show "arp_entry_ok rc now (snd x)" "now \<le> an_now env" using that assms by (auto simp: arp_ok_def arp_event_at_def)
    show "an_now env \<le> t" if "ae_timer (snd x) = Some t" for t
      using that \<open>x \<in> _\<close> assms(1) by (auto simp: arp_event_at_def split: option.splits)
  qed
  then show "arp_ok rc (an_now env) s" using assms(2) by (simp add: arp_ok_def)
qed

lemma arp_step_ok:
  assumes "arp_step rc x y" "0 \<le> fst x" "arp_ok rc (fst x) (snd x)"
  shows "0 \<le> fst y \<and> arp_ok rc (fst y) (snd y)"
  using assms
proof cases
  case (Timer now env s a s')
  obtain e where "map_of (ar_cache s) a = Some e" "ae_timer e \<noteq> None"
    using Timer(4) by (auto simp: arp_timer_due_def split: option.splits)
  then show ?thesis using Timer assms arp_event_ok[OF Timer(3)] arp_timeout_ok[of env s a e s'] by auto
next
  case (Received now env s p s')
  then show ?thesis using assms arp_event_ok[OF Received(3)] arp_process_ok[of rc env s p s'] by auto
next
  case (Resolve now env s a ie m s')
  then show ?thesis using assms arp_event_ok[OF Resolve(3)] arp_resolve_ok[of env s a ie m s'] by auto
next
  case (Gratuitous now env s ie mac ip opcode s')
  then show ?thesis using assms arp_event_ok[OF Gratuitous(3)] arp_gratuitous_ok[of rc env s ie mac ip opcode s'] by auto
next
  case (Probe now env s ie mac ip s')
  then show ?thesis using assms arp_event_ok[OF Probe(3)] arp_probe_ok[of env ie mac ip s s'] by auto
next
  case (Stop now env s)
  then show ?thesis using assms arp_event_ok[OF Stop(3)] by (auto simp: arp_handleStopOperation_def arp_flush_ok)
next
  case (Crash now env s)
  then show ?thesis using assms arp_event_ok[OF Crash(3)] by (auto simp: arp_handleCrashOperation_def arp_flush_ok)
next
  case (Start now env s s')
  then show ?thesis using assms arp_event_ok[OF Start(3)] by (auto simp: arp_handleStartOperation_def bindE_eq_Inr)
qed

lemma arp_init_ok: "0 \<le> now \<Longrightarrow> arp_ok rc now (arp_init rt)"
  by (simp add: arp_ok_def arp_init_def arp_pending_def)

section \<open>An unanswered resolution\<close>

text \<open>The timer of an address fires \<open>n\<close> times, each time when it is due.\<close>

fun arp_expires :: "nat \<Rightarrow> arp_env \<Rightarrow> ipv4_address \<Rightarrow> arp_state \<Rightarrow> arp_state res" where
  "arp_expires 0 env a s = Inr s"
| "arp_expires (Suc n) env a s =
    bindE (arp_expires n env a s) (\<lambda>s.
      case map_of (ar_cache s) a of
        Some e \<Rightarrow> (case ae_timer e of
            Some t \<Rightarrow> arp_handleMessageWhenUp (env\<lparr>an_now := t\<rparr>) (ArpTimer a) s | None \<Rightarrow> Inr s)
      | None \<Rightarrow> Inr s)"

definition arp_waiting_entry :: "arp_env \<Rightarrow> int \<Rightarrow> nat \<Rightarrow> arp_entry" where
  "arp_waiting_entry env i k = \<lparr>ae_ie = i, ae_pending = True, ae_mac = 0, ae_lastUpdate = 0, ae_numRetries = int k,
     ae_timer = Some (an_now env + (int k + 1) * an_retryTimeout env)\<rparr>"

lemma map_erase_insert: "map_ok m \<Longrightarrow> map_of m a = None \<Longrightarrow> map_erase a (map_insert a e m) = m"
proof (induction m)
  case (Cons x m)
  then show ?case
    by (cases x) (auto simp: map_erase_def map_ok_Cons filter_id_conv split: if_splits)
qed (simp add: map_erase_def)

lemma arp_resolve_new:
  assumes "map_of (ar_cache s) a = None" and if_ok: "findInterfaceById (an_ift env) (ie_id ie) = Some ie"
    "ie_mac ie \<noteq> 0" "ie_ipAddress ie \<noteq> 0"
  shows "\<exists>s' p. arp_resolveL3Address env (L3IPv4 a) ie s = Inr (0, s') \<and> arp_sends (arp_request_for ie a) ie 0 0xFFFFFFFFFFFF p
    \<and> ar_cache s' = map_insert a (arp_waiting_entry env (ie_id ie) 0) (ar_cache s)
    \<and> ar_out s' = ar_out s @ [ArpIfOut p, ArpInitiated a (ie_id ie)]
    \<and> ar_numRequestsSent s' = ar_numRequestsSent s + 1 \<and> ar_numFailedResolutions s' = ar_numFailedResolutions s
    \<and> ar_rt s' = ar_rt s"
proof -
  let ?e = "new_arp_entry (ie_id ie)"
  have i: "ae_ie ?e = ie_id ie" by (simp add: new_arp_entry_def)
  obtain s' where s': "arp_initiateArpResolution env a ?e s = Inr s'"
    using arp_initiate_total[of env ?e ie a s] if_ok i by auto
  have "?e\<lparr>ae_pending := True, ae_numRetries := 0, ae_lastUpdate := 0, ae_mac := 0, ae_timer := Some (an_now env + an_retryTimeout env)\<rparr>
      = arp_waiting_entry env (ie_id ie) 0"
    by (simp add: new_arp_entry_def arp_waiting_entry_def)
  then show ?thesis using arp_initiate_Inr[OF s'] s' assms i by (auto simp: arp_resolveL3Address_def)
qed

lemma arp_expires_waiting:
  assumes if_ok: "findInterfaceById (an_ift env) (ie_id ie) = Some ie" "ie_mac ie \<noteq> 0" "ie_ipAddress ie \<noteq> 0"
    and s0: "ar_cache s0 = map_insert a (arp_waiting_entry env (ie_id ie) 0) c" "map_ok c"
  shows "int k < max 1 (an_retryCount env) \<Longrightarrow>
    \<exists>s' ps. arp_expires k env a s0 = Inr s' \<and> length ps = k
      \<and> (\<forall>p \<in> set ps. arp_sends (arp_request_for ie a) ie 0 0xFFFFFFFFFFFF p)
      \<and> ar_cache s' = map_insert a (arp_waiting_entry env (ie_id ie) k) c
      \<and> ar_out s' = ar_out s0 @ map ArpIfOut ps \<and> ar_numRequestsSent s' = ar_numRequestsSent s0 + int k
      \<and> ar_numFailedResolutions s' = ar_numFailedResolutions s0"
proof (induction k)
  case 0
  then show ?case using s0 by simp
next
  case (Suc k)
  then have "int k < max 1 (an_retryCount env)" by simp
  from Suc.IH[OF this] obtain s ps where s: "arp_expires k env a s0 = Inr s" "length ps = k"
    "\<forall>p \<in> set ps. arp_sends (arp_request_for ie a) ie 0 0xFFFFFFFFFFFF p"
    "ar_cache s = map_insert a (arp_waiting_entry env (ie_id ie) k) c" "ar_out s = ar_out s0 @ map ArpIfOut ps"
    "ar_numRequestsSent s = ar_numRequestsSent s0 + int k" "ar_numFailedResolutions s = ar_numFailedResolutions s0" by auto
  let ?t = "an_now env + (int k + 1) * an_retryTimeout env"
  let ?env = "env\<lparr>an_now := ?t\<rparr>"
  obtain s1 where s1: "arp_sendArpRequest ?env (ie_id ie) a s = Inr s1"
    using arp_request_total[of ?env "ie_id ie" ie a s] if_ok by auto
  obtain p where p: "arp_sends (arp_request_for ie a) ie 0 0xFFFFFFFFFFFF p"
    "s1 = s\<lparr>ar_out := ar_out s @ [ArpIfOut p], ar_numRequestsSent := ar_numRequestsSent s + 1\<rparr>"
    using arp_request_Inr[OF s1] if_ok by auto
  have e: "map_of (ar_cache s) a = Some (arp_waiting_entry env (ie_id ie) k)" using s(4) s0(2) by (simp add: map_of_insert)
  have next_entry: "arp_waiting_entry env (ie_id ie) k\<lparr>ae_numRetries := int k + 1, ae_timer := Some (?t + an_retryTimeout env)\<rparr>
      = arp_waiting_entry env (ie_id ie) (Suc k)"
    by (simp add: arp_waiting_entry_def algebra_simps)
  have sel: "ae_ie (arp_waiting_entry env (ie_id ie) k) = ie_id ie" "ae_numRetries (arp_waiting_entry env (ie_id ie) k) = int k"
    "ae_timer (arp_waiting_entry env (ie_id ie) k) = Some ?t" by (simp_all add: arp_waiting_entry_def)
  have "arp_expires (Suc k) env a s0 = Inr (arp_set_entry a (arp_waiting_entry env (ie_id ie) (Suc k)) s1)"
    using Suc.prems s1 s(1) e sel next_entry by (simp add: arp_requestTimedOut_def Let_def)
  then show ?case using s p
    by (intro exI[of _ "arp_set_entry a (arp_waiting_entry env (ie_id ie) (Suc k)) s1"] exI[of _ "ps @ [p]"])
      (simp add: arp_set_entry_def map_insert_twice)
qed

section \<open>Packets between two modules\<close>

text \<open>
  What the layers below hand over for a packet sent on the other side: its data, perhaps with padding
  behind, and the interface it came in on.
\<close>

definition arp_carried :: "packet \<Rightarrow> packet \<Rightarrow> int \<Rightarrow> bool" where
  "arp_carried q q' i \<longleftrightarrow> (\<exists>pad. pk_data q' = pk_data q @ pad) \<and> t_interfaceInd (pk_tags q') = Some i"

lemma arp_carried_received:
  assumes "arp_carried q q' (ie_id ie)" "arp_sends a ie' srcMac destMac q"
    "findInterfaceById (an_ift env) (ie_id ie) = Some ie" "ap_srcMac a \<noteq> 0" "ap_srcIp a \<noteq> 0"
  shows "arp_received env q' a ie"
  using assms by (auto simp: arp_carried_def arp_sends_def arp_received_def getInterfaceById_def intro: arp_peek)

lemma arp_local:
  assumes "findInterfaceById (an_ift env) i = Some ie"
  shows "arp_addressRecognized env (ie_ipAddress ie) ie' rt = (True, rt)"
proof -
  have "ie \<in> set (an_ift env)" using assms by (metis findInterfaceById_def find_Some_iff nth_mem)
  then have "isLocalAddress (an_ift env) (ie_ipAddress ie)"
    by (auto simp: isLocalAddress_def hasNetworkAddress_def find_None_iff)
  then show ?thesis by (simp add: arp_addressRecognized_def)
qed

definition arp_reply_to :: "arp_packet \<Rightarrow> mac_address \<Rightarrow> arp_packet" where
  "arp_reply_to a mac = \<lparr>ap_opcode = 2, ap_srcMac = mac, ap_destMac = ap_srcMac a, ap_srcIp = ap_destIp a, ap_destIp = ap_srcIp a\<rparr>"

lemma arp_reply_Inr:
  assumes "ie_mac ie \<noteq> 0"
  shows "\<exists>r. arp_reply env a ie s = Inr (s\<lparr>ar_out := ar_out s @ [ArpIfOut r], ar_numRepliesSent := ar_numRepliesSent s + 1\<rparr>)
    \<and> arp_sends (arp_reply_to a (ie_mac ie)) ie 0 (ap_srcMac a) r"
proof -
  have a: "new_arp_packet\<lparr>ap_destIp := ap_srcIp a, ap_destMac := ap_srcMac a, ap_srcIp := ap_destIp a, ap_srcMac := ie_mac ie, ap_opcode := 2\<rparr>
      = arp_reply_to a (ie_mac ie)" by (simp add: new_arp_packet_def arp_reply_to_def)
  obtain r where "arp_make_packet ''arpREPLY'' (an_now env) (arp_reply_to a (ie_mac ie)) ie 0 (ap_srcMac a) = Inr r"
    using arp_make_packet_total by blast
  then show ?thesis using assms arp_make_packet_Inr[of _ _ "arp_reply_to a (ie_mac ie)"]
    by (auto simp: arp_reply_def Let_def arp_resolveMacAddressForArpReply_def a arp_emit_def arp_sends_def)
qed

text \<open>After \<open>updateArpCache\<close> the address is resolved until the entry times out.\<close>

definition arp_resolved :: "ipv4_address \<Rightarrow> mac_address \<Rightarrow> simtime \<Rightarrow> arp_state \<Rightarrow> bool" where
  "arp_resolved a mac t s \<longleftrightarrow> (\<exists>e. map_of (ar_cache s) a = Some e \<and> \<not> ae_pending e \<and> ae_mac e = mac \<and> ae_lastUpdate e = t)"

lemma arp_update_resolved:
  "map_ok (ar_cache s) \<Longrightarrow> arp_resolved a mac (an_now env) (arp_updateArpCache env a e mac s)"
  by (auto simp: arp_resolved_def arp_updateArpCache_def Let_def arp_set_entry_def arp_emit_def map_of_insert)

lemma arp_resolved_resolve:
  "arp_resolved a mac t s \<Longrightarrow> an_now env \<le> t + an_cacheTimeout env \<Longrightarrow> arp_resolveL3Address env (L3IPv4 a) ie s = Inr (mac, s)"
  by (auto simp: arp_resolved_def arp_resolveL3Address_def)

text \<open>For the rest of the time the entry is valid, every resolution is answered from the cache.\<close>

definition arp_answers :: "ipv4_address \<Rightarrow> mac_address \<Rightarrow> simtime \<Rightarrow> arp_state \<Rightarrow> bool" where
  "arp_answers a mac t s \<longleftrightarrow> (\<forall>env ie. an_now env \<le> t + an_cacheTimeout env \<longrightarrow>
     arp_resolveL3Address env (L3IPv4 a) ie s = Inr (mac, s))"

lemma arp_resolved_answers: "arp_resolved a mac t s \<Longrightarrow> arp_answers a mac t s"
  by (simp add: arp_answers_def arp_resolved_resolve)

lemma arp_update_out:
  "ar_out (arp_updateArpCache env a e mac s) = ar_out s @ [ArpCompleted a mac (ae_ie e)]"
  by (simp add: arp_updateArpCache_def Let_def arp_set_entry_def arp_emit_def)

lemma arp_request_learned:
  assumes "arp_received env q a ie" "findInterfaceById (an_ift env) i = Some me" "ap_destIp a = ie_ipAddress me"
    "ap_opcode a = 1" "ie_mac ie \<noteq> 0" "map_ok (ar_cache s)"
  shows "\<exists>s' r j. arp_processArpPacket env q s = Inr s' \<and> arp_sends (arp_reply_to a (ie_mac ie)) ie 0 (ap_srcMac a) r
    \<and> ar_out s' = ar_out s @ [ArpCompleted (ap_srcIp a) (ap_srcMac a) j, ArpIfOut r]
    \<and> arp_resolved (ap_srcIp a) (ap_srcMac a) (an_now env) s'"
proof -
  have r: "arp_addressRecognized env (ap_destIp a) ie (ar_rt s) = (True, ar_rt s)" using arp_local[OF assms(2)] assms(3) by simp
  have learn: "\<exists>s' q. arp_opcode_action env a ie (arp_updateArpCache env (ap_srcIp a) e (ap_srcMac a) s) = Inr s'
      \<and> arp_sends (arp_reply_to a (ie_mac ie)) ie 0 (ap_srcMac a) q
      \<and> ar_out s' = ar_out s @ [ArpCompleted (ap_srcIp a) (ap_srcMac a) (ae_ie e), ArpIfOut q]
      \<and> arp_resolved (ap_srcIp a) (ap_srcMac a) (an_now env) s'" for e
    using arp_reply_Inr[OF assms(5), of env a "arp_updateArpCache env (ap_srcIp a) e (ap_srcMac a) s"] assms(4)
      arp_update_resolved[OF assms(6), of "ap_srcIp a" "ap_srcMac a" env e]
    by (auto simp: arp_opcode_action_def arp_update_out arp_resolved_def)
  have same: "(arp_updateArpCache env b e m s)\<lparr>ar_rt := ar_rt s\<rparr> = arp_updateArpCache env b e m s" "s\<lparr>ar_rt := ar_rt s\<rparr> = s" for b e m
    by (simp_all add: arp_updateArpCache_def Let_def arp_set_entry_def arp_emit_def)
  show ?thesis
  proof (cases "map_of (ar_cache s) (ap_srcIp a)")
    case None
    then show ?thesis using learn[of "new_arp_entry (ie_id ie)"]
      by (auto simp: arp_process_unknown[OF assms(1) None r] same)
  next
    case (Some e)
    then show ?thesis using learn[of e] by (auto simp: arp_process_known[OF assms(1) Some r] same)
  qed
qed

lemma arp_reply_learned:
  assumes "arp_received env r a ie" "findInterfaceById (an_ift env) i = Some me" "ap_destIp a = ie_ipAddress me"
    "ap_opcode a = 2" "map_ok (ar_cache s)" "map_of (ar_cache s) (ap_srcIp a) = Some e"
  shows "\<exists>s'. arp_processArpPacket env r s = Inr s'
    \<and> ar_out s' = ar_out s @ [ArpCompleted (ap_srcIp a) (ap_srcMac a) (ae_ie e)]
    \<and> arp_resolved (ap_srcIp a) (ap_srcMac a) (an_now env) s'"
proof -
  have r: "arp_addressRecognized env (ap_destIp a) ie (ar_rt s) = (True, ar_rt s)" using arp_local[OF assms(2)] assms(3) by simp
  show ?thesis using arp_update_resolved[OF assms(5), of "ap_srcIp a" "ap_srcMac a" env e] assms(4)
    by (auto simp: arp_process_known[OF assms(1,6) r] Let_def arp_opcode_action_def arp_update_out arp_resolved_def)
qed

section \<open>Announcements and probes, received\<close>

text \<open>
  Two operations that no module of the repository calls do not work. A probe has no source address, as it should,
  and every module that receives one raises. An announcement puts an entry without a MAC address into the cache, which
  counts as resolved until \<open>cacheTimeout\<close>: the address is not resolved any more and no request is sent for it.
\<close>

lemma arp_probe_rejected:
  assumes "arp_sendArpProbe env ie mac a s = Inr s'"
  shows "\<exists>p. ar_out s' = ar_out s @ [ArpIfOut p] \<and>
    (\<forall>p' i env' ie' s2. arp_carried p p' i \<longrightarrow> getInterfaceById (an_ift env') i = Inr ie' \<longrightarrow>
      arp_processArpPacket env' p' s2 = Inl (RuntimeError ''wrong ARP packet: source IPv4 address is empty''))"
proof -
  let ?a = "new_arp_packet\<lparr>ap_opcode := 1, ap_srcMac := mac, ap_srcIp := 0, ap_destIp := a, ap_destMac := 0\<rparr>"
  obtain p where p: "mac \<noteq> 0" "arp_make_packet ''arpProbe'' (an_now env) ?a ie mac 0xFFFFFFFFFFFF = Inr p" "s' = arp_emit (ArpIfOut p) s"
    using assms by (auto simp: arp_sendArpProbe_def bindE_eq_Inr)
  have "arp_processArpPacket env' p' s2 = Inl (RuntimeError ''wrong ARP packet: source IPv4 address is empty'')"
    if c: "arp_carried p p' i" "getInterfaceById (an_ift env') i = Inr ie'" for p' i env' ie' s2
  proof -
    have "\<exists>pad. pk_data p' = header_cells (ArpH ?a) @ pad" using c(1) arp_make_packet_Inr[OF p(2)] by (auto simp: arp_carried_def)
    then have "peekAtFront as_arp p' = Inr ?a" by (auto intro: arp_peek)
    then show ?thesis using c p(1) by (simp add: arp_processArpPacket_def arp_carried_def ip_isUnspecified_def)
  qed
  then show ?thesis using p(3) by (auto simp: arp_emit_def)
qed

lemma arp_announced_unresolved:
  assumes "arp_sendArpGratuitous env ie mac a opcode s = Inr s'" "map_ok (ar_cache s)" "map_of (ar_cache s) a = None"
    and "an_now env' \<le> an_cacheTimeout env'"
  shows "arp_resolveL3Address env' (L3IPv4 a) ie' s' = Inr (0, s')"
proof -
  obtain xs where "s' = s\<lparr>ar_cache := map_insert a (new_arp_entry (ie_id ie)) (ar_cache s), ar_out := xs\<rparr>"
    using assms(1,3) by (auto simp: arp_sendArpGratuitous_def bindE_eq_Inr arp_emit_def arp_set_entry_def)
  then show ?thesis using assms(2,4) by (simp add: arp_resolveL3Address_def map_of_insert new_arp_entry_def)
qed

section \<open>Properties\<close>

text \<open>A host with one interface, for the instances below.\<close>

definition example_arp_interface :: "int \<Rightarrow> mac_address \<Rightarrow> ipv4_address \<Rightarrow> network_interface" where
  "example_arp_interface i mac a = \<lparr>ie_id = i, ie_name = ''eth0'', ie_fullPath = ''host.eth0'', ie_isUp = True,
     ie_isLoopback = False, ie_isBroadcast = True, ie_isMulticast = True, ie_mac = mac, ie_mtu = 1500,
     ie_protocol = Some P_ethernetMac, ie_ipAddress = a, ie_netmask = 0xFFFFFF00, ie_ipMetric = 1, ie_joinedGroups = [],
     ie_listenerGroups = [], ie_ttlThreshold = 0\<rparr>"

definition example_arp_env :: "simtime \<Rightarrow> network_interface \<Rightarrow> arp_env" where
  "example_arp_env now ie = \<lparr>an_now = now, an_ift = [ie], an_retryTimeout = 1000, an_retryCount = 3,
     an_cacheTimeout = 120000, an_proxy = (\<lambda>_. False)\<rparr>"

lemma example_arp_simps [simp]:
  "ie_id (example_arp_interface i m a) = i" "ie_mac (example_arp_interface i m a) = m"
  "ie_ipAddress (example_arp_interface i m a) = a"
  "an_ift (example_arp_env now ie) = [ie]" "an_retryCount (example_arp_env now ie) = 3"
  "an_now (example_arp_env now ie) = now" "an_cacheTimeout (example_arp_env now ie) = 120000"
  "an_retryTimeout (example_arp_env now ie) = 1000" "an_proxy (example_arp_env now ie) = (\<lambda>_. False)"
  "ar_cache (arp_init rt) = []" "ar_out (arp_init rt) = []" "ar_rt (arp_init rt) = rt"
  by (simp_all add: example_arp_interface_def example_arp_env_def arp_init_def)

text \<open>C21: in every state that the module can reach from its start, whatever packets arrive, whatever it is
  asked to resolve and whenever its timers fire, the cache has one entry per address; an entry waits for
  a reply exactly when it has a timer, which is not overdue, and has then made fewer attempts than allowed and
  has no MAC address; an entry without a MAC address was never updated; and every resolution that
  has failed or waits was counted, and had a request.\<close>

theorem arp_wellformed:
  assumes "(arp_step retryCount)\<^sup>*\<^sup>* (0, arp_init rt) (now, s)"
  shows "sorted_wrt (<) (map fst (ar_cache s))
    \<and> (\<forall>(a, e) \<in> set (ar_cache s).
        if ae_pending e
        then ae_mac e = 0 \<and> 0 \<le> ae_numRetries e \<and> ae_numRetries e < max 1 retryCount \<and> (\<exists>t. ae_timer e = Some t \<and> now \<le> t)
        else ae_timer e = None \<and> ae_numRetries e = 0 \<and> ae_lastUpdate e \<le> now \<and> (ae_mac e = 0 \<longrightarrow> ae_lastUpdate e = 0))
    \<and> 0 \<le> ar_numFailedResolutions s
    \<and> ar_numFailedResolutions s + int (length (filter (\<lambda>(a, e). ae_pending e) (ar_cache s))) \<le> ar_numResolutions s
    \<and> ar_numResolutions s \<le> ar_numRequestsSent s"
proof -
  have "0 \<le> fst y \<and> arp_ok retryCount (fst y) (snd y)" if "(arp_step retryCount)\<^sup>*\<^sup>* (0, arp_init rt) y" for y
    using that by (induction rule: rtranclp_induct) (auto simp: arp_init_ok dest: arp_step_ok)
  from this[OF assms] have "arp_ok retryCount now s" by simp
  then show ?thesis
    by (auto simp: arp_ok_def map_ok_def arp_pending_def arp_entry_ok_def split: option.splits if_splits)
qed

theorem arp_wellformed_witness:
  "\<exists>s. (arp_step 3)\<^sup>*\<^sup>* (0, arp_init (new_routing_table True True True)) (5, s)
     \<and> map fst (ar_cache s) = [0x0A000002] \<and> 1 \<le> ar_numResolutions s"
proof -
  let ?ie = "example_arp_interface 1 0xA 0x0A000001" and ?s = "arp_init (new_routing_table True True True)"
  let ?env = "example_arp_env 5 ?ie"
  have "findInterfaceById (an_ift ?env) (ie_id ?ie) = Some ?ie" "ie_mac ?ie \<noteq> 0" "ie_ipAddress ?ie \<noteq> 0"
    by (simp_all add: findInterfaceById_def)
  from arp_resolve_new[OF _ this, of ?s "0x0A000002"] obtain s where
    s: "arp_resolveL3Address ?env (L3IPv4 0x0A000002) ?ie ?s = Inr (0, s)"
      "ar_cache s = [(0x0A000002, arp_waiting_entry ?env 1 0)]" by auto
  have "arp_step 3 (0, ?s) (an_now ?env, s)" by (rule Resolve[OF _ s(1)]) (simp add: arp_event_at_def)
  then have "(arp_step 3)\<^sup>*\<^sup>* (0, ?s) (5, s)" by simp
  moreover from arp_wellformed[OF this] have "1 \<le> ar_numResolutions s" by (simp add: s(2) arp_waiting_entry_def)
  ultimately show ?thesis using s(2) by auto
qed

text \<open>A resolution that nobody answers gives up: the module sends exactly \<open>max 1 retryCount\<close> requests, the
  first at once and the others one \<open>retryTimeout\<close> apart, waits all the time with the timer set, and at the last
  timeout reports the failure once and leaves the cache as it was before.\<close>

theorem arp_gives_up:
  assumes "map_ok (ar_cache s)" and "map_of (ar_cache s) a = None"
    and "findInterfaceById (an_ift env) (ie_id ie) = Some ie" and "ie_mac ie \<noteq> 0" and "ie_ipAddress ie \<noteq> 0"
    and "N = nat (max 1 (an_retryCount env))"
  shows "\<exists>s0 p0. arp_resolveL3Address env (L3IPv4 a) ie s = Inr (0, s0)
    \<and> arp_sends (arp_request_for ie a) ie 0 0xFFFFFFFFFFFF p0
    \<and> (\<forall>k < N. \<exists>sk e. arp_expires k env a s0 = Inr sk \<and> map_of (ar_cache sk) a = Some e \<and> ae_pending e
          \<and> ae_timer e = Some (an_now env + (int k + 1) * an_retryTimeout env)
          \<and> ar_numRequestsSent sk = ar_numRequestsSent s + int k + 1)
    \<and> (\<exists>sN ps. arp_expires N env a s0 = Inr sN \<and> length ps = N - 1
          \<and> (\<forall>p \<in> set ps. arp_sends (arp_request_for ie a) ie 0 0xFFFFFFFFFFFF p)
          \<and> ar_out sN = ar_out s @ [ArpIfOut p0, ArpInitiated a (ie_id ie)] @ map ArpIfOut ps @ [ArpFailed a (ie_id ie)]
          \<and> ar_cache sN = ar_cache s \<and> ar_numFailedResolutions sN = ar_numFailedResolutions s + 1)"
proof -
  obtain s0 p0 where s0: "arp_resolveL3Address env (L3IPv4 a) ie s = Inr (0, s0)"
    "arp_sends (arp_request_for ie a) ie 0 0xFFFFFFFFFFFF p0"
    "ar_cache s0 = map_insert a (arp_waiting_entry env (ie_id ie) 0) (ar_cache s)"
    "ar_out s0 = ar_out s @ [ArpIfOut p0, ArpInitiated a (ie_id ie)]"
    "ar_numRequestsSent s0 = ar_numRequestsSent s + 1" "ar_numFailedResolutions s0 = ar_numFailedResolutions s"
    using arp_resolve_new[OF assms(2-5)] by blast
  note waiting = arp_expires_waiting[OF assms(3-5) s0(3) assms(1)]
  have entry: "map_of (map_insert a x (ar_cache s)) a = Some x" for x using assms(1) by (simp add: map_of_insert)
  have each: "\<forall>k < N. \<exists>sk e. arp_expires k env a s0 = Inr sk \<and> map_of (ar_cache sk) a = Some e \<and> ae_pending e
      \<and> ae_timer e = Some (an_now env + (int k + 1) * an_retryTimeout env)
      \<and> ar_numRequestsSent sk = ar_numRequestsSent s + int k + 1"
  proof (intro allI impI)
    fix k assume "k < N"
    then have "int k < max 1 (an_retryCount env)" using assms(6) by linarith
    from waiting[OF this] obtain sk where "arp_expires k env a s0 = Inr sk"
      "ar_cache sk = map_insert a (arp_waiting_entry env (ie_id ie) k) (ar_cache s)"
      "ar_numRequestsSent sk = ar_numRequestsSent s0 + int k" by blast
    then show "\<exists>sk e. arp_expires k env a s0 = Inr sk \<and> map_of (ar_cache sk) a = Some e \<and> ae_pending e
      \<and> ae_timer e = Some (an_now env + (int k + 1) * an_retryTimeout env)
      \<and> ar_numRequestsSent sk = ar_numRequestsSent s + int k + 1"
      using s0(5) entry by (auto simp: arp_waiting_entry_def)
  qed
  obtain n where n: "N = Suc n" "int n < max 1 (an_retryCount env)" "\<not> int n + 1 < an_retryCount env"
  proof -
    have "1 \<le> N" "int N = max 1 (an_retryCount env)" using assms(6) by linarith+
    then have "N = Suc (N - 1)" "int (N - 1) < max 1 (an_retryCount env)" "\<not> int (N - 1) + 1 < an_retryCount env" by linarith+
    then show thesis using that by blast
  qed
  obtain sn ps where sn: "arp_expires n env a s0 = Inr sn" "length ps = n"
    "\<forall>p \<in> set ps. arp_sends (arp_request_for ie a) ie 0 0xFFFFFFFFFFFF p"
    "ar_cache sn = map_insert a (arp_waiting_entry env (ie_id ie) n) (ar_cache s)" "ar_out sn = ar_out s0 @ map ArpIfOut ps"
    "ar_numFailedResolutions sn = ar_numFailedResolutions s0" using waiting[OF n(2)] by auto
  have "map_erase a (ar_cache sn) = ar_cache s" using sn(4) map_erase_insert[OF assms(1,2)] by simp
  then have "\<exists>sN. arp_expires N env a s0 = Inr sN \<and> ar_out sN = ar_out sn @ [ArpFailed a (ie_id ie)]
      \<and> ar_cache sN = ar_cache s \<and> ar_numFailedResolutions sN = ar_numFailedResolutions sn + 1"
    using sn(1,4) n entry by (simp add: arp_requestTimedOut_def Let_def arp_waiting_entry_def arp_emit_def)
  then show ?thesis using s0 sn n each by (intro exI[of _ s0] exI[of _ p0]) force
qed

theorem arp_gives_up_witness:
  "\<exists>s0 sN p0 p1 p2. arp_resolveL3Address (example_arp_env 5 (example_arp_interface 1 0xA 0x0A000001)) (L3IPv4 0x0A000002)
       (example_arp_interface 1 0xA 0x0A000001) (arp_init (new_routing_table True True True)) = Inr (0, s0)
     \<and> arp_expires 3 (example_arp_env 5 (example_arp_interface 1 0xA 0x0A000001)) 0x0A000002 s0 = Inr sN
     \<and> ar_out sN = [ArpIfOut p0, ArpInitiated 0x0A000002 1, ArpIfOut p1, ArpIfOut p2, ArpFailed 0x0A000002 1]
     \<and> ar_cache sN = []"
proof -
  let ?ie = "example_arp_interface 1 0xA 0x0A000001" and ?s = "arp_init (new_routing_table True True True)"
  let ?env = "example_arp_env 5 ?ie"
  have "map_ok (ar_cache ?s)" "map_of (ar_cache ?s) 0x0A000002 = None" "findInterfaceById (an_ift ?env) (ie_id ?ie) = Some ?ie"
    "ie_mac ?ie \<noteq> 0" "ie_ipAddress ?ie \<noteq> 0" "3 = nat (max 1 (an_retryCount ?env))"
    by (simp_all add: findInterfaceById_def)
  note * = arp_gives_up[OF this]
  from * obtain s0 sN p0 ps where *: "arp_resolveL3Address ?env (L3IPv4 0x0A000002) ?ie ?s = Inr (0, s0)"
    "arp_expires 3 ?env 0x0A000002 s0 = Inr sN" "length ps = 3 - 1"
    "ar_out sN = ar_out ?s @ [ArpIfOut p0, ArpInitiated 0x0A000002 (ie_id ?ie)] @ map ArpIfOut ps @ [ArpFailed 0x0A000002 (ie_id ?ie)]"
    "ar_cache sN = ar_cache ?s"
    by (elim exE conjE)
  obtain p1 p2 where "ps = [p1, p2]" using *(3) by (auto simp: length_Suc_conv numeral_2_eq_2)
  then show ?thesis using * by simp
qed

text \<open>C12: a host that resolves the address of another, with nothing about it in its cache, broadcasts a
  request; from the request the other host learns who asks and answers to that address alone; and the reply
  completes the resolution, once, with the right MAC address. From then on until the entry times out both hosts
  resolve each other from their caches and send nothing.\<close>

theorem arp_exchange:
  assumes "findInterfaceById (an_ift ea) (ie_id ia) = Some ia" and "ie_mac ia \<noteq> 0" and "ie_ipAddress ia \<noteq> 0"
    and "findInterfaceById (an_ift eb) (ie_id ib) = Some ib" and "ie_mac ib \<noteq> 0" and "ie_ipAddress ib \<noteq> 0"
    and "map_ok (ar_cache sa)" and "map_of (ar_cache sa) (ie_ipAddress ib) = None" and "map_ok (ar_cache sb)"
  shows "\<exists>sa1 q. arp_resolveL3Address ea (L3IPv4 (ie_ipAddress ib)) ia sa = Inr (0, sa1)
    \<and> ar_out sa1 = ar_out sa @ [ArpIfOut q, ArpInitiated (ie_ipAddress ib) (ie_id ia)]
    \<and> t_macReq (pk_tags q) = Some (0, 0xFFFFFFFFFFFF)
    \<and> (\<forall>q'. arp_carried q q' (ie_id ib) \<longrightarrow>
        (\<exists>sb1 r j. arp_processArpPacket eb q' sb = Inr sb1
          \<and> ar_out sb1 = ar_out sb @ [ArpCompleted (ie_ipAddress ia) (ie_mac ia) j, ArpIfOut r]
          \<and> t_macReq (pk_tags r) = Some (0, ie_mac ia)
          \<and> arp_answers (ie_ipAddress ia) (ie_mac ia) (an_now eb) sb1
          \<and> (\<forall>r' ea'. arp_carried r r' (ie_id ia) \<longrightarrow> an_ift ea' = an_ift ea \<longrightarrow>
              (\<exists>sa2. arp_processArpPacket ea' r' sa1 = Inr sa2
                \<and> ar_out sa2 = ar_out sa1 @ [ArpCompleted (ie_ipAddress ib) (ie_mac ib) (ie_id ia)]
                \<and> arp_answers (ie_ipAddress ib) (ie_mac ib) (an_now ea') sa2))))"
proof -
  let ?req = "arp_request_for ia (ie_ipAddress ib)"
  let ?rep = "arp_reply_to ?req (ie_mac ib)"
  have req: "ap_srcMac ?req = ie_mac ia" "ap_srcIp ?req = ie_ipAddress ia" "ap_destIp ?req = ie_ipAddress ib" "ap_opcode ?req = 1"
    by (simp_all add: arp_request_for_def)
  have rep: "ap_srcMac ?rep = ie_mac ib" "ap_srcIp ?rep = ie_ipAddress ib" "ap_destIp ?rep = ie_ipAddress ia" "ap_opcode ?rep = 2"
    by (simp_all add: arp_reply_to_def req)
  obtain sa1 q where sa1: "arp_resolveL3Address ea (L3IPv4 (ie_ipAddress ib)) ia sa = Inr (0, sa1)" "arp_sends ?req ia 0 0xFFFFFFFFFFFF q"
    "ar_cache sa1 = map_insert (ie_ipAddress ib) (arp_waiting_entry ea (ie_id ia) 0) (ar_cache sa)"
    "ar_out sa1 = ar_out sa @ [ArpIfOut q, ArpInitiated (ie_ipAddress ib) (ie_id ia)]"
    using arp_resolve_new[OF assms(8,1-3)] by blast
  have cache: "map_ok (ar_cache sa1)" "map_of (ar_cache sa1) (ap_srcIp ?rep) = Some (arp_waiting_entry ea (ie_id ia) 0)"
    using sa1(3) assms(7) by (simp_all add: map_ok_insert map_of_insert rep)
  have b: "\<exists>sb1 r j. arp_processArpPacket eb q' sb = Inr sb1 \<and> arp_sends ?rep ib 0 (ie_mac ia) r
      \<and> ar_out sb1 = ar_out sb @ [ArpCompleted (ie_ipAddress ia) (ie_mac ia) j, ArpIfOut r]
      \<and> arp_resolved (ie_ipAddress ia) (ie_mac ia) (an_now eb) sb1" if "arp_carried q q' (ie_id ib)" for q'
    using arp_request_learned[OF arp_carried_received[OF that sa1(2) assms(4)] assms(4) _ _ assms(5,9)] assms(2,3) req by simp
  have a: "\<exists>sa2. arp_processArpPacket ea' r' sa1 = Inr sa2
      \<and> ar_out sa2 = ar_out sa1 @ [ArpCompleted (ie_ipAddress ib) (ie_mac ib) (ie_id ia)]
      \<and> arp_resolved (ie_ipAddress ib) (ie_mac ib) (an_now ea') sa2"
    if "arp_sends ?rep ib 0 (ie_mac ia) r" "arp_carried r r' (ie_id ia)" "an_ift ea' = an_ift ea" for r r' ea'
  proof -
    have ift: "findInterfaceById (an_ift ea') (ie_id ia) = Some ia" using assms(1) that(3) by simp
    show ?thesis using arp_reply_learned[OF arp_carried_received[OF that(2,1) ift] ift _ _ cache] rep assms(5,6)
      by (simp add: arp_waiting_entry_def)
  qed
  have m: "t_macReq (pk_tags q) = Some (0, 0xFFFFFFFFFFFF)" using sa1(2) by (simp add: arp_sends_def)
  have mr: "arp_sends ?rep ib 0 (ie_mac ia) r \<Longrightarrow> t_macReq (pk_tags r) = Some (0, ie_mac ia)" for r by (simp add: arp_sends_def)
  show ?thesis
  proof (rule exI[of _ sa1], rule exI[of _ q], intro conjI allI impI)
    fix q' assume "arp_carried q q' (ie_id ib)"
    from b[OF this] obtain sb1 r j where s: "arp_processArpPacket eb q' sb = Inr sb1" "arp_sends ?rep ib 0 (ie_mac ia) r"
      "ar_out sb1 = ar_out sb @ [ArpCompleted (ie_ipAddress ia) (ie_mac ia) j, ArpIfOut r]"
      "arp_resolved (ie_ipAddress ia) (ie_mac ia) (an_now eb) sb1" by blast
    show "\<exists>sb1 r j. arp_processArpPacket eb q' sb = Inr sb1
          \<and> ar_out sb1 = ar_out sb @ [ArpCompleted (ie_ipAddress ia) (ie_mac ia) j, ArpIfOut r]
          \<and> t_macReq (pk_tags r) = Some (0, ie_mac ia)
          \<and> arp_answers (ie_ipAddress ia) (ie_mac ia) (an_now eb) sb1
          \<and> (\<forall>r' ea'. arp_carried r r' (ie_id ia) \<longrightarrow> an_ift ea' = an_ift ea \<longrightarrow>
              (\<exists>sa2. arp_processArpPacket ea' r' sa1 = Inr sa2
                \<and> ar_out sa2 = ar_out sa1 @ [ArpCompleted (ie_ipAddress ib) (ie_mac ib) (ie_id ia)]
                \<and> arp_answers (ie_ipAddress ib) (ie_mac ib) (an_now ea') sa2))"
      using s a[OF s(2)] mr[OF s(2)] by (blast intro: arp_resolved_answers)
  qed (rule sa1 m)+
qed

theorem arp_exchange_witness:
  "\<exists>sa1 sb1 sa2 q r j. arp_resolveL3Address (example_arp_env 5 (example_arp_interface 1 0xA 0x0A000001)) (L3IPv4 0x0A000002)
       (example_arp_interface 1 0xA 0x0A000001) (arp_init (new_routing_table True True True)) = Inr (0, sa1)
     \<and> arp_processArpPacket (example_arp_env 6 (example_arp_interface 7 0xB 0x0A000002))
         (q\<lparr>pk_tags := no_tags\<lparr>t_interfaceInd := Some 7\<rparr>\<rparr>) (arp_init (new_routing_table True True True)) = Inr sb1
     \<and> ar_out sb1 = [ArpCompleted 0x0A000001 0xA j, ArpIfOut r]
     \<and> arp_processArpPacket (example_arp_env 7 (example_arp_interface 1 0xA 0x0A000001))
         (r\<lparr>pk_tags := no_tags\<lparr>t_interfaceInd := Some 1\<rparr>\<rparr>) sa1 = Inr sa2
     \<and> ar_out sa2 = [ArpIfOut q, ArpInitiated 0x0A000002 1, ArpCompleted 0x0A000002 0xB 1]
     \<and> arp_resolveL3Address (example_arp_env 120007 (example_arp_interface 1 0xA 0x0A000001)) (L3IPv4 0x0A000002)
       (example_arp_interface 1 0xA 0x0A000001) sa2 = Inr (0xB, sa2)"
proof -
  let ?a = "example_arp_interface 1 0xA 0x0A000001" and ?b = "example_arp_interface 7 0xB 0x0A000002"
  let ?s = "arp_init (new_routing_table True True True)"
  let ?ea = "\<lambda>t. example_arp_env t ?a" and ?eb = "example_arp_env 6 ?b"
  let ?to = "\<lambda>(p::packet) i. p\<lparr>pk_tags := no_tags\<lparr>t_interfaceInd := Some i\<rparr>\<rparr>"
  have carried: "arp_carried p (?to p (ie_id ie)) (ie_id ie)" for p and ie :: network_interface by (simp add: arp_carried_def)
  have "findInterfaceById (an_ift (?ea 5)) (ie_id ?a) = Some ?a" "ie_mac ?a \<noteq> 0" "ie_ipAddress ?a \<noteq> 0"
    "findInterfaceById (an_ift ?eb) (ie_id ?b) = Some ?b" "ie_mac ?b \<noteq> 0" "ie_ipAddress ?b \<noteq> 0"
    "map_ok (ar_cache ?s)" "map_of (ar_cache ?s) (ie_ipAddress ?b) = None" "map_ok (ar_cache ?s)"
    by (simp_all add: findInterfaceById_def)
  note X = arp_exchange[OF this]
  from X obtain sa1 q where
    1: "arp_resolveL3Address (?ea 5) (L3IPv4 (ie_ipAddress ?b)) ?a ?s = Inr (0, sa1)"
      "ar_out sa1 = ar_out ?s @ [ArpIfOut q, ArpInitiated (ie_ipAddress ?b) (ie_id ?a)]"
    and 2: "\<forall>q'. arp_carried q q' (ie_id ?b) \<longrightarrow>
        (\<exists>sb1 r j. arp_processArpPacket ?eb q' ?s = Inr sb1
          \<and> ar_out sb1 = ar_out ?s @ [ArpCompleted (ie_ipAddress ?a) (ie_mac ?a) j, ArpIfOut r]
          \<and> t_macReq (pk_tags r) = Some (0, ie_mac ?a)
          \<and> arp_answers (ie_ipAddress ?a) (ie_mac ?a) (an_now ?eb) sb1
          \<and> (\<forall>r' ea'. arp_carried r r' (ie_id ?a) \<longrightarrow> an_ift ea' = an_ift (?ea 5) \<longrightarrow>
              (\<exists>sa2. arp_processArpPacket ea' r' sa1 = Inr sa2
                \<and> ar_out sa2 = ar_out sa1 @ [ArpCompleted (ie_ipAddress ?b) (ie_mac ?b) (ie_id ?a)]
                \<and> arp_answers (ie_ipAddress ?b) (ie_mac ?b) (an_now ea') sa2)))"
    by (elim exE conjE)
  from 2[rule_format, OF carried] obtain sb1 r j where 3: "arp_processArpPacket ?eb (?to q (ie_id ?b)) ?s = Inr sb1"
      "ar_out sb1 = ar_out ?s @ [ArpCompleted (ie_ipAddress ?a) (ie_mac ?a) j, ArpIfOut r]"
    and 4: "\<forall>r' ea'. arp_carried r r' (ie_id ?a) \<longrightarrow> an_ift ea' = an_ift (?ea 5) \<longrightarrow>
              (\<exists>sa2. arp_processArpPacket ea' r' sa1 = Inr sa2
                \<and> ar_out sa2 = ar_out sa1 @ [ArpCompleted (ie_ipAddress ?b) (ie_mac ?b) (ie_id ?a)]
                \<and> arp_answers (ie_ipAddress ?b) (ie_mac ?b) (an_now ea') sa2)"
    by (elim exE conjE)
  have "an_ift (?ea 7) = an_ift (?ea 5)" by simp
  from 4[rule_format, OF carried this] obtain sa2 where 5: "arp_processArpPacket (?ea 7) (?to r (ie_id ?a)) sa1 = Inr sa2"
    "ar_out sa2 = ar_out sa1 @ [ArpCompleted (ie_ipAddress ?b) (ie_mac ?b) (ie_id ?a)]"
    "arp_answers (ie_ipAddress ?b) (ie_mac ?b) (an_now (?ea 7)) sa2"
    by (elim exE conjE)
  have "arp_resolveL3Address (?ea 120007) (L3IPv4 (ie_ipAddress ?b)) ?a sa2 = Inr (ie_mac ?b, sa2)"
    using 5(3) by (simp add: arp_answers_def)
  then show ?thesis using 1 3 5(1,2) by (intro exI[of _ sa1] exI[of _ sb1] exI[of _ sa2] exI[of _ q] exI[of _ r]) auto
qed

end
