(* ===== verification/Arp_Ipv4.thy ===== *)
theory Arp_Ipv4
  imports Arp Ipv4_Input
begin

text \<open>
  ARP and IPv4 of one node together. \<open>Ipv4::sendDatagramToOutput\<close> asks ARP for the MAC address of
  the next hop and keeps the datagram in \<open>pendingPackets\<close> while there is none; ARP's
  notifications, which \<open>Ipv4\<close> receives as signals while ARP is still in its handler, send or drop what waits.
  The invariant of the two is that whatever waits in \<open>Ipv4\<close> waits for a resolution that is pending in
  ARP, with its timer running; so nothing waits for ever and the assertion of
  \<open>sendDatagramToOutput\<close> holds.
\<close>

section \<open>The two modules\<close>

text \<open>The next hop and the interface for which sending a datagram asks ARP, if it does.\<close>

definition ip_asks_arp :: "ip_env \<Rightarrow> packet \<Rightarrow> (ipv4_address \<times> network_interface) option" where
  "ip_asks_arp env p =
    (case (reqInterface env p, t_nextHopReq (pk_tags p)) of
       (Inr ie, Some nextHop) \<Rightarrow>
         if \<not> ie_isBroadcast ie \<or> ie_mac ie = 0 \<or> ip_isLimitedBroadcast nextHop \<or> nextHop = ie_broadcastAddress ie
            \<or> ip_isMulticast nextHop
         then None else Some (nextHop, ie)
     | _ \<Rightarrow> None)"

definition node_send :: "arp_env \<Rightarrow> ip_env \<Rightarrow> packet \<Rightarrow> arp_state \<times> ipv4_state \<Rightarrow> (arp_state \<times> ipv4_state) res" where
  "node_send aenv env p n =
    (case ip_asks_arp env p of
       None \<Rightarrow> bindE (ip_sendDatagramToOutput env p (snd n)) (\<lambda>s. Inr (fst n, s))
     | Some (nextHop, ie) \<Rightarrow>
         bindE (arp_resolveL3Address aenv (L3IPv4 nextHop) ie (fst n)) (\<lambda>(mac, a).
         bindE (ip_sendDatagramToOutput (env\<lparr>en_arp := (\<lambda>_ _. mac)\<rparr>) p (snd n)) (\<lambda>s. Inr (a, s))))"

text \<open>\<open>Ipv4\<close> subscribes to the completion and the failure.\<close>

fun arp_signal :: "arp_output \<Rightarrow> ip_signal option" where
  "arp_signal (ArpCompleted a mac i) = Some (ArpResolutionCompleted (L3IPv4 a) i mac)"
| "arp_signal (ArpFailed a i) = Some (ArpResolutionFailed (L3IPv4 a))"
| "arp_signal _ = None"

fun arp_notify :: "ip_env \<Rightarrow> arp_output list \<Rightarrow> ipv4_state \<Rightarrow> ipv4_state res" where
  "arp_notify env [] s = Inr s"
| "arp_notify env (x # xs) s =
    bindE (case arp_signal x of Some sig \<Rightarrow> ip_receiveSignal env sig s | None \<Rightarrow> Inr s) (arp_notify env xs)"

definition node_arp :: "arp_env \<Rightarrow> ip_env \<Rightarrow> arp_event \<Rightarrow> arp_state \<times> ipv4_state \<Rightarrow> (arp_state \<times> ipv4_state) res" where
  "node_arp aenv env ev n =
    bindE (arp_handleMessageWhenUp aenv ev ((fst n)\<lparr>ar_out := [], ar_rt := is_rt (snd n)\<rparr>)) (\<lambda>a.
    bindE (arp_notify env (ar_out a) ((snd n)\<lparr>is_rt := ar_rt a\<rparr>)) (\<lambda>s.
      Inr (a\<lparr>ar_out := ar_out (fst n) @ ar_out a\<rparr>, s)))"

definition node_stop :: "arp_state \<times> ipv4_state \<Rightarrow> arp_state \<times> ipv4_state" where
  "node_stop n = (arp_handleStopOperation (fst n), ip_stop (snd n))"

text \<open>
  The steps of the node: a datagram that reaches \<open>sendDatagramToOutput\<close>, a timeout or a packet in ARP, a
  stop or a crash, and whatever else \<open>Ipv4\<close> does, which leaves \<open>pendingPackets\<close> alone.
\<close>

type_synonym node_state = "simtime \<times> arp_state \<times> ipv4_state"

inductive node_step :: "int \<Rightarrow> node_state \<Rightarrow> node_state \<Rightarrow> bool" for rc where
  Send: "\<lbrakk>arp_event_at rc now aenv a; node_send aenv env p (a, s) = Inr n\<rbrakk> \<Longrightarrow> node_step rc (now, a, s) (an_now aenv, n)"
| ArpTimer: "\<lbrakk>arp_event_at rc now aenv a; arp_timer_due aenv x a; node_arp aenv env (ArpTimer x) (a, s) = Inr n\<rbrakk>
    \<Longrightarrow> node_step rc (now, a, s) (an_now aenv, n)"
| ArpMessage: "\<lbrakk>arp_event_at rc now aenv a; node_arp aenv env (ArpMessage p) (a, s) = Inr n\<rbrakk>
    \<Longrightarrow> node_step rc (now, a, s) (an_now aenv, n)"
| Stop: "arp_event_at rc now aenv a \<Longrightarrow> node_step rc (now, a, s) (an_now aenv, node_stop (a, s))"
| Ipv4: "\<lbrakk>arp_event_at rc now aenv a; is_pending s' = is_pending s\<rbrakk> \<Longrightarrow> node_step rc (now, a, s) (an_now aenv, a, s')"

section \<open>What waits\<close>

lemma NIC_pending: "ip_sendPacketToNIC env p s = Inr s' \<Longrightarrow> is_pending s' = is_pending s"
  unfolding ip_sendPacketToNIC_def Let_def emit_out_def
  by (cases "reqInterface env p"; cases "en_txChannel env"; cases "is_timer s"; simp; elim subst; simp)

lemma send_waiting_pending: "send_waiting env i mac ps s = Inr s' \<Longrightarrow> is_pending s' = is_pending s"
  by (induction ps arbitrary: s) (auto simp: bindE_eq_Inr dest!: NIC_pending)

lemma send_not_asking:
  assumes "ip_asks_arp env p = None" "ip_sendDatagramToOutput env p s = Inr s'"
  shows "is_pending s' = is_pending s"
proof -
  obtain ie a where ie: "reqInterface env p = Inr ie" "t_nextHopReq (pk_tags p) = Some a"
    using assms(2) by (auto simp: ip_sendDatagramToOutput_def bindE_eq_Inr)
  have "makeMulticastAddress a \<noteq> 0"
  proof
    assume "makeMulticastAddress a = 0"
    then have "bit (makeMulticastAddress a) 40 = False" by simp
    then show False by (simp add: makeMulticastAddress_def bit_simps)
  qed
  then have "\<not> ie_isBroadcast ie \<or> ie_mac ie = 0 \<or> ip_resolveNextHopMacAddress env a ie \<noteq> 0"
    using assms(1) ie by (auto simp: ip_asks_arp_def ip_resolveNextHopMacAddress_def split: if_splits)
  then have "\<exists>q. ip_sendPacketToNIC env q s = Inr s'"
    using assms(2) unfolding ip_sendDatagramToOutput_def ie Let_def getTag_simps bindE_simps
    by (simp split: if_splits) blast+
  then show ?thesis by (auto dest: NIC_pending)
qed

text \<open>With the answer of ARP the datagram is queued behind what waits already, or sent.\<close>

lemma send_asking:
  assumes "ip_asks_arp env p = Some (a, ie)"
  shows "ip_sendDatagramToOutput (env\<lparr>en_arp := (\<lambda>_ _. mac)\<rparr>) p s =
    (let q = p\<lparr>pk_tags := (pk_tags p)\<lparr>t_nextHopReq := None\<rparr>\<rparr>; waiting = map_of (is_pending s) a in
     if mac = 0 then Inr (s\<lparr>is_pending := map_insert a ((case waiting of Some w \<Rightarrow> w | None \<Rightarrow> []) @ [q]) (is_pending s)\<rparr>)
     else if waiting \<noteq> None then Inl (AssertFailed ''Ipv4-ARP error: Ipv4 queue for nextHopAddr not empty'')
     else ip_sendPacketToNIC (env\<lparr>en_arp := (\<lambda>_ _. mac)\<rparr>) (set_macDest mac q) s)"
proof -
  have ie: "reqInterface env p = Inr ie" "t_nextHopReq (pk_tags p) = Some a" "ie_isBroadcast ie" "ie_mac ie \<noteq> 0"
    "\<not> ip_isLimitedBroadcast a" "a \<noteq> ie_broadcastAddress ie" "\<not> ip_isMulticast a"
    using assms by (auto simp: ip_asks_arp_def split: sum.splits option.splits if_splits)
  have "reqInterface (env\<lparr>en_arp := (\<lambda>_ _. mac)\<rparr>) p = Inr ie" using ie(1) by (simp add: reqInterface_def)
  then show ?thesis using ie(2-7) by (simp add: ip_sendDatagramToOutput_def ip_resolveNextHopMacAddress_def Let_def)
qed

text \<open>What the events of ARP do to its cache, and what they tell.\<close>

lemma arp_process_effect:
  assumes "arp_processArpPacket env p s = Inr s'"
  shows "(ar_cache s' = ar_cache s \<and> ar_out s' = ar_out s) \<or>
    (\<exists>a m e xs. m \<noteq> 0 \<and> \<not> ae_pending e \<and> ae_mac e = m \<and> ar_cache s' = map_insert a e (ar_cache s)
       \<and> ar_out s' = ar_out s @ ArpCompleted a m (ae_ie e) # xs \<and> (\<forall>x \<in> set xs. arp_signal x = None))"
proof -
  obtain arp ie where r: "arp_received env p arp ie" using arp_process_cases[OF assms] by blast
  obtain b rt where a: "arp_addressRecognized env (ap_destIp arp) ie (ar_rt s) = (b, rt)" by fastforce
  have act: "\<exists>xs. ar_cache t' = ar_cache t \<and> ar_out t' = ar_out t @ xs \<and> (\<forall>x \<in> set xs. arp_signal x = None)"
    if "arp_opcode_action env arp ie t = Inr t'" for t t'
    using that by (auto simp: arp_opcode_action_def arp_reply_def Let_def arp_emit_def bindE_eq_Inr split: if_splits)
  have upd: "\<exists>d. \<not> ae_pending d \<and> ae_mac d = ap_srcMac arp \<and> ae_ie d = ae_ie e
      \<and> ar_cache (arp_updateArpCache env (ap_srcIp arp) e (ap_srcMac arp) t) = map_insert (ap_srcIp arp) d (ar_cache t)" for e t
    by (intro exI[of _ "(if ae_pending e then e\<lparr>ae_pending := False, ae_timer := None, ae_numRetries := 0\<rparr> else e)
          \<lparr>ae_mac := ap_srcMac arp, ae_lastUpdate := an_now env\<rparr>"])
      (simp add: arp_updateArpCache_def Let_def arp_set_entry_def arp_emit_def)
  have mac: "ap_srcMac arp \<noteq> 0" using r by (simp add: arp_received_def)
  have learned: "\<exists>a m e xs. m \<noteq> 0 \<and> \<not> ae_pending e \<and> ae_mac e = m \<and> ar_cache s' = map_insert a e (ar_cache s)
       \<and> ar_out s' = ar_out s @ ArpCompleted a m (ae_ie e) # xs \<and> (\<forall>x \<in> set xs. arp_signal x = None)"
    if "ar_cache s' = ar_cache (arp_updateArpCache env (ap_srcIp arp) e (ap_srcMac arp) s)"
       "ar_out s' = ar_out s @ ArpCompleted (ap_srcIp arp) (ap_srcMac arp) (ae_ie e) # xs"
       "\<forall>x \<in> set xs. arp_signal x = None" for e xs
    using that mac upd[of e s] by metis
  show ?thesis
  proof (cases "map_of (ar_cache s) (ap_srcIp arp)")
    case None
    let ?t = "arp_updateArpCache env (ap_srcIp arp) (new_arp_entry (ie_id ie)) (ap_srcMac arp) (s\<lparr>ar_rt := rt\<rparr>)"
    have t: "ar_cache ?t = ar_cache (arp_updateArpCache env (ap_srcIp arp) (new_arp_entry (ie_id ie)) (ap_srcMac arp) s)"
      by (simp add: arp_updateArpCache_def Let_def arp_set_entry_def arp_emit_def)
    show ?thesis
    proof (cases b)
      case True
      then show ?thesis using assms act[of ?t s'] learned[of "new_arp_entry (ie_id ie)"] t
        unfolding arp_process_unknown[OF r None a] by (auto simp: arp_update_out)
    qed (use assms arp_process_unknown[OF r None a] in auto)
  next
    case (Some e)
    let ?t = "(arp_updateArpCache env (ap_srcIp arp) e (ap_srcMac arp) s)\<lparr>ar_rt := rt\<rparr>"
    have "(if b then arp_opcode_action env arp ie ?t else Inr ?t) = Inr s'"
      using assms unfolding arp_process_known[OF r Some a] Let_def .
    then have "\<exists>xs. ar_cache s' = ar_cache ?t \<and> ar_out s' = ar_out ?t @ xs \<and> (\<forall>x \<in> set xs. arp_signal x = None)"
      using act[of ?t s'] by (cases b) auto
    then show ?thesis using learned[of e] by (auto simp: arp_update_out)
  qed
qed

lemma arp_timeout_effect:
  assumes "arp_requestTimedOut env a s = Inr s'" "map_of (ar_cache s) a = Some e" "ae_pending e"
  shows "(\<exists>e' p. ae_pending e' \<and> ar_cache s' = map_insert a e' (ar_cache s) \<and> ar_out s' = ar_out s @ [ArpIfOut p]) \<or>
    (ar_cache s' = map_erase a (ar_cache s) \<and> ar_out s' = ar_out s @ [ArpFailed a (ae_ie e)])"
proof (cases "ae_numRetries e + 1 < an_retryCount env")
  case True
  let ?e = "e\<lparr>ae_numRetries := ae_numRetries e + 1, ae_timer := Some (an_now env + an_retryTimeout env)\<rparr>"
  obtain t where t: "arp_sendArpRequest env (ae_ie e) a s = Inr t" "s' = arp_set_entry a ?e t"
    using assms True by (auto simp: arp_requestTimedOut_def Let_def bindE_eq_Inr)
  then obtain p where "ar_cache t = ar_cache s" "ar_out t = ar_out s @ [ArpIfOut p]" using arp_request_Inr[OF t(1)] by auto
  then show ?thesis using t(2) assms(3) by (intro disjI1 exI[of _ ?e] exI[of _ p]) (simp add: arp_set_entry_def)
next
  case False
  then show ?thesis using assms by (auto simp: arp_requestTimedOut_def Let_def arp_emit_def)
qed

lemma arp_notify_silent: "\<forall>x \<in> set xs. arp_signal x = None \<Longrightarrow> arp_notify env xs s = Inr s"
  by (induction xs) simp_all

lemma completed_pending:
  assumes "ip_arpResolutionCompleted env (L3IPv4 a) i m s = Inr s'"
  shows "map_of (is_pending s') = (map_of (is_pending s))(a := None)" "map_ok (is_pending s) \<Longrightarrow> map_ok (is_pending s')"
  using assms
  by (auto simp: ip_arpResolutionCompleted_def bindE_eq_Inr map_of_erase map_ok_erase fun_upd_idem split: option.splits
      dest!: send_waiting_pending)

lemma failed_pending:
  "map_of (is_pending (ip_arpResolutionTimedOut (L3IPv4 a) s)) = (map_of (is_pending s))(a := None)"
  "map_ok (is_pending s) \<Longrightarrow> map_ok (is_pending (ip_arpResolutionTimedOut (L3IPv4 a) s))"
  by (auto simp: ip_arpResolutionTimedOut_def map_of_erase map_ok_erase fun_upd_idem fold_emit split: option.splits)

section \<open>What IPv4 relies on\<close>

text \<open>
  The contract between a resolver and a client that keeps what it cannot send yet in queues: \<open>resolves x r m r'\<close>
  is a resolution of \<open>x\<close> with the answer \<open>m\<close>, \<open>settles x r r'\<close> an event that ends the one of \<open>x\<close>. A
  resolution without an answer is pending afterwards, one with an answer was not pending; so a client that queues
  exactly when there is no answer, and gives a queue up when its resolution is settled, has only queues
  that somebody will settle.
\<close>

locale address_resolver =
  fixes pending :: "'r \<Rightarrow> ipv4_address set"
    and ok :: "'r \<Rightarrow> bool"
    and resolves :: "ipv4_address \<Rightarrow> 'r \<Rightarrow> mac_address \<Rightarrow> 'r \<Rightarrow> bool"
    and settles :: "ipv4_address \<Rightarrow> 'r \<Rightarrow> 'r \<Rightarrow> bool"
  assumes no_answer: "ok r \<Longrightarrow> resolves x r 0 r' \<Longrightarrow> pending r' = insert x (pending r)"
    and answer: "ok r \<Longrightarrow> resolves x r m r' \<Longrightarrow> m \<noteq> 0 \<Longrightarrow> pending r' = pending r \<and> x \<notin> pending r"
    and settled: "ok r \<Longrightarrow> settles x r r' \<Longrightarrow> pending r - {x} \<subseteq> pending r'"
begin

definition waits :: "'r \<Rightarrow> (ipv4_address \<Rightarrow> 'q option) \<Rightarrow> bool" where
  "waits r queues \<longleftrightarrow> dom queues \<subseteq> pending r"

lemma waits_enqueue: "ok r \<Longrightarrow> waits r q \<Longrightarrow> resolves x r 0 r' \<Longrightarrow> waits r' (q(x \<mapsto> w))"
  by (auto simp: waits_def dest: no_answer)

lemma waits_known: "ok r \<Longrightarrow> waits r q \<Longrightarrow> resolves x r m r' \<Longrightarrow> m \<noteq> 0 \<Longrightarrow> q x = None \<and> waits r' q"
  using answer[of r x m r'] by (auto simp: waits_def)

lemma waits_settled: "ok r \<Longrightarrow> waits r q \<Longrightarrow> settles x r r' \<Longrightarrow> waits r' (q(x := None))"
  using settled[of r x r'] by (auto simp: waits_def)

end

lemma resolve_effect:
  assumes "arp_resolveL3Address env (L3IPv4 x) ie a = Inr (m, a')" "map_ok (ar_cache a)"
    "\<And>e. map_of (ar_cache a) x = Some e \<Longrightarrow> \<not> ae_pending e \<Longrightarrow> ae_mac e \<noteq> 0"
  shows "(m = 0 \<and> (\<exists>e. ae_pending e \<and> map_of (ar_cache a') = (map_of (ar_cache a))(x \<mapsto> e))) \<or>
    (m \<noteq> 0 \<and> a' = a \<and> (\<exists>e. map_of (ar_cache a) x = Some e \<and> \<not> ae_pending e))"
proof -
  have init: "\<exists>e. ae_pending e \<and> map_of (ar_cache a') = (map_of (ar_cache a))(x \<mapsto> e)"
    if "arp_initiateArpResolution env x d a = Inr a'" for d
    using arp_initiate_Inr[OF that] assms(2)
    by (intro exI[of _ "d\<lparr>ae_pending := True, ae_numRetries := 0, ae_lastUpdate := 0,
                ae_mac := 0, ae_timer := Some (an_now env + an_retryTimeout env)\<rparr>"]) (auto simp: map_of_insert)
  show ?thesis
  proof (cases "map_of (ar_cache a) x")
    case None
    then show ?thesis using assms(1) init by (auto simp: arp_resolveL3Address_def bindE_eq_Inr)
  next
    case (Some e)
    show ?thesis
    proof (cases "ae_pending e")
      case True
      then have "m = 0" "a' = a" "map_of (ar_cache a) = (map_of (ar_cache a))(x \<mapsto> e)"
        using assms(1) Some by (auto simp: arp_resolveL3Address_def fun_upd_idem)
      then show ?thesis using True by metis
    next
      case False
      then show ?thesis using assms(1,3) Some init by (auto simp: arp_resolveL3Address_def bindE_eq_Inr split: if_splits)
    qed
  qed
qed

definition arp_pending_addrs :: "arp_state \<Rightarrow> ipv4_address set" where
  "arp_pending_addrs a = {x. \<exists>e. map_of (ar_cache a) x = Some e \<and> ae_pending e}"

definition arp_known :: "arp_state \<Rightarrow> bool" where
  "arp_known a \<longleftrightarrow> map_ok (ar_cache a) \<and> (\<forall>x e. map_of (ar_cache a) x = Some e \<longrightarrow> \<not> ae_pending e \<longrightarrow> ae_mac e \<noteq> 0)"

interpretation arp_service: address_resolver arp_pending_addrs arp_known
  "\<lambda>x a m a'. \<exists>env ie. arp_resolveL3Address env (L3IPv4 x) ie a = Inr (m, a')"
  "\<lambda>x a a'. ar_cache a' = map_erase x (ar_cache a) \<or> (\<exists>e. ar_cache a' = map_insert x e (ar_cache a))"
proof (unfold_locales, goal_cases)
  case (1 a x a')
  then have "\<exists>e. ae_pending e \<and> map_of (ar_cache a') = (map_of (ar_cache a))(x \<mapsto> e)"
    using resolve_effect[of _ x _ a 0 a'] by (auto simp: arp_known_def)
  then show ?case by (auto simp: arp_pending_addrs_def)
next
  case (2 a x m a')
  then have "a' = a \<and> (\<exists>e. map_of (ar_cache a) x = Some e \<and> \<not> ae_pending e)"
    using resolve_effect[of _ x _ a m a'] by (auto simp: arp_known_def)
  then show ?case by (auto simp: arp_pending_addrs_def)
next
  case (3 a x a')
  then show ?case by (auto simp: arp_pending_addrs_def arp_known_def map_of_erase map_of_insert)
qed

section \<open>The invariant is kept\<close>

definition node_ok :: "int \<Rightarrow> simtime \<Rightarrow> arp_state \<Rightarrow> ipv4_state \<Rightarrow> bool" where
  "node_ok rc now a s \<longleftrightarrow> arp_ok rc now a \<and> arp_known a \<and> map_ok (is_pending s)
     \<and> (\<forall>x ps. map_of (is_pending s) x = Some ps \<longrightarrow> ps \<noteq> []) \<and> arp_service.waits a (map_of (is_pending s))"

lemma node_okD:
  assumes "node_ok rc now a s"
  shows "arp_ok rc now a" "arp_known a" "map_ok (is_pending s)" "arp_service.waits a (map_of (is_pending s))"
    "map_of (is_pending s) x = Some ps \<Longrightarrow> ps \<noteq> [] \<and> (\<exists>e. map_of (ar_cache a) x = Some e \<and> ae_pending e)"
  using assms by (auto simp: node_ok_def arp_service.waits_def arp_pending_addrs_def)

lemma node_okI:
  assumes "arp_ok rc now a" "arp_known a" "map_ok (is_pending s)" "arp_service.waits a (map_of (is_pending s))"
    "\<And>x ps. map_of (is_pending s) x = Some ps \<Longrightarrow> ps \<noteq> []"
  shows "node_ok rc now a s"
  using assms by (simp add: node_ok_def)

lemma waits_cong: "ar_cache a' = ar_cache a \<Longrightarrow> arp_service.waits a' q = arp_service.waits a q"
  "ar_cache a' = ar_cache a \<Longrightarrow> arp_known a' = arp_known a"
  by (simp_all add: arp_service.waits_def arp_pending_addrs_def arp_known_def)

lemma arp_known_insert:
  "arp_known a \<Longrightarrow> ar_cache a' = map_insert x e (ar_cache a) \<Longrightarrow> ae_pending e \<or> ae_mac e \<noteq> 0 \<Longrightarrow> arp_known a'"
  by (auto simp: arp_known_def map_ok_insert map_of_insert split: if_splits)

lemma arp_known_erase: "arp_known a \<Longrightarrow> ar_cache a' = map_erase x (ar_cache a) \<Longrightarrow> arp_known a'"
  by (auto simp: arp_known_def map_ok_erase map_of_erase split: if_splits)

lemma node_event_ok:
  assumes "arp_event_at rc now aenv a" "node_ok rc now a s"
  shows "node_ok rc (an_now aenv) a s"
  using assms arp_event_ok(1)[OF assms(1)] by (simp add: node_ok_def)

lemma arp_resolve_known:
  assumes "arp_resolveL3Address env (L3IPv4 x) ie a = Inr (m, a')" "arp_known a"
  shows "arp_known a'"
proof -
  have init: "arp_known a'" if "arp_initiateArpResolution env x d a = Inr a'" for d
    using arp_initiate_Inr[OF that] arp_known_insert[OF assms(2), of a' x] by fastforce
  then show ?thesis using assms
    by (auto simp: arp_resolveL3Address_def bindE_eq_Inr split: option.splits if_splits)
qed

lemma node_send_ok:
  assumes ok: "node_ok (an_retryCount aenv) (an_now aenv) a s" and t: "0 \<le> an_retryTimeout aenv"
    and n: "node_send aenv env p (a, s) = Inr (a', s')"
  shows "node_ok (an_retryCount aenv) (an_now aenv) a' s'"
proof (cases "ip_asks_arp env p")
  case None
  then have "a' = a" "is_pending s' = is_pending s" using n by (auto simp: node_send_def bindE_eq_Inr dest: send_not_asking)
  then show ?thesis using ok by (simp add: node_ok_def)
next
  case (Some q)
  obtain x ie where q: "ip_asks_arp env p = Some (x, ie)" using Some by (cases q) auto
  obtain m where m: "arp_resolveL3Address aenv (L3IPv4 x) ie a = Inr (m, a')"
    "ip_sendDatagramToOutput (env\<lparr>en_arp := (\<lambda>_ _. m)\<rparr>) p s = Inr s'"
    using n q by (auto simp: node_send_def bindE_eq_Inr)
  note d = node_okD[OF ok]
  have a': "arp_ok (an_retryCount aenv) (an_now aenv) a'" "arp_known a'"
    by (rule arp_resolve_ok[OF d(1) t m(1)], rule arp_resolve_known[OF m(1) d(2)])
  have resolves: "\<exists>env ie. arp_resolveL3Address env (L3IPv4 x) ie a = Inr (m, a')" using m(1) by blast
  show ?thesis
  proof (cases "m = 0")
    case True
    obtain w where w: "is_pending s' = map_insert x w (is_pending s)" "w \<noteq> []"
      using m(2) True unfolding send_asking[OF q] by (auto simp: Let_def)
    show ?thesis using w a' d arp_service.waits_enqueue[OF d(2,4) resolves[unfolded True], of w]
      by (intro node_okI) (auto simp: map_ok_insert map_of_insert split: if_splits)
  next
    case False
    then have "is_pending s' = is_pending s"
      using m(2) unfolding send_asking[OF q] by (auto simp: Let_def dest: NIC_pending split: if_splits)
    then show ?thesis using a' d arp_service.waits_known[OF d(2,4) resolves False] by (intro node_okI) auto
  qed
qed

text \<open>A timeout or a packet, seen from the cache and from \<open>pendingPackets\<close>.\<close>

lemma node_arp_ok:
  assumes ok: "node_ok (an_retryCount aenv) (an_now aenv) a s" and t: "0 \<le> an_retryTimeout aenv" "0 \<le> an_now aenv"
    and due: "\<And>x. ev = ArpTimer x \<Longrightarrow> arp_timer_due aenv x a"
    and n: "node_arp aenv env ev (a, s) = Inr (a', s')"
  shows "node_ok (an_retryCount aenv) (an_now aenv) a' s'"
proof -
  let ?a = "a\<lparr>ar_out := [], ar_rt := is_rt s\<rparr>"
  obtain b where b: "arp_handleMessageWhenUp aenv ev ?a = Inr b" "arp_notify env (ar_out b) (s\<lparr>is_rt := ar_rt b\<rparr>) = Inr s'"
    "ar_cache a' = ar_cache b" "arp_ok (an_retryCount aenv) (an_now aenv) a' = arp_ok (an_retryCount aenv) (an_now aenv) b"
    using n by (auto simp: node_arp_def bindE_eq_Inr)
  note d = node_okD[OF ok] and cong = waits_cong[OF b(3)]
  have a: "arp_ok (an_retryCount aenv) (an_now aenv) ?a" using d(1) by simp
  show ?thesis
  proof (cases ev)
    case (ArpTimer x)
    obtain e where e: "map_of (ar_cache ?a) x = Some e" "ae_timer e \<noteq> None"
      using due[OF ArpTimer] by (auto simp: arp_timer_due_def split: option.splits)
    have p: "ae_pending e" using arp_okD[OF a e(1)] e(2) by (auto simp: arp_entry_ok_def split: if_splits)
    have b': "arp_ok (an_retryCount aenv) (an_now aenv) b" using arp_timeout_ok[OF a t(1) e] b(1) ArpTimer by simp
    have "arp_requestTimedOut aenv x ?a = Inr b" using b(1) ArpTimer by simp
    from arp_timeout_effect[OF this e(1) p] consider
      (retry) e' q where "ae_pending e'" "ar_cache b = map_insert x e' (ar_cache a)" "ar_out b = [ArpIfOut q]"
      | (fail) "ar_cache b = map_erase x (ar_cache a)" "ar_out b = [ArpFailed x (ae_ie e)]" by auto
    then show ?thesis
    proof cases
      case retry
      then have "is_pending s' = is_pending s" using b(2) by auto
      moreover have "arp_pending_addrs a \<subseteq> arp_pending_addrs a'"
        using retry d(2) b(3) by (auto simp: arp_pending_addrs_def arp_known_def map_of_insert)
      ultimately show ?thesis using b' b(4) d cong arp_known_insert[OF d(2) retry(2)] retry(1)
        by (intro node_okI) (auto simp: arp_service.waits_def)
    next
      case fail
      then have "s' = ip_arpResolutionTimedOut (L3IPv4 x) (s\<lparr>is_rt := ar_rt b\<rparr>)" using b(2) by (simp add: ip_receiveSignal_def)
      then show ?thesis using b' b(4) d cong arp_known_erase[OF d(2) fail(1)] failed_pending[where a = x and s = "s\<lparr>is_rt := ar_rt b\<rparr>"]
          arp_service.waits_settled[OF d(2,4) disjI1[OF fail(1)]]
        by (intro node_okI) (auto split: if_splits)
    qed
  next
    case (ArpMessage q)
    then have pr: "arp_processArpPacket aenv q ?a = Inr b" using b(1) by simp
    have b': "arp_ok (an_retryCount aenv) (an_now aenv) b" by (rule arp_process_ok[OF a t(2) pr])
    from arp_process_effect[OF pr] consider (none) "ar_cache b = ar_cache a" "ar_out b = []"
      | (learn) x m e xs where "m \<noteq> 0" "ae_mac e = m" "ar_cache b = map_insert x e (ar_cache a)"
          "ar_out b = ArpCompleted x m (ae_ie e) # xs" "\<forall>x \<in> set xs. arp_signal x = None" by auto
    then show ?thesis
    proof cases
      case none
      then have "is_pending s' = is_pending s" using b(2) by auto
      then show ?thesis using b' b(4) d cong waits_cong[OF none(1)] by (intro node_okI) auto
    next
      case learn
      then have "ip_arpResolutionCompleted env (L3IPv4 x) (ae_ie e) m (s\<lparr>is_rt := ar_rt b\<rparr>) = Inr s'"
        using b(2) by (auto simp: ip_receiveSignal_def bindE_eq_Inr arp_notify_silent)
      note c = completed_pending[OF this]
      have "arp_service.waits b ((map_of (is_pending s))(x := None))"
        using learn(3) by (intro arp_service.waits_settled[OF d(2,4)]) blast
      then show ?thesis using c b' b(4) d cong arp_known_insert[OF d(2) learn(3)] learn(1,2)
        by (intro node_okI) (auto split: if_splits)
    qed
  qed
qed

lemma node_step_ok:
  assumes "node_step rc (now, a, s) (now', a', s')" "0 \<le> now" "node_ok rc now a s"
  shows "0 \<le> now' \<and> node_ok rc now' a' s'"
  using assms(1)
proof cases
  case (Send aenv env p)
  then show ?thesis using assms(2,3) arp_event_ok[OF Send(2) node_okD(1)[OF assms(3)]] node_event_ok[OF Send(2) assms(3)]
      node_send_ok[of aenv a s env p a' s'] by simp
next
  case (ArpTimer aenv x env)
  then show ?thesis using assms(2,3) arp_event_ok[OF ArpTimer(2) node_okD(1)[OF assms(3)]] node_event_ok[OF ArpTimer(2) assms(3)]
      node_arp_ok[of aenv a s "ArpTimer x" env a' s'] by simp
next
  case (ArpMessage aenv env p)
  then show ?thesis using assms(2,3) arp_event_ok[OF ArpMessage(2) node_okD(1)[OF assms(3)]] node_event_ok[OF ArpMessage(2) assms(3)]
      node_arp_ok[of aenv a s "ArpMessage p" env a' s'] by simp
next
  case (Stop aenv)
  have "arp_ok rc now' a'" using Stop arp_event_ok[OF Stop(3) node_okD(1)[OF assms(3)]]
    by (simp add: node_stop_def arp_handleStopOperation_def arp_flush_ok)
  then show ?thesis using Stop assms(2) arp_event_ok(4)[OF Stop(3) node_okD(1)[OF assms(3)]]
    by (auto simp: node_ok_def node_stop_def arp_handleStopOperation_def arp_flush_def ip_stop_def ip_flush_def arp_known_def arp_service.waits_def)
next
  case (Ipv4 aenv)
  then show ?thesis using assms(2) arp_event_ok(4)[OF Ipv4(3) node_okD(1)[OF assms(3)]] node_event_ok[OF Ipv4(3) assms(3)]
    by (simp add: node_ok_def)
qed

section \<open>How waiting ends\<close>

text \<open>The timer of an address fires \<open>n\<close> times, each time when it is due.\<close>

fun node_expires :: "nat \<Rightarrow> arp_env \<Rightarrow> ip_env \<Rightarrow> ipv4_address \<Rightarrow> arp_state \<times> ipv4_state \<Rightarrow> (arp_state \<times> ipv4_state) res" where
  "node_expires 0 aenv env x n = Inr n"
| "node_expires (Suc k) aenv env x n =
    (case map_of (ar_cache (fst n)) x of
       Some e \<Rightarrow> (case ae_timer e of
           Some t \<Rightarrow> bindE (node_arp (aenv\<lparr>an_now := t\<rparr>) env (ArpTimer x) n) (node_expires k aenv env x)
         | None \<Rightarrow> Inr n)
     | None \<Rightarrow> Inr n)"

lemma timeout_rt: "arp_requestTimedOut env a s = Inr s' \<Longrightarrow> ar_rt s' = ar_rt s"
  by (auto simp: arp_requestTimedOut_def Let_def bindE_eq_Inr arp_emit_def arp_set_entry_def
      dest!: arp_request_Inr split: if_splits option.splits)

lemma node_timer_retry:
  assumes "map_of (ar_cache a) x = Some e" "ae_pending e" "ae_numRetries e + 1 < an_retryCount aenv"
    and "findInterfaceById (an_ift aenv) (ae_ie e) = Some ie" "ie_mac ie \<noteq> 0" "ie_ipAddress ie \<noteq> 0"
  shows "\<exists>a'. node_arp aenv env (ArpTimer x) (a, s) = Inr (a', s)
    \<and> ar_cache a' = map_insert x (e\<lparr>ae_numRetries := ae_numRetries e + 1, ae_timer := Some (an_now aenv + an_retryTimeout aenv)\<rparr>) (ar_cache a)"
proof -
  let ?a = "a\<lparr>ar_out := [], ar_rt := is_rt s\<rparr>"
  obtain t where t: "arp_sendArpRequest aenv (ae_ie e) x ?a = Inr t" using arp_request_total[OF assms(4-6)] by blast
  then obtain p where p: "t = ?a\<lparr>ar_out := [ArpIfOut p], ar_numRequestsSent := ar_numRequestsSent a + 1\<rparr>"
    using arp_request_Inr[OF t] by auto
  show ?thesis using assms(1-3) t
    by (simp add: node_arp_def arp_requestTimedOut_def Let_def p arp_set_entry_def)
qed

lemma node_timer_fail:
  assumes "map_of (ar_cache a) x = Some e" "\<not> ae_numRetries e + 1 < an_retryCount aenv" "map_of (is_pending s) x = Some ps"
  shows "\<exists>a' s'. node_arp aenv env (ArpTimer x) (a, s) = Inr (a', s') \<and> ar_cache a' = map_erase x (ar_cache a)
    \<and> is_pending s' = map_erase x (is_pending s) \<and> is_out s' = is_out s @ map (IpDropped AddressResolutionFailed) ps"
  using assms
  by (simp add: node_arp_def arp_requestTimedOut_def Let_def arp_emit_def ip_receiveSignal_def ip_arpResolutionTimedOut_def fold_emit)

lemma node_expires_drops:
  assumes "map_ok (ar_cache a)" "map_of (ar_cache a) x = Some e" "ae_pending e" "ae_timer e \<noteq> None"
    and "findInterfaceById (an_ift aenv) (ae_ie e) = Some ie" "ie_mac ie \<noteq> 0" "ie_ipAddress ie \<noteq> 0"
    and "map_of (is_pending s) x = Some ps" "nat (an_retryCount aenv - 1 - ae_numRetries e) = n"
  shows "\<exists>a' s'. node_expires (Suc n) aenv env x (a, s) = Inr (a', s') \<and> map_of (ar_cache a') x = None
    \<and> is_pending s' = map_erase x (is_pending s) \<and> is_out s' = is_out s @ map (IpDropped AddressResolutionFailed) ps"
  using assms
proof (induction n arbitrary: a e)
  case 0
  obtain t where t: "ae_timer e = Some t" using "0.prems"(4) by blast
  have "\<not> ae_numRetries e + 1 < an_retryCount (aenv\<lparr>an_now := t\<rparr>)" using "0.prems"(9) by simp
  from node_timer_fail[OF "0.prems"(2) this "0.prems"(8), of env] show ?case
    using "0.prems"(2) t by (auto simp: map_of_erase)
next
  case (Suc n)
  obtain t where t: "ae_timer e = Some t" using Suc.prems(4) by blast
  let ?aenv = "aenv\<lparr>an_now := t\<rparr>"
  let ?e = "e\<lparr>ae_numRetries := ae_numRetries e + 1, ae_timer := Some (an_now ?aenv + an_retryTimeout ?aenv)\<rparr>"
  have "ae_numRetries e + 1 < an_retryCount ?aenv" "findInterfaceById (an_ift ?aenv) (ae_ie e) = Some ie"
    using Suc.prems(5,9) by simp_all
  from node_timer_retry[OF Suc.prems(2,3) this Suc.prems(6,7), of env s] obtain a1 where
    a1: "node_arp ?aenv env (ArpTimer x) (a, s) = Inr (a1, s)" "ar_cache a1 = map_insert x ?e (ar_cache a)" by blast
  have "\<exists>a' s'. node_expires (Suc n) aenv env x (a1, s) = Inr (a', s') \<and> map_of (ar_cache a') x = None
    \<and> is_pending s' = map_erase x (is_pending s) \<and> is_out s' = is_out s @ map (IpDropped AddressResolutionFailed) ps"
    by (rule Suc.IH[of a1 ?e]) (use Suc.prems a1(2) in \<open>simp_all add: map_ok_insert map_of_insert\<close>)
  then show ?case using Suc.prems(2) t a1(1) by (simp only: node_expires.simps fst_conv option.case bindE_simps)
qed

text \<open>A datagram as it is handed to the interface after a completed resolution.\<close>

definition resolved_packet :: "ipv4_state \<Rightarrow> network_interface \<Rightarrow> mac_address \<Rightarrow> packet \<Rightarrow> packet" where
  "resolved_packet s ie mac p =
    (let q = set_macDest mac (set_interfaceReq (ie_id ie) p) in
     q\<lparr>pk_tags := (pk_tags q)\<lparr>t_packetProtocol := Some (if is_isRdma s then P_rdma else P_ipv4),
         t_dispatchInd := Some P_ipv4, t_dispatchReq := ie_protocol ie\<rparr>\<rparr>)"

lemma send_waiting_all:
  assumes "\<not> en_txChannel env" "findInterfaceById (en_ift env) i = Some ie"
  shows "send_waiting env i mac ps s = Inr (s\<lparr>is_out := is_out s @ map (QueueOut \<circ> resolved_packet s ie mac) ps\<rparr>)"
proof (induction ps arbitrary: s)
  case (Cons p ps)
  have i: "ie_id ie = i" using assms(2) by (auto simp: findInterfaceById_def find_Some_iff)
  have "ip_sendPacketToNIC env (set_macDest mac (set_interfaceReq i p)) s = Inr (s\<lparr>is_out := is_out s @ [QueueOut (resolved_packet s ie mac p)]\<rparr>)"
    using assms i by (simp add: ip_sendPacketToNIC_def reqInterface_def set_macDest_def set_interfaceReq_def getInterfaceById_def
        Let_def emit_out_def resolved_packet_def)
  moreover have "resolved_packet (s\<lparr>is_out := xs\<rparr>) ie mac = resolved_packet s ie mac" for xs
    by (rule ext) (simp add: resolved_packet_def)
  ultimately show ?case using Cons.IH[of "s\<lparr>is_out := is_out s @ [QueueOut (resolved_packet s ie mac p)]\<rparr>"] by simp
qed simp

lemma arp_process_completes:
  assumes r: "arp_received env p arp ie" and e: "map_of (ar_cache s) (ap_srcIp arp) = Some e" and op: "ap_opcode arp \<in> {1, 2}"
  shows "\<exists>s' xs. arp_processArpPacket env p s = Inr s'
    \<and> ar_out s' = ar_out s @ ArpCompleted (ap_srcIp arp) (ap_srcMac arp) (ae_ie e) # xs \<and> (\<forall>x \<in> set xs. arp_signal x = None)"
proof -
  obtain b rt where a: "arp_addressRecognized env (ap_destIp arp) ie (ar_rt s) = (b, rt)" by fastforce
  let ?t = "(arp_updateArpCache env (ap_srcIp arp) e (ap_srcMac arp) s)\<lparr>ar_rt := rt\<rparr>"
  have reply: "\<exists>t' xs. arp_reply env arp ie ?t = Inr t' \<and> ar_out t' = ar_out ?t @ xs \<and> (\<forall>x \<in> set xs. arp_signal x = None)"
  proof (cases "ie_mac ie = 0")
    case True
    then have "arp_reply env arp ie ?t = Inr ?t" by (simp add: arp_reply_def Let_def arp_resolveMacAddressForArpReply_def)
    then show ?thesis by auto
  next
    case False
    then obtain q where "arp_reply env arp ie ?t = Inr (?t\<lparr>ar_out := ar_out ?t @ [ArpIfOut q], ar_numRepliesSent := ar_numRepliesSent ?t + 1\<rparr>)"
      using arp_reply_Inr by blast
    then show ?thesis by auto
  qed
  have "\<exists>t' xs. (if b then arp_opcode_action env arp ie ?t else Inr ?t) = Inr t' \<and> ar_out t' = ar_out ?t @ xs \<and> (\<forall>x \<in> set xs. arp_signal x = None)"
    using reply op by (cases b) (auto simp: arp_opcode_action_def)
  then show ?thesis unfolding arp_process_known[OF r e a] Let_def by (auto simp: arp_update_out)
qed

lemma node_message_completes:
  assumes r: "arp_received aenv p arp ie" and e: "map_of (ar_cache a) (ap_srcIp arp) = Some e" and op: "ap_opcode arp \<in> {1, 2}"
    and ps: "map_of (is_pending s) (ap_srcIp arp) = Some ps"
    and tx: "\<not> en_txChannel env" "findInterfaceById (en_ift env) (ae_ie e) = Some out"
  shows "\<exists>a' s'. node_arp aenv env (ArpMessage p) (a, s) = Inr (a', s')
    \<and> is_pending s' = map_erase (ap_srcIp arp) (is_pending s)
    \<and> is_out s' = is_out s @ map (QueueOut \<circ> resolved_packet s out (ap_srcMac arp)) ps"
proof -
  let ?a = "a\<lparr>ar_out := [], ar_rt := is_rt s\<rparr>"
  obtain b xs where b: "arp_processArpPacket aenv p ?a = Inr b"
    "ar_out b = ArpCompleted (ap_srcIp arp) (ap_srcMac arp) (ae_ie e) # xs" "\<forall>x \<in> set xs. arp_signal x = None"
    using arp_process_completes[OF r _ op, of ?a e] e by auto
  have "resolved_packet (s\<lparr>is_rt := t\<rparr>) out m = resolved_packet s out m" for t m by (rule ext) (simp add: resolved_packet_def)
  then show ?thesis using b ps
    by (simp add: node_arp_def ip_receiveSignal_def ip_arpResolutionCompleted_def send_waiting_all[OF tx] arp_notify_silent)
qed

section \<open>Properties\<close>

lemma node_reachable_ok:
  assumes "(node_step rc)\<^sup>*\<^sup>* (0, arp_init rt, ipv4_init rt) (now, a, s)"
  shows "0 \<le> now \<and> node_ok rc now a s"
proof -
  have "node_ok rc 0 (arp_init rt) (ipv4_init rt)"
    using arp_init_ok[of 0 rc rt] by (simp add: node_ok_def ipv4_init_def arp_init_def arp_known_def arp_service.waits_def)
  note init = this
  have "0 \<le> fst y \<and> node_ok rc (fst y) (fst (snd y)) (snd (snd y))"
    if "(node_step rc)\<^sup>*\<^sup>* (0, arp_init rt, ipv4_init rt) y" for y
    using that
  proof (induction rule: rtranclp_induct)
    case (step y z)
    then show ?case using node_step_ok[of rc "fst y" "fst (snd y)" "snd (snd y)" "fst z" "fst (snd z)" "snd (snd z)"] by simp
  qed (use init in simp)
  from this[OF assms] show ?thesis by simp
qed

text \<open>
  When the interface has a transmission channel, \<open>sendPacketToNIC\<close> schedules the end of the transmission
  for each datagram, so a completed resolution for which more than one waits ends the simulation.
\<close>

lemma two_waiting_raise:
  assumes "en_txChannel env" "findInterfaceById (en_ift env) i = Some ie" "map_of (is_pending s) x = Some (p # q # ps)"
  shows "ip_receiveSignal env (ArpResolutionCompleted (L3IPv4 x) i mac) s
    = Inl (RuntimeError ''scheduleAt(): message is already scheduled'')"
  using assms by (cases "is_timer s")
    (simp_all add: ip_receiveSignal_def ip_arpResolutionCompleted_def ip_sendPacketToNIC_def reqInterface_def set_macDest_def
      set_interfaceReq_def getInterfaceById_def Let_def emit_out_def)

text \<open>A host that has one datagram to send to a host it has not resolved.\<close>

definition example_node_env :: ip_env where
  "example_node_env = (example_env CRC_COMPUTED False 1500)\<lparr>en_ift := [example_arp_interface 1 0xA 0x0A000001]\<rparr>"

definition example_arp_datagram :: packet where
  "example_arp_datagram = (new_packet ''d'' 0)\<lparr>pk_tags := no_tags\<lparr>t_interfaceReq := Some 1, t_nextHopReq := Some 0x0A000002\<rparr>\<rparr>"

lemma example_node:
  "\<exists>a s q. (node_step 3)\<^sup>*\<^sup>* (0, arp_init rt, ipv4_init rt) (5, a, s) \<and> map_of (is_pending s) 0x0A000002 = Some [q]
     \<and> map_of (ar_cache a) 0x0A000002 = Some (arp_waiting_entry (example_arp_env 5 (example_arp_interface 1 0xA 0x0A000001)) 1 0)
     \<and> is_out s = []"
proof -
  let ?ie = "example_arp_interface 1 0xA 0x0A000001"
  let ?env = "example_arp_env 5 ?ie"
  have "findInterfaceById (an_ift ?env) (ie_id ?ie) = Some ?ie" "ie_mac ?ie \<noteq> 0" "ie_ipAddress ?ie \<noteq> 0"
    by (simp_all add: findInterfaceById_def)
  from arp_resolve_new[OF _ this, of "arp_init rt" "0x0A000002"] obtain a where
    a: "arp_resolveL3Address ?env (L3IPv4 0x0A000002) ?ie (arp_init rt) = Inr (0, a)"
      "ar_cache a = [(0x0A000002, arp_waiting_entry ?env 1 0)]" by auto
  have q: "ip_asks_arp example_node_env example_arp_datagram = Some (0x0A000002, ?ie)"
    by (simp add: ip_asks_arp_def example_node_env_def example_arp_datagram_def reqInterface_def getInterfaceById_def findInterfaceById_def
        example_arp_interface_def ip_isLimitedBroadcast_def ie_broadcastAddress_def makeBroadcastAddress_def ip_isMulticast_def)
  obtain s d where s: "node_send ?env example_node_env example_arp_datagram (arp_init rt, ipv4_init rt) = Inr (a, s)"
    "is_pending s = [(0x0A000002, [d])]" "is_out s = []"
    using a(1) q by (auto simp: node_send_def send_asking[OF q] Let_def ipv4_init_def)
  have "node_step 3 (0, arp_init rt, ipv4_init rt) (an_now ?env, a, s)"
    by (rule Send[OF _ s(1)]) (simp add: arp_event_at_def)
  then have "(node_step 3)\<^sup>*\<^sup>* (0, arp_init rt, ipv4_init rt) (5, a, s)" by simp
  then show ?thesis using a(2) s(2,3) by (intro exI[of _ a] exI[of _ s] exI[of _ d]) simp
qed

text \<open>C9: in every state that ARP and IPv4 of a node reach together, each datagram that waits for the MAC
  address of its next hop waits for a resolution that ARP has pending, with attempts left and a timer that is
  still to fire; and when ARP gives an address for a datagram none waits for it, so the assertion of
  \<open>sendDatagramToOutput\<close> holds.\<close>

theorem node_waiting_resolves:
  assumes "(node_step retryCount)\<^sup>*\<^sup>* (0, arp_init rt, ipv4_init rt) (now, a, s)"
  shows "(\<forall>x ps. map_of (is_pending s) x = Some ps \<longrightarrow> ps \<noteq> [] \<and>
      (\<exists>e t. map_of (ar_cache a) x = Some e \<and> ae_pending e \<and> ae_timer e = Some t \<and> now \<le> t \<and> ae_numRetries e < max 1 retryCount))
    \<and> (\<forall>aenv env p. ip_asks_arp env p \<noteq> None \<longrightarrow>
        node_send aenv env p (a, s) \<noteq> Inl (AssertFailed ''Ipv4-ARP error: Ipv4 queue for nextHopAddr not empty''))"
proof -
  have ok: "node_ok retryCount now a s" using node_reachable_ok[OF assms] by simp
  have w: "ps \<noteq> [] \<and> (\<exists>e t. map_of (ar_cache a) x = Some e \<and> ae_pending e \<and> ae_timer e = Some t \<and> now \<le> t \<and> ae_numRetries e < max 1 retryCount)"
    if waiting: "map_of (is_pending s) x = Some ps" for x ps
  proof -
    obtain e where e: "map_of (ar_cache a) x = Some e" "ae_pending e" and ps: "ps \<noteq> []" using node_okD(5)[OF ok waiting] by blast
    then show ?thesis using arp_okD[OF node_okD(1)[OF ok] e(1)] by (auto simp: arp_entry_ok_def split: option.splits)
  qed
  have "node_send aenv env p (a, s) \<noteq> Inl (AssertFailed ''Ipv4-ARP error: Ipv4 queue for nextHopAddr not empty'')"
    if q: "ip_asks_arp env p = Some (x, ie)" for aenv env p x ie
  proof (cases "arp_resolveL3Address aenv (L3IPv4 x) ie a")
    case (Inl err)
    have "err \<noteq> AssertFailed ''Ipv4-ARP error: Ipv4 queue for nextHopAddr not empty''"
      using Inl by (auto simp: arp_resolveL3Address_def arp_initiateArpResolution_def arp_sendArpRequest_def arp_interface_def
          arp_make_packet_def insertAtFront_def insertAt_def assertE_def null_pointer_def bindE_eq_Inl Let_def split: option.splits if_splits)
    then show ?thesis using Inl q by (simp add: node_send_def)
  next
    case (Inr r)
    obtain m a' where r: "r = (m, a')" by (cases r)
    then have "\<exists>env ie. arp_resolveL3Address env (L3IPv4 x) ie a = Inr (m, a')" using Inr by blast
    from arp_service.waits_known[OF node_okD(2,4)[OF ok] this] have "m = 0 \<or> map_of (is_pending s) x = None"
      by (cases "m = 0") simp_all
    then show ?thesis using Inr r q
      by (auto simp: node_send_def send_asking[OF q] Let_def ip_sendPacketToNIC_def reqInterface_def getInterfaceById_def getTag_def
          bindE_eq_Inl split: option.splits if_splits)
  qed
  then show ?thesis using w by fast
qed

theorem node_waiting_resolves_witness:
  "\<exists>a s e t ps. (node_step 3)\<^sup>*\<^sup>* (0, arp_init (new_routing_table True True True), ipv4_init (new_routing_table True True True)) (5, a, s)
     \<and> map_of (is_pending s) 0x0A000002 = Some ps \<and> map_of (ar_cache a) 0x0A000002 = Some e \<and> ae_timer e = Some t \<and> 5 \<le> t"
proof -
  obtain a s q where *: "(node_step 3)\<^sup>*\<^sup>* (0, arp_init (new_routing_table True True True), ipv4_init (new_routing_table True True True)) (5, a, s)"
    "map_of (is_pending s) 0x0A000002 = Some [q]" using example_node by blast
  then show ?thesis using node_waiting_resolves[OF *(1)] by blast
qed

text \<open>C7: what waits for the MAC address of a next hop leaves the queue in one of two ways. When a request or a
  reply of that host arrives, all that waits is sent at once, in order, to the address in it, on the interface of the
  resolution. When no reply comes, the timer fires at most as often as attempts are left, and then all of it
  is dropped with the reason that the resolution failed. Both return, and no other queue changes.\<close>

theorem node_waiting_ends:
  assumes "(node_step (an_retryCount aenv))\<^sup>*\<^sup>* (0, arp_init rt, ipv4_init rt) (now, a, s)"
    and "map_of (is_pending s) x = Some ps" and "map_of (ar_cache a) x = Some e"
    and "findInterfaceById (an_ift aenv) (ae_ie e) = Some ie" and "ie_mac ie \<noteq> 0" and "ie_ipAddress ie \<noteq> 0"
    and "en_ift env = an_ift aenv" and "\<not> en_txChannel env"
  shows "(\<forall>p arp ie'. arp_received aenv p arp ie' \<longrightarrow> ap_srcIp arp = x \<longrightarrow> ap_opcode arp \<in> {1, 2} \<longrightarrow>
        (\<exists>a' s'. node_arp aenv env (ArpMessage p) (a, s) = Inr (a', s') \<and> is_pending s' = map_erase x (is_pending s)
           \<and> is_out s' = is_out s @ map (QueueOut \<circ> resolved_packet s ie (ap_srcMac arp)) ps))
    \<and> (\<exists>a' s' n. int n \<le> max 1 (an_retryCount aenv) - ae_numRetries e
         \<and> node_expires n aenv env x (a, s) = Inr (a', s') \<and> is_pending s' = map_erase x (is_pending s)
         \<and> is_out s' = is_out s @ map (IpDropped AddressResolutionFailed) ps)"
proof -
  have ok: "node_ok (an_retryCount aenv) now a s" using node_reachable_ok[OF assms(1)] by simp
  have p: "ae_pending e" using node_okD(5)[OF ok assms(2)] assms(3) by auto
  have cache: "map_ok (ar_cache a)" using node_okD(2)[OF ok] by (simp add: arp_known_def)
  have eo: "ae_timer e \<noteq> None" "ae_numRetries e < max 1 (an_retryCount aenv)"
    using arp_okD[OF node_okD(1)[OF ok] assms(3)] p by (auto simp: arp_entry_ok_def split: option.splits)
  have n: "int (Suc (nat (an_retryCount aenv - 1 - ae_numRetries e))) \<le> max 1 (an_retryCount aenv) - ae_numRetries e"
    using eo(2) by linarith
  have out: "findInterfaceById (en_ift env) (ae_ie e) = Some ie" using assms(4,7) by simp
  have "\<exists>a' s'. node_arp aenv env (ArpMessage p) (a, s) = Inr (a', s') \<and> is_pending s' = map_erase x (is_pending s)
           \<and> is_out s' = is_out s @ map (QueueOut \<circ> resolved_packet s ie (ap_srcMac arp)) ps"
    if r: "arp_received aenv p arp ie'" and x: "ap_srcIp arp = x" and op: "ap_opcode arp \<in> {1, 2}" for p arp ie'
    using node_message_completes[OF r _ op _ assms(8) out] assms(2,3) x by simp
  moreover from node_expires_drops[OF cache assms(3) p eo(1) assms(4-6,2) refl] n
  have "\<exists>a' s' n. int n \<le> max 1 (an_retryCount aenv) - ae_numRetries e
         \<and> node_expires n aenv env x (a, s) = Inr (a', s') \<and> is_pending s' = map_erase x (is_pending s)
         \<and> is_out s' = is_out s @ map (IpDropped AddressResolutionFailed) ps" by blast
  ultimately show ?thesis by blast
qed

theorem node_waiting_ends_witness:
  "\<exists>a s a' s' n q. map_of (is_pending s) 0x0A000002 = Some [q] \<and> is_out s = [] \<and> n \<le> 3
     \<and> node_expires n (example_arp_env 5 (example_arp_interface 1 0xA 0x0A000001)) example_node_env 0x0A000002 (a, s) = Inr (a', s')
     \<and> is_pending s' = map_erase 0x0A000002 (is_pending s) \<and> is_out s' = [IpDropped AddressResolutionFailed q]"
proof -
  let ?rt = "new_routing_table True True True" and ?ie = "example_arp_interface 1 0xA 0x0A000001"
  let ?aenv = "example_arp_env 5 ?ie"
  let ?e = "arp_waiting_entry ?aenv 1 0"
  obtain a s q where n: "(node_step (an_retryCount ?aenv))\<^sup>*\<^sup>* (0, arp_init ?rt, ipv4_init ?rt) (5, a, s)"
    "map_of (is_pending s) 0x0A000002 = Some [q]" "map_of (ar_cache a) 0x0A000002 = Some ?e" and out: "is_out s = []"
    using example_node[of ?rt] by auto
  have e: "ae_numRetries ?e = 0" by (simp add: arp_waiting_entry_def)
  have "findInterfaceById (an_ift ?aenv) (ae_ie ?e) = Some ?ie" "ie_mac ?ie \<noteq> 0" "ie_ipAddress ?ie \<noteq> 0"
    "en_ift example_node_env = an_ift ?aenv" "\<not> en_txChannel example_node_env"
    by (simp_all add: arp_waiting_entry_def findInterfaceById_def example_node_env_def example_env_def)
  note X = node_waiting_ends[OF n this]
  from conjunct2[OF X] obtain a' s' n' where "int n' \<le> max 1 (an_retryCount ?aenv) - ae_numRetries ?e"
    "node_expires n' ?aenv example_node_env 0x0A000002 (a, s) = Inr (a', s')" "is_pending s' = map_erase 0x0A000002 (is_pending s)"
    "is_out s' = is_out s @ map (IpDropped AddressResolutionFailed) [q]" by (elim exE conjE)
  then show ?thesis using n(2) out e
    by (intro exI[of _ a] exI[of _ s] exI[of _ a'] exI[of _ s'] exI[of _ n'] exI[of _ q]) simp
qed

end
