(* ===== verification/Icmp.thy ===== *)
theory Icmp
  imports Wire Routing_Table
begin

text \<open>
  The ICMP module (\<open>networklayer/ipv4/Icmp.{h,cc}\<close>): when an error message may be sent, what it
  contains, its checksum, and what is done with a received message. \<open>Ipv4\<close> and \<open>Udp\<close> call
  \<open>sendErrorMessage\<close> and \<open>sendPtbMessage\<close>; a received error goes up to the protocol of the datagram it
  quotes. A handler returns what it sends, in order, and the state. The interfaces and the time are in
  the environment; the routing table, of which the module asks the broadcast addresses, is shared.
\<close>

section \<open>State\<close>

record icmp_env =
  ce_now :: simtime
  ce_ift :: "network_interface list"

text \<open>\<open>transportProtocols\<close> is a set; it is only asked for membership.\<close>

record icmp_state =
  cs_transportProtocols :: "int list"
  cs_crcMode :: crc_mode
  cs_quoteLength :: int
  cs_ctr :: nat
  cs_rt :: routing_table

datatype icmp_output =
    IcmpIpOut packet          \<comment> \<open>\<open>send(msg, "ipOut")\<close>\<close>
  | IcmpTransportOut packet   \<comment> \<open>\<open>send(packet, "transportOut")\<close>\<close>
  | IcmpDropped packet        \<comment> \<open>\<open>packetDroppedSignal\<close> with \<open>INCORRECTLY_RECEIVED\<close>\<close>

type_synonym icmp_result = "(icmp_output list \<times> icmp_state) res"

definition icmp_parseQuoteLength :: "int \<Rightarrow> icmp_state \<Rightarrow> icmp_state res" where
  "icmp_parseQuoteLength q s =
    (if q < 8 then Inl (RuntimeError ''The quoteLength must be 8 bytes or larger'') else Inr (s\<lparr>cs_quoteLength := q\<rparr>))"

definition icmp_init :: "routing_table \<Rightarrow> crc_mode \<Rightarrow> int \<Rightarrow> icmp_state res" where
  "icmp_init rt crcMode q = icmp_parseQuoteLength q
     \<lparr>cs_transportProtocols = [], cs_crcMode = crcMode, cs_quoteLength = 0, cs_ctr = 0, cs_rt = rt\<rparr>"

definition icmp_handleParameterChange :: "string option \<Rightarrow> crc_mode \<Rightarrow> int \<Rightarrow> icmp_state \<Rightarrow> icmp_state res" where
  "icmp_handleParameterChange name crcMode q s =
    (if name = Some ''crcMode'' then Inr (s\<lparr>cs_crcMode := crcMode\<rparr>)
     else if name = Some ''quoteLength'' then icmp_parseQuoteLength q s
     else Inr s)"

definition icmp_handleRegisterProtocol :: "protocol \<Rightarrow> bool \<Rightarrow> icmp_state \<Rightarrow> icmp_state" where
  "icmp_handleRegisterProtocol prot isTransportOut s =
    (let n = findProtocolNumber ipprotocol prot in
     if isTransportOut \<and> n \<noteq> -1 then s\<lparr>cs_transportProtocols := List.insert n (cs_transportProtocols s)\<rparr> else s)"

definition isIcmpInfoType :: "int \<Rightarrow> bool" where
  "isIcmpInfoType t \<longleftrightarrow> t \<in> {0, 8, 9, 10, 13, 14, 15, 16, 17, 18}"

section \<open>The checksum\<close>

definition icmp_insertCrc :: "crc_mode \<Rightarrow> icmp_header \<Rightarrow> packet \<Rightarrow> icmp_header res" where
  "icmp_insertCrc mode h p =
    (let h = h\<lparr>ic_crcMode := mode\<rparr> in
     case mode of
       CRC_DECLARED_CORRECT \<Rightarrow> Inr (h\<lparr>ic_chksum := 0xC00D\<rparr>)
     | CRC_DECLARED_INCORRECT \<Rightarrow> Inr (h\<lparr>ic_chksum := 0xBAAD\<rparr>)
     | CRC_COMPUTED \<Rightarrow>
         bindE (icmp_serialize (h\<lparr>ic_chksum := 0\<rparr>)) (\<lambda>hb.
         bindE (cells_serialize (pk_data p)) (\<lambda>db.
           Inr (h\<lparr>ic_chksum := uint (tcpip_checksum (hb @ db))\<rparr>)))
     | _ \<Rightarrow> Inl (RuntimeError ''Unknown CRC mode''))"

text \<open>\<open>headerOk\<close> is the \<open>isCorrect\<close> of the header.\<close>

definition icmp_verifyCrc :: "bool \<Rightarrow> packet \<Rightarrow> bool res" where
  "icmp_verifyCrc headerOk p =
    bindE (peekAtFront as_icmp p) (\<lambda>h.
      case ic_crcMode h of
        CRC_DECLARED_CORRECT \<Rightarrow> Inr headerOk
      | CRC_DECLARED_INCORRECT \<Rightarrow> Inr False
      | CRC_COMPUTED \<Rightarrow> bindE (cells_serialize (pk_data p)) (\<lambda>bs. Inr (tcpip_checksum bs = 0 \<and> headerOk))
      | _ \<Rightarrow> Inl (RuntimeError ''Unknown CRC mode''))"

section \<open>Errors that may be sent\<close>

text \<open>Every interface has its \<open>Ipv4InterfaceData\<close>, so it is unconfigured when it has no address.\<close>

definition icmp_possiblyLocalBroadcast ::
  "icmp_env \<Rightarrow> ipv4_address \<Rightarrow> int \<Rightarrow> routing_table \<Rightarrow> (bool \<times> routing_table) res" where
  "icmp_possiblyLocalBroadcast env addr interfaceId rt =
    (if addr AND 1 = 0 then Inr (False, rt)
     else
       let (b, rt) = isLocalBroadcastAddress (ce_ift env) addr rt in
       if b then Inr (True, rt)
       else if interfaceId \<noteq> -1 then
         bindE (getInterfaceById (ce_ift env) interfaceId) (\<lambda>ie. Inr (ip_isUnspecified (ie_ipAddress ie), rt))
       else Inr (list_ex (\<lambda>ie. ip_isUnspecified (ie_ipAddress ie)) (ce_ift env), rt))"

text \<open>\<open>peekDataAt<T>(offset)\<close>: the header at an offset of the data.\<close>

definition peekHeaderAt :: "(header \<Rightarrow> 'h option) \<Rightarrow> int \<Rightarrow> packet \<Rightarrow> 'h res" where
  "peekHeaderAt as off p =
    (if off < 0 \<or> off > int (dataLength p) then Inl (CheckFailed ''offset is out of range'')
     else case header_at (drop (nat off) (pk_data p)) of
         Some h \<Rightarrow> (case as h of Some x \<Rightarrow> Inr x | None \<Rightarrow> Inl peek_error)
       | None \<Rightarrow> Inl peek_error)"

definition icmp_maySendErrorMessage :: "icmp_env \<Rightarrow> packet \<Rightarrow> int \<Rightarrow> routing_table \<Rightarrow> (bool \<times> routing_table) res" where
  "icmp_maySendErrorMessage env p inputInterfaceId rt =
    bindE (peekAtFront as_ipv4 p) (\<lambda>h.
    let src = ih_srcAddress h; dest = ih_destAddress h in
    if ip_isMulticast dest \<or> ip_isLimitedBroadcast dest then Inr (False, rt)
    else
      bindE (icmp_possiblyLocalBroadcast env dest inputInterfaceId rt) (\<lambda>(b, rt).
      if b then Inr (False, rt)
      else if (inputInterfaceId \<noteq> -1 \<and> ip_isUnspecified src) \<or> ip_isMulticast src \<or> ip_isLimitedBroadcast src then Inr (False, rt)
      else
        bindE (icmp_possiblyLocalBroadcast env src inputInterfaceId rt) (\<lambda>(b, rt).
        if b then Inr (False, rt)
        else if ih_fragmentOffset h \<noteq> 0 then Inr (False, rt)
        else if ih_protocolId h = 1 then
          bindE (peekHeaderAt as_icmp (ih_headerLength h) p) (\<lambda>ic. Inr (isIcmpInfoType (ic_type ic), rt))
        else Inr (True, rt))))"

section \<open>Received messages\<close>

definition icmp_tagged :: "packet \<Rightarrow> packet" where
  "icmp_tagged p = p\<lparr>pk_tags := (pk_tags p)\<lparr>t_dispatchReq := Some P_ipv4, t_packetProtocol := Some P_icmpv4\<rparr>\<rparr>"

definition icmp_sendToIP :: "packet \<Rightarrow> icmp_output list" where
  "icmp_sendToIP p = [IcmpIpOut (icmp_tagged p)]"

text \<open>\<open>addTagIfAbsent<L3AddressReq>\<close>, and then the destination.\<close>

definition icmp_sendToIP_dest :: "packet \<Rightarrow> ipv4_address \<Rightarrow> icmp_output list" where
  "icmp_sendToIP_dest p dest = icmp_sendToIP (p\<lparr>pk_tags := (pk_tags p)\<lparr>t_l3AddressReq :=
     Some (case t_l3AddressReq (pk_tags p) of
       Some r \<Rightarrow> r\<lparr>lr_dest := L3IPv4 dest\<rparr>
     | None \<Rightarrow> \<lparr>lr_src = L3None, lr_dest = L3IPv4 dest, lr_nonLocalSrc = False\<rparr>)\<rparr>\<rparr>)"

definition icmp_processEchoRequest :: "icmp_env \<Rightarrow> packet \<Rightarrow> icmp_state \<Rightarrow> icmp_output list res" where
  "icmp_processEchoRequest env request s =
    bindE (popAtFront as_echo_request request) (\<lambda>((identifier, seqNumber), request).
    bindE (getTag (t_l3AddressInd (pk_tags request))) (\<lambda>(srcAddr, destAddr).
    bindE (l3_toIpv4 srcAddr) (\<lambda>src.
    bindE (l3_toIpv4 destAddr) (\<lambda>dest.
    bindE (peekDataAt 0 (int (dataLength request)) request) (\<lambda>dat.
    bindE (insertAtBack dat (new_packet (pk_name request @ ''-reply'') (ce_now env))) (\<lambda>reply.
    bindE (icmp_insertCrc (cs_crcMode s) (new_icmp_echo_reply\<lparr>ic_class := IcmpEchoReplyC identifier seqNumber\<rparr>) reply) (\<lambda>h.
    bindE (insertAtFront (header_cells (IcmpH h)) reply) (\<lambda>reply.
      Inr (icmp_sendToIP (reply\<lparr>pk_tags := (pk_tags reply)\<lparr>t_l3AddressReq :=
        Some \<lparr>lr_src = L3IPv4 dest, lr_dest = L3IPv4 src, lr_nonLocalSrc = False\<rparr>\<rparr>\<rparr>))))))))))"

text \<open>An error about an ICMP message is not passed on (\<open>errorOut\<close>).\<close>

definition icmp_errorOut :: "packet \<Rightarrow> icmp_output list" where
  "icmp_errorOut p = []"

definition icmp_processError :: "packet \<Rightarrow> icmp_state \<Rightarrow> icmp_output list res" where
  "icmp_processError p s =
    bindE (peekHeaderAt as_ipv4 8 p) (\<lambda>bogus.
      let prot = ih_protocolId bogus in
      if prot = 1 then Inr (icmp_errorOut p)
      else if prot \<notin> set (cs_transportProtocols s) then Inr []
      else bindE (getProtocol ipprotocol prot) (\<lambda>pr.
        Inr [IcmpTransportOut (p\<lparr>pk_tags := (pk_tags p)\<lparr>t_dispatchReq := Some pr, t_packetProtocol := Some P_icmpv4\<rparr>\<rparr>)]))"

definition icmp_processIcmpMessage :: "icmp_env \<Rightarrow> bool \<Rightarrow> packet \<Rightarrow> icmp_state \<Rightarrow> icmp_output list res" where
  "icmp_processIcmpMessage env headerOk p s =
    bindE (icmp_verifyCrc headerOk p) (\<lambda>ok.
    if \<not> ok then Inr [IcmpDropped p]
    else
      bindE (peekAtFront as_icmp p) (\<lambda>h.
        if ic_type h = 5 then Inr []
        else if ic_type h \<in> {3, 11, 12} then icmp_processError p s
        else if ic_type h = 8 then icmp_processEchoRequest env p s
        else if ic_type h = 0 then Inr []
        else if ic_type h = 13 then icmp_processEchoRequest env p s
        else if ic_type h = 14 then Inr []
        else Inl (RuntimeError ''Unknown ICMP type'')))"

definition icmp_handleMessage :: "icmp_env \<Rightarrow> bool \<Rightarrow> bool \<Rightarrow> packet \<Rightarrow> icmp_state \<Rightarrow> icmp_output list res" where
  "icmp_handleMessage env onIpIn headerOk p s =
    (if onIpIn then icmp_processIcmpMessage env headerOk p s else Inl (RuntimeError ''Message arrived in unknown gate''))"

section \<open>Sending errors\<close>

text \<open>
  Without a source address the datagram never left this node: the error is processed here, as if it had
  come from the loopback address. The message is new, so its header is correct.
\<close>

definition icmp_sendOrProcess :: "icmp_env \<Rightarrow> packet \<Rightarrow> ipv4_address \<Rightarrow> icmp_state \<Rightarrow> icmp_output list res" where
  "icmp_sendOrProcess env p origSrc s =
    (let p = p\<lparr>pk_tags := (pk_tags p)\<lparr>t_packetProtocol := Some P_icmpv4\<rparr>\<rparr> in
     if ip_isUnspecified origSrc then
       icmp_processIcmpMessage env True (p\<lparr>pk_tags := (pk_tags p)\<lparr>t_l3AddressInd := Some (L3None, L3IPv4 0x7F000001)\<rparr>\<rparr>) s
     else Inr (icmp_sendToIP_dest p origSrc))"

text \<open>The message: a header with its checksum in front of the header and the first bytes of the datagram.\<close>

definition icmp_make_error :: "icmp_env \<Rightarrow> string \<Rightarrow> icmp_header \<Rightarrow> packet \<Rightarrow> icmp_state \<Rightarrow> (packet \<times> ipv4_header) res" where
  "icmp_make_error env name h p s =
    bindE (peekAtFront as_ipv4 p) (\<lambda>ih.
    let curQuoteLength = min (int (dataLength p)) (ih_headerLength ih + cs_quoteLength s) in
    bindE (peekDataAt 0 curQuoteLength p) (\<lambda>quote.
    bindE (insertAtBack quote (new_packet name (ce_now env))) (\<lambda>e.
    bindE (icmp_insertCrc (cs_crcMode s) h e) (\<lambda>h.
    bindE (insertAtFront (header_cells (IcmpH h)) e) (\<lambda>e. Inr (e, ih))))))"

definition icmp_sendErrorMessage :: "icmp_env \<Rightarrow> packet \<Rightarrow> int \<Rightarrow> int \<Rightarrow> int \<Rightarrow> icmp_state \<Rightarrow> icmp_result" where
  "icmp_sendErrorMessage env p inputInterfaceId ty code s =
    bindE (icmp_maySendErrorMessage env p inputInterfaceId (cs_rt s)) (\<lambda>(may, rt).
    let s = s\<lparr>cs_rt := rt\<rparr> in
    if \<not> may then Inr ([], s)
    else
      let s = s\<lparr>cs_ctr := cs_ctr s + 1\<rparr>;
          name = ''ICMP-error-#'' @ string_of_nat (cs_ctr s) @ ''-type'' @ string_of_nat (nat ty) @ ''-code'' @ string_of_nat (nat code)
      in
      bindE (icmp_make_error env name (new_icmp_header\<lparr>ic_type := ty, ic_code := code\<rparr>) p s) (\<lambda>(e, ih).
      bindE (icmp_sendOrProcess env e (ih_srcAddress ih) s) (\<lambda>outs. Inr (outs, s))))"

text \<open>The field \<open>mtu\<close> has 16 bits.\<close>

definition icmp_sendPtbMessage :: "icmp_env \<Rightarrow> packet \<Rightarrow> int \<Rightarrow> icmp_state \<Rightarrow> icmp_result" where
  "icmp_sendPtbMessage env p mtu s =
    bindE (icmp_maySendErrorMessage env p (-1) (cs_rt s)) (\<lambda>(may, rt).
    let s = s\<lparr>cs_rt := rt\<rparr> in
    if \<not> may then Inr ([], s)
    else
      let s = s\<lparr>cs_ctr := cs_ctr s + 1\<rparr>;
          name = ''ICMP-PTB-#'' @ string_of_nat (cs_ctr s) @ ''-mtu'' @ string_of_nat (nat mtu)
      in
      bindE (icmp_make_error env name (new_icmp_ptb\<lparr>ic_class := IcmpPtbC 0 (of_int mtu)\<rparr>) p s) (\<lambda>(e, ih).
      bindE (icmp_sendOrProcess env e (ih_srcAddress ih) s) (\<lambda>outs. Inr (outs, s))))"

section \<open>What is written and what is verified\<close>

lemma cells_serialize_append:
  "cells_serialize (xs @ ys) = bindE (cells_serialize xs) (\<lambda>a. bindE (cells_serialize ys) (\<lambda>b. Inr (a @ b)))"
proof (induction xs)
  case Nil
  then show ?case by (cases "cells_serialize ys") simp_all
next
  case (Cons c xs)
  show ?case
  proof (cases c)
    case (Data b)
    then show ?thesis using Cons by (cases "cells_serialize xs"; cases "cells_serialize ys") simp_all
  next
    case (HB h i)
    then show ?thesis using Cons
      by (cases "header_serialize h"; cases "cells_serialize xs"; cases "cells_serialize ys") simp_all
  qed
qed

lemma cells_serialize_HBs:
  "header_serialize h = Inr hb \<Longrightarrow> cells_serialize (map (HB h) is) = Inr (map ((!) hb) is)"
  by (induction "is") simp_all

lemma cells_serialize_header:
  assumes "header_serialize h = Inr hb" "length hb = header_length h"
  shows "cells_serialize (header_cells h) = Inr hb"
  using cells_serialize_HBs[OF assms(1)] assms(2) by (simp add: header_cells_def map_nth flip: assms(2))

lemma icmp_serialize_shape:
  assumes "icmp_serialize h = Inr hb"
  shows "\<exists>bs. length bs = 4 \<and> hb = [of_int (ic_type h), of_int (ic_code h)] @ be_bytes (of_int (ic_chksum h)) @ bs
    \<and> (\<forall>c m. icmp_serialize (h\<lparr>ic_crcMode := m, ic_chksum := c\<rparr>) = Inr ([of_int (ic_type h), of_int (ic_code h)] @ be_bytes (of_int c) @ bs))"
proof -
  obtain bs where bs: "icmp_body_serialize h = Inr bs" "hb = [of_int (ic_type h), of_int (ic_code h)] @ be_bytes (of_int (ic_chksum h)) @ bs"
    using assms by (auto simp: icmp_serialize_def bindE_eq_Inr)
  have "length bs = 4" using bs(1)
    by (cases "ic_class h") (auto simp: icmp_body_serialize_def be_bytes_def be32_bytes_def split: if_splits)
  moreover have "icmp_body_serialize (h\<lparr>ic_crcMode := m, ic_chksum := c\<rparr>) = Inr bs" for c m
    using bs(1) by (cases "ic_class h") (auto simp: icmp_body_serialize_def split: if_splits)
  ultimately show ?thesis using bs(2) by (auto simp: icmp_serialize_def)
qed

lemma icmp_insertCrc_fields:
  "icmp_insertCrc mode h p = Inr h' \<Longrightarrow> ic_type h' = ic_type h \<and> ic_code h' = ic_code h \<and> ic_class h' = ic_class h \<and> ic_crcMode h' = mode"
  by (cases mode) (auto simp: icmp_insertCrc_def Let_def bindE_eq_Inr)

text \<open>A message is accepted where it arrives unchanged, unless its checksum was declared to be wrong.\<close>

lemma icmp_crc_verifies:
  assumes "icmp_insertCrc mode h p = Inr h'" "mode \<noteq> CRC_DECLARED_INCORRECT"
    and "pk_data q = header_cells (IcmpH h') @ pk_data p"
  shows "icmp_verifyCrc True q = Inr True"
proof -
  have peek: "peekAtFront as_icmp q = Inr h'" by (rule peekAtFront_header[OF assms(3)]) simp_all
  show ?thesis
  proof (cases mode)
    case CRC_COMPUTED
    obtain hb db where hb: "icmp_serialize (h\<lparr>ic_crcMode := CRC_COMPUTED, ic_chksum := 0\<rparr>) = Inr hb" "cells_serialize (pk_data p) = Inr db"
      and h': "h' = h\<lparr>ic_crcMode := CRC_COMPUTED, ic_chksum := uint (tcpip_checksum (hb @ db))\<rparr>"
      using assms(1) CRC_COMPUTED by (auto simp: icmp_insertCrc_def Let_def bindE_eq_Inr)
    obtain bs where bs: "length bs = 4" "hb = [of_int (ic_type h), of_int (ic_code h)] @ [0, 0] @ bs"
      "\<forall>c m. icmp_serialize (h\<lparr>ic_crcMode := m, ic_chksum := c\<rparr>) = Inr ([of_int (ic_type h), of_int (ic_code h)] @ be_bytes (of_int c) @ bs)"
      using icmp_serialize_shape[OF hb(1)] by (auto simp: be_bytes_def)
    let ?crc = "tcpip_checksum (hb @ db)"
    have ser: "icmp_serialize h' = Inr ([of_int (ic_type h), of_int (ic_code h)] @ be_bytes ?crc @ bs)"
      using bs(3) by (simp add: h')
    have "cells_serialize (pk_data q) = Inr ([of_int (ic_type h), of_int (ic_code h)] @ be_bytes ?crc @ bs @ db)"
      unfolding assms(3) cells_serialize_append
      using cells_serialize_header[of "IcmpH h'"] ser hb(2) bs(1) by (simp add: be_bytes_def)
    moreover have "tcpip_checksum ([of_int (ic_type h), of_int (ic_code h)] @ be_bytes ?crc @ bs @ db) = 0"
      using checksum_fill[of "[of_int (ic_type h), of_int (ic_code h)]" "bs @ db"] by (simp add: bs(2))
    ultimately show ?thesis by (simp add: icmp_verifyCrc_def peek h')
  qed (use assms peek in \<open>auto simp: icmp_verifyCrc_def icmp_insertCrc_def Let_def\<close>)
qed

section \<open>When an error is sent\<close>

lemma icmp_local_broadcast_total:
  assumes "i = -1 \<or> findInterfaceById (ce_ift env) i \<noteq> None"
  shows "\<exists>b rt'. icmp_possiblyLocalBroadcast env a i rt = Inr (b, rt')"
proof -
  obtain b rt' where "isLocalBroadcastAddress (ce_ift env) a rt = (b, rt')" by fastforce
  then show ?thesis using assms by (auto simp: icmp_possiblyLocalBroadcast_def getInterfaceById_def)
qed

text \<open>The datagrams about which no error may be sent, as far as the datagram itself tells.\<close>

definition icmp_forbidden :: "ipv4_header \<Rightarrow> cell list \<Rightarrow> bool" where
  "icmp_forbidden h d \<longleftrightarrow> ip_isMulticast (ih_destAddress h) \<or> ip_isLimitedBroadcast (ih_destAddress h)
     \<or> ip_isMulticast (ih_srcAddress h) \<or> ip_isLimitedBroadcast (ih_srcAddress h) \<or> ih_fragmentOffset h \<noteq> 0
     \<or> (ih_protocolId h = 1 \<and> (case header_at d of Some (IcmpH ic) \<Rightarrow> \<not> isIcmpInfoType (ic_type ic) | _ \<Rightarrow> False))"

lemma icmp_peek_inner:
  assumes "pk_data p = header_cells (Ipv4H h) @ d" "ih_headerLength h = int (header_length (Ipv4H h))"
  shows "peekHeaderAt as (ih_headerLength h) p = (case header_at d of
     Some g \<Rightarrow> (case as g of Some x \<Rightarrow> Inr x | None \<Rightarrow> Inl peek_error) | None \<Rightarrow> Inl peek_error)"
proof -
  have "dataLength p = header_length (Ipv4H h) + length d" using arg_cong[OF assms(1), of length] by simp
  moreover have "drop (header_length (Ipv4H h)) (pk_data p) = d" by (simp add: assms(1))
  ultimately show ?thesis unfolding peekHeaderAt_def assms(2) by (simp del: header_length.simps)
qed

lemma icmp_forbidden_may:
  assumes "pk_data p = header_cells (Ipv4H h) @ d" "ih_headerLength h = int (header_length (Ipv4H h))"
    and "icmp_forbidden h d" "i = -1 \<or> findInterfaceById (ce_ift env) i \<noteq> None"
  shows "\<exists>rt'. icmp_maySendErrorMessage env p i rt = Inr (False, rt')"
proof -
  have peek: "peekAtFront as_ipv4 p = Inr h" by (rule peekAtFront_header[OF assms(1)]) simp_all
  obtain b1 rt1 where 1: "icmp_possiblyLocalBroadcast env (ih_destAddress h) i rt = Inr (b1, rt1)"
    using icmp_local_broadcast_total[OF assms(4)] by blast
  obtain b2 rt2 where 2: "icmp_possiblyLocalBroadcast env (ih_srcAddress h) i rt1 = Inr (b2, rt2)"
    using icmp_local_broadcast_total[OF assms(4)] by blast
  show ?thesis using assms(3) icmp_peek_inner[OF assms(1,2), where as = as_icmp]
    by (auto simp: icmp_maySendErrorMessage_def peek Let_def 1 2 icmp_forbidden_def split: option.splits header.splits)
qed

lemma icmp_forbidden_silent:
  assumes "pk_data p = header_cells (Ipv4H h) @ d" "ih_headerLength h = int (header_length (Ipv4H h))"
    and "icmp_forbidden h d" "i = -1 \<or> findInterfaceById (ce_ift env) i \<noteq> None"
  shows "\<exists>rt'. icmp_sendErrorMessage env p i ty code s = Inr ([], s\<lparr>cs_rt := rt'\<rparr>)"
    "\<exists>rt'. icmp_sendPtbMessage env p mtu s = Inr ([], s\<lparr>cs_rt := rt'\<rparr>)"
  using icmp_forbidden_may[OF assms, of "cs_rt s"] icmp_forbidden_may[OF assms(1-3), of "-1" env "cs_rt s"]
  by (auto simp: icmp_sendErrorMessage_def icmp_sendPtbMessage_def)

section \<open>What an error contains\<close>

text \<open>\<open>e\<close> quotes the datagram with header \<open>h\<close> and data \<open>d\<close>, \<open>q\<close> bytes of it, under the ICMP header \<open>hc\<close>.\<close>

definition icmp_quotes :: "icmp_header \<Rightarrow> ipv4_header \<Rightarrow> cell list \<Rightarrow> int \<Rightarrow> packet \<Rightarrow> bool" where
  "icmp_quotes hc h d q e \<longleftrightarrow> packet_ok e \<and> pk_data e = header_cells (IcmpH hc) @ header_cells (Ipv4H h) @ take (nat q) d"

lemma icmp_quote_data:
  assumes "pk_data p = header_cells (Ipv4H h) @ d" "ih_headerLength h = int (header_length (Ipv4H h))" "0 \<le> q"
  shows "peekDataAt 0 (min (int (dataLength p)) (ih_headerLength h + q)) p = Inr (header_cells (Ipv4H h) @ take (nat q) d)"
proof -
  have len: "dataLength p = header_length (Ipv4H h) + length d" using arg_cong[OF assms(1), of length] by simp
  have "min (int (dataLength p)) (ih_headerLength h + q) = int (header_length (Ipv4H h) + min (length d) (nat q))"
    using assms(2,3) len by auto
  moreover have "0 < header_length (Ipv4H h)" by simp
  moreover have "take (min (nat q) (length d)) d = take (nat q) d" by (simp add: min_def)
  ultimately show ?thesis
    using len by (simp add: peekDataAt_def peek_at_def assms(1) min.commute nat_int_add del: header_length.simps)
qed

lemma new_packet_tags: "pk_tags (new_packet name t) = no_tags"
  by (simp add: new_packet_def)

lemma icmp_make_error_quotes:
  assumes "icmp_make_error env name hc p s = Inr (e, ih)" "packet_ok p" "pk_data p = header_cells (Ipv4H h) @ d"
    and "ih_headerLength h = int (header_length (Ipv4H h))" "0 \<le> cs_quoteLength s"
  shows "ih = h \<and> (\<exists>hc' e0. icmp_insertCrc (cs_crcMode s) hc e0 = Inr hc' \<and> pk_data e0 = header_cells (Ipv4H h) @ take (nat (cs_quoteLength s)) d
    \<and> icmp_quotes hc' h d (cs_quoteLength s) e \<and> pk_tags e = no_tags)"
proof -
  let ?quote = "header_cells (Ipv4H h) @ take (nat (cs_quoteLength s)) d"
  have peek: "peekAtFront as_ipv4 p = Inr h" by (rule peekAtFront_header[OF assms(3)]) simp_all
  have nq: "?quote \<noteq> []" by (simp add: header_cells_def)
  obtain e0 hc' where e0: "insertAtBack ?quote (new_packet name (ce_now env)) = Inr e0"
    "icmp_insertCrc (cs_crcMode s) hc e0 = Inr hc'" "insertAtFront (header_cells (IcmpH hc')) e0 = Inr e" and ih: "ih = h"
    using assms(1) by (auto simp: icmp_make_error_def peek Let_def icmp_quote_data[OF assms(3-5)] bindE_eq_Inr)
  have a: "packet_ok e0 \<and> pk_data e0 = ?quote \<and> pk_tags e0 = no_tags"
    using insertAtBack_ok[OF new_packet_ok(1) nq e0(1)] new_packet_tags by simp
  have "header_cells (IcmpH hc') \<noteq> []" by (simp add: header_cells_def)
  from insertAtFront_ok[OF _ this e0(3)] a show ?thesis using e0(2) ih by (auto simp: icmp_quotes_def)
qed

lemma icmp_make_error_total:
  assumes "packet_ok p" "pk_data p = header_cells (Ipv4H h) @ d" "ih_headerLength h = int (header_length (Ipv4H h))" "0 \<le> cs_quoteLength s"
    and "\<And>e0. pk_data e0 = header_cells (Ipv4H h) @ take (nat (cs_quoteLength s)) d \<Longrightarrow> \<exists>hc'. icmp_insertCrc (cs_crcMode s) hc e0 = Inr hc'"
  shows "\<exists>e. icmp_make_error env name hc p s = Inr (e, h)"
proof -
  let ?quote = "header_cells (Ipv4H h) @ take (nat (cs_quoteLength s)) d"
  have peek: "peekAtFront as_ipv4 p = Inr h" by (rule peekAtFront_header[OF assms(2)]) simp_all
  have nq: "?quote \<noteq> []" by (simp add: header_cells_def)
  obtain e0 where e0: "insertAtBack ?quote (new_packet name (ce_now env)) = Inr e0"
    using insertAtBack_eq[OF new_packet_ok(1) nq] by blast
  have a: "packet_ok e0 \<and> pk_data e0 = ?quote"
    using insertAtBack_ok[OF new_packet_ok(1) nq e0] by simp
  obtain hc' where hc': "icmp_insertCrc (cs_crcMode s) hc e0 = Inr hc'" using assms(5) a by blast
  have "\<exists>e. insertAtFront (header_cells (IcmpH hc')) e0 = Inr e"
    using insertAtFront_eq[of e0 "header_cells (IcmpH hc')"] a by (simp add: header_cells_def)
  then show ?thesis
    using e0 hc' by (auto simp: icmp_make_error_def peek Let_def icmp_quote_data[OF assms(2-4)])
qed

text \<open>What leaves the node for a datagram from elsewhere.\<close>

lemma icmp_error_sent:
  assumes "icmp_sendErrorMessage env p i ty code s = Inr (outs, s')" "outs \<noteq> []" "packet_ok p" "pk_data p = header_cells (Ipv4H h) @ d"
    and "ih_headerLength h = int (header_length (Ipv4H h))" "ih_srcAddress h \<noteq> 0" "0 \<le> cs_quoteLength s"
  shows "\<exists>e hc e0. outs = [IcmpIpOut e] \<and> icmp_quotes hc h d (cs_quoteLength s) e \<and> ic_type hc = ty \<and> ic_code hc = code
    \<and> icmp_insertCrc (cs_crcMode s) (new_icmp_header\<lparr>ic_type := ty, ic_code := code\<rparr>) e0 = Inr hc
    \<and> pk_data e = header_cells (IcmpH hc) @ pk_data e0
    \<and> t_l3AddressReq (pk_tags e) = Some \<lparr>lr_src = L3None, lr_dest = L3IPv4 (ih_srcAddress h), lr_nonLocalSrc = False\<rparr>
    \<and> t_packetProtocol (pk_tags e) = Some P_icmpv4"
proof -
  obtain rt where may: "icmp_maySendErrorMessage env p i (cs_rt s) = Inr (True, rt)"
    using assms(1,2) by (auto simp: icmp_sendErrorMessage_def Let_def bindE_eq_Inr split: if_splits)
  let ?s = "s\<lparr>cs_rt := rt, cs_ctr := cs_ctr s + 1\<rparr>" and ?hc = "new_icmp_header\<lparr>ic_type := ty, ic_code := code\<rparr>"
  obtain name e ih where e: "icmp_make_error env name ?hc p ?s = Inr (e, ih)" "icmp_sendOrProcess env e (ih_srcAddress ih) ?s = Inr outs"
    using assms(1) may by (auto simp: icmp_sendErrorMessage_def Let_def bindE_eq_Inr)
  from icmp_make_error_quotes[OF e(1) assms(3-5)] assms(7) obtain hc e0 where
    q: "ih = h" "icmp_insertCrc (cs_crcMode s) ?hc e0 = Inr hc" "pk_data e0 = header_cells (Ipv4H h) @ take (nat (cs_quoteLength s)) d"
      "icmp_quotes hc h d (cs_quoteLength s) e" "pk_tags e = no_tags" by auto
  let ?r = "\<lparr>lr_src = L3None, lr_dest = L3IPv4 (ih_srcAddress h), lr_nonLocalSrc = False\<rparr>"
  let ?e = "e\<lparr>pk_tags := no_tags\<lparr>t_l3AddressReq := Some ?r, t_dispatchReq := Some P_ipv4, t_packetProtocol := Some P_icmpv4\<rparr>\<rparr>"
  have "outs = [IcmpIpOut ?e]"
    using e(2) assms(6) q(1,5)
    by (simp add: icmp_sendOrProcess_def ip_isUnspecified_def Let_def icmp_sendToIP_dest_def icmp_sendToIP_def icmp_tagged_def no_tags_def)
  moreover have "icmp_quotes hc h d (cs_quoteLength s) ?e" "pk_data ?e = header_cells (IcmpH hc) @ pk_data e0"
    using q(3,4) by (simp_all add: icmp_quotes_def)
  moreover have "t_l3AddressReq (pk_tags ?e) = Some ?r" "t_packetProtocol (pk_tags ?e) = Some P_icmpv4" by simp_all
  moreover have "ic_type hc = ty" "ic_code hc = code" using icmp_insertCrc_fields[OF q(2)] by simp_all
  ultimately show ?thesis using q(2) by blast
qed

section \<open>What does not work\<close>

text \<open>
  The serializer does not know the type of a parameter problem: with computed checksums the error that \<open>Ipv4\<close>
  sends about a datagram with a wrong length ends the simulation.
\<close>

lemma icmp_parameter_problem_raises:
  assumes "icmp_maySendErrorMessage env p i (cs_rt s) = Inr (True, rt)" "packet_ok p" "pk_data p = header_cells (Ipv4H h) @ d"
    and "ih_headerLength h = int (header_length (Ipv4H h))" "0 \<le> cs_quoteLength s" "cs_crcMode s = CRC_COMPUTED"
  shows "icmp_sendErrorMessage env p i 12 code s = Inl (RuntimeError ''Can not serialize ICMP packet'')"
proof -
  let ?quote = "header_cells (Ipv4H h) @ take (nat (cs_quoteLength s)) d"
  have peek: "peekAtFront as_ipv4 p = Inr h" by (rule peekAtFront_header[OF assms(3)]) simp_all
  have nq: "?quote \<noteq> []" by (simp add: header_cells_def)
  have "icmp_make_error env name (new_icmp_header\<lparr>ic_type := 12, ic_code := code\<rparr>) p t = Inl (RuntimeError ''Can not serialize ICMP packet'')"
    if "cs_crcMode t = CRC_COMPUTED" "cs_quoteLength t = cs_quoteLength s" for name t
  proof -
    obtain e0 where "insertAtBack ?quote (new_packet name (ce_now env)) = Inr e0"
      using insertAtBack_eq[OF new_packet_ok(1) nq] by blast
    moreover have "icmp_insertCrc CRC_COMPUTED (new_icmp_header\<lparr>ic_type := 12, ic_code := code\<rparr>) e0
        = Inl (RuntimeError ''Can not serialize ICMP packet'')"
      by (simp add: icmp_insertCrc_def icmp_serialize_def icmp_body_serialize_def Let_def)
    ultimately show ?thesis using that peek icmp_quote_data[OF assms(3-5)]
      by (simp only: icmp_make_error_def Let_def bindE_simps)
  qed
  then show ?thesis using assms(1,6) by (simp add: icmp_sendErrorMessage_def Let_def)
qed

text \<open>A request without data cannot be answered: an empty chunk is asked for.\<close>

lemma icmp_empty_echo_raises:
  assumes "packet_ok p" "pk_data p = header_cells (IcmpH h)" "ic_class h = IcmpEchoRequestC k n"
    and "t_l3AddressInd (pk_tags p) = Some (L3IPv4 src, L3IPv4 dest)"
  shows "icmp_processEchoRequest env p s = Inl (RuntimeError ''Returning an empty chunk is not allowed'')"
proof -
  have "as_echo_request (IcmpH h) = Some (k, n)" using assms(3) by simp
  with popAtFront_header[OF assms(1), of "IcmpH h" "[]" as_echo_request] assms(2) obtain q where
    q: "popAtFront as_echo_request p = Inr ((k, n), q)" "pk_data q = []" "pk_tags q = pk_tags p" by auto
  then have "dataLength q = 0" using length_pk_data[of q] by simp
  then show ?thesis using q assms(4) by (simp add: icmp_processEchoRequest_def peekDataAt_def)
qed

section \<open>Properties\<close>

text \<open>C11: errors are not answered with errors. Nothing is sent about a datagram to or from a group or the
  broadcast address, about a fragment that is not the first, or about an ICMP error; and each error
  that is sent is itself of that kind: whichever module, of this or of another host, is asked to report a
  datagram that carries it, whatever for, sends nothing and counts nothing.\<close>

theorem icmp_errors_end:
  assumes "icmp_sendErrorMessage env p i ty code s = Inr (outs, s')" and "\<not> isIcmpInfoType ty" and "packet_ok p"
    and "pk_data p = header_cells (Ipv4H h) @ d" and "ih_headerLength h = int (header_length (Ipv4H h))" and "ih_srcAddress h \<noteq> 0"
    and "0 \<le> cs_quoteLength s" and "i = -1 \<or> findInterfaceById (ce_ift env) i \<noteq> None"
  shows "(icmp_forbidden h d \<longrightarrow> outs = [] \<and> cs_ctr s' = cs_ctr s)
    \<and> (\<forall>e env' p' h' pad i' s2. IcmpIpOut e \<in> set outs \<longrightarrow> pk_data p' = header_cells (Ipv4H h') @ pk_data e @ pad
        \<longrightarrow> ih_headerLength h' = int (header_length (Ipv4H h')) \<longrightarrow> ih_protocolId h' = 1
        \<longrightarrow> i' = -1 \<or> findInterfaceById (ce_ift env') i' \<noteq> None
        \<longrightarrow> (\<forall>ty' code' mtu. (\<exists>rt. icmp_sendErrorMessage env' p' i' ty' code' s2 = Inr ([], s2\<lparr>cs_rt := rt\<rparr>))
              \<and> (\<exists>rt. icmp_sendPtbMessage env' p' mtu s2 = Inr ([], s2\<lparr>cs_rt := rt\<rparr>))))"
proof -
  have first: "icmp_forbidden h d \<longrightarrow> outs = [] \<and> cs_ctr s' = cs_ctr s"
    using icmp_forbidden_silent(1)[OF assms(4,5) _ assms(8), of ty code s] assms(1) by auto
  have second: "icmp_forbidden h' (pk_data e @ pad)" if "IcmpIpOut e \<in> set outs" "ih_protocolId h' = 1" for e h' pad
  proof -
    have "outs \<noteq> []" using that(1) by auto
    from icmp_error_sent[OF assms(1) this assms(3-7)] obtain e' hc where
      "outs = [IcmpIpOut e']" "icmp_quotes hc h d (cs_quoteLength s) e'" "ic_type hc = ty" by blast
    then have "header_at (pk_data e @ pad) = Some (IcmpH hc)" using that(1) by (simp add: icmp_quotes_def)
    then show ?thesis using that(2) assms(2) \<open>ic_type hc = ty\<close> by (simp add: icmp_forbidden_def)
  qed
  show ?thesis
  proof (intro conjI first allI impI)
    fix e and env' :: icmp_env and p' h' pad i' s2 ty' code' mtu
    assume a: "IcmpIpOut e \<in> set outs" "pk_data p' = header_cells (Ipv4H h') @ pk_data e @ pad"
      "ih_headerLength h' = int (header_length (Ipv4H h'))" "ih_protocolId h' = 1"
      "i' = -1 \<or> findInterfaceById (ce_ift env') i' \<noteq> None"
    note silent = icmp_forbidden_silent[OF a(2,3) second[OF a(1,4)] a(5)]
    show "\<exists>rt. icmp_sendErrorMessage env' p' i' ty' code' s2 = Inr ([], s2\<lparr>cs_rt := rt\<rparr>)" by (rule silent(1))
    show "\<exists>rt. icmp_sendPtbMessage env' p' mtu s2 = Inr ([], s2\<lparr>cs_rt := rt\<rparr>)" by (rule silent(2))
  qed
qed

lemma icmp_send_total:
  assumes "icmp_maySendErrorMessage env p i (cs_rt s) = Inr (True, rt)" "packet_ok p" "pk_data p = header_cells (Ipv4H h) @ d"
    and "ih_headerLength h = int (header_length (Ipv4H h))" "ih_srcAddress h \<noteq> 0" "0 \<le> cs_quoteLength s"
    and "\<And>e0. pk_data e0 = header_cells (Ipv4H h) @ take (nat (cs_quoteLength s)) d \<Longrightarrow>
      \<exists>hc'. icmp_insertCrc (cs_crcMode s) (new_icmp_header\<lparr>ic_type := ty, ic_code := code\<rparr>) e0 = Inr hc'"
  shows "\<exists>e. icmp_sendErrorMessage env p i ty code s = Inr ([IcmpIpOut e], s\<lparr>cs_rt := rt, cs_ctr := cs_ctr s + 1\<rparr>)"
proof -
  let ?s = "s\<lparr>cs_rt := rt, cs_ctr := cs_ctr s + 1\<rparr>"
  let ?name = "''ICMP-error-#'' @ string_of_nat (cs_ctr s + 1) @ ''-type'' @ string_of_nat (nat ty) @ ''-code'' @ string_of_nat (nat code)"
  obtain e where "icmp_make_error env ?name (new_icmp_header\<lparr>ic_type := ty, ic_code := code\<rparr>) p ?s = Inr (e, h)"
    using icmp_make_error_total[OF assms(2-4), of ?s "new_icmp_header\<lparr>ic_type := ty, ic_code := code\<rparr>" env ?name] assms(6,7) by auto
  then show ?thesis using assms(1,5)
    by (simp add: icmp_sendErrorMessage_def Let_def icmp_sendOrProcess_def ip_isUnspecified_def icmp_sendToIP_dest_def icmp_sendToIP_def)
qed

definition example_icmp_header :: ipv4_header where
  "example_icmp_header = \<lparr>ih_headerLength = 20, ih_typeOfService = 0, ih_totalLength = 40, ih_identification = 7, ih_moreFragments = False,
     ih_dontFragment = False, ih_fragmentOffset = 0, ih_timeToLive = 1, ih_protocolId = 17, ih_crc = 0, ih_crcMode = CRC_DECLARED_CORRECT,
     ih_srcAddress = 0x0A000001, ih_destAddress = 0x0A000002, ih_options = []\<rparr>"

definition example_icmp_packet :: "cell list \<Rightarrow> packet" where
  "example_icmp_packet d = (new_packet ''d'' 0)\<lparr>pk_content := header_cells (Ipv4H example_icmp_header) @ d\<rparr>"

definition example_icmp_state :: icmp_state where
  "example_icmp_state = \<lparr>cs_transportProtocols = [17, 20], cs_crcMode = CRC_DECLARED_CORRECT, cs_quoteLength = 8, cs_ctr = 0,
     cs_rt = new_routing_table True True True\<rparr>"

lemma example_icmp_packet_ok:
  "packet_ok (example_icmp_packet d)" "pk_data (example_icmp_packet d) = header_cells (Ipv4H example_icmp_header) @ d"
  by (simp_all add: example_icmp_packet_def new_packet_def packet_ok_def pk_data_alt)

lemma example_icmp_send:
  "\<exists>e. icmp_sendErrorMessage \<lparr>ce_now = 3, ce_ift = []\<rparr> (example_icmp_packet d) (-1) 11 0 example_icmp_state
    = Inr ([IcmpIpOut e], example_icmp_state\<lparr>cs_ctr := 1\<rparr>)"
proof -
  have peek: "peekAtFront as_ipv4 (example_icmp_packet d) = Inr example_icmp_header"
    by (rule peekAtFront_header[OF example_icmp_packet_ok(2)]) simp_all
  have "icmp_maySendErrorMessage \<lparr>ce_now = 3, ce_ift = []\<rparr> (example_icmp_packet d) (-1) (cs_rt example_icmp_state)
      = Inr (True, cs_rt example_icmp_state)"
    by (simp add: icmp_maySendErrorMessage_def peek Let_def example_icmp_header_def ip_isMulticast_def ip_isLimitedBroadcast_def
        icmp_possiblyLocalBroadcast_def ip_isUnspecified_def isLocalBroadcastAddress_def example_icmp_state_def new_routing_table_def)
  from icmp_send_total[OF this example_icmp_packet_ok, where ty = 11 and code = 0] show ?thesis
    by (simp add: example_icmp_header_def example_icmp_state_def icmp_insertCrc_def Let_def)
qed

theorem icmp_errors_end_witness:
  "\<exists>e s'. icmp_sendErrorMessage \<lparr>ce_now = 3, ce_ift = []\<rparr> (example_icmp_packet [Data 1]) (-1) 11 0 example_icmp_state = Inr ([IcmpIpOut e], s')
     \<and> (\<forall>p'. pk_data p' = header_cells (Ipv4H (example_icmp_header\<lparr>ih_protocolId := 1\<rparr>)) @ pk_data e @ [] \<longrightarrow>
          (\<exists>rt. icmp_sendErrorMessage \<lparr>ce_now = 9, ce_ift = []\<rparr> p' (-1) 11 0 s' = Inr ([], s'\<lparr>cs_rt := rt\<rparr>)))"
proof -
  let ?env = "\<lparr>ce_now = 3, ce_ift = []\<rparr> :: icmp_env" and ?env2 = "\<lparr>ce_now = 9, ce_ift = []\<rparr> :: icmp_env"
  obtain e where e: "icmp_sendErrorMessage ?env (example_icmp_packet [Data 1]) (-1) 11 0 example_icmp_state
      = Inr ([IcmpIpOut e], example_icmp_state\<lparr>cs_ctr := 1\<rparr>)" using example_icmp_send by blast
  have "\<not> isIcmpInfoType 11" "ih_headerLength example_icmp_header = int (header_length (Ipv4H example_icmp_header))"
    "ih_srcAddress example_icmp_header \<noteq> 0" "0 \<le> cs_quoteLength example_icmp_state"
    by (simp_all add: isIcmpInfoType_def example_icmp_header_def example_icmp_state_def)
  note X = icmp_errors_end[OF e this(1) example_icmp_packet_ok this(2-4) disjI1[OF refl], THEN conjunct2, rule_format]
  have h: "ih_headerLength (example_icmp_header\<lparr>ih_protocolId := 1\<rparr>) = int (header_length (Ipv4H (example_icmp_header\<lparr>ih_protocolId := 1\<rparr>)))"
    "ih_protocolId (example_icmp_header\<lparr>ih_protocolId := 1\<rparr>) = 1" by (simp_all add: example_icmp_header_def)
  have "IcmpIpOut e \<in> set [IcmpIpOut e]" by simp
  note Y = X[OF this _ h disjI1[OF refl], of _ "[]" ?env2, THEN conjunct1]
  show ?thesis using e Y by blast
qed

text \<open>C22: an echo request is answered by one reply with its identifier, sequence number and data, sent from the
  address it came to to the one it came from; the reply's checksum is accepted, and nothing is sent about it.\<close>

theorem icmp_echo:
  assumes "packet_ok p" and "pk_data p = header_cells (IcmpH h) @ d" and "ic_type h = 8" and "ic_class h = IcmpEchoRequestC k n"
    and "d \<noteq> []" and "t_l3AddressInd (pk_tags p) = Some (L3IPv4 src, L3IPv4 dest)" and "icmp_verifyCrc headerOk p = Inr True"
    and "cs_crcMode s = CRC_DECLARED_CORRECT \<or> cs_crcMode s = CRC_COMPUTED \<and> cells_serialize d = Inr bs"
  shows "\<exists>r hr. icmp_handleMessage env True headerOk p s = Inr [IcmpIpOut r] \<and> pk_data r = header_cells (IcmpH hr) @ d
    \<and> ic_type hr = 0 \<and> ic_class hr = IcmpEchoReplyC k n
    \<and> t_l3AddressReq (pk_tags r) = Some \<lparr>lr_src = L3IPv4 dest, lr_dest = L3IPv4 src, lr_nonLocalSrc = False\<rparr>
    \<and> (\<forall>r' env' s'. pk_data r' = pk_data r \<longrightarrow> icmp_verifyCrc True r' = Inr True \<and> icmp_handleMessage env' True True r' s' = Inr [])"
proof -
  have peek: "peekAtFront as_icmp p = Inr h" by (rule peekAtFront_header[OF assms(2)]) simp_all
  have "as_echo_request (IcmpH h) = Some (k, n)" using assms(4) by simp
  with popAtFront_header[OF assms(1,2), where as = as_echo_request] obtain q where
    q: "popAtFront as_echo_request p = Inr ((k, n), q)" "pk_data q = d" "pk_tags q = pk_tags p" by auto
  have len: "dataLength q = length d" using arg_cong[OF q(2), of length] by simp
  then have dat: "peekDataAt 0 (int (dataLength q)) q = Inr d"
    using peekDataAt_ok[of 0 "int (dataLength q)" q] assms(5) q(2) peek_at_all[of d] by simp
  obtain r0 where r0: "insertAtBack d (new_packet (pk_name q @ ''-reply'') (ce_now env)) = Inr r0"
    using insertAtBack_eq[OF new_packet_ok(1) assms(5)] by blast
  have r0_data: "packet_ok r0" "pk_data r0 = d" using insertAtBack_ok[OF new_packet_ok(1) assms(5) r0] by simp_all
  let ?h = "new_icmp_echo_reply\<lparr>ic_class := IcmpEchoReplyC k n\<rparr>"
  have ser: "\<exists>b. icmp_serialize (?h\<lparr>ic_crcMode := CRC_COMPUTED, ic_chksum := 0\<rparr>) = Inr b"
    by (simp add: icmp_serialize_def icmp_body_serialize_def new_icmp_echo_reply_def)
  obtain hr where hr: "icmp_insertCrc (cs_crcMode s) ?h r0 = Inr hr"
    using assms(8) ser r0_data(2) by (auto simp: icmp_insertCrc_def Let_def)
  have nh: "header_cells (IcmpH hr) \<noteq> []" by (simp add: header_cells_def)
  obtain r1 where r1: "insertAtFront (header_cells (IcmpH hr)) r0 = Inr r1" using insertAtFront_eq[OF r0_data(1) nh] by blast
  have r1_data: "pk_data r1 = header_cells (IcmpH hr) @ d" using insertAtFront_ok[OF r0_data(1) nh r1] r0_data(2) by simp
  let ?r = "icmp_tagged (r1\<lparr>pk_tags := (pk_tags r1)\<lparr>t_l3AddressReq :=
        Some \<lparr>lr_src = L3IPv4 dest, lr_dest = L3IPv4 src, lr_nonLocalSrc = False\<rparr>\<rparr>\<rparr>)"
  have send: "icmp_handleMessage env True headerOk p s = Inr [IcmpIpOut ?r]"
    using assms(3,6,7) peek q dat r0 hr r1
    by (simp add: icmp_handleMessage_def icmp_processIcmpMessage_def icmp_processEchoRequest_def icmp_sendToIP_def)
  have r: "pk_data ?r = header_cells (IcmpH hr) @ d" using r1_data by (simp add: icmp_tagged_def)
  have f: "ic_type hr = 0" "ic_class hr = IcmpEchoReplyC k n" using icmp_insertCrc_fields[OF hr] by (simp_all add: new_icmp_echo_reply_def)
  have mode: "cs_crcMode s \<noteq> CRC_DECLARED_INCORRECT" using assms(8) by auto
  have "icmp_verifyCrc True r' = Inr True \<and> icmp_handleMessage env' True True r' s' = Inr []" if "pk_data r' = pk_data ?r" for r' env' s'
  proof -
    have r': "pk_data r' = header_cells (IcmpH hr) @ pk_data r0" using that r r0_data(2) by simp
    have "peekAtFront as_icmp r' = Inr hr" by (rule peekAtFront_header[OF r']) simp_all
    then show ?thesis using icmp_crc_verifies[OF hr mode r'] f(1) by (simp add: icmp_handleMessage_def icmp_processIcmpMessage_def)
  qed
  then show ?thesis using send r f by (intro exI[of _ ?r] exI[of _ hr]) (simp add: icmp_tagged_def)
qed

theorem icmp_echo_witness:
  "\<exists>r hr. icmp_handleMessage \<lparr>ce_now = 3, ce_ift = []\<rparr> True True
       ((new_packet ''ping'' 0)\<lparr>pk_content := header_cells (IcmpH (new_icmp_header\<lparr>ic_type := 8, ic_code := 0, ic_crcMode := CRC_DECLARED_CORRECT,
           ic_class := IcmpEchoRequestC 4 9\<rparr>)) @ [Data 1], pk_tags := no_tags\<lparr>t_l3AddressInd := Some (L3IPv4 5, L3IPv4 6)\<rparr>\<rparr>)
       example_icmp_state = Inr [IcmpIpOut r]
     \<and> pk_data r = header_cells (IcmpH hr) @ [Data 1] \<and> ic_class hr = IcmpEchoReplyC 4 9"
proof -
  let ?h = "new_icmp_header\<lparr>ic_type := 8, ic_code := 0, ic_crcMode := CRC_DECLARED_CORRECT, ic_class := IcmpEchoRequestC 4 9\<rparr>"
  let ?p = "(new_packet ''ping'' 0)\<lparr>pk_content := header_cells (IcmpH ?h) @ [Data 1],
     pk_tags := no_tags\<lparr>t_l3AddressInd := Some (L3IPv4 5, L3IPv4 6)\<rparr>\<rparr>"
  have p: "packet_ok ?p" "pk_data ?p = header_cells (IcmpH ?h) @ [Data 1]" by (simp_all add: new_packet_def packet_ok_def pk_data_alt)
  have "peekAtFront as_icmp ?p = Inr ?h" by (rule peekAtFront_header[OF p(2)]) simp_all
  then have v: "icmp_verifyCrc True ?p = Inr True" by (simp add: icmp_verifyCrc_def)
  have "\<exists>r hr. icmp_handleMessage \<lparr>ce_now = 3, ce_ift = []\<rparr> True True ?p example_icmp_state = Inr [IcmpIpOut r]
    \<and> pk_data r = header_cells (IcmpH hr) @ [Data 1] \<and> ic_type hr = 0 \<and> ic_class hr = IcmpEchoReplyC 4 9
    \<and> t_l3AddressReq (pk_tags r) = Some \<lparr>lr_src = L3IPv4 6, lr_dest = L3IPv4 5, lr_nonLocalSrc = False\<rparr>
    \<and> (\<forall>r' (env' :: icmp_env) s'. pk_data r' = pk_data r \<longrightarrow> icmp_verifyCrc True r' = Inr True \<and> icmp_handleMessage env' True True r' s' = Inr [])"
    by (rule icmp_echo[OF p _ _ _ _ v]) (simp_all add: new_icmp_header_def example_icmp_state_def)
  then show ?thesis by blast
qed

end
