(* ===== verification/Icmp_Errors.thy ===== *)
theory Icmp_Errors
  imports Icmp Udp Ipv4_Input
begin

text \<open>
  The way of an ICMP error: \<open>Ipv4\<close> of some node gives the datagram it cannot handle to its ICMP module,
  which sends an error to the source; there \<open>Icmp\<close> gives it to the protocol of the quoted datagram, and
  \<open>Udp\<close> tells the socket that sent it. \<open>Udp\<close> asks \<open>Icmp\<close> whether the checksum is right.
\<close>

definition icmp_number :: "icmp_type \<Rightarrow> int" where
  "icmp_number t = (case t of IcmpDestinationUnreachable \<Rightarrow> 3 | IcmpTimeExceeded \<Rightarrow> 11 | IcmpParameterProblem \<Rightarrow> 12)"

text \<open>The calls of \<open>Ipv4::sendIcmpError\<close> and of \<open>sendPtbMessage\<close> in its output, in order.\<close>

fun ip_icmp_calls :: "icmp_env \<Rightarrow> ip_output list \<Rightarrow> icmp_state \<Rightarrow> icmp_result" where
  "ip_icmp_calls env [] s = Inr ([], s)"
| "ip_icmp_calls env (x # xs) s =
    bindE (case x of
        IcmpError p i ty code \<Rightarrow> icmp_sendErrorMessage env p i (icmp_number ty) (int code) s
      | IcmpPtb p mtu \<Rightarrow> icmp_sendPtbMessage env p mtu s
      | _ \<Rightarrow> Inr ([], s)) (\<lambda>(outs, s).
    bindE (ip_icmp_calls env xs s) (\<lambda>(outs', s). Inr (outs @ outs', s)))"

text \<open>\<open>Udp\<close> with the answer of \<open>Icmp::verifyCrc\<close> on the packet that \<open>Icmp\<close> has passed on.\<close>

definition udp_receives_error :: "udp_env \<Rightarrow> packet \<Rightarrow> udp_state \<Rightarrow> udp_result" where
  "udp_receives_error env p s =
    bindE (icmp_verifyCrc True p) (\<lambda>crcOk. udp_handleLowerPacket env True True crcOk p s)"

lemma take_header: "8 \<le> q \<Longrightarrow> take (nat q) (header_cells (UdpH u) @ d) = header_cells (UdpH u) @ take (nat q - 8) d"
  by (simp add: take_all_iff)

text \<open>What arrives at the source of the quoted datagram is passed up and reported.\<close>

lemma icmp_error_arrives:
  assumes quotes: "icmp_quotes hc h (header_cells (UdpH u) @ d) q e" and "8 \<le> q"
    and hc: "icmp_insertCrc mode h0 e0 = Inr hc" "mode \<noteq> CRC_DECLARED_INCORRECT" "pk_data e = header_cells (IcmpH hc) @ pk_data e0"
    and "ic_type hc \<in> {3, 11, 12}" and "ih_protocolId h = 17" "ih_fragmentOffset h = 0"
    and e': "packet_ok e'" "pk_data e' = pk_data e" and "17 \<in> set (cs_transportProtocols s)"
    and sd: "findSocketForUnicastPacket (L3IPv4 (ih_srcAddress h)) (uint (uh_srcPort u)) (L3IPv4 (ih_destAddress h)) (uint (uh_destPort u))
        (ud_sockets us) = Some sd"
  shows "\<exists>t. icmp_handleMessage env True True e' s = Inr [IcmpTransportOut t] \<and> t_dispatchReq (pk_tags t) = Some P_udp
    \<and> udp_receives_error uenv t us = Inr ([UdpErrorIndication (sd_sockId sd) (L3IPv4 (ih_srcAddress h)) (L3IPv4 (ih_destAddress h))
        (sd_localPort sd) (uint (uh_destPort u))], us)"
proof -
  let ?rest = "header_cells (UdpH u) @ take (nat q - 8) d"
  have data: "pk_data e' = header_cells (IcmpH hc) @ header_cells (Ipv4H h) @ ?rest"
    using quotes e'(2) take_header[OF assms(2)] by (simp add: icmp_quotes_def)
  have ver: "icmp_verifyCrc True r = Inr True" if "pk_data r = pk_data e" for r
    using icmp_crc_verifies[OF hc(1,2)] that hc(3) by simp
  have peek: "peekAtFront as_icmp e' = Inr hc" by (rule peekAtFront_header[OF data]) simp_all
  have len: "dataLength e' = 8 + length (header_cells (Ipv4H h) @ ?rest)" using arg_cong[OF data, of length] by simp
  have "drop 8 (pk_data e') = header_cells (Ipv4H h) @ ?rest" unfolding data by simp
  moreover have "header_at (header_cells (Ipv4H h) @ ?rest) = Some (Ipv4H h)" by (rule header_at_cells) simp
  ultimately have bogus: "peekHeaderAt as_ipv4 8 e' = Inr h" using len by (simp add: peekHeaderAt_def)
  let ?t = "e'\<lparr>pk_tags := (pk_tags e')\<lparr>t_dispatchReq := Some P_udp, t_packetProtocol := Some P_icmpv4\<rparr>\<rparr>"
  have "getProtocol ipprotocol 17 = Inr P_udp" by (simp add: getProtocol_def findProtocol_def ipprotocol_def)
  then have up: "icmp_handleMessage env True True e' s = Inr [IcmpTransportOut ?t]"
    using ver[OF e'(2)] peek bogus assms(6,7,11) by (auto simp: icmp_handleMessage_def icmp_processIcmpMessage_def icmp_processError_def Let_def)
  have t: "packet_ok ?t" "pk_data ?t = header_cells (IcmpH hc) @ header_cells (Ipv4H h) @ ?rest" using e'(1) data by simp_all
  obtain t1 where t1: "popAtFront as_icmp ?t = Inr (hc, t1)" "packet_ok t1" "pk_data t1 = header_cells (Ipv4H h) @ ?rest"
    using popAtFront_header[OF t, of as_icmp hc] by auto
  obtain t2 where t2: "popAtFront as_ipv4 t1 = Inr (h, t2)" "pk_data t2 = ?rest"
    using popAtFront_header[OF t1(2,3), of as_ipv4 h] by auto
  have u: "peekAtFront as_udp t2 = Inr u" by (rule peekAtFront_header[OF t2(2)]) simp_all
  have "icmp_verifyCrc True ?t = Inr True" by (rule ver) (simp add: e'(2))
  then have "udp_receives_error uenv ?t us = Inr ([UdpErrorIndication (sd_sockId sd) (L3IPv4 (ih_srcAddress h)) (L3IPv4 (ih_destAddress h))
        (sd_localPort sd) (uint (uh_destPort u))], us)"
    using t1(1) t2(1) u sd assms(8)
    by (simp add: udp_receives_error_def udp_handleLowerPacket_def udp_processICMPv4Error_def udp_reportError_def)
  then show ?thesis using up by (intro exI[of _ ?t]) simp
qed

section \<open>Properties\<close>

text \<open>C6: when \<open>Ipv4\<close> of a node drops a UDP datagram and has its ICMP module report it, and that sends anything, then it
  sends one message, to the source of the datagram; and where the message arrives there, with the data it was sent with,
  its checksum is accepted and the socket that the datagram came from is told the address and the port the
  datagram could not reach.\<close>

theorem icmp_error_reported:
  assumes "ip_icmp_calls env [IpDropped reason q, IcmpError q i ty code] s = Inr (outs, s')" and "outs \<noteq> []"
    and "packet_ok q" and "pk_data q = header_cells (Ipv4H h) @ header_cells (UdpH u) @ d"
    and "ih_headerLength h = int (header_length (Ipv4H h))" and "ih_srcAddress h \<noteq> 0" and "ih_protocolId h = 17"
    and "8 \<le> cs_quoteLength s" and "cs_crcMode s \<noteq> CRC_DECLARED_INCORRECT"
    and "17 \<in> set (cs_transportProtocols s2)"
    and "findSocketForUnicastPacket (L3IPv4 (ih_srcAddress h)) (uint (uh_srcPort u)) (L3IPv4 (ih_destAddress h)) (uint (uh_destPort u))
        (ud_sockets us) = Some sd"
  shows "\<exists>e. outs = [IcmpIpOut e]
    \<and> t_l3AddressReq (pk_tags e) = Some \<lparr>lr_src = L3None, lr_dest = L3IPv4 (ih_srcAddress h), lr_nonLocalSrc = False\<rparr>
    \<and> (\<forall>e' env2. packet_ok e' \<and> pk_data e' = pk_data e \<longrightarrow>
        (\<exists>t. icmp_handleMessage env2 True True e' s2 = Inr [IcmpTransportOut t] \<and> t_dispatchReq (pk_tags t) = Some P_udp
          \<and> udp_receives_error uenv t us = Inr ([UdpErrorIndication (sd_sockId sd) (L3IPv4 (ih_srcAddress h)) (L3IPv4 (ih_destAddress h))
              (sd_localPort sd) (uint (uh_destPort u))], us)))"
proof -
  have send: "icmp_sendErrorMessage env q i (icmp_number ty) (int code) s = Inr (outs, s')"
    using assms(1) by (auto simp: bindE_eq_Inr)
  have q: "0 \<le> cs_quoteLength s" using assms(8) by simp
  from icmp_error_sent[OF send assms(2-6) q] obtain e hc e0 where e: "outs = [IcmpIpOut e]"
    "icmp_quotes hc h (header_cells (UdpH u) @ d) (cs_quoteLength s) e" "ic_type hc = icmp_number ty"
    "icmp_insertCrc (cs_crcMode s) (new_icmp_header\<lparr>ic_type := icmp_number ty, ic_code := int code\<rparr>) e0 = Inr hc"
    "pk_data e = header_cells (IcmpH hc) @ pk_data e0"
    "t_l3AddressReq (pk_tags e) = Some \<lparr>lr_src = L3None, lr_dest = L3IPv4 (ih_srcAddress h), lr_nonLocalSrc = False\<rparr>" by blast
  have ty: "ic_type hc \<in> {3, 11, 12}" by (cases ty) (simp_all add: e(3) icmp_number_def)
  have "ih_fragmentOffset h = 0"
  proof (rule ccontr)
    assume f: "ih_fragmentOffset h \<noteq> 0"
    have peek: "peekAtFront as_ipv4 q = Inr h" by (rule peekAtFront_header[OF assms(4)]) simp_all
    obtain b rt where "icmp_maySendErrorMessage env q i (cs_rt s) = Inr (b, rt)"
      using send by (auto simp: icmp_sendErrorMessage_def bindE_eq_Inr)
    moreover from this have "\<not> b" using f by (auto simp: icmp_maySendErrorMessage_def peek Let_def bindE_eq_Inr split: if_splits)
    ultimately show False using send assms(2) by (simp add: icmp_sendErrorMessage_def)
  qed
  from icmp_error_arrives[OF e(2) assms(8) e(4) assms(9) e(5) ty assms(7) this _ _ assms(10,11)] show ?thesis
    using e(1,6) by blast
qed

theorem icmp_error_reported_witness:
  "\<exists>e t. icmp_sendErrorMessage \<lparr>ce_now = 3, ce_ift = []\<rparr> (example_icmp_packet (header_cells (UdpH (new_udp_header\<lparr>uh_srcPort := 1000, uh_destPort := 2000\<rparr>)) @ []))
       (-1) 11 0 example_icmp_state = Inr ([IcmpIpOut e], example_icmp_state\<lparr>cs_ctr := 1\<rparr>)
     \<and> udp_receives_error udp_example_env t ((udp_init CRC_COMPUTED)\<lparr>ud_sockets := udp_example_sender\<rparr>)
       = Inr ([UdpErrorIndication 1 (L3IPv4 0x0A000001) (L3IPv4 0x0A000002) 1000 2000], (udp_init CRC_COMPUTED)\<lparr>ud_sockets := udp_example_sender\<rparr>)"
proof -
  let ?u = "new_udp_header\<lparr>uh_srcPort := 1000, uh_destPort := 2000\<rparr>" and ?us = "(udp_init CRC_COMPUTED)\<lparr>ud_sockets := udp_example_sender\<rparr>"
  let ?q = "example_icmp_packet (header_cells (UdpH ?u) @ [])" and ?env = "\<lparr>ce_now = 3, ce_ift = []\<rparr> :: icmp_env"
  let ?sd = "(new_sock_desc 1)\<lparr>sd_isBound := True, sd_localAddr := L3IPv4 0x0A000001, sd_localPort := 1000,
       sd_remoteAddr := L3IPv4 0x0A000002, sd_remotePort := 2000\<rparr>"
  obtain e where e: "icmp_sendErrorMessage ?env ?q (-1) 11 0 example_icmp_state = Inr ([IcmpIpOut e], example_icmp_state\<lparr>cs_ctr := 1\<rparr>)"
    using example_icmp_send by blast
  have calls: "ip_icmp_calls ?env [IpDropped HopLimitReached ?q, IcmpError ?q (-1) IcmpTimeExceeded 0] example_icmp_state
      = Inr ([IcmpIpOut e], example_icmp_state\<lparr>cs_ctr := 1\<rparr>)" using e by (simp add: icmp_number_def)
  have h: "ih_headerLength example_icmp_header = int (header_length (Ipv4H example_icmp_header))" "ih_srcAddress example_icmp_header \<noteq> 0"
    "ih_protocolId example_icmp_header = 17" "8 \<le> cs_quoteLength example_icmp_state" "cs_crcMode example_icmp_state \<noteq> CRC_DECLARED_INCORRECT"
    "17 \<in> set (cs_transportProtocols example_icmp_state)" by (simp_all add: example_icmp_header_def example_icmp_state_def)
  have sd: "findSocketForUnicastPacket (L3IPv4 (ih_srcAddress example_icmp_header)) (uint (uh_srcPort ?u)) (L3IPv4 (ih_destAddress example_icmp_header))
      (uint (uh_destPort ?u)) (ud_sockets ?us) = Some ?sd"
    by (simp add: findSocketForUnicastPacket_def port_sockets_def socketsByPort_def udp_example_sender_def List.map_filter_def
        unicast_matches_def remote_matches_def new_sock_desc_def example_icmp_header_def ip_isUnspecified_def)
  note X = icmp_error_reported[OF calls _ example_icmp_packet_ok h sd]
  from X[where uenv = udp_example_env] obtain e2 where e2: "[IcmpIpOut e] = [IcmpIpOut e2]"
    "\<forall>e' env2. packet_ok e' \<and> pk_data e' = pk_data e2 \<longrightarrow>
        (\<exists>t. icmp_handleMessage env2 True True e' example_icmp_state = Inr [IcmpTransportOut t] \<and> t_dispatchReq (pk_tags t) = Some P_udp
          \<and> udp_receives_error udp_example_env t ?us = Inr ([UdpErrorIndication (sd_sockId ?sd) (L3IPv4 (ih_srcAddress example_icmp_header))
              (L3IPv4 (ih_destAddress example_icmp_header)) (sd_localPort ?sd) (uint (uh_destPort ?u))], ?us))" by blast
  let ?e = "(new_packet ''e'' 0)\<lparr>pk_content := pk_data e2\<rparr>"
  have "packet_ok ?e \<and> pk_data ?e = pk_data e2" by (simp add: new_packet_def packet_ok_def pk_data_alt)
  with e2(2) obtain t where "udp_receives_error udp_example_env t ?us = Inr ([UdpErrorIndication (sd_sockId ?sd) (L3IPv4 (ih_srcAddress example_icmp_header))
              (L3IPv4 (ih_destAddress example_icmp_header)) (sd_localPort ?sd) (uint (uh_destPort ?u))], ?us)" by blast
  then show ?thesis using e by (auto simp: example_icmp_header_def new_sock_desc_def)
qed

end
