(* ===== verification/Arp_Wire.thy ===== *)
theory Arp_Wire
  imports Wire
begin

text \<open>
  An ARP packet on the wire (\<open>networklayer/arp/ipv4/ArpPacketSerializer.cc\<close>) and reading it back. The
  sizes of the two kinds of address are in the packet: the deserializer reads addresses of the
  usual size and then seeks to the end of the announced one, which fails beyond the end of the stream.
\<close>

definition mac_bytes :: "mac_address \<Rightarrow> 8 word list" where
  "mac_bytes a = map (\<lambda>k. getAddressByte k a) [0..<6]"

definition setAddressByte :: "nat \<Rightarrow> 8 word \<Rightarrow> mac_address \<Rightarrow> mac_address" where
  "setAddressByte k b a =
    (let offset = (6 - k - 1) * 8 in (a AND NOT (push_bit offset 0xFF)) OR push_bit offset (ucast b))"

fun readAddressBytes :: "nat list \<Rightarrow> mac_address \<Rightarrow> 8 word list \<Rightarrow> mac_address \<times> 8 word list" where
  "readAddressBytes [] a s = (a, s)"
| "readAddressBytes (k # ks) a s = (let (b, s) = readByte s in readAddressBytes ks (setAddressByte k b a) s)"

definition readMacAddress :: "8 word list \<Rightarrow> mac_address \<times> 8 word list" where
  "readMacAddress s = readAddressBytes [0..<6] 0 s"

definition readUint32Be :: "8 word list \<Rightarrow> 32 word \<times> 8 word list" where
  "readUint32Be s =
    (let (a, s) = readByte s; (b, s) = readByte s; (c, s) = readByte s; (d, s) = readByte s
     in (push_bit 24 (ucast a) OR push_bit 16 (ucast b) OR push_bit 8 (ucast c) OR ucast d, s))"

text \<open>\<open>seek(curpos + size)\<close>, with the bytes from \<open>curpos\<close> on.\<close>

definition seekFrom :: "8 word list \<Rightarrow> nat \<Rightarrow> 8 word list res" where
  "seekFrom s n = (if n \<le> length s then Inr (drop n s) else Inl (AssertFailed ''position <= length''))"

definition arp_readMacAddress :: "8 word list \<Rightarrow> nat \<Rightarrow> (mac_address \<times> 8 word list) res" where
  "arp_readMacAddress s n = bindE (seekFrom s n) (\<lambda>s'. Inr (fst (readMacAddress s), s'))"

definition arp_readIpv4Address :: "8 word list \<Rightarrow> nat \<Rightarrow> (ipv4_address \<times> 8 word list) res" where
  "arp_readIpv4Address s n = bindE (seekFrom s n) (\<lambda>s'. Inr (fst (readUint32Be s), s'))"

definition arp_serialize :: "arp_packet \<Rightarrow> 8 word list" where
  "arp_serialize a = be_bytes 1 @ be_bytes 0x0800 @ [6] @ [4] @ be_bytes (of_int (ap_opcode a))
     @ mac_bytes (ap_srcMac a) @ be32_bytes (ap_srcIp a) @ mac_bytes (ap_destMac a) @ be32_bytes (ap_destIp a)"

text \<open>The packet that is read, whether it is not marked as incorrect, and what is left of the stream.\<close>

definition arp_deserialize :: "8 word list \<Rightarrow> (arp_packet \<times> bool \<times> 8 word list) res" where
  "arp_deserialize s =
    (let (hrd, s) = readUint16Be s; (pro, s) = readUint16Be s; (hln, s) = readByte s; (pln, s) = readByte s;
         (opcode, s) = readUint16Be s
     in bindE (arp_readMacAddress s (unat hln)) (\<lambda>(srcMac, s).
        bindE (arp_readIpv4Address s (unat pln)) (\<lambda>(srcIp, s).
        bindE (arp_readMacAddress s (unat hln)) (\<lambda>(destMac, s).
        bindE (arp_readIpv4Address s (unat pln)) (\<lambda>(destIp, s).
          Inr (\<lparr>ap_opcode = uint opcode, ap_srcMac = srcMac, ap_destMac = destMac, ap_srcIp = srcIp, ap_destIp = destIp\<rparr>,
               hrd = 1 \<and> pro = 0x0800, s))))))"

section \<open>Reading back\<close>

lemma bit_setAddressByte:
  assumes "k < 6" "n < 48"
  shows "bit (setAddressByte k b a) n = (if (5 - k) * 8 \<le> n \<and> n < (5 - k) * 8 + 8 then bit b (n - (5 - k) * 8) else bit a n)"
proof -
  have ff: "(0xFF :: 48 word) = mask 8" by (simp add: mask_eq_exp_minus_1)
  have off: "(6 - k - 1) * 8 = (5 - k) * 8" by simp
  show ?thesis unfolding setAddressByte_def Let_def ff off using assms(2)
    by (auto simp: bit_simps dest: bit_imp_le_length)
qed

lemma bit_getAddressByte: "k < 6 \<Longrightarrow> m < 8 \<Longrightarrow> bit (getAddressByte k a) m = bit a ((5 - k) * 8 + m)"
  by (simp add: getAddressByte_def bit_simps)

lemma readAddressBytes_snd: "snd (readAddressBytes ks a (map f ks @ s)) = s"
  by (induction ks arbitrary: a) simp_all

lemma readAddressBytes_bit:
  assumes "set ks \<subseteq> {..<6}" "n < 48"
  shows "bit (fst (readAddressBytes ks b (map (\<lambda>k. getAddressByte k a) ks @ s))) n = (if 5 - n div 8 \<in> set ks then bit a n else bit b n)"
  using assms(1)
proof (induction ks arbitrary: b)
  case (Cons k ks)
  have k: "k < 6" using Cons.prems by simp
  have "k \<in> {0, 1, 2, 3, 4, 5}" using k by auto
  then have iff: "(5 - k) * 8 \<le> n \<and> n < (5 - k) * 8 + 8 \<longleftrightarrow> 5 - n div 8 = k" using assms(2) by (elim insertE) auto
  have "bit (setAddressByte k (getAddressByte k a) b) n = (if 5 - n div 8 = k then bit a n else bit b n)"
    unfolding bit_setAddressByte[OF k assms(2)] iff[symmetric] using bit_getAddressByte[OF k, of "n - (5 - k) * 8" a] by auto
  then show ?case using Cons by (simp add: Let_def)
qed simp

lemma readMacAddress_bytes [simp]: "readMacAddress (mac_bytes a @ s) = (a, s)"
proof -
  have "fst (readMacAddress (mac_bytes a @ s)) = a"
  proof (rule bit_word_eqI)
    fix n assume "n < LENGTH(48)"
    then have "n < 48" "5 - n div 8 \<in> set [0..<6]" "set [0..<6] \<subseteq> {..<6::nat}" by auto
    then show "bit (fst (readMacAddress (mac_bytes a @ s))) n = bit a n"
      using readAddressBytes_bit[of "[0..<6]" n 0 a s] by (auto simp: readMacAddress_def mac_bytes_def)
  qed
  then show ?thesis using readAddressBytes_snd[of "[0..<6]" 0] by (metis readMacAddress_def mac_bytes_def prod.collapse)
qed

lemma readUint32Be_bytes [simp]: "readUint32Be (be32_bytes w @ s) = (w, s)"
proof -
  have "push_bit 24 (ucast (ucast (drop_bit 24 w) :: 8 word)) OR push_bit 16 (ucast (ucast (drop_bit 16 w) :: 8 word))
      OR push_bit 8 (ucast (ucast (drop_bit 8 w) :: 8 word)) OR ucast (ucast w :: 8 word) = w" (is "?l = w")
  proof (rule bit_word_eqI)
    fix n assume "n < LENGTH(32)"
    then have "n < 8 \<or> (8 \<le> n \<and> n < 16) \<or> (16 \<le> n \<and> n < 24) \<or> (24 \<le> n \<and> n < 32)" by auto
    then show "bit ?l n = bit w n" by (elim disjE) (auto simp: bit_simps)
  qed
  then show ?thesis by (simp add: readUint32Be_def be32_bytes_def)
qed

lemma length_mac_bytes [simp]: "length (mac_bytes a) = 6" "length (be32_bytes w) = 4"
  by (simp_all add: mac_bytes_def be32_bytes_def)

lemma arp_read_simps [simp]:
  "arp_readMacAddress (mac_bytes m @ s) 6 = Inr (m, s)" "arp_readIpv4Address (be32_bytes i @ s) 4 = Inr (i, s)"
  by (simp_all add: arp_readMacAddress_def arp_readIpv4Address_def seekFrom_def)

text \<open>
  A serialized packet has the 28 bytes that the packet claims to have, and it is read back as it was, with
  its opcode modulo \<open>2 ^ 16\<close>, whatever follows; the bytes of the Ethernet padding stay in the stream.
\<close>

theorem arp_wire_roundtrip:
  "length (arp_serialize a) = header_length (ArpH a)
   \<and> arp_deserialize (arp_serialize a @ s) = Inr (a\<lparr>ap_opcode := ap_opcode a mod 65536\<rparr>, True, s)"
proof -
  have "arp_deserialize (arp_serialize a @ s) = Inr (\<lparr>ap_opcode = ap_opcode a mod 65536, ap_srcMac = ap_srcMac a,
      ap_destMac = ap_destMac a, ap_srcIp = ap_srcIp a, ap_destIp = ap_destIp a\<rparr>, True, s)"
    by (simp add: arp_deserialize_def arp_serialize_def uint_of_int16)
  then show ?thesis by (simp add: arp_serialize_def be_bytes_def)
qed

end
