(* ===== verification/Icmp_Wire.thy ===== *)
theory Icmp_Wire
  imports Icmp Arp_Wire
begin

text \<open>
  An ICMP message on the wire and reading it back (\<open>networklayer/ipv4/IcmpHeaderSerializer.cc\<close>; the writing is in
  \<open>Wire\<close>). The class of the message that is read follows from its type and code.
\<close>

text \<open>The header that is read, whether it is properly represented, and the rest of the stream.\<close>

definition icmp_deserialize :: "8 word list \<Rightarrow> icmp_header \<times> bool \<times> 8 word list" where
  "icmp_deserialize s =
    (let (t, s) = readByte s; (c, s) = readByte s; (chksum, s) = readUint16Be s;
         h = new_icmp_header\<lparr>ic_type := uint t, ic_code := uint c, ic_chksum := uint chksum, ic_crcMode := CRC_COMPUTED\<rparr>
     in
     if t = 8 then
       let (k, s) = readUint16Be s; (n, s) = readUint16Be s in (h\<lparr>ic_class := IcmpEchoRequestC (uint k) (uint n)\<rparr>, True, s)
     else if t = 0 then
       let (k, s) = readUint16Be s; (n, s) = readUint16Be s in (h\<lparr>ic_class := IcmpEchoReplyC (uint k) (uint n)\<rparr>, True, s)
     else if t = 3 then
       if c = 4 then
         let (unused, s) = readUint16Be s; (mtu, s) = readUint16Be s in (h\<lparr>ic_class := IcmpPtbC unused mtu\<rparr>, True, s)
       else let (_, s) = readUint32Be s in (h, True, s)
     else if t = 11 then let (_, s) = readUint32Be s in (h, True, s)
     else (h, False, s))"

text \<open>
  What comes back: the numbers modulo their width, a fragmentation-needed error as a message of its own class,
  any other unreachable error and time exceeded as plain headers.
\<close>

definition icmp_wire_class :: "icmp_header \<Rightarrow> icmp_class" where
  "icmp_wire_class h = (case ic_class h of
     IcmpEchoRequestC k n \<Rightarrow> if ic_type h = 8 then IcmpEchoRequestC (k mod 65536) (n mod 65536) else if ic_type h = 3 \<and> ic_code h = 4 then IcmpPtbC 0 0 else IcmpHeaderC
   | IcmpEchoReplyC k n \<Rightarrow> if ic_type h = 0 then IcmpEchoReplyC (k mod 65536) (n mod 65536) else if ic_type h = 3 \<and> ic_code h = 4 then IcmpPtbC 0 0 else IcmpHeaderC
   | IcmpPtbC u m \<Rightarrow> if ic_type h = 3 \<and> ic_code h = 4 then IcmpPtbC u m else IcmpHeaderC
   | IcmpHeaderC \<Rightarrow> if ic_type h = 3 \<and> ic_code h = 4 then IcmpPtbC 0 0 else IcmpHeaderC)"

definition icmp_wire :: "icmp_header \<Rightarrow> icmp_header" where
  "icmp_wire h = h\<lparr>ic_chksum := ic_chksum h mod 65536, ic_crcMode := CRC_COMPUTED, ic_class := icmp_wire_class h\<rparr>"

lemma be32_zero: "be32_bytes 0 = be_bytes 0 @ be_bytes 0"
  by (simp add: be32_bytes_def be_bytes_def)

theorem icmp_wire_roundtrip:
  assumes "icmp_serialize h = Inr bs" "0 \<le> ic_code h" "ic_code h < 256"
  shows "icmp_deserialize (bs @ s) = (icmp_wire h, True, s)"
proof -
  obtain body where body: "icmp_body_serialize h = Inr body"
    "bs = of_int (ic_type h) # of_int (ic_code h) # be_bytes (of_int (ic_chksum h)) @ body"
    using assms(1) by (auto simp: icmp_serialize_def bindE_eq_Inr)
  have ty: "ic_type h \<in> {8, 0, 3, 11}" using body(1) by (auto simp: icmp_body_serialize_def split: if_splits)
  have code: "uint (of_int (ic_code h) :: 8 word) = ic_code h" "(of_int (ic_code h) :: 8 word) = 4 \<longleftrightarrow> ic_code h = 4"
  proof -
    show u: "uint (of_int (ic_code h) :: 8 word) = ic_code h" using assms(2,3) by (simp add: uint_word_of_int_eq take_bit_int_eq_self)
    show "(of_int (ic_code h) :: 8 word) = 4 \<longleftrightarrow> ic_code h = 4"
    proof
      assume "(of_int (ic_code h) :: 8 word) = 4"
      then have "uint (of_int (ic_code h) :: 8 word) = uint (4 :: 8 word)" by (rule arg_cong)
      then show "ic_code h = 4" using u by simp
    qed simp
  qed
  have zero: "readUint32Be (be_bytes 0 @ be_bytes 0 @ s) = (0, s)" using readUint32Be_bytes[of 0 s] by (simp add: be32_zero)
  show ?thesis using ty body(1) code
    by (cases "ic_class h"; cases h)
      (auto simp: body(2) icmp_deserialize_def icmp_body_serialize_def icmp_wire_def icmp_wire_class_def Let_def uint_of_int16
        new_icmp_header_def be32_zero zero split: if_splits prod.splits)
qed

end
