(* ===== verification/Ipv4_Wire.thy ===== *)
theory Ipv4_Wire
  imports Arp_Wire
begin

text \<open>
  An IPv4 header with options on the wire (\<open>networklayer/ipv4/Ipv4HeaderSerializer.cc\<close>): how an option
  is written, and how a header is read back. \<open>ipv4_serialize\<close> of \<open>Wire\<close> writes the fixed part and takes
  the bytes of each option as they are; here they are what \<open>serializeOption\<close> writes for an option object.
  The conversion between simulation time and milliseconds is the kernel's and a parameter.
\<close>

section \<open>Options\<close>

text \<open>
  The classes of an option and their own fields; every option also has the fields \<open>type\<close> and \<open>length\<close> of
  \<open>TlvOptionBase\<close>, which any code can set. \<open>OtherB\<close> is an object of another class.
\<close>

datatype tlv_body =
    EndB
  | NopB
  | StreamIdB "16 word"
  | TimestampB int int int "ipv4_address list" "int list"  \<comment> \<open>flag, overflow, nextIdx, addresses, times\<close>
  | RecordRouteB int "ipv4_address list"                   \<comment> \<open>nextAddressIdx, addresses\<close>
  | RouterAlertB "16 word"
  | RawB "8 word list"
  | OtherB

record tlv_option =
  to_type :: int
  to_length :: int
  to_body :: tlv_body

abbreviation option_end :: tlv_option where
  "option_end \<equiv> \<lparr>to_type = 0, to_length = 1, to_body = EndB\<rparr>"

text \<open>The entries of a timestamp option, with addresses when an entry has 8 bytes.\<close>

fun timestamp_entries :: "(int \<Rightarrow> int) \<Rightarrow> bool \<Rightarrow> ipv4_address list \<Rightarrow> int list \<Rightarrow> 8 word list res" where
  "timestamp_entries ms addr as [] = Inr []"
| "timestamp_entries ms False as (t # ts) =
    bindE (timestamp_entries ms False as ts) (\<lambda>bs. Inr (be32_bytes (of_int (ms t)) @ bs))"
| "timestamp_entries ms True [] (t # ts) = Inl (RuntimeError ''Array of size recordAddress_arraysize'')"
| "timestamp_entries ms True (a # as) (t # ts) =
    bindE (timestamp_entries ms True as ts) (\<lambda>bs. Inr (be32_bytes a @ be32_bytes (of_int (ms t)) @ bs))"

text \<open>
  What \<open>serializeOption\<close> writes after the type and the length: the fields of the class that the type
  stands for, whose \<open>check_and_cast\<close> fails for an object of another class.
\<close>

definition option_body_serialize :: "(int \<Rightarrow> int) \<Rightarrow> int \<Rightarrow> int \<Rightarrow> tlv_body \<Rightarrow> 8 word list res" where
  "option_body_serialize ms type len body =
    (case body of RawB bs \<Rightarrow> (if len = 2 + int (length bs) then Inr bs else Inl (AssertFailed ''length == 2 + datalen''))
     | _ \<Rightarrow>
       if type = 0 then
         (case body of EndB \<Rightarrow> if len = 1 then Inr [] else Inl (AssertFailed ''length == 1'')
          | _ \<Rightarrow> Inl (RuntimeError ''check_and_cast''))
       else if type = 1 then
         (case body of NopB \<Rightarrow> if len = 1 then Inr [] else Inl (AssertFailed ''length == 1'')
          | _ \<Rightarrow> Inl (RuntimeError ''check_and_cast''))
       else if type = 136 then
         (case body of StreamIdB n \<Rightarrow> if len = 4 then Inr (be_bytes n) else Inl (AssertFailed ''length == 4'')
          | _ \<Rightarrow> Inl (RuntimeError ''check_and_cast''))
       else if type = 68 then
         (case body of TimestampB flag overflow idx as ts \<Rightarrow>
            let bytes = (if flag = 0 then 4 else 8) in
            if len \<noteq> 4 + bytes * int (length ts) then Inl (AssertFailed ''length == 4 + bytes * size'')
            else bindE (timestamp_entries ms (bytes = 8) as ts) (\<lambda>bs.
              Inr ([of_int (5 + idx * bytes), of_int (push_bit 4 overflow OR flag)] @ bs))
          | _ \<Rightarrow> Inl (RuntimeError ''check_and_cast''))
       else if type = 7 \<or> type = 131 \<or> type = 137 then
         (case body of RecordRouteB idx as \<Rightarrow>
            if len \<noteq> 3 + 4 * int (length as) then Inl (AssertFailed ''length == 3 + 4 * size'')
            else Inr ([of_int (4 + idx * 4)] @ concat (map be32_bytes as))
          | _ \<Rightarrow> Inl (RuntimeError ''check_and_cast''))
       else if type = 148 then
         (case body of RouterAlertB n \<Rightarrow> if len = 4 then Inr (be_bytes n) else Inl (AssertFailed ''length == 4'')
          | _ \<Rightarrow> Inl (RuntimeError ''check_and_cast''))
       else Inl (RuntimeError ''Unknown Ipv4Option type''))"

definition serializeOption :: "(int \<Rightarrow> int) \<Rightarrow> tlv_option \<Rightarrow> 8 word list res" where
  "serializeOption ms opt =
    (let type = to_type opt mod 65536; len = to_length opt mod 65536 in
     bindE (option_body_serialize ms type len (to_body opt)) (\<lambda>bs.
       Inr ([of_int type] @ (if len > 1 then [of_int len] else []) @ bs)))"

section \<open>Reading options\<close>

fun readAddresses :: "nat \<Rightarrow> 8 word list \<Rightarrow> ipv4_address list \<times> 8 word list" where
  "readAddresses 0 s = ([], s)"
| "readAddresses (Suc n) s = (let (a, s) = readUint32Be s; (as, s) = readAddresses n s in (a # as, s))"

text \<open>An address and a time for each entry; a time on the wire is in milliseconds.\<close>

fun readEntries :: "(int \<Rightarrow> int) \<Rightarrow> nat \<Rightarrow> 8 word list \<Rightarrow> (ipv4_address list \<times> int list) \<times> 8 word list" where
  "readEntries of_ms 0 s = (([], []), s)"
| "readEntries of_ms (Suc n) s =
    (let (a, s) = readUint32Be s; (t, s) = readUint32Be s; ((as, ts), s) = readEntries of_ms n s
     in ((a # as, of_ms (uint t) # ts), s))"

fun readBytes :: "nat \<Rightarrow> 8 word list \<Rightarrow> 8 word list \<times> 8 word list" where
  "readBytes 0 s = ([], s)"
| "readBytes (Suc n) s = (let (b, s) = readByte s; (bs, s) = readBytes n s in (b # bs, s))"

text \<open>The end of \<open>deserializeOption\<close>: from the first byte of the option again, a raw option.\<close>

definition readRawOption :: "8 word list \<Rightarrow> tlv_option \<times> 8 word list" where
  "readRawOption s =
    (let (type, s) = readByte s; (len, s) = readByte s; (bs, s) = readBytes (unat len - 2) s
     in (\<lparr>to_type = uint type, to_length = uint len, to_body = RawB bs\<rparr>, s))"

text \<open>
  The loop over the entries of a timestamp option runs up to the number of its addresses. Without
  addresses this is 0: the times of the option stay 0 and their bytes stay in the stream.
\<close>

definition readTimestampOption :: "(int \<Rightarrow> int) \<Rightarrow> 8 word list \<Rightarrow> tlv_option \<times> 8 word list" where
  "readTimestampOption of_ms s0 =
    (let (type, s) = readByte s0; (len, s) = readByte s; (pointer, s) = readByte s; (flagbyte, s) = readByte s;
         flag = uint flagbyte mod 16; bytes = (if flag = 0 then 4 else 8); n = (unat len - 4) div bytes;
         idx = (uint pointer - 5) div int bytes in
     if flag \<in> {0, 1, 3} \<and> len > 4 \<and> (unat len - 4) mod bytes = 0 \<and> pointer \<ge> 5 \<and> (unat pointer - 5) mod bytes = 0 then
       if bytes = 8 then
         let ((as, ts), s) = readEntries of_ms n s
         in (\<lparr>to_type = uint type, to_length = uint len, to_body = TimestampB flag (uint flagbyte div 16) idx as ts\<rparr>, s)
       else (\<lparr>to_type = uint type, to_length = uint len,
              to_body = TimestampB flag (uint flagbyte div 16) idx [] (replicate n 0)\<rparr>, s)
     else readRawOption s0)"

definition readRouteOption :: "8 word list \<Rightarrow> tlv_option \<times> 8 word list" where
  "readRouteOption s0 =
    (let (type, s) = readByte s0; (len, s) = readByte s; (pointer, s) = readByte s in
     if len > 3 \<and> unat len mod 4 = 3 \<and> pointer \<ge> 4 \<and> unat pointer mod 4 = 0 then
       let (as, s) = readAddresses ((unat len - 3) div 4) s
       in (\<lparr>to_type = uint type, to_length = uint len, to_body = RecordRouteB ((uint pointer - 4) div 4) as\<rparr>, s)
     else readRawOption s0)"

text \<open>The stream identifier and the router alert, which have the same form.\<close>

definition readWordOption :: "(16 word \<Rightarrow> tlv_body) \<Rightarrow> 8 word list \<Rightarrow> tlv_option \<times> 8 word list" where
  "readWordOption body s0 =
    (let (type, s) = readByte s0; (len, s) = readByte s in
     if len = 4 then
       let (n, s) = readUint16Be s in (\<lparr>to_type = uint type, to_length = uint len, to_body = body n\<rparr>, s)
     else readRawOption s0)"

definition deserializeOption :: "(int \<Rightarrow> int) \<Rightarrow> 8 word list \<Rightarrow> tlv_option \<times> 8 word list" where
  "deserializeOption of_ms s0 =
    (let (type, s) = readByte s0 in
     if type = 0 then (option_end, s)
     else if type = 1 then (\<lparr>to_type = 1, to_length = 1, to_body = NopB\<rparr>, s)
     else if type = 136 then readWordOption StreamIdB s0
     else if type = 68 then readTimestampOption of_ms s0
     else if type = 7 \<or> type = 131 \<or> type = 137 then readRouteOption s0
     else if type = 148 then readWordOption RouterAlertB s0
     else readRawOption s0)"

text \<open>No read lengthens the stream, and an option takes at least one byte off it.\<close>

lemma length_readByte: "length (snd (readByte s)) = length s - 1"
  by (cases s) simp_all

lemma length_readUint16Be: "length (snd (readUint16Be s)) = length s - 2"
  by (simp add: readUint16Be_def case_prod_beta length_readByte)

lemma length_readUint32Be: "length (snd (readUint32Be s)) = length s - 4"
  by (simp add: readUint32Be_def case_prod_beta length_readByte)

lemma length_readAddresses: "length (snd (readAddresses n s)) \<le> length s"
proof (induction n arbitrary: s)
  case (Suc n)
  then show ?case using Suc[of "snd (readUint32Be s)"] by (simp add: case_prod_beta length_readUint32Be)
qed simp

lemma length_readEntries: "length (snd (readEntries of_ms n s)) \<le> length s"
proof (induction n arbitrary: s)
  case (Suc n)
  then show ?case using Suc[of "snd (readUint32Be (snd (readUint32Be s)))"] by (simp add: case_prod_beta length_readUint32Be)
qed simp

lemma length_readBytes: "length (snd (readBytes n s)) \<le> length s"
proof (induction n arbitrary: s)
  case (Suc n)
  then show ?case using Suc[of "snd (readByte s)"] by (simp add: case_prod_beta length_readByte)
qed simp

lemma length_readRawOption: "s \<noteq> [] \<Longrightarrow> length (snd (readRawOption s)) < length s"
  using length_readBytes[of "unat (fst (readByte (snd (readByte s)))) - 2" "snd (readByte (snd (readByte s)))"]
  by (cases s) (simp_all add: readRawOption_def case_prod_beta length_readByte)

lemma length_readWordOption: "s \<noteq> [] \<Longrightarrow> length (snd (readWordOption body s)) < length s"
  using length_readRawOption[of s]
  by (cases s) (auto simp: readWordOption_def case_prod_beta Let_def length_readByte length_readUint16Be)

lemma length_readRouteOption:
  assumes "s \<noteq> []"
  shows "length (snd (readRouteOption s)) < length s"
  using assms length_readRawOption[of s] le_less_trans[OF length_readAddresses]
  by (cases s) (auto simp: readRouteOption_def case_prod_beta Let_def length_readByte)

lemma length_readTimestampOption:
  assumes "s \<noteq> []"
  shows "length (snd (readTimestampOption of_ms s)) < length s"
  using assms length_readRawOption[of s] le_less_trans[OF length_readEntries]
  by (cases s) (auto simp: readTimestampOption_def case_prod_beta Let_def length_readByte)

lemma length_deserializeOption: "s \<noteq> [] \<Longrightarrow> length (snd (deserializeOption of_ms s)) < length s"
  using length_readRawOption[of s] length_readWordOption[of s] length_readRouteOption[of s] length_readTimestampOption[of s of_ms]
  by (simp add: deserializeOption_def case_prod_beta length_readByte)

section \<open>Reading a header\<close>

text \<open>
  The loop over the options: while bytes are left and the end of the header is not reached, which may be in
  the middle of an option. \<open>left\<close> is how far the end of the header is away.
\<close>

function deserializeOptions :: "(int \<Rightarrow> int) \<Rightarrow> int \<Rightarrow> 8 word list \<Rightarrow> tlv_option list \<times> 8 word list" where
  "deserializeOptions of_ms left s =
    (if s \<noteq> [] \<and> 0 < left then
       let (opt, s') = deserializeOption of_ms s;
           (opts, s'') = deserializeOptions of_ms (left - (int (length s) - int (length s'))) s'
       in (opt # opts, s'')
     else ([], s))"
  by auto

termination
proof (relation "measure (\<lambda>(of_ms, left, s). length s)")
  fix of_ms and left :: int and s x opt s'
  assume *: "s \<noteq> [] \<and> 0 < left" "x = deserializeOption of_ms s" "(opt, s') = x"
  then have "s' = snd (deserializeOption of_ms s)" by (metis snd_conv)
  then show "((of_ms, left - (int (length s) - int (length s')), s'), of_ms, left, s) \<in> measure (\<lambda>(of_ms, left, s). length s)"
    using * length_deserializeOption[of s of_ms] by simp
qed simp

declare deserializeOptions.simps [simp del]

text \<open>The header that is read: an \<open>ipv4_header\<close>, the option objects, and the marks of the chunk.\<close>

record ipv4_parsed =
  pd_version :: int
  pd_header :: ipv4_header
  pd_reservedBit :: bool
  pd_options :: "tlv_option list"
  pd_incorrect :: bool
  pd_incomplete :: bool

text \<open>
  The fixed part is copied into a buffer. When the stream has less than 20 bytes the end of the buffer is
  what the memory held before, the parameter \<open>junk\<close>.
\<close>

definition ipv4_deserialize :: "(int \<Rightarrow> int) \<Rightarrow> 8 word list \<Rightarrow> 8 word list \<Rightarrow> ipv4_parsed \<times> 8 word list" where
  "ipv4_deserialize of_ms junk s0 =
    (let buffer = take 20 s0 @ drop (length s0) junk; s = drop 20 s0;
         (vhl, b) = readByte buffer; (tos, b) = readByte b; (len, b) = readUint16Be b; (ident, b) = readUint16Be b;
         (off, b) = readUint16Be b; (ttl, b) = readByte b; (prot, b) = readByte b; (crc, b) = readUint16Be b;
         (src, b) = readUint32Be b; (dest, b) = readUint32Be b;
         totalLength = uint len; hl = 4 * (uint vhl mod 16); headerLength = max 20 hl;
         (opts, s) = (if headerLength > 20 then deserializeOptions of_ms (headerLength - 20) s else ([], s))
     in (\<lparr>pd_version = uint vhl div 16,
          pd_header = \<lparr>ih_headerLength = headerLength, ih_typeOfService = tos, ih_totalLength = totalLength,
            ih_identification = ident, ih_moreFragments = (off AND 0x2000 \<noteq> 0), ih_dontFragment = (off AND 0x4000 \<noteq> 0),
            ih_fragmentOffset = uint (off AND 0x1FFF) * 8, ih_timeToLive = uint ttl, ih_protocolId = uint prot,
            ih_crc = crc, ih_crcMode = CRC_COMPUTED, ih_srcAddress = src, ih_destAddress = dest, ih_options = []\<rparr>,
          pd_reservedBit = (off AND 0x8000 \<noteq> 0), pd_options = opts,
          pd_incorrect = (uint vhl div 16 \<noteq> 4 \<or> hl < 20 \<or> totalLength < headerLength),
          pd_incomplete = (headerLength > int (length s0))\<rparr>, s))"

section \<open>Reading back\<close>

text \<open>An option that is read back: one of the forms that the deserializer produces, other than a timestamp
  without addresses.\<close>

definition option_readable :: "(int \<Rightarrow> int) \<Rightarrow> tlv_option \<Rightarrow> bool" where
  "option_readable of_ms opt \<longleftrightarrow>
    0 \<le> to_type opt \<and> to_type opt < 256 \<and> 0 \<le> to_length opt \<and> to_length opt < 256 \<and>
    (case to_body opt of
       RawB _ \<Rightarrow> to_type opt \<notin> {0, 1, 7, 68, 131, 136, 137, 148}
     | TimestampB flag overflow idx as ts \<Rightarrow> flag \<in> {1, 3} \<and> 0 \<le> overflow \<and> overflow < 16 \<and> 0 \<le> idx \<and> 5 + 8 * idx < 256
         \<and> ts \<noteq> [] \<and> length as = length ts \<and> (\<forall>t \<in> set ts. \<exists>k. 0 \<le> k \<and> k < 2 ^ 32 \<and> t = of_ms k)
     | RecordRouteB idx as \<Rightarrow> 0 \<le> idx \<and> 4 + 4 * idx < 256 \<and> as \<noteq> []
     | _ \<Rightarrow> True)"

lemma readAddresses_bytes: "readAddresses (length as) (concat (map be32_bytes as) @ s) = (as, s)"
  by (induction as) simp_all

lemma readBytes_bytes: "readBytes (length bs) (bs @ s) = (bs, s)"
  by (induction bs) simp_all

lemma readEntries_bytes:
  assumes "timestamp_entries ms True as ts = Inr bs" "length as = length ts"
    and "\<And>k. 0 \<le> k \<Longrightarrow> k < 2 ^ 32 \<Longrightarrow> ms (of_ms k) = k" "\<forall>t \<in> set ts. \<exists>k. 0 \<le> k \<and> k < 2 ^ 32 \<and> t = of_ms k"
  shows "readEntries of_ms (length ts) (bs @ s) = ((as, ts), s)"
  using assms(1,2,4)
proof (induction ts arbitrary: as bs)
  case (Cons t ts)
  then obtain a as' bs' where *: "as = a # as'" "timestamp_entries ms True as' ts = Inr bs'"
      "bs = be32_bytes a @ be32_bytes (of_int (ms t)) @ bs'"
    by (cases as) (auto simp: bindE_eq_Inr)
  have "of_ms (uint (of_int (ms t) :: 32 word)) = t" using Cons.prems(3) assms(3) by (auto simp: uint_word_of_int)
  then show ?case using * Cons by simp
qed simp

text \<open>A number that fits a byte.\<close>

lemma byte_of_int:
  assumes "0 \<le> k" "k < 256"
  shows "uint (of_int k :: 8 word) = k" "unat (of_int k :: 8 word) = nat k" "((of_int k :: 8 word) = w) = (k = uint w)"
    "(w < of_int k) = (uint w < k)" "(w \<le> of_int k) = (uint w \<le> k)"
proof -
  show u: "uint (of_int k :: 8 word) = k" using assms by (simp add: uint_word_of_int)
  then show "unat (of_int k :: 8 word) = nat k" by (metis unat_eq_nat_uint)
  show "((of_int k :: 8 word) = w) = (k = uint w)" using u by (metis word_uint_eqI)
  show "(w < of_int k) = (uint w < k)" "(w \<le> of_int k) = (uint w \<le> k)" using u by (simp_all add: word_less_def word_le_def)
qed

text \<open>What is written for an option that is readable: its type, then its length unless it is 1.\<close>

lemma serializeOption_readable:
  assumes "serializeOption ms opt = Inr bs" "option_readable of_ms opt"
  obtains body where "option_body_serialize ms (to_type opt) (to_length opt) (to_body opt) = Inr body"
    "bs = of_int (to_type opt) # (if to_length opt > 1 then [of_int (to_length opt)] else []) @ body"
  using assms by (auto simp: serializeOption_def option_readable_def bindE_eq_Inr Let_def)

lemma route_option_back:
  assumes t: "t \<in> {7, 131, 137}" and idx: "0 \<le> idx" "4 + 4 * idx < 256" and as: "as \<noteq> []" and l: "3 + 4 * int (length as) < 256"
  shows "readRouteOption (of_int t # of_int (3 + 4 * int (length as)) # of_int (4 + idx * 4) # concat (map be32_bytes as) @ s)
    = (\<lparr>to_type = t, to_length = 3 + 4 * int (length as), to_body = RecordRouteB idx as\<rparr>, s)"
proof -
  have tb: "uint (of_int t :: 8 word) = t" using t by (intro byte_of_int(1)) auto
  have "nat (3 + 4 * int (length as)) mod 4 = 3" "(nat (3 + 4 * int (length as)) - 3) div 4 = length as" by (simp_all add: nat_add_distrib nat_mult_distrib)
  moreover have "nat (4 + idx * 4) mod 4 = 0" using idx by (simp add: nat_add_distrib nat_mult_distrib)
  moreover have "3 < 3 + 4 * int (length as)" using as by simp
  ultimately show ?thesis
    unfolding readRouteOption_def using idx l byte_of_int[of "3 + 4 * int (length as)"] byte_of_int[of "4 + idx * 4"] tb
    by (simp add: readAddresses_bytes del: of_int_add of_int_mult of_int_numeral)
qed

lemma flag_byte: "\<forall>k \<in> set [0..15]. \<forall>flag \<in> {1, 3 :: int}. push_bit 4 k OR flag = 16 * k + flag"
  by (simp add: upto_rec1)

lemma readTimestampOption_entries:
  assumes "uint flagbyte mod 16 \<in> {1, 3}" "unat len = 4 + 8 * n" "0 < n" "unat pointer = 5 + 8 * idx"
    and "readEntries of_ms n s' = ((as, ts), s)"
  shows "readTimestampOption of_ms (type # len # pointer # flagbyte # s')
    = (\<lparr>to_type = uint type, to_length = uint len,
        to_body = TimestampB (uint flagbyte mod 16) (uint flagbyte div 16) (int idx) as ts\<rparr>, s)"
proof -
  have p: "uint pointer = 5 + 8 * int idx" using arg_cong[OF assms(4), of int] by simp
  have c: "4 < len" "5 \<le> pointer" using assms(2-4) by (simp_all add: word_less_nat_alt word_le_nat_alt)
  have d: "(unat len - 4) mod 8 = 0" "(unat len - 4) div 8 = n" "(unat pointer - 5) mod 8 = 0" "(uint pointer - 5) div 8 = int idx"
    using assms(2,4) p by simp_all
  have f: "uint flagbyte mod 16 \<in> {0, 1, 3}" "uint flagbyte mod 16 \<noteq> 0" using assms(1) by auto
  show ?thesis unfolding readTimestampOption_def Let_def readByte.simps case_prod_conv using f c d assms(5) by simp
qed

lemma timestamp_option_back:
  assumes flag: "flag \<in> {1, 3}" and ov: "0 \<le> overflow" "overflow < 16" and idx: "0 \<le> idx" "5 + 8 * idx < 256" and ts: "ts \<noteq> []"
    and l: "4 + 8 * int (length ts) < 256" "length as = length ts" and e: "timestamp_entries ms True as ts = Inr bs"
    and ms: "\<And>k. 0 \<le> k \<Longrightarrow> k < 2 ^ 32 \<Longrightarrow> ms (of_ms k) = k" "\<forall>t \<in> set ts. \<exists>k. 0 \<le> k \<and> k < 2 ^ 32 \<and> t = of_ms k"
  shows "readTimestampOption of_ms (68 # of_int (4 + 8 * int (length ts)) # of_int (5 + idx * 8) # of_int (push_bit 4 overflow OR flag) # bs @ s)
    = (\<lparr>to_type = 68, to_length = 4 + 8 * int (length ts), to_body = TimestampB flag overflow idx as ts\<rparr>, s)"
proof -
  let ?len = "of_int (4 + 8 * int (length ts)) :: 8 word" and ?ptr = "of_int (5 + idx * 8) :: 8 word"
  let ?fb = "of_int (push_bit 4 overflow OR flag) :: 8 word"
  have "overflow \<in> set [0..15]" using ov by simp
  then have fb: "push_bit 4 overflow OR flag = 16 * overflow + flag" using flag flag_byte by blast
  have fu: "uint ?fb = 16 * overflow + flag" unfolding fb using ov flag by (intro byte_of_int(1)) auto
  have fd: "uint ?fb mod 16 = flag" "uint ?fb div 16 = overflow" unfolding fu using flag by auto
  have lu: "uint ?len = 4 + 8 * int (length ts)" using l by (intro byte_of_int(1)) simp_all
  have lu': "unat ?len = 4 + 8 * length ts" unfolding unat_eq_nat_uint lu by (simp add: nat_add_distrib nat_mult_distrib)
  have pu: "uint ?ptr = 5 + idx * 8" using idx by (intro byte_of_int(1)) simp_all
  have pu': "unat ?ptr = 5 + 8 * nat idx" unfolding unat_eq_nat_uint pu using idx by (simp add: nat_add_distrib nat_mult_distrib)
  have "uint ?fb mod 16 \<in> {1, 3}" "0 < length ts" unfolding fd using flag ts by simp_all
  from readTimestampOption_entries[OF this(1) lu' this(2) pu' readEntries_bytes[OF e l(2) ms], of 68 s] show ?thesis
    unfolding fd lu using idx by simp
qed

text \<open>
  A timestamp option without addresses is read back without its times, and their bytes are read again
  as what follows the option.
\<close>

lemma length_timestamp_only: "timestamp_entries ms False as ts = Inr bs \<Longrightarrow> length bs = 4 * length ts"
  by (induction ts arbitrary: bs) (auto simp: bindE_eq_Inr)

lemma timestamp_only_not_read:
  assumes "serializeOption ms \<lparr>to_type = 68, to_length = 4 + 4 * int (length ts), to_body = TimestampB 0 0 0 as ts\<rparr> = Inr bs"
    and "ts \<noteq> []" "length ts \<le> 9"
  shows "\<exists>times. length times = 4 * length ts \<and> bs = [68, of_int (4 + 4 * int (length ts)), 5, 0] @ times
    \<and> deserializeOption of_ms (bs @ s)
        = (\<lparr>to_type = 68, to_length = 4 + 4 * int (length ts), to_body = TimestampB 0 0 0 [] (replicate (length ts) 0)\<rparr>, times @ s)"
proof -
  let ?l = "4 + 4 * int (length ts)" and ?n = "length ts"
  have m: "?l mod 65536 = ?l" and l1: "1 < ?l" using assms(3) by simp_all
  obtain times where t: "timestamp_entries ms False as ts = Inr times" "bs = [68, of_int ?l, 5, 0] @ times"
    using assms(1) l1 by (auto simp: serializeOption_def option_body_serialize_def Let_def bindE_eq_Inr m simp del: of_int_add)
  have lu: "uint (of_int ?l :: 8 word) = ?l" using assms(3) by (intro byte_of_int(1)) simp_all
  have lu': "unat (of_int ?l :: 8 word) = 4 + 4 * ?n" unfolding unat_eq_nat_uint lu by (simp add: nat_add_distrib nat_mult_distrib)
  have c: "4 < (of_int ?l :: 8 word)" using lu' assms(2) by (simp add: word_less_nat_alt del: of_int_add)
  have "deserializeOption of_ms (bs @ s) = readTimestampOption of_ms (68 # of_int ?l # 5 # 0 # times @ s)"
    unfolding t(2) by (simp add: deserializeOption_def del: of_int_add)
  also have "\<dots> = (\<lparr>to_type = 68, to_length = ?l, to_body = TimestampB 0 0 0 [] (replicate ?n 0)\<rparr>, times @ s)"
    unfolding readTimestampOption_def Let_def readByte.simps case_prod_conv lu lu' using c by simp
  finally show ?thesis using t length_timestamp_only by blast
qed

section \<open>Round trips\<close>

lemma raw_option_back:
  assumes "0 \<le> type" "type < 256" "2 + int (length bs) < 256"
  shows "readRawOption (of_int type # of_int (2 + int (length bs)) # bs @ s)
    = (\<lparr>to_type = type, to_length = 2 + int (length bs), to_body = RawB bs\<rparr>, s)"
proof -
  have u: "uint (of_int type :: 8 word) = type" "uint (of_int (2 + int (length bs)) :: 8 word) = 2 + int (length bs)"
    using assms by (auto intro!: byte_of_int(1) simp del: of_int_add)
  then have n: "unat (of_int (2 + int (length bs)) :: 8 word) - 2 = length bs" unfolding unat_eq_nat_uint u by simp
  show ?thesis unfolding readRawOption_def Let_def readByte.simps case_prod_conv n u readBytes_bytes by simp
qed

lemma route_option_back':
  assumes "t \<in> {7, 131, 137}" "0 \<le> idx" "4 + 4 * idx < 256" "as \<noteq> []" "3 + 4 * int (length as) < 256"
  shows "deserializeOption of_ms (of_int t # of_int (3 + 4 * int (length as)) # of_int (4 + idx * 4) # concat (map be32_bytes as) @ s)
    = (\<lparr>to_type = t, to_length = 3 + 4 * int (length as), to_body = RecordRouteB idx as\<rparr>, s)"
proof -
  have "(of_int t :: 8 word) \<in> {7, 131, 137}" using assms(1) by auto
  then show ?thesis using route_option_back[OF assms] by (auto simp: deserializeOption_def simp del: of_int_add of_int_mult)
qed

lemma raw_option_back':
  assumes "0 \<le> t" "t < 256" "t \<notin> {0, 1, 7, 68, 131, 136, 137, 148}" "2 + int (length bs) < 256"
  shows "deserializeOption of_ms (of_int t # of_int (2 + int (length bs)) # bs @ s)
    = (\<lparr>to_type = t, to_length = 2 + int (length bs), to_body = RawB bs\<rparr>, s)"
proof -
  have "(of_int t :: 8 word) \<notin> {0, 1, 7, 68, 131, 136, 137, 148}" using assms(1-3) by (simp add: byte_of_int(3))
  then show ?thesis using raw_option_back[OF assms(1,2,4)] by (simp add: deserializeOption_def del: of_int_add)
qed

lemma length_timestamp_entries: "timestamp_entries ms True as ts = Inr bs \<Longrightarrow> length bs = 8 * length ts"
proof (induction ts arbitrary: as bs)
  case (Cons t ts)
  then show ?case by (cases as) (auto simp: bindE_eq_Inr)
qed simp

lemma length_concat_be32: "length (concat (map be32_bytes as)) = 4 * length as"
  by (induction as) simp_all

text \<open>What the deserializer makes of an option of the serializer.\<close>

lemma option_back:
  assumes ser: "serializeOption ms opt = Inr bs" and r: "option_readable of_ms opt"
    and ms: "\<And>k. 0 \<le> k \<Longrightarrow> k < 2 ^ 32 \<Longrightarrow> ms (of_ms k) = k"
  shows "deserializeOption of_ms (bs @ s) = (opt, s) \<and> int (length bs) = to_length opt"
proof -
  obtain t l b where opt: "opt = \<lparr>to_type = t, to_length = l, to_body = b\<rparr>" by (cases opt)
  have tl: "0 \<le> t" "t < 256" "0 \<le> l" "l < 256" using r by (simp_all add: option_readable_def opt)
  obtain body where body: "option_body_serialize ms t l b = Inr body" "bs = of_int t # (if l > 1 then [of_int l] else []) @ body"
    by (rule serializeOption_readable[OF ser r]) (simp add: opt)
  show ?thesis
  proof (cases b)
    case EndB
    then show ?thesis using body by (auto simp: opt option_body_serialize_def deserializeOption_def split: if_splits)
  next
    case NopB
    then show ?thesis using body by (auto simp: opt option_body_serialize_def deserializeOption_def split: if_splits)
  next
    case (StreamIdB n)
    then show ?thesis using body
      by (auto simp: opt option_body_serialize_def deserializeOption_def readWordOption_def be_bytes_def[of n]
          readUint16Be_be_bytes[unfolded be_bytes_def, simplified] split: if_splits)
  next
    case (RouterAlertB n)
    then show ?thesis using body
      by (auto simp: opt option_body_serialize_def deserializeOption_def readWordOption_def be_bytes_def[of n]
          readUint16Be_be_bytes[unfolded be_bytes_def, simplified] split: if_splits)
  next
    case (TimestampB flag ov idx as ts)
    have f: "flag \<in> {1, 3}" "0 \<le> ov" "ov < 16" "0 \<le> idx" "5 + 8 * idx < 256" "ts \<noteq> []" "length as = length ts"
      "\<forall>t \<in> set ts. \<exists>k. 0 \<le> k \<and> k < 2 ^ 32 \<and> t = of_ms k"
      using r by (simp_all add: option_readable_def opt TimestampB)
    from body(1) f(1) obtain es where e: "t = 68" "l = 4 + 8 * int (length ts)" "timestamp_entries ms True as ts = Inr es"
      "body = [of_int (5 + idx * 8), of_int (push_bit 4 ov OR flag)] @ es"
      by (auto simp: option_body_serialize_def TimestampB Let_def bindE_eq_Inr simp del: of_int_add of_int_mult of_int_or_eq split: if_splits)
    have l1: "1 < l" "4 + 8 * int (length ts) < 256" using e(2) tl(4) by simp_all
    have bs: "bs = 68 # of_int l # of_int (5 + idx * 8) # of_int (push_bit 4 ov OR flag) # es"
      unfolding body(2) e(1,4) using l1(1) by simp
    have "deserializeOption of_ms (bs @ s) = readTimestampOption of_ms (bs @ s)" unfolding bs by (simp add: deserializeOption_def)
    also have "\<dots> = (opt, s)"
      unfolding bs opt e(1,2) TimestampB using timestamp_option_back[OF f(1-6) l1(2) f(7) e(3) ms f(8)] by simp
    finally show ?thesis using length_timestamp_entries[OF e(3)] e(2) by (simp add: bs opt)
  next
    case (RecordRouteB idx as)
    have f: "0 \<le> idx" "4 + 4 * idx < 256" "as \<noteq> []" using r by (simp_all add: option_readable_def opt RecordRouteB)
    from body(1) have e: "t \<in> {7, 131, 137}" "l = 3 + 4 * int (length as)" "body = [of_int (4 + idx * 4)] @ concat (map be32_bytes as)"
      by (auto simp: option_body_serialize_def RecordRouteB simp del: of_int_add of_int_mult split: if_splits)
    have l1: "1 < l" "3 + 4 * int (length as) < 256" using e(2) tl(4) by simp_all
    have bs: "bs = of_int t # of_int l # of_int (4 + idx * 4) # concat (map be32_bytes as)" unfolding body(2) e(3) using l1(1) by simp
    have "deserializeOption of_ms (bs @ s) = (opt, s)"
      unfolding bs opt e(2) RecordRouteB using route_option_back'[OF e(1) f l1(2), of of_ms s] by simp
    then show ?thesis using e(2) by (simp add: bs opt length_concat_be32)
  next
    case (RawB xs)
    have f: "t \<notin> {0, 1, 7, 68, 131, 136, 137, 148}" using r by (simp add: option_readable_def opt RawB)
    from body(1) have e: "l = 2 + int (length xs)" "body = xs" by (auto simp: option_body_serialize_def RawB split: if_splits)
    have l1: "1 < l" "2 + int (length xs) < 256" using e(1) tl(4) by simp_all
    have bs: "bs = of_int t # of_int l # xs" unfolding body(2) e(2) using l1(1) by simp
    have "deserializeOption of_ms (bs @ s) = (opt, s)" unfolding bs opt e(1) RawB using raw_option_back'[OF tl(1,2) f l1(2), of of_ms s] by simp
    then show ?thesis using e(1) by (simp add: bs opt)
  next
    case OtherB
    then show ?thesis using body(1) by (simp add: option_body_serialize_def split: if_splits)
  qed
qed

lemma padding_back: "deserializeOptions of_ms (int n) (replicate n 0 @ s) = (replicate n option_end, s)"
proof (induction n)
  case 0
  show ?case by (simp add: deserializeOptions.simps)
next
  case (Suc n)
  then show ?case by (subst deserializeOptions.simps) (simp add: deserializeOption_def)
qed

lemma options_back:
  assumes "map (serializeOption ms) opts = map Inr bss" "\<forall>opt \<in> set opts. option_readable of_ms opt"
    and ms: "\<And>k. 0 \<le> k \<Longrightarrow> k < 2 ^ 32 \<Longrightarrow> ms (of_ms k) = k"
  shows "deserializeOptions of_ms (int (length (concat bss) + n)) (concat bss @ replicate n 0 @ s)
    = (opts @ replicate n option_end, s)"
  using assms(1,2)
proof (induction opts arbitrary: bss)
  case Nil
  then show ?case by (simp add: padding_back)
next
  case (Cons opt opts)
  then obtain bs bss' where b: "bss = bs # bss'" "serializeOption ms opt = Inr bs" "map (serializeOption ms) opts = map Inr bss'"
    by (cases bss) auto
  have ne: "0 < length bs" using b(2) by (auto simp: serializeOption_def Let_def bindE_eq_Inr)
  then have pos: "0 < int n + (int (length bs) + int (length (concat bss')))" by linarith
  have "deserializeOption of_ms (bs @ concat bss' @ replicate n 0 @ s) = (opt, concat bss' @ replicate n 0 @ s)"
    using option_back[OF b(2) _ ms] Cons.prems(2) by simp
  then show ?case using ne pos Cons.IH[OF b(3)] Cons.prems(2) unfolding b(1)
    by (subst deserializeOptions.simps) (simp add: algebra_simps)
qed

lemma ip_off_back:
  assumes "0 \<le> ih_fragmentOffset h" "ih_fragmentOffset h < 65536" "ih_fragmentOffset h mod 8 = 0"
  shows "uint (ip_off_field h AND 0x1FFF) * 8 = ih_fragmentOffset h"
    and "(ip_off_field h AND 0x2000 \<noteq> 0) = ih_moreFragments h" "(ip_off_field h AND 0x4000 \<noteq> 0) = ih_dontFragment h"
    and "ip_off_field h AND 0x8000 = 0"
proof -
  let ?x = "of_int (ih_fragmentOffset h div 8) :: 16 word"
  have z: "(?x AND 0x1FFF) AND m = ?x AND (0x1FFF AND m)" for m by (simp add: and.assoc)
  have "ip_off_field h AND 0x1FFF = take_bit 13 ?x"
    by (simp add: ip_off_field_def bit.conj_disj_distrib2 z take_bit_eq_mask mask_eq_exp_minus_1)
  then have "uint (ip_off_field h AND 0x1FFF) = take_bit 13 (ih_fragmentOffset h div 8 mod 65536)"
    by (simp add: unsigned_take_bit_eq uint_of_int16)
  also have "\<dots> = ih_fragmentOffset h div 8" using assms(1,2) by (simp add: take_bit_eq_mod)
  finally show "uint (ip_off_field h AND 0x1FFF) * 8 = ih_fragmentOffset h" using assms(3) by auto
  show "(ip_off_field h AND 0x2000 \<noteq> 0) = ih_moreFragments h" "(ip_off_field h AND 0x4000 \<noteq> 0) = ih_dontFragment h"
    "ip_off_field h AND 0x8000 = 0"
    by (simp_all add: ip_off_field_def bit.conj_disj_distrib2 z)
qed

text \<open>The fixed part, and reading it from the front of any buffer.\<close>

definition ipv4_fixed :: "ipv4_header \<Rightarrow> 8 word list" where
  "ipv4_fixed h = [of_int (4 * 16 + ih_headerLength h div 4), ih_typeOfService h] @ be_bytes (of_int (ih_totalLength h))
     @ be_bytes (ih_identification h) @ be_bytes (ip_off_field h)
     @ [of_int (ih_timeToLive h), of_int (ih_protocolId h)] @ be_bytes (ih_crc h)
     @ be32_bytes (ih_srcAddress h) @ be32_bytes (ih_destAddress h)"

lemma length_ipv4_fixed: "length (ipv4_fixed h) = 20"
  by (simp add: ipv4_fixed_def be_bytes_def)

lemma ipv4_serialize_parts:
  assumes "ipv4_serialize h = Inr bs"
  shows "ih_headerLength h mod 4 = 0" "20 \<le> ih_headerLength h" "ih_headerLength h \<le> 60" "ih_headerLength h \<le> ih_totalLength h"
    and "ih_fragmentOffset h mod 8 = 0" "ih_crcMode h = CRC_COMPUTED"
    and "ih_headerLength h > 20 \<Longrightarrow> 20 + int (length (concat (ih_options h))) \<le> ih_headerLength h"
    and "bs = ipv4_fixed h @ (if ih_headerLength h > 20 then concat (ih_options h)
               @ replicate (nat (ih_headerLength h) - 20 - length (concat (ih_options h))) 0 else [])"
  using assms by (simp_all add: ipv4_serialize_def ipv4_fixed_def Let_def split: if_splits)

text \<open>C23: a header that can be serialized is read back: its fixed fields, with the time to live and the protocol modulo
  256, and its options, when each has a form that the deserializer produces; each byte of the padding is one more
  end option. The rest of the stream is left.
\<close>

theorem ipv4_header_roundtrip:
  assumes "ipv4_serialize h = Inr bs" and "ih_totalLength h < 65536" and "0 \<le> ih_fragmentOffset h" and "ih_fragmentOffset h < 65536"
    and "map (serializeOption ms) opts = map Inr (ih_options h)" and "\<forall>opt \<in> set opts. option_readable of_ms opt"
    and "ih_headerLength h = 20 \<Longrightarrow> opts = []" and "\<And>k. 0 \<le> k \<Longrightarrow> k < 2 ^ 32 \<Longrightarrow> ms (of_ms k) = k"
  shows "int (length bs) = ih_headerLength h
    \<and> ipv4_deserialize of_ms junk (bs @ rest)
      = (\<lparr>pd_version = 4,
          pd_header = h\<lparr>ih_timeToLive := ih_timeToLive h mod 256, ih_protocolId := ih_protocolId h mod 256, ih_options := []\<rparr>,
          pd_reservedBit = False,
          pd_options = opts @ replicate (nat (ih_headerLength h) - 20 - length (concat (ih_options h))) option_end,
          pd_incorrect = False, pd_incomplete = False\<rparr>, rest)"
proof -
  note p = ipv4_serialize_parts[OF assms(1)]
  let ?pad = "nat (ih_headerLength h) - 20 - length (concat (ih_options h))"
  define tail where "tail = (if ih_headerLength h > 20 then concat (ih_options h) @ replicate ?pad 0 else [])"
  have bs: "bs = ipv4_fixed h @ tail" using p(8) by (simp add: tail_def)
  have pad: "int ?pad = ih_headerLength h - 20 - int (length (concat (ih_options h)))" if "ih_headerLength h > 20"
  proof -
    have "20 + length (concat (ih_options h)) \<le> nat (ih_headerLength h)" using p(7)[OF that] p(2) by (simp add: le_nat_iff)
    then show ?thesis using p(2) by (simp add: of_nat_diff)
  qed
  have tail: "int (length tail) = ih_headerLength h - 20" using p(2) pad by (simp add: tail_def)
  have cut: "take 20 (bs @ rest) = ipv4_fixed h" "drop 20 (bs @ rest) = tail @ rest" "length (bs @ rest) \<ge> 20"
    by (simp_all add: bs length_ipv4_fixed)
  have v: "uint (of_int (4 * 16 + ih_headerLength h div 4) :: 8 word) = 64 + ih_headerLength h div 4"
    using p(2,3) by (subst byte_of_int(1)) auto
  have vd: "(64 + ih_headerLength h div 4) div 16 = 4" "4 * ((64 + ih_headerLength h div 4) mod 16) = ih_headerLength h"
  proof -
    have k: "0 \<le> ih_headerLength h div 4" "ih_headerLength h div 4 < 16" using p(2,3) by simp_all
    have "(64 + k) div 16 = 4 \<and> (64 + k) mod 16 = k" if "0 \<le> k" "k < 16" for k :: int using that by presburger
    from this[OF k] show "(64 + ih_headerLength h div 4) div 16 = 4" "4 * ((64 + ih_headerLength h div 4) mod 16) = ih_headerLength h"
      using p(1) by auto
  qed
  have tl: "uint (of_int (ih_totalLength h) :: 16 word) = ih_totalLength h" using p(2,4) assms(2) by (simp add: uint_of_int16)
  have opts: "(if ih_headerLength h > 20 then deserializeOptions of_ms (ih_headerLength h - 20) (tail @ rest) else ([], tail @ rest))
      = (opts @ replicate ?pad option_end, rest)"
  proof (cases "ih_headerLength h > 20")
    case True
    then have "int (length (concat (ih_options h)) + ?pad) = ih_headerLength h - 20" using pad by simp
    then show ?thesis using options_back[OF assms(5,6,8), of ?pad rest] True by (simp add: tail_def)
  next
    case False
    then have "ih_headerLength h = 20" using p(2) by simp
    then show ?thesis using assms(7) p(2) by (simp add: tail_def)
  qed
  have len: "int (length (bs @ rest)) = ih_headerLength h + int (length rest)" using tail by (simp add: bs length_ipv4_fixed)
  have mx: "max 20 (ih_headerLength h) = ih_headerLength h" using p(2) by simp
  have "ipv4_deserialize of_ms junk (bs @ rest) = (\<lparr>pd_version = 4,
      pd_header = \<lparr>ih_headerLength = ih_headerLength h, ih_typeOfService = ih_typeOfService h, ih_totalLength = ih_totalLength h,
        ih_identification = ih_identification h, ih_moreFragments = ih_moreFragments h, ih_dontFragment = ih_dontFragment h,
        ih_fragmentOffset = ih_fragmentOffset h, ih_timeToLive = ih_timeToLive h mod 256, ih_protocolId = ih_protocolId h mod 256,
        ih_crc = ih_crc h, ih_crcMode = CRC_COMPUTED, ih_srcAddress = ih_srcAddress h, ih_destAddress = ih_destAddress h,
        ih_options = []\<rparr>,
      pd_reservedBit = False, pd_options = opts @ replicate ?pad option_end, pd_incorrect = False, pd_incomplete = False\<rparr>, rest)"
    unfolding ipv4_deserialize_def Let_def cut ipv4_fixed_def append_assoc append_Cons append_Nil readByte.simps
      readUint16Be_be_bytes readUint32Be_bytes case_prod_conv v vd tl mx opts len ip_off_back[OF assms(3,4) p(5)]
    using p(2,4) by (simp add: uint_word_of_int)
  moreover have "int (length bs) = ih_headerLength h" using len by simp
  ultimately show ?thesis using p(6) by (cases h) simp
qed

text \<open>The number of milliseconds, for simulation time in picoseconds.\<close>

abbreviation to_ms :: "int \<Rightarrow> int" where "to_ms t \<equiv> t div 1000000000"

abbreviation from_ms :: "int \<Rightarrow> int" where "from_ms k \<equiv> k * 1000000000"

definition example_option_header :: ipv4_header where
  "example_option_header = \<lparr>ih_headerLength = 40, ih_typeOfService = 0, ih_totalLength = 100, ih_identification = 7,
     ih_moreFragments = True, ih_dontFragment = False, ih_fragmentOffset = 16, ih_timeToLive = 32, ih_protocolId = 17, ih_crc = 0xABCD,
     ih_crcMode = CRC_COMPUTED, ih_srcAddress = 0x0A000001, ih_destAddress = 0x0A000002,
     ih_options = [[148, 4, 0, 9], [68, 12, 5, 0x21, 10, 0, 0, 3, 0, 0, 1, 2], [1]]\<rparr>"

definition example_options :: "tlv_option list" where
  "example_options = [\<lparr>to_type = 148, to_length = 4, to_body = RouterAlertB 9\<rparr>,
     \<lparr>to_type = 68, to_length = 12, to_body = TimestampB 1 2 0 [0x0A000003] [from_ms 258]\<rparr>,
     \<lparr>to_type = 1, to_length = 1, to_body = NopB\<rparr>]"

theorem ipv4_header_roundtrip_witness:
  "\<exists>bs. ipv4_serialize example_option_header = Inr bs
    \<and> pd_options (fst (ipv4_deserialize from_ms [] (bs @ [9, 9]))) = example_options @ replicate 3 option_end
    \<and> snd (ipv4_deserialize from_ms [] (bs @ [9, 9])) = [9, 9]"
proof -
  have "\<exists>bs. ipv4_serialize example_option_header = Inr bs" by (simp add: ipv4_serialize_def example_option_header_def)
  then obtain bs where bs: "ipv4_serialize example_option_header = Inr bs" ..
  have o: "map (serializeOption to_ms) example_options = map Inr (ih_options example_option_header)"
    by (simp add: example_options_def example_option_header_def serializeOption_def option_body_serialize_def be_bytes_def be32_bytes_def)
  have r: "\<forall>opt \<in> set example_options. option_readable from_ms opt"
    by (auto simp: example_options_def option_readable_def intro: exI[of _ 258])
  have h: "ih_headerLength example_option_header = 40" "length (concat (ih_options example_option_header)) = 17"
    "ih_totalLength example_option_header < 65536" "0 \<le> ih_fragmentOffset example_option_header"
    "ih_fragmentOffset example_option_header < 65536"
    by (simp_all add: example_option_header_def)
  from ipv4_header_roundtrip[OF bs h(3-5) o r, of "[]" "[9, 9]"] show ?thesis using bs h(1,2) by simp
qed

text \<open>
  A timestamp option without addresses, with one time of 33535 milliseconds: its bytes 0, 0, 130, 255 are read as two end
  options and an option of 255 bytes, which takes 253 bytes of what follows the header.
\<close>

lemma snd_readBytes: "snd (readBytes n s) = drop n s"
proof (induction n arbitrary: s)
  case (Suc n)
  then show ?case by (cases s) (simp_all add: case_prod_beta)
qed simp

lemma deserializeOptions_step:
  assumes "deserializeOption of_ms s = (opt, s')" "s \<noteq> []" "0 < left"
  shows "snd (deserializeOptions of_ms left s) = snd (deserializeOptions of_ms (left - (int (length s) - int (length s'))) s')"
  using assms by (subst deserializeOptions.simps) (simp add: case_prod_beta)

lemma timestamp_takes_payload:
  assumes "serializeOption to_ms \<lparr>to_type = 68, to_length = 8, to_body = TimestampB 0 0 0 [] [from_ms 33535]\<rparr> = Inr opt"
    and "ipv4_serialize (example_option_header\<lparr>ih_headerLength := 28, ih_options := [opt]\<rparr>) = Inr bs"
  shows "snd (ipv4_deserialize from_ms junk (bs @ payload)) = drop 253 payload
    \<and> \<not> pd_incorrect (fst (ipv4_deserialize from_ms junk (bs @ payload)))"
proof -
  have opt: "opt = [68, 8, 5, 0, 0, 0, 130, 255]"
    using assms(1) by (auto simp: serializeOption_def option_body_serialize_def be32_bytes_def)
  have bs: "bs = [0x47, 0, 0, 100, 0, 7, 0x20, 2, 32, 17, 0xAB, 0xCD, 10, 0, 0, 1, 10, 0, 0, 2, 68, 8, 5, 0, 0, 0, 130, 255]"
    using assms(2) by (auto simp: opt ipv4_serialize_def example_option_header_def be32_bytes_def be_bytes_def ip_off_field_def)
  have t: "deserializeOption from_ms (68 # 8 # 5 # 0 # 0 # 0 # 130 # 255 # payload)
      = (\<lparr>to_type = 68, to_length = 8, to_body = TimestampB 0 0 0 [] [0]\<rparr>, 0 # 0 # 130 # 255 # payload)"
    by (simp add: deserializeOption_def readTimestampOption_def)
  have e: "deserializeOption from_ms (0 # s) = (option_end, s)" for s by (simp add: deserializeOption_def)
  have r: "deserializeOption from_ms (130 # 255 # payload)
      = (\<lparr>to_type = 130, to_length = 255, to_body = RawB (fst (readBytes 253 payload))\<rparr>, drop 253 payload)"
    by (simp add: deserializeOption_def readRawOption_def case_prod_beta snd_readBytes)
  have stop: "deserializeOptions from_ms (2 - (2 + int (length payload) - int (length payload - 253))) s = ([], s)" for s
  proof -
    have "\<not> length payload < length payload - 253" by simp
    then show ?thesis by (subst deserializeOptions.simps) simp
  qed
  have "snd (deserializeOptions from_ms 8 (68 # 8 # 5 # 0 # 0 # 0 # 130 # 255 # payload)) = drop 253 payload"
    using stop by (simp add: deserializeOptions_step[OF t] deserializeOptions_step[OF e] deserializeOptions_step[OF r])
  then show ?thesis
    unfolding bs ipv4_deserialize_def by (simp add: Let_def case_prod_beta readUint16Be_def readUint32Be_def)
qed

end
