(* ===== verification/Spec2Isabelle.thy ===== *)
theory Spec2Isabelle
  imports Rdma_Copies Udp_Path Ipv4_Sockets Mac_Relay Ethernet_Encap Arp_Ipv4 Icmp_Errors Icmp_Wire Ipv4_Wire
begin

text \<open>
  Verification library for the RDMA over Ethernet simulation model: the part of \<open>src/inet\<close> that was
  written or changed for it, and the protocol stack it runs on.

  \<^bold>\<open>The program.\<close> A node is a stack of modules that exchange packets over gates, in one thread,
  one event at a time. \<open>RdmaBasicApp\<close> creates messages on a timer and hands them to \<open>Rdma\<close>, which
  puts a header in front and cuts a long message into fragments of 4088 bytes; \<open>Ipv4\<close>
  encapsulates each in a datagram, routes it and fragments it again where the interface needs
  it, asking \<open>Arp\<close> for the MAC address and keeping what waits for it; \<open>EthernetEncapsulation\<close> (with \<open>Ieee8022Llc\<close>) puts the frame around it; switches
  (\<open>MacRelayUnit\<close> with \<open>MacAddressTable\<close>) forward the frame. On the way up the layers undo this.
  \<open>Icmp\<close> answers echo requests and reports errors of \<open>Ipv4\<close> and \<open>Udp\<close> to the sender.
  For RDMA, \<open>Ipv4\<close> does not reassemble: \<open>RdmaBasicApp\<close> holds the reassembly buffers of both
  levels. \<open>MyUdpBasicApp\<close> over \<open>UdpSocket\<close> and \<open>Udp\<close> is what the model is compared with: it cuts
  its messages by itself and reassembles them with a buffer of the same kind.

  \<^bold>\<open>How code is modelled.\<close> A module's members are a record and a handler is a function from the
  event and the state to what it sends, in order, and the new state. A \<open>throw\<close>, a failed
  \<open>ASSERT\<close> and a failed check of the packet library end the simulation: they are the left
  values of the result type \<open>res\<close> (\<open>Prelude\<close>). What the simulation kernel or another module
  decides is a parameter: the time, random numbers, module ids, whether a channel is busy, name
  resolution, hooks, and for \<open>Ipv4\<close> alone the answers of ARP (\<open>Arp_Ipv4\<close> joins the two). Integers of a fixed width that can wrap are words (ports,
  identifications, checksums, addresses); lengths and offsets, of type \<open>B\<close> (\<open>int64_t\<close>), are \<open>int\<close>;
  \<open>simtime_t\<close> is \<open>int\<close>, in ticks. Counters of type \<open>int\<close> are \<open>int\<close> without overflow. An
  ordered map is a list of entries in key order. A packet is the list of its bytes, a byte
  being data or byte \<open>i\<close> of a header (\<open>Packets\<close>).

  \<^bold>\<open>The theories\<close>, each with the files it models under \<open>src/inet\<close>:
  \<^item> \<open>Prelude\<close>: results and their sequencing, lists, ordered maps, binary search.
  \<^item> \<open>Chunk_Buffer\<close>: \<open>common/packet/ChunkBuffer\<close>, \<open>ReassemblyBuffer\<close>, \<open>ReorderBuffer\<close>. A buffer
    is refined to a partial map from positions to bytes; \<open>replace\<close> overlays it, whatever the merging
    does; fragments in any order reassemble.
  \<^item> \<open>Checksum\<close>: \<open>common/checksum/TcpIpChecksum\<close> and \<open>EthernetCRC\<close>, equal to the ones'
    complement sum and to the bitwise polynomial division.
  \<^item> \<open>Packets\<close>: addresses, headers, tags and \<open>common/packet/Packet\<close>.
  \<^item> \<open>Wire\<close>: \<open>common/ProtocolGroup\<close> and the serializers of the headers; round trips.
  \<^item> \<open>Ipv4_Wire\<close>: \<open>networklayer/ipv4/Ipv4HeaderSerializer\<close>: the IPv4 options, reading a header with options, and
    its round trip.
  \<^item> \<open>Frag_Bufs\<close>: \<open>Ipv4FragBuf\<close>, \<open>RdmaFragBuf\<close>, \<open>UdpFragBuf\<close> and the \<open>UdpFragBuf\<close> of the
    application, whose common text is one definition with the header class as a parameter; a
    locale states what the class must provide and is interpreted for the four.
  \<^item> \<open>Frag_Streams\<close>: the fragments of several datagrams interleaved. A locale states that a call
    depends on and changes one key only; then each datagram is completed as if alone. It
    also tracks the time of creation a completed datagram gets.
  \<^item> \<open>Routing_Table\<close>: \<open>networklayer/ipv4/Ipv4RoutingTable\<close> and \<open>Ipv4Route\<close>: order of
    the routes, caches, longest prefix, multicast routes.
  \<^item> \<open>Ipv4_Output\<close>, \<open>Ipv4_Input\<close>, \<open>Ipv4_Path\<close>, \<open>Ipv4_Invariant\<close>, \<open>Ipv4_Sockets\<close>: \<open>networklayer/ipv4/Ipv4\<close>:
    sending and both variants of fragmentation; receiving, forwarding, delivery and commands;
    one node's fragments delivered at another; the reachable states; who receives a datagram after a
    history of socket commands.
  \<^item> \<open>Arp\<close>, \<open>Arp_Ipv4\<close>, \<open>Arp_Wire\<close>: \<open>networklayer/arp/ipv4/Arp\<close> and \<open>ArpPacketSerializer\<close>: the cache,
    retries, probes and announcements, and the exchange of a request and its reply between two hosts.
    The locale \<open>address_resolver\<close> states what \<open>Ipv4\<close> needs of ARP and is interpreted by the model of
    \<open>Arp\<close>: a datagram that waits is sent or given up.
  \<^item> \<open>Icmp\<close>, \<open>Icmp_Errors\<close>, \<open>Icmp_Wire\<close>: \<open>networklayer/ipv4/Icmp\<close> and \<open>IcmpHeaderSerializer\<close>: no
    error is sent about an error, echo, and the way of an error about a UDP datagram back to the
    socket that sent it.
  \<^item> \<open>Rdma\<close>: \<open>transportlayer/rdma/Rdma\<close>: sending by loop and by timer, checksum, receiving.
  \<^item> \<open>Rdma_App\<close>: \<open>applications/rdmaapp/RdmaBasicApp\<close>: when messages are sent, and the two
    stages of the reception.
  \<^item> \<open>Rdma_Delivery\<close>: the composition of the sending application, \<open>Rdma\<close>, fragmented IPv4
    datagrams in any order, and the receiving application.
  \<^item> \<open>Rdma_Copies\<close>: what follows from header copies that are not complete (the \<open>copy\<close> functions of
    \<open>RdmaHeader\<close>, \<open>UdpHeader\<close> and \<open>ApplicationPacket\<close>): fragments of different messages are mixed.
  \<^item> \<open>Udp_Sockets\<close>, \<open>Udp\<close>: \<open>transportlayer/udp/Udp\<close>: the socket tables, ports, options and
    memberships; the packets.
  \<^item> \<open>Udp_Socket\<close>: \<open>transportlayer/contract/udp/UdpSocket\<close>, the socket object of an application.
  \<^item> \<open>Udp_App\<close>, \<open>Udp_App_Runs\<close>, \<open>Udp_Delivery\<close>, \<open>Udp_Path\<close>: \<open>applications/udpapp/MyUdpBasicApp\<close>: its handlers
    and what a message is sent as; the runs of all handlers, whose datagrams and counters are
    bounded; the reception of fragments in any order; the way of a message through the UDP modules of
    two hosts.
  \<^item> \<open>Mac_Table\<close>, \<open>Mac_Relay\<close>: \<open>linklayer/ethernet/common/MacAddressTable\<close> and \<open>MacRelayUnit\<close>
    with its base class; the table refines a map from stations to the port and time they
    were last seen.
  \<^item> \<open>Ethernet_Encap\<close>: \<open>linklayer/ethernet/basic/EthernetEncapsulation\<close> and
    \<open>linklayer/ieee8022/Ieee8022Llc\<close>; a frame sent is the frame received.

  \<^bold>\<open>Loops and bounds.\<close> The fragmentation loops (\<open>Ipv4\<close>, \<open>Rdma\<close>, \<open>MyUdpBasicApp\<close>) recurse with the bytes that are left as measure: a
  fragment that can be built is not empty. The search for an ephemeral port can meet a
  full table; it has a fuel of 65536 steps, more than the 3976 ports of the range, and
  \<open>udp_ephemeral_port\<close> shows that it is never used up. The loop over the options of a header (\<open>deserializeOptions\<close>) ends because each option takes
  a byte off the stream. \<open>rdmaApp_run\<close> counts events of a
  timer that may never end; \<open>rdma_app_schedule\<close> gives the number after which it has ended and
  \<open>rdma_app_keeps_sending\<close> shows when it does not end. \<open>arp_expires\<close> and \<open>node_expires\<close> count the timeouts of a request:
  \<open>arp_gives_up\<close> and \<open>node_waiting_ends\<close> show that after the number of retries of the configuration, at
  least one, nothing is pending or waiting. All other functions are total by
  structure.

  \<^bold>\<open>Where the code does not do what it means to.\<close> The theorems state what the code does. The ones
  that show a defect say so: a long RDMA message loses its first 8 bytes and has its header
  twice (\<open>rdma_large_message\<close>, \<open>rdma_app_end_to_end\<close>), fragments of two messages are taken for one
  message (\<open>rdma_messages_mixed\<close>), computing the checksum removes the marks of a fragment
  (\<open>rdma_hook_unfragments\<close>), a fragmented message of the UDP application arrives longer than it was
  (\<open>udp_app_end_to_end\<close>), a UDP socket that set an option before it was bound takes the datagrams of one that is
  bound to their address (\<open>udp_bind_takes_other_address\<close>), a dropped datagram stops the output of a
  node (\<open>ipv4_drop_stalls_output\<close>), the RDMA fragmentation raises on a channel with a
  transmission time (\<open>ipv4_rdma_channel_raises\<close>), short padding is passed up as data
  (\<open>rdma_receive_padding\<close>), the wire form of an RDMA header has no fragmentation fields
  (\<open>rdma_header_roundtrip\<close>), an announced address has an entry that is never resolved
  (\<open>arp_announced_unresolved\<close>), an ARP probe ends the simulation of its receiver
  (\<open>arp_probe_rejected\<close>), two datagrams that waited for one address raise on a channel with a
  transmission time (\<open>two_waiting_raise\<close>), a parameter problem cannot be sent
  (\<open>icmp_parameter_problem_raises\<close>) and an echo request without data cannot be answered
  (\<open>icmp_empty_echo_raises\<close>), the times of an IPv4 timestamp option without addresses are read as options,
  and bytes of the payload with them (\<open>timestamp_takes_payload\<close>).

  \<^bold>\<open>Not modelled.\<close> Message classes that the message compiler generates (their fields are in
  \<open>Packets\<close>), statistics signals, watches and display strings; the floating point
  statistics of \<open>finish\<close>; module registration and the lifecycle of the base classes beyond
  the start, stop and crash handlers; that the framework refuses a send on a busy channel;
  region tags, bit lengths and the conversion between representations of a chunk; the deserializers
  of the application and pseudo headers; \<open>GlobalArp\<close>; the MAC
  layers, TCP, routing protocols, mobility, wireless and the rest of the INET library, which
  this repository carries unchanged.
\<close>

end
